(* ===== verification/Interfaces.thy ===== *)
theory Interfaces
  imports Prelude
begin

text \<open>
  The contracts that components rely on, as locales: a keyed store, a state machine with an
  invariant, one whose log only grows, and a buffer that keeps the last entries. Each is
  interpreted in the theory of the component that provides the operations; dictionaries are
  interpreted here.
\<close>

section \<open>Keyed stores\<close>

locale keyed_store =
  fixes empty :: "'s"
    and lookup :: "'s \<Rightarrow> 'k \<Rightarrow> 'v option"
    and put :: "'k \<Rightarrow> 'v \<Rightarrow> 's \<Rightarrow> 's"
    and remove :: "'k \<Rightarrow> 's \<Rightarrow> 's"
    and ok :: "'s \<Rightarrow> bool"
  assumes lookup_empty: "lookup empty k = None"
    and lookup_put: "ok s \<Longrightarrow> lookup (put k v s) k' = (if k' = k then Some v else lookup s k')"
    and lookup_remove: "ok s \<Longrightarrow> lookup (remove k s) k' = (if k' = k then None else lookup s k')"
    and ok_empty: "ok empty"
    and ok_put: "ok s \<Longrightarrow> ok (put k v s)"
    and ok_remove: "ok s \<Longrightarrow> ok (remove k s)"
begin

lemma ok_put_all: "ok s \<Longrightarrow> ok (fold (\<lambda>(k, v). put k v) kvs s)"
  by (induction kvs arbitrary: s) (auto intro: ok_put)

lemma lookup_put_all:
  "ok s \<Longrightarrow> k \<notin> fst ` set kvs \<Longrightarrow> lookup (fold (\<lambda>(k, v). put k v) kvs s) k = lookup s k"
proof (induction kvs arbitrary: s)
  case (Cons p kvs)
  obtain k' v where p: "p = (k', v)" by (cases p)
  from Cons.prems have "lookup (fold (\<lambda>(k, v). put k v) kvs (put k' v s)) k = lookup (put k' v s) k"
    by (intro Cons.IH) (auto intro: ok_put)
  with Cons.prems show ?case by (auto simp: p lookup_put)
qed simp

lemma lookup_last_put:
  "ok s \<Longrightarrow> k \<notin> fst ` set kvs \<Longrightarrow> lookup (fold (\<lambda>(k, v). put k v) kvs (put k v s)) k = Some v"
  by (simp add: lookup_put_all ok_put lookup_put)

end

interpretation dict: keyed_store "[]" dict_get dict_set dict_del dict_wf
  by unfold_locales simp_all

section \<open>State machines with an invariant\<close>

locale machine =
  fixes step :: "'s \<Rightarrow> 'o \<Rightarrow> 's"
    and inv :: "'s \<Rightarrow> bool"
  assumes inv_step: "inv s \<Longrightarrow> inv (step s c)"
begin

lemma inv_run: "inv s \<Longrightarrow> inv (foldl step s cs)"
  by (induction cs arbitrary: s) (auto intro: inv_step)

lemma run_append: "foldl step s (cs @ ds) = foldl step (foldl step s cs) ds"
  by simp

end

text \<open>A machine whose log only grows: entries are never changed, reordered or removed.\<close>

locale logged_machine = machine step inv
  for step :: "'s \<Rightarrow> 'o \<Rightarrow> 's" and inv :: "'s \<Rightarrow> bool" +
  fixes log :: "'s \<Rightarrow> 'e list"
  assumes log_step: "inv s \<Longrightarrow> \<exists>new. log (step s c) = log s @ new"
begin

lemma log_run: "inv s \<Longrightarrow> \<exists>new. log (foldl step s cs) = log s @ new"
proof (induction cs arbitrary: s)
  case (Cons c cs)
  from Cons.prems obtain n1 where n1: "log (step s c) = log s @ n1" using log_step by blast
  from Cons obtain n2 where "log (foldl step (step s c) cs) = log (step s c) @ n2"
    using inv_step by blast
  with n1 show ?case by (simp add: append.assoc)
qed simp

lemma log_kept: "inv s \<Longrightarrow> i < length (log s) \<Longrightarrow> log (foldl step s cs) ! i = log s ! i"
  using log_run [of s cs] by (auto simp: nth_append)

end

section \<open>Buffers that keep the last entries\<close>

locale last_buffer =
  fixes push :: "'b \<Rightarrow> 'a \<Rightarrow> 'b"
    and contents :: "'b \<Rightarrow> 'a list"
    and cap :: nat
  assumes push_contents: "contents (push b x) = take_last cap (contents b @ [x])"
begin

lemma contents_bounded: "length (contents b) \<le> cap \<Longrightarrow> length (contents (foldl push b xs)) \<le> cap"
proof (induction xs arbitrary: b)
  case (Cons x xs)
  show ?case
    by (simp, rule Cons.IH) (simp add: push_contents)
qed simp

lemma contents_pushes:
  assumes "length (contents b) \<le> cap"
  shows "contents (foldl push b xs) = take_last cap (contents b @ xs)"
proof (induction xs rule: rev_induct)
  case Nil
  from assms show ?case by simp
next
  case (snoc x xs)
  then have "contents (foldl push b (xs @ [x])) = take_last cap (take_last cap (contents b @ xs) @ [x])"
    by (simp add: push_contents)
  then show ?case
    using take_last_snoc_take_last [of cap "contents b @ xs" x] by simp
qed

end

end
