(* ===== verification/Py_Values.thy ===== *)
theory Py_Values
  imports Interfaces Complex_Main
begin

text \<open>
  The Python values the rule language works on: the values of JSON (\<open>None\<close>, booleans, integers,
  floats, strings, lists and dictionaries) and the evaluator's sentinel for an absent field, with
  Python's truth, equality, ordering and \<open>str\<close> on them.
\<close>

section \<open>Floats\<close>

text \<open>
  A float is a finite binary64 value, held as the rational it denotes, an infinity or NaN. The
  sign of a zero is not kept: no comparison of the rule language sees it.
\<close>

datatype py_float = FFin rat | FPosInf | FNegInf | FNaN

definition round_half_even :: "rat \<Rightarrow> int" where
  "round_half_even x =
     (let f = \<lfloor>x\<rfloor>; r = x - of_int f
      in if r < 1 / 2 then f else if 1 / 2 < r then f + 1 else if even f then f else f + 1)"

fun bit_length :: "nat \<Rightarrow> nat" where
  "bit_length n = (if n = 0 then 0 else Suc (bit_length (n div 2)))"

declare bit_length.simps [simp del]

definition two_power :: "int \<Rightarrow> rat" where
  "two_power e = (if 0 \<le> e then 2 ^ nat e else 1 / 2 ^ nat (- e))"

text \<open>
  \<open>float_of_decimal digits places\<close> is \<open>float()\<close> of the numeral with these digits, the last \<open>places\<close> of
  them after the point: the nearest binary64 value, ties to even, infinity on overflow.
\<close>

definition float_of_decimal :: "nat \<Rightarrow> nat \<Rightarrow> py_float" where
  "float_of_decimal n places =
     (if n = 0 then FFin 0 else
      let q = of_nat n / 10 ^ places;
          e0 = int (bit_length n) - int (bit_length (10 ^ places)) - 53;
          e1 = (if 2 ^ 53 \<le> q / two_power e0 then e0 + 1 else e0);
          e = max e1 (- 1074);
          v = of_int (round_half_even (q / two_power e)) * two_power e
      in if 2 ^ 1024 \<le> v then FPosInf else FFin v)"

section \<open>Values\<close>

datatype py_num = NInt int | NFloat py_float

datatype pval =
  VNone
| VBool bool
| VNum py_num
| VStr string
| VList "pval list"
| VDict "(string \<times> pval) list"
| VMissing

text \<open>Numbers compare by value, across integers, floats and booleans; NaN is unordered.\<close>

fun num_float :: "py_num \<Rightarrow> py_float" where
  "num_float (NInt i) = FFin (of_int i)"
| "num_float (NFloat f) = f"

fun float_eq :: "py_float \<Rightarrow> py_float \<Rightarrow> bool" where
  "float_eq (FFin a) (FFin b) = (a = b)"
| "float_eq FPosInf FPosInf = True"
| "float_eq FNegInf FNegInf = True"
| "float_eq _ _ = False"

fun float_lt :: "py_float \<Rightarrow> py_float \<Rightarrow> bool" where
  "float_lt (FFin a) (FFin b) = (a < b)"
| "float_lt FNegInf (FFin b) = True"
| "float_lt FNegInf FPosInf = True"
| "float_lt (FFin a) FPosInf = True"
| "float_lt _ _ = False"

definition float_le :: "py_float \<Rightarrow> py_float \<Rightarrow> bool" where
  "float_le a b \<longleftrightarrow> float_lt a b \<or> float_eq a b"

fun as_number :: "pval \<Rightarrow> py_float option" where
  "as_number (VBool b) = Some (FFin (if b then 1 else 0))"
| "as_number (VNum n) = Some (num_float n)"
| "as_number _ = None"

text \<open>\<open>bool(v)\<close>: the sentinel for an absent field is false.\<close>

fun truthy :: "pval \<Rightarrow> bool" where
  "truthy VNone = False"
| "truthy (VBool b) = b"
| "truthy (VNum n) = (\<not> float_eq (num_float n) (FFin 0))"
| "truthy (VStr s) = (s \<noteq> [])"
| "truthy (VList xs) = (xs \<noteq> [])"
| "truthy (VDict d) = (d \<noteq> [])"
| "truthy VMissing = False"

text \<open>
  \<open>a == b\<close>: values of different kinds are unequal, except that a boolean is the number 0 or 1;
  dictionaries are equal when they have the same keys with equal values, in any order. The second
  equation of each group looks the key of the left dictionary up in the right one.
\<close>

fun py_eq :: "pval \<Rightarrow> pval \<Rightarrow> bool"
  and py_eq_list :: "pval list \<Rightarrow> pval list \<Rightarrow> bool"
  and py_eq_dict :: "(string \<times> pval) list \<Rightarrow> (string \<times> pval) list \<Rightarrow> bool" where
  "py_eq (VStr s) v = (case v of VStr t \<Rightarrow> s = t | _ \<Rightarrow> False)"
| "py_eq (VList xs) v = (case v of VList ys \<Rightarrow> py_eq_list xs ys | _ \<Rightarrow> False)"
| "py_eq (VDict d) v =
     (case v of VDict d' \<Rightarrow> length d = length d' \<and> py_eq_dict d d' | _ \<Rightarrow> False)"
| "py_eq VNone v = (v = VNone)"
| "py_eq VMissing v = (v = VMissing)"
| "py_eq (VBool b) v =
     (case as_number v of Some y \<Rightarrow> float_eq (FFin (if b then 1 else 0)) y | None \<Rightarrow> False)"
| "py_eq (VNum n) v = (case as_number v of Some y \<Rightarrow> float_eq (num_float n) y | None \<Rightarrow> False)"
| "py_eq_list [] ys = (ys = [])"
| "py_eq_list (x # xs) ys = (case ys of [] \<Rightarrow> False | y # ys' \<Rightarrow> py_eq x y \<and> py_eq_list xs ys')"
| "py_eq_dict [] d' = True"
| "py_eq_dict ((k, x) # d) d' =
     ((case dict_get d' k of None \<Rightarrow> False | Some y \<Rightarrow> py_eq x y) \<and> py_eq_dict d d')"

text \<open>String order is lexicographic by code point.\<close>

fun str_lt :: "string \<Rightarrow> string \<Rightarrow> bool" where
  "str_lt s [] = False"
| "str_lt [] (d # ds) = True"
| "str_lt (c # cs) (d # ds) = (code c < code d \<or> (c = d \<and> str_lt cs ds))"

text \<open>
  \<open>a < b\<close>: \<open>None\<close> is the TypeError Python raises for two values that have no order (a string and
  a number, two dictionaries, \<open>None\<close>). Lists compare at their first unequal position.
\<close>

fun py_lt :: "pval \<Rightarrow> pval \<Rightarrow> bool option"
  and py_lt_list :: "pval list \<Rightarrow> pval list \<Rightarrow> bool option" where
  "py_lt (VStr s) v = (case v of VStr t \<Rightarrow> Some (str_lt s t) | _ \<Rightarrow> None)"
| "py_lt (VList xs) v = (case v of VList ys \<Rightarrow> py_lt_list xs ys | _ \<Rightarrow> None)"
| "py_lt (VBool b) v =
     map_option (float_lt (FFin (if b then 1 else 0))) (as_number v)"
| "py_lt (VNum n) v = map_option (float_lt (num_float n)) (as_number v)"
| "py_lt VNone v = None"
| "py_lt (VDict d) v = None"
| "py_lt VMissing v = None"
| "py_lt_list [] ys = Some (ys \<noteq> [])"
| "py_lt_list (x # xs) ys =
     (case ys of [] \<Rightarrow> Some False
      | y # ys' \<Rightarrow> if py_eq x y then py_lt_list xs ys' else py_lt x y)"

fun py_le :: "pval \<Rightarrow> pval \<Rightarrow> bool option"
  and py_le_list :: "pval list \<Rightarrow> pval list \<Rightarrow> bool option" where
  "py_le (VStr s) v = (case v of VStr t \<Rightarrow> Some (str_lt s t \<or> s = t) | _ \<Rightarrow> None)"
| "py_le (VList xs) v = (case v of VList ys \<Rightarrow> py_le_list xs ys | _ \<Rightarrow> None)"
| "py_le (VBool b) v =
     map_option (float_le (FFin (if b then 1 else 0))) (as_number v)"
| "py_le (VNum n) v = map_option (float_le (num_float n)) (as_number v)"
| "py_le VNone v = None"
| "py_le (VDict d) v = None"
| "py_le VMissing v = None"
| "py_le_list [] ys = Some True"
| "py_le_list (x # xs) ys =
     (case ys of [] \<Rightarrow> Some False
      | y # ys' \<Rightarrow> if py_eq x y then py_le_list xs ys' else py_le x y)"

definition py_in_list :: "pval \<Rightarrow> pval list \<Rightarrow> bool" where
  "py_in_list v xs \<longleftrightarrow> list_ex (py_eq v) xs"

text \<open>
  \<open>str(v)\<close>. The text of a float, a list or a dictionary is Python's \<open>repr\<close>, a parameter here.
\<close>

fun py_str :: "(pval \<Rightarrow> string) \<Rightarrow> pval \<Rightarrow> string" where
  "py_str repr (VStr s) = s"
| "py_str repr (VNum (NInt i)) = int_to_string i"
| "py_str repr (VBool b) = (if b then ''True'' else ''False'')"
| "py_str repr VNone = ''None''"
| "py_str repr v = repr v"

text \<open>A text that may be missing, as the value it is in Python.\<close>

definition text_value :: "string option \<Rightarrow> pval" where
  "text_value x = (case x of None \<Rightarrow> VNone | Some s \<Rightarrow> VStr s)"

lemma py_lt_numbers: "as_number v \<noteq> None \<Longrightarrow> as_number w \<noteq> None \<Longrightarrow> py_lt v w \<noteq> None"
  by (cases v) auto

lemma py_lt_mixed: "py_lt (VStr s) (VNum n) = None" "py_lt (VNum n) (VStr s) = None"
  by simp_all

end
