(* ===== verification/PRL_Ast.thy ===== *)
theory PRL_Ast
  imports Py_Values
begin

text \<open>
  \<open>backend/engine/parser/ast.py\<close>: the syntax tree of the rule language, its traversal and its
  debugging printer, and the well-formedness the parser guarantees. Every node carries the line
  and column of its source position.
\<close>

datatype node =
  StringLiteral nat nat string
| NumberLiteral nat nat py_num
| BoolLiteral nat nat bool
| ListLiteral nat nat "node list"
| Identifier nat nat string
| FieldAccess nat nat string "string list"
| Compare nat nat string node node
| BinaryOp nat nat string node node
| UnaryOp nat nat string node
| FunctionCall nat nat string "node list"
| Rule nat nat node

fun node_line :: "node \<Rightarrow> nat" where
  "node_line (StringLiteral l _ _) = l"
| "node_line (NumberLiteral l _ _) = l"
| "node_line (BoolLiteral l _ _) = l"
| "node_line (ListLiteral l _ _) = l"
| "node_line (Identifier l _ _) = l"
| "node_line (FieldAccess l _ _ _) = l"
| "node_line (Compare l _ _ _ _) = l"
| "node_line (BinaryOp l _ _ _ _) = l"
| "node_line (UnaryOp l _ _ _) = l"
| "node_line (FunctionCall l _ _ _) = l"
| "node_line (Rule l _ _) = l"

fun node_col :: "node \<Rightarrow> nat" where
  "node_col (StringLiteral _ c _) = c"
| "node_col (NumberLiteral _ c _) = c"
| "node_col (BoolLiteral _ c _) = c"
| "node_col (ListLiteral _ c _) = c"
| "node_col (Identifier _ c _) = c"
| "node_col (FieldAccess _ c _ _) = c"
| "node_col (Compare _ c _ _ _) = c"
| "node_col (BinaryOp _ c _ _ _) = c"
| "node_col (UnaryOp _ c _ _) = c"
| "node_col (FunctionCall _ c _ _) = c"
| "node_col (Rule _ c _) = c"

text \<open>\<open>walk\<close>: a node and all below it, depth first.\<close>

fun walk :: "node \<Rightarrow> node list" where
  "walk (Compare l c op a b) = Compare l c op a b # walk a @ walk b"
| "walk (BinaryOp l c op a b) = BinaryOp l c op a b # walk a @ walk b"
| "walk (UnaryOp l c op a) = UnaryOp l c op a # walk a"
| "walk (FunctionCall l c f args) = FunctionCall l c f args # concat (map walk args)"
| "walk (ListLiteral l c els) = ListLiteral l c els # concat (map walk els)"
| "walk (Rule l c a) = Rule l c a # walk a"
| "walk n = [n]"

text \<open>
  \<open>pretty_print\<close>, as the list of its lines. Numbers print with Python's \<open>str\<close>, a parameter.
\<close>

definition pad :: "nat \<Rightarrow> string" where
  "pad indent = concat (replicate indent ''  '')"

fun join_dots :: "string list \<Rightarrow> string" where
  "join_dots [] = []"
| "join_dots [s] = s"
| "join_dots (s # t # ts) = s @ CHR ''.'' # join_dots (t # ts)"

fun pretty_lines :: "(py_num \<Rightarrow> string) \<Rightarrow> nat \<Rightarrow> node \<Rightarrow> string list" where
  "pretty_lines num i (StringLiteral l c v) =
     [pad i @ ''String('' @ [CHR 0x22] @ v @ [CHR 0x22] @ '')'']"
| "pretty_lines num i (NumberLiteral l c v) = [pad i @ ''Number('' @ num v @ '')'']"
| "pretty_lines num i (BoolLiteral l c v) =
     [pad i @ ''Bool('' @ (if v then ''True'' else ''False'') @ '')'']"
| "pretty_lines num i (Identifier l c n) = [pad i @ ''Ident('' @ n @ '')'']"
| "pretty_lines num i (FieldAccess l c ob path) =
     [pad i @ ''Field('' @ join_dots (ob # path) @ '')'']"
| "pretty_lines num i (Compare l c op a b) =
     (pad i @ ''Compare('' @ op @ '')'') # pretty_lines num (i + 1) a @ pretty_lines num (i + 1) b"
| "pretty_lines num i (BinaryOp l c op a b) =
     (pad i @ ''BinaryOp('' @ op @ '')'') # pretty_lines num (i + 1) a @ pretty_lines num (i + 1) b"
| "pretty_lines num i (UnaryOp l c op a) =
     (pad i @ ''UnaryOp('' @ op @ '')'') # pretty_lines num (i + 1) a"
| "pretty_lines num i (FunctionCall l c f args) =
     (pad i @ ''Call('' @ f @ '')'') # concat (map (pretty_lines num (i + 1)) args)"
| "pretty_lines num i (ListLiteral l c els) =
     (pad i @ ''List'') # concat (map (pretty_lines num (i + 1)) els)"
| "pretty_lines num i (Rule l c a) = (pad i @ ''Rule'') # pretty_lines num (i + 1) a"

lemma walk_self: "n \<in> set (walk n)"
  by (cases n) auto

text \<open>The printer writes exactly one line for every node that \<open>walk\<close> visits.\<close>

lemma pretty_lines_walk: "length (pretty_lines num i n) = length (walk n)"
  by (induction n arbitrary: i) (simp_all add: length_concat o_def cong: map_cong)

end
