(* ===== verification/PRL_Lexer.thy ===== *)
theory PRL_Lexer
  imports PRL_Ast
begin

text \<open>
  \<open>backend/engine/parser/lexer.py\<close>: the tokenizer. The lexer object's \<open>source\<close> and \<open>pos\<close> are the
  remaining text, \<open>source[pos:]\<close>; its \<open>line\<close> and \<open>col\<close> are a position. An error carries what went
  wrong instead of the formatted message.
\<close>

section \<open>Tokens\<close>

datatype token_type =
  STRING | NUMBER | BOOL | IDENT | AND | OR | NOT | IN
| EQ | NEQ | GT | LT | GTE | LTE
| LPAREN | RPAREN | LBRACKET | RBRACKET | COMMA | DOT | EOF

datatype token_value = TVStr string | TVNum py_num | TVBool bool

record token =
  ttype :: token_type
  tvalue :: token_value
  tline :: nat
  tcol :: nat

type_synonym position = "nat \<times> nat"

definition mk_token :: "token_type \<Rightarrow> token_value \<Rightarrow> position \<Rightarrow> token" where
  "mk_token ty v p = \<lparr>ttype = ty, tvalue = v, tline = fst p, tcol = snd p\<rparr>"

lemma mk_token_simps [simp]:
  "ttype (mk_token ty v p) = ty" "tvalue (mk_token ty v p) = v"
  "tline (mk_token ty v p) = fst p" "tcol (mk_token ty v p) = snd p"
  by (simp_all add: mk_token_def)

datatype lex_message =
  UnterminatedEscape | UnterminatedString | InvalidNumber string | UnexpectedCharacter char

datatype lex_error = LexerError lex_message nat nat

fun keyword :: "string \<Rightarrow> token_type option" where
  "keyword w =
     (if w = ''AND'' \<or> w = ''and'' then Some AND
      else if w = ''OR'' \<or> w = ''or'' then Some OR
      else if w = ''NOT'' \<or> w = ''not'' then Some NOT
      else if w = ''IN'' \<or> w = ''in'' then Some IN
      else if w \<in> {''true'', ''false'', ''True'', ''False''} then Some BOOL
      else None)"

text \<open>\<open>word.upper()\<close> of an operator keyword.\<close>

fun keyword_upper :: "token_type \<Rightarrow> string" where
  "keyword_upper AND = ''AND''"
| "keyword_upper OR = ''OR''"
| "keyword_upper NOT = ''NOT''"
| "keyword_upper IN = ''IN''"
| "keyword_upper _ = []"

section \<open>Scanning\<close>

definition newline :: char where
  "newline = CHR 0x0A"

definition bump :: "char \<Rightarrow> position \<Rightarrow> position" where
  "bump c p = (if c = newline then (Suc (fst p), 1) else (fst p, Suc (snd p)))"

fun bump_all :: "string \<Rightarrow> position \<Rightarrow> position" where
  "bump_all [] p = p"
| "bump_all (c # cs) p = bump_all cs (bump c p)"

definition is_blank :: "char \<Rightarrow> bool" where
  "is_blank c \<longleftrightarrow> c = CHR '' '' \<or> c = CHR 0x09 \<or> c = CHR 0x0D \<or> c = newline"

fun skip_comment :: "string \<Rightarrow> position \<Rightarrow> string \<times> position" where
  "skip_comment [] p = ([], p)"
| "skip_comment (c # cs) p = (if c \<noteq> newline then skip_comment cs (bump c p) else (c # cs, p))"

lemma skip_comment_length: "length (fst (skip_comment s p)) \<le> length s"
  by (induction s p rule: skip_comment.induct) auto

lemma skip_comment_hash:
  assumes "skip_comment (CHR ''#'' # cs) p = (s', p')"
  shows "length s' \<le> length cs"
  using assms skip_comment_length [of cs "bump (CHR ''#'') p"] by (simp add: newline_def)

function skip_blank :: "string \<Rightarrow> position \<Rightarrow> string \<times> position" where
  "skip_blank [] p = ([], p)"
| "skip_blank (c # cs) p =
     (if is_blank c then skip_blank cs (bump c p)
      else if c = CHR ''#'' then (case skip_comment (c # cs) p of (s', p') \<Rightarrow> skip_blank s' p')
      else (c # cs, p))"
  by pat_completeness auto
termination
  by (relation "measure (\<lambda>(s, p). length s)")
     (auto simp del: skip_comment.simps split: prod.splits dest!: skip_comment_hash)

fun escape_char :: "char \<Rightarrow> char" where
  "escape_char e =
     (if e = CHR ''n'' then newline else if e = CHR ''t'' then CHR 0x09
      else if e = CHR 0x5C then CHR 0x5C else if e = CHR 0x22 then CHR 0x22
      else if e = CHR ''r'' then CHR 0x0D else e)"

text \<open>
  \<open>_read_string\<close>, after the opening quote: \<open>start\<close> is where the string began, \<open>acc\<close> what was
  read so far.
\<close>

fun read_string ::
  "position \<Rightarrow> string \<Rightarrow> string \<Rightarrow> position \<Rightarrow> lex_error + (token \<times> string \<times> position)" where
  "read_string start acc [] p = Inl (LexerError UnterminatedString (fst start) (snd start))"
| "read_string start acc (c # cs) p =
     (if c = CHR 0x22 then Inr (mk_token STRING (TVStr acc) start, cs, bump c p)
      else if c = CHR 0x5C then
        (case cs of
           [] \<Rightarrow> Inl (LexerError UnterminatedEscape (fst (bump c p)) (snd (bump c p)))
         | e # es \<Rightarrow> read_string start (acc @ [escape_char e]) es (bump e (bump c p)))
      else read_string start (acc @ [c]) cs (bump c p))"

fun number_span :: "bool \<Rightarrow> string \<Rightarrow> string \<times> bool \<times> string" where
  "number_span has_dot [] = ([], has_dot, [])"
| "number_span has_dot (c # cs) =
     (if py_isdigit c \<or> c = CHR ''_'' then
        (case number_span has_dot cs of (raw, d, rest) \<Rightarrow> (c # raw, d, rest))
      else if c = CHR ''.'' \<and> \<not> has_dot then
        (case number_span True cs of (raw, d, rest) \<Rightarrow> (c # raw, d, rest))
      else ([], has_dot, c # cs))"

text \<open>
  \<open>int(raw)\<close> accepts decimal digits only (not the superscripts \<open>isdigit\<close> lets through) and at
  most 4300 of them; \<open>float(raw)\<close> accepts digits around one point.
\<close>

definition parse_int :: "string \<Rightarrow> int option" where
  "parse_int raw =
     (if raw \<noteq> [] \<and> list_all is_ascii_digit raw \<and> length raw \<le> 4300
      then Some (int (digits_value raw)) else None)"

definition parse_float :: "string \<Rightarrow> py_float option" where
  "parse_float raw =
     (let whole = takeWhile (\<lambda>c. c \<noteq> CHR ''.'') raw;
          places = drop (Suc (length whole)) raw
      in if list_all is_ascii_digit (whole @ places) \<and> whole @ places \<noteq> []
         then Some (float_of_decimal (digits_value (whole @ places)) (length places)) else None)"

definition read_number ::
  "string \<Rightarrow> position \<Rightarrow> lex_error + (token \<times> string \<times> position)" where
  "read_number s start =
     (case number_span False s of (digits, has_dot, rest) \<Rightarrow>
        let raw = filter (\<lambda>c. c \<noteq> CHR ''_'') digits;
            value = (if has_dot then map_option NFloat (parse_float raw)
                     else map_option NInt (parse_int raw))
        in case value of
             None \<Rightarrow> Inl (LexerError (InvalidNumber raw) (fst start) (snd start))
           | Some v \<Rightarrow> Inr (mk_token NUMBER (TVNum v) start, rest, bump_all digits start))"

definition is_ident_char :: "char \<Rightarrow> bool" where
  "is_ident_char c \<longleftrightarrow> py_isalnum c \<or> c = CHR ''_''"

definition read_identifier :: "string \<Rightarrow> position \<Rightarrow> token \<times> string \<times> position" where
  "read_identifier s start =
     (let word = takeWhile is_ident_char s;
          rest = dropWhile is_ident_char s;
          p = bump_all word start
      in case keyword word of
           Some BOOL \<Rightarrow> (mk_token BOOL (TVBool (word = ''true'' \<or> word = ''True'')) start, rest, p)
         | Some tt \<Rightarrow> (mk_token tt (TVStr (keyword_upper tt)) start, rest, p)
         | None \<Rightarrow> (mk_token IDENT (TVStr word) start, rest, p))"

fun two_char_op :: "string \<Rightarrow> (token_type \<times> string) option" where
  "two_char_op two =
     (if two = ''=='' then Some (EQ, two) else if two = ''!='' then Some (NEQ, two)
      else if two = ''>='' then Some (GTE, two) else if two = ''<='' then Some (LTE, two)
      else None)"

fun one_char_op :: "char \<Rightarrow> token_type option" where
  "one_char_op c =
     (if c = CHR ''>'' then Some GT else if c = CHR ''<'' then Some LT
      else if c = CHR ''('' then Some LPAREN else if c = CHR '')'' then Some RPAREN
      else if c = CHR ''['' then Some LBRACKET else if c = CHR '']'' then Some RBRACKET
      else if c = CHR '','' then Some COMMA else if c = CHR ''.'' then Some DOT
      else None)"

text \<open>One round of the loop of \<open>tokenize\<close> on a text \<open>c # cs\<close> that starts with no blank.\<close>

fun next_token :: "char \<Rightarrow> string \<Rightarrow> position \<Rightarrow> lex_error + (token \<times> string \<times> position)" where
  "next_token c cs p =
     (if c = CHR 0x22 then read_string p [] cs (bump c p)
      else if py_isdigit c then read_number (c # cs) p
      else if py_isalpha c \<or> c = CHR ''_'' then Inr (read_identifier (c # cs) p)
      else case (case cs of [] \<Rightarrow> None | d # ds \<Rightarrow> two_char_op [c, d]) of
        Some (tt, two) \<Rightarrow> Inr (mk_token tt (TVStr two) p, tl cs, bump_all two p)
      | None \<Rightarrow>
          (case one_char_op c of
             Some tt \<Rightarrow> Inr (mk_token tt (TVStr [c]) p, cs, bump c p)
           | None \<Rightarrow> Inl (LexerError (UnexpectedCharacter c) (fst p) (snd p))))"

declare next_token.simps [simp del] keyword.simps [simp del]
  two_char_op.simps [simp del] one_char_op.simps [simp del]

section \<open>What the scanners consume\<close>

lemma skip_blank_length [lex_lengths]: "length (fst (skip_blank s p)) \<le> length s"
proof (induction s p rule: skip_blank.induct)
  case (2 c cs p)
  then show ?case
    using skip_comment_length [of "c # cs" p]
    by (fastforce split: prod.splits simp del: skip_comment.simps)
qed simp

lemma skip_blank_length': "skip_blank s p = (s', p') \<Longrightarrow> length s' \<le> length s"
  using skip_blank_length [of s p] by simp

lemma read_string_length [lex_lengths]:
  "read_string start acc s p = Inr (t, r, q) \<Longrightarrow> length r < length s"
proof (induction start acc s p rule: read_string.induct)
  case (2 start acc c cs p)
  show ?case
  proof (cases "c = CHR 0x22")
    case True
    with "2.prems" show ?thesis by simp
  next
    case noquote: False
    show ?thesis
    proof (cases "c = CHR 0x5C")
      case True
      with noquote "2.prems" obtain e es where cs: "cs = e # es"
        by (auto split: list.splits)
      with True noquote "2.prems" "2.IH"(1) [of e es] have "length r < length es" by simp
      with cs show ?thesis by simp
    next
      case False
      with noquote "2.prems" "2.IH"(2) have "length r < length cs" by simp
      then show ?thesis by simp
    qed
  qed
qed simp

lemma number_span_append: "number_span d s = (raw, d', rest) \<Longrightarrow> s = raw @ rest"
  by (induction d s arbitrary: raw d' rest rule: number_span.induct)
     (fastforce split: if_splits prod.splits)+

lemma read_number_length [lex_lengths]:
  assumes "read_number (c # cs) p = Inr (t, r, q)" and "py_isdigit c"
  shows "length r < length (c # cs)"
proof -
  obtain raw d rest where n: "number_span False (c # cs) = (raw, d, rest)" by (metis prod_cases3)
  with assms(2) have "raw \<noteq> []" by (auto split: prod.splits)
  moreover from n have "c # cs = raw @ rest" by (rule number_span_append)
  moreover from assms(1) n have "r = rest"
    by (auto simp: read_number_def Let_def split: option.splits)
  ultimately show ?thesis
    by (metis append_eq_conv_conj length_append length_greater_0_conv less_add_same_cancel2)
qed

lemma read_identifier_rest: "fst (snd (read_identifier s p)) = dropWhile is_ident_char s"
  by (auto simp: read_identifier_def Let_def split: option.splits token_type.splits)

lemma is_ident_char_start: "py_isalpha c \<or> c = CHR ''_'' \<Longrightarrow> is_ident_char c"
  by (auto simp: is_ident_char_def py_isalnum_def)

lemma read_identifier_length [lex_lengths]:
  assumes "read_identifier (c # cs) p = (t, r, q)" and "py_isalpha c \<or> c = CHR ''_''"
  shows "length r < length (c # cs)"
proof -
  have "r = dropWhile is_ident_char (c # cs)"
    using read_identifier_rest [of "c # cs" p] assms(1) by simp
  then have "r = dropWhile is_ident_char cs"
    using is_ident_char_start [OF assms(2)] by simp
  then show ?thesis by (simp add: length_dropWhile_le le_imp_less_Suc)
qed

lemma next_token_length [lex_lengths]:
  assumes "next_token c cs p = Inr (t, r, q)"
  shows "length r < length (c # cs)"
proof (cases "c = CHR 0x22 \<or> py_isdigit c \<or> py_isalpha c \<or> c = CHR ''_''")
  case True
  with assms show ?thesis
    by (fastforce simp: next_token.simps dest: read_string_length read_number_length
        read_identifier_length split: if_splits)
next
  case False
  with assms show ?thesis
    by (auto simp: next_token.simps split: option.splits list.splits prod.splits)
qed

section \<open>The token stream\<close>

function tokenize_from :: "string \<Rightarrow> position \<Rightarrow> lex_error + token list" where
  "tokenize_from s p =
     (case skip_blank s p of
        ([], q) \<Rightarrow> Inr [mk_token EOF (TVStr []) q]
      | (c # cs, q) \<Rightarrow>
          (case next_token c cs q of
             Inl e \<Rightarrow> Inl e
           | Inr (t, r, q') \<Rightarrow>
               (case tokenize_from r q' of Inl e \<Rightarrow> Inl e | Inr ts \<Rightarrow> Inr (t # ts))))"
  by pat_completeness auto
termination
  by (relation "measure (\<lambda>(s, p). length s)")
     (auto dest!: skip_blank_length' [OF sym] dest: next_token_length)

declare tokenize_from.simps [simp del]

definition tokenize :: "string \<Rightarrow> lex_error + token list" where
  "tokenize source = tokenize_from source (1, 1)"

end
