(* ===== verification/PRL_Lexer_Props.thy ===== *)
theory PRL_Lexer_Props
  imports PRL_Lexer
begin

text \<open>
  Properties of the tokenizer: every scanner consumes a prefix of the text and moves the position
  over exactly that prefix; the tokens have the shape the parser relies on; rendering tokens back
  to text and scanning it again gives the same tokens.
\<close>

section \<open>Scanners consume prefixes\<close>

lemma bump_all_append [simp]: "bump_all (u @ v) p = bump_all v (bump_all u p)"
  by (induction u arbitrary: p) auto

text \<open>\<open>consumes u s r p q\<close>: reading \<open>u\<close> off the text \<open>s\<close> leaves \<open>r\<close> and moves \<open>p\<close> to \<open>q\<close>.\<close>

definition consumes :: "string \<Rightarrow> string \<Rightarrow> string \<Rightarrow> position \<Rightarrow> position \<Rightarrow> bool" where
  "consumes u s r p q \<longleftrightarrow> s = u @ r \<and> q = bump_all u p"

lemma consumes_refl [simp, intro]: "consumes [] s s p p"
  by (simp add: consumes_def)

lemma consumes_step: "consumes u cs r (bump c p) q \<Longrightarrow> consumes (c # u) (c # cs) r p q"
  by (simp add: consumes_def)

lemma consumes_trans:
  "consumes u s r p q \<Longrightarrow> consumes v r r' q q' \<Longrightarrow> consumes (u @ v) s r' p q'"
  by (simp add: consumes_def)

lemma skip_comment_consumes: "skip_comment s p = (r, q) \<Longrightarrow> \<exists>u. consumes u s r p q"
  by (induction s p rule: skip_comment.induct)
     (auto split: if_splits dest: consumes_step)

lemma skip_blank_consumes: "skip_blank s p = (r, q) \<Longrightarrow> \<exists>u. consumes u s r p q"
proof (induction s p rule: skip_blank.induct)
  case (2 c cs p)
  show ?case
  proof (cases "is_blank c")
    case True
    with 2 show ?thesis by (auto dest: consumes_step)
  next
    case notblank: False
    show ?thesis
    proof (cases "c = CHR ''#''")
      case True
      obtain s' p' where sc: "skip_comment (c # cs) p = (s', p')" by (cases "skip_comment (c # cs) p")
      with True notblank "2.prems" have "skip_blank s' p' = (r, q)" by simp
      with 2(2) [OF notblank True sc [symmetric]] obtain v where "consumes v s' r p' q" by blast
      moreover obtain u where "consumes u (c # cs) s' p p'" using skip_comment_consumes [OF sc] by blast
      ultimately show ?thesis by (blast intro: consumes_trans)
    next
      case False
      with notblank "2.prems" show ?thesis by auto
    qed
  qed
qed auto

lemma read_string_consumes:
  "read_string start acc s p = Inr (t, r, q) \<Longrightarrow>
     (\<exists>u. consumes u s r p q) \<and> (\<exists>v. t = mk_token STRING (TVStr v) start)"
proof (induction start acc s p rule: read_string.induct)
  case (2 start acc c cs p)
  consider "c = CHR 0x22" | "c \<noteq> CHR 0x22" "c = CHR 0x5C" | "c \<noteq> CHR 0x22" "c \<noteq> CHR 0x5C" by blast
  then show ?case
  proof cases
    case 1
    with "2.prems" show ?thesis by (auto intro!: consumes_step)
  next
    case c: 2
    with "2.prems" obtain e es where cs: "cs = e # es" by (auto split: list.splits)
    with c "2.prems" "2.IH"(1) [of e es] show ?thesis
      by (auto intro: consumes_step)
  next
    case 3
    with "2.prems" "2.IH"(2) show ?thesis by (auto intro: consumes_step)
  qed
qed simp

lemma read_number_consumes:
  assumes "read_number s p = Inr (t, r, q)"
  shows "(\<exists>u. consumes u s r p q) \<and> (\<exists>v. t = mk_token NUMBER (TVNum v) p)"
proof -
  obtain raw d rest where n: "number_span False s = (raw, d, rest)" by (metis prod_cases3)
  with assms have "r = rest \<and> q = bump_all raw p \<and> (\<exists>v. t = mk_token NUMBER (TVNum v) p)"
    by (auto simp: read_number_def Let_def split: option.splits)
  with number_span_append [OF n] show ?thesis by (auto simp: consumes_def)
qed

text \<open>The text of a token that is always written the same way.\<close>

fun fixed_text :: "token_type \<Rightarrow> string option" where
  "fixed_text EQ = Some ''==''"
| "fixed_text NEQ = Some ''!=''"
| "fixed_text GT = Some ''>''"
| "fixed_text LT = Some ''<''"
| "fixed_text GTE = Some ''>=''"
| "fixed_text LTE = Some ''<=''"
| "fixed_text LPAREN = Some ''(''"
| "fixed_text RPAREN = Some '')''"
| "fixed_text LBRACKET = Some ''[''"
| "fixed_text RBRACKET = Some '']''"
| "fixed_text COMMA = Some '',''"
| "fixed_text DOT = Some ''.''"
| "fixed_text AND = Some ''AND''"
| "fixed_text OR = Some ''OR''"
| "fixed_text NOT = Some ''NOT''"
| "fixed_text IN = Some ''IN''"
| "fixed_text _ = None"

definition is_identifier :: "string \<Rightarrow> bool" where
  "is_identifier w \<longleftrightarrow>
     w \<noteq> [] \<and> (py_isalpha (hd w) \<or> hd w = CHR ''_'') \<and> list_all is_ident_char w \<and> keyword w = None"

text \<open>A token's value fits its type.\<close>

definition token_ok :: "token \<Rightarrow> bool" where
  "token_ok t =
     (case ttype t of
        STRING \<Rightarrow> (case tvalue t of TVStr _ \<Rightarrow> True | _ \<Rightarrow> False)
      | NUMBER \<Rightarrow> (case tvalue t of TVNum _ \<Rightarrow> True | _ \<Rightarrow> False)
      | BOOL \<Rightarrow> (case tvalue t of TVBool _ \<Rightarrow> True | _ \<Rightarrow> False)
      | IDENT \<Rightarrow> (case tvalue t of TVStr w \<Rightarrow> is_identifier w | _ \<Rightarrow> False)
      | EOF \<Rightarrow> tvalue t = TVStr []
      | ty \<Rightarrow> (case fixed_text ty of Some w \<Rightarrow> tvalue t = TVStr w | None \<Rightarrow> False))"

lemma token_ok_fixed: "fixed_text ty = Some w \<Longrightarrow> token_ok (mk_token ty (TVStr w) p)"
  by (cases ty) (auto simp: token_ok_def)

lemma keyword_types: "keyword w = Some ty \<Longrightarrow> ty \<in> {AND, OR, NOT, IN, BOOL}"
  by (auto simp: keyword.simps split: if_splits)

lemma takeWhile_ident_start:
  "py_isalpha c \<or> c = CHR ''_'' \<Longrightarrow> takeWhile is_ident_char (c # cs) = c # takeWhile is_ident_char cs"
  by (simp add: is_ident_char_start)

lemma list_all_takeWhile: "list_all P (takeWhile P xs)"
  by (induction xs) auto

lemma read_identifier_spec:
  assumes r: "read_identifier (c # cs) p = (t, r, q)" and c: "py_isalpha c \<or> c = CHR ''_''"
  shows "consumes (takeWhile is_ident_char (c # cs)) (c # cs) r p q
    \<and> (tline t, tcol t) = p \<and> token_ok t \<and> ttype t \<noteq> EOF"
proof -
  let ?w = "takeWhile is_ident_char (c # cs)"
  have w: "?w = c # takeWhile is_ident_char cs" by (rule takeWhile_ident_start [OF c])
  have "r = dropWhile is_ident_char (c # cs) \<and> q = bump_all ?w p \<and> (tline t, tcol t) = p"
    using r by (auto simp: read_identifier_def Let_def split: option.splits token_type.splits)
  then have cons: "consumes ?w (c # cs) r p q \<and> (tline t, tcol t) = p"
    by (simp add: consumes_def del: takeWhile.simps dropWhile.simps)
  have "is_identifier ?w" if "keyword ?w = None"
    using that c w list_all_takeWhile [of is_ident_char "c # cs"]
    by (simp add: is_identifier_def del: takeWhile.simps)
  moreover have "keyword ?w = Some ty \<Longrightarrow> ty \<in> {AND, OR, NOT, IN, BOOL}" for ty
    by (rule keyword_types)
  ultimately have "token_ok t \<and> ttype t \<noteq> EOF"
    using r by (cases "keyword ?w")
      (auto simp: read_identifier_def Let_def token_ok_def
        simp del: takeWhile.simps dropWhile.simps)
  with cons show ?thesis by simp
qed

lemma next_token_spec:
  assumes "next_token c cs p = Inr (t, r, q)"
  shows "(\<exists>u. u \<noteq> [] \<and> consumes u (c # cs) r p q) \<and> (tline t, tcol t) = p \<and> token_ok t \<and> ttype t \<noteq> EOF"
proof -
  consider (str) "c = CHR 0x22" | (num) "c \<noteq> CHR 0x22" "py_isdigit c"
    | (ident) "c \<noteq> CHR 0x22" "\<not> py_isdigit c" "py_isalpha c \<or> c = CHR ''_''"
    | (op) "c \<noteq> CHR 0x22" "\<not> py_isdigit c" "\<not> (py_isalpha c \<or> c = CHR ''_'')" by blast
  then show ?thesis
  proof cases
    case str
    with assms have "read_string p [] cs (bump c p) = Inr (t, r, q)" by (simp add: next_token.simps)
    from read_string_consumes [OF this] show ?thesis
      by (auto simp: token_ok_def dest: consumes_step)
  next
    case num
    with assms have n: "read_number (c # cs) p = Inr (t, r, q)" by (simp add: next_token.simps)
    obtain u where u: "consumes u (c # cs) r p q" using read_number_consumes [OF n] by blast
    with read_number_length [OF n num(2)] have "u \<noteq> []" by (auto simp: consumes_def)
    with u read_number_consumes [OF n] show ?thesis by (auto simp: token_ok_def)
  next
    case ident
    with assms have "read_identifier (c # cs) p = (t, r, q)" by (simp add: next_token.simps)
    from read_identifier_spec [OF this ident(3)] takeWhile_ident_start [OF ident(3)]
    show ?thesis by (auto simp del: takeWhile.simps)
  next
    case op
    show ?thesis
    proof (cases "case cs of [] \<Rightarrow> None | d # ds \<Rightarrow> two_char_op [c, d]")
      case None
      with op assms have "\<exists>ty. one_char_op c = Some ty \<and> t = mk_token ty (TVStr [c]) p \<and> r = cs \<and> q = bump c p"
        by (auto simp: next_token.simps split: option.splits)
      then show ?thesis
        by (auto simp: one_char_op.simps token_ok_def consumes_def intro!: exI [of _ "[c]"] split: if_splits)
    next
      case (Some ty2)
      then obtain d ds where cs: "cs = d # ds" by (auto split: list.splits)
      with op Some assms have "t = mk_token (fst ty2) (TVStr (snd ty2)) p \<and> r = ds \<and> q = bump_all (snd ty2) p"
        by (auto simp: next_token.simps split: prod.splits)
      with Some cs show ?thesis
        by (auto simp: two_char_op.simps token_ok_def consumes_def intro!: exI [of _ "[c, d]"] split: if_splits)
    qed
  qed
qed

section \<open>The shape of the token stream\<close>

lemma tokenize_from_cases:
  assumes "tokenize_from s p = Inr ts"
  obtains (eof) q where "skip_blank s p = ([], q)" and "ts = [mk_token EOF (TVStr []) q]"
  | (more) c cs q t r q' ts' where "skip_blank s p = (c # cs, q)" and "next_token c cs q = Inr (t, r, q')"
      and "tokenize_from r q' = Inr ts'" and "ts = t # ts'"
  using assms
  by (subst (asm) tokenize_from.simps) (auto split: prod.splits list.splits sum.splits)

text \<open>The contract the parser relies on: one end token, at the end, and values that fit.\<close>

definition stream_ok :: "token list \<Rightarrow> bool" where
  "stream_ok ts \<longleftrightarrow> ts \<noteq> [] \<and> ttype (last ts) = EOF \<and> (\<forall>t \<in> set (butlast ts). ttype t \<noteq> EOF)
     \<and> list_all token_ok ts"

lemma tokenize_run_induct [consumes 1, case_names eof more]:
  assumes "tokenize_from s p = Inr ts"
    and eof: "\<And>s p q. skip_blank s p = ([], q) \<Longrightarrow> P s p [mk_token EOF (TVStr []) q]"
    and more: "\<And>s p c cs q t r q' ts'. skip_blank s p = (c # cs, q) \<Longrightarrow> next_token c cs q = Inr (t, r, q') \<Longrightarrow>
      tokenize_from r q' = Inr ts' \<Longrightarrow> P r q' ts' \<Longrightarrow> P s p (t # ts')"
  shows "P s p ts"
  using assms(1)
proof (induction s p arbitrary: ts rule: tokenize_from.induct)
  case (1 s p)
  from "1.prems" show ?case
  proof (cases rule: tokenize_from_cases)
    case (eof q)
    then show ?thesis using assms(2) by simp
  next
    case (more c cs q t r q' ts')
    from assms(3) [OF more(1-3) "1.IH" [OF more(1) [symmetric] refl more(2) refl refl more(3)]] more(4)
    show ?thesis by simp
  qed
qed

lemma tokenize_from_stream_ok: "tokenize_from s p = Inr ts \<Longrightarrow> stream_ok ts"
proof (induction rule: tokenize_run_induct)
  case (eof s p q)
  then show ?case by (simp add: stream_ok_def token_ok_def)
next
  case (more s p c cs q t r q' ts')
  with next_token_spec [OF more(2)] show ?case by (auto simp: stream_ok_def)
qed

lemma tokenize_stream_ok: "tokenize src = Inr ts \<Longrightarrow> stream_ok ts"
  unfolding tokenize_def by (rule tokenize_from_stream_ok)

section \<open>Positions\<close>

text \<open>A token stands where it was scanned: \<open>u\<close> is the text before it, \<open>v\<close> the text from it on.\<close>

definition scanned_at :: "token \<Rightarrow> string \<Rightarrow> bool" where
  "scanned_at t v \<longleftrightarrow>
     (case v of [] \<Rightarrow> ttype t = EOF
      | c # cs \<Rightarrow> \<not> is_blank c \<and>
          (case next_token c cs (tline t, tcol t) of Inl _ \<Rightarrow> False | Inr (t', _, _) \<Rightarrow> t' = t))"

lemma skip_blank_stops: "skip_blank s p = (c # cs, q) \<Longrightarrow> \<not> is_blank c"
proof (induction s p arbitrary: c cs q rule: skip_blank.induct)
  case (2 d ds p)
  obtain s' p' where sc: "skip_comment (d # ds) p = (s', p')" by (cases "skip_comment (d # ds) p")
  consider "is_blank d" | "\<not> is_blank d" "d = CHR ''#''" | "\<not> is_blank d" "d \<noteq> CHR ''#''" by blast
  then show ?case
  proof cases
    case 1
    with "2.prems" have "skip_blank ds (bump d p) = (c # cs, q)" by (simp del: skip_comment.simps)
    with "2.IH"(1) [OF 1] show ?thesis by blast
  next
    case 2
    with "2.prems" sc have "skip_blank s' p' = (c # cs, q)" by (simp del: skip_comment.simps)
    with "2.IH"(2) [OF 2 sc [symmetric]] show ?thesis by blast
  next
    case 3
    with "2.prems" show ?thesis by (simp del: skip_comment.simps)
  qed
qed simp

lemma tokenize_from_positions:
  "tokenize_from s p = Inr ts \<Longrightarrow> t \<in> set ts \<Longrightarrow>
     \<exists>u v. s = u @ v \<and> (tline t, tcol t) = bump_all u p \<and> scanned_at t v"
proof (induction arbitrary: t rule: tokenize_run_induct)
  case (eof s p q)
  with skip_blank_consumes [of s p "[]" q] have "q = bump_all s p" and "t = mk_token EOF (TVStr []) q"
    by (auto simp: consumes_def)
  then show ?case by (intro exI [of _ s] exI [of _ "[]"]) (simp add: scanned_at_def)
next
  case (more s p c cs q t' r q' ts')
  obtain u where u: "s = u @ c # cs" "q = bump_all u p"
    using skip_blank_consumes [OF more(1)] by (auto simp: consumes_def)
  obtain w where w: "c # cs = w @ r" "q' = bump_all w q" and t': "(tline t', tcol t') = q"
    using next_token_spec [OF more(2)] by (auto simp: consumes_def)
  show ?case
  proof (cases "t = t'")
    case True
    with u t' more(1,2) show ?thesis
      by (intro exI [of _ u] exI [of _ "c # cs"]) (auto simp: scanned_at_def dest: skip_blank_stops)
  next
    case False
    with more.prems have "t \<in> set ts'" by simp
    from more.IH [OF this] obtain a b where ab: "r = a @ b" "(tline t, tcol t) = bump_all a q'" "scanned_at t b"
      by blast
    have "s = (u @ w @ a) @ b" by (simp only: u(1) w(1) ab(1) append.assoc)
    moreover have "(tline t, tcol t) = bump_all (u @ w @ a) p"
      by (simp only: ab(2) u(2) w(2) bump_all_append)
    ultimately show ?thesis using ab(3) by blast
  qed
qed

lemma bump_all_line: "fst (bump_all u p) = fst p + count_list u newline"
  by (induction u arbitrary: p) (auto simp: bump_def)

lemma bump_all_col_no_newline: "newline \<notin> set u \<Longrightarrow> snd (bump_all u p) = snd p + length u"
  by (induction u arbitrary: p) (auto simp: bump_def)

lemma bump_all_col:
  "snd (bump_all u (l, 1)) = Suc (length (takeWhile (\<lambda>c. c \<noteq> newline) (rev u)))"
proof (induction u rule: rev_induct)
  case (snoc c u)
  obtain a b where ab: "bump_all u (l, 1) = (a, b)" by (cases "bump_all u (l, 1)")
  with snoc show ?case by (auto simp: bump_def)
qed simp

section \<open>Rendering tokens\<close>

text \<open>
  \<open>token_text\<close> writes a token the way a rule author would; \<open>render\<close> separates tokens by a space.
  Float literals have no canonical text and are left out by \<open>renderable\<close>, as are integers longer
  than the 4300 digits \<open>int()\<close> takes.
\<close>

definition escape_string :: "string \<Rightarrow> string" where
  "escape_string s = concat (map (\<lambda>c. if c = CHR 0x22 \<or> c = CHR 0x5C then [CHR 0x5C, c] else [c]) s)"

fun value_text :: "token_type \<Rightarrow> token_value \<Rightarrow> string" where
  "value_text STRING (TVStr s) = CHR 0x22 # escape_string s @ [CHR 0x22]"
| "value_text NUMBER (TVNum (NInt i)) = nat_to_string (nat i)"
| "value_text BOOL (TVBool b) = (if b then ''true'' else ''false'')"
| "value_text IDENT (TVStr w) = w"
| "value_text ty v = (case fixed_text ty of Some w \<Rightarrow> w | None \<Rightarrow> [])"

definition renderable :: "token \<Rightarrow> bool" where
  "renderable t \<longleftrightarrow> token_ok t \<and> ttype t \<noteq> EOF \<and>
     (case tvalue t of TVNum (NInt i) \<Rightarrow> 0 \<le> i \<and> length (nat_to_string (nat i)) \<le> 4300
      | TVNum (NFloat _) \<Rightarrow> False | _ \<Rightarrow> True)"

definition token_kind :: "token \<Rightarrow> token_type \<times> token_value" where
  "token_kind t = (ttype t, tvalue t)"

definition render :: "token list \<Rightarrow> string" where
  "render ts = concat (map (\<lambda>t. value_text (ttype t) (tvalue t) @ '' '') ts)"

text \<open>\<open>reads_back t w\<close>: the text \<open>w\<close> followed by a space is scanned as the token \<open>t\<close>.\<close>

definition reads_back :: "token \<Rightarrow> string \<Rightarrow> bool" where
  "reads_back t w \<longleftrightarrow> (\<exists>c cs. w = c # cs \<and> \<not> is_blank c \<and> c \<noteq> CHR ''#'' \<and>
     (\<forall>rest p. \<exists>t' q. next_token c (cs @ CHR '' '' # rest) p = Inr (t', CHR '' '' # rest, q)
        \<and> token_kind t' = token_kind t))"

lemma space_facts [simp]:
  "\<not> py_isdigit (CHR '' '')" "\<not> is_ident_char (CHR '' '')" "is_blank (CHR '' '')"
  by (simp_all add: py_isdigit_def is_ascii_digit_def is_ident_char_def py_isalnum_def py_isalpha_def
      code_def is_blank_def)

lemma read_string_escape:
  "\<exists>q. read_string start acc (escape_string s @ CHR 0x22 # r) p
     = Inr (mk_token STRING (TVStr (acc @ s)) start, r, q)"
proof (induction s arbitrary: acc p)
  case (Cons c s)
  show ?case
  proof (cases "c = CHR 0x22 \<or> c = CHR 0x5C")
    case True
    then have "read_string start acc (escape_string (c # s) @ CHR 0x22 # r) p =
        read_string start (acc @ [c]) (escape_string s @ CHR 0x22 # r) (bump c (bump (CHR 0x5C) p))"
      by (auto simp: escape_string_def)
    with Cons [of "acc @ [c]"] show ?thesis by simp
  next
    case False
    then have "read_string start acc (escape_string (c # s) @ CHR 0x22 # r) p =
        read_string start (acc @ [c]) (escape_string s @ CHR 0x22 # r) (bump c p)"
      by (auto simp: escape_string_def)
    with Cons [of "acc @ [c]"] show ?thesis by simp
  qed
qed (simp add: escape_string_def)

lemma number_span_digits:
  "list_all is_ascii_digit w \<Longrightarrow> number_span False (w @ CHR '' '' # r) = (w, False, CHR '' '' # r)"
  by (induction w) (auto simp: py_isdigit_def is_ascii_digit_def code_def)

lemma ascii_digit_not_underscore: "list_all is_ascii_digit w \<Longrightarrow> filter (\<lambda>c. c \<noteq> CHR ''_'') w = w"
  by (induction w) (auto simp: is_ascii_digit_def code_def)

lemma takeWhile_space: "list_all P w \<Longrightarrow> \<not> P x \<Longrightarrow> takeWhile P (w @ x # r) = w \<and> dropWhile P (w @ x # r) = x # r"
  by (induction w) auto

lemma reads_back_string: "reads_back t (value_text STRING (TVStr s))" if "token_kind t = (STRING, TVStr s)"
proof -
  have "\<exists>q. read_string p [] ((escape_string s @ [CHR 0x22]) @ CHR '' '' # rest) (bump (CHR 0x22) p)
      = Inr (mk_token STRING (TVStr s) p, CHR '' '' # rest, q)" for rest p
    using read_string_escape [of p "[]" s "CHR '' '' # rest"] by simp
  moreover have "token_kind (mk_token STRING (TVStr s) p) = token_kind t" for p
    using that by (simp add: token_kind_def)
  ultimately have "\<exists>t' q. next_token (CHR 0x22) ((escape_string s @ [CHR 0x22]) @ CHR '' '' # rest) p
      = Inr (t', CHR '' '' # rest, q) \<and> token_kind t' = token_kind t" for rest p
    by (simp add: next_token.simps) blast
  then show ?thesis by (simp add: reads_back_def is_blank_def newline_def)
qed

lemma reads_back_number: "reads_back t (value_text NUMBER (TVNum (NInt (int n))))"
  if "token_kind t = (NUMBER, TVNum (NInt (int n)))" "length (nat_to_string n) \<le> 4300"
proof -
  obtain c cs where w: "nat_to_string n = c # cs" by (metis list.exhaust nat_to_string_nonempty)
  have digits: "list_all is_ascii_digit (c # cs)"
    using nat_to_string_digits [of n] by (simp add: w list_all_iff)
  then have c: "py_isdigit c" "c \<noteq> CHR 0x22" "\<not> is_blank c" "c \<noteq> CHR ''#''"
    by (auto simp: py_isdigit_def is_ascii_digit_def is_blank_def newline_def code_def)
  have "parse_int (c # cs) = Some (int n)"
    using digits that(2) digits_value_nat_to_string [of n] by (simp add: parse_int_def w)
  moreover have "number_span False (c # cs @ CHR '' '' # rest) = (c # cs, False, CHR '' '' # rest)" for rest
    using number_span_digits [OF digits] by simp
  ultimately have "read_number (c # cs @ CHR '' '' # rest) p
      = Inr (mk_token NUMBER (TVNum (NInt (int n))) p, CHR '' '' # rest, bump_all (c # cs) p)" for rest p
    using ascii_digit_not_underscore [OF digits] by (simp add: read_number_def Let_def)
  with c w that(1) show ?thesis
    by (auto simp: reads_back_def next_token.simps token_kind_def)
qed

lemma reads_back_word:
  assumes "w \<noteq> []" and "py_isalpha (hd w) \<or> hd w = CHR ''_''" and "list_all is_ident_char w"
    and "\<And>p r. takeWhile is_ident_char r = w \<Longrightarrow> token_kind (fst (read_identifier r p)) = token_kind t"
  shows "reads_back t w"
proof -
  obtain c cs where w: "w = c # cs" using assms(1) by (metis list.exhaust)
  with assms(2) have c: "py_isalpha c \<or> c = CHR ''_''" by simp
  then have c': "\<not> py_isdigit c" "c \<noteq> CHR 0x22" "\<not> is_blank c" "c \<noteq> CHR ''#''"
    by (auto simp: py_isdigit_def is_ascii_digit_def py_isalpha_def is_blank_def newline_def code_def)
  have "\<exists>t' q. read_identifier (c # cs @ CHR '' '' # rest) p = (t', CHR '' '' # rest, q)
      \<and> token_kind t' = token_kind t" for rest p
  proof -
    let ?s = "c # cs @ CHR '' '' # rest"
    have tw: "takeWhile is_ident_char ?s = w" "dropWhile is_ident_char ?s = CHR '' '' # rest"
      using takeWhile_space [OF assms(3), of "CHR '' ''" rest] by (simp_all add: w)
    with assms(4) have "token_kind (fst (read_identifier ?s p)) = token_kind t" by blast
    with read_identifier_rest [of ?s p] tw(2) show ?thesis by (metis prod.collapse)
  qed
  with c c' w show ?thesis by (auto simp: reads_back_def next_token.simps)
qed

lemma reads_back_identifier: "reads_back t w"
  if "token_kind t = (IDENT, TVStr w)" "is_identifier w"
  using that
  by (intro reads_back_word)
     (auto simp: is_identifier_def read_identifier_def Let_def token_kind_def)

lemmas ident_char_code = is_ident_char_def py_isalnum_def py_isalpha_def code_def

lemma keyword_words [simp]:
  "keyword ''true'' = Some BOOL" "keyword ''false'' = Some BOOL" "keyword ''AND'' = Some AND"
  "keyword ''OR'' = Some OR" "keyword ''NOT'' = Some NOT" "keyword ''IN'' = Some IN"
  by (simp_all add: keyword.simps)

lemma reads_back_bool: "reads_back t (value_text BOOL (TVBool b))"
  if "token_kind t = (BOOL, TVBool b)"
  using that
  by (intro reads_back_word) (auto simp: read_identifier_def Let_def token_kind_def ident_char_code)

lemma reads_back_keyword: "reads_back t (keyword_upper ty)"
  if "token_kind t = (ty, TVStr (keyword_upper ty))" "ty \<in> {AND, OR, NOT, IN}"
  using that
  by (intro reads_back_word) (auto simp: read_identifier_def Let_def token_kind_def ident_char_code)

lemma op_chars:
  "c \<in> set ''=!<>()[],.'' \<Longrightarrow> c \<noteq> CHR 0x22 \<and> \<not> py_isdigit c \<and> \<not> py_isalpha c \<and> c \<noteq> CHR ''_''
     \<and> \<not> is_blank c \<and> c \<noteq> CHR ''#''"
  by (auto simp: py_isdigit_def is_ascii_digit_def py_isalpha_def is_blank_def newline_def code_def)

lemma reads_back_op1:
  assumes "one_char_op c = Some ty" and "token_kind t = (ty, TVStr [c])"
  shows "reads_back t [c]"
proof -
  have "c \<in> set ''=!<>()[],.''" using assms(1) by (auto simp: one_char_op.simps split: if_splits)
  from op_chars [OF this] assms show ?thesis
    by (auto simp: reads_back_def next_token.simps two_char_op.simps token_kind_def)
qed

lemma reads_back_op2:
  assumes "two_char_op [c, d] = Some (ty, [c, d])" and "token_kind t = (ty, TVStr [c, d])"
  shows "reads_back t [c, d]"
proof -
  have "c \<in> set ''=!<>()[],.''" using assms(1) by (auto simp: two_char_op.simps split: if_splits)
  from op_chars [OF this] assms show ?thesis
    by (auto simp: reads_back_def next_token.simps token_kind_def)
qed

lemma reads_back_renderable:
  assumes "renderable t"
  shows "reads_back t (value_text (ttype t) (tvalue t))"
proof -
  have ok: "token_ok t" and "ttype t \<noteq> EOF" using assms by (auto simp: renderable_def)
  show ?thesis
  proof (cases "ttype t")
    case STRING
    with ok obtain s where "tvalue t = TVStr s" by (auto simp: token_ok_def split: token_value.splits)
    with STRING show ?thesis using reads_back_string [of t s] by (simp add: token_kind_def)
  next
    case NUMBER
    with ok assms obtain i where i: "tvalue t = TVNum (NInt i)" "0 \<le> i" "length (nat_to_string (nat i)) \<le> 4300"
      by (auto simp: token_ok_def renderable_def split: token_value.splits py_num.splits)
    with NUMBER show ?thesis using reads_back_number [of t "nat i"] by (simp add: token_kind_def)
  next
    case BOOL
    with ok obtain b where "tvalue t = TVBool b" by (auto simp: token_ok_def split: token_value.splits)
    with BOOL show ?thesis using reads_back_bool [of t b] by (simp add: token_kind_def)
  next
    case IDENT
    with ok obtain w where "tvalue t = TVStr w" "is_identifier w"
      by (auto simp: token_ok_def split: token_value.splits)
    with IDENT show ?thesis using reads_back_identifier [of t w] by (simp add: token_kind_def)
  next
    case EOF
    with \<open>ttype t \<noteq> EOF\<close> show ?thesis by simp
  qed (use ok in \<open>auto simp: token_ok_def token_kind_def one_char_op.simps two_char_op.simps
        intro!: reads_back_op1 reads_back_op2 reads_back_keyword [of t AND, simplified]
          reads_back_keyword [of t OR, simplified] reads_back_keyword [of t NOT, simplified]
          reads_back_keyword [of t IN, simplified]\<close>)
qed

lemma tokenize_from_blank: "is_blank c \<Longrightarrow> tokenize_from (c # s) p = tokenize_from s (bump c p)"
  by (subst (1 2) tokenize_from.simps) simp

lemma tokenize_render:
  "list_all renderable ts \<Longrightarrow>
     \<exists>ts'. tokenize_from (render ts) p = Inr ts' \<and> map token_kind ts' = map token_kind ts @ [(EOF, TVStr [])]"
proof (induction ts arbitrary: p)
  case Nil
  then show ?case by (subst tokenize_from.simps) (simp add: render_def token_kind_def)
next
  case (Cons t ts)
  then have "reads_back t (value_text (ttype t) (tvalue t))" by (simp add: reads_back_renderable)
  then obtain c cs where w: "value_text (ttype t) (tvalue t) = c # cs" "\<not> is_blank c" "c \<noteq> CHR ''#''"
    and nt: "\<And>rest p. \<exists>t' q. next_token c (cs @ CHR '' '' # rest) p = Inr (t', CHR '' '' # rest, q)
        \<and> token_kind t' = token_kind t"
    by (auto simp: reads_back_def)
  obtain t' q where t': "next_token c (cs @ CHR '' '' # render ts) p = Inr (t', CHR '' '' # render ts, q)"
      "token_kind t' = token_kind t" using nt by blast
  from Cons obtain ts' where "tokenize_from (render ts) (bump (CHR '' '') q) = Inr ts'"
      "map token_kind ts' = map token_kind ts @ [(EOF, TVStr [])]" by fastforce
  with t' w show ?case
    by (subst tokenize_from.simps) (simp add: render_def tokenize_from_blank)
qed

section \<open>The properties of the tokenizer\<close>

text \<open>
  a text that the tokenizer accepts becomes a stream that ends with its only end token, and
  every token carries a value of the kind its type calls for: operators and delimiters their own
  text, identifiers a non-keyword word, literals a string, a number or a boolean.
\<close>

theorem lexer_stream_shape:
  assumes "tokenize source = Inr ts"
  shows "\<exists>body e. ts = body @ [e] \<and> ttype e = EOF \<and> (\<forall>t \<in> set body. ttype t \<noteq> EOF) \<and> list_all token_ok ts"
  using tokenize_stream_ok [OF assms]
  by (intro exI [of _ "butlast ts"] exI [of _ "last ts"]) (auto simp: stream_ok_def)

theorem lexer_stream_shape_witness:
  "\<exists>ts body e. tokenize ''a == 1'' = Inr ts \<and> length ts = 4 \<and> ts = body @ [e] \<and> ttype e = EOF"
proof -
  have t: "tokenize ''a == 1'' =
      Inr [mk_token IDENT (TVStr ''a'') (1, 1), mk_token EQ (TVStr ''=='') (1, 3),
           mk_token NUMBER (TVNum (NInt 1)) (1, 6), mk_token EOF (TVStr []) (1, 7)]"
    by code_simp
  from lexer_stream_shape [OF t] show ?thesis using t by fastforce
qed

text \<open>
  the line and column of a token are those of the place where it is scanned: the line is one
  more than the newlines before that place, the column one more than the characters since the last
  of them, comments and blanks included.
\<close>

theorem lexer_positions:
  assumes "tokenize source = Inr ts" and "t \<in> set ts"
  shows "\<exists>before rest. source = before @ rest \<and> scanned_at t rest
    \<and> tline t = 1 + count_list before newline
    \<and> tcol t = 1 + length (takeWhile (\<lambda>c. c \<noteq> newline) (rev before))"
proof -
  from assms obtain u v where uv: "source = u @ v" "(tline t, tcol t) = bump_all u (1, 1)" "scanned_at t v"
    unfolding tokenize_def by (blast dest: tokenize_from_positions)
  have l: "tline t = 1 + count_list u newline"
    using arg_cong [OF uv(2), of fst] bump_all_line [of u "(1, 1)"] by simp
  have c: "tcol t = 1 + length (takeWhile (\<lambda>c. c \<noteq> newline) (rev u))"
    using arg_cong [OF uv(2), of snd] bump_all_col [of u 1] by simp
  from uv(1,3) l c show ?thesis by blast
qed

theorem lexer_positions_witness:
  "\<exists>before rest. [CHR ''#'', newline, CHR '' '', CHR ''x''] = before @ rest
     \<and> scanned_at (mk_token IDENT (TVStr ''x'') (2, 2)) rest \<and> (2::nat) = 1 + count_list before newline"
proof -
  have t: "tokenize [CHR ''#'', newline, CHR '' '', CHR ''x''] =
      Inr [mk_token IDENT (TVStr ''x'') (2, 2), mk_token EOF (TVStr []) (2, 3)]"
    by code_simp
  from lexer_positions [OF t, of "mk_token IDENT (TVStr ''x'') (2, 2)"] show ?thesis by fastforce
qed

text \<open>
  C37: writing tokens out and scanning the text again gives the same tokens, for every string
  (quotes, backslashes and newlines included), integer, boolean, identifier, keyword, operator and
  delimiter.
\<close>

theorem lexer_roundtrip:
  assumes "list_all renderable ts"
  shows "\<exists>ts'. tokenize (render ts) = Inr ts' \<and> map token_kind ts' = map token_kind ts @ [(EOF, TVStr [])]"
  unfolding tokenize_def by (rule tokenize_render [OF assms])

theorem lexer_roundtrip_witness:
  "\<exists>ts'. tokenize (render [mk_token IDENT (TVStr ''a'') (0, 0), mk_token STRING (TVStr [CHR 0x22, newline]) (0, 0)])
      = Inr ts' \<and> map token_kind ts' = [(IDENT, TVStr ''a''), (STRING, TVStr [CHR 0x22, newline]), (EOF, TVStr [])]"
proof -
  have "list_all renderable [mk_token IDENT (TVStr ''a'') (0, 0), mk_token STRING (TVStr [CHR 0x22, newline]) (0, 0)]"
    by code_simp
  from lexer_roundtrip [OF this] show ?thesis by (simp add: token_kind_def)
qed

end
