(* ===== verification/PRL_Parser.thy ===== *)
theory PRL_Parser
  imports PRL_Lexer_Props
begin

text \<open>
  \<open>backend/engine/parser/parser.py\<close>: the recursive-descent parser. The parser object's tokens and
  \<open>_pos\<close> are the list of tokens still to read; its \<open>_depth\<close>, which every method restores when it
  returns, is the argument \<open>d\<close>. Loops and nested expressions carry a bound on their rounds, which
  \<open>PRL_Parser_Props\<close> shows is never reached.
\<close>

section \<open>Errors and results\<close>

datatype parse_message =
  LexFailed lex_message
| UnexpectedAfterExpression token_value
| Expected token_type token_type token_value
| NestingTooDeep
| UnexpectedToken token_type token_value
| UnknownFunction string
| ArgumentCount string nat nat nat
| ListTooLarge

datatype parse_error = ParseError parse_message nat nat | OutOfFuel

type_synonym 'a parsed = "parse_error + ('a \<times> token list)"

definition bindp :: "'a parsed \<Rightarrow> ('a \<Rightarrow> token list \<Rightarrow> 'b parsed) \<Rightarrow> 'b parsed" where
  "bindp r f = (case r of Inl e \<Rightarrow> Inl e | Inr (v, ts) \<Rightarrow> f v ts)"

lemma bindp_simps [simp]: "bindp (Inl e) f = Inl e" "bindp (Inr (v, ts)) f = f v ts"
  by (simp_all add: bindp_def)

lemma bindp_Inr: "bindp r f = Inr y \<longleftrightarrow> (\<exists>v ts. r = Inr (v, ts) \<and> f v ts = Inr y)"
  by (auto simp: bindp_def split: sum.splits)

lemma bindp_cong: "(\<And>v ts. r = Inr (v, ts) \<Longrightarrow> f v ts = g v ts) \<Longrightarrow> bindp r f = bindp r g"
  by (auto simp: bindp_def split: sum.splits)

definition fail_at :: "token \<Rightarrow> parse_message \<Rightarrow> 'a parsed" where
  "fail_at t m = Inl (ParseError m (tline t) (tcol t))"

section \<open>The tables\<close>

definition BUILTIN_FUNCTIONS :: "(string, nat \<times> nat) dict" where
  "BUILTIN_FUNCTIONS =
     [(''count'', (2, 2)), (''count_distinct'', (3, 3)), (''contains'', (2, 2)),
      (''regex_match'', (2, 2)), (''time_since'', (1, 1)), (''in_allowlist'', (2, 2)),
      (''ml_score'', (2, 2)), (''data_classification'', (1, 1)), (''tool_authorized'', (2, 2)),
      (''mcp_trust_level'', (1, 1)), (''content_scan'', (1, 1)), (''trust_score'', (2, 2))]"

definition MAX_DEPTH :: nat where
  "MAX_DEPTH = 64"

definition MAX_LIST_ELEMENTS :: nat where
  "MAX_LIST_ELEMENTS = 256"

definition comp_ops :: "token_type set" where
  "comp_ops = {EQ, NEQ, GT, LT, GTE, LTE, IN}"

section \<open>Token navigation\<close>

definition current :: "token list \<Rightarrow> token" where
  "current ts = (case ts of [] \<Rightarrow> mk_token EOF (TVStr []) (0, 0) | t # _ \<Rightarrow> t)"

abbreviation peek :: "token list \<Rightarrow> token_type" where
  "peek ts \<equiv> ttype (current ts)"

definition advance :: "token list \<Rightarrow> token \<times> token list" where
  "advance ts = (current ts, tl ts)"

definition expect :: "token_type \<Rightarrow> token list \<Rightarrow> token parsed" where
  "expect tt ts =
     (if peek ts \<noteq> tt then fail_at (current ts) (Expected tt (peek ts) (tvalue (current ts)))
      else Inr (advance ts))"

text \<open>The value of a token that holds a text, a number or a boolean (\<open>token_ok\<close> says which).\<close>

fun token_text :: "token_value \<Rightarrow> string" where
  "token_text (TVStr s) = s" | "token_text _ = []"

fun token_number :: "token_value \<Rightarrow> py_num" where
  "token_number (TVNum n) = n" | "token_number _ = NInt 0"

fun token_bool :: "token_value \<Rightarrow> bool" where
  "token_bool (TVBool b) = b" | "token_bool _ = False"

section \<open>The grammar rules\<close>

text \<open>\<open>_parse_field_access\<close>, after the first identifier.\<close>

fun parse_fields :: "token list \<Rightarrow> string list parsed" where
  "parse_fields [] = Inr ([], [])"
| "parse_fields (t # ts) =
     (if ttype t = DOT then
        (case ts of
           [] \<Rightarrow> map_sum id (\<lambda>(_, r). ([], r)) (expect IDENT [])
         | u # us \<Rightarrow>
             bindp (expect IDENT (u # us)) (\<lambda>f _.
               bindp (parse_fields us) (\<lambda>fs rest. Inr (token_text (tvalue f) # fs, rest))))
      else Inr ([], t # ts))"

definition parse_field_access :: "token \<Rightarrow> token list \<Rightarrow> node parsed" where
  "parse_field_access base ts =
     bindp (parse_fields ts) (\<lambda>fs rest.
       Inr (FieldAccess (tline base) (tcol base) (token_text (tvalue base)) fs, rest))"

text \<open>
  The methods are defined bottom up; \<open>pe\<close> is the \<open>_parse_expression\<close> they call back. A loop takes
  the number of rounds it may still run.
\<close>

type_synonym expression_parser = "nat \<Rightarrow> token list \<Rightarrow> node parsed"

fun parse_args_rest ::
  "expression_parser \<Rightarrow> nat \<Rightarrow> nat \<Rightarrow> node list \<Rightarrow> token list \<Rightarrow> node list parsed" where
  "parse_args_rest pe 0 d args ts = Inl OutOfFuel"
| "parse_args_rest pe (Suc k) d args ts =
     (if peek ts = COMMA then
        bindp (Inr (advance ts)) (\<lambda>_ us. bindp (pe d us) (\<lambda>e vs.
          parse_args_rest pe k d (args @ [e]) vs))
      else Inr (args, ts))"

definition parse_args :: "expression_parser \<Rightarrow> nat \<Rightarrow> token list \<Rightarrow> node list parsed" where
  "parse_args pe d ts =
     (if peek ts = RPAREN then Inr ([], ts)
      else bindp (pe d ts) (\<lambda>e us. parse_args_rest pe (Suc (length us)) d [e] us))"

definition parse_function_call ::
  "expression_parser \<Rightarrow> nat \<Rightarrow> token \<Rightarrow> token list \<Rightarrow> node parsed" where
  "parse_function_call pe d t ts =
     (let func_name = token_text (tvalue t) in
      case dict_get BUILTIN_FUNCTIONS func_name of
        None \<Rightarrow> fail_at t (UnknownFunction func_name)
      | Some (min_args, max_args) \<Rightarrow>
          bindp (expect LPAREN ts) (\<lambda>_ us. bindp (parse_args pe d us) (\<lambda>args vs.
            bindp (expect RPAREN vs) (\<lambda>_ ws.
              if min_args \<le> length args \<and> length args \<le> max_args
              then Inr (FunctionCall (tline t) (tcol t) func_name args, ws)
              else fail_at t (ArgumentCount func_name min_args max_args (length args))))))"

definition parse_ident_or_call :: "expression_parser \<Rightarrow> nat \<Rightarrow> token list \<Rightarrow> node parsed" where
  "parse_ident_or_call pe d ts =
     bindp (Inr (advance ts)) (\<lambda>t us.
       if peek us = LPAREN then parse_function_call pe d t us
       else if peek us = DOT then parse_field_access t us
       else Inr (Identifier (tline t) (tcol t) (token_text (tvalue t)), us))"

fun parse_list_rest ::
  "expression_parser \<Rightarrow> nat \<Rightarrow> nat \<Rightarrow> token \<Rightarrow> node list \<Rightarrow> token list \<Rightarrow> node list parsed" where
  "parse_list_rest pe 0 d t els ts = Inl OutOfFuel"
| "parse_list_rest pe (Suc k) d t els ts =
     (if peek ts = COMMA then
        bindp (Inr (advance ts)) (\<lambda>_ us.
          if MAX_LIST_ELEMENTS \<le> length els then fail_at t ListTooLarge
          else bindp (pe d us) (\<lambda>e vs. parse_list_rest pe k d t (els @ [e]) vs))
      else Inr (els, ts))"

definition parse_list :: "expression_parser \<Rightarrow> nat \<Rightarrow> token list \<Rightarrow> node parsed" where
  "parse_list pe d ts =
     bindp (expect LBRACKET ts) (\<lambda>t us.
       bindp (if peek us \<noteq> RBRACKET then
                bindp (pe d us) (\<lambda>e vs. parse_list_rest pe (Suc (length vs)) d t [e] vs)
              else Inr ([], us)) (\<lambda>els vs.
         bindp (expect RBRACKET vs) (\<lambda>_ ws. Inr (ListLiteral (tline t) (tcol t) els, ws))))"

definition parse_primary :: "expression_parser \<Rightarrow> nat \<Rightarrow> token list \<Rightarrow> node parsed" where
  "parse_primary pe d ts =
     (let t = current ts in
      if ttype t = LPAREN then
        bindp (Inr (advance ts)) (\<lambda>_ us. bindp (pe d us) (\<lambda>e vs.
          bindp (expect RPAREN vs) (\<lambda>_ ws. Inr (e, ws))))
      else if ttype t = LBRACKET then parse_list pe d ts
      else if ttype t = STRING then
        bindp (Inr (advance ts)) (\<lambda>_ us.
          Inr (StringLiteral (tline t) (tcol t) (token_text (tvalue t)), us))
      else if ttype t = NUMBER then
        bindp (Inr (advance ts)) (\<lambda>_ us.
          Inr (NumberLiteral (tline t) (tcol t) (token_number (tvalue t)), us))
      else if ttype t = BOOL then
        bindp (Inr (advance ts)) (\<lambda>_ us.
          Inr (BoolLiteral (tline t) (tcol t) (token_bool (tvalue t)), us))
      else if ttype t = IDENT then parse_ident_or_call pe d ts
      else fail_at t (UnexpectedToken (ttype t) (tvalue t)))"

definition parse_comparison :: "expression_parser \<Rightarrow> nat \<Rightarrow> token list \<Rightarrow> node parsed" where
  "parse_comparison pe d ts =
     bindp (parse_primary pe d ts) (\<lambda>left us.
       if peek us \<in> comp_ops then
         bindp (Inr (advance us)) (\<lambda>op vs. bindp (parse_primary pe d vs) (\<lambda>right ws.
           Inr (Compare (tline op) (tcol op) (token_text (tvalue op)) left right, ws)))
       else Inr (left, us))"

fun parse_not :: "expression_parser \<Rightarrow> nat \<Rightarrow> token list \<Rightarrow> node parsed" where
  "parse_not pe d [] = parse_comparison pe d []"
| "parse_not pe d (t # ts) =
     (if ttype t = NOT then
        (if MAX_DEPTH < d + 1 then fail_at t NestingTooDeep
         else bindp (parse_not pe (d + 1) ts) (\<lambda>operand us.
           Inr (UnaryOp (tline t) (tcol t) ''NOT'' operand, us)))
      else parse_comparison pe d (t # ts))"

fun parse_and_rest ::
  "expression_parser \<Rightarrow> nat \<Rightarrow> nat \<Rightarrow> node \<Rightarrow> token list \<Rightarrow> node parsed" where
  "parse_and_rest pe 0 d left ts = Inl OutOfFuel"
| "parse_and_rest pe (Suc k) d left ts =
     (if peek ts = AND then
        bindp (Inr (advance ts)) (\<lambda>op us. bindp (parse_not pe d us) (\<lambda>right vs.
          parse_and_rest pe k d (BinaryOp (tline op) (tcol op) ''AND'' left right) vs))
      else Inr (left, ts))"

definition parse_and :: "expression_parser \<Rightarrow> nat \<Rightarrow> token list \<Rightarrow> node parsed" where
  "parse_and pe d ts =
     bindp (parse_not pe d ts) (\<lambda>left us. parse_and_rest pe (Suc (length us)) d left us)"

fun parse_or_rest ::
  "expression_parser \<Rightarrow> nat \<Rightarrow> nat \<Rightarrow> node \<Rightarrow> token list \<Rightarrow> node parsed" where
  "parse_or_rest pe 0 d left ts = Inl OutOfFuel"
| "parse_or_rest pe (Suc k) d left ts =
     (if peek ts = OR then
        bindp (Inr (advance ts)) (\<lambda>op us. bindp (parse_and pe d us) (\<lambda>right vs.
          parse_or_rest pe k d (BinaryOp (tline op) (tcol op) ''OR'' left right) vs))
      else Inr (left, ts))"

definition parse_or :: "expression_parser \<Rightarrow> nat \<Rightarrow> token list \<Rightarrow> node parsed" where
  "parse_or pe d ts =
     bindp (parse_and pe d ts) (\<lambda>left us. parse_or_rest pe (Suc (length us)) d left us)"

text \<open>The first argument bounds the expressions inside one another; the depth check bounds it too.\<close>

primrec parse_expression :: "nat \<Rightarrow> nat \<Rightarrow> token list \<Rightarrow> node parsed" where
  "parse_expression 0 d ts = Inl OutOfFuel"
| "parse_expression (Suc n) d ts =
     (if MAX_DEPTH < d + 1 then fail_at (current ts) NestingTooDeep
      else parse_or (parse_expression n) (d + 1) ts)"

section \<open>Parsing a rule\<close>

definition parse_tokens :: "token list \<Rightarrow> parse_error + node" where
  "parse_tokens ts =
     (case parse_expression (Suc MAX_DEPTH) 0 ts of
        Inl e \<Rightarrow> Inl e
      | Inr (condition, rest) \<Rightarrow>
          (let t = current rest in
           if ttype t \<noteq> EOF then Inl (ParseError (UnexpectedAfterExpression (tvalue t)) (tline t) (tcol t))
           else Inr (Rule (node_line condition) (node_col condition) condition)))"

definition parse_prl :: "string \<Rightarrow> parse_error + node" where
  "parse_prl source =
     (case tokenize source of
        Inl (LexerError m l c) \<Rightarrow> Inl (ParseError (LexFailed m) l c)
      | Inr ts \<Rightarrow> parse_tokens ts)"

end
