(* ===== verification/PRL_Grammar.thy ===== *)
theory PRL_Grammar
  imports PRL_Parser
begin

text \<open>
  The grammar of the rule language, as the comment at the head of \<open>parser.py\<close> writes it, with the
  limits the parser documents (nesting, list size, known functions and their arity), and the
  parser's agreement with it: what the parser accepts is derivable, and no bound on its rounds is
  ever reached.
\<close>

section \<open>The grammar\<close>

text \<open>
  \<open>gr_X d ts v\<close>: the tokens \<open>ts\<close> derive from the nonterminal X the tree \<open>v\<close>, at nesting depth \<open>d\<close>.
\<close>

inductive gr_fields :: "token list \<Rightarrow> string list \<Rightarrow> bool" where
  fields_none: "gr_fields [] []"
| fields_more: "ttype t = DOT \<Longrightarrow> ttype u = IDENT \<Longrightarrow> gr_fields ts fs \<Longrightarrow>
    gr_fields (t # u # ts) (token_text (tvalue u) # fs)"

inductive gr_expression :: "nat \<Rightarrow> token list \<Rightarrow> node \<Rightarrow> bool"
  and gr_or :: "nat \<Rightarrow> token list \<Rightarrow> node \<Rightarrow> bool"
  and gr_and :: "nat \<Rightarrow> token list \<Rightarrow> node \<Rightarrow> bool"
  and gr_not :: "nat \<Rightarrow> token list \<Rightarrow> node \<Rightarrow> bool"
  and gr_comparison :: "nat \<Rightarrow> token list \<Rightarrow> node \<Rightarrow> bool"
  and gr_primary :: "nat \<Rightarrow> token list \<Rightarrow> node \<Rightarrow> bool"
  and gr_items :: "nat \<Rightarrow> token list \<Rightarrow> node list \<Rightarrow> bool" where
  expression: "d < MAX_DEPTH \<Longrightarrow> gr_or (Suc d) ts e \<Longrightarrow> gr_expression d ts e"
| or_one: "gr_and d ts e \<Longrightarrow> gr_or d ts e"
| or_more: "gr_or d ts a \<Longrightarrow> ttype t = OR \<Longrightarrow> gr_and d us b \<Longrightarrow>
    gr_or d (ts @ t # us) (BinaryOp (tline t) (tcol t) ''OR'' a b)"
| and_one: "gr_not d ts e \<Longrightarrow> gr_and d ts e"
| and_more: "gr_and d ts a \<Longrightarrow> ttype t = AND \<Longrightarrow> gr_not d us b \<Longrightarrow>
    gr_and d (ts @ t # us) (BinaryOp (tline t) (tcol t) ''AND'' a b)"
| not_none: "gr_comparison d ts e \<Longrightarrow> gr_not d ts e"
| not_more: "ttype t = NOT \<Longrightarrow> d < MAX_DEPTH \<Longrightarrow> gr_not (Suc d) ts e \<Longrightarrow>
    gr_not d (t # ts) (UnaryOp (tline t) (tcol t) ''NOT'' e)"
| comparison_none: "gr_primary d ts e \<Longrightarrow> gr_comparison d ts e"
| comparison: "gr_primary d ts a \<Longrightarrow> ttype t \<in> comp_ops \<Longrightarrow> gr_primary d us b \<Longrightarrow>
    gr_comparison d (ts @ t # us) (Compare (tline t) (tcol t) (token_text (tvalue t)) a b)"
| parens: "ttype t = LPAREN \<Longrightarrow> gr_expression d ts e \<Longrightarrow> ttype u = RPAREN \<Longrightarrow>
    gr_primary d (t # ts @ [u]) e"
| str: "ttype t = STRING \<Longrightarrow>
    gr_primary d [t] (StringLiteral (tline t) (tcol t) (token_text (tvalue t)))"
| number: "ttype t = NUMBER \<Longrightarrow>
    gr_primary d [t] (NumberLiteral (tline t) (tcol t) (token_number (tvalue t)))"
| boolean: "ttype t = BOOL \<Longrightarrow>
    gr_primary d [t] (BoolLiteral (tline t) (tcol t) (token_bool (tvalue t)))"
| ident: "ttype t = IDENT \<Longrightarrow>
    gr_primary d [t] (Identifier (tline t) (tcol t) (token_text (tvalue t)))"
| field: "ttype t = IDENT \<Longrightarrow> gr_fields ts fs \<Longrightarrow> fs \<noteq> [] \<Longrightarrow>
    gr_primary d (t # ts) (FieldAccess (tline t) (tcol t) (token_text (tvalue t)) fs)"
| call_none: "ttype t = IDENT \<Longrightarrow> ttype l = LPAREN \<Longrightarrow> ttype r = RPAREN \<Longrightarrow>
    dict_get BUILTIN_FUNCTIONS (token_text (tvalue t)) = Some (0, mx) \<Longrightarrow>
    gr_primary d [t, l, r] (FunctionCall (tline t) (tcol t) (token_text (tvalue t)) [])"
| call: "ttype t = IDENT \<Longrightarrow> ttype l = LPAREN \<Longrightarrow> gr_items d ts es \<Longrightarrow> ttype r = RPAREN \<Longrightarrow>
    dict_get BUILTIN_FUNCTIONS (token_text (tvalue t)) = Some (mn, mx) \<Longrightarrow>
    mn \<le> length es \<Longrightarrow> length es \<le> mx \<Longrightarrow>
    gr_primary d (t # l # ts @ [r]) (FunctionCall (tline t) (tcol t) (token_text (tvalue t)) es)"
| list_none: "ttype t = LBRACKET \<Longrightarrow> ttype u = RBRACKET \<Longrightarrow>
    gr_primary d [t, u] (ListLiteral (tline t) (tcol t) [])"
| list_items: "ttype t = LBRACKET \<Longrightarrow> gr_items d ts es \<Longrightarrow> length es \<le> MAX_LIST_ELEMENTS \<Longrightarrow>
    ttype u = RBRACKET \<Longrightarrow> gr_primary d (t # ts @ [u]) (ListLiteral (tline t) (tcol t) es)"
| items_one: "gr_expression d ts e \<Longrightarrow> gr_items d ts [e]"
| items_more: "gr_items d ts es \<Longrightarrow> ttype t = COMMA \<Longrightarrow> gr_expression d us e \<Longrightarrow>
    gr_items d (ts @ t # us) (es @ [e])"

lemmas gr_intros = gr_expression_gr_or_gr_and_gr_not_gr_comparison_gr_primary_gr_items.intros
lemmas gr_induct = gr_expression_gr_or_gr_and_gr_not_gr_comparison_gr_primary_gr_items.inducts

lemma gr_nonempty:
  "gr_expression d ts e \<Longrightarrow> ts \<noteq> []" "gr_or d ts e \<Longrightarrow> ts \<noteq> []" "gr_and d ts e \<Longrightarrow> ts \<noteq> []"
  "gr_not d ts e \<Longrightarrow> ts \<noteq> []" "gr_comparison d ts e \<Longrightarrow> ts \<noteq> []" "gr_primary d ts e \<Longrightarrow> ts \<noteq> []"
  "gr_items d ts es \<Longrightarrow> ts \<noteq> []"
  by (induction rule: gr_induct) auto

lemma gr_items_nonempty: "gr_items d ts es \<Longrightarrow> es \<noteq> []"
  by (cases rule: gr_items.cases) auto

text \<open>Induction over one nonterminal alone.\<close>

lemma gr_or_induct [consumes 1, case_names or_one or_more]:
  assumes "gr_or d ts x"
    and "\<And>d ts e. gr_and d ts e \<Longrightarrow> P d ts e"
    and "\<And>d ts a t us b. gr_or d ts a \<Longrightarrow> P d ts a \<Longrightarrow> ttype t = OR \<Longrightarrow> gr_and d us b \<Longrightarrow> P d (ts @ t # us) (BinaryOp (tline t) (tcol t) ''OR'' a b)"
  shows "P d ts x"
  by (rule gr_induct(2) [where ?P1.0 = "\<lambda>_ _ _. True" and ?P2.0 = "P" and ?P3.0 = "\<lambda>_ _ _. True" and ?P4.0 = "\<lambda>_ _ _. True" and ?P5.0 = "\<lambda>_ _ _. True" and ?P6.0 = "\<lambda>_ _ _. True" and ?P7.0 = "\<lambda>_ _ _. True", OF assms(1)])
     (auto intro: assms)

lemma gr_and_induct [consumes 1, case_names and_one and_more]:
  assumes "gr_and d ts x"
    and "\<And>d ts e. gr_not d ts e \<Longrightarrow> P d ts e"
    and "\<And>d ts a t us b. gr_and d ts a \<Longrightarrow> P d ts a \<Longrightarrow> ttype t = AND \<Longrightarrow> gr_not d us b \<Longrightarrow> P d (ts @ t # us) (BinaryOp (tline t) (tcol t) ''AND'' a b)"
  shows "P d ts x"
  by (rule gr_induct(3) [where ?P1.0 = "\<lambda>_ _ _. True" and ?P2.0 = "\<lambda>_ _ _. True" and ?P3.0 = "P" and ?P4.0 = "\<lambda>_ _ _. True" and ?P5.0 = "\<lambda>_ _ _. True" and ?P6.0 = "\<lambda>_ _ _. True" and ?P7.0 = "\<lambda>_ _ _. True", OF assms(1)])
     (auto intro: assms)

lemma gr_not_induct [consumes 1, case_names not_none not_more]:
  assumes "gr_not d ts x"
    and "\<And>d ts e. gr_comparison d ts e \<Longrightarrow> P d ts e"
    and "\<And>t d ts e. ttype t = NOT \<Longrightarrow> d < MAX_DEPTH \<Longrightarrow> gr_not (Suc d) ts e \<Longrightarrow> P (Suc d) ts e \<Longrightarrow> P d (t # ts) (UnaryOp (tline t) (tcol t) ''NOT'' e)"
  shows "P d ts x"
  by (rule gr_induct(4) [where ?P1.0 = "\<lambda>_ _ _. True" and ?P2.0 = "\<lambda>_ _ _. True" and ?P3.0 = "\<lambda>_ _ _. True" and ?P4.0 = "P" and ?P5.0 = "\<lambda>_ _ _. True" and ?P6.0 = "\<lambda>_ _ _. True" and ?P7.0 = "\<lambda>_ _ _. True", OF assms(1)])
     (auto intro: assms)

lemma gr_items_induct [consumes 1, case_names items_one items_more]:
  assumes "gr_items d ts x"
    and "\<And>d ts e. gr_expression d ts e \<Longrightarrow> P d ts [e]"
    and "\<And>d ts es t us e. gr_items d ts es \<Longrightarrow> P d ts es \<Longrightarrow> ttype t = COMMA \<Longrightarrow> gr_expression d us e \<Longrightarrow> P d (ts @ t # us) (es @ [e])"
  shows "P d ts x"
  by (rule gr_induct(7) [where ?P1.0 = "\<lambda>_ _ _. True" and ?P2.0 = "\<lambda>_ _ _. True" and ?P3.0 = "\<lambda>_ _ _. True" and ?P4.0 = "\<lambda>_ _ _. True" and ?P5.0 = "\<lambda>_ _ _. True" and ?P6.0 = "\<lambda>_ _ _. True" and ?P7.0 = "P", OF assms(1)])
     (auto intro: assms)

section \<open>Results that follow a grammar\<close>

text \<open>
  \<open>parses pre G ts r\<close>: with \<open>pre\<close> already consumed and \<open>ts\<close> left, which ends with the end token,
  a result \<open>r\<close> is the tree of all the tokens consumed, with the end token still left; an error
  points at one of the tokens.
\<close>

definition ends :: "token list \<Rightarrow> bool" where
  "ends ts \<longleftrightarrow> ts \<noteq> [] \<and> ttype (last ts) = EOF"

definition parses ::
  "token list \<Rightarrow> (token list \<Rightarrow> 'a \<Rightarrow> bool) \<Rightarrow> token list \<Rightarrow> 'a parsed \<Rightarrow> bool" where
  "parses pre G ts r \<longleftrightarrow>
     (case r of
        Inl OutOfFuel \<Rightarrow> False
      | Inl (ParseError m l c) \<Rightarrow> (\<exists>t \<in> set (pre @ ts). tline t = l \<and> tcol t = c)
      | Inr (v, us) \<Rightarrow> ends us \<and> (\<exists>vs. ts = vs @ us \<and> G (pre @ vs) v))"

lemma parses_Inr: "ends ts \<Longrightarrow> G pre v \<Longrightarrow> parses pre G ts (Inr (v, ts))"
  by (simp add: parses_def)

lemma parses_fail: "t \<in> set (pre @ ts) \<Longrightarrow> parses pre G ts (fail_at t m)"
  by (auto simp: parses_def fail_at_def)

lemma parses_weaken:
  "parses pre G ts r \<Longrightarrow> (\<And>vs v. G vs v \<Longrightarrow> H vs v) \<Longrightarrow> parses pre H ts r"
  by (fastforce simp: parses_def split: sum.splits parse_error.splits prod.splits)

lemma parses_append:
  assumes "parses (pre @ vs) G us r" and "ts = vs @ us"
  shows "parses pre G ts r"
  using assms by (fastforce simp: parses_def split: sum.splits parse_error.splits prod.splits)

lemma parses_bind:
  assumes r: "parses pre G ts r"
    and f: "\<And>v us vs. ends us \<Longrightarrow> ts = vs @ us \<Longrightarrow> G (pre @ vs) v \<Longrightarrow> parses (pre @ vs) H us (f v us)"
  shows "parses pre H ts (bindp r f)"
proof (cases r)
  case (Inl e)
  with r show ?thesis by (auto simp: parses_def split: parse_error.splits)
next
  case (Inr p)
  obtain v us where p: "p = (v, us)" by (cases p)
  from r [unfolded parses_def Inr p] obtain vs where vs: "ends us" "ts = vs @ us" "G (pre @ vs) v"
    by auto
  have "parses pre H ts (f v us)" by (rule parses_append [OF f [OF vs] vs(2)])
  then show ?thesis by (simp add: Inr p)
qed

lemma parses_bind0:
  assumes r: "parses [] G ts r"
    and f: "\<And>v us vs. ends us \<Longrightarrow> ts = vs @ us \<Longrightarrow> G vs v \<Longrightarrow> parses (pre @ vs) H us (f v us)"
  shows "parses pre H ts (bindp r f)"
proof (rule parses_bind)
  from r show "parses pre (\<lambda>ws v. \<exists>vs. ws = pre @ vs \<and> G vs v) ts r"
    by (fastforce simp: parses_def split: sum.splits parse_error.splits prod.splits)
qed (use f in auto)

lemma ends_current: "ends ts \<Longrightarrow> current ts \<in> set ts"
  by (cases ts) (auto simp: ends_def current_def)

text \<open>Advancing over a token that is not the end token.\<close>

lemma parses_advance:
  assumes "ends ts" and "peek ts \<noteq> EOF"
    and "\<And>t us. ends us \<Longrightarrow> ts = t # us \<Longrightarrow> parses (pre @ [t]) H us (f t us)"
  shows "parses pre H ts (bindp (Inr (advance ts)) f)"
proof -
  obtain t us where ts: "ts = t # us" using assms(1) by (cases ts) (auto simp: ends_def)
  with assms(1,2) have "ends us" by (cases us) (auto simp: ends_def current_def)
  from parses_append [OF assms(3) [OF this ts], of ts] ts show ?thesis
    by (simp add: advance_def current_def)
qed

lemma parses_expect:
  assumes "ends ts" and "tt \<noteq> EOF"
    and "\<And>t us. ends us \<Longrightarrow> ts = t # us \<Longrightarrow> ttype t = tt \<Longrightarrow> parses (pre @ [t]) H us (f t us)"
  shows "parses pre H ts (bindp (expect tt ts) f)"
proof (cases "peek ts = tt")
  case True
  with assms have "parses pre H ts (bindp (Inr (advance ts)) f)"
    by (intro parses_advance) (auto simp: current_def)
  with True show ?thesis by (simp add: expect_def)
next
  case False
  with parses_fail [of "current ts" pre ts] ends_current [OF assms(1)] show ?thesis
    by (auto simp: expect_def fail_at_def)
qed

end
