(* ===== verification/PRL_Parser_Props.thy ===== *)
theory PRL_Parser_Props
  imports PRL_Grammar
begin

text \<open>
  Soundness, completeness and termination of the parser against the grammar, the well-formedness of
  the trees it returns, and the properties of \<open>parse_prl\<close>.
\<close>

section \<open>Soundness\<close>

lemma fields_sound:
  "ends ts \<Longrightarrow> parses [] gr_fields ts (parse_fields ts)"
proof (induction ts rule: parse_fields.induct)
  case (2 t ts)
  show ?case
  proof (cases "ttype t = DOT")
    case False
    with 2(2) show ?thesis by (auto intro: parses_Inr fields_none)
  next
    case dot: True
    with 2(2) obtain u us where ts: "ts = u # us" and e: "ends (u # us)"
      by (cases ts) (auto simp: ends_def)
    have "parses [t] gr_fields (u # us) (bindp (expect IDENT (u # us)) (\<lambda>f _.
        bindp (parse_fields us) (\<lambda>fs rest. Inr (token_text (tvalue f) # fs, rest))))"
    proof (rule parses_expect [OF e])
      fix t' us' assume a: "ends us'" "u # us = t' # us'" "ttype t' = IDENT"
      with 2(1) [OF dot ts] have "parses [] gr_fields us (parse_fields us)" by simp
      then show "parses ([t] @ [t']) gr_fields us'
          (bindp (parse_fields us) (\<lambda>fs rest. Inr (token_text (tvalue t') # fs, rest)))"
        using a dot by (auto intro!: parses_bind0 parses_Inr fields_more)
    qed simp
    from parses_append [of "[]" "[t]", simplified, OF this] dot ts show ?thesis by simp
  qed
qed (simp add: ends_def)

locale sound_parser =
  fixes pe :: expression_parser
    and lo :: nat
  assumes pe_sound: "d \<in> {lo..MAX_DEPTH} \<Longrightarrow> ends ts \<Longrightarrow> parses [] (gr_expression d) ts (pe d ts)"
begin

lemma args_rest_sound:
  "d \<in> {lo..MAX_DEPTH} \<Longrightarrow> ends ts \<Longrightarrow> length ts < k \<Longrightarrow> gr_items d pre es \<Longrightarrow>
     parses pre (gr_items d) ts (parse_args_rest pe k d es ts)"
proof (induction k arbitrary: ts pre es)
  case (Suc k)
  show ?case
  proof (cases "peek ts = COMMA")
    case True
    have "parses pre (gr_items d) ts
      (bindp (Inr (advance ts)) (\<lambda>_ us. bindp (pe d us) (\<lambda>e vs. parse_args_rest pe k d (es @ [e]) vs)))"
    proof (rule parses_advance)
      fix t us assume us: "ends us" "ts = t # us"
      with Suc.prems True show "parses (pre @ [t]) (gr_items d) us
          (bindp (pe d us) (\<lambda>e vs. parse_args_rest pe k d (es @ [e]) vs))"
        by (intro parses_bind0 [OF pe_sound] Suc.IH)
           (auto simp: current_def intro: items_more)
    qed (use Suc.prems True in auto)
    with True show ?thesis by simp
  next
    case False
    with Suc.prems show ?thesis by (auto intro: parses_Inr)
  qed
qed simp

lemma list_rest_sound:
  "d \<in> {lo..MAX_DEPTH} \<Longrightarrow> ends ts \<Longrightarrow> length ts < k \<Longrightarrow> gr_items d pre es \<Longrightarrow> length es \<le> MAX_LIST_ELEMENTS \<Longrightarrow>
     parses (t # pre) (\<lambda>ws es. \<exists>vs. ws = t # vs \<and> gr_items d vs es \<and> length es \<le> MAX_LIST_ELEMENTS)
       ts (parse_list_rest pe k d t es ts)"
  (is "_ \<Longrightarrow> _ \<Longrightarrow> _ \<Longrightarrow> _ \<Longrightarrow> _ \<Longrightarrow> parses _ ?G _ _")
proof (induction k arbitrary: ts pre es)
  case (Suc k)
  show ?case
  proof (cases "peek ts = COMMA")
    case True
    have "parses (t # pre) ?G ts
      (bindp (Inr (advance ts)) (\<lambda>_ us. if MAX_LIST_ELEMENTS \<le> length es then fail_at t ListTooLarge
          else bindp (pe d us) (\<lambda>e vs. parse_list_rest pe k d t (es @ [e]) vs)))"
    proof (rule parses_advance)
      fix c us assume us: "ends us" "ts = c # us"
      show "parses ((t # pre) @ [c]) ?G us
          (if MAX_LIST_ELEMENTS \<le> length es then fail_at t ListTooLarge
           else bindp (pe d us) (\<lambda>e vs. parse_list_rest pe k d t (es @ [e]) vs))"
      proof (cases "MAX_LIST_ELEMENTS \<le> length es")
        case False
        have "parses (t # pre @ [c]) ?G us
            (bindp (pe d us) (\<lambda>e vs. parse_list_rest pe k d t (es @ [e]) vs))"
        proof (rule parses_bind0 [OF pe_sound])
          fix e ws vs assume "ends ws" "us = vs @ ws" "gr_expression d vs e"
          with Suc.prems us True False show "parses ((t # pre @ [c]) @ vs) ?G ws
              (parse_list_rest pe k d t (es @ [e]) ws)"
            using Suc.IH [of ws "pre @ c # vs" "es @ [e]"] by (auto simp: current_def intro: items_more)
        qed (use Suc.prems us in auto)
        with False show ?thesis by simp
      qed (simp add: parses_fail)
    qed (use Suc.prems True in auto)
    with True show ?thesis by simp
  next
    case False
    with Suc.prems show ?thesis by (auto intro: parses_Inr)
  qed
qed simp

lemma args_sound:
  assumes "d \<in> {lo..MAX_DEPTH}" and "ends ts"
  shows "parses [] (\<lambda>ws es. ws = [] \<and> es = [] \<or> gr_items d ws es) ts (parse_args pe d ts)"
proof (cases "peek ts = RPAREN")
  case True
  with assms show ?thesis by (simp add: parse_args_def parses_Inr)
next
  case False
  have "parses [] (\<lambda>ws es. ws = [] \<and> es = [] \<or> gr_items d ws es) ts
      (bindp (pe d ts) (\<lambda>e us. parse_args_rest pe (Suc (length us)) d [e] us))"
    by (rule parses_bind0 [OF pe_sound [OF assms]], rule parses_weaken [OF args_rest_sound [OF assms(1)]])
       (auto intro: items_one)
  with False show ?thesis by (simp add: parse_args_def)
qed

lemma function_call_sound:
  assumes d: "d \<in> {lo..MAX_DEPTH}" and e: "ends ts" and t: "ttype t = IDENT"
  shows "parses [t] (gr_primary d) ts (parse_function_call pe d t ts)"
proof (cases "dict_get BUILTIN_FUNCTIONS (token_text (tvalue t))")
  case None
  then show ?thesis by (simp add: parse_function_call_def parses_fail)
next
  case (Some b)
  obtain mn mx where b: "b = (mn, mx)" by (cases b)
  have "parses [t] (gr_primary d) ts
    (bindp (expect LPAREN ts) (\<lambda>_ us. bindp (parse_args pe d us) (\<lambda>args vs.
       bindp (expect RPAREN vs) (\<lambda>_ ws.
         if mn \<le> length args \<and> length args \<le> mx
         then Inr (FunctionCall (tline t) (tcol t) (token_text (tvalue t)) args, ws)
         else fail_at t (ArgumentCount (token_text (tvalue t)) mn mx (length args))))))"
  proof (rule parses_expect [OF e], simp, rule parses_bind0 [OF args_sound [OF d]], assumption,
      rule parses_expect, assumption, simp)
    fix l r :: token and us args vs ws xs
    assume l: "ttype l = LPAREN" and r: "ttype r = RPAREN" and x: "ends xs"
      and a: "ws = [] \<and> args = [] \<or> gr_items d ws args"
    show "parses ((([t] @ [l]) @ ws) @ [r]) (gr_primary d) xs
        (if mn \<le> length args \<and> length args \<le> mx
         then Inr (FunctionCall (tline t) (tcol t) (token_text (tvalue t)) args, xs)
         else fail_at t (ArgumentCount (token_text (tvalue t)) mn mx (length args)))"
    proof (cases "mn \<le> length args \<and> length args \<le> mx")
      case True
      with a have "gr_primary d (t # l # ws @ [r]) (FunctionCall (tline t) (tcol t) (token_text (tvalue t)) args)"
        using call_none [OF t l r] call [OF t l _ r] Some b by auto
      with True x show ?thesis by (auto intro: parses_Inr)
    qed (auto simp: parses_fail)
  qed
  with Some b show ?thesis by (simp add: parse_function_call_def Let_def)
qed

lemma ident_or_call_sound:
  assumes d: "d \<in> {lo..MAX_DEPTH}" and e: "ends ts" and t: "peek ts = IDENT"
  shows "parses [] (gr_primary d) ts (parse_ident_or_call pe d ts)"
  unfolding parse_ident_or_call_def
proof (rule parses_advance [OF e])
  fix u us assume u: "ends us" "ts = u # us"
  with t have ident: "ttype u = IDENT" by (simp add: current_def)
  have "parses [u] (gr_primary d) us (parse_field_access u us)" if "peek us = DOT"
    unfolding parse_field_access_def
  proof (rule parses_bind0)
    from that have "\<exists>v vs. us = v # vs \<and> ttype v = DOT" by (cases us) (auto simp: current_def)
    then have "parses [] (\<lambda>ws fs. gr_fields ws fs \<and> fs \<noteq> []) us (parse_fields us)"
      using fields_sound [OF u(1)]
      by (auto simp: parses_def bindp_def expect_def current_def fail_at_def
          split: sum.splits parse_error.splits list.splits prod.splits)
    then show "parses [] (\<lambda>ws fs. gr_fields ws fs \<and> fs \<noteq> []) us (parse_fields us)" .
  qed (auto intro!: parses_Inr field ident)
  with function_call_sound [OF d u(1) ident]
  show "parses ([] @ [u]) (gr_primary d) us
      (if peek us = LPAREN then parse_function_call pe d u us
       else if peek us = DOT then parse_field_access u us
       else Inr (Identifier (tline u) (tcol u) (token_text (tvalue u)), us))"
    using ident u by (auto intro: parses_Inr gr_intros)
qed (use t in simp)

lemma list_sound:
  assumes d: "d \<in> {lo..MAX_DEPTH}" and e: "ends ts"
  shows "parses [] (gr_primary d) ts (parse_list pe d ts)"
  unfolding parse_list_def
proof (rule parses_expect [OF e], simp)
  fix t :: token and us assume us: "ends us" and t: "ttype t = LBRACKET"
  let ?G = "\<lambda>ws es. \<exists>vs. ws = t # vs \<and> (vs = [] \<and> es = [] \<or> gr_items d vs es \<and> length es \<le> MAX_LIST_ELEMENTS)"
  have "parses [t] ?G us (bindp (pe d us) (\<lambda>e vs. parse_list_rest pe (Suc (length vs)) d t [e] vs))"
  proof (rule parses_bind0 [OF pe_sound [OF d us]])
    fix e vs ws assume "ends vs" "gr_expression d ws e"
    then have "parses (t # ws) (\<lambda>ws es. \<exists>vs. ws = t # vs \<and> gr_items d vs es \<and> length es \<le> MAX_LIST_ELEMENTS)
        vs (parse_list_rest pe (Suc (length vs)) d t [e] vs)"
      by (intro list_rest_sound [OF d]) (auto intro: items_one simp: MAX_LIST_ELEMENTS_def)
    from parses_weaken [OF this, of ?G]
    show "parses ([t] @ ws) ?G vs (parse_list_rest pe (Suc (length vs)) d t [e] vs)"
      by (auto simp del: parse_list_rest.simps)
  qed
  moreover have "parses [t] ?G us (Inr ([], us))" using us by (auto intro: parses_Inr)
  ultimately have "parses [t] ?G us (if peek us \<noteq> RBRACKET then
      bindp (pe d us) (\<lambda>e vs. parse_list_rest pe (Suc (length vs)) d t [e] vs) else Inr ([], us))"
    by simp
  then show "parses ([] @ [t]) (gr_primary d) us (bindp (if peek us \<noteq> RBRACKET then
      bindp (pe d us) (\<lambda>e vs. parse_list_rest pe (Suc (length vs)) d t [e] vs) else Inr ([], us))
      (\<lambda>els vs. bindp (expect RBRACKET vs) (\<lambda>_ ws. Inr (ListLiteral (tline t) (tcol t) els, ws))))"
    unfolding append_Nil
    by (rule parses_bind) (auto intro!: parses_expect parses_Inr simp: t list_none list_items)
qed

lemma primary_sound:
  assumes d: "d \<in> {lo..MAX_DEPTH}" and e: "ends ts"
  shows "parses [] (gr_primary d) ts (parse_primary pe d ts)"
proof -
  have literal: "parses [] (gr_primary d) ts (bindp (Inr (advance ts)) (\<lambda>_ us. Inr (f (current ts), us)))"
    if "\<And>t. ttype t = ttype (current ts) \<Longrightarrow> gr_primary d [t] (f t)" and "peek ts \<noteq> EOF" for f
  proof (rule parses_advance [OF e])
    fix t us assume us: "ends us" "ts = t # us"
    then have "gr_primary d [t] (f (current ts))" using that(1) [of t] by (simp add: current_def)
    with us show "parses ([] @ [t]) (gr_primary d) us (Inr (f (current ts), us))"
      by (simp add: parses_Inr)
  qed (rule that(2))
  show ?thesis
  proof (cases "peek ts = LPAREN")
    case True
    have "parses [] (gr_primary d) ts (bindp (Inr (advance ts)) (\<lambda>_ us. bindp (pe d us) (\<lambda>e vs.
          bindp (expect RPAREN vs) (\<lambda>_ ws. Inr (e, ws)))))"
    proof (rule parses_advance [OF e])
      fix t us assume us: "ends us" "ts = t # us"
      with True have t: "ttype t = LPAREN" by (simp add: current_def)
      show "parses ([] @ [t]) (gr_primary d) us
          (bindp (pe d us) (\<lambda>e vs. bindp (expect RPAREN vs) (\<lambda>_ ws. Inr (e, ws))))"
        by (rule parses_bind0 [OF pe_sound [OF d us(1)]], rule parses_expect)
           (auto intro: parses_Inr parens t)
    qed (use True in simp)
    with True show ?thesis by (simp add: parse_primary_def)
  next
    case False
    then show ?thesis
      using list_sound [OF d e] ident_or_call_sound [OF d e]
        literal [of "\<lambda>t. StringLiteral (tline t) (tcol t) (token_text (tvalue t))"]
        literal [of "\<lambda>t. NumberLiteral (tline t) (tcol t) (token_number (tvalue t))"]
        literal [of "\<lambda>t. BoolLiteral (tline t) (tcol t) (token_bool (tvalue t))"]
        parses_fail [of "current ts" "[]" ts] ends_current [OF e]
      by (auto simp: parse_primary_def Let_def str number boolean)
  qed
qed

lemma comparison_sound:
  assumes d: "d \<in> {lo..MAX_DEPTH}" and e: "ends ts"
  shows "parses [] (gr_comparison d) ts (parse_comparison pe d ts)"
  unfolding parse_comparison_def
proof (rule parses_bind0 [OF primary_sound [OF d e]])
  fix a us vs assume us: "ends us" and a: "gr_primary d vs a"
  show "parses ([] @ vs) (gr_comparison d) us
      (if peek us \<in> comp_ops then
         bindp (Inr (advance us)) (\<lambda>op vs. bindp (parse_primary pe d vs) (\<lambda>right ws.
           Inr (Compare (tline op) (tcol op) (token_text (tvalue op)) a right, ws)))
       else Inr (a, us))"
  proof (cases "peek us \<in> comp_ops")
    case True
    have "parses vs (gr_comparison d) us
         (bindp (Inr (advance us)) (\<lambda>op vs. bindp (parse_primary pe d vs) (\<lambda>right ws.
           Inr (Compare (tline op) (tcol op) (token_text (tvalue op)) a right, ws))))"
      using True by (intro parses_advance [OF us] parses_bind0 [OF primary_sound [OF d]])
        (auto simp: comp_ops_def current_def intro!: parses_Inr comparison a)
    with True show ?thesis by simp
  next
    case False
    with us a show ?thesis by (auto intro: parses_Inr comparison_none)
  qed
qed

lemma not_sound: "d \<in> {lo..MAX_DEPTH} \<Longrightarrow> ends ts \<Longrightarrow> parses [] (gr_not d) ts (parse_not pe d ts)"
proof (induction ts arbitrary: d)
  case (Cons t ts)
  note cmp = comparison_sound [OF Cons.prems]
  show ?case
  proof (cases "ttype t = NOT \<and> d + 1 \<le> MAX_DEPTH")
    case True
    with Cons.prems(2) have "ends ts" by (cases ts) (auto simp: ends_def)
    with True Cons.prems(1) Cons.IH [of "d + 1"] have "parses [t] (gr_not d) ts
        (bindp (parse_not pe (d + 1) ts) (\<lambda>operand us. Inr (UnaryOp (tline t) (tcol t) ''NOT'' operand, us)))"
      by (intro parses_bind0 [OF Cons.IH]) (auto intro!: parses_Inr not_more)
    from parses_append [of "[]" "[t]", simplified, OF this] True show ?thesis by simp
  next
    case False
    with parses_weaken [OF cmp not_none] show ?thesis by (auto intro: parses_fail)
  qed
qed (simp add: ends_def)

lemma and_rest_sound:
  "d \<in> {lo..MAX_DEPTH} \<Longrightarrow> ends ts \<Longrightarrow> length ts < k \<Longrightarrow> gr_and d pre a \<Longrightarrow>
     parses pre (gr_and d) ts (parse_and_rest pe k d a ts)"
proof (induction k arbitrary: ts pre a)
  case (Suc k)
  show ?case
  proof (cases "peek ts = AND")
    case True
    have "parses pre (gr_and d) ts (bindp (Inr (advance ts)) (\<lambda>op us. bindp (parse_not pe d us)
        (\<lambda>b vs. parse_and_rest pe k d (BinaryOp (tline op) (tcol op) ''AND'' a b) vs)))"
      using Suc.prems True by (intro parses_advance parses_bind0 [OF not_sound] Suc.IH)
         (auto simp: current_def intro: and_more)
    with True show ?thesis by simp
  qed (use Suc.prems in \<open>auto intro: parses_Inr\<close>)
qed simp

lemma and_sound: "d \<in> {lo..MAX_DEPTH} \<Longrightarrow> ends ts \<Longrightarrow> parses [] (gr_and d) ts (parse_and pe d ts)"
  unfolding parse_and_def by (intro parses_bind0 [OF not_sound] and_rest_sound) (auto intro: and_one)

lemma or_rest_sound:
  "d \<in> {lo..MAX_DEPTH} \<Longrightarrow> ends ts \<Longrightarrow> length ts < k \<Longrightarrow> gr_or d pre a \<Longrightarrow>
     parses pre (gr_or d) ts (parse_or_rest pe k d a ts)"
proof (induction k arbitrary: ts pre a)
  case (Suc k)
  show ?case
  proof (cases "peek ts = OR")
    case True
    have "parses pre (gr_or d) ts (bindp (Inr (advance ts)) (\<lambda>op us. bindp (parse_and pe d us)
        (\<lambda>b vs. parse_or_rest pe k d (BinaryOp (tline op) (tcol op) ''OR'' a b) vs)))"
      using Suc.prems True by (intro parses_advance parses_bind0 [OF and_sound] Suc.IH)
         (auto simp: current_def intro: or_more)
    with True show ?thesis by simp
  qed (use Suc.prems in \<open>auto intro: parses_Inr\<close>)
qed simp

lemma or_sound: "d \<in> {lo..MAX_DEPTH} \<Longrightarrow> ends ts \<Longrightarrow> parses [] (gr_or d) ts (parse_or pe d ts)"
  unfolding parse_or_def by (intro parses_bind0 [OF and_sound] or_rest_sound) (auto intro: or_one)

end

text \<open>The depth check stops the nesting before the bound of \<open>parse_expression\<close> does.\<close>

interpretation expr: sound_parser "parse_expression n" "Suc MAX_DEPTH - n" for n
proof (induction n)
  case 0
  show ?case by unfold_locales (simp add: parses_def)
next
  case (Suc n)
  show ?case
  proof
    fix d ts assume d: "d \<in> {Suc MAX_DEPTH - Suc n..MAX_DEPTH}" and ts: "ends ts"
    show "parses [] (gr_expression d) ts (parse_expression (Suc n) d ts)"
    proof (cases "MAX_DEPTH < d + 1")
      case True
      with parses_fail [of "current ts" "[]" ts] ends_current [OF ts] show ?thesis by simp
    next
      case False
      with d have "d < MAX_DEPTH" and "d + 1 \<in> {Suc MAX_DEPTH - n..MAX_DEPTH}" by auto
      with parses_weaken [OF sound_parser.or_sound [OF Suc _ ts] expression] False show ?thesis by simp
    qed
  qed
qed

section \<open>Completeness\<close>

text \<open>The tokens a tree can start with, and those that would continue it.\<close>

abbreviation after_primary :: "token list \<Rightarrow> bool" where
  "after_primary ts \<equiv> ends ts \<and> peek ts \<noteq> DOT \<and> peek ts \<noteq> LPAREN"

abbreviation after_not :: "token list \<Rightarrow> bool" where
  "after_not ts \<equiv> after_primary ts \<and> peek ts \<notin> comp_ops"

abbreviation after_and :: "token list \<Rightarrow> bool" where
  "after_and ts \<equiv> after_not ts \<and> peek ts \<noteq> AND"

abbreviation after_expression :: "token list \<Rightarrow> bool" where
  "after_expression ts \<equiv> after_and ts \<and> peek ts \<noteq> OR"

lemma ends_append [simp]: "ends us \<Longrightarrow> ends (ts @ us)"
  by (simp add: ends_def)

lemma ends_Cons [simp]: "ends us \<Longrightarrow> ends (t # us)"
  by (simp add: ends_def)

lemma current_Cons [simp]: "current (t # ts) = t"
  by (simp add: current_def)

lemma advance_Cons [simp]: "advance (t # ts) = (t, ts)"
  by (simp add: advance_def)

lemma expect_Cons [simp]: "ttype t = tt \<Longrightarrow> expect tt (t # ts) = Inr (t, ts)"
  by (simp add: expect_def)

lemma current_append: "ts \<noteq> [] \<Longrightarrow> current (ts @ us) = current ts"
  by (cases ts) auto

lemma gr_first:
  "gr_expression d ts e \<Longrightarrow> peek ts \<in> {NOT, LPAREN, LBRACKET, STRING, NUMBER, BOOL, IDENT}"
  "gr_or d ts e \<Longrightarrow> peek ts \<in> {NOT, LPAREN, LBRACKET, STRING, NUMBER, BOOL, IDENT}"
  "gr_and d ts e \<Longrightarrow> peek ts \<in> {NOT, LPAREN, LBRACKET, STRING, NUMBER, BOOL, IDENT}"
  "gr_not d ts e \<Longrightarrow> peek ts \<in> {NOT, LPAREN, LBRACKET, STRING, NUMBER, BOOL, IDENT}"
  "gr_comparison d ts e \<Longrightarrow> peek ts \<in> {LPAREN, LBRACKET, STRING, NUMBER, BOOL, IDENT}"
  "gr_primary d ts e \<Longrightarrow> peek ts \<in> {LPAREN, LBRACKET, STRING, NUMBER, BOOL, IDENT}"
  "gr_items d ts es \<Longrightarrow> peek ts \<in> {NOT, LPAREN, LBRACKET, STRING, NUMBER, BOOL, IDENT}"
  by (induction rule: gr_induct) (auto simp: current_append dest: gr_nonempty)

lemma fields_complete:
  "gr_fields ts fs \<Longrightarrow> peek us \<noteq> DOT \<Longrightarrow> parse_fields (ts @ us) = Inr (fs, us)"
  by (induction rule: gr_fields.induct) (cases us; simp)+

lemma ends_tail: "ends (t # us) \<Longrightarrow> ttype t \<noteq> EOF \<Longrightarrow> ends us"
  by (cases us) (auto simp: ends_def)

lemma parses_rest: "parses [] G ts r \<Longrightarrow> r = Inr (v, us) \<Longrightarrow> ends us \<and> length us \<le> length ts"
  by (auto simp: parses_def)

locale complete_parser = sound_parser +
  assumes pe_complete: "d \<in> {lo..MAX_DEPTH} \<Longrightarrow> gr_expression d ts e \<Longrightarrow> after_expression us \<Longrightarrow>
    pe d (ts @ us) = Inr (e, us)"
begin

lemma args_rest_fuel:
  "d \<in> {lo..MAX_DEPTH} \<Longrightarrow> ends ts \<Longrightarrow> length ts < k \<Longrightarrow> length ts < k' \<Longrightarrow>
     parse_args_rest pe k d x ts = parse_args_rest pe k' d x ts"
proof (induction k arbitrary: k' ts x)
  case (Suc k)
  obtain j u us where ts: "k' = Suc j" "ts = u # us"
    using Suc.prems(2,4) by (cases k'; cases ts) (simp_all add: ends_def)
  show ?case
  proof (cases "ttype u = COMMA")
    case True
    with Suc.prems(2) ts have us: "ends us" by (auto dest: ends_tail)
    have "parse_args_rest pe k d (x @ [e]) vs = parse_args_rest pe j d (x @ [e]) vs"
      if "pe d us = Inr (e, vs)" for e vs
      using parses_rest [OF pe_sound [OF Suc.prems(1) us] that] Suc.prems ts by (intro Suc.IH) auto
    then show ?thesis using ts by (auto intro!: bindp_cong)
  qed (simp add: ts)
qed simp

lemma list_rest_fuel:
  "d \<in> {lo..MAX_DEPTH} \<Longrightarrow> ends ts \<Longrightarrow> length ts < k \<Longrightarrow> length ts < k' \<Longrightarrow>
     parse_list_rest pe k d t x ts = parse_list_rest pe k' d t x ts"
proof (induction k arbitrary: k' ts x)
  case (Suc k)
  obtain j u us where ts: "k' = Suc j" "ts = u # us"
    using Suc.prems(2,4) by (cases k'; cases ts) (simp_all add: ends_def)
  show ?case
  proof (cases "ttype u = COMMA")
    case True
    with Suc.prems(2) ts have us: "ends us" by (auto dest: ends_tail)
    have "parse_list_rest pe k d t (x @ [e]) vs = parse_list_rest pe j d t (x @ [e]) vs"
      if "pe d us = Inr (e, vs)" for e vs
      using parses_rest [OF pe_sound [OF Suc.prems(1) us] that] Suc.prems ts by (intro Suc.IH) auto
    then show ?thesis using ts by (auto intro!: bindp_cong)
  qed (simp add: ts)
qed simp

lemma and_rest_fuel:
  "d \<in> {lo..MAX_DEPTH} \<Longrightarrow> ends ts \<Longrightarrow> length ts < k \<Longrightarrow> length ts < k' \<Longrightarrow>
     parse_and_rest pe k d x ts = parse_and_rest pe k' d x ts"
proof (induction k arbitrary: k' ts x)
  case (Suc k)
  obtain j u us where ts: "k' = Suc j" "ts = u # us"
    using Suc.prems(2,4) by (cases k'; cases ts) (simp_all add: ends_def)
  show ?case
  proof (cases "ttype u = AND")
    case True
    with Suc.prems(2) ts have us: "ends us" by (auto dest: ends_tail)
    have "parse_and_rest pe k d (BinaryOp (tline u) (tcol u) ''AND'' x e) vs = parse_and_rest pe j d (BinaryOp (tline u) (tcol u) ''AND'' x e) vs"
      if "parse_not pe d us = Inr (e, vs)" for e vs
      using parses_rest [OF not_sound [OF Suc.prems(1) us] that] Suc.prems ts by (intro Suc.IH) auto
    then show ?thesis using ts by (auto intro!: bindp_cong)
  qed (simp add: ts)
qed simp

lemma or_rest_fuel:
  "d \<in> {lo..MAX_DEPTH} \<Longrightarrow> ends ts \<Longrightarrow> length ts < k \<Longrightarrow> length ts < k' \<Longrightarrow>
     parse_or_rest pe k d x ts = parse_or_rest pe k' d x ts"
proof (induction k arbitrary: k' ts x)
  case (Suc k)
  obtain j u us where ts: "k' = Suc j" "ts = u # us"
    using Suc.prems(2,4) by (cases k'; cases ts) (simp_all add: ends_def)
  show ?case
  proof (cases "ttype u = OR")
    case True
    with Suc.prems(2) ts have us: "ends us" by (auto dest: ends_tail)
    have "parse_or_rest pe k d (BinaryOp (tline u) (tcol u) ''OR'' x e) vs = parse_or_rest pe j d (BinaryOp (tline u) (tcol u) ''OR'' x e) vs"
      if "parse_and pe d us = Inr (e, vs)" for e vs
      using parses_rest [OF and_sound [OF Suc.prems(1) us] that] Suc.prems ts by (intro Suc.IH) auto
    then show ?thesis using ts by (auto intro!: bindp_cong)
  qed (simp add: ts)
qed simp

lemma args_complete:
  "gr_items d ts es \<Longrightarrow> d \<in> {lo..MAX_DEPTH} \<Longrightarrow> after_expression us \<Longrightarrow>
     bindp (pe d (ts @ us)) (\<lambda>e vs. parse_args_rest pe (Suc (length vs)) d [e] vs)
       = parse_args_rest pe (Suc (length us)) d es us"
proof (induction d ts es arbitrary: us rule: gr_items_induct)
  case (items_one d ts e)
  then show ?case by (simp add: pe_complete del: parse_args_rest.simps)
next
  case (items_more d ts es t vs e)
  have "bindp (pe d (ts @ t # vs @ us)) (\<lambda>e vs. parse_args_rest pe (Suc (length vs)) d [e] vs)
      = parse_args_rest pe (Suc (length (t # vs @ us))) d es (t # vs @ us)"
    using items_more by (intro items_more.IH) (auto simp: comp_ops_def)
  also have "\<dots> = parse_args_rest pe (length (t # vs @ us)) d (es @ [e]) us"
    using items_more pe_complete [of d vs e us] by simp
  also have "\<dots> = parse_args_rest pe (Suc (length us)) d (es @ [e]) us"
    using items_more by (intro args_rest_fuel) auto
  finally show ?case by simp
qed

lemma list_complete:
  "gr_items d ts es \<Longrightarrow> d \<in> {lo..MAX_DEPTH} \<Longrightarrow> after_expression us \<Longrightarrow> length es \<le> MAX_LIST_ELEMENTS \<Longrightarrow>
     bindp (pe d (ts @ us)) (\<lambda>e vs. parse_list_rest pe (Suc (length vs)) d t [e] vs)
       = parse_list_rest pe (Suc (length us)) d t es us"
proof (induction d ts es arbitrary: us rule: gr_items_induct)
  case (items_one d ts e)
  then show ?case by (simp add: pe_complete del: parse_list_rest.simps)
next
  case (items_more d ts es c vs e)
  have "bindp (pe d (ts @ c # vs @ us)) (\<lambda>e vs. parse_list_rest pe (Suc (length vs)) d t [e] vs)
      = parse_list_rest pe (Suc (length (c # vs @ us))) d t es (c # vs @ us)"
    using items_more by (intro items_more.IH) (auto simp: comp_ops_def)
  also have "\<dots> = parse_list_rest pe (length (c # vs @ us)) d t (es @ [e]) us"
    using items_more pe_complete [of d vs e us] by simp
  also have "\<dots> = parse_list_rest pe (Suc (length us)) d t (es @ [e]) us"
    using items_more by (intro list_rest_fuel) auto
  finally show ?case by simp
qed

lemma call_complete:
  assumes d: "d \<in> {lo..MAX_DEPTH}" and items: "gr_items d ts es" and r: "ttype r = RPAREN"
    and l: "ttype l = LPAREN" and us: "ends us"
    and f: "dict_get BUILTIN_FUNCTIONS (token_text (tvalue t)) = Some (mn, mx)" "mn \<le> length es" "length es \<le> mx"
  shows "parse_function_call pe d t (l # ts @ r # us)
    = Inr (FunctionCall (tline t) (tcol t) (token_text (tvalue t)) es, us)"
proof -
  have "peek (ts @ r # us) \<noteq> RPAREN"
    using gr_first(7) [OF items] gr_nonempty(7) [OF items] by (auto simp: current_append)
  then have "parse_args pe d (ts @ r # us) = Inr (es, r # us)"
    using args_complete [OF items d, of "r # us"] r us by (simp add: parse_args_def comp_ops_def)
  with l r f show ?thesis by (simp add: parse_function_call_def Let_def)
qed

lemma list_literal_complete:
  assumes d: "d \<in> {lo..MAX_DEPTH}" and items: "gr_items d ts es" "length es \<le> MAX_LIST_ELEMENTS"
    and t: "ttype t = LBRACKET" and r: "ttype r = RBRACKET" and us: "ends us"
  shows "parse_list pe d (t # ts @ r # us) = Inr (ListLiteral (tline t) (tcol t) es, us)"
proof -
  have "peek (ts @ r # us) \<noteq> RBRACKET"
    using gr_first(7) [OF items(1)] gr_nonempty(7) [OF items(1)] by (auto simp: current_append)
  then show ?thesis
    using list_complete [OF items(1) d, of "r # us" t] items(2) t r us by (simp add: parse_list_def comp_ops_def)
qed

lemma primary_complete:
  assumes d: "d \<in> {lo..MAX_DEPTH}" and g: "gr_primary d ts e" and us: "after_primary us"
  shows "parse_primary pe d (ts @ us) = Inr (e, us)"
  using g
proof cases
  case (parens t vs r)
  then show ?thesis
    using pe_complete [OF d, of vs e "r # us"] us by (simp add: parse_primary_def Let_def comp_ops_def)
next
  case (field t vs fs)
  from field(4,5) have "peek (vs @ us) = DOT" by (cases rule: gr_fields.cases) auto
  with field us show ?thesis
    by (simp add: parse_primary_def Let_def parse_ident_or_call_def parse_field_access_def
        fields_complete [OF field(4)])
next
  case (call_none t l r mx)
  then show ?thesis
    by (simp add: parse_primary_def Let_def parse_ident_or_call_def parse_function_call_def parse_args_def)
next
  case (call t l vs es r mn mx)
  then show ?thesis
    using call_complete [OF d call(5) call(6) call(4) _ call(7-9), of us] us
    by (simp add: parse_primary_def Let_def parse_ident_or_call_def)
next
  case (list_none t r)
  then show ?thesis by (simp add: parse_primary_def Let_def parse_list_def)
next
  case (list_items t vs es r)
  then show ?thesis
    using list_literal_complete [OF d list_items(4,5,3,6), of us] us
    by (simp add: parse_primary_def Let_def)
qed (use us in \<open>simp_all add: parse_primary_def Let_def parse_ident_or_call_def\<close>)

lemma comparison_complete:
  assumes d: "d \<in> {lo..MAX_DEPTH}" and g: "gr_comparison d ts e" and us: "after_not us"
  shows "parse_comparison pe d (ts @ us) = Inr (e, us)"
  using g
proof cases
  case comparison_none
  then show ?thesis
    using primary_complete [OF d] us by (simp add: parse_comparison_def)
next
  case (comparison vs a t ws b)
  then have "after_primary (t # ws @ us)" using us by (auto simp: comp_ops_def)
  then show ?thesis
    using primary_complete [OF d] us comparison by (simp add: parse_comparison_def)
qed

lemma not_complete:
  "gr_not d ts e \<Longrightarrow> d \<in> {lo..MAX_DEPTH} \<Longrightarrow> after_not us \<Longrightarrow> parse_not pe d (ts @ us) = Inr (e, us)"
proof (induction d ts e arbitrary: us rule: gr_not_induct)
  case (not_none d ts e)
  then have "ts \<noteq> []" "peek ts \<noteq> NOT" using gr_first(5) gr_nonempty(5) by fastforce+
  then obtain t vs where "ts = t # vs" "ttype t \<noteq> NOT" by (cases ts) auto
  with comparison_complete [of d ts e us] not_none show ?case by simp
next
  case (not_more t d ts e)
  then show ?case by simp
qed

lemma and_complete:
  "gr_and d ts e \<Longrightarrow> d \<in> {lo..MAX_DEPTH} \<Longrightarrow> after_not us \<Longrightarrow>
     parse_and pe d (ts @ us) = parse_and_rest pe (Suc (length us)) d e us"
proof (induction d ts e arbitrary: us rule: gr_and_induct)
  case (and_one d ts e)
  then show ?case by (simp add: parse_and_def not_complete del: parse_and_rest.simps)
next
  case (and_more d ts a t vs b)
  have "parse_and pe d (ts @ t # vs @ us) = parse_and_rest pe (Suc (length (t # vs @ us))) d a (t # vs @ us)"
    using and_more by (intro and_more.IH) (auto simp: comp_ops_def)
  also have "\<dots> = parse_and_rest pe (length (t # vs @ us)) d (BinaryOp (tline t) (tcol t) ''AND'' a b) us"
    using and_more not_complete [of d vs b us] by simp
  also have "\<dots> = parse_and_rest pe (Suc (length us)) d (BinaryOp (tline t) (tcol t) ''AND'' a b) us"
    using and_more by (intro and_rest_fuel) auto
  finally show ?case by simp
qed

lemma or_complete:
  "gr_or d ts e \<Longrightarrow> d \<in> {lo..MAX_DEPTH} \<Longrightarrow> after_and us \<Longrightarrow>
     parse_or pe d (ts @ us) = parse_or_rest pe (Suc (length us)) d e us"
proof (induction d ts e arbitrary: us rule: gr_or_induct)
  case (or_one d ts e)
  then show ?case by (simp add: parse_or_def and_complete del: parse_or_rest.simps)
next
  case (or_more d ts a t vs b)
  have "parse_or pe d (ts @ t # vs @ us) = parse_or_rest pe (Suc (length (t # vs @ us))) d a (t # vs @ us)"
    using or_more by (intro or_more.IH) (auto simp: comp_ops_def)
  also have "\<dots> = parse_or_rest pe (length (t # vs @ us)) d (BinaryOp (tline t) (tcol t) ''OR'' a b) us"
    using or_more and_complete [of d vs b us] by simp
  also have "\<dots> = parse_or_rest pe (Suc (length us)) d (BinaryOp (tline t) (tcol t) ''OR'' a b) us"
    using or_more by (intro or_rest_fuel) auto
  finally show ?case by simp
qed

end

interpretation expr: complete_parser "parse_expression n" "Suc MAX_DEPTH - n" for n
proof (induction n)
  case 0
  show ?case by unfold_locales simp
next
  case (Suc n)
  show ?case
  proof
    fix d ts e us
    assume d: "d \<in> {Suc MAX_DEPTH - Suc n..MAX_DEPTH}" and g: "gr_expression d ts e" and us: "after_expression us"
    from g have "d < MAX_DEPTH" "gr_or (Suc d) ts e" by (auto elim: gr_expression.cases)
    moreover from this(1) d have "Suc d \<in> {Suc MAX_DEPTH - n..MAX_DEPTH}" by auto
    ultimately show "parse_expression (Suc n) d (ts @ us) = Inr (e, us)"
      using complete_parser.or_complete [OF Suc, of "Suc d" ts e us] us by simp
  qed
qed

section \<open>The trees the parser returns\<close>

text \<open>
  \<open>node_ok\<close>: the operators are those of the grammar, calls name a built-in function with an
  accepted number of arguments, lists keep to their limit. \<open>nesting\<close>: how many lists, calls and
  negations lie inside one another; \<open>height\<close>: the height of the tree, which is how deep the
  evaluator recurses.
\<close>

fun node_ok :: "node \<Rightarrow> bool" where
  "node_ok (Compare _ _ op _ _) = (op \<in> {''=='', ''!='', ''>'', ''<'', ''>='', ''<='', ''IN''})"
| "node_ok (BinaryOp _ _ op _ _) = (op \<in> {''AND'', ''OR''})"
| "node_ok (UnaryOp _ _ op _) = (op = ''NOT'')"
| "node_ok (FunctionCall _ _ f args) =
     (case dict_get BUILTIN_FUNCTIONS f of None \<Rightarrow> False
      | Some (mn, mx) \<Rightarrow> mn \<le> length args \<and> length args \<le> mx)"
| "node_ok (ListLiteral _ _ els) = (length els \<le> MAX_LIST_ELEMENTS)"
| "node_ok (FieldAccess _ _ _ path) = (path \<noteq> [])"
| "node_ok (Rule _ _ _) = False"
| "node_ok _ = True"

definition tree_ok :: "node \<Rightarrow> bool" where
  "tree_ok n = list_all node_ok (walk n)"

fun nesting :: "node \<Rightarrow> nat" where
  "nesting (Compare _ _ _ a b) = max (nesting a) (nesting b)"
| "nesting (BinaryOp _ _ _ a b) = max (nesting a) (nesting b)"
| "nesting (UnaryOp _ _ _ a) = Suc (nesting a)"
| "nesting (FunctionCall _ _ _ args) = Suc (fold max (map nesting args) 0)"
| "nesting (ListLiteral _ _ els) = Suc (fold max (map nesting els) 0)"
| "nesting (Rule _ _ a) = nesting a"
| "nesting _ = 0"

fun height :: "node \<Rightarrow> nat" where
  "height (Compare _ _ _ a b) = Suc (max (height a) (height b))"
| "height (BinaryOp _ _ _ a b) = Suc (max (height a) (height b))"
| "height (UnaryOp _ _ _ a) = Suc (height a)"
| "height (FunctionCall _ _ _ args) = Suc (fold max (map height args) 0)"
| "height (ListLiteral _ _ els) = Suc (fold max (map height els) 0)"
| "height (Rule _ _ a) = Suc (height a)"
| "height _ = 0"

lemma comp_op_text:
  "token_ok t \<Longrightarrow> ttype t \<in> comp_ops \<Longrightarrow>
     token_text (tvalue t) \<in> {''=='', ''!='', ''>'', ''<'', ''>='', ''<='', ''IN''}"
  by (auto simp: comp_ops_def token_ok_def)

lemmas tree_ok_simps = tree_ok_def list_all_iff

lemma gr_tree_ok:
  "gr_expression d ts e \<Longrightarrow> list_all token_ok ts \<Longrightarrow> tree_ok e"
  "gr_or d ts e \<Longrightarrow> list_all token_ok ts \<Longrightarrow> tree_ok e"
  "gr_and d ts e \<Longrightarrow> list_all token_ok ts \<Longrightarrow> tree_ok e"
  "gr_not d ts e \<Longrightarrow> list_all token_ok ts \<Longrightarrow> tree_ok e"
  "gr_comparison d ts e \<Longrightarrow> list_all token_ok ts \<Longrightarrow> tree_ok e"
  "gr_primary d ts e \<Longrightarrow> list_all token_ok ts \<Longrightarrow> tree_ok e"
  "gr_items d ts es \<Longrightarrow> list_all token_ok ts \<Longrightarrow> \<forall>e \<in> set es. tree_ok e"
  by (induction rule: gr_induct) (auto simp: tree_ok_simps dest: comp_op_text)

lemma gr_nesting:
  "gr_expression d ts e \<Longrightarrow> d + nesting e \<le> MAX_DEPTH"
  "gr_or d ts e \<Longrightarrow> d \<le> MAX_DEPTH \<Longrightarrow> d + nesting e \<le> Suc MAX_DEPTH"
  "gr_and d ts e \<Longrightarrow> d \<le> MAX_DEPTH \<Longrightarrow> d + nesting e \<le> Suc MAX_DEPTH"
  "gr_not d ts e \<Longrightarrow> d \<le> MAX_DEPTH \<Longrightarrow> d + nesting e \<le> Suc MAX_DEPTH"
  "gr_comparison d ts e \<Longrightarrow> d \<le> MAX_DEPTH \<Longrightarrow> d + nesting e \<le> Suc MAX_DEPTH"
  "gr_primary d ts e \<Longrightarrow> d \<le> MAX_DEPTH \<Longrightarrow> d + nesting e \<le> Suc MAX_DEPTH"
  "gr_items d ts es \<Longrightarrow> d \<le> MAX_DEPTH \<Longrightarrow> fold max (map nesting es) 0 \<le> MAX_DEPTH - d"
  by (induction rule: gr_induct) auto

section \<open>Parsing a token stream\<close>

lemma stream_split:
  assumes "stream_ok (vs @ us)" and "ends us" and "peek us = EOF"
  shows "us = [current us]"
proof -
  obtain t ts where us: "us = t # ts" using assms(2) by (cases us) (auto simp: ends_def)
  with assms(1,3) have "ts = []" by (cases ts) (auto simp: stream_ok_def butlast_append)
  with us show ?thesis by simp
qed

lemma gr_no_EOF:
  "gr_expression d ts e \<Longrightarrow> \<forall>t \<in> set ts. ttype t \<noteq> EOF"
  "gr_or d ts e \<Longrightarrow> \<forall>t \<in> set ts. ttype t \<noteq> EOF" "gr_and d ts e \<Longrightarrow> \<forall>t \<in> set ts. ttype t \<noteq> EOF"
  "gr_not d ts e \<Longrightarrow> \<forall>t \<in> set ts. ttype t \<noteq> EOF" "gr_comparison d ts e \<Longrightarrow> \<forall>t \<in> set ts. ttype t \<noteq> EOF"
  "gr_primary d ts e \<Longrightarrow> \<forall>t \<in> set ts. ttype t \<noteq> EOF" "gr_items d ts es \<Longrightarrow> \<forall>t \<in> set ts. ttype t \<noteq> EOF"
proof (induction rule: gr_induct)
  case (field t ts fs)
  have "gr_fields ts fs \<Longrightarrow> \<forall>t \<in> set ts. ttype t \<noteq> EOF" for ts fs
    by (induction rule: gr_fields.induct) auto
  with field show ?case by auto
qed (auto simp: comp_ops_def)

lemma parse_tokens_iff:
  assumes "stream_ok ts"
  shows "parse_tokens ts = Inr r \<longleftrightarrow>
    (\<exists>vs e n. ts = vs @ [e] \<and> gr_expression 0 vs n \<and> r = Rule (node_line n) (node_col n) n)"
proof
  assume p: "parse_tokens ts = Inr r"
  then obtain n us where n: "parse_expression (Suc MAX_DEPTH) 0 ts = Inr (n, us)" "peek us = EOF"
      "r = Rule (node_line n) (node_col n) n"
    by (auto simp: parse_tokens_def Let_def split: sum.splits if_splits simp del: parse_expression.simps)
  from assms have "ends ts" by (simp add: ends_def stream_ok_def)
  then have "parses [] (gr_expression 0) ts (parse_expression (Suc MAX_DEPTH) 0 ts)"
    by (intro expr.pe_sound) auto
  with n(1) obtain vs where "ends us" "ts = vs @ us" "gr_expression 0 vs n"
    by (auto simp: parses_def simp del: parse_expression.simps)
  with stream_split [of vs us] assms n show "\<exists>vs e n. ts = vs @ [e] \<and> gr_expression 0 vs n \<and>
      r = Rule (node_line n) (node_col n) n" by metis
next
  assume "\<exists>vs e n. ts = vs @ [e] \<and> gr_expression 0 vs n \<and> r = Rule (node_line n) (node_col n) n"
  then obtain vs e n where *: "ts = vs @ [e]" "gr_expression 0 vs n" "r = Rule (node_line n) (node_col n) n"
    by blast
  with assms have e: "ttype e = EOF" by (simp add: stream_ok_def)
  have "parse_expression (Suc MAX_DEPTH) 0 (vs @ [e]) = Inr (n, [e])"
    by (rule expr.pe_complete [OF _ *(2)]) (auto simp: ends_def e comp_ops_def)
  with * e show "parse_tokens ts = Inr r"
    by (simp add: parse_tokens_def Let_def del: parse_expression.simps)
qed

lemma parse_prl_iff:
  "parse_prl source = Inr r \<longleftrightarrow>
     (\<exists>vs e n. tokenize source = Inr (vs @ [e]) \<and> gr_expression 0 vs n
        \<and> r = Rule (node_line n) (node_col n) n)"
proof (cases "tokenize source")
  case (Inl e)
  then show ?thesis by (cases e) (simp add: parse_prl_def)
next
  case (Inr ts)
  then show ?thesis
    using parse_tokens_iff [OF tokenize_stream_ok [OF Inr]] by (auto simp: parse_prl_def)
qed

section \<open>The properties of the parser\<close>

text \<open>
  C3: the parser accepts exactly the texts whose tokens derive from the grammar with its limits, and
  returns the tree of the derivation.
\<close>

theorem parser_grammar:
  "parse_prl source = Inr r \<longleftrightarrow>
     (\<exists>vs e n. tokenize source = Inr (vs @ [e]) \<and> gr_expression 0 vs n
        \<and> r = Rule (node_line n) (node_col n) n)"
  by (rule parse_prl_iff)

text \<open>
  C39: on every text the parser returns a tree or one error; a lexer error is passed on with its
  position, and any other error stands at a token of the text. No bound on rounds or nesting is hit.
\<close>

theorem parser_total:
  "(\<exists>r. parse_prl source = Inr r) \<or>
   (\<exists>m l c. parse_prl source = Inl (ParseError m l c) \<and>
      (case tokenize source of
         Inl (LexerError m' l' c') \<Rightarrow> m = LexFailed m' \<and> l = l' \<and> c = c'
       | Inr ts \<Rightarrow> \<exists>t \<in> set ts. tline t = l \<and> tcol t = c))"
proof (cases "tokenize source")
  case (Inl e)
  then show ?thesis by (cases e) (simp add: parse_prl_def)
next
  case (Inr ts)
  then have e: "ends ts" using tokenize_stream_ok by (simp add: ends_def stream_ok_def)
  have "parses [] (gr_expression 0) ts (parse_expression (Suc MAX_DEPTH) 0 ts)"
    by (rule expr.pe_sound) (use e in auto)
  then show ?thesis
    using ends_current
    by (fastforce simp: parses_def parse_prl_def Inr parse_tokens_def Let_def
        split: sum.splits parse_error.splits prod.splits simp del: parse_expression.simps)
qed

text \<open>
  C40: a tree the parser returns has the grammar's operators only, calls built-in functions only,
  each with a number of arguments it accepts, keeps every list to 256 elements, and nests lists,
  calls and negations at most 64 deep.
\<close>

theorem parser_tree_ok:
  assumes "parse_prl source = Inr r"
  shows "\<exists>n. r = Rule (node_line n) (node_col n) n \<and> tree_ok n \<and> nesting n \<le> MAX_DEPTH"
proof -
  from assms obtain vs e n where *: "tokenize source = Inr (vs @ [e])" "gr_expression 0 vs n"
    and r: "r = Rule (node_line n) (node_col n) n" unfolding parse_prl_iff by blast
  from tokenize_stream_ok [OF *(1)] have "list_all token_ok vs" by (simp add: stream_ok_def)
  with gr_tree_ok(1) [OF *(2)] gr_nesting(1) [OF *(2)] r show ?thesis by auto
qed

theorem parser_tree_ok_witness:
  "\<exists>n. parse_prl ''count(a, b) > 1'' = Inr (Rule 1 13 n) \<and> tree_ok n \<and> nesting n \<le> MAX_DEPTH"
proof -
  have p: "parse_prl ''count(a, b) > 1'' = Inr (Rule 1 13 (Compare 1 13 ''>''
      (FunctionCall 1 1 ''count'' [Identifier 1 7 ''a'', Identifier 1 10 ''b'']) (NumberLiteral 1 15 (NInt 1))))"
    by code_simp
  from parser_tree_ok [OF p] show ?thesis using p by auto
qed

section \<open>Chains\<close>

text \<open>The depth check does not count the operands of a chain of \<open>OR\<close>, whose tree grows to the left.\<close>

definition ident_a :: token where
  "ident_a = mk_token IDENT (TVStr ''a'') (0, 0)"

definition or_chain :: "nat \<Rightarrow> token list" where
  "or_chain n = ident_a # concat (replicate n [mk_token OR (TVStr ''OR'') (0, 0), ident_a])"

lemma gr_ident: "ttype t = IDENT \<Longrightarrow> gr_and d [t] (Identifier (tline t) (tcol t) (token_text (tvalue t)))"
  by (intro and_one not_none comparison_none ident)

lemma gr_or_chain:
  "map ttype ts = IDENT # concat (replicate n [OR, IDENT]) \<Longrightarrow> \<exists>e. gr_or d ts e \<and> n \<le> height e"
proof (induction n arbitrary: ts)
  case 0
  then obtain t where "ts = [t]" "ttype t = IDENT" by (cases ts) auto
  then show ?case using or_one [OF gr_ident] by fastforce
next
  case (Suc n)
  have "concat (replicate (Suc n) [OR, IDENT]) = concat (replicate n [OR, IDENT]) @ [OR, IDENT]"
    by (metis concat_append concat.simps append_Nil2 replicate_Suc replicate_append_same)
  with Suc.prems have "map ttype ts = (IDENT # concat (replicate n [OR, IDENT])) @ [OR, IDENT]" by simp
  then obtain us t u where ts: "ts = us @ t # [u]" "map ttype us = IDENT # concat (replicate n [OR, IDENT])"
      "ttype t = OR" "ttype u = IDENT"
    by (auto simp: map_eq_append_conv)
  from Suc.IH [OF ts(2)] obtain a where "gr_or d us a" "n \<le> height a" by blast
  with or_more [OF this(1) ts(3) gr_ident [OF ts(4)]] ts(1) show ?case by fastforce
qed

text \<open>
  for every number there is a text the parser accepts whose tree is higher than that number: the
  nesting limit, which is there "to prevent stack overflow", does not bound the depth to which the
  recursive evaluator has to descend.
\<close>

theorem parser_height_unbounded: "\<exists>source r. parse_prl source = Inr r \<and> n < height r"
proof -
  have "list_all renderable (or_chain n)"
  proof -
    have "renderable ident_a" "renderable (mk_token OR (TVStr ''OR'') (0, 0))" by code_simp+
    then show ?thesis by (auto simp: or_chain_def list_all_iff)
  qed
  from tokenize_render [OF this] obtain ts where ts: "tokenize (render (or_chain n)) = Inr ts"
      "map token_kind ts = map token_kind (or_chain n) @ [(EOF, TVStr [])]"
    unfolding tokenize_def by blast
  from ts(2) obtain vs e where vs: "ts = vs @ [e]" "map token_kind vs = map token_kind (or_chain n)"
    by (auto simp: map_eq_append_conv)
  have "map ttype vs = map ttype (or_chain n)"
    using arg_cong [OF vs(2), of "map fst"] by (simp add: token_kind_def o_def)
  also have "\<dots> = IDENT # concat (replicate n [OR, IDENT])"
    by (simp add: or_chain_def ident_a_def map_concat)
  finally have m: "map ttype vs = IDENT # concat (replicate n [OR, IDENT])" .
  obtain x where "gr_or 1 vs x" "n \<le> height x" using gr_or_chain [OF m, of 1] by blast
  moreover from this(1) have "gr_expression 0 vs x" by (simp add: expression MAX_DEPTH_def)
  ultimately show ?thesis
    using ts(1) vs(1) parse_prl_iff [of "render (or_chain n)" "Rule (node_line x) (node_col x) x"]
    by (intro exI [of _ "render (or_chain n)"] exI [of _ "Rule (node_line x) (node_col x) x"]) auto
qed

end
