(* ===== verification/PRL_Functions.thy ===== *)
theory PRL_Functions
  imports PRL_Ast
begin

text \<open>
  \<open>backend/engine/evaluator/functions.py\<close>: the sliding windows of past events, the allowlists and
  the functions a rule may call. Times are the rationals that the floats of \<open>time.time()\<close> denote.
  What the code takes from elsewhere is the record \<open>runtime\<close>: the clock, Python's \<open>repr\<close>, the regular
  expression engine (\<open>None\<close> is \<open>re.error\<close>), the trust engine (\<open>None\<close> is any failure) and the functions
  other packages register.
\<close>

section \<open>State\<close>

text \<open>\<open>FunctionContext\<close>, with the module's regex cache: its keys, oldest first.\<close>

record function_context =
  event_windows :: "(string, rat list) dict"
  event_value_windows :: "(string, (rat \<times> string) list) dict"
  allowlists :: "(string, string list) dict"
  regex_cache :: "string list"

definition empty_context :: function_context where
  "empty_context = \<lparr>event_windows = [], event_value_windows = [], allowlists = [], regex_cache = []\<rparr>"

type_synonym eval_context = "(string, pval) dict"

record runtime =
  clock :: rat
  repr :: "pval \<Rightarrow> string"
  re_search :: "string \<Rightarrow> string \<Rightarrow> bool option"
  trust_engine :: "string \<Rightarrow> string \<Rightarrow> string \<Rightarrow> pval option"
  extension :: "string \<Rightarrow> pval list \<Rightarrow> eval_context \<Rightarrow> pval option"

text \<open>A deque with \<open>maxlen\<close>: appending to a full one drops the oldest entry.\<close>

definition window_maxlen :: nat where
  "window_maxlen = 100000"

definition deque_append :: "'a list \<Rightarrow> 'a \<Rightarrow> 'a list" where
  "deque_append dq x = take_last window_maxlen (dq @ [x])"

interpretation window: last_buffer deque_append "\<lambda>dq. dq" window_maxlen
  by unfold_locales (simp add: deque_append_def)

section \<open>Windows\<close>

definition window_key :: "runtime \<Rightarrow> string \<Rightarrow> pval \<Rightarrow> pval \<Rightarrow> string" where
  "window_key rt event_type tenant_id agent_id =
     (let t = (if truthy tenant_id then py_str (repr rt) tenant_id else ''global'');
          a = (if truthy agent_id then py_str (repr rt) agent_id else ''unknown'')
      in colon_join t (colon_join a event_type))"

fun record_values :: "string \<Rightarrow> rat \<Rightarrow> (string \<times> string) list \<Rightarrow>
    (string, (rat \<times> string) list) dict \<Rightarrow> (string, (rat \<times> string) list) dict" where
  "record_values key ts [] w = w"
| "record_values key ts ((path, v) # fvs) w =
     (let vkey = colon_join key path
      in record_values key ts fvs
           (dict_set vkey (deque_append (dict_get_or w vkey []) (ts, v)) w))"

definition record_event :: "runtime \<Rightarrow> string \<Rightarrow> rat option \<Rightarrow> pval \<Rightarrow> pval \<Rightarrow>
    (string, string) dict option \<Rightarrow> function_context \<Rightarrow> function_context" where
  "record_event rt event_type timestamp tenant_id agent_id field_values fc =
     (let ts = (case timestamp of None \<Rightarrow> clock rt | Some t \<Rightarrow> if t = 0 then clock rt else t);
          key = window_key rt event_type tenant_id agent_id;
          dq = deque_append (dict_get_or (event_windows fc) key []) ts;
          fvs = (case field_values of None \<Rightarrow> [] | Some d \<Rightarrow> d)
      in fc\<lparr>event_windows := dict_set key dq (event_windows fc),
            event_value_windows := record_values key ts fvs (event_value_windows fc)\<rparr>)"

definition count_in_window :: "runtime \<Rightarrow> string \<Rightarrow> rat \<Rightarrow> pval \<Rightarrow> pval \<Rightarrow> function_context \<Rightarrow>
    nat \<times> function_context" where
  "count_in_window rt event_type window_seconds tenant_id agent_id fc =
     (let cutoff = clock rt - window_seconds;
          key = window_key rt event_type tenant_id agent_id
      in case dict_get (event_windows fc) key of
           None \<Rightarrow> (0, fc)
         | Some dq \<Rightarrow>
             if dq = [] then (0, fc)
             else let dq' = dropWhile (\<lambda>t. t < cutoff) dq
                  in (length dq', fc\<lparr>event_windows := dict_set key dq' (event_windows fc)\<rparr>))"

definition time_since_last :: "runtime \<Rightarrow> string \<Rightarrow> pval \<Rightarrow> pval \<Rightarrow> function_context \<Rightarrow> rat option" where
  "time_since_last rt event_type tenant_id agent_id fc =
     (case dict_get (event_windows fc) (window_key rt event_type tenant_id agent_id) of
        None \<Rightarrow> None
      | Some dq \<Rightarrow> if dq = [] then None else Some (clock rt - last dq))"

definition count_distinct_in_window :: "runtime \<Rightarrow> string \<Rightarrow> string \<Rightarrow> rat \<Rightarrow> pval \<Rightarrow> pval \<Rightarrow>
    function_context \<Rightarrow> nat \<times> function_context" where
  "count_distinct_in_window rt event_type field_path window_seconds tenant_id agent_id fc =
     (let cutoff = clock rt - window_seconds;
          vkey = colon_join (window_key rt event_type tenant_id agent_id) field_path
      in case dict_get (event_value_windows fc) vkey of
           None \<Rightarrow> (0, fc)
         | Some vdq \<Rightarrow>
             if vdq = [] then (0, fc)
             else let vdq' = dropWhile (\<lambda>(t, _). t < cutoff) vdq
                  in (card (set (map snd vdq')),
                      fc\<lparr>event_value_windows := dict_set vkey vdq' (event_value_windows fc)\<rparr>))"

definition is_in_allowlist :: "string \<Rightarrow> string \<Rightarrow> function_context \<Rightarrow> bool" where
  "is_in_allowlist value list_name fc =
     (case dict_get (allowlists fc) list_name of
        None \<Rightarrow> False
      | Some al \<Rightarrow> if value \<in> set al then True else list_ex (\<lambda>entry. is_substring entry value) al)"

definition set_allowlist :: "string \<Rightarrow> string list \<Rightarrow> function_context \<Rightarrow> function_context" where
  "set_allowlist list_name values fc = fc\<lparr>allowlists := dict_set list_name values (allowlists fc)\<rparr>"

section \<open>Durations\<close>

fun duration_unit :: "string \<Rightarrow> nat option" where
  "duration_unit [c] =
     (let u = py_lower_char c
      in if u = CHR ''s'' then Some 1 else if u = CHR ''m'' then Some 60
         else if u = CHR ''h'' then Some 3600 else if u = CHR ''d'' then Some 86400 else None)"
| "duration_unit _ = None"

text \<open>
  \<open>parse_duration\<close>: \<open>None\<close> is an exception, for a text of another form, for more digits than
  \<open>int\<close> converts and for a number of seconds too large for a float.
\<close>

definition parse_duration :: "string \<Rightarrow> rat option" where
  "parse_duration s =
     (let s' = py_strip s;
          digits = takeWhile is_ascii_digit s';
          unit_text = dropWhile py_isspace (dropWhile is_ascii_digit s')
      in if digits = [] then None
         else case duration_unit unit_text of
           None \<Rightarrow> None
         | Some m \<Rightarrow>
             if 4300 < length digits then None
             else (case float_of_decimal (digits_value digits * m) 0 of
                     FFin q \<Rightarrow> Some q
                   | _ \<Rightarrow> None))"

section \<open>Regular expressions\<close>

text \<open>\<open>_REDOS_PATTERN\<close>: a group that holds a quantifier and is itself quantified.\<close>

definition starts_quantifier :: "string \<Rightarrow> bool" where
  "starts_quantifier s =
     (case s of
        [] \<Rightarrow> False
      | c # cs \<Rightarrow>
          c = CHR ''+'' \<or> c = CHR ''*'' \<or>
          (c = CHR ''{'' \<and> takeWhile is_ascii_digit cs \<noteq> [] \<and>
            (case dropWhile is_ascii_digit cs of
               [] \<Rightarrow> False
             | d # ds \<Rightarrow> d = CHR '','' \<and> starts_with ''}'' (dropWhile is_ascii_digit ds))))"

fun has_quantifier :: "string \<Rightarrow> bool" where
  "has_quantifier [] = False"
| "has_quantifier (c # cs) = (starts_quantifier (c # cs) \<or> has_quantifier cs)"

fun redos_suspect :: "string \<Rightarrow> bool" where
  "redos_suspect [] = False"
| "redos_suspect (c # cs) =
     ((c = CHR ''('' \<and>
       (case dropWhile (\<lambda>x. x \<noteq> CHR '')'') cs of
          [] \<Rightarrow> False
        | _ # after \<Rightarrow>
            has_quantifier (takeWhile (\<lambda>x. x \<noteq> CHR '')'') cs) \<and> starts_quantifier after))
      \<or> redos_suspect cs)"

definition REGEX_CACHE_MAX :: nat where
  "REGEX_CACHE_MAX = 1000"

text \<open>
  \<open>_get_compiled_regex\<close>: whether the pattern is compiled when it returns, and the cache after it. A
  pattern that \<open>re.compile\<close> refuses leaves the cache with its oldest half gone, if it was full.
\<close>

definition get_compiled_regex :: "runtime \<Rightarrow> string \<Rightarrow> string list \<Rightarrow> bool \<times> string list" where
  "get_compiled_regex rt pattern cache =
     (if pattern \<in> set cache then (True, cache)
      else if 1000 < length pattern then (False, cache)
      else if redos_suspect pattern then (False, cache)
      else
        let kept = (if REGEX_CACHE_MAX \<le> length cache then drop (length cache div 2) cache else cache)
        in case re_search rt pattern [] of
             None \<Rightarrow> (False, kept)
           | Some _ \<Rightarrow> (True, kept @ [pattern]))"

section \<open>The functions\<close>

text \<open>
  A function returns its value, or \<open>None\<close> when it raises, and the state it leaves.
\<close>

type_synonym call_result = "pval option \<times> function_context"

definition of_nat_value :: "nat \<Rightarrow> pval" where
  "of_nat_value n = VNum (NInt (int n))"

definition of_rat_value :: "rat \<Rightarrow> pval" where
  "of_rat_value q = VNum (NFloat (FFin q))"

text \<open>\<open>ctx.get("event", {}).get("agent_id")\<close>: \<open>None\<close> when \<open>event\<close> is no dictionary and the call raises.\<close>

definition context_agent :: "eval_context \<Rightarrow> pval option" where
  "context_agent ctx =
     (case dict_get_or ctx ''event'' (VDict []) of
        VDict d \<Rightarrow> Some (dict_get_or d ''agent_id'' VNone)
      | _ \<Rightarrow> None)"

definition context_tenant :: "eval_context \<Rightarrow> pval" where
  "context_tenant ctx = dict_get_or ctx ''tenant_id'' VNone"

definition arg_text :: "runtime \<Rightarrow> pval list \<Rightarrow> nat \<Rightarrow> string" where
  "arg_text rt args i = py_str (repr rt) (args ! i)"

definition fn_count :: "runtime \<Rightarrow> pval list \<Rightarrow> eval_context \<Rightarrow> function_context \<Rightarrow> call_result" where
  "fn_count rt args ctx fc =
     (if length args < 2 then (None, fc)
      else case parse_duration (arg_text rt args 1) of
        None \<Rightarrow> (None, fc)
      | Some w \<Rightarrow>
          (case context_agent ctx of
             None \<Rightarrow> (None, fc)
           | Some agent \<Rightarrow>
               (case count_in_window rt (arg_text rt args 0) w (context_tenant ctx) agent fc of
                  (n, fc') \<Rightarrow> (Some (of_nat_value n), fc'))))"

definition fn_contains :: "runtime \<Rightarrow> pval list \<Rightarrow> eval_context \<Rightarrow> function_context \<Rightarrow> call_result" where
  "fn_contains rt args ctx fc =
     (if length args < 2 then (None, fc)
      else (Some (VBool (is_substring (arg_text rt args 1) (arg_text rt args 0))), fc))"

definition fn_regex_match :: "runtime \<Rightarrow> pval list \<Rightarrow> eval_context \<Rightarrow> function_context \<Rightarrow> call_result" where
  "fn_regex_match rt args ctx fc =
     (if length args < 2 then (None, fc)
      else let pattern = arg_text rt args 0 in
        (case get_compiled_regex rt pattern (regex_cache fc) of
           (compiled, cache) \<Rightarrow>
             (if compiled then map_option VBool (re_search rt pattern (arg_text rt args 1)) else None,
              fc\<lparr>regex_cache := cache\<rparr>)))"

definition fn_time_since :: "runtime \<Rightarrow> pval list \<Rightarrow> eval_context \<Rightarrow> function_context \<Rightarrow> call_result" where
  "fn_time_since rt args ctx fc =
     (if length args < 1 then (None, fc)
      else case context_agent ctx of
        None \<Rightarrow> (None, fc)
      | Some agent \<Rightarrow>
          (Some (of_rat_value (case time_since_last rt (arg_text rt args 0) (context_tenant ctx) agent fc of
                   None \<Rightarrow> 999999 | Some t \<Rightarrow> t)), fc))"

definition fn_count_distinct :: "runtime \<Rightarrow> pval list \<Rightarrow> eval_context \<Rightarrow> function_context \<Rightarrow> call_result" where
  "fn_count_distinct rt args ctx fc =
     (if length args < 3 then (None, fc)
      else case parse_duration (arg_text rt args 2) of
        None \<Rightarrow> (None, fc)
      | Some w \<Rightarrow>
          (case context_agent ctx of
             None \<Rightarrow> (None, fc)
           | Some agent \<Rightarrow>
               (case count_distinct_in_window rt (arg_text rt args 0) (arg_text rt args 1) w
                       (context_tenant ctx) agent fc of
                  (n, fc') \<Rightarrow> (Some (of_nat_value n), fc'))))"

definition fn_in_allowlist :: "runtime \<Rightarrow> pval list \<Rightarrow> eval_context \<Rightarrow> function_context \<Rightarrow> call_result" where
  "fn_in_allowlist rt args ctx fc =
     (if length args < 2 then (None, fc)
      else (Some (VBool (is_in_allowlist (arg_text rt args 0) (arg_text rt args 1) fc)), fc))"

text \<open>The cached scores of the context come first; the engine is asked only without one.\<close>

definition fn_trust_score :: "runtime \<Rightarrow> pval list \<Rightarrow> eval_context \<Rightarrow> function_context \<Rightarrow> call_result" where
  "fn_trust_score rt args ctx fc =
     (if length args < 2 then (Some (of_rat_value (1 / 2)), fc)
      else
        let entity_id = arg_text rt args 0;
            entity_type = arg_text rt args 1;
            tenant = dict_get_or ctx ''tenant_id'' (VStr []);
            cache_key = colon_join entity_id entity_type;
            fetched = (case trust_engine rt (py_str (repr rt) tenant) entity_id entity_type of
                         None \<Rightarrow> of_rat_value (1 / 2) | Some v \<Rightarrow> v)
        in if entity_id = [] \<or> \<not> truthy tenant then (Some (of_rat_value (1 / 2)), fc)
           else case dict_get_or ctx ''_trust_scores'' VNone of
               VNone \<Rightarrow> (Some fetched, fc)
             | VDict d \<Rightarrow> (case dict_get d cache_key of Some v \<Rightarrow> (Some v, fc) | None \<Rightarrow> (Some fetched, fc))
             | VList xs \<Rightarrow> (if py_in_list (VStr cache_key) xs then None else Some fetched, fc)
             | VStr s \<Rightarrow> (if is_substring cache_key s then None else Some fetched, fc)
             | _ \<Rightarrow> (None, fc))"

section \<open>The registry\<close>

text \<open>
  \<open>BuiltinRegistry\<close>: names and what they call. \<open>Registered\<close> stands for a function another package
  adds with \<open>register\<close>.
\<close>

datatype builtin =
  Count | CountDistinct | Contains | RegexMatch | TimeSince | InAllowlist | TrustScore | Registered

type_synonym registry = "(string, builtin) dict"

definition core_registry :: registry where
  "core_registry =
     [(''count'', Count), (''count_distinct'', CountDistinct), (''contains'', Contains),
      (''regex_match'', RegexMatch), (''time_since'', TimeSince), (''in_allowlist'', InAllowlist),
      (''baseline_mode'', Registered), (''in_baseline_destinations'', Registered),
      (''baseline_p95'', Registered), (''baseline_zscore'', Registered), (''trust_score'', TrustScore)]"

definition register :: "string \<Rightarrow> registry \<Rightarrow> registry" where
  "register name reg = dict_set name Registered reg"

definition registry_call :: "registry \<Rightarrow> runtime \<Rightarrow> string \<Rightarrow> pval list \<Rightarrow> eval_context \<Rightarrow>
    function_context \<Rightarrow> call_result" where
  "registry_call reg rt name args ctx fc =
     (case dict_get reg name of
        None \<Rightarrow> (None, fc)
      | Some Count \<Rightarrow> fn_count rt args ctx fc
      | Some CountDistinct \<Rightarrow> fn_count_distinct rt args ctx fc
      | Some Contains \<Rightarrow> fn_contains rt args ctx fc
      | Some RegexMatch \<Rightarrow> fn_regex_match rt args ctx fc
      | Some TimeSince \<Rightarrow> fn_time_since rt args ctx fc
      | Some InAllowlist \<Rightarrow> fn_in_allowlist rt args ctx fc
      | Some TrustScore \<Rightarrow> fn_trust_score rt args ctx fc
      | Some Registered \<Rightarrow> (extension rt name args ctx, fc))"

end
