(* ===== verification/PRL_Functions_Props.thy ===== *)
theory PRL_Functions_Props
  imports PRL_Functions
begin

text \<open>
  The sliding windows implement the history of recorded events; bounds on windows and regex cache;
  separation of tenants; durations; the screening of regular expressions.
\<close>

section \<open>Suffixes of a sorted history\<close>

lemma dropWhile_sorted:
  "sorted (map f xs) \<Longrightarrow> dropWhile (\<lambda>x. f x < (c::'a::linorder)) xs = filter (\<lambda>x. c \<le> f x) xs"
  by (induction xs) (auto simp: not_less intro!: filter_True [symmetric])

lemma take_last_full: "length xs = n \<Longrightarrow> take_last n (xs @ [x]) = (if n = 0 then [] else tl xs @ [x])"
  by (cases xs) (auto simp: take_last_def)

lemma sorted_take_last: "sorted xs \<Longrightarrow> sorted (take_last n xs)"
  by (simp add: take_last_def sorted_wrt_drop)

lemma filter_push:
  assumes s: "sorted (h @ [x])" and P: "\<And>a b. P a \<Longrightarrow> a \<le> b \<Longrightarrow> P b" "P x"
  shows "take_last n (filter P (take_last n h) @ [x]) = filter P (take_last n (h @ [x]))"
proof -
  let ?g = "take_last n h"
  have g: "sorted ?g" "length ?g \<le> n" using s by (auto simp: sorted_append intro: sorted_take_last)
  have "take_last n (filter P ?g @ [x]) = filter P (take_last n (?g @ [x]))"
  proof (cases "length ?g < n")
    case True
    moreover from this have "length (filter P ?g) < n"
      using length_filter_le [of P ?g] by linarith
    ultimately show ?thesis using P(2) by simp
  next
    case False
    with g(2) have len: "length ?g = n" by simp
    show ?thesis
    proof (cases ?g)
      case Nil
      with len show ?thesis by (simp add: take_last_def)
    next
      case (Cons a g')
      have t: "take_last n (?g @ [x]) = g' @ [x]"
        unfolding Cons using take_last_full [of "a # g'" n x] len Cons by auto
      show ?thesis
      proof (cases "P a")
        case True
        with g(1) Cons P(1) have "filter P ?g = ?g" by (intro filter_True) auto
        with t Cons P(2) True show ?thesis by (auto simp: filter_eq_Cons_iff)
      next
        case False
        then have f: "filter P ?g = filter P g'" by (simp add: Cons)
        have "length (filter P g') < n" using le_imp_less_Suc [OF length_filter_le [of P g']] len Cons by simp
        with f t P(2) show ?thesis by simp
      qed
    qed
  qed
  then show ?thesis by (simp add: take_last_snoc_take_last)
qed

section \<open>The history of a window\<close>

text \<open>
  What happens to the windows: an event is recorded, or a rule counts. The history of a key is the
  list of the times recorded for it; its cut-offs are those of the counts on it.
\<close>

datatype window_op =
  Recorded rat string pval pval
| Counted rat string rat pval pval

fun op_time :: "window_op \<Rightarrow> rat" where
  "op_time (Recorded now _ _ _) = now"
| "op_time (Counted now _ _ _ _) = now"

fun window_step :: "runtime \<Rightarrow> function_context \<Rightarrow> window_op \<Rightarrow> function_context" where
  "window_step rt fc (Recorded now e t a) = record_event (rt\<lparr>clock := now\<rparr>) e None t a None fc"
| "window_step rt fc (Counted now e w t a) = snd (count_in_window (rt\<lparr>clock := now\<rparr>) e w t a fc)"

fun op_key :: "runtime \<Rightarrow> window_op \<Rightarrow> string" where
  "op_key rt (Recorded _ e t a) = window_key rt e t a"
| "op_key rt (Counted _ e _ t a) = window_key rt e t a"

fun op_window :: "window_op \<Rightarrow> rat" where
  "op_window (Counted _ _ w _ _) = w"
| "op_window (Recorded _ _ _ _) = 0"

definition is_record :: "window_op \<Rightarrow> bool" where
  "is_record c = (case c of Recorded _ _ _ _ \<Rightarrow> True | Counted _ _ _ _ _ \<Rightarrow> False)"

definition history :: "runtime \<Rightarrow> string \<Rightarrow> window_op list \<Rightarrow> rat list" where
  "history rt key ops = map op_time (filter (\<lambda>c. is_record c \<and> op_key rt c = key) ops)"

definition cutoffs :: "runtime \<Rightarrow> string \<Rightarrow> window_op list \<Rightarrow> rat list" where
  "cutoffs rt key ops =
     map (\<lambda>c. op_time c - op_window c) (filter (\<lambda>c. \<not> is_record c \<and> op_key rt c = key) ops)"

definition well_timed :: "window_op list \<Rightarrow> bool" where
  "well_timed ops \<longleftrightarrow> sorted (map op_time ops) \<and> list_all (\<lambda>c. 0 \<le> op_window c) ops"

abbreviation windows_after :: "runtime \<Rightarrow> window_op list \<Rightarrow> function_context" where
  "windows_after rt ops \<equiv> foldl (window_step rt) empty_context ops"

abbreviation window_of :: "function_context \<Rightarrow> string \<Rightarrow> rat list" where
  "window_of fc key \<equiv> dict_get_or (event_windows fc) key []"

lemma window_of_empty [simp]: "window_of empty_context k = []"
  by (simp add: empty_context_def dict_get_or_def)

lemma window_key_clock [simp]: "window_key (rt\<lparr>clock := now\<rparr>) = window_key rt"
  by (simp add: window_key_def fun_eq_iff)

lemma window_of_record:
  "window_of (record_event rt e None t a fvs fc) key =
     (if key = window_key rt e t a then deque_append (window_of fc key) (clock rt) else window_of fc key)"
  by (simp add: record_event_def Let_def)

lemma window_of_count:
  "window_of (snd (count_in_window rt e w t a fc)) key =
     (if key = window_key rt e t a then dropWhile (\<lambda>x. x < clock rt - w) (window_of fc key)
      else window_of fc key)"
  by (auto simp: count_in_window_def Let_def dict_get_or_def split: option.splits)

lemma count_result:
  "fst (count_in_window rt e w t a fc) =
     length (dropWhile (\<lambda>x. x < clock rt - w) (window_of fc (window_key rt e t a)))"
  by (auto simp: count_in_window_def Let_def dict_get_or_def split: option.splits)

lemma history_sorted: "well_timed ops \<Longrightarrow> sorted (history rt key ops)"
  unfolding history_def well_timed_def by (rule sorted_filter) simp

lemma history_snoc:
  "history rt key (ops @ [c]) = history rt key ops @ (if is_record c \<and> op_key rt c = key then [op_time c] else [])"
  by (simp add: history_def)

lemma cutoffs_snoc:
  "cutoffs rt key (ops @ [c]) = cutoffs rt key ops @
     (if \<not> is_record c \<and> op_key rt c = key then [op_time c - op_window c] else [])"
  by (simp add: cutoffs_def)

lemma cutoffs_le:
  "well_timed (ops @ [c]) \<Longrightarrow> x \<in> set (cutoffs rt key ops) \<Longrightarrow> x \<le> op_time c"
  by (fastforce simp: cutoffs_def well_timed_def sorted_append list_all_iff)

lemma window_refines_history:
  "well_timed ops \<Longrightarrow>
     window_of (windows_after rt ops) key =
       filter (\<lambda>x. \<forall>c \<in> set (cutoffs rt key ops). c \<le> x) (take_last window_maxlen (history rt key ops))"
proof (induction ops rule: rev_induct)
  case Nil
  show ?case by (simp add: empty_context_def dict_get_or_def history_def take_last_def)
next
  case (snoc c ops)
  then have ops: "well_timed ops" by (simp add: well_timed_def sorted_append)
  note IH = snoc.IH [OF ops]
  show ?case
  proof (cases c)
    case (Recorded now e t a)
    have "take_last window_maxlen (filter (\<lambda>x. \<forall>c\<in>set (cutoffs rt key ops). c \<le> x)
            (take_last window_maxlen (history rt key ops)) @ [now]) =
          filter (\<lambda>x. \<forall>c\<in>set (cutoffs rt key ops). c \<le> x)
            (take_last window_maxlen (history rt key ops @ [now]))"
      if "window_key rt e t a = key"
    proof (rule filter_push)
      show "sorted (history rt key ops @ [now])"
        using history_sorted [OF snoc.prems, of rt key] Recorded that
        by (simp add: history_snoc is_record_def)
    qed (use cutoffs_le [OF snoc.prems, of _ rt key] Recorded in \<open>auto intro: order_trans\<close>)
    with IH Recorded show ?thesis
      by (auto simp: window_of_record deque_append_def history_snoc cutoffs_snoc is_record_def)
  next
    case (Counted now e w t a)
    have "sorted (map (\<lambda>x. x) (filter (\<lambda>x. \<forall>c\<in>set (cutoffs rt key ops). c \<le> x)
        (take_last window_maxlen (history rt key ops))))"
      by (intro sorted_filter) (simp add: sorted_take_last history_sorted [OF ops])
    from dropWhile_sorted [OF this] IH Counted show ?thesis
      by (auto simp: window_of_count history_snoc cutoffs_snoc is_record_def intro: filter_cong)
  qed
qed

section \<open>Bounds on the state\<close>

definition pattern_screened :: "string \<Rightarrow> bool" where
  "pattern_screened p \<longleftrightarrow> length p \<le> 1000 \<and> \<not> redos_suspect p"

definition cache_ok :: "string list \<Rightarrow> bool" where
  "cache_ok cache \<longleftrightarrow> length cache \<le> REGEX_CACHE_MAX \<and> distinct cache \<and> list_all pattern_screened cache"

definition context_ok :: "function_context \<Rightarrow> bool" where
  "context_ok fc \<longleftrightarrow>
     dict_wf (event_windows fc) \<and> dict_wf (event_value_windows fc) \<and>
     (\<forall>k. length (dict_get_or (event_windows fc) k []) \<le> window_maxlen) \<and>
     (\<forall>k. length (dict_get_or (event_value_windows fc) k []) \<le> window_maxlen) \<and>
     cache_ok (regex_cache fc)"

lemma context_ok_empty [simp, intro]: "context_ok empty_context"
  by (simp add: context_ok_def empty_context_def dict_get_or_def cache_ok_def)

lemma list_all_drop: "list_all P xs \<Longrightarrow> list_all P (drop n xs)"
  by (auto simp: list_all_iff dest: in_set_dropD)

lemma get_compiled_regex_ok:
  assumes "cache_ok cache" and "get_compiled_regex rt p cache = (compiled, cache')"
  shows "cache_ok cache' \<and> (compiled \<longrightarrow> pattern_screened p)"
proof (cases "p \<in> set cache")
  case True
  with assms show ?thesis by (auto simp: get_compiled_regex_def cache_ok_def list_all_iff)
next
  case False
  let ?kept = "if REGEX_CACHE_MAX \<le> length cache then drop (length cache div 2) cache else cache"
  have "length ?kept < REGEX_CACHE_MAX" "distinct ?kept" "list_all pattern_screened ?kept" "p \<notin> set ?kept"
    using assms(1) False by (auto simp: cache_ok_def REGEX_CACHE_MAX_def list_all_drop dest: in_set_dropD)
  with assms(2) False assms(1) show ?thesis
    by (auto simp: get_compiled_regex_def cache_ok_def Let_def pattern_screened_def
        split: if_splits option.splits)
qed

lemma length_deque_append [simp]: "length (deque_append dq x) \<le> window_maxlen"
  by (simp add: deque_append_def)

lemma record_values_ok:
  "dict_wf w \<Longrightarrow> \<forall>k. length (dict_get_or w k []) \<le> window_maxlen \<Longrightarrow>
     dict_wf (record_values key ts fvs w) \<and>
     (\<forall>k. length (dict_get_or (record_values key ts fvs w) k []) \<le> window_maxlen)"
  by (induction key ts fvs w rule: record_values.induct) (auto simp: Let_def)

lemma record_event_ok [inv_intros]: "context_ok fc \<Longrightarrow> context_ok (record_event rt e ts t a fvs fc)"
  using record_values_ok [of "event_value_windows fc"]
  by (auto simp: context_ok_def record_event_def Let_def)

lemma length_dropWhile_bound: "length xs \<le> n \<Longrightarrow> length (dropWhile P xs) \<le> n"
  using length_dropWhile_le [of P xs] by linarith

lemma count_in_window_ok [inv_intros]: "context_ok fc \<Longrightarrow> context_ok (snd (count_in_window rt e w t a fc))"
  by (auto simp: context_ok_def count_in_window_def Let_def dict_get_or_def length_dropWhile_bound
      split: option.splits)

lemma count_distinct_in_window_ok [inv_intros]:
  "context_ok fc \<Longrightarrow> context_ok (snd (count_distinct_in_window rt e p w t a fc))"
  by (auto simp: context_ok_def count_distinct_in_window_def Let_def dict_get_or_def length_dropWhile_bound
      split: option.splits)

lemma fn_count_ok: "context_ok fc \<Longrightarrow> context_ok (snd (fn_count rt args ctx fc))"
  using count_in_window_ok [of fc]
  by (auto simp: fn_count_def split: option.splits prod.splits) (metis snd_conv)

lemma fn_count_distinct_ok: "context_ok fc \<Longrightarrow> context_ok (snd (fn_count_distinct rt args ctx fc))"
  using count_distinct_in_window_ok [of fc]
  by (auto simp: fn_count_distinct_def split: option.splits prod.splits) (metis snd_conv)

lemma fn_regex_match_ok: "context_ok fc \<Longrightarrow> context_ok (snd (fn_regex_match rt args ctx fc))"
  using get_compiled_regex_ok
  by (fastforce simp: fn_regex_match_def Let_def context_ok_def split: prod.splits)

lemma fn_trust_score_state: "snd (fn_trust_score rt args ctx fc) = fc"
  by (simp add: fn_trust_score_def Let_def split: pval.splits option.splits)

lemma registry_call_ok [inv_intros]:
  "context_ok fc \<Longrightarrow> context_ok (snd (registry_call reg rt name args ctx fc))"
  by (auto simp: registry_call_def fn_contains_def fn_time_since_def fn_in_allowlist_def
      fn_trust_score_state fn_count_ok fn_count_distinct_ok fn_regex_match_ok
      split: option.splits builtin.splits)

lemma set_allowlist_ok [inv_intros]: "context_ok fc \<Longrightarrow> context_ok (set_allowlist n vs fc)"
  by (simp add: set_allowlist_def context_ok_def)

text \<open>Every operation on the state, as one machine.\<close>

datatype context_op =
  RecordEvent runtime string "rat option" pval pval "(string, string) dict option"
| CallFunction runtime string "pval list" eval_context
| SetAllowlist string "string list"

fun context_step :: "registry \<Rightarrow> function_context \<Rightarrow> context_op \<Rightarrow> function_context" where
  "context_step reg fc (RecordEvent rt e ts t a fvs) = record_event rt e ts t a fvs fc"
| "context_step reg fc (CallFunction rt name args ctx) = snd (registry_call reg rt name args ctx fc)"
| "context_step reg fc (SetAllowlist n vs) = set_allowlist n vs fc"

interpretation contexts: machine "context_step reg" context_ok for reg
proof
  fix fc c assume "context_ok fc"
  then show "context_ok (context_step reg fc c)"
    by (cases c) (auto intro: inv_intros)
qed

section \<open>Regular expressions\<close>

lemma redos_suspect_iff:
  "redos_suspect p \<longleftrightarrow>
     (\<exists>a inner b. p = a @ CHR ''('' # inner @ CHR '')'' # b \<and> CHR '')'' \<notin> set inner
        \<and> has_quantifier inner \<and> starts_quantifier b)" (is "_ = ?R p")
proof (induction p)
  case (Cons c cs)
  let ?i = "takeWhile (\<lambda>x. x \<noteq> CHR '')'') cs"
  have head: "(c = CHR ''('' \<and> (case dropWhile (\<lambda>x. x \<noteq> CHR '')'') cs of [] \<Rightarrow> False
        | _ # after \<Rightarrow> has_quantifier ?i \<and> starts_quantifier after)) \<longleftrightarrow>
      (\<exists>inner b. c # cs = CHR ''('' # inner @ CHR '')'' # b \<and> CHR '')'' \<notin> set inner
        \<and> has_quantifier inner \<and> starts_quantifier b)" (is "?A = ?B")
  proof
    assume ?A
    then obtain d after where d: "dropWhile (\<lambda>x. x \<noteq> CHR '')'') cs = d # after" "c = CHR ''(''"
      "has_quantifier ?i" "starts_quantifier after" by (auto split: list.splits)
    then have "d = CHR '')''" using hd_dropWhile [of "\<lambda>x. x \<noteq> CHR '')''" cs] by auto
    moreover have "cs = ?i @ d # after" using d(1) by (metis takeWhile_dropWhile_id)
    moreover have "CHR '')'' \<notin> set ?i" by (auto dest: set_takeWhileD)
    ultimately show ?B using d by blast
  next
    assume ?B
    then obtain inner b where i: "c = CHR ''(''" "cs = inner @ CHR '')'' # b" "CHR '')'' \<notin> set inner"
      "has_quantifier inner" "starts_quantifier b" by auto
    then have "takeWhile (\<lambda>x. x \<noteq> CHR '')'') cs = inner"
      "dropWhile (\<lambda>x. x \<noteq> CHR '')'') cs = CHR '')'' # b" by (auto simp: takeWhile_append dropWhile_append)
    with i show ?A by simp
  qed
  have "?R (c # cs) \<longleftrightarrow> (\<exists>inner b. c # cs = CHR ''('' # inner @ CHR '')'' # b \<and> CHR '')'' \<notin> set inner
        \<and> has_quantifier inner \<and> starts_quantifier b) \<or> ?R cs"
    by (auto simp: Cons_eq_append_conv) (metis append_Cons)+
  with head Cons show ?case by simp
qed simp

section \<open>Durations\<close>

lemma bit_length_bounds: "0 < n \<Longrightarrow> 2 ^ (bit_length n - 1) \<le> n \<and> n < 2 ^ bit_length n"
proof (induction n rule: bit_length.induct)
  case (1 n)
  show ?case
  proof (cases "n = 1")
    case True
    then show ?thesis by (simp add: bit_length.simps)
  next
    case False
    with 1 have "0 < n div 2" by auto
    with 1 have IH: "2 ^ (bit_length (n div 2) - 1) \<le> n div 2" "n div 2 < 2 ^ bit_length (n div 2)" by auto
    have b: "bit_length n = Suc (bit_length (n div 2))" using 1 by (subst bit_length.simps) simp
    have "bit_length (n div 2) \<noteq> 0" using \<open>0 < n div 2\<close> by (subst bit_length.simps) simp
    then obtain j where "bit_length (n div 2) = Suc j" by (cases "bit_length (n div 2)") auto
    with IH b show ?thesis by auto
  qed
qed

lemma round_half_even_int [simp]: "round_half_even (of_int i) = i"
  by (simp add: round_half_even_def)

lemma float_of_small:
  assumes "n < 2 ^ 53"
  shows "float_of_decimal n 0 = FFin (of_nat n)"
proof (cases "n = 0")
  case False
  define b where "b = bit_length n"
  have n: "2 ^ (b - 1) \<le> n" "n < 2 ^ b" using bit_length_bounds [of n] False by (auto simp: b_def)
  have b: "1 \<le> b" using False by (subst b_def, subst bit_length.simps) simp
  have "(2::nat) ^ (b - 1) < 2 ^ 53" using n(1) assms by linarith
  then have "b - 1 < 53" by (rule power_less_imp_less_exp [rotated]) simp
  with b have b53: "b \<le> 53" by simp
  have one: "bit_length (Suc 0) = 1" by (simp add: bit_length.simps)
  have tp: "two_power (int b - 54) = 1 / 2 ^ (54 - b)" "two_power (int b - 53) = 1 / 2 ^ (53 - b)"
    using b53 by (auto simp: two_power_def nat_diff_distrib) (simp add: le_antisym)?
  have "(2::rat) ^ 53 = 2 ^ (b - 1) * 2 ^ (54 - b)" using b b53 by (simp flip: power_add)
  also have "\<dots> \<le> of_nat n * 2 ^ (54 - b)"
    using n(1) by (intro mult_right_mono) (auto simp flip: of_nat_power_le_of_nat_cancel_iff)
  finally have big: "2 ^ 53 \<le> of_nat n / two_power (int b - 54)" by (simp add: tp)
  have m: "of_nat n / two_power (int b - 53) = of_int (int n * 2 ^ (53 - b))" by (simp add: tp)
  have r: "of_int (round_half_even (of_nat n / two_power (int b - 53))) * two_power (int b - 53) = of_nat n"
    unfolding m round_half_even_int by (simp add: tp)
  have e: "max (int b - 53) (- 1074) = int b - 53" using b by simp
  have "n < 2 ^ 1024" by (rule less_le_trans [OF assms]) simp
  then have "(of_nat n :: rat) < 2 ^ 1024" by (metis of_nat_less_iff of_nat_numeral of_nat_power)
  with big r e False show ?thesis
    by (simp add: float_of_decimal_def Let_def one b_def [symmetric] del: of_nat_less_numeral_iff)
qed (simp add: float_of_decimal_def)

lemma unit_char:
  assumes "duration_unit [u] = Some m"
  shows "\<not> py_isspace u \<and> \<not> is_ascii_digit u"
proof -
  have "code u < 256" by (simp add: code_def)
  then have "code (py_lower_char u) = code u \<or> code (py_lower_char u) = code u + 32 \<and> 65 \<le> code u \<and> code u \<noteq> 133 \<and> code u \<noteq> 160"
    by (auto simp: py_lower_char_def)
  moreover have "code (py_lower_char u) \<in> {115, 109, 104, 100}"
    using assms by (auto simp: Let_def code_def split: if_splits)
  ultimately show ?thesis by (auto simp: py_isspace_def is_ascii_digit_def)
qed

lemma digit_not_space: "is_ascii_digit c \<Longrightarrow> \<not> py_isspace c"
  by (auto simp: is_ascii_digit_def py_isspace_def)

lemma parse_duration_text:
  assumes u: "duration_unit [u] = Some m" and n: "length (nat_to_string n) \<le> 4300"
  shows "parse_duration (nat_to_string n @ [u]) =
    (case float_of_decimal (n * m) 0 of FFin q \<Rightarrow> Some q | _ \<Rightarrow> None)"
proof -
  obtain c cs where cs: "nat_to_string n = c # cs" by (cases "nat_to_string n") auto
  have d: "\<forall>x \<in> set (c # cs). is_ascii_digit x" using nat_to_string_digits [of n] cs by simp
  have strip: "py_strip (nat_to_string n @ [u]) = nat_to_string n @ [u]"
    using unit_char [OF u] d cs by (simp add: py_strip_def digit_not_space)
  have "takeWhile is_ascii_digit (nat_to_string n @ [u]) = nat_to_string n"
    and "dropWhile is_ascii_digit (nat_to_string n @ [u]) = [u]"
    using unit_char [OF u] d cs by (auto simp: takeWhile_append2 dropWhile_append2)
  with unit_char [OF u] u n strip show ?thesis
    by (simp add: parse_duration_def Let_def digits_value_nat_to_string del: duration_unit.simps)
qed

lemma length_nat_to_string: "n < 10 ^ Suc k \<Longrightarrow> length (nat_to_string n) \<le> Suc k"
proof (induction k arbitrary: n)
  case (Suc k)
  show ?case
  proof (cases "n < 10")
    case False
    from Suc.prems have "n div 10 < 10 ^ Suc k" by (simp add: less_mult_imp_div_less)
    with Suc.IH False show ?thesis by (subst nat_to_string.simps) simp
  qed (subst nat_to_string.simps, simp)
qed (subst nat_to_string.simps, simp)

section \<open>Tenants\<close>

lemma colon_join_inject: "colon_join a b = colon_join a c \<longleftrightarrow> b = c"
  by (simp add: colon_join_def)

lemma colon_join_assoc: "colon_join (colon_join a b) c = colon_join a (colon_join b c)"
  by (simp add: colon_join_def)

lemma window_key_tenants:
  assumes "window_key rt e (VStr s) a = window_key rt' e' (VStr s') a'"
    and "s \<noteq> []" "s' \<noteq> []" "CHR '':'' \<notin> set s" "CHR '':'' \<notin> set s'"
  shows "s = s'"
  using assms by (auto simp: window_key_def Let_def dest: colon_join_first)

lemma record_values_other:
  "\<forall>path. k \<noteq> colon_join key path \<Longrightarrow> dict_get (record_values key ts fvs w) k = dict_get w k"
  by (induction key ts fvs w rule: record_values.induct) (auto simp: Let_def)

section \<open>The properties of the functions\<close>

text \<open>A runtime for the examples: no regular expression compiles, no trust engine answers.\<close>

definition quiet_runtime :: runtime where
  "quiet_runtime = \<lparr>clock = 0, repr = (\<lambda>_. []), re_search = (\<lambda>_ _. None),
     trust_engine = (\<lambda>_ _ _. None), extension = (\<lambda>_ _ _. None)\<rparr>"

text \<open>
  on any run of recorded events and earlier counts whose clock never goes back, \<open>count\<close> returns
  the number of events recorded under its key within the window, provided that at most 100000 were
  recorded and that no earlier count on the key looked at a window that starts later.
\<close>

theorem count_exact:
  assumes "well_timed (ops @ [Counted now e w t a])"
    and "\<forall>c \<in> set (cutoffs rt (window_key rt e t a) ops). c \<le> now - w"
    and "length (history rt (window_key rt e t a) ops) \<le> window_maxlen"
  shows "fst (count_in_window (rt\<lparr>clock := now\<rparr>) e w t a (windows_after rt ops)) =
    length (filter (\<lambda>x. now - w \<le> x) (history rt (window_key rt e t a) ops))"
proof -
  have ops: "well_timed ops" using assms(1) by (simp add: well_timed_def sorted_append)
  let ?key = "window_key rt e t a"
  let ?win = "filter (\<lambda>x. \<forall>c \<in> set (cutoffs rt ?key ops). c \<le> x) (history rt ?key ops)"
  have win: "window_of (windows_after rt ops) ?key = ?win"
    using window_refines_history [OF ops, of rt ?key] assms(3) by simp
  have "sorted (map (\<lambda>x. x) ?win)" by (intro sorted_filter) (simp add: history_sorted [OF ops])
  from dropWhile_sorted [OF this] have "dropWhile (\<lambda>x. x < now - w) ?win =
      filter (\<lambda>x. now - w \<le> x) (history rt ?key ops)"
    using assms(2) by (fastforce intro: filter_cong)
  then show ?thesis by (simp add: count_result win)
qed

theorem count_exact_witness:
  "fst (count_in_window (quiet_runtime\<lparr>clock := 100\<rparr>) ''A'' 60 (VStr ''t'') (VStr ''a'')
     (windows_after quiet_runtime
        [Recorded 10 ''A'' (VStr ''t'') (VStr ''a''), Recorded 50 ''A'' (VStr ''t'') (VStr ''a''),
         Recorded 90 ''A'' (VStr ''t'') (VStr ''a'')])) = 2"
proof -
  let ?ops = "[Recorded 10 ''A'' (VStr ''t'') (VStr ''a''), Recorded 50 ''A'' (VStr ''t'') (VStr ''a''),
         Recorded 90 ''A'' (VStr ''t'') (VStr ''a'')]"
  let ?key = "window_key quiet_runtime ''A'' (VStr ''t'') (VStr ''a'')"
  have "history quiet_runtime ?key ?ops = [10, 50, 90]" "cutoffs quiet_runtime ?key ?ops = []"
    by (simp_all add: history_def cutoffs_def is_record_def)
  with count_exact [of ?ops 100 "''A''" 60 "VStr ''t''" "VStr ''a''" quiet_runtime] show ?thesis
    by (simp add: well_timed_def window_maxlen_def)
qed

text \<open>
  a count over a short window discards the events that a longer window still covers: after one
  recorded event of an age between the two windows, the long count alone returns 1, and the same
  count after a short one returns 0.
\<close>

theorem count_interference:
  assumes "now - long \<le> ts" and "ts < now - short"
  shows "fst (count_in_window (rt\<lparr>clock := now\<rparr>) e long t a
            (windows_after rt [Recorded ts e t a])) = 1
    \<and> fst (count_in_window (rt\<lparr>clock := now\<rparr>) e long t a
            (windows_after rt [Recorded ts e t a, Counted now e short t a])) = 0"
  using assms
  by (simp add: count_result window_of_record window_of_count deque_append_def take_last_def
      window_maxlen_def)

theorem count_interference_witness:
  "fst (count_in_window (quiet_runtime\<lparr>clock := 5000\<rparr>) ''A'' 3600 VNone VNone
      (windows_after quiet_runtime [Recorded 3000 ''A'' VNone VNone, Counted 5000 ''A'' 60 VNone VNone])) = 0"
  using count_interference [of 5000 3600 3000 60] by simp

text \<open>
  C5: what is recorded under one tenant changes no count, no distinct count and no last time under
  another, for tenant names without a colon.
\<close>

theorem tenant_isolation:
  assumes "s \<noteq> []" "s' \<noteq> []" "CHR '':'' \<notin> set s" "CHR '':'' \<notin> set s'" "s \<noteq> s'"
  shows "fst (count_in_window rt' e' w (VStr s') a' (record_event rt e ts (VStr s) a fvs fc))
           = fst (count_in_window rt' e' w (VStr s') a' fc)
    \<and> time_since_last rt' e' (VStr s') a' (record_event rt e ts (VStr s) a fvs fc)
           = time_since_last rt' e' (VStr s') a' fc
    \<and> fst (count_distinct_in_window rt' e' p w (VStr s') a' (record_event rt e ts (VStr s) a fvs fc))
           = fst (count_distinct_in_window rt' e' p w (VStr s') a' fc)"
proof -
  let ?k = "window_key rt e (VStr s) a" and ?k' = "window_key rt' e' (VStr s') a'"
  have "?k' \<noteq> ?k" using window_key_tenants assms by metis
  moreover have "\<forall>path. colon_join ?k' p \<noteq> colon_join ?k path"
    using assms colon_join_first [of s' _ s] by (auto simp: window_key_def Let_def colon_join_assoc)
  ultimately show ?thesis
    by (simp add: record_event_def Let_def count_in_window_def time_since_last_def
        count_distinct_in_window_def record_values_other split: option.splits)
qed

theorem tenant_isolation_witness:
  "fst (count_in_window quiet_runtime ''A'' 60 (VStr ''t2'') VNone
     (record_event quiet_runtime ''A'' None (VStr ''t1'') VNone None empty_context)) = 0"
  using tenant_isolation [of "''t1''" "''t2''" quiet_runtime "''A''" 60 VNone quiet_runtime "''A''" None
      VNone None empty_context]
  by (simp add: count_in_window_def empty_context_def)

text \<open>
  whatever is recorded and whatever functions are called, every window keeps at most 100000
  entries and the regex cache at most 1000 patterns, and a pattern is matched only if it has at most
  1000 characters and no quantified group with a quantifier inside.
\<close>

theorem context_bounds:
  assumes "fc = foldl (context_step reg) empty_context ops"
  shows "length (window_of fc key) \<le> 100000
    \<and> length (dict_get_or (event_value_windows fc) key []) \<le> 100000
    \<and> length (regex_cache fc) \<le> 1000
    \<and> (fst (fn_regex_match rt args ctx fc) \<noteq> None \<longrightarrow>
         length (arg_text rt args 0) \<le> 1000 \<and>
         \<not> (\<exists>a inner b. arg_text rt args 0 = a @ CHR ''('' # inner @ CHR '')'' # b
              \<and> CHR '')'' \<notin> set inner \<and> has_quantifier inner \<and> starts_quantifier b))"
proof -
  have ok: "context_ok fc" unfolding assms by (rule contexts.inv_run) simp
  have "pattern_screened (arg_text rt args 0)" if "fst (fn_regex_match rt args ctx fc) \<noteq> None"
  proof -
    from that have "fst (get_compiled_regex rt (arg_text rt args 0) (regex_cache fc))"
      by (auto simp: fn_regex_match_def Let_def split: if_splits prod.splits)
    with get_compiled_regex_ok [of "regex_cache fc"] ok show ?thesis
      by (metis context_ok_def prod.collapse)
  qed
  with ok show ?thesis
    by (simp add: context_ok_def window_maxlen_def cache_ok_def REGEX_CACHE_MAX_def
        pattern_screened_def redos_suspect_iff)
qed

theorem context_bounds_witness:
  "length (regex_cache (foldl (context_step core_registry) empty_context
     [CallFunction quiet_runtime ''regex_match'' [VStr ''(a+)+'', VStr ''aa''] []])) \<le> 1000"
  using context_bounds [OF refl] by blast

lemma lower_letters:
  "py_lower_char (CHR ''s'') = CHR ''s''"
  "py_lower_char (CHR ''m'') = CHR ''m''"
  "py_lower_char (CHR ''h'') = CHR ''h''"
  "py_lower_char (CHR ''d'') = CHR ''d''"
  "py_lower_char (CHR ''S'') = CHR ''s''"
  "py_lower_char (CHR ''M'') = CHR ''m''"
  "py_lower_char (CHR ''H'') = CHR ''h''"
  "py_lower_char (CHR ''D'') = CHR ''d''"
  by code_simp+

lemma duration_units:
  "duration_unit ''s'' = Some 1" "duration_unit ''m'' = Some 60" "duration_unit ''h'' = Some 3600"
  "duration_unit ''d'' = Some 86400" "duration_unit ''S'' = Some 1" "duration_unit ''M'' = Some 60"
  "duration_unit ''H'' = Some 3600" "duration_unit ''D'' = Some 86400"
  by (simp_all add: lower_letters)

text \<open>
  a number of seconds, minutes, hours or days below \<open>2^53\<close> seconds, written as digits and one of
  the letters s, m, h, d in either case, is parsed to exactly that many seconds.
\<close>

theorem duration_exact:
  assumes "(c, m) \<in> set [(CHR ''s'', 1), (CHR ''m'', 60), (CHR ''h'', 3600), (CHR ''d'', 86400),
      (CHR ''S'', 1), (CHR ''M'', 60), (CHR ''H'', 3600), (CHR ''D'', 86400)]"
    and "n * m < 2 ^ 53"
  shows "parse_duration (nat_to_string n @ [c]) = Some (of_nat (n * m))"
proof -
  have u: "duration_unit [c] = Some m" using assms(1) duration_units by auto
  have "n \<le> n * m" using assms(1) by auto
  from le_less_trans [OF this assms(2)] have "n < 10 ^ Suc 15" by simp
  from length_nat_to_string [OF this] have "length (nat_to_string n) \<le> 4300" by simp
  from parse_duration_text [OF u this] float_of_small [OF assms(2)] show ?thesis by simp
qed

theorem duration_exact_witness: "parse_duration ''60s'' = Some 60 \<and> parse_duration ''5M'' = Some 300"
proof -
  have "nat_to_string 60 = ''60''" "nat_to_string 5 = ''5''" by code_simp+
  with duration_exact [of "CHR ''s''" 1 60] duration_exact [of "CHR ''M''" 60 5] show ?thesis by simp
qed

end
