(* ===== verification/PRL_Evaluator.thy ===== *)
theory PRL_Evaluator
  imports PRL_Parser_Props PRL_Functions_Props
begin

text \<open>
  \<open>backend/engine/evaluator/evaluator.py\<close>: the evaluation of a rule's tree in an event's context.
  A handler returns an exception or a value, and the state the called functions leave. An
  \<open>EvalError\<close> carries the position of its node; \<open>PyTypeError\<close> is the \<open>TypeError\<close> of an order
  comparison between values that have no order. The interpreter's own limit on recursion is not
  modelled.
\<close>

section \<open>Exceptions\<close>

datatype eval_message =
  UnknownNode
| UndefinedVariable string
| InNeedsList
| UnknownComparison string
| UnknownBinary string
| UnknownUnary string
| FunctionFailed string

datatype eval_exn = EvalError eval_message nat nat | PyTypeError

type_synonym 'a evaluated = "(eval_exn + 'a) \<times> function_context"

section \<open>Context resolution\<close>

fun walk_path :: "pval \<Rightarrow> string list \<Rightarrow> pval" where
  "walk_path v [] = v"
| "walk_path v (f # fs) =
     (case v of
        VDict d \<Rightarrow> (case dict_get d f of Some w \<Rightarrow> walk_path w fs | None \<Rightarrow> VMissing)
      | _ \<Rightarrow> VMissing)"

definition eval_field_access :: "eval_context \<Rightarrow> string \<Rightarrow> string list \<Rightarrow> pval" where
  "eval_field_access ctx ob path =
     (let v = dict_get_or ctx ob VNone in if v = VNone then VMissing else walk_path v path)"

section \<open>Operators\<close>

definition order_result :: "bool option \<Rightarrow> eval_exn + pval" where
  "order_result r = (case r of None \<Rightarrow> Inl PyTypeError | Some b \<Rightarrow> Inr (VBool b))"

text \<open>\<open>_eval_compare\<close>, after both sides are evaluated; \<open>l\<close> and \<open>c\<close> are the node's position.\<close>

definition compare_values :: "nat \<Rightarrow> nat \<Rightarrow> string \<Rightarrow> pval \<Rightarrow> pval \<Rightarrow> eval_exn + pval" where
  "compare_values l c op left right =
     (if left = VMissing \<or> right = VMissing then Inr (VBool False)
      else if op = ''=='' then Inr (VBool (py_eq left right))
      else if op = ''!='' then Inr (VBool (\<not> py_eq left right))
      else if op = ''>'' then order_result (py_lt right left)
      else if op = ''<'' then order_result (py_lt left right)
      else if op = ''>='' then order_result (py_le right left)
      else if op = ''<='' then order_result (py_le left right)
      else if op = ''IN'' then
        (case right of VList xs \<Rightarrow> Inr (VBool (py_in_list left xs))
         | _ \<Rightarrow> Inl (EvalError InNeedsList l c))
      else Inl (EvalError (UnknownComparison op) l c))"

definition bind_value :: "'a evaluated \<Rightarrow> ('a \<Rightarrow> function_context \<Rightarrow> 'b evaluated) \<Rightarrow> 'b evaluated" where
  "bind_value r f = (case r of (Inl e, fc) \<Rightarrow> (Inl e, fc) | (Inr v, fc) \<Rightarrow> f v fc)"

lemma bind_value_simps [simp]:
  "bind_value (Inl e, fc) f = (Inl e, fc)" "bind_value (Inr v, fc) f = f v fc"
  by (simp_all add: bind_value_def)

lemma bind_value_cong [fundef_cong]:
  "r = r' \<Longrightarrow> (\<And>v fc. r' = (Inr v, fc) \<Longrightarrow> f v fc = g v fc) \<Longrightarrow> bind_value r f = bind_value r' g"
  by (auto simp: bind_value_def split: prod.splits sum.splits)

section \<open>Evaluation\<close>

fun eval_node :: "registry \<Rightarrow> runtime \<Rightarrow> eval_context \<Rightarrow> node \<Rightarrow> function_context \<Rightarrow> pval evaluated"
  and eval_nodes :: "registry \<Rightarrow> runtime \<Rightarrow> eval_context \<Rightarrow> node list \<Rightarrow> function_context \<Rightarrow>
    pval list evaluated" where
  "eval_node reg rt ctx (StringLiteral l c s) fc = (Inr (VStr s), fc)"
| "eval_node reg rt ctx (NumberLiteral l c n) fc = (Inr (VNum n), fc)"
| "eval_node reg rt ctx (BoolLiteral l c b) fc = (Inr (VBool b), fc)"
| "eval_node reg rt ctx (ListLiteral l c els) fc =
     bind_value (eval_nodes reg rt ctx els fc) (\<lambda>vs fc'. (Inr (VList vs), fc'))"
| "eval_node reg rt ctx (Identifier l c name) fc =
     (case dict_get ctx name of
        Some v \<Rightarrow> (Inr v, fc)
      | None \<Rightarrow> (Inl (EvalError (UndefinedVariable name) l c), fc))"
| "eval_node reg rt ctx (FieldAccess l c ob path) fc = (Inr (eval_field_access ctx ob path), fc)"
| "eval_node reg rt ctx (Compare l c op a b) fc =
     bind_value (eval_node reg rt ctx a fc) (\<lambda>left fc1.
       bind_value (eval_node reg rt ctx b fc1) (\<lambda>right fc2. (compare_values l c op left right, fc2)))"
| "eval_node reg rt ctx (BinaryOp l c op a b) fc =
     (if op = ''AND'' then
        bind_value (eval_node reg rt ctx a fc) (\<lambda>left fc1.
          if \<not> truthy left then (Inr (VBool False), fc1)
          else bind_value (eval_node reg rt ctx b fc1) (\<lambda>right fc2. (Inr (VBool (truthy right)), fc2)))
      else if op = ''OR'' then
        bind_value (eval_node reg rt ctx a fc) (\<lambda>left fc1.
          if truthy left then (Inr (VBool True), fc1)
          else bind_value (eval_node reg rt ctx b fc1) (\<lambda>right fc2. (Inr (VBool (truthy right)), fc2)))
      else (Inl (EvalError (UnknownBinary op) l c), fc))"
| "eval_node reg rt ctx (UnaryOp l c op a) fc =
     (if op = ''NOT'' then
        bind_value (eval_node reg rt ctx a fc) (\<lambda>v fc1. (Inr (VBool (\<not> truthy v)), fc1))
      else (Inl (EvalError (UnknownUnary op) l c), fc))"
| "eval_node reg rt ctx (FunctionCall l c name args) fc =
     bind_value (eval_nodes reg rt ctx args fc) (\<lambda>vs fc1.
       if VMissing \<in> set vs then (Inr (VBool False), fc1)
       else (case registry_call reg rt name vs ctx fc1 of
               (Some v, fc2) \<Rightarrow> (Inr v, fc2)
             | (None, fc2) \<Rightarrow> (Inl (EvalError (FunctionFailed name) l c), fc2)))"
| "eval_node reg rt ctx (Rule l c n) fc = (Inl (EvalError UnknownNode l c), fc)"
| "eval_nodes reg rt ctx [] fc = (Inr [], fc)"
| "eval_nodes reg rt ctx (n # ns) fc =
     bind_value (eval_node reg rt ctx n fc) (\<lambda>v fc1.
       bind_value (eval_nodes reg rt ctx ns fc1) (\<lambda>vs fc2. (Inr (v # vs), fc2)))"

fun rule_condition :: "node \<Rightarrow> node" where
  "rule_condition (Rule l c n) = n"
| "rule_condition n = n"

definition evaluate :: "registry \<Rightarrow> runtime \<Rightarrow> node \<Rightarrow> eval_context \<Rightarrow> function_context \<Rightarrow>
    bool evaluated" where
  "evaluate reg rt rule ctx fc =
     bind_value (eval_node reg rt ctx (rule_condition rule) fc) (\<lambda>v fc'. (Inr (truthy v), fc'))"

section \<open>What evaluation can raise\<close>

text \<open>
  \<open>raised_by reg e n\<close>: the node \<open>n\<close> itself can raise \<open>e\<close>, for a node of the parser's grammar.
\<close>

fun raised_by :: "eval_exn \<Rightarrow> node \<Rightarrow> bool" where
  "raised_by (EvalError (UndefinedVariable x) l c) n = (n = Identifier l c x)"
| "raised_by (EvalError InNeedsList l c) n = (\<exists>a b. n = Compare l c ''IN'' a b)"
| "raised_by (EvalError (FunctionFailed f) l c) n = (\<exists>args. n = FunctionCall l c f args)"
| "raised_by PyTypeError n = (\<exists>l c op a b. n = Compare l c op a b \<and> op \<in> {''>'', ''<'', ''>='', ''<=''})"
| "raised_by _ n = False"

lemma compare_values_raises:
  assumes "compare_values l c op v w = Inl e" and "op \<in> {''=='', ''!='', ''>'', ''<'', ''>='', ''<='', ''IN''}"
  shows "raised_by e (Compare l c op a b)"
  using assms
  by (auto simp: compare_values_def order_result_def split: if_splits option.splits pval.splits)

lemma bind_value_Inl:
  "bind_value r f = (Inl e, fc') \<longleftrightarrow>
     r = (Inl e, fc') \<or> (\<exists>v fc1. r = (Inr v, fc1) \<and> f v fc1 = (Inl e, fc'))"
  by (auto simp: bind_value_def split: prod.splits sum.splits)

lemma eval_raises:
  "eval_node reg rt ctx n fc = (Inl e, fc') \<Longrightarrow> tree_ok n \<Longrightarrow> \<exists>m \<in> set (walk n). raised_by e m"
  "eval_nodes reg rt ctx ns fc = (Inl e, fc') \<Longrightarrow> \<forall>n \<in> set ns. tree_ok n \<Longrightarrow>
     \<exists>n \<in> set ns. \<exists>m \<in> set (walk n). raised_by e m"
proof (induction reg rt ctx n fc and reg rt ctx ns fc arbitrary: e fc' and e fc'
    rule: eval_node_eval_nodes.induct)
  case (7 reg rt ctx l c op a b fc)
  from 7(4) have t: "tree_ok a" "tree_ok b" "op \<in> {''=='', ''!='', ''>'', ''<'', ''>='', ''<='', ''IN''}"
    by (auto simp: tree_ok_def)
  from 7(3) consider "eval_node reg rt ctx a fc = (Inl e, fc')"
    | v fc1 where "eval_node reg rt ctx a fc = (Inr v, fc1)" "eval_node reg rt ctx b fc1 = (Inl e, fc')"
    | v w where "compare_values l c op v w = Inl e"
    by (auto simp: bind_value_Inl)
  then show ?case
  proof cases
    case 1
    with 7(1) t show ?thesis by auto
  next
    case 2
    with 7(2) t show ?thesis by auto
  next
    case 3
    from compare_values_raises [OF this t(3)] show ?thesis by auto
  qed
next
  case (8 reg rt ctx l c op a b fc)
  then show ?case by (auto simp: bind_value_Inl tree_ok_def split: if_splits) blast+
next
  case (10 reg rt ctx l c name args fc)
  then show ?case
    by (auto simp: bind_value_Inl tree_ok_def list_all_iff split: if_splits prod.splits option.splits)
qed (auto simp: bind_value_Inl tree_ok_def list_all_iff split: option.splits if_splits)

section \<open>State\<close>

lemma snd_bind_value:
  "P (snd r) \<Longrightarrow> (\<And>v fc. P fc \<Longrightarrow> P (snd (f v fc))) \<Longrightarrow> P (snd (bind_value r f))"
  by (auto simp: bind_value_def split: prod.splits sum.splits)

lemma eval_keeps_context_ok [inv_intros]:
  "context_ok fc \<Longrightarrow> context_ok (snd (eval_node reg rt ctx n fc))"
  "context_ok fc \<Longrightarrow> context_ok (snd (eval_nodes reg rt ctx ns fc))"
proof (induction reg rt ctx n fc and reg rt ctx ns fc rule: eval_node_eval_nodes.induct)
  case (7 reg rt ctx l c op a b fc)
  then show ?case
    by (auto simp: bind_value_def split: prod.splits sum.splits)
next
  case (8 reg rt ctx l c op a b fc)
  then show ?case
    by (auto simp: bind_value_def split: prod.splits sum.splits)
next
  case (10 reg rt ctx l c name args fc)
  have "context_ok fc2" if "context_ok fc1" "registry_call reg rt name vs ctx fc1 = (r, fc2)" for vs fc1 r fc2
    using registry_call_ok [OF that(1), of reg rt name vs ctx] that(2) by simp
  with 10 show ?case
    by (auto simp: bind_value_def split: prod.splits sum.splits option.splits)
next
  case (13 reg rt ctx n ns fc)
  then show ?case
    by (auto simp: bind_value_def split: prod.splits sum.splits)
qed (auto simp: bind_value_def split: prod.splits sum.splits option.splits)

lemma evaluate_keeps_context_ok [inv_intros]:
  "context_ok fc \<Longrightarrow> context_ok (snd (evaluate reg rt rule ctx fc))"
  unfolding evaluate_def by (rule snd_bind_value) (auto intro: eval_keeps_context_ok)

text \<open>A tree that calls no function leaves the state alone and does not read it.\<close>

fun is_call :: "node \<Rightarrow> bool" where
  "is_call (FunctionCall _ _ _ _) = True"
| "is_call _ = False"

definition call_free :: "node \<Rightarrow> bool" where
  "call_free n = list_all (\<lambda>m. \<not> is_call m) (walk n)"

lemma pure_nodes:
  "\<forall>n \<in> set ns. \<exists>r. \<forall>fc. eval_node reg rt ctx n fc = (r, fc) \<Longrightarrow>
     \<exists>r. \<forall>fc. eval_nodes reg rt ctx ns fc = (r, fc)"
proof (induction ns)
  case (Cons n ns)
  then obtain r s where "\<forall>fc. eval_node reg rt ctx n fc = (r, fc)" "\<forall>fc. eval_nodes reg rt ctx ns fc = (s, fc)"
    by auto
  then show ?case by (cases r; cases s) auto
qed simp

lemma call_free_pure: "call_free n \<Longrightarrow> \<exists>r. \<forall>fc. eval_node reg rt ctx n fc = (r, fc)"
proof (induction n)
  case (ListLiteral l c els)
  then have "\<forall>n \<in> set els. \<exists>r. \<forall>fc. eval_node reg rt ctx n fc = (r, fc)"
    by (auto simp: call_free_def list_all_iff)
  from pure_nodes [OF this] obtain r where "\<forall>fc. eval_nodes reg rt ctx els fc = (r, fc)" by blast
  then show ?case by (cases r) auto
next
  case (Compare l c op a b)
  then obtain r s where "\<forall>fc. eval_node reg rt ctx a fc = (r, fc)" "\<forall>fc. eval_node reg rt ctx b fc = (s, fc)"
    by (auto simp: call_free_def)
  then show ?case by (cases r; cases s) auto
next
  case (BinaryOp l c op a b)
  then obtain r s where "\<forall>fc. eval_node reg rt ctx a fc = (r, fc)" "\<forall>fc. eval_node reg rt ctx b fc = (s, fc)"
    by (auto simp: call_free_def)
  then show ?case by (cases r; cases s) auto
next
  case (UnaryOp l c op a)
  then obtain r where "\<forall>fc. eval_node reg rt ctx a fc = (r, fc)" by (auto simp: call_free_def)
  then show ?case by (cases r) auto
next
  case (Identifier l c x)
  then show ?case by (cases "dict_get ctx x") auto
qed (auto simp: call_free_def)

section \<open>The properties of the evaluator\<close>

text \<open>
  evaluating a rule the parser accepted raises nothing but an undefined variable, an \<open>IN\<close> whose
  right side is no list, a failed function call, each with the position of such a node of the rule,
  or, at an order comparison of the rule, a \<open>TypeError\<close>; never an unknown node or operator.
\<close>

theorem evaluate_raises:
  assumes "parse_prl source = Inr r" and "fst (evaluate reg rt r ctx fc) = Inl e"
  shows "\<exists>m \<in> set (walk (rule_condition r)). raised_by e m"
proof -
  from assms(1) obtain vs t n where n: "gr_expression 0 vs n" "tokenize source = Inr (vs @ [t])"
      "r = Rule (node_line n) (node_col n) n" by (auto simp: parse_prl_iff)
  from tokenize_stream_ok [OF n(2)] have "list_all token_ok vs" by (simp add: stream_ok_def)
  with gr_tree_ok(1) [OF n(1)] n(3) have "tree_ok (rule_condition r)" by simp
  moreover obtain fc' where "eval_node reg rt ctx (rule_condition r) fc = (Inl e, fc')"
    using assms(2) by (auto simp: evaluate_def bind_value_def split: prod.splits sum.splits)
  ultimately show ?thesis using eval_raises(1) by blast
qed

theorem evaluate_raises_witness:
  "\<exists>r e. parse_prl ''x AND y'' = Inr r \<and> fst (evaluate core_registry quiet_runtime r [] empty_context) = Inl e
     \<and> (\<exists>m \<in> set (walk (rule_condition r)). raised_by e m)"
proof -
  have p: "parse_prl ''x AND y'' =
      Inr (Rule 1 3 (BinaryOp 1 3 ''AND'' (Identifier 1 1 ''x'') (Identifier 1 7 ''y'')))" (is "_ = Inr ?r")
    by code_simp
  have e: "fst (evaluate core_registry quiet_runtime ?r [] empty_context)
      = Inl (EvalError (UndefinedVariable ''x'') 1 1)"
    by (simp add: evaluate_def)
  from evaluate_raises [OF p e] show ?thesis using p e by blast
qed

text \<open>
  a comparison with a field the event does not have is false whatever the operator and the other
  side, its negation is true, and a function called on such a field is not run and gives false.
\<close>

theorem missing_field:
  assumes "eval_field_access ctx ob path = VMissing"
    and "eval_node reg rt ctx b fc = (Inr w, fc')"
  shows "eval_node reg rt ctx (Compare l c op (FieldAccess l1 c1 ob path) b) fc = (Inr (VBool False), fc')
    \<and> eval_node reg rt ctx (Compare l c op b (FieldAccess l1 c1 ob path)) fc = (Inr (VBool False), fc')
    \<and> eval_node reg rt ctx (UnaryOp l0 c0 ''NOT'' (Compare l c op (FieldAccess l1 c1 ob path) b)) fc
        = (Inr (VBool True), fc')
    \<and> eval_node reg rt ctx (FunctionCall l c name [FieldAccess l1 c1 ob path, b]) fc = (Inr (VBool False), fc')"
  using assms by (simp add: compare_values_def)

theorem missing_field_witness:
  "eval_node core_registry quiet_runtime [(''event'', VDict [])]
     (UnaryOp 1 1 ''NOT'' (Compare 1 1 ''>'' (FieldAccess 1 1 ''event'' [''a'', ''b'']) (NumberLiteral 1 1 (NInt 3))))
     empty_context = (Inr (VBool True), empty_context)"
  using missing_field [of "[(''event'', VDict [])]" "''event''" "[''a'', ''b'']" core_registry quiet_runtime
      "NumberLiteral 1 1 (NInt 3)" empty_context]
  by (simp add: eval_field_access_def dict_get_or_def)

text \<open>
  \<open>AND\<close>, \<open>OR\<close> and \<open>NOT\<close> obey De Morgan's laws, the evaluation order included: both sides of
  a law give the same value or raise the same exception and leave the same windows and caches.
\<close>

theorem de_morgan:
  "eval_node reg rt ctx (UnaryOp l c ''NOT'' (BinaryOp l c ''AND'' a b)) fc
     = eval_node reg rt ctx (BinaryOp l c ''OR'' (UnaryOp l c ''NOT'' a) (UnaryOp l c ''NOT'' b)) fc
   \<and> eval_node reg rt ctx (UnaryOp l c ''NOT'' (BinaryOp l c ''OR'' a b)) fc
     = eval_node reg rt ctx (BinaryOp l c ''AND'' (UnaryOp l c ''NOT'' a) (UnaryOp l c ''NOT'' b)) fc"
  by (auto simp: bind_value_def split: prod.splits sum.splits)

text \<open>
  the right operand of \<open>AND\<close> is not evaluated when the left one is false, nor that of \<open>OR\<close> when
  it is true: no exception and no state change can come from it.
\<close>

theorem short_circuit:
  assumes "eval_node reg rt ctx a fc = (Inr v, fc')"
  shows "eval_node reg rt ctx (BinaryOp l c (if truthy v then ''OR'' else ''AND'') a b) fc
    = (Inr (VBool (truthy v)), fc')"
  using assms by simp

theorem short_circuit_witness:
  "eval_node core_registry quiet_runtime [] (BinaryOp 1 1 ''AND'' (BoolLiteral 1 1 False) (Identifier 1 1 ''x''))
     empty_context = (Inr (VBool False), empty_context)"
  using short_circuit [of core_registry quiet_runtime "[]" "BoolLiteral 1 1 False" empty_context "VBool False"]
  by simp

text \<open>
  a rule that compares a field with a number in order raises a \<open>TypeError\<close>, which is no
  \<open>EvalError\<close>, on every event whose field holds a text.
\<close>

theorem order_type_error:
  "\<exists>r. parse_prl ''event.x > 1'' = Inr r
     \<and> evaluate reg rt r [(''event'', VDict [(''x'', VStr s)])] fc = (Inl PyTypeError, fc)"
proof -
  have "parse_prl ''event.x > 1'' =
      Inr (Rule 1 9 (Compare 1 9 ''>'' (FieldAccess 1 1 ''event'' [''x'']) (NumberLiteral 1 11 (NInt 1))))"
    by code_simp
  then show ?thesis
    by (simp add: evaluate_def eval_field_access_def dict_get_or_def compare_values_def order_result_def)
qed

end
