(* ===== verification/Alerting.thy ===== *)
theory Alerting
  imports Py_Values
begin

text \<open>
  \<open>backend/engine/utils/truncate.py\<close> and \<open>backend/engine/alerting/publisher.py\<close>: the payload of an
  alert, its publication to Kafka and its broadcast to the dashboard's subscribers. The length of a
  JSON text, the broker and the subscribers' callbacks are parameters.
\<close>

type_synonym payload = "(string, pval) dict"

section \<open>Truncation\<close>

definition cut_text :: "nat \<Rightarrow> string \<Rightarrow> pval \<Rightarrow> pval" where
  "cut_text n suffix v =
     (case v of VStr s \<Rightarrow> if n < length s then VStr (take n s @ suffix) else v | _ \<Rightarrow> v)"

definition truncate_value :: "nat \<Rightarrow> nat \<Rightarrow> pval \<Rightarrow> pval" where
  "truncate_value max_str_len nested_str_len v =
     (case v of
        VStr s \<Rightarrow> cut_text max_str_len ''... [truncated]'' v
      | VDict d \<Rightarrow> VDict (map (\<lambda>(k, w). (k, cut_text nested_str_len ''...'' w)) (take 20 d))
      | VList xs \<Rightarrow> VList (map (cut_text nested_str_len ''...'') (take 20 xs))
      | _ \<Rightarrow> v)"

definition truncate_dict :: "(payload \<Rightarrow> nat) \<Rightarrow> nat \<Rightarrow> nat \<Rightarrow> nat \<Rightarrow> nat option \<Rightarrow> payload \<Rightarrow> payload" where
  "truncate_dict json_size max_size max_str_len nested_str_len max_keys data =
     (if json_size data \<le> max_size then data
      else map (\<lambda>(k, v). (k, truncate_value max_str_len nested_str_len v))
             (case max_keys of None \<Rightarrow> data | Some n \<Rightarrow> take n data))"

section \<open>The payload\<close>

record alert =
  alert_id :: string
  alert_tenant :: string
  alert_agent :: "string option"
  alert_event :: "string option"
  alert_rule :: string
  alert_severity :: string
  alert_title :: string
  alert_description :: string
  alert_status :: string
  alert_context :: payload

definition optional_text :: "string option \<Rightarrow> pval" where
  "optional_text s = (case s of None \<Rightarrow> VNone | Some t \<Rightarrow> if t = [] then VNone else VStr t)"

definition build_alert_payload :: "(payload \<Rightarrow> nat) \<Rightarrow> alert \<Rightarrow> string \<Rightarrow> pval \<Rightarrow> pval \<Rightarrow> payload \<Rightarrow>
    string \<Rightarrow> payload" where
  "build_alert_payload json_size a rule_name attack_class event_type event_data created_at =
     [(''alert_id'', VStr (alert_id a)), (''tenant_id'', VStr (alert_tenant a)),
      (''rule_id'', VStr (alert_rule a)), (''rule_name'', VStr rule_name),
      (''severity'', VStr (alert_severity a)), (''attack_class'', attack_class),
      (''agent_id'', optional_text (alert_agent a)), (''event_id'', optional_text (alert_event a)),
      (''event_type'', event_type), (''title'', VStr (alert_title a)),
      (''description'', VStr (alert_description a)), (''status'', VStr ''open''),
      (''created_at'', VStr created_at),
      (''event_snapshot'', VDict (truncate_dict json_size 2048 128 64 (Some 15) event_data))]"

section \<open>The broadcaster\<close>

text \<open>\<open>_subscribers\<close>: tenant to subscriber to callback; a callback is the name the caller knows it by.\<close>

type_synonym subscribers = "(string, (string, string) dict) dict"

definition subscribe :: "string \<Rightarrow> string \<Rightarrow> string \<Rightarrow> subscribers \<Rightarrow> subscribers" where
  "subscribe tenant sub callback ss =
     (let ss' = (if tenant \<in> set (dict_keys ss) then ss else dict_set tenant [] ss)
      in dict_set tenant (dict_set sub callback (dict_get_or ss' tenant [])) ss')"

definition unsubscribe :: "string \<Rightarrow> string \<Rightarrow> subscribers \<Rightarrow> subscribers" where
  "unsubscribe tenant sub ss =
     (case dict_get ss tenant of
        None \<Rightarrow> ss
      | Some subs \<Rightarrow>
          (let subs' = dict_del sub subs
           in if subs' = [] then dict_del tenant ss else dict_set tenant subs' ss))"

text \<open>\<open>accepts cb p\<close>: the callback returns; otherwise it raises. The result counts those that returned.\<close>

definition broadcast :: "(string \<Rightarrow> payload \<Rightarrow> bool) \<Rightarrow> string \<Rightarrow> payload \<Rightarrow> subscribers \<Rightarrow>
    nat \<times> subscribers" where
  "broadcast accepts tenant p ss =
     (let subs = dict_get_or ss tenant [];
          failed = map fst (filter (\<lambda>(sub, cb). \<not> accepts cb p) subs)
      in (length (filter (\<lambda>(sub, cb). accepts cb p) subs),
          foldl (\<lambda>ss sub. unsubscribe tenant sub ss) ss failed))"

definition subscriber_count :: "subscribers \<Rightarrow> nat" where
  "subscriber_count ss = sum_list (map length (dict_values ss))"

section \<open>The publisher\<close>

record publisher =
  has_producer :: bool
  alerts_published :: nat
  kafka_errors :: nat
  ws_notifications :: nat
  broadcaster :: subscribers
  kafka_log :: "(string \<times> payload) list"

text \<open>\<open>send topic value\<close>: the broker takes the message.\<close>

definition derived_event :: "string \<Rightarrow> string \<Rightarrow> string \<Rightarrow> payload \<Rightarrow> payload option" where
  "derived_event new_id now tenant p =
     (let severity = dict_get_or p ''severity'' VNone;
          text = (if truthy severity then severity else VStr ''medium'')
      in case text of
           VStr s \<Rightarrow> Some
             [(''event_id'', VStr new_id), (''tenant_id'', VStr tenant),
              (''agent_id'', dict_get_or p ''agent_id'' (VStr [])), (''framework'', VStr []),
              (''event_type'', VStr ''ALERT''), (''severity'', VStr (py_lower s)),
              (''attack_class'', dict_get_or p ''attack_class'' VNone),
              (''timestamp'', dict_get_or p ''created_at'' (VStr now))]
         | _ \<Rightarrow> None)"

definition publish_to_kafka :: "(string \<Rightarrow> payload \<Rightarrow> bool) \<Rightarrow> string \<Rightarrow> string \<Rightarrow> string \<Rightarrow> payload \<Rightarrow>
    string \<Rightarrow> publisher \<Rightarrow> publisher" where
  "publish_to_kafka send new_id now prefix p tenant pub =
     (let topic = prefix @ CHR ''.'' # tenant;
          encodable = (case (dict_get_or p ''severity'' (VStr ''medium''), dict_get_or p ''alert_id'' (VStr [])) of
                         (VStr _, VStr _) \<Rightarrow> True | _ \<Rightarrow> False);
          pub1 = (if encodable \<and> send topic p
                  then pub\<lparr>alerts_published := alerts_published pub + 1,
                           kafka_log := kafka_log pub @ [(topic, p)]\<rparr>
                  else pub\<lparr>kafka_errors := kafka_errors pub + 1\<rparr>);
          events_topic = ''phantex.events.'' @ tenant
      in case derived_event new_id now tenant p of
           None \<Rightarrow> pub1
         | Some e \<Rightarrow>
             (if send events_topic e
              then pub1\<lparr>kafka_log := kafka_log pub1 @ [(events_topic, e)]\<rparr> else pub1))"

definition publish_alert :: "(string \<Rightarrow> payload \<Rightarrow> bool) \<Rightarrow> (string \<Rightarrow> payload \<Rightarrow> bool) \<Rightarrow> string \<Rightarrow>
    string \<Rightarrow> string \<Rightarrow> payload \<Rightarrow> string \<Rightarrow> publisher \<Rightarrow> publisher" where
  "publish_alert send accepts new_id now prefix p tenant pub =
     (let pub1 = (if has_producer pub then publish_to_kafka send new_id now prefix p tenant pub else pub)
      in case broadcast accepts tenant p (broadcaster pub1) of
           (n, ss) \<Rightarrow> pub1\<lparr>broadcaster := ss, ws_notifications := ws_notifications pub1 + n\<rparr>)"

section \<open>The broadcaster keeps no empty tenant\<close>

definition subscribers_ok :: "subscribers \<Rightarrow> bool" where
  "subscribers_ok ss \<longleftrightarrow> dict_wf ss \<and> (\<forall>t subs. dict_get ss t = Some subs \<longrightarrow> subs \<noteq> [] \<and> dict_wf subs)"

lemma subscribers_ok_Nil [simp]: "subscribers_ok []"
  by (simp add: subscribers_ok_def)

lemma subscribe_ok [inv_intros]: "subscribers_ok ss \<Longrightarrow> subscribers_ok (subscribe t s c ss)"
  by (auto simp: subscribers_ok_def subscribe_def Let_def dict_get_or_def dict_get_None_iff
      split: option.splits)

lemma unsubscribe_ok [inv_intros]: "subscribers_ok ss \<Longrightarrow> subscribers_ok (unsubscribe t s ss)"
  by (auto simp: subscribers_ok_def unsubscribe_def Let_def split: option.splits)

lemma unsubscribe_all_ok: "subscribers_ok ss \<Longrightarrow> subscribers_ok (foldl (\<lambda>ss sub. unsubscribe t sub ss) ss subs)"
  by (induction subs arbitrary: ss) (auto intro: unsubscribe_ok)

lemma broadcast_ok [inv_intros]: "subscribers_ok ss \<Longrightarrow> subscribers_ok (snd (broadcast accepts t p ss))"
  by (simp add: broadcast_def Let_def unsubscribe_all_ok)

datatype subscriber_op = Subscribe string string string | Unsubscribe string string
| Broadcast "string \<Rightarrow> payload \<Rightarrow> bool" string payload

fun subscriber_step :: "subscribers \<Rightarrow> subscriber_op \<Rightarrow> subscribers" where
  "subscriber_step ss (Subscribe t s c) = subscribe t s c ss"
| "subscriber_step ss (Unsubscribe t s) = unsubscribe t s ss"
| "subscriber_step ss (Broadcast accepts t p) = snd (broadcast accepts t p ss)"

interpretation subscriptions: machine subscriber_step subscribers_ok
proof
  fix ss c assume "subscribers_ok ss"
  then show "subscribers_ok (subscriber_step ss c)" by (cases c) (auto intro: inv_intros)
qed

lemma unsubscribe_get:
  "dict_get_or (unsubscribe t s ss) t' [] =
     (if t' = t then dict_del s (dict_get_or ss t []) else dict_get_or ss t' [])"
  by (auto simp: unsubscribe_def Let_def dict_get_or_def split: option.splits)
    (simp_all add: dict_del_def)

lemma unsubscribe_all_get:
  "dict_get_or (foldl (\<lambda>ss sub. unsubscribe t sub ss) ss subs) t' [] =
     (if t' = t then filter (\<lambda>(s, _). s \<notin> set subs) (dict_get_or ss t []) else dict_get_or ss t' [])"
proof (induction subs arbitrary: ss)
  case (Cons s subs)
  then show ?case
    by (auto simp: unsubscribe_get dict_del_def intro!: filter_cong)
qed (auto intro!: filter_True [symmetric])

section \<open>The properties of alerting\<close>

text \<open>
  after any subscriptions, removals and earlier broadcasts, a broadcast reaches every subscriber
  of the alert's tenant whose callback returns and counts exactly those; afterwards they are the
  tenant's only subscribers, the other tenants' are untouched, and no tenant is kept without one.
\<close>

theorem broadcast_spec:
  assumes "ss = foldl subscriber_step [] ops" and "broadcast accepts tenant p ss = (n, ss')"
  shows "dict_get_or ss' tenant [] = filter (\<lambda>(sub, cb). accepts cb p) (dict_get_or ss tenant [])
    \<and> n = length (dict_get_or ss' tenant [])
    \<and> (\<forall>t. t \<noteq> tenant \<longrightarrow> dict_get_or ss' t [] = dict_get_or ss t [])
    \<and> (\<forall>t subs. dict_get ss' t = Some subs \<longrightarrow> subs \<noteq> [])"
proof -
  have ok: "subscribers_ok ss" unfolding assms(1) by (rule subscriptions.inv_run) simp
  let ?subs = "dict_get_or ss tenant []"
  have wf: "dict_wf ?subs" using ok by (auto simp: subscribers_ok_def dict_get_or_def split: option.splits)
  have "filter (\<lambda>(s, _). s \<notin> set (map fst (filter (\<lambda>(sub, cb). \<not> accepts cb p) ?subs))) ?subs
      = filter (\<lambda>(sub, cb). accepts cb p) ?subs"
    using wf by (intro filter_cong refl) (force simp: dict_wf_def dest: eq_key_imp_eq_value)
  with assms(2) ok broadcast_ok [OF ok, of accepts tenant p] show ?thesis
    by (auto simp: broadcast_def Let_def unsubscribe_all_get subscribers_ok_def)
qed

theorem broadcast_spec_witness:
  "dict_get_or (snd (broadcast (\<lambda>cb _. cb = ''up'') ''t'' []
     (foldl subscriber_step [] [Subscribe ''t'' ''a'' ''up'', Subscribe ''t'' ''b'' ''down'']))) ''t'' []
   = [(''a'', ''up'')]"
proof -
  let ?ops = "[Subscribe ''t'' ''a'' ''up'', Subscribe ''t'' ''b'' ''down'']"
  obtain n ss' where b: "broadcast (\<lambda>cb _. cb = ''up'') ''t'' [] (foldl subscriber_step [] ?ops) = (n, ss')"
    by (cases "broadcast (\<lambda>cb _. cb = ''up'') ''t'' [] (foldl subscriber_step [] ?ops)")
  have "dict_get_or (foldl subscriber_step [] ?ops) ''t'' [] = [(''a'', ''up''), (''b'', ''down'')]"
    by (simp add: subscribe_def dict_get_or_def)
  with broadcast_spec [OF refl b] b show ?thesis by simp
qed

text \<open>
  the comment of \<open>truncate_dict\<close> promises a dictionary whose JSON text keeps to the limit, but
  one without long strings and without more than 20 entries in any nested value comes back whole,
  however large it is.
\<close>

theorem truncate_dict_unbounded:
  assumes "\<forall>(k, v) \<in> set data. \<exists>s. v = VStr s \<and> length s \<le> max_str_len"
  shows "truncate_dict json_size max_size max_str_len nested_str_len None data = data"
proof -
  have "map (\<lambda>(k, v). (k, truncate_value max_str_len nested_str_len v)) data = data"
    using assms by (intro map_idI) (auto simp: truncate_value_def cut_text_def)
  then show ?thesis by (simp add: truncate_dict_def)
qed

theorem truncate_dict_unbounded_witness:
  "truncate_dict (\<lambda>d. 100 * length d) 4096 256 128 None (replicate 50 (''k'', VStr ''value''))
     = replicate 50 (''k'', VStr ''value'')
   \<and> \<not> 100 * length (replicate 50 (''k'', VStr ''value'')) \<le> 4096"
  using truncate_dict_unbounded [of "replicate 50 (''k'', VStr ''value'')" 256] by simp

end
