(* ===== verification/Rule_Engine.thy ===== *)
theory Rule_Engine
  imports PRL_Evaluator Alerting
begin

text \<open>
  \<open>backend/engine/rule_engine.py\<close>: the rules in force, the evaluation of one event against them, the
  processing of an event from the broker and the alerts it creates. \<open>_shutdown_event\<close>, the consumer
  loop and the logging are not modelled; a call of the response layer is an entry of
  \<open>response_requests\<close>. What lies outside is the record \<open>outside\<close>.
\<close>

section \<open>The state of the engine\<close>

record compiled_rule =
  rule_id :: string
  rule_tenant :: "string option"
  rule_name :: string
  rule_severity :: string
  rule_attack_class :: "string option"
  prl_source :: string
  rule_ast :: node
  rule_enabled :: bool
  rule_version :: int
  match_count :: nat
  eval_count :: nat
  error_count :: nat
  last_matched_at :: "rat option"

record response_request =
  req_tenant :: string
  req_alert :: string
  req_agent :: "string option"
  req_severity :: string
  req_confidence :: py_float
  req_attack_class :: string
  req_event_type :: pval

record engine =
  rules :: "(string, compiled_rule) dict"
  builtins :: registry
  func_ctx :: function_context
  max_rules_per_event :: nat
  events_processed :: nat
  alerts_created :: nat
  eval_errors :: nat
  alert_table :: "alert list"
  alert_publisher :: "publisher option"
  response_requests :: "response_request list"

text \<open>
  The world outside: the runtime of the rule functions, JSON texts and their sizes, UUIDs (\<open>None\<close> for
  a text that is none), the numbers \<open>float\<close> reads from a text, new identifiers, the present time as a
  text, the database (\<open>opens\<close> a session, \<open>inserts\<close> an alert), the broker and the subscribers.
\<close>

record outside =
  runtime_of :: runtime
  json_loads :: "string \<Rightarrow> pval option"
  json_size :: "payload \<Rightarrow> nat"
  uuid_parse :: "string \<Rightarrow> string option"
  float_of_text :: "string \<Rightarrow> py_float option"
  new_id :: "nat \<Rightarrow> string"
  now_text :: string
  opens :: "string \<Rightarrow> bool"
  inserts :: "alert \<Rightarrow> bool"
  sends :: "string \<Rightarrow> payload \<Rightarrow> bool"
  accepts :: "string \<Rightarrow> payload \<Rightarrow> bool"

section \<open>The default allowlists\<close>

definition default_allowed_network_dests :: "string list" where
  "default_allowed_network_dests =
     [''api.openai.com'', ''api.anthropic.com'', ''generativelanguage.googleapis.com'',
      ''api.cohere.ai'', ''api.mistral.ai'', ''api.together.xyz'', ''api.replicate.com'',
      ''api.groq.com'', ''api.perplexity.ai'', ''api.deepseek.com'', ''api.x.ai'',
      ''api.fireworks.ai'', ''api.anyscale.com'', ''api.cerebras.ai'',
      ''inference.cerebras.ai'', ''api.sambanova.ai'', ''huggingface.co'',
      ''api-inference.huggingface.co'', ''cdn-lfs.huggingface.co'',
      ''cdn-lfs-us-1.huggingface.co'', ''ollama.com'', ''registry.ollama.ai'', ''civitai.com'',
      ''aiplatform.googleapis.com'', ''us-central1-aiplatform.googleapis.com'',
      ''europe-west1-aiplatform.googleapis.com'', ''asia-east1-aiplatform.googleapis.com'',
      ''openai.azure.com'', ''cognitiveservices.azure.com'',
      ''bedrock-runtime.us-east-1.amazonaws.com'', ''bedrock-runtime.us-west-2.amazonaws.com'',
      ''bedrock-runtime.eu-west-1.amazonaws.com'', ''bedrock.us-east-1.amazonaws.com'',
      ''api.smith.langchain.com'', ''api.langfuse.com'', ''api.wandb.ai'', ''api.comet.com'',
      ''api.helicone.ai'', ''otel.highlight.io'', ''api.github.com'', ''github.com'',
      ''gitlab.com'', ''pypi.org'', ''files.pythonhosted.org'', ''registry.npmjs.org'',
      ''www.npmjs.com'', ''registry.yarnpkg.com'', ''crates.io'', ''proxy.golang.org'',
      ''index.docker.io'', ''registry-1.docker.io'', ''ghcr.io'', ''mcr.microsoft.com'',
      ''www.googleapis.com'', ''storage.googleapis.com'', ''slack.com'', ''hooks.slack.com'',
      ''discord.com'', ''api.notion.com'', ''api.linear.app'', ''api.atlassian.com'']"

definition default_allowed_file_paths :: "string list" where
  "default_allowed_file_paths =
     [''/etc/ssl/certs/'', ''/etc/ssl/cert.pem'', ''/usr/share/ca-certificates/'',
      ''/usr/local/share/ca-certificates/'', ''/etc/pki/tls/certs/'',
      ''/etc/ca-certificates/'', ''/usr/lib/ssl/certs/'', ''/.ollama/'',
      ''/.cache/huggingface/'', ''/.cache/lm-studio/'', ''/.cache/torch/'',
      ''/.cache/whisper/'', ''/.local/share/nomic.ai/'', ''/.cache/vllm/'',
      ''/usr/lib/python'', ''/usr/local/lib/python'', ''/usr/lib/node_modules/'',
      ''/usr/share/zoneinfo/'', ''/etc/localtime'', ''/usr/share/locale/'']"

definition default_allowed_process_comms :: "string list" where
  "default_allowed_process_comms =
     [''ollama'', ''ollama-runner'', ''llama-server'', ''llama-cli'', ''llamacpp'', ''lms'',
      ''lmstudio-server'', ''vllm'', ''text-generation'', ''tritonserver'', ''localai'',
      ''python'', ''python3'', ''python3.10'', ''python3.11'', ''python3.12'', ''python3.13'',
      ''node'', ''pip'', ''pip3'', ''npm'', ''uv'']"

definition new_engine :: "registry \<Rightarrow> nat \<Rightarrow> publisher option \<Rightarrow> engine" where
  "new_engine reg max_rules pub =
     \<lparr>rules = [], builtins = reg,
      func_ctx = set_allowlist ''allowed_process_comms'' default_allowed_process_comms
        (set_allowlist ''allowed_file_paths'' default_allowed_file_paths
          (set_allowlist ''allowed_network_destinations'' default_allowed_network_dests empty_context)),
      max_rules_per_event = max_rules, events_processed = 0, alerts_created = 0, eval_errors = 0,
      alert_table = [], alert_publisher = pub, response_requests = []\<rparr>"

section \<open>The context of an event\<close>

text \<open>A dictionary whose only value is a dictionary is the wrapper of a protobuf payload.\<close>

definition unwrap_payload :: "pval \<Rightarrow> pval" where
  "unwrap_payload raw =
     (case raw of
        VDict [(key, VDict val)] \<Rightarrow> VDict (dict_set key (VDict val) val)
      | _ \<Rightarrow> raw)"

definition build_context :: "outside \<Rightarrow> payload \<Rightarrow> eval_context" where
  "build_context w event_data =
     (let text = (\<lambda>k. VStr (py_str (repr (runtime_of w)) (dict_get_or event_data k (VStr []))));
          raw = dict_get_or event_data ''raw_data'' (VDict []);
          parsed = (case raw of
                      VStr s \<Rightarrow> (if 1048576 < length s then VDict []
                                 else case json_loads w s of None \<Rightarrow> VDict [] | Some v \<Rightarrow> v)
                    | _ \<Rightarrow> raw)
      in [(''event'', VDict
            [(''type'', dict_get_or event_data ''event_type'' (VStr [])),
             (''severity'', dict_get_or event_data ''severity'' (VStr ''info'')),
             (''agent_id'', text ''agent_id''),
             (''sensor_id'', text ''sensor_id''),
             (''timestamp'', dict_get_or event_data ''timestamp'' (VStr [])),
             (''raw_data'', unwrap_payload parsed)])])"

section \<open>Evaluating an event\<close>

definition rule_applies :: "string option \<Rightarrow> compiled_rule \<Rightarrow> bool" where
  "rule_applies tenant_id rule \<longleftrightarrow>
     rule_enabled rule \<and>
     \<not> (rule_tenant rule \<noteq> None \<and> tenant_id \<noteq> None \<and> rule_tenant rule \<noteq> tenant_id)"

definition put_rule :: "compiled_rule \<Rightarrow> string \<Rightarrow> engine \<Rightarrow> engine" where
  "put_rule rule rid eng = eng\<lparr>rules := dict_set rid rule (rules eng)\<rparr>"

text \<open>
  The loop over the rules; \<open>matched\<close> holds the identifiers of those matched so far. An exception
  other than \<open>EvalError\<close> leaves the loop and the method.
\<close>

fun eval_rules :: "outside \<Rightarrow> eval_context \<Rightarrow> string option \<Rightarrow> string list \<Rightarrow> string list \<Rightarrow> engine \<Rightarrow>
    (eval_exn + string list) \<times> engine" where
  "eval_rules w ctx tenant_id [] matched eng = (Inr matched, eng)"
| "eval_rules w ctx tenant_id (rid # rids) matched eng =
     (case dict_get (rules eng) rid of
        None \<Rightarrow> eval_rules w ctx tenant_id rids matched eng
      | Some rule \<Rightarrow>
          if \<not> rule_applies tenant_id rule then eval_rules w ctx tenant_id rids matched eng
          else
            (case evaluate (builtins eng) (runtime_of w) (rule_ast rule) ctx (func_ctx eng) of
               (result, fc) \<Rightarrow>
                 (let rule1 = rule\<lparr>eval_count := eval_count rule + 1\<rparr>;
                      eng1 = put_rule rule1 rid (eng\<lparr>func_ctx := fc\<rparr>)
                  in case result of
                       Inr True \<Rightarrow>
                         (let eng2 = put_rule (rule1\<lparr>match_count := match_count rule1 + 1,
                                       last_matched_at := Some (clock (runtime_of w))\<rparr>) rid eng1;
                              matched' = matched @ [rid]
                          in if max_rules_per_event eng2 \<le> length matched' then (Inr matched', eng2)
                             else eval_rules w ctx tenant_id rids matched' eng2)
                     | Inr False \<Rightarrow> eval_rules w ctx tenant_id rids matched eng1
                     | Inl PyTypeError \<Rightarrow> (Inl PyTypeError, eng1)
                     | Inl (EvalError m l c) \<Rightarrow>
                         eval_rules w ctx tenant_id rids matched
                           ((put_rule (rule1\<lparr>error_count := error_count rule1 + 1\<rparr>) rid eng1)
                              \<lparr>eval_errors := eval_errors eng1 + 1\<rparr>))))"

definition evaluate_event :: "outside \<Rightarrow> payload \<Rightarrow> string option \<Rightarrow> engine \<Rightarrow>
    (eval_exn + string list) \<times> engine" where
  "evaluate_event w event_data tenant_id eng =
     eval_rules w (build_context w event_data) tenant_id (dict_keys (rules eng)) [] eng"

section \<open>Loading rules\<close>

text \<open>A row of the rules table, or the arguments of \<open>load_rule\<close>.\<close>

record db_rule =
  db_id :: string
  db_tenant :: "string option"
  db_name :: string
  db_severity :: string
  db_attack_class :: "string option"
  db_source :: string
  db_enabled :: bool
  db_version :: int

definition compile_rule :: "db_rule \<Rightarrow> parse_error + compiled_rule" where
  "compile_rule r =
     (case parse_prl (db_source r) of
        Inl e \<Rightarrow> Inl e
      | Inr ast \<Rightarrow> Inr
          \<lparr>rule_id = db_id r, rule_tenant = db_tenant r, rule_name = db_name r,
           rule_severity = db_severity r, rule_attack_class = db_attack_class r,
           prl_source = db_source r, rule_ast = ast, rule_enabled = db_enabled r,
           rule_version = db_version r, match_count = 0, eval_count = 0, error_count = 0,
           last_matched_at = None\<rparr>)"

definition load_rule :: "db_rule \<Rightarrow> engine \<Rightarrow> parse_error + engine" where
  "load_rule r eng =
     (case compile_rule r of
        Inl e \<Rightarrow> Inl e
      | Inr compiled \<Rightarrow> Inr (put_rule compiled (db_id r) eng))"

definition keep_counters :: "compiled_rule option \<Rightarrow> compiled_rule \<Rightarrow> compiled_rule" where
  "keep_counters existing compiled =
     (case existing of
        None \<Rightarrow> compiled
      | Some old \<Rightarrow> compiled\<lparr>match_count := match_count old, eval_count := eval_count old,
          error_count := error_count old, last_matched_at := last_matched_at old\<rparr>)"

fun compile_all :: "(string, compiled_rule) dict \<Rightarrow> db_rule list \<Rightarrow> (string, compiled_rule) dict \<Rightarrow>
    (string, compiled_rule) dict" where
  "compile_all old [] new = new"
| "compile_all old (r # rs) new =
     (case compile_rule r of
        Inl e \<Rightarrow> compile_all old rs new
      | Inr compiled \<Rightarrow>
          compile_all old rs (dict_set (db_id r) (keep_counters (dict_get old (db_id r)) compiled) new))"

text \<open>\<open>_load_rules\<close>: \<open>None\<close> is a database that cannot be read. The query selects the enabled rules.\<close>

definition load_rules :: "db_rule list option \<Rightarrow> engine \<Rightarrow> engine" where
  "load_rules table eng =
     (case table of
        None \<Rightarrow> eng
      | Some rows \<Rightarrow> eng\<lparr>rules := compile_all (rules eng) (filter db_enabled rows) []\<rparr>)"

section \<open>Creating alerts\<close>

definition create_alert_action :: "outside \<Rightarrow> string \<Rightarrow> string \<Rightarrow> compiled_rule \<Rightarrow> string option \<Rightarrow>
    string option \<Rightarrow> pval \<Rightarrow> payload \<Rightarrow> alert" where
  "create_alert_action w aid tenant rule event_id agent_id event_type event_data =
     \<lparr>alert_id = aid, alert_tenant = tenant, alert_agent = agent_id, alert_event = event_id,
      alert_rule = rule_id rule, alert_severity = rule_severity rule,
      alert_title = ''Rule matched: '' @ rule_name rule,
      alert_description = ''Rule '' @ [CHR 0x27] @ rule_name rule @ [CHR 0x27] @ '' triggered on ''
        @ py_str (repr (runtime_of w)) event_type @ '' event. Severity: '' @ rule_severity rule @ ''.'',
      alert_status = ''open'',
      alert_context = [(''event_type'', event_type), (''rule_name'', VStr (rule_name rule)),
        (''event_snapshot'', VDict (truncate_dict (json_size w) 4096 256 128 None event_data))]\<rparr>"

text \<open>\<open>float(event_data.get("confidence", ...))\<close>; \<open>None\<close> when it raises.\<close>

definition event_confidence :: "outside \<Rightarrow> payload \<Rightarrow> py_float option" where
  "event_confidence w event_data =
     (let v = dict_get_or event_data ''confidence''
                (dict_get_or event_data ''ml_confidence'' (VNum (NFloat (FFin 0))))
      in case v of VStr s \<Rightarrow> float_of_text w s | _ \<Rightarrow> as_number v)"

definition evaluate_auto_response :: "outside \<Rightarrow> alert \<Rightarrow> compiled_rule \<Rightarrow> payload \<Rightarrow> string \<Rightarrow>
    engine \<Rightarrow> engine" where
  "evaluate_auto_response w a rule event_data tenant eng =
     (case event_confidence w event_data of
        None \<Rightarrow> eng
      | Some confidence \<Rightarrow>
          eng\<lparr>response_requests := response_requests eng @
            [\<lparr>req_tenant = tenant, req_alert = alert_id a,
              req_agent = (case alert_agent a of Some [] \<Rightarrow> None | x \<Rightarrow> x),
              req_severity = (if rule_severity rule = [] then ''medium'' else rule_severity rule),
              req_confidence = confidence,
              req_attack_class = (case rule_attack_class rule of None \<Rightarrow> [] | Some c \<Rightarrow> c),
              req_event_type = dict_get_or event_data ''event_type'' (VStr ''unknown'')\<rparr>]\<rparr>)"

definition publish_engine_alert :: "outside \<Rightarrow> alert \<Rightarrow> compiled_rule \<Rightarrow> payload \<Rightarrow> string \<Rightarrow>
    engine \<Rightarrow> engine" where
  "publish_engine_alert w a rule event_data tenant eng =
     (case alert_publisher eng of
        None \<Rightarrow> eng
      | Some pub \<Rightarrow>
          (let p = build_alert_payload (json_size w) a (rule_name rule)
                     (case rule_attack_class rule of None \<Rightarrow> VNone | Some c \<Rightarrow> VStr c)
                     (dict_get_or event_data ''event_type'' (VStr ''unknown'')) event_data (now_text w)
           in eng\<lparr>alert_publisher := Some (publish_alert (sends w) (accepts w)
                (new_id w (length (kafka_log pub))) (now_text w) ''phantex.alerts'' p tenant pub)\<rparr>))"

text \<open>
  The body of the loop of \<open>_create_alerts\<close> for one rule. The agent identifier of an event is text;
  any other value that is not false makes the insertion fail.
\<close>

definition alert_for_rule :: "outside \<Rightarrow> string \<Rightarrow> string \<Rightarrow> payload \<Rightarrow> engine \<Rightarrow> string \<Rightarrow> engine" where
  "alert_for_rule w tenant tenant_uuid event_data eng rid =
     (case dict_get (rules eng) rid of
        None \<Rightarrow> eng
      | Some rule \<Rightarrow>
          (let event_id = (case dict_get_or event_data ''event_id'' VNone of
                             VStr s \<Rightarrow> if s = [] then None else uuid_parse w s | _ \<Rightarrow> None);
               agent = dict_get_or event_data ''agent_id'' VNone;
               agent_id = (case agent of VStr s \<Rightarrow> if s = [] then None else Some s | _ \<Rightarrow> None);
               a = create_alert_action w (new_id w (length (alert_table eng))) tenant_uuid rule event_id
                     agent_id (dict_get_or event_data ''event_type'' (VStr ''unknown'')) event_data
           in if truthy agent \<and> agent_id = None \<or> \<not> inserts w a then eng
              else evaluate_auto_response w a rule event_data tenant
                     (publish_engine_alert w a rule event_data tenant
                        (eng\<lparr>alert_table := alert_table eng @ [a],
                             alerts_created := alerts_created eng + 1\<rparr>))))"

definition create_alerts :: "outside \<Rightarrow> string list \<Rightarrow> payload \<Rightarrow> string \<Rightarrow> engine \<Rightarrow> engine" where
  "create_alerts w matched event_data tenant eng =
     (case uuid_parse w tenant of
        None \<Rightarrow> eng
      | Some tenant_uuid \<Rightarrow>
          if \<not> opens w tenant then eng
          else foldl (alert_for_rule w tenant tenant_uuid event_data) eng matched)"

section \<open>Processing an event\<close>

definition topic_tenant :: "string \<Rightarrow> string option" where
  "topic_tenant topic =
     (let parts = split_on (CHR ''.'') topic in if 3 \<le> length parts then Some (parts ! 2) else None)"

text \<open>The values \<open>count_distinct\<close> tracks: of the payload, its wrapper removed.\<close>

definition field_values :: "outside \<Rightarrow> payload \<Rightarrow> (string, string) dict" where
  "field_values w event_data =
     (let text = py_str (repr (runtime_of w));
          raw = dict_get_or event_data ''raw_data'' VNone
      in case (if truthy raw then raw else VDict []) of
           VDict d \<Rightarrow>
             (let r = (case d of [(_, VDict inner)] \<Rightarrow> inner | _ \<Rightarrow> d);
                  network = dict_get_or r ''network'' VNone;
                  entry = (\<lambda>k name. case dict_get r k of None \<Rightarrow> [] | Some v \<Rightarrow> [(name, text v)])
              in entry ''filename'' ''raw_data.filename'' @ entry ''tool_name'' ''raw_data.tool_name'' @
                 (case (if truthy network then network else VDict []) of
                    VDict n \<Rightarrow> (case dict_get n ''dst_addr'' of
                                 None \<Rightarrow> [] | Some v \<Rightarrow> [(''raw_data.network.dst_addr'', text v)])
                  | _ \<Rightarrow> []))
         | _ \<Rightarrow> [])"

definition process_event :: "outside \<Rightarrow> payload \<Rightarrow> string \<Rightarrow> engine \<Rightarrow> (eval_exn option) \<times> engine" where
  "process_event w event_data topic eng =
     (let event_type = dict_get_or event_data ''event_type'' (VStr ''unknown'');
          tenant_id = topic_tenant topic;
          fvs = field_values w event_data;
          fc = record_event (runtime_of w) (py_str (repr (runtime_of w)) event_type) None
                 (case tenant_id of None \<Rightarrow> VNone | Some t \<Rightarrow> VStr t)
                 (dict_get_or event_data ''agent_id'' VNone)
                 (if fvs = [] then None else Some fvs) (func_ctx eng);
          eng1 = eng\<lparr>events_processed := events_processed eng + 1, func_ctx := fc\<rparr>
      in case evaluate_event w event_data tenant_id eng1 of
           (Inl e, eng2) \<Rightarrow> (Some e, eng2)
         | (Inr matched, eng2) \<Rightarrow>
             (None, case tenant_id of
                      None \<Rightarrow> eng2
                    | Some t \<Rightarrow> if matched \<noteq> [] \<and> t \<noteq> [] then create_alerts w matched event_data t eng2
                               else eng2))"

text \<open>\<open>stats\<close>: events processed, alerts created, evaluation errors, rules loaded and enabled.\<close>

definition engine_stats :: "engine \<Rightarrow> nat \<times> nat \<times> nat \<times> nat \<times> nat" where
  "engine_stats eng =
     (events_processed eng, alerts_created eng, eval_errors eng, length (rules eng),
      length (filter rule_enabled (dict_values (rules eng))))"

end
