(* ===== verification/Rule_Engine_Props.thy ===== *)
theory Rule_Engine_Props
  imports Rule_Engine "HOL-Library.Sublist"
begin

text \<open>
  The rule engine: its invariant, which rules an event matches, whose alerts it creates, and what
  the sliding windows of the broker's path count.
\<close>

section \<open>The loop over the rules\<close>

text \<open>A rule without its counters.\<close>

definition rule_core :: "compiled_rule \<Rightarrow> compiled_rule" where
  "rule_core r = r\<lparr>match_count := 0, eval_count := 0, error_count := 0, last_matched_at := None\<rparr>"

definition same_rules :: "engine \<Rightarrow> engine \<Rightarrow> bool" where
  "same_rules eng eng' \<longleftrightarrow>
     dict_keys (rules eng') = dict_keys (rules eng)
     \<and> (\<forall>rid. map_option rule_core (dict_get (rules eng') rid) = map_option rule_core (dict_get (rules eng) rid))
     \<and> builtins eng' = builtins eng \<and> max_rules_per_event eng' = max_rules_per_event eng
     \<and> alert_table eng' = alert_table eng \<and> alert_publisher eng' = alert_publisher eng
     \<and> alerts_created eng' = alerts_created eng \<and> events_processed eng' = events_processed eng
     \<and> response_requests eng' = response_requests eng"

lemma same_rules_refl [simp, intro]: "same_rules eng eng"
  by (simp add: same_rules_def)

lemma same_rules_trans: "same_rules a b \<Longrightarrow> same_rules b c \<Longrightarrow> same_rules a c"
  by (simp add: same_rules_def)

lemma put_rule_same:
  assumes "dict_get (rules eng) rid = Some rule" and "rule_core rule' = rule_core rule"
  shows "same_rules eng ((put_rule rule' rid (eng\<lparr>func_ctx := fc\<rparr>))\<lparr>eval_errors := k\<rparr>)"
    and "same_rules eng (put_rule rule' rid (eng\<lparr>func_ctx := fc\<rparr>))"
proof -
  have k: "rid \<in> set (dict_keys (rules eng))"
    using assms(1) dict_get_None_iff by (metis option.distinct(1))
  show "same_rules eng ((put_rule rule' rid (eng\<lparr>func_ctx := fc\<rparr>))\<lparr>eval_errors := k\<rparr>)"
    and "same_rules eng (put_rule rule' rid (eng\<lparr>func_ctx := fc\<rparr>))"
    using assms by (simp_all add: same_rules_def put_rule_def dict_keys_set_mem [OF k] del: set_map)
qed

lemma put_rule_twice: "put_rule r2 rid (put_rule r1 rid eng) = put_rule r2 rid eng"
proof -
  have "dict_set rid r2 (dict_set rid r1 d) = dict_set rid r2 d" for d
    by (induction d) auto
  then show ?thesis by (simp add: put_rule_def)
qed

text \<open>One rule of the loop: the result of its evaluation and the engine with its counters updated.\<close>

definition rule_step :: "outside \<Rightarrow> eval_context \<Rightarrow> string \<Rightarrow> compiled_rule \<Rightarrow> engine \<Rightarrow>
    (eval_exn + bool) \<times> engine" where
  "rule_step w ctx rid rule eng =
     (case evaluate (builtins eng) (runtime_of w) (rule_ast rule) ctx (func_ctx eng) of
        (result, fc) \<Rightarrow>
          (result,
           case result of
             Inr True \<Rightarrow> put_rule (rule\<lparr>eval_count := eval_count rule + 1, match_count := match_count rule + 1,
                           last_matched_at := Some (clock (runtime_of w))\<rparr>) rid (eng\<lparr>func_ctx := fc\<rparr>)
           | Inl (EvalError m l c) \<Rightarrow>
               (put_rule (rule\<lparr>eval_count := eval_count rule + 1, error_count := error_count rule + 1\<rparr>) rid
                 (eng\<lparr>func_ctx := fc\<rparr>))\<lparr>eval_errors := eval_errors eng + 1\<rparr>
           | _ \<Rightarrow> put_rule (rule\<lparr>eval_count := eval_count rule + 1\<rparr>) rid (eng\<lparr>func_ctx := fc\<rparr>)))"

lemma rule_step_same:
  "dict_get (rules eng) rid = Some rule \<Longrightarrow> rule_step w ctx rid rule eng = (r, eng') \<Longrightarrow> same_rules eng eng'"
  by (auto simp: rule_step_def rule_core_def
      split: prod.splits sum.splits eval_exn.splits bool.splits intro!: put_rule_same)

lemma rule_step_context_ok:
  "context_ok (func_ctx eng) \<Longrightarrow> rule_step w ctx rid rule eng = (r, eng') \<Longrightarrow> context_ok (func_ctx eng')"
  using evaluate_keeps_context_ok [of "func_ctx eng" "builtins eng" "runtime_of w" "rule_ast rule" ctx]
  by (auto simp: rule_step_def put_rule_def split: prod.splits sum.splits eval_exn.splits bool.splits)

lemma eval_rules_Cons:
  "eval_rules w ctx t (rid # rids) matched eng =
     (case dict_get (rules eng) rid of
        None \<Rightarrow> eval_rules w ctx t rids matched eng
      | Some rule \<Rightarrow>
          if \<not> rule_applies t rule then eval_rules w ctx t rids matched eng
          else (case rule_step w ctx rid rule eng of
                  (Inl PyTypeError, eng') \<Rightarrow> (Inl PyTypeError, eng')
                | (Inr True, eng') \<Rightarrow>
                    if max_rules_per_event eng' \<le> length (matched @ [rid]) then (Inr (matched @ [rid]), eng')
                    else eval_rules w ctx t rids (matched @ [rid]) eng'
                | (_, eng') \<Rightarrow> eval_rules w ctx t rids matched eng'))"
  by (auto simp: rule_step_def put_rule_twice Let_def
      split: option.splits prod.splits sum.splits eval_exn.splits bool.splits)
    (auto simp: put_rule_def)

declare eval_rules.simps(2) [simp del]

lemmas eval_rules_splits = option.splits prod.splits sum.splits eval_exn.splits bool.splits if_splits

lemma eval_rules_inv:
  "eval_rules w ctx t rids matched eng = (r, eng') \<Longrightarrow> context_ok (func_ctx eng) \<Longrightarrow>
     same_rules eng eng' \<and> context_ok (func_ctx eng')"
proof (induction rids arbitrary: matched eng)
  case (Cons rid rids)
  show ?case
  proof (cases "dict_get (rules eng) rid")
    case None
    with Cons show ?thesis by (simp add: eval_rules_Cons)
  next
    case (Some rule)
    obtain x eng1 where step: "rule_step w ctx rid rule eng = (x, eng1)" by (cases "rule_step w ctx rid rule eng")
    note eng1 = rule_step_same [OF Some step] rule_step_context_ok [OF Cons.prems(2) step]
    from Cons.prems(1) Some step consider "eval_rules w ctx t rids matched eng = (r, eng')"
      | m where "eval_rules w ctx t rids m eng1 = (r, eng')" | "eng' = eng1"
      by (auto simp: eval_rules_Cons split: eval_rules_splits)
    then show ?thesis
      using Cons.IH [OF _ Cons.prems(2)] Cons.IH [OF _ eng1(2)] eng1 same_rules_trans by cases blast+
  qed
qed auto

lemma rule_applies_core: "rule_core a = rule_core b \<Longrightarrow> rule_applies t a = rule_applies t b"
  by (cases a; cases b) (simp add: rule_core_def rule_applies_def)

lemma rule_ast_core: "rule_core a = rule_core b \<Longrightarrow> rule_ast a = rule_ast b"
  by (cases a; cases b) (simp add: rule_core_def)

lemma same_rules_get:
  assumes "same_rules eng eng'" and "dict_get (rules eng') rid = Some rule'"
  shows "\<exists>rule. dict_get (rules eng) rid = Some rule \<and> rule_core rule' = rule_core rule"
  using assms by (auto simp: same_rules_def) (metis (no_types, lifting) map_option_eq_Some option.map(2))

definition visible :: "string option \<Rightarrow> engine \<Rightarrow> string \<Rightarrow> bool" where
  "visible t eng rid \<longleftrightarrow> (\<exists>rule. dict_get (rules eng) rid = Some rule \<and> rule_applies t rule)"

lemma visible_same: "same_rules eng eng' \<Longrightarrow> visible t eng' rid \<Longrightarrow> visible t eng rid"
  unfolding visible_def using same_rules_get rule_applies_core by metis

lemma eval_rules_matched:
  "eval_rules w ctx t rids matched eng = (Inr m, eng') \<Longrightarrow>
     length matched < max_rules_per_event eng \<Longrightarrow>
     \<exists>new. m = matched @ new \<and> subseq new rids \<and> list_all (visible t eng) new
       \<and> length m \<le> max_rules_per_event eng"
proof (induction rids arbitrary: matched eng)
  case (Cons rid rids)
  have skip: ?case if e: "eval_rules w ctx t rids matched eng1 = (Inr m, eng')" and s: "same_rules eng eng1" for eng1
  proof -
    have "length matched < max_rules_per_event eng1" using Cons.prems(2) s by (simp add: same_rules_def)
    from Cons.IH [OF e this] s show ?thesis
      by (auto simp: list_all_iff same_rules_def dest: visible_same [OF s])
  qed
  show ?case
  proof (cases "dict_get (rules eng) rid")
    case None
    with Cons.prems(1) skip show ?thesis by (auto simp: eval_rules_Cons)
  next
    case (Some rule)
    obtain x eng1 where step: "rule_step w ctx rid rule eng = (x, eng1)" by (cases "rule_step w ctx rid rule eng")
    note s = rule_step_same [OF Some step]
    show ?thesis
    proof (cases "rule_applies t rule \<and> x = Inr True")
      case True
      then have v: "visible t eng rid" using Some by (auto simp: visible_def)
      show ?thesis
      proof (cases "max_rules_per_event eng1 \<le> length (matched @ [rid])")
        case full: True
        with Cons.prems True Some step s v show ?thesis
          by (intro exI [of _ "[rid]"]) (auto simp: eval_rules_Cons same_rules_def)
      next
        case False
        with Cons.prems(1) True Some step have e: "eval_rules w ctx t rids (matched @ [rid]) eng1 = (Inr m, eng')"
          by (simp add: eval_rules_Cons)
        from Cons.IH [OF e] False obtain new where "m = (matched @ [rid]) @ new" "subseq new rids"
          "list_all (visible t eng1) new" "length m \<le> max_rules_per_event eng1" by auto
        with s v visible_same [OF s] show ?thesis
          by (intro exI [of _ "rid # new"]) (auto simp: list_all_iff same_rules_def)
      qed
    next
      case False
      with Cons.prems(1) Some step skip [of eng] skip [OF _ s] show ?thesis
        by (auto simp: eval_rules_Cons split: eval_rules_splits)
    qed
  qed
qed simp

text \<open>
  What the rules say of an event, one after the other: each is evaluated in the tables of the rule functions as the
  ones before it left them. A verdict is a truth value or an exception.
\<close>

fun rule_verdicts :: "registry \<Rightarrow> runtime \<Rightarrow> eval_context \<Rightarrow> (string \<times> compiled_rule) list \<Rightarrow> function_context \<Rightarrow>
    (string \<times> (eval_exn + bool)) list" where
  "rule_verdicts reg rt ctx [] fc = []"
| "rule_verdicts reg rt ctx ((rid, rule) # rs) fc =
     (rid, fst (evaluate reg rt (rule_ast rule) ctx fc)) # rule_verdicts reg rt ctx rs (snd (evaluate reg rt (rule_ast rule) ctx fc))"

text \<open>The rules that an event of the tenant concerns: enabled, and of that tenant or of no tenant.\<close>

definition in_scope :: "string option \<Rightarrow> compiled_rule \<Rightarrow> bool" where
  "in_scope t rule \<longleftrightarrow> rule_enabled rule \<and> (rule_tenant rule = None \<or> t = None \<or> rule_tenant rule = t)"

definition event_verdicts :: "outside \<Rightarrow> eval_context \<Rightarrow> string option \<Rightarrow> engine \<Rightarrow> (string \<times> (eval_exn + bool)) list" where
  "event_verdicts w ctx t eng =
     rule_verdicts (builtins eng) (runtime_of w) ctx (filter (\<lambda>(rid, rule). in_scope t rule) (rules eng)) (func_ctx eng)"

definition until_type_error :: "(string \<times> (eval_exn + bool)) list \<Rightarrow> (string \<times> (eval_exn + bool)) list" where
  "until_type_error vs = takeWhile (\<lambda>(rid, v). v \<noteq> Inl PyTypeError) vs"

definition matches_in :: "(string \<times> (eval_exn + bool)) list \<Rightarrow> string list" where
  "matches_in vs = map fst (filter (\<lambda>(rid, v). v = Inr True) vs)"

lemma until_type_error_Cons [simp]:
  "until_type_error ((rid, v) # vs) = (if v = Inl PyTypeError then [] else (rid, v) # until_type_error vs)"
  by (simp add: until_type_error_def)

lemma matches_in_Cons [simp]: "matches_in ((rid, v) # vs) = (if v = Inr True then rid # matches_in vs else matches_in vs)"
  by (simp add: matches_in_def)

lemma verdicts_Nil [simp]: "until_type_error [] = []" "matches_in [] = []"
  by (simp_all add: until_type_error_def matches_in_def)

text \<open>The loop from any point on, with \<open>limit\<close> matches at most.\<close>

definition outcome :: "nat \<Rightarrow> string list \<Rightarrow> (string \<times> (eval_exn + bool)) list \<Rightarrow> eval_exn + string list" where
  "outcome limit matched vs =
     (if length matched + length (matches_in (until_type_error vs)) < limit \<and> until_type_error vs \<noteq> vs then Inl PyTypeError
      else Inr (take limit (matched @ matches_in (until_type_error vs))))"

definition known_rules :: "(string \<times> compiled_rule) list \<Rightarrow> engine \<Rightarrow> bool" where
  "known_rules items eng \<longleftrightarrow>
     (\<forall>(rid, rule) \<in> set items. map_option rule_core (dict_get (rules eng) rid) = Some (rule_core rule))"

lemma known_same: "same_rules eng eng' \<Longrightarrow> known_rules items eng \<Longrightarrow> known_rules items eng'"
  by (simp add: known_rules_def same_rules_def)

lemma rule_applies_scope: "rule_applies t rule = in_scope t rule"
  by (auto simp: rule_applies_def in_scope_def)

lemma rule_step_context:
  "rule_step w ctx rid rule eng = (x, eng1) \<Longrightarrow>
     x = fst (evaluate (builtins eng) (runtime_of w) (rule_ast rule) ctx (func_ctx eng)) \<and>
     func_ctx eng1 = snd (evaluate (builtins eng) (runtime_of w) (rule_ast rule) ctx (func_ctx eng))"
  by (auto simp: rule_step_def put_rule_def split: prod.splits sum.splits eval_exn.splits bool.splits)

lemma eval_rules_outcome:
  "known_rules items eng \<Longrightarrow> length matched < max 1 (max_rules_per_event eng) \<Longrightarrow>
     fst (eval_rules w ctx t (map fst items) matched eng) =
       outcome (max 1 (max_rules_per_event eng)) matched
         (rule_verdicts (builtins eng) (runtime_of w) ctx (filter (\<lambda>(rid, rule). in_scope t rule) items) (func_ctx eng))"
proof (induction items arbitrary: matched eng)
  case Nil
  then show ?case by (simp add: outcome_def)
next
  case (Cons p items)
  obtain rid rule0 where p: "p = (rid, rule0)" by (cases p)
  from Cons.prems(1) obtain rule where rule: "dict_get (rules eng) rid = Some rule" "rule_core rule = rule_core rule0"
    by (auto simp: known_rules_def p)
  have items: "known_rules items eng" using Cons.prems(1) by (simp add: known_rules_def)
  have scope: "rule_applies t rule = in_scope t rule0" "rule_ast rule0 = rule_ast rule"
    using rule_applies_core [OF rule(2)] rule_ast_core [OF rule(2)] by (simp_all add: rule_applies_scope)
  show ?case
  proof (cases "in_scope t rule0")
    case False
    with Cons.IH [OF items Cons.prems(2)] rule scope show ?thesis by (simp add: p eval_rules_Cons)
  next
    case True
    obtain x eng1 where step: "rule_step w ctx rid rule eng = (x, eng1)" by (cases "rule_step w ctx rid rule eng")
    note s = rule_step_same [OF rule(1) step]
    have same: "builtins eng1 = builtins eng" "max_rules_per_event eng1 = max_rules_per_event eng"
      using s by (simp_all add: same_rules_def)
    note IH = Cons.IH [OF known_same [OF s items], unfolded same]
    have v: "rule_verdicts (builtins eng) (runtime_of w) ctx (filter (\<lambda>(rid, rule). in_scope t rule) (p # items)) (func_ctx eng) =
        (rid, x) # rule_verdicts (builtins eng) (runtime_of w) ctx (filter (\<lambda>(rid, rule). in_scope t rule) items) (func_ctx eng1)"
      using True scope rule_step_context [OF step] by (simp add: p)
    consider "x = Inl PyTypeError" | m l c where "x = Inl (EvalError m l c)" | "x = Inr False"
      | "x = Inr True" "max_rules_per_event eng \<le> Suc (length matched)" | "x = Inr True" "Suc (length matched) < max_rules_per_event eng"
      by (metis eval_exn.exhaust not_le sumE)
    then show ?thesis
    proof cases
      case 1
      with rule True scope step Cons.prems(2) show ?thesis unfolding v by (simp add: p eval_rules_Cons outcome_def)
    next
      case 2
      with rule True scope step IH [OF Cons.prems(2)] show ?thesis
        unfolding v by (simp add: p eval_rules_Cons outcome_def)
    next
      case 3
      with rule True scope step IH [OF Cons.prems(2)] show ?thesis
        unfolding v by (simp add: p eval_rules_Cons outcome_def)
    next
      case 4
      with Cons.prems(2) have "max 1 (max_rules_per_event eng) = Suc (length matched)" by simp
      with 4 rule True scope step same show ?thesis unfolding v by (simp add: p eval_rules_Cons outcome_def)
    next
      case 5
      then have "length (matched @ [rid]) < max 1 (max_rules_per_event eng)" by simp
      from IH [OF this] 5 rule True scope step same show ?thesis
        unfolding v by (simp add: p eval_rules_Cons outcome_def)
    qed
  qed
qed

section \<open>The invariant of the engine\<close>

definition sourced :: "string \<Rightarrow> compiled_rule \<Rightarrow> bool" where
  "sourced rid rule \<longleftrightarrow> rule_id rule = rid \<and> parse_prl (prl_source rule) = Inr (rule_ast rule)"

definition engine_ok :: "engine \<Rightarrow> bool" where
  "engine_ok eng \<longleftrightarrow>
     context_ok (func_ctx eng) \<and> dict_wf (rules eng)
     \<and> (\<forall>rid rule. dict_get (rules eng) rid = Some rule \<longrightarrow> sourced rid rule)
     \<and> alerts_created eng = length (alert_table eng)"

lemma engine_ok_new [simp]: "engine_ok (new_engine reg n pub)"
  by (auto simp: engine_ok_def new_engine_def intro: inv_intros)

lemma rule_source_core:
  "rule_core a = rule_core b \<Longrightarrow> rule_id a = rule_id b \<and> prl_source a = prl_source b \<and> rule_ast a = rule_ast b
     \<and> rule_tenant a = rule_tenant b \<and> rule_severity a = rule_severity b"
  by (cases a; cases b) (simp add: rule_core_def)

lemma same_rules_ok:
  assumes s: "same_rules eng eng'" and ok: "engine_ok eng" "context_ok (func_ctx eng')"
  shows "engine_ok eng'"
proof -
  have "sourced rid rule'"
    if "dict_get (rules eng') rid = Some rule'" for rid rule'
  proof -
    from same_rules_get [OF s that] obtain rule where
      "dict_get (rules eng) rid = Some rule" "rule_core rule' = rule_core rule" by blast
    with ok(1) rule_source_core [of rule' rule] show ?thesis by (auto simp: engine_ok_def sourced_def)
  qed
  moreover have "alerts_created eng' = length (alert_table eng')"
    using s ok(1) by (simp add: same_rules_def engine_ok_def)
  moreover have "dict_wf (rules eng')"
    using s ok(1) by (simp add: same_rules_def engine_ok_def dict_wf_def)
  ultimately show ?thesis using ok(2) by (simp add: engine_ok_def)
qed

lemma evaluate_event_same:
  assumes "evaluate_event w ev t eng = (r, eng')" and "context_ok (func_ctx eng)"
  shows "same_rules eng eng' \<and> context_ok (func_ctx eng')"
  using eval_rules_inv [OF assms(1) [unfolded evaluate_event_def] assms(2)] .

lemma compile_rule_ok: "compile_rule r = Inr c \<Longrightarrow> sourced (db_id r) c"
  by (auto simp: compile_rule_def sourced_def split: sum.splits)

lemma sourced_core: "rule_core a = rule_core b \<Longrightarrow> sourced rid a = sourced rid b"
  using rule_source_core [of a b] by (simp add: sourced_def)

lemma keep_counters_core: "rule_core (keep_counters old c) = rule_core c"
  by (cases old) (simp_all add: keep_counters_def rule_core_def)

lemma compile_all_wf: "dict_wf new \<Longrightarrow> dict_wf (compile_all old rs new)"
  by (induction old rs new rule: compile_all.induct) (auto split: sum.split)

lemma compile_all_ok:
  "\<forall>rid rule. dict_get new rid = Some rule \<longrightarrow> sourced rid rule \<Longrightarrow>
     dict_get (compile_all old rs new) rid = Some rule \<Longrightarrow> sourced rid rule"
proof (induction old rs new rule: compile_all.induct)
  case (2 old r rs new)
  show ?case
  proof (cases "compile_rule r")
    case (Inl e)
    with 2 show ?thesis by simp
  next
    case (Inr c)
    have "sourced (db_id r) (keep_counters (dict_get old (db_id r)) c)"
      using sourced_core [OF keep_counters_core] compile_rule_ok [OF Inr] by blast
    with 2(2) [OF Inr] 2(3,4) Inr show ?thesis by simp
  qed
qed simp

lemma load_rules_ok [inv_intros]:
  assumes "engine_ok eng"
  shows "engine_ok (load_rules table eng)"
proof (cases table)
  case (Some rows)
  have "sourced rid rule" if "dict_get (compile_all (rules eng) (filter db_enabled rows) []) rid = Some rule" for rid rule
    by (rule compile_all_ok [OF _ that]) simp
  with assms Some show ?thesis by (simp add: load_rules_def engine_ok_def compile_all_wf)
qed (use assms in \<open>simp add: load_rules_def\<close>)

lemma load_rule_ok [inv_intros]:
  assumes "engine_ok eng" and "load_rule r eng = Inr eng'"
  shows "engine_ok eng'"
proof -
  from assms(2) obtain c where c: "compile_rule r = Inr c" "eng' = put_rule c (db_id r) eng"
    by (auto simp: load_rule_def split: sum.splits)
  with assms(1) compile_rule_ok [OF c(1)] show ?thesis
    by (simp add: put_rule_def engine_ok_def)
qed

lemma publish_engine_alert_fields [simp]:
  "rules (publish_engine_alert w a r ev t eng) = rules eng"
  "func_ctx (publish_engine_alert w a r ev t eng) = func_ctx eng"
  "alert_table (publish_engine_alert w a r ev t eng) = alert_table eng"
  "alerts_created (publish_engine_alert w a r ev t eng) = alerts_created eng"
  by (simp_all add: publish_engine_alert_def Let_def split: option.splits)

lemma evaluate_auto_response_fields [simp]:
  "rules (evaluate_auto_response w a r ev t eng) = rules eng"
  "func_ctx (evaluate_auto_response w a r ev t eng) = func_ctx eng"
  "alert_table (evaluate_auto_response w a r ev t eng) = alert_table eng"
  "alerts_created (evaluate_auto_response w a r ev t eng) = alerts_created eng"
  by (simp_all add: evaluate_auto_response_def split: option.splits)

text \<open>An alert that the engine may add for an event: of a rule in force, under the event's tenant.\<close>

definition alert_of :: "string \<Rightarrow> engine \<Rightarrow> string list \<Rightarrow> alert \<Rightarrow> bool" where
  "alert_of tenant_uuid eng rids a \<longleftrightarrow>
     alert_tenant a = tenant_uuid \<and>
     (\<exists>rid \<in> set rids. \<exists>rule. dict_get (rules eng) rid = Some rule \<and> alert_rule a = rule_id rule
        \<and> alert_severity a = rule_severity rule)"

lemma alert_for_rule_spec:
  "rules (alert_for_rule w t u ev eng rid) = rules eng"
  "func_ctx (alert_for_rule w t u ev eng rid) = func_ctx eng"
  "alerts_created (alert_for_rule w t u ev eng rid) + length (alert_table eng)
     = alerts_created eng + length (alert_table (alert_for_rule w t u ev eng rid))"
  "\<exists>new. alert_table (alert_for_rule w t u ev eng rid) = alert_table eng @ new \<and> length new \<le> 1
     \<and> list_all (alert_of u eng [rid]) new"
  by (auto simp: alert_for_rule_def Let_def alert_of_def create_alert_action_def split: option.splits)

lemma create_loop_spec:
  "rules (foldl (alert_for_rule w t u ev) eng rids) = rules eng
   \<and> func_ctx (foldl (alert_for_rule w t u ev) eng rids) = func_ctx eng
   \<and> alerts_created (foldl (alert_for_rule w t u ev) eng rids) + length (alert_table eng)
       = alerts_created eng + length (alert_table (foldl (alert_for_rule w t u ev) eng rids))
   \<and> (\<exists>new. alert_table (foldl (alert_for_rule w t u ev) eng rids) = alert_table eng @ new
        \<and> length new \<le> length rids \<and> list_all (alert_of u eng rids) new)"
proof (induction rids arbitrary: eng)
  case (Cons rid rids)
  let ?eng1 = "alert_for_rule w t u ev eng rid"
  note one = alert_for_rule_spec [of w t u ev eng rid]
  from one(4) obtain n1 where n1: "alert_table ?eng1 = alert_table eng @ n1" "length n1 \<le> 1"
    "list_all (alert_of u eng [rid]) n1" by blast
  from Cons [of ?eng1] obtain n2 where n2:
    "alert_table (foldl (alert_for_rule w t u ev) ?eng1 rids) = alert_table ?eng1 @ n2"
    "length n2 \<le> length rids" "list_all (alert_of u ?eng1 rids) n2" by blast
  have "list_all (alert_of u eng (rid # rids)) (n1 @ n2)"
    using n1(3) n2(3) one(1) by (auto simp: list_all_iff alert_of_def)
  with n1 n2 one Cons [of ?eng1] show ?case by auto
qed simp

lemma create_alerts_spec:
  assumes "uuid_parse w t = Some u"
  shows "rules (create_alerts w rids ev t eng) = rules eng
   \<and> func_ctx (create_alerts w rids ev t eng) = func_ctx eng
   \<and> alerts_created (create_alerts w rids ev t eng) + length (alert_table eng)
       = alerts_created eng + length (alert_table (create_alerts w rids ev t eng))
   \<and> (\<exists>new. alert_table (create_alerts w rids ev t eng) = alert_table eng @ new
        \<and> length new \<le> length rids \<and> list_all (alert_of u eng rids) new)"
  using assms create_loop_spec [of w t u ev eng rids] by (simp add: create_alerts_def)

lemma visible_tenant:
  "visible (Some t) eng rid \<Longrightarrow> \<exists>rule. dict_get (rules eng) rid = Some rule \<and> rule_enabled rule
     \<and> (rule_tenant rule = None \<or> rule_tenant rule = Some t)"
  by (auto simp: visible_def rule_applies_def)

text \<open>\<open>alert_from eng t u a\<close>: the alert \<open>a\<close> is one of tenant \<open>u\<close> by a rule that applies to events of \<open>t\<close>.\<close>

definition alert_from :: "engine \<Rightarrow> string \<Rightarrow> string \<Rightarrow> alert \<Rightarrow> bool" where
  "alert_from eng t u a \<longleftrightarrow> alert_tenant a = u \<and>
     (\<exists>rule. dict_get (rules eng) (alert_rule a) = Some rule \<and> rule_enabled rule
        \<and> (rule_tenant rule = None \<or> rule_tenant rule = Some t) \<and> alert_severity a = rule_severity rule)"

definition processed :: "engine \<Rightarrow> outside \<Rightarrow> string \<Rightarrow> eval_exn option \<Rightarrow> engine \<Rightarrow> bool" where
  "processed eng w topic x eng' \<longleftrightarrow> engine_ok eng' \<and>
     (\<exists>new. alert_table eng' = alert_table eng @ new \<and>
        (new \<noteq> [] \<longrightarrow> x = None \<and>
          (\<exists>t u. topic_tenant topic = Some t \<and> uuid_parse w t = Some u
             \<and> (0 < max_rules_per_event eng \<longrightarrow>
                  length new \<le> max_rules_per_event eng \<and> list_all (alert_from eng t u) new))))"

lemma process_event_spec:
  assumes ok: "engine_ok eng" and p: "process_event w ev topic eng = (x, eng')"
  shows "processed eng w topic x eng'"
proof -
  define eng1 where "eng1 = eng\<lparr>events_processed := events_processed eng + 1,
    func_ctx := record_event (runtime_of w)
      (py_str (repr (runtime_of w)) (dict_get_or ev ''event_type'' (VStr ''unknown''))) None
      (case topic_tenant topic of None \<Rightarrow> VNone | Some t \<Rightarrow> VStr t) (dict_get_or ev ''agent_id'' VNone)
      (if field_values w ev = [] then None else Some (field_values w ev)) (func_ctx eng)\<rparr>"
  have ok1: "engine_ok eng1" and same1: "rules eng1 = rules eng" "alert_table eng1 = alert_table eng"
      "max_rules_per_event eng1 = max_rules_per_event eng"
    using ok by (auto simp: eng1_def engine_ok_def intro: inv_intros)
  obtain r eng2 where e: "evaluate_event w ev (topic_tenant topic) eng1 = (r, eng2)"
    by (cases "evaluate_event w ev (topic_tenant topic) eng1")
  from evaluate_event_same [OF e] ok1 have same2: "same_rules eng1 eng2" and ok2: "engine_ok eng2"
    using same_rules_ok by (auto simp: engine_ok_def)
  have table2: "alert_table eng2 = alert_table eng" using same2 same1 by (simp add: same_rules_def)
  show ?thesis
  proof (cases "\<exists>m t u. r = Inr m \<and> topic_tenant topic = Some t \<and> uuid_parse w t = Some u \<and> m \<noteq> [] \<and> t \<noteq> []")
    case True
    then obtain m t u where m: "r = Inr m" "topic_tenant topic = Some t" "uuid_parse w t = Some u" "m \<noteq> []" "t \<noteq> []"
      by blast
    with p e have eng': "x = None" "eng' = create_alerts w m ev t eng2"
      by (auto simp: process_event_def Let_def eng1_def split: prod.splits)
    from create_alerts_spec [OF m(3), of m ev eng2] obtain new where new:
      "rules eng' = rules eng2" "func_ctx eng' = func_ctx eng2"
      "alerts_created eng' + length (alert_table eng2) = alerts_created eng2 + length (alert_table eng')"
      "alert_table eng' = alert_table eng2 @ new" "length new \<le> length m" "list_all (alert_of u eng2 m) new"
      unfolding eng'(2) by blast
    have ok': "engine_ok eng'" using ok2 new(1,2,3) by (simp add: engine_ok_def)
    have "length new \<le> max_rules_per_event eng \<and> list_all (alert_from eng t u) new"
      if "0 < max_rules_per_event eng"
    proof -
      from eval_rules_matched [of w "build_context w ev" "Some t" "dict_keys (rules eng1)" "[]" eng1 m eng2]
        e m(1,2) same1 that
      have vis: "list_all (visible (Some t) eng) m" and len: "length m \<le> max_rules_per_event eng"
        by (auto simp: evaluate_event_def visible_def [abs_def])
      have "alert_from eng t u a" if a: "a \<in> set new" for a
      proof -
        from new(6) a obtain rid rule2 where r2: "rid \<in> set m" "dict_get (rules eng2) rid = Some rule2"
          "alert_tenant a = u" "alert_rule a = rule_id rule2" "alert_severity a = rule_severity rule2"
          by (auto simp: list_all_iff alert_of_def)
        from same_rules_get [OF same2 r2(2)] same1 obtain rule where
          r: "dict_get (rules eng) rid = Some rule" "rule_core rule2 = rule_core rule" by auto
        from ok r(1) have "rule_id rule = rid" by (simp add: engine_ok_def sourced_def)
        with r r2 rule_source_core [OF r(2)] vis show ?thesis
          by (auto simp: alert_from_def list_all_iff dest!: visible_tenant)
      qed
      with new(5) len show ?thesis by (simp add: list_all_iff)
    qed
    with ok' new(4) table2 m eng'(1) show ?thesis by (auto simp: processed_def)
  next
    case False
    with p e have "eng' = eng2"
      by (auto simp: process_event_def Let_def eng1_def create_alerts_def
          split: prod.splits sum.splits option.splits if_splits)
    with ok2 table2 show ?thesis by (simp add: processed_def)
  qed
qed

datatype engine_op = Process outside payload string | Load db_rule | Reload "db_rule list option"

fun engine_step :: "engine \<Rightarrow> engine_op \<Rightarrow> engine" where
  "engine_step eng (Process w ev topic) = snd (process_event w ev topic eng)"
| "engine_step eng (Load r) = (case load_rule r eng of Inl e \<Rightarrow> eng | Inr eng' \<Rightarrow> eng')"
| "engine_step eng (Reload table) = load_rules table eng"

interpretation engine: logged_machine engine_step engine_ok alert_table
proof
  fix eng c assume ok: "engine_ok eng"
  have p: "processed eng w topic (fst (process_event w ev topic eng)) (snd (process_event w ev topic eng))" for w ev topic
    by (rule process_event_spec [OF ok]) simp
  show "engine_ok (engine_step eng c)"
    using p ok by (cases c) (auto simp: processed_def intro: inv_intros split: sum.splits)
  show "\<exists>new. alert_table (engine_step eng c) = alert_table eng @ new"
  proof (cases c)
    case (Process w ev topic)
    with p [of w topic ev] show ?thesis by (auto simp: processed_def)
  qed (auto simp: load_rules_def load_rule_def put_rule_def split: sum.splits option.splits)
qed

section \<open>What the windows of the broker's path count\<close>

text \<open>No window of the tenant \<open>None\<close>, which is the key the context of an event leads to.\<close>

definition no_global_window :: "runtime \<Rightarrow> function_context \<Rightarrow> bool" where
  "no_global_window rt fc \<longleftrightarrow> (\<forall>e a. dict_get (event_windows fc) (window_key rt e VNone a) = None)"

lemma window_key_global:
  assumes "t \<noteq> []" "t \<noteq> ''global''" "CHR '':'' \<notin> set t"
  shows "window_key rt e VNone a \<noteq> window_key rt' e' (VStr t) a'"
proof
  assume "window_key rt e VNone a = window_key rt' e' (VStr t) a'"
  with assms colon_join_first [of "''global''" _ t] show False
    by (auto simp: window_key_def Let_def)
qed

lemma record_no_global:
  "no_global_window rt fc \<Longrightarrow> t \<noteq> [] \<Longrightarrow> t \<noteq> ''global'' \<Longrightarrow> CHR '':'' \<notin> set t \<Longrightarrow>
     no_global_window rt (record_event rt e ts (VStr t) a fvs fc)"
  using window_key_global by (simp add: no_global_window_def record_event_def Let_def)

lemma count_no_global:
  "no_global_window rt fc \<Longrightarrow> count_in_window rt e w VNone a fc = (0, fc)"
  by (simp add: count_in_window_def no_global_window_def Let_def)

lemma count_distinct_windows:
  "event_windows (snd (count_distinct_in_window rt e p w t a fc)) = event_windows fc"
  by (simp add: count_distinct_in_window_def Let_def split: option.splits)

lemma call_no_global:
  assumes "no_global_window rt fc" and t: "context_tenant ctx = VNone"
  shows "no_global_window rt (snd (registry_call reg rt name args ctx fc))"
proof -
  have "event_windows (snd (registry_call reg rt name args ctx fc)) = event_windows fc"
    using count_no_global [OF assms(1)] count_distinct_windows
    by (auto simp: registry_call_def fn_contains_def fn_time_since_def fn_in_allowlist_def t
        fn_trust_score_state fn_count_def fn_count_distinct_def fn_regex_match_def Let_def
        split: option.splits builtin.splits prod.splits) (metis snd_conv)+
  with assms(1) show ?thesis by (simp add: no_global_window_def)
qed

lemma eval_no_global:
  "no_global_window rt fc \<Longrightarrow> context_tenant ctx = VNone \<Longrightarrow> no_global_window rt (snd (eval_node reg rt ctx n fc))"
  "no_global_window rt fc \<Longrightarrow> context_tenant ctx = VNone \<Longrightarrow> no_global_window rt (snd (eval_nodes reg rt ctx ns fc))"
proof (induction reg rt ctx n fc and reg rt ctx ns fc rule: eval_node_eval_nodes.induct)
  case (10 reg rt ctx l c name args fc)
  have "no_global_window rt fc2" if "no_global_window rt fc1" "registry_call reg rt name vs ctx fc1 = (r, fc2)" for vs fc1 r fc2
    using call_no_global [OF that(1) 10(3), of reg name vs] that(2) by simp
  with 10 show ?case
    by (auto simp: bind_value_def split: prod.splits sum.splits option.splits)
qed (auto simp: bind_value_def split: prod.splits sum.splits option.splits)

lemma rule_step_no_global:
  assumes "no_global_window (runtime_of w) (func_ctx eng)" and "context_tenant ctx = VNone"
    and "rule_step w ctx rid rule eng = (r, eng')"
  shows "no_global_window (runtime_of w) (func_ctx eng')"
proof -
  have "no_global_window (runtime_of w) (snd (evaluate (builtins eng) (runtime_of w) (rule_ast rule) ctx (func_ctx eng)))"
    unfolding evaluate_def by (rule snd_bind_value) (simp_all add: eval_no_global assms(1,2))
  with assms(3) show ?thesis
    by (auto simp: rule_step_def put_rule_def split: prod.splits sum.splits eval_exn.splits bool.splits)
qed

lemma eval_rules_no_global:
  "no_global_window (runtime_of w) (func_ctx eng) \<Longrightarrow> context_tenant ctx = VNone \<Longrightarrow>
     no_global_window (runtime_of w) (func_ctx (snd (eval_rules w ctx t rids matched eng)))"
proof (induction rids arbitrary: matched eng)
  case (Cons rid rids)
  show ?case
  proof (cases "dict_get (rules eng) rid")
    case None
    with Cons show ?thesis by (simp add: eval_rules_Cons)
  next
    case (Some rule)
    obtain x eng1 where step: "rule_step w ctx rid rule eng = (x, eng1)" by (cases "rule_step w ctx rid rule eng")
    note n1 = rule_step_no_global [OF Cons.prems step]
    from Some step Cons.IH [OF Cons.prems] Cons.IH [OF n1 Cons.prems(2)] n1 show ?thesis
      by (auto simp: eval_rules_Cons split: eval_rules_splits)
  qed
qed simp

lemma context_tenant_built [simp]: "context_tenant (build_context w ev) = VNone"
  by (simp add: context_tenant_def build_context_def Let_def dict_get_or_def)

lemma create_alerts_func_ctx [simp]: "func_ctx (create_alerts w rids ev t eng) = func_ctx eng"
  using create_alerts_spec [of w t _ rids ev eng] by (cases "uuid_parse w t") (auto simp: create_alerts_def)

text \<open>A topic of a tenant whose name is not empty, has no colon and is not the word \<open>global\<close>.\<close>

definition tenant_topic :: "string \<Rightarrow> bool" where
  "tenant_topic topic \<longleftrightarrow>
     (case topic_tenant topic of None \<Rightarrow> False
      | Some t \<Rightarrow> t \<noteq> [] \<and> t \<noteq> ''global'' \<and> CHR '':'' \<notin> set t)"

lemma process_event_no_global:
  assumes "no_global_window (runtime_of w) (func_ctx eng)" and "tenant_topic topic"
  shows "no_global_window (runtime_of w) (func_ctx (snd (process_event w ev topic eng)))"
proof -
  from assms(2) obtain t where t: "topic_tenant topic = Some t" "t \<noteq> []" "t \<noteq> ''global''" "CHR '':'' \<notin> set t"
    by (auto simp: tenant_topic_def split: option.splits)
  let ?fc = "record_event (runtime_of w)
      (py_str (repr (runtime_of w)) (dict_get_or ev ''event_type'' (VStr ''unknown''))) None
      (VStr t) (dict_get_or ev ''agent_id'' VNone)
      (if field_values w ev = [] then None else Some (field_values w ev)) (func_ctx eng)"
  let ?eng1 = "eng\<lparr>events_processed := events_processed eng + 1, func_ctx := ?fc\<rparr>"
  have "no_global_window (runtime_of w) ?fc" by (rule record_no_global [OF assms(1) t(2-4)])
  then have "no_global_window (runtime_of w) (func_ctx (snd (evaluate_event w ev (Some t) ?eng1)))"
    unfolding evaluate_event_def by (intro eval_rules_no_global) simp_all
  with t(1) show ?thesis
    by (auto simp: process_event_def Let_def split: prod.splits sum.splits)
qed

section \<open>The properties of the engine\<close>

text \<open>A world for the examples: every UUID text is its own canonical form and nothing fails.\<close>

definition quiet_outside :: outside where
  "quiet_outside = \<lparr>runtime_of = quiet_runtime, json_loads = (\<lambda>_. None), json_size = length,
     uuid_parse = Some, float_of_text = (\<lambda>_. None), new_id = nat_to_string, now_text = [],
     opens = (\<lambda>_. True), inserts = (\<lambda>_. True), sends = (\<lambda>_ _. True), accepts = (\<lambda>_ _. True)\<rparr>"

definition sample_rule :: "string \<Rightarrow> string option \<Rightarrow> string \<Rightarrow> db_rule" where
  "sample_rule rid tenant source =
     \<lparr>db_id = rid, db_tenant = tenant, db_name = rid, db_severity = ''high'', db_attack_class = None,
      db_source = source, db_enabled = True, db_version = 1\<rparr>"

text \<open>
  C4: After any run of the engine, and for rules that call functions as well as for those that do not, what an event
  matches is read off the verdicts of the rules it concerns (enabled, of its tenant or of none), taken in the order of
  the table, each in the tables of the rule functions as the ones before left them: the event matches the rules whose
  verdict is true, up to the first \<open>max_rules_per_event\<close> of them (one, if that is 0); a rule that fails with an
  \<open>EvalError\<close> is passed over, and a rule that raises a \<open>TypeError\<close> before the limit is reached ends the evaluation
  with that exception and no matches at all.
\<close>

theorem evaluate_event_matches:
  assumes "eng = foldl engine_step (new_engine reg n pub) ops"
  shows "fst (evaluate_event w ev t eng) =
    (let vs = event_verdicts w (build_context w ev) t eng; limit = max 1 (max_rules_per_event eng);
         ms = matches_in (until_type_error vs)
     in if length ms < limit \<and> until_type_error vs \<noteq> vs then Inl PyTypeError else Inr (take limit ms))"
proof -
  have "engine_ok eng" unfolding assms by (rule engine.inv_run) simp
  then have "distinct (map fst (rules eng))" by (simp add: engine_ok_def dict_wf_def)
  then have "known_rules (rules eng) eng" by (auto simp: known_rules_def)
  from eval_rules_outcome [OF this, of "[]"] show ?thesis
    by (simp add: evaluate_event_def event_verdicts_def outcome_def Let_def)
qed

definition sample_ast :: node where
  "sample_ast = Rule 1 16 (Compare 1 16 ''=='' (FieldAccess 1 1 ''event'' [''severity'']) (StringLiteral 1 19 ''high''))"

definition sample_source :: string where
  "sample_source = ''event.severity == '' @ [CHR 0x22] @ ''high'' @ [CHR 0x22]"

lemma sample_parses: "parse_prl sample_source = Inr sample_ast"
  by code_simp

definition sample_engine :: engine where
  "sample_engine = put_rule (case compile_rule (sample_rule ''r'' None sample_source) of Inr c \<Rightarrow> c)
     ''r'' (new_engine core_registry 500 None)"

lemma sample_engine_rule:
  "rules sample_engine = [(''r'', \<lparr>rule_id = ''r'', rule_tenant = None, rule_name = ''r'', rule_severity = ''high'',
     rule_attack_class = None, prl_source = sample_source, rule_ast = sample_ast, rule_enabled = True, rule_version = 1,
     match_count = 0, eval_count = 0, error_count = 0, last_matched_at = None\<rparr>)]"
  "max_rules_per_event sample_engine = 500" "engine_ok sample_engine"
proof -
  have c: "compile_rule (sample_rule ''r'' None sample_source) = Inr \<lparr>rule_id = ''r'', rule_tenant = None,
     rule_name = ''r'', rule_severity = ''high'', rule_attack_class = None, prl_source = sample_source,
     rule_ast = sample_ast, rule_enabled = True, rule_version = 1,
     match_count = 0, eval_count = 0, error_count = 0, last_matched_at = None\<rparr>"
    by (simp add: compile_rule_def sample_rule_def sample_parses)
  then show "rules sample_engine = [(''r'', \<lparr>rule_id = ''r'', rule_tenant = None, rule_name = ''r'', rule_severity = ''high'',
     rule_attack_class = None, prl_source = sample_source, rule_ast = sample_ast, rule_enabled = True, rule_version = 1,
     match_count = 0, eval_count = 0, error_count = 0, last_matched_at = None\<rparr>)]"
    and "max_rules_per_event sample_engine = 500"
    by (simp_all add: sample_engine_def put_rule_def new_engine_def)
  have "load_rule (sample_rule ''r'' None sample_source) (new_engine core_registry 500 None) = Inr sample_engine"
    using c by (simp add: load_rule_def sample_engine_def sample_rule_def)
  from load_rule_ok [OF engine_ok_new this] show "engine_ok sample_engine" .
qed

lemma sample_says:
  "evaluate reg rt sample_ast (build_context w ev) fc =
     (Inr (py_eq (dict_get_or ev ''severity'' (VStr ''info'')) (VStr ''high'')), fc)"
  if "dict_get_or ev ''severity'' (VStr ''info'') \<notin> {VMissing}"
  using that
  by (auto simp: evaluate_def sample_ast_def build_context_def eval_field_access_def Let_def
      dict_get_or_def compare_values_def)

text \<open>Three loaded rules: the first fails, the second calls a function, the third reads a field.\<close>

definition counting_source :: string where
  "counting_source = ''count('' @ [CHR 0x22] @ ''file_open'' @ [CHR 0x22] @ '', '' @ [CHR 0x22] @ ''60s'' @ [CHR 0x22] @ '') == 0''"

definition three_rules :: "engine_op list" where
  "three_rules = map Load [sample_rule ''bad'' None ''x AND y'', sample_rule ''c'' (Some ''t'') counting_source,
     sample_rule ''r'' None sample_source]"

lemma three_verdicts:
  "event_verdicts quiet_outside (build_context quiet_outside [(''severity'', VStr ''high'')]) (Some ''t'')
     (foldl engine_step (new_engine core_registry 500 None) three_rules) =
   [(''bad'', Inl (EvalError (UndefinedVariable ''x'') 1 1)), (''c'', Inr True), (''r'', Inr True)]"
  by code_simp

lemma evaluate_event_matches_witness:
  "fst (evaluate_event quiet_outside [(''severity'', VStr ''high'')] (Some ''t'')
     (foldl engine_step (new_engine core_registry 500 None) three_rules)) = Inr [''c'', ''r'']"
proof -
  have "max_rules_per_event (foldl engine_step (new_engine core_registry 500 None) three_rules) = 500" by code_simp
  then show ?thesis unfolding evaluate_event_matches [OF refl] three_verdicts by (simp add: Let_def)
qed

text \<open>
  in every run of the engine, an event adds to the alerts only at their end, at most
  \<open>max_rules_per_event\<close> of them, all under the tenant its topic names, each by an enabled rule of that
  tenant or of no tenant, with the rule's severity; no later step changes or removes an alert.
\<close>

theorem alerts_of_tenant:
  assumes "eng = foldl engine_step (new_engine reg n pub) ops" and "0 < max_rules_per_event eng"
  shows "\<exists>new. alert_table (snd (process_event w ev topic eng)) = alert_table eng @ new
    \<and> length new \<le> max_rules_per_event eng
    \<and> (\<forall>a \<in> set new. \<exists>t u. topic_tenant topic = Some t \<and> uuid_parse w t = Some u \<and> alert_from eng t u a)
    \<and> (\<forall>later i. i < length (alert_table eng) \<longrightarrow>
         alert_table (foldl engine_step (snd (process_event w ev topic eng)) later) ! i = alert_table eng ! i)"
proof -
  have ok: "engine_ok eng" unfolding assms(1) by (rule engine.inv_run) simp
  have p: "processed eng w topic (fst (process_event w ev topic eng)) (snd (process_event w ev topic eng))"
    by (rule process_event_spec [OF ok]) simp
  then obtain new where new: "alert_table (snd (process_event w ev topic eng)) = alert_table eng @ new"
    "length new \<le> max_rules_per_event eng"
    "\<forall>a \<in> set new. \<exists>t u. topic_tenant topic = Some t \<and> uuid_parse w t = Some u \<and> alert_from eng t u a"
    using assms(2) by (fastforce simp: processed_def list_all_iff)
  have "alert_table (foldl engine_step (snd (process_event w ev topic eng)) later) ! i = alert_table eng ! i"
    if "i < length (alert_table eng)" for later i
    using engine.log_kept [OF ok that, of "Process w ev topic # later"] by simp
  with new show ?thesis by blast
qed

theorem alerts_of_tenant_witness:
  "\<exists>new. alert_table (snd (process_event quiet_outside [(''severity'', VStr ''high'')] ''phantex.events.t''
      (foldl engine_step (new_engine core_registry 500 None) [Load (sample_rule ''r'' None sample_source)])))
    = new \<and> length new \<le> 500"
proof -
  let ?eng = "foldl engine_step (new_engine core_registry 500 None) [Load (sample_rule ''r'' None sample_source)]"
  have "max_rules_per_event ?eng = 500" "alert_table ?eng = []"
    by (simp_all add: load_rule_def compile_rule_def sample_rule_def sample_parses put_rule_def new_engine_def)
  with alerts_of_tenant [OF refl, of core_registry 500 None "[Load (sample_rule ''r'' None sample_source)]"
      quiet_outside "[(''severity'', VStr ''high'')]" "''phantex.events.t''"]
  show ?thesis by auto
qed

text \<open>
  on the broker's path \<open>count\<close> never counts anything: after any events of any tenants, in the
  context of any event, it returns 0 or fails, because the windows are recorded under the tenant and
  read under no tenant.
\<close>

theorem broker_count_zero:
  assumes "\<forall>(now, ev, topic) \<in> set events. tenant_topic topic"
    and "no_global_window (runtime_of w) (func_ctx eng)"
    and "eng' = foldl (\<lambda>eng (now, ev, topic).
           snd (process_event (w\<lparr>runtime_of := (runtime_of w)\<lparr>clock := now\<rparr>\<rparr>) ev topic eng)) eng events"
  shows "fst (fn_count ((runtime_of w)\<lparr>clock := now\<rparr>) args (build_context w ev) (func_ctx eng'))
    \<in> {None, Some (VNum (NInt 0))}"
proof -
  have clock: "no_global_window (rt\<lparr>clock := now\<rparr>) = no_global_window rt" for rt now
    by (simp add: no_global_window_def fun_eq_iff)
  have "no_global_window (runtime_of w) (func_ctx eng')"
    using assms
  proof (induction events arbitrary: eng)
    case (Cons e events)
    obtain now ev topic where e: "e = (now, ev, topic)" by (cases e)
    have "no_global_window (runtime_of w)
        (func_ctx (snd (process_event (w\<lparr>runtime_of := (runtime_of w)\<lparr>clock := now\<rparr>\<rparr>) ev topic eng)))"
      using process_event_no_global [of "w\<lparr>runtime_of := (runtime_of w)\<lparr>clock := now\<rparr>\<rparr>" eng topic ev]
        Cons.prems(1,2) by (simp add: clock e)
    from Cons.IH [OF _ this] Cons.prems(1,3) show ?case by (simp add: e)
  qed simp
  then have "no_global_window ((runtime_of w)\<lparr>clock := now\<rparr>) (func_ctx eng')" by (simp add: clock)
  from count_no_global [OF this] show ?thesis
    by (auto simp: fn_count_def of_nat_value_def split: option.splits)
qed

lemma new_engine_no_global: "no_global_window rt (func_ctx (new_engine reg n pub))"
  by (simp add: no_global_window_def new_engine_def set_allowlist_def empty_context_def)

theorem broker_count_zero_witness:
  "fst (fn_count quiet_runtime [VStr ''TOOL_CALL'', VStr ''60s'']
     (build_context quiet_outside [(''agent_id'', VStr ''a'')])
     (func_ctx (snd (process_event quiet_outside [(''event_type'', VStr ''TOOL_CALL''), (''agent_id'', VStr ''a'')]
        ''phantex.events.t1'' (new_engine core_registry 500 None))))) \<in> {None, Some (VNum (NInt 0))}"
proof -
  have topic: "tenant_topic ''phantex.events.t1''" by code_simp
  have w: "quiet_outside\<lparr>runtime_of := (runtime_of quiet_outside)\<lparr>clock := 0\<rparr>\<rparr> = quiet_outside"
    "(runtime_of quiet_outside)\<lparr>clock := 0\<rparr> = quiet_runtime"
    "quiet_outside\<lparr>runtime_of := quiet_runtime\<rparr> = quiet_outside"
    by (simp_all add: quiet_outside_def quiet_runtime_def)
  from broker_count_zero [of "[(0, [(''event_type'', VStr ''TOOL_CALL''), (''agent_id'', VStr ''a'')],
      ''phantex.events.t1'')]" quiet_outside "new_engine core_registry 500 None" _ 0
      "[VStr ''TOOL_CALL'', VStr ''60s'']" "[(''agent_id'', VStr ''a'')]", OF _ new_engine_no_global refl]
  show ?thesis using topic by (simp add: w)
qed

text \<open>
  every text that contains a listed destination passes the allowlist of network destinations of a
  new engine, also where the list means exact domain names: whatever stands before and after it.
\<close>

theorem allowlist_substring:
  assumes "domain \<in> set default_allowed_network_dests"
  shows "fst (fn_in_allowlist rt [VStr (before @ domain @ after), VStr ''allowed_network_destinations''] ctx
           (func_ctx (new_engine reg n pub))) = Some (VBool True)"
proof -
  have "list_ex (\<lambda>entry. is_substring entry (before @ domain @ after)) default_allowed_network_dests"
    using assms is_substring_iff by (auto simp: list_ex_iff)
  then show ?thesis
    by (simp add: fn_in_allowlist_def is_in_allowlist_def new_engine_def set_allowlist_def arg_text_def
        empty_context_def)
qed

theorem allowlist_substring_witness:
  "fst (fn_in_allowlist quiet_runtime [VStr ''github.com.attacker.example'', VStr ''allowed_network_destinations''] []
      (func_ctx (new_engine core_registry 500 None))) = Some (VBool True)"
proof -
  have "''github.com'' \<in> set default_allowed_network_dests" by (simp add: default_allowed_network_dests_def)
  from allowlist_substring [OF this, of quiet_runtime "[]" "''.attacker.example''"] show ?thesis by simp
qed

text \<open>
  a rule whose comparison raises a \<open>TypeError\<close> ends the processing of the event with that
  exception: no alert is created, whatever rules come after it and would match.
\<close>

theorem type_error_stops_event:
  assumes "rules eng = (rid, rule) # others" and "rule_applies (topic_tenant topic) rule"
    and "\<forall>fc. fst (evaluate (builtins eng) (runtime_of w) (rule_ast rule) (build_context w ev) fc) = Inl PyTypeError"
  shows "fst (process_event w ev topic eng) = Some PyTypeError
    \<and> alert_table (snd (process_event w ev topic eng)) = alert_table eng"
proof -
  let ?fc = "record_event (runtime_of w)
      (py_str (repr (runtime_of w)) (dict_get_or ev ''event_type'' (VStr ''unknown''))) None
      (case topic_tenant topic of None \<Rightarrow> VNone | Some t \<Rightarrow> VStr t) (dict_get_or ev ''agent_id'' VNone)
      (if field_values w ev = [] then None else Some (field_values w ev)) (func_ctx eng)"
  let ?eng1 = "eng\<lparr>events_processed := events_processed eng + 1, func_ctx := ?fc\<rparr>"
  obtain fc where fc: "evaluate (builtins eng) (runtime_of w) (rule_ast rule) (build_context w ev) ?fc = (Inl PyTypeError, fc)"
    using assms(3) by (metis prod.collapse)
  have "\<exists>eng2. evaluate_event w ev (topic_tenant topic) ?eng1 = (Inl PyTypeError, eng2) \<and> alert_table eng2 = alert_table eng"
    using assms(1,2) fc by (simp add: evaluate_event_def eval_rules_Cons rule_step_def put_rule_def)
  then show ?thesis by (auto simp: process_event_def Let_def)
qed

theorem type_error_stops_event_witness:
  "\<exists>eng. length (rules eng) = 2 \<and> fst (process_event quiet_outside [(''severity'', VStr ''high'')] ''phantex.events.t'' eng) = Some PyTypeError"
proof -
  let ?ast = "Rule 1 16 (Compare 1 16 ''>'' (FieldAccess 1 1 ''event'' [''severity'']) (NumberLiteral 1 18 (NInt 1)))"
  let ?rule = "(snd (hd (rules sample_engine)))\<lparr>rule_ast := ?ast\<rparr>"
  let ?eng = "sample_engine\<lparr>rules := (''bad'', ?rule) # rules sample_engine\<rparr>"
  have "fst (evaluate reg rt ?ast (build_context quiet_outside [(''severity'', VStr ''high'')]) fc) = Inl PyTypeError" for reg rt fc
    by (simp add: evaluate_def build_context_def eval_field_access_def Let_def dict_get_or_def
        compare_values_def order_result_def)
  with type_error_stops_event [of ?eng "''bad''" ?rule "rules sample_engine" "''phantex.events.t''" quiet_outside
      "[(''severity'', VStr ''high'')]"]
  have "fst (process_event quiet_outside [(''severity'', VStr ''high'')] ''phantex.events.t'' ?eng) = Some PyTypeError"
    by (simp add: sample_engine_rule rule_applies_def)
  then show ?thesis by (intro exI [of _ ?eng]) (simp add: sample_engine_rule)
qed

section \<open>Alerts that are events\<close>

text \<open>
  An engine with the one rule \<open>event.severity == "high"\<close>, itself of severity high, that publishes to
  a broker; an event of that severity; the event the broker delivers next, which is the last one
  published.
\<close>

definition hot_rule :: "string \<Rightarrow> compiled_rule \<Rightarrow> bool" where
  "hot_rule t rule \<longleftrightarrow> rule_ast rule = sample_ast \<and> rule_severity rule = ''high'' \<and> rule_applies (Some t) rule"

definition hot_engine :: "string \<Rightarrow> engine \<Rightarrow> bool" where
  "hot_engine t eng \<longleftrightarrow>
     (\<exists>rid rule. rules eng = [(rid, rule)] \<and> hot_rule t rule)
     \<and> (\<exists>pub. alert_publisher eng = Some pub \<and> has_producer pub)"

definition hot_event :: "payload \<Rightarrow> bool" where
  "hot_event ev \<longleftrightarrow> dict_get ev ''severity'' = Some (VStr ''high'')
     \<and> (case dict_get_or ev ''agent_id'' VNone of VStr _ \<Rightarrow> True | VNone \<Rightarrow> True | _ \<Rightarrow> False)"

definition open_world :: "string \<Rightarrow> outside \<Rightarrow> bool" where
  "open_world t w \<longleftrightarrow> uuid_parse w t \<noteq> None \<and> opens w t \<and> (\<forall>a. inserts w a) \<and> (\<forall>topic p. sends w topic p)"

fun redeliver :: "outside \<Rightarrow> nat \<Rightarrow> engine \<Rightarrow> engine" where
  "redeliver w 0 eng = eng"
| "redeliver w (Suc n) eng =
     (case alert_publisher (redeliver w n eng) of
        None \<Rightarrow> redeliver w n eng
      | Some pub \<Rightarrow>
          (case last (kafka_log pub) of
             (topic, e) \<Rightarrow> snd (process_event w e topic (redeliver w n eng))))"

lemma split_on_no_dot: "CHR ''.'' \<notin> set t \<Longrightarrow> split_on (CHR ''.'') t = [t]"
  by (induction t) auto

lemma events_topic_tenant: "CHR ''.'' \<notin> set t \<Longrightarrow> topic_tenant (''phantex.events.'' @ t) = Some t"
  by (simp add: topic_tenant_def split_on_no_dot)

lemma lower_high: "py_lower ''high'' = ''high''"
  by code_simp

lemma hot_evaluate:
  assumes "hot_event ev"
  shows "evaluate reg rt sample_ast (build_context w ev) fc = (Inr True, fc)"
  using sample_says [of ev reg rt w fc] assms by (simp add: hot_event_def dict_get_or_def)

lemma hot_matches:
  assumes r: "rules eng = [(rid, rule)]" "hot_rule t rule" and ev: "hot_event ev"
  shows "\<exists>rule' eng2. evaluate_event w ev (Some t) eng = (Inr [rid], eng2) \<and> rules eng2 = [(rid, rule')]
    \<and> hot_rule t rule' \<and> alerts_created eng2 = alerts_created eng \<and> alert_publisher eng2 = alert_publisher eng"
  using r hot_evaluate [OF ev]
  by (auto simp: evaluate_event_def eval_rules_Cons rule_step_def put_rule_def hot_rule_def rule_applies_def)

lemma hot_publish:
  assumes "has_producer pub" and "\<forall>topic p. sends w topic p" and "alert_severity a = ''high''"
  shows "\<exists>pub' e. alert_publisher (publish_engine_alert w a rule ev t (eng\<lparr>alert_publisher := Some pub\<rparr>)) = Some pub'
    \<and> has_producer pub' \<and> last (kafka_log pub') = (''phantex.events.'' @ t, e) \<and> hot_event e"
  using assms
  by (auto simp: publish_engine_alert_def publish_alert_def publish_to_kafka_def derived_event_def Let_def
      build_alert_payload_def dict_get_or_def lower_high hot_event_def optional_text_def
      split: prod.splits option.splits)

lemma hot_alert:
  assumes r: "rules eng = [(rid, rule)]" "hot_rule t rule" and pub: "alert_publisher eng = Some pub" "has_producer pub"
    and w: "open_world t w" and ev: "hot_event ev"
  shows "let eng' = alert_for_rule w t u ev eng rid in
    hot_engine t eng' \<and> alerts_created eng' = alerts_created eng + 1
    \<and> (\<exists>pub e. alert_publisher eng' = Some pub \<and> last (kafka_log pub) = (''phantex.events.'' @ t, e) \<and> hot_event e)"
proof -
  define agent where "agent = dict_get_or ev ''agent_id'' VNone"
  have agent: "\<not> (truthy agent \<and> (case agent of VStr s \<Rightarrow> if s = [] then None else Some s | _ \<Rightarrow> None) = None)"
    using ev by (auto simp: hot_event_def agent_def [symmetric] split: pval.splits)
  define a where "a = create_alert_action w (new_id w (length (alert_table eng))) u rule
      (case dict_get_or ev ''event_id'' VNone of VStr s \<Rightarrow> if s = [] then None else uuid_parse w s | _ \<Rightarrow> None)
      (case agent of VStr s \<Rightarrow> if s = [] then None else Some s | _ \<Rightarrow> None)
      (dict_get_or ev ''event_type'' (VStr ''unknown'')) ev"
  define eng1 where "eng1 = eng\<lparr>alert_table := alert_table eng @ [a], alerts_created := alerts_created eng + 1\<rparr>"
  have e': "alert_for_rule w t u ev eng rid =
      evaluate_auto_response w a rule ev t (publish_engine_alert w a rule ev t eng1)"
    using r agent w by (auto simp: alert_for_rule_def Let_def a_def agent_def eng1_def open_world_def)
  have sev: "alert_severity a = ''high''" using r by (simp add: a_def create_alert_action_def hot_rule_def)
  have eng1: "eng1 = eng1\<lparr>alert_publisher := Some pub\<rparr>" using pub by (simp add: eng1_def)
  from hot_publish [OF pub(2) _ sev, of w rule ev t eng1] w obtain pub' e where
    p: "alert_publisher (publish_engine_alert w a rule ev t eng1) = Some pub'" "has_producer pub'"
      "last (kafka_log pub') = (''phantex.events.'' @ t, e)" "hot_event e"
    unfolding eng1 [symmetric] open_world_def by blast
  have keep: "alert_publisher (evaluate_auto_response w a rule ev t x) = alert_publisher x" for x
    by (simp add: evaluate_auto_response_def split: option.splits)
  show ?thesis
    using p r by (auto simp: Let_def e' keep hot_engine_def eng1_def)
qed

lemma hot_step:
  assumes eng: "hot_engine t eng" and w: "open_world t w" and ev: "hot_event ev"
    and t: "t \<noteq> []" "topic_tenant topic = Some t"
  shows "let eng' = snd (process_event w ev topic eng) in
    hot_engine t eng' \<and> alerts_created eng' = alerts_created eng + 1
    \<and> (\<exists>pub e. alert_publisher eng' = Some pub \<and> last (kafka_log pub) = (''phantex.events.'' @ t, e) \<and> hot_event e)"
proof -
  from eng obtain rid rule pub where r: "rules eng = [(rid, rule)]" "hot_rule t rule"
    and pub: "alert_publisher eng = Some pub" "has_producer pub" by (auto simp: hot_engine_def)
  define fc where "fc = record_event (runtime_of w)
      (py_str (repr (runtime_of w)) (dict_get_or ev ''event_type'' (VStr ''unknown''))) None
      (VStr t) (dict_get_or ev ''agent_id'' VNone)
      (if field_values w ev = [] then None else Some (field_values w ev)) (func_ctx eng)"
  let ?eng1 = "eng\<lparr>events_processed := events_processed eng + 1, func_ctx := fc\<rparr>"
  from hot_matches [of ?eng1 rid rule t ev w] r ev obtain rule' eng2 where
    m: "evaluate_event w ev (Some t) ?eng1 = (Inr [rid], eng2)" "rules eng2 = [(rid, rule')]" "hot_rule t rule'"
      "alerts_created eng2 = alerts_created eng" "alert_publisher eng2 = alert_publisher eng" by auto
  from w obtain u where u: "uuid_parse w t = Some u" "opens w t" by (auto simp: open_world_def)
  have "process_event w ev topic eng = (None, alert_for_rule w t u ev eng2 rid)"
    using m(1) u t unfolding process_event_def Let_def t(2) option.case fc_def [symmetric]
    by (simp add: create_alerts_def)
  with hot_alert [OF m(2,3) _ pub(2) w ev, of u] m(4,5) pub(1) show ?thesis by (simp add: Let_def)
qed

text \<open>
  one event of severity high starts alerts without end. A rule on the severity alone matches the
  event of type \<open>ALERT\<close> that the publisher derives from its own alert and puts on the topic the engine
  reads: after \<open>n\<close> redeliveries there are \<open>n + 1\<close> new alerts.
\<close>

theorem alert_feedback:
  assumes "hot_engine t eng" and "open_world t w" and "hot_event ev" and "t \<noteq> []" and "CHR ''.'' \<notin> set t"
  shows "alerts_created (redeliver w n (snd (process_event w ev (''phantex.events.'' @ t) eng)))
    = alerts_created eng + n + 1"
proof -
  note topic = events_topic_tenant [OF assms(5)]
  define eng0 where "eng0 = snd (process_event w ev (''phantex.events.'' @ t) eng)"
  note start = hot_step [OF assms(1-4) topic, folded eng0_def, unfolded Let_def]
  have "hot_engine t (redeliver w n eng0) \<and> alerts_created (redeliver w n eng0) = alerts_created eng0 + n
    \<and> (\<exists>pub e. alert_publisher (redeliver w n eng0) = Some pub
          \<and> last (kafka_log pub) = (''phantex.events.'' @ t, e) \<and> hot_event e)"
  proof (induction n)
    case (Suc n)
    then obtain pub e where p: "alert_publisher (redeliver w n eng0) = Some pub"
      "last (kafka_log pub) = (''phantex.events.'' @ t, e)" "hot_event e" by blast
    from hot_step [OF _ assms(2) p(3) assms(4) topic, of "redeliver w n eng0"] Suc p show ?case
      by (simp add: Let_def)
  qed (use start in simp)
  with start show ?thesis by (simp add: eng0_def)
qed

theorem alert_feedback_witness:
  "\<exists>eng. alerts_created (redeliver quiet_outside 1000
     (snd (process_event quiet_outside [(''severity'', VStr ''high'')] ''phantex.events.t'' eng))) = 1001"
proof -
  let ?pub = "\<lparr>has_producer = True, alerts_published = 0, kafka_errors = 0, ws_notifications = 0,
    broadcaster = [], kafka_log = []\<rparr>"
  let ?eng = "sample_engine\<lparr>alert_publisher := Some ?pub\<rparr>"
  have "hot_engine ''t'' ?eng"
    by (simp add: hot_engine_def sample_engine_rule hot_rule_def rule_applies_def)
  moreover have "open_world ''t'' quiet_outside" by (simp add: open_world_def quiet_outside_def)
  moreover have "hot_event [(''severity'', VStr ''high'')]" by (simp add: hot_event_def dict_get_or_def)
  moreover have "alerts_created ?eng = 0" by (simp add: sample_engine_def put_rule_def new_engine_def)
  ultimately show ?thesis
    using alert_feedback [of "''t''" ?eng quiet_outside "[(''severity'', VStr ''high'')]" 1000] by auto
qed

end
