(* ===== verification/Mcp_Registry.thy ===== *)
theory Mcp_Registry
  imports Py_Values
begin

text \<open>
  \<open>backend/ml/content/policy/mcp_registry.py\<close>: the bounded registry of trust in MCP servers, keyed by
  tenant and server. A server identifier is a JSON value that can be hashed.
\<close>

datatype mcp_trust = Verified | Known | Unknown | Suspicious | Blocked

record mcp_entry =
  server_id :: pval
  server_tenant :: string
  server_trust :: mcp_trust
  display_name :: string
  server_description :: string
  content_hash :: string
  first_seen :: rat
  last_seen :: rat
  connection_count :: int
  anomaly_count :: int
  server_metadata :: "(string, pval) dict"

record mcp_registry =
  mcp_store :: "(string \<times> pval, mcp_entry) dict"
  default_trust :: mcp_trust
  max_entries :: nat

definition new_registry :: mcp_registry where
  "new_registry = \<lparr>mcp_store = [], default_trust = Unknown, max_entries = 50000\<rparr>"

text \<open>\<open>register\<close>: the oldest key goes when the store grows over its bound.\<close>

definition mcp_register :: "mcp_entry \<Rightarrow> mcp_registry \<Rightarrow> mcp_registry" where
  "mcp_register e reg =
     (let store = dict_set (server_tenant e, server_id e) e (mcp_store reg)
      in reg\<lparr>mcp_store := (if max_entries reg < length store then tl store else store)\<rparr>)"

definition mcp_remove :: "string \<Rightarrow> pval \<Rightarrow> mcp_registry \<Rightarrow> bool \<times> mcp_registry" where
  "mcp_remove tenant server reg =
     (dict_get (mcp_store reg) (tenant, server) \<noteq> None,
      reg\<lparr>mcp_store := dict_del (tenant, server) (mcp_store reg)\<rparr>)"

definition mcp_trust_level :: "string \<Rightarrow> pval \<Rightarrow> mcp_registry \<Rightarrow> mcp_trust" where
  "mcp_trust_level tenant server reg =
     (case dict_get (mcp_store reg) (tenant, server) of
        None \<Rightarrow> default_trust reg | Some e \<Rightarrow> server_trust e)"

definition list_for_tenant :: "string \<Rightarrow> mcp_registry \<Rightarrow> mcp_entry list" where
  "list_for_tenant tenant reg = map snd (filter (\<lambda>((t, _), _). t = tenant) (mcp_store reg))"

definition set_trust_level :: "rat \<Rightarrow> string \<Rightarrow> pval \<Rightarrow> mcp_trust \<Rightarrow> mcp_registry \<Rightarrow> bool \<times> mcp_registry" where
  "set_trust_level now tenant server level reg =
     (case dict_get (mcp_store reg) (tenant, server) of
        None \<Rightarrow> (False, reg)
      | Some e \<Rightarrow> (True, reg\<lparr>mcp_store :=
          dict_set (tenant, server) (e\<lparr>server_trust := level, last_seen := now\<rparr>) (mcp_store reg)\<rparr>))"

definition mcp_block :: "rat \<Rightarrow> string \<Rightarrow> pval \<Rightarrow> mcp_registry \<Rightarrow> bool \<times> mcp_registry" where
  "mcp_block now tenant server = set_trust_level now tenant server Blocked"

definition mark_suspicious :: "rat \<Rightarrow> string \<Rightarrow> pval \<Rightarrow> mcp_registry \<Rightarrow> bool \<times> mcp_registry" where
  "mark_suspicious now tenant server = set_trust_level now tenant server Suspicious"

text \<open>\<open>hash(v)\<close> raises on a list or an object.\<close>

fun hashable :: "pval \<Rightarrow> bool" where
  "hashable (VList _) = False"
| "hashable (VDict _) = False"
| "hashable _ = True"

section \<open>Bounds and isolation\<close>

datatype registry_op =
  Register mcp_entry
| Unregister string pval
| SetTrust rat string pval mcp_trust

fun registry_step :: "mcp_registry \<Rightarrow> registry_op \<Rightarrow> mcp_registry" where
  "registry_step reg (Register e) = mcp_register e reg"
| "registry_step reg (Unregister t s) = snd (mcp_remove t s reg)"
| "registry_step reg (SetTrust now t s l) = snd (set_trust_level now t s l reg)"

text \<open>The keys are those of the entries, unique, and at most the bound of them.\<close>

definition registry_ok :: "mcp_registry \<Rightarrow> bool" where
  "registry_ok reg \<longleftrightarrow> dict_wf (mcp_store reg) \<and> length (mcp_store reg) \<le> max_entries reg \<and>
     (\<forall>(k, e) \<in> set (mcp_store reg). k = (server_tenant e, server_id e))"

lemma registry_ok_step: "registry_ok reg \<Longrightarrow> registry_ok (registry_step reg c)"
proof (cases c)
  case (Register e)
  assume ok: "registry_ok reg"
  let ?d = "dict_set (server_tenant e, server_id e) e (mcp_store reg)"
  from ok have wf: "dict_wf ?d" and len: "length ?d \<le> Suc (max_entries reg)"
    by (auto simp: registry_ok_def length_dict_set)
  from ok have keys: "\<forall>(k, v) \<in> set ?d. k = (server_tenant v, server_id v)"
    using set_dict_set_subset [of "(server_tenant e, server_id e)" e "mcp_store reg"]
    by (fastforce simp: registry_ok_def)
  have "dict_wf (tl ?d)" using wf by (rule dict_wf_tl)
  moreover have "set (tl ?d) \<subseteq> set ?d" by (cases ?d) auto
  ultimately have "registry_ok (reg\<lparr>mcp_store := tl ?d\<rparr>)" if "max_entries reg < length ?d"
    using len keys by (auto simp: registry_ok_def simp del: set_map)
  moreover have "registry_ok (reg\<lparr>mcp_store := ?d\<rparr>)" if "\<not> max_entries reg < length ?d"
    using that wf keys by (simp add: registry_ok_def)
  ultimately show ?thesis
    by (simp add: Register mcp_register_def Let_def)
next
  case (Unregister t s)
  assume "registry_ok reg"
  then show ?thesis
    by (auto simp: Unregister registry_ok_def mcp_remove_def dict_del_def dict_wf_def
        distinct_map_filter intro: order_trans [OF length_filter_le])
next
  case (SetTrust now t s l)
  assume ok: "registry_ok reg"
  show ?thesis
  proof (cases "dict_get (mcp_store reg) (t, s)")
    case (Some e)
    let ?e = "e\<lparr>server_trust := l, last_seen := now\<rparr>"
    from Some have mem: "((t, s), e) \<in> set (mcp_store reg)" by (rule map_of_SomeD)
    with ok have id: "t = server_tenant e" "s = server_id e" by (auto simp: registry_ok_def)
    let ?d = "dict_set (t, s) ?e (mcp_store reg)"
    have "(t, s) \<in> fst ` set (mcp_store reg)" using mem by force
    then have "length ?d = length (mcp_store reg)" by (simp add: length_dict_set)
    moreover have "\<forall>(k, v) \<in> set ?d. k = (server_tenant v, server_id v)"
    proof clarify
      fix t' s' v
      assume "((t', s'), v) \<in> set ?d"
      then have "((t', s'), v) = ((t, s), ?e) \<or> ((t', s'), v) \<in> set (mcp_store reg)"
        using set_dict_set_subset [of "(t, s)" ?e "mcp_store reg"] by blast
      then show "t' = server_tenant v \<and> s' = server_id v"
        using ok by (auto simp: registry_ok_def id)
    qed
    ultimately show ?thesis
      using ok Some by (simp add: SetTrust registry_ok_def set_trust_level_def)
  qed (use ok in \<open>simp add: SetTrust set_trust_level_def\<close>)
qed

interpretation registry: machine registry_step registry_ok
  by unfold_locales (rule registry_ok_step)

end
