(* ===== verification/Response_State.thy ===== *)
theory Response_State
  imports Mcp_Registry
begin

text \<open>
  The state of the automated response layer (\<open>backend/app/services/response/\<close>): its database tables
  (\<open>migrations/025_response_engine.sql\<close>), the cache of policies, and what it sends out. An operation
  maps the state to a result and a new state; the result is \<open>None\<close> when a Python exception leaves
  the operation, and what was written before the exception stays written.
\<close>

section \<open>Tables\<close>

text \<open>A row of \<open>response_config\<close>; there is at most one for a tenant.\<close>

record response_config =
  kill_switch :: bool
  kill_switch_reason :: string
  kill_switch_set_by :: "string option"
  kill_switch_set_at :: "rat option"
  shadow_mode :: bool
  shadow_expires_at :: "rat option"
  shadow_set_by :: "string option"
  escalation_enabled :: bool
  escalation_window :: int
  escalation_steps :: pval
  max_actions_per_hour :: int
  config_updated_at :: rat

record response_policy =
  policy_id :: string
  policy_tenant :: string
  policy_name :: string
  policy_severity :: "string list"
  policy_attack_class :: "string list"
  policy_event_type :: "string list"
  policy_min_confidence :: py_float
  policy_action :: string
  policy_params :: "(string, pval) dict"
  policy_enabled :: bool
  policy_priority :: int
  policy_cooldown :: int
  policy_require_shadow :: bool

record cache_entry =
  cached_policies :: "response_policy list"
  loaded_at :: rat

text \<open>A row of \<open>response_action_log\<close>.\<close>

record action_entry =
  entry_id :: string
  entry_tenant :: string
  entry_alert :: string
  entry_policy :: "string option"
  entry_agent :: "string option"
  entry_action :: string
  entry_params :: "(string, pval) dict"
  entry_decision :: string
  entry_level :: "int option"
  entry_severity :: string
  entry_confidence :: py_float
  entry_attack_class :: string
  entry_event_type :: string
  entry_overridden_by :: "string option"
  entry_override_reason :: string
  entry_created_at :: rat
  entry_executed_at :: "rat option"

text \<open>A row of \<open>escalation_state\<close>, whose key is the tenant and the agent.\<close>

record escalation_row =
  current_level :: int
  offense_count :: int
  first_offense :: rat
  last_offense :: rat
  reset_at :: rat
  deleted_at :: "rat option"

text \<open>A row of \<open>agent_commands\<close>.\<close>

datatype command_status = Pending | Dispatched | Acknowledged | Completed | Failed

record agent_command =
  cmd_id :: string
  cmd_tenant :: string
  cmd_agent :: string
  cmd_alert :: "string option"
  cmd_type :: string
  cmd_params :: "(string, pval) dict"
  cmd_status :: command_status
  cmd_issued_by :: "string option"
  cmd_reason :: string
  cmd_created_at :: rat
  cmd_dispatched_at :: "rat option"
  cmd_completed_at :: "rat option"
  cmd_result :: "(string, pval) dict option"

text \<open>An entry of the general audit log, as the response layer writes it.\<close>

record audit_entry =
  audit_tenant :: string
  audit_user :: "string option"
  audit_action :: string
  audit_resource :: string
  audit_details :: "(string, pval) dict"

text \<open>
  The state: the tables (those of policies with the time each row was created), the policy cache,
  the logs of notifications sent, penalties applied by the trust service and of audit entries, and
  the registry of MCP servers that the functions of the rule language consult.
\<close>

record response_db =
  configs :: "(string, response_config) dict"
  policy_rows :: "(response_policy \<times> rat) list"
  policy_cache :: "(string, cache_entry) dict"
  action_log :: "action_entry list"
  escalations :: "(string \<times> string, escalation_row) dict"
  commands :: "agent_command list"
  notifications :: "(string \<times> pval \<times> (string, pval) dict) list"
  trust_penalties :: "(string \<times> string) list"
  audit_log :: "audit_entry list"
  rule_registry :: mcp_registry

text \<open>
  What one call takes from outside: the wall clock and the monotonic clock, the database's reading
  of a text as a UUID (its canonical form, or \<open>None\<close> when the column refuses it), \<open>uuid.UUID\<close>,
  \<open>json.loads\<close>, the length of \<open>json.dumps\<close>, fresh identifiers, whether the row of an agent is locked by
  another transaction, whether the audit insertion succeeds, and the outcomes of the trust
  service and of the notification channels (an error text, or the reply).
\<close>

record response_env =
  clock :: rat
  monotonic :: rat
  uuid_column :: "string \<Rightarrow> string option"
  to_uuid :: "string \<Rightarrow> string option"
  load_json :: "string \<Rightarrow> pval option"
  json_length :: "(string, pval) dict \<Rightarrow> nat"
  fresh_id :: "nat \<Rightarrow> string"
  row_locked :: "string \<Rightarrow> string \<Rightarrow> bool"
  audit_works :: bool
  trust_reply :: "string \<Rightarrow> string \<Rightarrow> string + pval \<times> pval"
  channel_reply :: "pval \<Rightarrow> pval \<Rightarrow> string + unit"

section \<open>Operations that may raise\<close>

type_synonym 'a operation = "response_db \<Rightarrow> 'a option \<times> response_db"

definition give :: "'a \<Rightarrow> 'a operation" where
  "give x db = (Some x, db)"

definition raising :: "'a operation" where
  "raising db = (None, db)"

definition and_then :: "'a operation \<Rightarrow> ('a \<Rightarrow> 'b operation) \<Rightarrow> 'b operation" where
  "and_then m f db = (case m db of (None, db') \<Rightarrow> (None, db') | (Some x, db') \<Rightarrow> f x db')"

text \<open>\<open>try: m except Exception: h\<close>.\<close>

definition or_else :: "'a operation \<Rightarrow> 'a operation \<Rightarrow> 'a operation" where
  "or_else m h db = (case m db of (None, db') \<Rightarrow> h db' | (Some x, db') \<Rightarrow> (Some x, db'))"

named_theorems op_simps \<open>the operations of the response layer, unfolded\<close>

lemmas operation_defs [op_simps] = give_def raising_def and_then_def or_else_def

lemma and_then_result: "fst (and_then m f db) = Some y \<longleftrightarrow>
  (\<exists>x. fst (m db) = Some x \<and> fst (f x (snd (m db))) = Some y)"
  by (auto simp: and_then_def split: prod.splits option.splits)

section \<open>Rows\<close>

definition DEFAULT_STEPS :: "pval list" where
  "DEFAULT_STEPS =
     [VDict [(''level'', VNum (NInt 1)), (''action'', VStr ''log_only''), (''label'', VStr ''Monitor'')],
      VDict [(''level'', VNum (NInt 2)), (''action'', VStr ''throttle''), (''label'', VStr ''Throttle''),
             (''params'', VDict [(''rate_limit'', VNum (NInt 10))])],
      VDict [(''level'', VNum (NInt 3)), (''action'', VStr ''isolate_agent''), (''label'', VStr ''Isolate'')],
      VDict [(''level'', VNum (NInt 4)), (''action'', VStr ''block_ip''), (''label'', VStr ''Block + Alert SOC'')]]"

definition DEFAULT_WINDOW_SEC :: int where
  "DEFAULT_WINDOW_SEC = 3600"

text \<open>The column defaults of \<open>response_config\<close>, which an insertion by one of the toggles leaves in place.\<close>

definition column_defaults :: response_config where
  "column_defaults =
     \<lparr>kill_switch = False, kill_switch_reason = [], kill_switch_set_by = None,
      kill_switch_set_at = None, shadow_mode = True, shadow_expires_at = None, shadow_set_by = None,
      escalation_enabled = True, escalation_window = 3600, escalation_steps = VList DEFAULT_STEPS,
      max_actions_per_hour = 50, config_updated_at = 0\<rparr>"

text \<open>\<open>INSERT ... ON CONFLICT (tenant_id) DO UPDATE\<close> on \<open>response_config\<close>.\<close>

definition upsert_config :: "string \<Rightarrow> (response_config \<Rightarrow> response_config) \<Rightarrow> response_db \<Rightarrow> response_db" where
  "upsert_config tenant f db =
     db\<lparr>configs := dict_set tenant (f (dict_get_or (configs db) tenant column_defaults)) (configs db)\<rparr>"

text \<open>A text bound to the agent column of the response tables, which holds UUIDs and NULL.\<close>

definition bind_agent :: "response_env \<Rightarrow> string option \<Rightarrow> string option option" where
  "bind_agent w agent =
     (case agent of None \<Rightarrow> Some None | Some a \<Rightarrow> map_option Some (uuid_column w a))"

definition counted :: "string \<Rightarrow> bool" where
  "counted d \<longleftrightarrow> d = ''executed'' \<or> d = ''shadow''"

text \<open>
  \<open>log_decision\<close>: its insertion raises when the agent is not a UUID. No caller passes an overriding user
  or reason, so these columns get their defaults.
\<close>

definition log_decision :: "response_env \<Rightarrow> string \<Rightarrow> string \<Rightarrow> string option \<Rightarrow> string option \<Rightarrow> string \<Rightarrow>
    (string, pval) dict \<Rightarrow> string \<Rightarrow> string \<Rightarrow> py_float \<Rightarrow> string \<Rightarrow> string \<Rightarrow> int option \<Rightarrow> string operation" where
  "log_decision w tenant alert policy agent action params decision severity confidence attack event
     level db =
     (case bind_agent w agent of
        None \<Rightarrow> (None, db)
      | Some aid \<Rightarrow>
          (let lid = fresh_id w (length (action_log db))
           in (Some lid, db\<lparr>action_log := action_log db @
                [\<lparr>entry_id = lid, entry_tenant = tenant, entry_alert = alert, entry_policy = policy,
                  entry_agent = aid, entry_action = action, entry_params = params,
                  entry_decision = decision, entry_level = level, entry_severity = severity,
                  entry_confidence = confidence, entry_attack_class = attack,
                  entry_event_type = event, entry_overridden_by = None, entry_override_reason = [],
                  entry_created_at = clock w,
                  entry_executed_at = (if decision = ''executed'' then Some (clock w) else None)\<rparr>]\<rparr>)))"

end
