(* ===== verification/Response_Policy.thy ===== *)
theory Response_Policy
  imports Response_State
begin

text \<open>
  \<open>backend/app/services/response/policy_engine.py\<close>: the cached policies of a tenant, matching of an
  alert against their conditions, the cooldown of a policy and the hourly limit of a tenant, both
  counted in the action log.
\<close>

definition ALLOWED_ACTIONS :: "string list" where
  "ALLOWED_ACTIONS =
     [''isolate_agent'', ''block_ip'', ''quarantine_file'', ''kill_process'', ''disable_user'',
      ''collect_forensics'', ''trust_penalty'', ''block_mcp_server'', ''log_only'', ''throttle'',
      ''notify_soc'']"

record alert_facts =
  al_tenant :: string
  al_id :: string
  al_agent :: "string option"
  al_severity :: string
  al_confidence :: py_float
  al_attack_class :: string
  al_event_type :: string

section \<open>The cache\<close>

definition MAX_CACHED_TENANTS :: nat where
  "MAX_CACHED_TENANTS = 200"

definition CACHE_TTL_SEC :: rat where
  "CACHE_TTL_SEC = 60"

definition evict_cache_if_needed :: "(string, cache_entry) dict \<Rightarrow> (string, cache_entry) dict" where
  "evict_cache_if_needed cache =
     (if MAX_CACHED_TENANTS < length cache then
        let sorted_keys = map fst (sort_key (\<lambda>(_, e). loaded_at e) cache)
        in foldl (\<lambda>c k. dict_del k c) cache (take (length sorted_keys div 4) sorted_keys)
      else cache)"

definition invalidate_policy_cache :: "string option \<Rightarrow> response_db \<Rightarrow> response_db" where
  "invalidate_policy_cache tenant db =
     (case tenant of
        None \<Rightarrow> db\<lparr>policy_cache := []\<rparr>
      | Some t \<Rightarrow> db\<lparr>policy_cache := dict_del t (policy_cache db)\<rparr>)"

section \<open>Loading policies\<close>

text \<open>The rows of the query: those of the tenant that are enabled, by priority, then by age.\<close>

definition enabled_rows :: "string \<Rightarrow> response_db \<Rightarrow> response_policy list" where
  "enabled_rows tenant db =
     map fst (sort_key (\<lambda>(p, _). policy_priority p) (sort_key snd
       (filter (\<lambda>(p, _). policy_tenant p = tenant \<and> policy_enabled p) (policy_rows db))))"

definition read_policy :: "response_policy \<Rightarrow> response_policy" where
  "read_policy r =
     r\<lparr>policy_severity := map py_lower (policy_severity r),
       policy_attack_class := map py_lower (policy_attack_class r),
       policy_event_type := map py_lower (policy_event_type r)\<rparr>"

definition read_and_cache :: "response_env \<Rightarrow> string \<Rightarrow> response_db \<Rightarrow> response_policy list \<times> response_db" where
  "read_and_cache w tenant db =
     (let policies = map read_policy
            (filter (\<lambda>p. policy_action p \<in> set ALLOWED_ACTIONS) (enabled_rows tenant db));
          entry = \<lparr>cached_policies = policies, loaded_at = monotonic w\<rparr>
      in (policies,
          db\<lparr>policy_cache := evict_cache_if_needed (dict_set tenant entry (policy_cache db))\<rparr>))"

definition load_policies :: "response_env \<Rightarrow> string \<Rightarrow> response_db \<Rightarrow> response_policy list \<times> response_db" where
  "load_policies w tenant db =
     (case dict_get (policy_cache db) tenant of
        Some cached \<Rightarrow>
          if monotonic w - loaded_at cached < CACHE_TTL_SEC then (cached_policies cached, db)
          else read_and_cache w tenant db
      | None \<Rightarrow> read_and_cache w tenant db)"

section \<open>Cooldown and rate limit\<close>

text \<open>\<open>True\<close> when the policy is still in its cooldown; the query raises on an agent that is no UUID.\<close>

definition check_cooldown :: "response_env \<Rightarrow> string \<Rightarrow> string \<Rightarrow> string option \<Rightarrow> int \<Rightarrow> bool operation" where
  "check_cooldown w tenant policy agent cooldown_sec db =
     (if cooldown_sec \<le> 0 then (Some False, db)
      else case bind_agent w agent of
        None \<Rightarrow> (None, db)
      | Some aid \<Rightarrow>
          (Some (list_ex (\<lambda>e. entry_tenant e = tenant \<and> entry_policy e = Some policy \<and>
                   (aid = None \<or> entry_agent e = aid) \<and> counted (entry_decision e) \<and>
                   clock w - of_int cooldown_sec < entry_created_at e) (action_log db)), db))"

definition recent_actions :: "response_env \<Rightarrow> string \<Rightarrow> response_db \<Rightarrow> action_entry list" where
  "recent_actions w tenant db =
     filter (\<lambda>e. entry_tenant e = tenant \<and> counted (entry_decision e) \<and>
               clock w - 3600 < entry_created_at e) (action_log db)"

definition rate_limit_exceeded :: "response_env \<Rightarrow> string \<Rightarrow> int \<Rightarrow> response_db \<Rightarrow> bool" where
  "rate_limit_exceeded w tenant max_per_hour db =
     (if max_per_hour \<le> 0 then False
      else max_per_hour \<le> int (length (recent_actions w tenant db)))"

section \<open>Evaluation\<close>

definition conditions_match :: "alert_facts \<Rightarrow> response_policy \<Rightarrow> bool" where
  "conditions_match a p \<longleftrightarrow>
     (policy_severity p = [] \<or> py_lower (al_severity a) \<in> set (policy_severity p)) \<and>
     (policy_attack_class p = [] \<or> py_lower (al_attack_class a) \<in> set (policy_attack_class p)) \<and>
     (policy_event_type p = [] \<or> py_lower (al_event_type a) \<in> set (policy_event_type p)) \<and>
     \<not> float_lt (al_confidence a) (policy_min_confidence p)"

definition log_for :: "response_env \<Rightarrow> alert_facts \<Rightarrow> string option \<Rightarrow> string \<Rightarrow> (string, pval) dict \<Rightarrow>
    string \<Rightarrow> int option \<Rightarrow> string operation" where
  "log_for w a policy action params decision level =
     log_decision w (al_tenant a) (al_id a) policy (al_agent a) action params decision
       (al_severity a) (al_confidence a) (al_attack_class a) (al_event_type a) level"

fun first_match :: "response_env \<Rightarrow> alert_facts \<Rightarrow> response_policy list \<Rightarrow> response_policy option operation" where
  "first_match w a [] = give None"
| "first_match w a (p # ps) =
     (if \<not> conditions_match a p then first_match w a ps
      else and_then (check_cooldown w (al_tenant a) (policy_id p) (al_agent a) (policy_cooldown p))
        (\<lambda>in_cooldown.
           if in_cooldown then
             and_then (log_for w a (Some (policy_id p)) (policy_action p) (policy_params p)
                         ''cooldown_skip'' None)
               (\<lambda>_. first_match w a ps)
           else give (Some p)))"

definition evaluate_alert :: "response_env \<Rightarrow> alert_facts \<Rightarrow> response_policy option operation" where
  "evaluate_alert w a db =
     (case load_policies w (al_tenant a) db of (ps, db') \<Rightarrow> first_match w a ps db')"

end
