(* ===== verification/Response_Escalation.thy ===== *)
theory Response_Escalation
  imports Response_State
begin

text \<open>
  \<open>backend/app/services/response/escalation.py\<close> and \<open>shadow.py\<close>, and the kill switch of
  \<open>orchestrator.py\<close>: the ladder of responses an agent climbs while its offenses fall into one
  window, and the two switches of a tenant.
\<close>

section \<open>Configuration of the ladder\<close>

text \<open>
  The elements a Python \<open>for\<close> goes through; a number, a boolean or \<open>None\<close> raises. An object gives its
  keys and a text its characters, none of which is an object.
\<close>

fun elements :: "pval \<Rightarrow> pval list option" where
  "elements (VList xs) = Some xs"
| "elements (VDict d) = Some (map (\<lambda>(k, _). VStr k) d)"
| "elements (VStr s) = Some (map (\<lambda>c. VStr [c]) s)"
| "elements _ = None"

definition valid_step :: "pval \<Rightarrow> bool" where
  "valid_step s =
     (case s of VDict d \<Rightarrow> dict_get d ''level'' \<noteq> None \<and> dict_get d ''action'' \<noteq> None | _ \<Rightarrow> False)"

definition stored_steps :: "response_env \<Rightarrow> pval \<Rightarrow> pval" where
  "stored_steps w raw =
     (case raw of
        VStr s \<Rightarrow> (case load_json w s of None \<Rightarrow> VList DEFAULT_STEPS | Some v \<Rightarrow> v)
      | VList xs \<Rightarrow> VList xs
      | _ \<Rightarrow> VList DEFAULT_STEPS)"

definition validated_steps :: "pval list \<Rightarrow> pval list" where
  "validated_steps xs =
     (let validated = filter valid_step xs in if validated = [] then DEFAULT_STEPS else validated)"

definition get_escalation_config :: "response_env \<Rightarrow> string \<Rightarrow> response_db \<Rightarrow>
    (pval list \<times> int \<times> bool) option" where
  "get_escalation_config w tenant db =
     (case dict_get (configs db) tenant of
        None \<Rightarrow> Some (DEFAULT_STEPS, DEFAULT_WINDOW_SEC, True)
      | Some row \<Rightarrow>
          (case elements (stored_steps w (escalation_steps row)) of
             None \<Rightarrow> None
           | Some xs \<Rightarrow> Some (validated_steps xs, escalation_window row, escalation_enabled row)))"

section \<open>Climbing\<close>

record escalation_result =
  new_level :: int
  esc_action :: pval
  esc_params :: pval
  esc_label :: "pval option"
  esc_offenses :: int
  window_restarted :: bool

text \<open>
  \<open>step[k]\<close> and \<open>step.get(k, v)\<close>; a step is an object with an action. The label of a step without
  one is derived from the level and is \<open>None\<close> here.
\<close>

definition step_field :: "pval \<Rightarrow> string \<Rightarrow> pval \<Rightarrow> pval" where
  "step_field s k v = (case s of VDict d \<Rightarrow> dict_get_or d k v | _ \<Rightarrow> v)"

definition step_result :: "pval \<Rightarrow> int \<Rightarrow> pval option \<Rightarrow> int \<Rightarrow> bool \<Rightarrow> escalation_result" where
  "step_result s level label offenses restarted =
     \<lparr>new_level = level, esc_action = step_field s ''action'' VNone,
      esc_params = step_field s ''params'' (VDict []),
      esc_label = (case s of VDict d \<Rightarrow> (case dict_get d ''label'' of None \<Rightarrow> label | Some l \<Rightarrow> Some l)
                    | _ \<Rightarrow> label),
      esc_offenses = offenses, window_restarted = restarted\<rparr>"

text \<open>
  The row the query sees: not one that is soft-deleted, and, because of \<open>SKIP LOCKED\<close>, not one that
  another transaction holds.
\<close>

definition live_row :: "string \<Rightarrow> string \<Rightarrow> response_db \<Rightarrow> escalation_row option" where
  "live_row tenant agent db =
     (case dict_get (escalations db) (tenant, agent) of
        Some row \<Rightarrow> if deleted_at row = None then Some row else None
      | None \<Rightarrow> None)"

definition seen_row :: "response_env \<Rightarrow> string \<Rightarrow> string \<Rightarrow> response_db \<Rightarrow> escalation_row option" where
  "seen_row w tenant agent db =
     (if row_locked w tenant agent then None else live_row tenant agent db)"

text \<open>The new level, the offense count and whether the window starts again.\<close>

definition climb :: "rat \<Rightarrow> int \<Rightarrow> int \<Rightarrow> escalation_row option \<Rightarrow> int \<times> int \<times> bool" where
  "climb now window_sec max_level row =
     (case row of
        None \<Rightarrow> (1, 1, True)
      | Some r \<Rightarrow>
          if first_offense r + of_int window_sec < now then (1, 1, True)
          else (min (current_level r + 1) max_level, offense_count r + 1, False))"

text \<open>The \<open>ON CONFLICT\<close> update does not name \<open>deleted_at\<close>.\<close>

definition upsert_escalation :: "rat \<Rightarrow> int \<Rightarrow> string \<Rightarrow> string \<Rightarrow> int \<Rightarrow> int \<Rightarrow> bool \<Rightarrow> response_db \<Rightarrow> response_db" where
  "upsert_escalation now window_sec tenant agent level offenses restarted db =
     (let row = (case dict_get (escalations db) (tenant, agent) of
                   None \<Rightarrow> \<lparr>current_level = level, offense_count = offenses, first_offense = now,
                            last_offense = now, reset_at = now + of_int window_sec, deleted_at = None\<rparr>
                 | Some r \<Rightarrow> r\<lparr>current_level := level, offense_count := offenses,
                            first_offense := (if restarted then now else first_offense r),
                            last_offense := now, reset_at := now + of_int window_sec\<rparr>)
      in db\<lparr>escalations := dict_set (tenant, agent) row (escalations db)\<rparr>)"

text \<open>\<open>evaluate_escalation\<close>: the agent column holds UUIDs only, another text raises.\<close>

definition evaluate_escalation :: "response_env \<Rightarrow> string \<Rightarrow> string \<Rightarrow> escalation_result operation" where
  "evaluate_escalation w tenant agent db =
     (case get_escalation_config w tenant db of
        None \<Rightarrow> (None, db)
      | Some (steps, window_sec, enabled) \<Rightarrow>
          if \<not> enabled then
            (Some (step_result (hd steps) 1 (Some (VStr ''Monitor'')) 1 True), db)
          else
            case uuid_column w agent of
              None \<Rightarrow> (None, db)
            | Some aid \<Rightarrow>
                (let max_level = int (length steps);
                     (level0, offenses, restarted) = climb (clock w) window_sec max_level (seen_row w tenant aid db);
                     level = max 1 (min level0 max_level);
                     s = steps ! nat (level - 1)
                 in (Some (step_result s level None offenses restarted),
                     upsert_escalation (clock w) window_sec tenant aid level offenses restarted db)))"

section \<open>Reset and status\<close>

definition reset_escalation :: "response_env \<Rightarrow> string \<Rightarrow> string \<Rightarrow> bool operation" where
  "reset_escalation w tenant agent db =
     (case uuid_column w agent of
        None \<Rightarrow> (None, db)
      | Some aid \<Rightarrow>
          (case live_row tenant aid db of
             None \<Rightarrow> (Some False, db)
           | Some row \<Rightarrow> (Some True, db\<lparr>escalations :=
               dict_set (tenant, aid) (row\<lparr>deleted_at := Some (clock w)\<rparr>) (escalations db)\<rparr>)))"

text \<open>The rows of a status answer: that of one agent, or the 200 latest of the tenant.\<close>

definition get_escalation_state :: "response_env \<Rightarrow> string \<Rightarrow> string option \<Rightarrow> response_db \<Rightarrow>
    (string \<times> escalation_row) list option" where
  "get_escalation_state w tenant agent db =
     (let tenant_rows = map (\<lambda>((_, a), r). (a, r)) (filter (\<lambda>((t, _), r). t = tenant \<and> deleted_at r = None) (escalations db));
          all_rows = take 200 (sort_key (\<lambda>(_, r). - last_offense r) tenant_rows)
      in case agent of
           None \<Rightarrow> Some all_rows
         | Some a \<Rightarrow>
             if a = [] then Some all_rows
             else case uuid_column w a of
               None \<Rightarrow> None
             | Some aid \<Rightarrow> Some (filter (\<lambda>(b, _). b = aid) tenant_rows))"

section \<open>Shadow mode\<close>

definition set_shadow_mode :: "response_env \<Rightarrow> string \<Rightarrow> bool \<Rightarrow> string option \<Rightarrow> rat option \<Rightarrow>
    response_db \<Rightarrow> response_db" where
  "set_shadow_mode w tenant enabled set_by expires_at db =
     upsert_config tenant (\<lambda>c. c\<lparr>shadow_mode := enabled, shadow_expires_at := expires_at,
       shadow_set_by := set_by, config_updated_at := clock w\<rparr>) db"

definition shadow_expired :: "response_env \<Rightarrow> response_config \<Rightarrow> bool" where
  "shadow_expired w c = (case shadow_expires_at c of None \<Rightarrow> False | Some t \<Rightarrow> t < clock w)"

definition is_shadow_mode :: "response_env \<Rightarrow> string \<Rightarrow> response_db \<Rightarrow> bool \<times> response_db" where
  "is_shadow_mode w tenant db =
     (case dict_get (configs db) tenant of
        None \<Rightarrow> (True, db)
      | Some row \<Rightarrow>
          if \<not> shadow_mode row then (False, db)
          else if shadow_expired w row then (False, set_shadow_mode w tenant False None None db)
          else (True, db))"

text \<open>The answers of the three operations: the flag and the expiry, and for the status who set it and when.\<close>

definition enable_shadow_mode :: "response_env \<Rightarrow> string \<Rightarrow> string option \<Rightarrow> int option \<Rightarrow> response_db \<Rightarrow>
    (bool \<times> rat option) \<times> response_db" where
  "enable_shadow_mode w tenant set_by duration_hours db =
     (let expires_at = (case duration_hours of
                          None \<Rightarrow> None
                        | Some h \<Rightarrow> if 0 < h then Some (clock w + 3600 * of_int (min h 8760)) else None)
      in ((True, expires_at), set_shadow_mode w tenant True set_by expires_at db))"

definition disable_shadow_mode :: "response_env \<Rightarrow> string \<Rightarrow> string option \<Rightarrow> response_db \<Rightarrow>
    (bool \<times> rat option) \<times> response_db" where
  "disable_shadow_mode w tenant set_by db =
     ((False, None), set_shadow_mode w tenant False set_by None db)"

record shadow_status =
  status_mode :: bool
  status_expires_at :: "rat option"
  status_set_by :: "string option"
  status_updated_at :: "rat option"
  effective :: bool

definition get_shadow_status :: "response_env \<Rightarrow> string \<Rightarrow> response_db \<Rightarrow> shadow_status" where
  "get_shadow_status w tenant db =
     (case dict_get (configs db) tenant of
        None \<Rightarrow> \<lparr>status_mode = True, status_expires_at = None, status_set_by = None,
                 status_updated_at = None, effective = True\<rparr>
      | Some row \<Rightarrow> \<lparr>status_mode = shadow_mode row, status_expires_at = shadow_expires_at row,
                     status_set_by = shadow_set_by row,
                     status_updated_at = Some (config_updated_at row),
                     effective = (shadow_mode row \<and> \<not> shadow_expired w row)\<rparr>)"

section \<open>Kill switch\<close>

definition check_kill_switch :: "string \<Rightarrow> response_db \<Rightarrow> bool \<times> string" where
  "check_kill_switch tenant db =
     (case dict_get (configs db) tenant of
        None \<Rightarrow> (False, [])
      | Some row \<Rightarrow>
          if kill_switch row then
            (True, if kill_switch_reason row = [] then ''Kill switch active'' else kill_switch_reason row)
          else (False, []))"

definition set_kill_switch :: "response_env \<Rightarrow> string \<Rightarrow> bool \<Rightarrow> string \<Rightarrow> string option \<Rightarrow> response_db \<Rightarrow>
    response_db" where
  "set_kill_switch w tenant active reason set_by db =
     upsert_config tenant (\<lambda>c. c\<lparr>kill_switch := active, kill_switch_reason := take 1000 reason,
       kill_switch_set_by := set_by, kill_switch_set_at := (if active then Some (clock w) else None),
       config_updated_at := clock w\<rparr>) db"

definition get_kill_switch_status :: "string \<Rightarrow> response_db \<Rightarrow> bool \<times> string \<times> string option \<times> rat option" where
  "get_kill_switch_status tenant db =
     (case dict_get (configs db) tenant of
        None \<Rightarrow> (False, [], None, None)
      | Some row \<Rightarrow> (kill_switch row, kill_switch_reason row, kill_switch_set_by row, kill_switch_set_at row))"

end
