(* ===== verification/Agent_Commands.thy ===== *)
theory Agent_Commands
  imports Response_State
begin

text \<open>
  \<open>backend/app/services/agent_command_service.py\<close>: the queue of response commands for the sensors,
  the regular expressions that guard its identifiers, and the life of a command from pending to
  completed or failed.
\<close>

section \<open>Identifiers\<close>

definition is_lower_hex :: "char \<Rightarrow> bool" where
  "is_lower_hex c \<longleftrightarrow> (let n = (of_char c :: nat) in 48 \<le> n \<and> n \<le> 57 \<or> 97 \<le> n \<and> n \<le> 102)"

definition is_hex :: "char \<Rightarrow> bool" where
  "is_hex c \<longleftrightarrow> is_lower_hex c \<or> (let n = (of_char c :: nat) in 65 \<le> n \<and> n \<le> 70)"

definition is_lower_alnum :: "char \<Rightarrow> bool" where
  "is_lower_alnum c \<longleftrightarrow> (let n = (of_char c :: nat) in 48 \<le> n \<and> n \<le> 57 \<or> 97 \<le> n \<and> n \<le> 122)"

text \<open>\<open>_UUID_RE\<close>: 8, 4, 4, 4 and 12 hexadecimal digits of either case, joined by hyphens.\<close>

fun hex_groups :: "nat list \<Rightarrow> string \<Rightarrow> bool" where
  "hex_groups [] s \<longleftrightarrow> s = []"
| "hex_groups [n] s \<longleftrightarrow> length s = n \<and> list_all is_hex s"
| "hex_groups (n # m # ms) s \<longleftrightarrow>
     n < length s \<and> list_all is_hex (take n s) \<and> s ! n = CHR ''-'' \<and> hex_groups (m # ms) (drop (Suc n) s)"

definition matches_uuid :: "string \<Rightarrow> bool" where
  "matches_uuid s = hex_groups [8, 4, 4, 4, 12] (strip_final_newline s)"

text \<open>A lower-case letter or digit and then up to \<open>n\<close> of those and hyphens.\<close>

definition paid_part :: "nat \<Rightarrow> string \<Rightarrow> bool" where
  "paid_part n s \<longleftrightarrow>
     (case s of [] \<Rightarrow> False
      | c # cs \<Rightarrow> is_lower_alnum c \<and> length cs \<le> n \<and> list_all (\<lambda>x. is_lower_alnum x \<or> x = CHR ''-'') cs)"

text \<open>\<open>_PAID_RE\<close>: \<open>ptx-\<close>, two parts joined by a hyphen somewhere, a hyphen and 12 hexadecimal digits.\<close>

definition matches_paid :: "string \<Rightarrow> bool" where
  "matches_paid s0 \<longleftrightarrow>
     (let s = strip_final_newline s0;
          body = take (length s - 17) (drop 4 s);
          tail = drop (length s - 13) s
      in 17 \<le> length s \<and> take 4 s = ''ptx-'' \<and>
         hd tail = CHR ''-'' \<and> list_all is_lower_hex (tl tail) \<and>
         list_ex (\<lambda>i. body ! i = CHR ''-'' \<and> paid_part 62 (take i body) \<and>
                   paid_part 30 (drop (Suc i) body)) [0..<length body])"

definition is_sensor_char :: "char \<Rightarrow> bool" where
  "is_sensor_char c \<longleftrightarrow> is_lower_alnum c \<or> (let n = (of_char c :: nat) in 65 \<le> n \<and> n \<le> 90)"

definition matches_sensor :: "string \<Rightarrow> bool" where
  "matches_sensor s0 \<longleftrightarrow>
     (let s = strip_final_newline s0
      in 2 \<le> length s \<and> length s \<le> 256 \<and> is_sensor_char (hd s) \<and> is_sensor_char (last s) \<and>
         list_all (\<lambda>c. is_sensor_char c \<or> c = CHR ''_'' \<or> c = CHR ''-'') (butlast (tl s)))"

section \<open>Queueing\<close>

definition ACTION_TO_COMMAND :: "(string, string) dict" where
  "ACTION_TO_COMMAND =
     [(''isolate_agent'', ''isolate_host''), (''block_ip'', ''block_ip''),
      (''quarantine_file'', ''quarantine_file''), (''kill_process'', ''kill_process''),
      (''disable_user'', ''disable_user''), (''collect_forensics'', ''collect_forensics'')]"

definition MAX_REASON_LENGTH :: nat where "MAX_REASON_LENGTH = 1000"
definition MAX_PARAMS_SIZE :: nat where "MAX_PARAMS_SIZE = 8192"

datatype queue_error = UnknownAction string | InvalidAgent | ParametersTooLarge nat

definition queue_command :: "response_env \<Rightarrow> string \<Rightarrow> string \<Rightarrow> string option \<Rightarrow> string \<Rightarrow>
    (string, pval) dict \<Rightarrow> string option \<Rightarrow> string \<Rightarrow> response_db \<Rightarrow>
    (queue_error + agent_command) \<times> response_db" where
  "queue_command w tenant agent alert action params issued_by reason db =
     (case dict_get ACTION_TO_COMMAND action of
        None \<Rightarrow> (Inl (UnknownAction action), db)
      | Some command_type \<Rightarrow>
          if \<not> matches_uuid agent \<and> \<not> matches_paid agent then (Inl InvalidAgent, db)
          else if MAX_PARAMS_SIZE < json_length w params
          then (Inl (ParametersTooLarge (json_length w params)), db)
          else
            (let cmd = \<lparr>cmd_id = fresh_id w (length (commands db)), cmd_tenant = tenant,
                   cmd_agent = agent, cmd_alert = alert, cmd_type = command_type,
                   cmd_params = params, cmd_status = Pending, cmd_issued_by = issued_by,
                   cmd_reason = take MAX_REASON_LENGTH reason, cmd_created_at = clock w,
                   cmd_dispatched_at = None, cmd_completed_at = None, cmd_result = None\<rparr>
             in (Inr cmd, db\<lparr>commands := commands db @ [cmd]\<rparr>)))"

section \<open>Polling\<close>

definition clamp :: "int \<Rightarrow> int \<Rightarrow> int \<Rightarrow> int" where
  "clamp lo hi n = max lo (min n hi)"

definition pending_of :: "(agent_command \<Rightarrow> bool) \<Rightarrow> int \<Rightarrow> response_db \<Rightarrow> agent_command list" where
  "pending_of P limit db =
     take (nat (clamp 1 50 limit))
       (sort_key cmd_created_at (filter (\<lambda>c. P c \<and> cmd_status c = Pending) (commands db)))"

definition get_pending_commands :: "string \<Rightarrow> int \<Rightarrow> response_db \<Rightarrow> agent_command list" where
  "get_pending_commands agent = pending_of (\<lambda>c. cmd_agent c = agent)"

text \<open>
  The agents of a sensor are the rows of the table of agents, a list of agent and sensor; one row
  of the answer for each pair of a command and an agent row.
\<close>

definition get_pending_commands_by_sensor :: "(string \<times> string) list \<Rightarrow> string \<Rightarrow> int \<Rightarrow> response_db \<Rightarrow>
    agent_command list" where
  "get_pending_commands_by_sensor agents sensor limit db =
     (if \<not> matches_sensor sensor then []
      else take (nat (clamp 1 50 limit))
        (sort_key cmd_created_at
          (concat (map (\<lambda>c. map (\<lambda>_. c) (filter (\<lambda>(a, s). a = cmd_agent c \<and> s = sensor) agents))
            (filter (\<lambda>c. cmd_status c = Pending) (commands db))))))"

definition get_command_history :: "string \<Rightarrow> int \<Rightarrow> response_db \<Rightarrow> agent_command list" where
  "get_command_history alert limit db =
     (if \<not> matches_uuid alert then []
      else take (nat (clamp 1 100 limit))
        (sort_key (\<lambda>c. - cmd_created_at c) (filter (\<lambda>c. cmd_alert c = Some alert) (commands db))))"

section \<open>Progress\<close>

definition update_commands :: "(agent_command \<Rightarrow> bool) \<Rightarrow> (agent_command \<Rightarrow> agent_command) \<Rightarrow>
    response_db \<Rightarrow> response_db" where
  "update_commands P f db = db\<lparr>commands := map (\<lambda>c. if P c then f c else c) (commands db)\<rparr>"

definition mark_dispatched :: "response_env \<Rightarrow> string \<Rightarrow> unit operation" where
  "mark_dispatched w cid db =
     (if \<not> matches_uuid cid then (None, db)
      else (Some (), update_commands (\<lambda>c. cmd_id c = cid \<and> cmd_status c = Pending)
              (\<lambda>c. c\<lparr>cmd_status := Dispatched, cmd_dispatched_at := Some (clock w)\<rparr>) db))"

text \<open>
  \<open>_summarize_result\<close>; \<open>repr\<close> gives the text of lists and objects. The ellipsis character is above code
  point 255 and is written as three dots.
\<close>

definition summarize_result :: "(pval \<Rightarrow> string) \<Rightarrow> (string, pval) dict \<Rightarrow> string" where
  "summarize_result repr data =
     (if data = [] then []
      else case dict_get_or data ''message'' (dict_get_or data ''error'' (VStr [])) of
             VStr s \<Rightarrow> if 256 < length s then take 256 s @ ''...'' else s
           | v \<Rightarrow> py_str repr v)"

definition bounded_result :: "response_env \<Rightarrow> (string, pval) dict \<Rightarrow> (string, pval) dict" where
  "bounded_result w data =
     (if MAX_PARAMS_SIZE < json_length w data
      then [(''error'', VStr ''result_truncated''), (''size'', VNum (NInt (int (json_length w data))))]
      else data)"

definition optional_value :: "string option \<Rightarrow> pval" where
  "optional_value s = (case s of None \<Rightarrow> VNone | Some t \<Rightarrow> if t = [] then VNone else VStr t)"

text \<open>
  The entry for the learning pipeline is written for the row with this identifier, whether or not
  the update changed it; a failure to write it is swallowed.
\<close>

definition outcome_entry :: "(pval \<Rightarrow> string) \<Rightarrow> bool \<Rightarrow> (string, pval) dict \<Rightarrow> agent_command \<Rightarrow> audit_entry" where
  "outcome_entry repr success data c =
     \<lparr>audit_tenant = cmd_tenant c, audit_user = cmd_issued_by c,
      audit_action = ''ml.action_outcome.'' @ (if success then ''completed'' else ''failed''),
      audit_resource = cmd_id c,
      audit_details = [(''command_type'', VStr (cmd_type c)), (''agent_id'', VStr (cmd_agent c)),
        (''alert_id'', optional_value (cmd_alert c)), (''success'', VBool success),
        (''result_summary'', VStr (summarize_result repr data)), (''reason'', VStr (cmd_reason c))]\<rparr>"

definition mark_completed :: "response_env \<Rightarrow> (pval \<Rightarrow> string) \<Rightarrow> string \<Rightarrow> bool \<Rightarrow> (string, pval) dict \<Rightarrow>
    unit operation" where
  "mark_completed w repr cid success data db =
     (if \<not> matches_uuid cid then (None, db)
      else
        (let db' = update_commands
               (\<lambda>c. cmd_id c = cid \<and> cmd_status c \<in> {Pending, Dispatched, Acknowledged})
               (\<lambda>c. c\<lparr>cmd_status := (if success then Completed else Failed),
                      cmd_completed_at := Some (clock w), cmd_result := Some (bounded_result w data)\<rparr>) db
         in (Some (),
             case find (\<lambda>c. cmd_id c = cid) (commands db') of
               None \<Rightarrow> db'
             | Some c \<Rightarrow> if audit_works w
                         then db'\<lparr>audit_log := audit_log db' @ [outcome_entry repr success data c]\<rparr>
                         else db')))"

end
