(* ===== verification/Response_Orchestrator.thy ===== *)
theory Response_Orchestrator
  imports Response_Policy Response_Escalation Agent_Commands
begin

text \<open>
  \<open>backend/app/services/response/dispatcher.py\<close> and \<open>orchestrator.py\<close>: the enforcement backends, the
  dispatch of one action, and the pipeline an alert goes through.
\<close>

section \<open>Outcomes\<close>

datatype dispatch_error =
  UnknownDispatch pval
| NoDispatcher
| BadAgentId
| MissingAgentId
| MissingServerId
| MissingChannelConfig
| QueueError queue_error
| BadTenant
| Outside string
| LogFailed

record dispatch_result =
  res_success :: bool
  res_action :: pval
  res_decision :: string
  res_details :: "(string, pval) dict"
  res_error :: "dispatch_error option"

definition done_result :: "string \<Rightarrow> string \<Rightarrow> (string, pval) dict \<Rightarrow> dispatch_result" where
  "done_result action decision details =
     \<lparr>res_success = True, res_action = VStr action, res_decision = decision, res_details = details,
      res_error = None\<rparr>"

definition error_result :: "pval \<Rightarrow> dispatch_error \<Rightarrow> dispatch_result" where
  "error_result action e =
     \<lparr>res_success = False, res_action = action, res_decision = ''error'', res_details = [],
      res_error = Some e\<rparr>"

text \<open>A result of a backend: it returns a result, or an exception with its reason leaves it.\<close>

type_synonym backend = "response_db \<Rightarrow> (dispatch_error + dispatch_result) \<times> response_db"

section \<open>Enforcement backends\<close>

definition AGENT_ACTIONS :: "string list" where
  "AGENT_ACTIONS =
     [''isolate_agent'', ''block_ip'', ''quarantine_file'', ''kill_process'', ''disable_user'',
      ''collect_forensics'']"

definition PASSIVE_ACTIONS :: "string list" where
  "PASSIVE_ACTIONS = [''log_only'', ''throttle'']"

definition no_text :: "string option \<Rightarrow> bool" where
  "no_text s \<longleftrightarrow> (case s of None \<Rightarrow> True | Some t \<Rightarrow> t = [])"

definition dispatch_agent_command :: "response_env \<Rightarrow> string \<Rightarrow> string option \<Rightarrow> string \<Rightarrow> string \<Rightarrow>
    (string, pval) dict \<Rightarrow> backend" where
  "dispatch_agent_command w tenant agent alert action params db =
     (case agent of
        None \<Rightarrow> (Inr (error_result (VStr action) BadAgentId), db)
      | Some a \<Rightarrow>
          if a = [] \<or> \<not> matches_uuid a then (Inr (error_result (VStr action) BadAgentId), db)
          else case to_uuid w tenant of
            None \<Rightarrow> (Inl BadTenant, db)
          | Some t \<Rightarrow>
              (case queue_command w t a (Some alert) action params None
                      (''Auto-response: policy match on alert '' @ alert) db of
                 (Inl e, db') \<Rightarrow> (Inl (QueueError e), db')
               | (Inr cmd, db') \<Rightarrow>
                   (Inr (done_result action ''executed''
                      [(''command_id'', VStr (cmd_id cmd)), (''command_type'', VStr (cmd_type cmd))]), db')))"

definition dispatch_trust_penalty :: "response_env \<Rightarrow> string \<Rightarrow> string option \<Rightarrow> backend" where
  "dispatch_trust_penalty w tenant agent db =
     (if no_text agent then (Inr (error_result (VStr ''trust_penalty'') MissingAgentId), db)
      else case trust_reply w tenant (the agent) of
        Inl e \<Rightarrow> (Inr (error_result (VStr ''trust_penalty'') (Outside e)), db)
      | Inr (source_score, target_score) \<Rightarrow>
          (Inr (done_result ''trust_penalty'' ''executed''
             [(''source_score'', source_score), (''target_score'', target_score)]),
           db\<lparr>trust_penalties := trust_penalties db @ [(tenant, the agent)]\<rparr>))"

text \<open>The registry that is told to block the server is a new one, and is dropped.\<close>

definition dispatch_mcp_block :: "response_env \<Rightarrow> string \<Rightarrow> (string, pval) dict \<Rightarrow> backend" where
  "dispatch_mcp_block w tenant params db =
     (let server = dict_get_or params ''server_id'' VNone
      in if \<not> truthy server
         then (Inr (error_result (VStr ''block_mcp_server'') MissingServerId), db)
         else if \<not> hashable server
         then (Inr (error_result (VStr ''block_mcp_server'') (Outside ''unhashable type'')), db)
         else let registry = new_registry;
                  (found, blocked) = mcp_block (clock w) tenant server registry
              in (Inr (done_result ''block_mcp_server'' ''executed'' [(''server_id'', server)]), db))"

definition notification_payload :: "alert_facts \<Rightarrow> response_policy \<Rightarrow> (string, pval) dict" where
  "notification_payload a p =
     [(''alert_id'', VStr (al_id a)), (''severity'', VStr (al_severity a)),
      (''confidence'', VNum (NFloat (al_confidence a))),
      (''attack_class'', VStr (al_attack_class a)), (''event_type'', VStr (al_event_type a)),
      (''agent_id'', case al_agent a of None \<Rightarrow> VNone | Some s \<Rightarrow> VStr s),
      (''auto_response'', VBool True), (''policy_name'', VStr (policy_name p)),
      (''action'', VStr (policy_action p))]"

definition dispatch_notification :: "response_env \<Rightarrow> string \<Rightarrow> alert_facts \<Rightarrow> response_policy \<Rightarrow> backend" where
  "dispatch_notification w tenant a p db =
     (let kind = dict_get_or (policy_params p) ''channel_type'' (VStr ''webhook'');
          config = dict_get_or (policy_params p) ''channel_config'' (VDict [])
      in if \<not> truthy config
         then (Inr (error_result (VStr ''notify_soc'') MissingChannelConfig), db)
         else case channel_reply w kind config of
           Inl e \<Rightarrow> (Inr (error_result (VStr ''notify_soc'') (Outside e)), db)
         | Inr _ \<Rightarrow> (Inr (done_result ''notify_soc'' ''executed'' [(''channel_type'', kind)]),
             db\<lparr>notifications := notifications db @ [(tenant, kind, notification_payload a p)]\<rparr>))"

section \<open>Dispatch\<close>

definition enforce :: "response_env \<Rightarrow> alert_facts \<Rightarrow> response_policy \<Rightarrow> string \<Rightarrow> backend" where
  "enforce w a p action db =
     (let tenant = policy_tenant p
      in if action \<in> set AGENT_ACTIONS
         then dispatch_agent_command w tenant (al_agent a) (al_id a) action (policy_params p) db
         else if action = ''trust_penalty'' then dispatch_trust_penalty w tenant (al_agent a) db
         else if action = ''block_mcp_server'' then dispatch_mcp_block w tenant (policy_params p) db
         else if action = ''notify_soc'' then dispatch_notification w tenant a p db
         else if action \<in> set PASSIVE_ACTIONS
         then (Inr (done_result action ''executed'' [(''passive'', VBool True)]), db)
         else (Inr (error_result (VStr action) NoDispatcher), db))"

definition log_dispatch :: "response_env \<Rightarrow> alert_facts \<Rightarrow> response_policy \<Rightarrow> string \<Rightarrow> string \<Rightarrow>
    int option \<Rightarrow> string operation" where
  "log_dispatch w a p action decision level =
     log_decision w (policy_tenant p) (al_id a) (Some (policy_id p)) (al_agent a) action
       (policy_params p) decision (al_severity a) (al_confidence a) (al_attack_class a)
       (al_event_type a) level"

text \<open>The handler of \<open>dispatch\<close>: it logs the error if it can, and returns it.\<close>

definition dispatch_failed :: "response_env \<Rightarrow> alert_facts \<Rightarrow> response_policy \<Rightarrow> string \<Rightarrow> int option \<Rightarrow>
    dispatch_error \<Rightarrow> dispatch_result operation" where
  "dispatch_failed w a p action level e db =
     (Some (error_result (VStr action) e), snd (log_dispatch w a p action ''error'' level db))"

definition enforce_and_log :: "response_env \<Rightarrow> alert_facts \<Rightarrow> response_policy \<Rightarrow> string \<Rightarrow> int option \<Rightarrow>
    dispatch_result operation" where
  "enforce_and_log w a p action level db =
     (case enforce w a p action db of
        (Inl e, db') \<Rightarrow> dispatch_failed w a p action level e db'
      | (Inr r, db') \<Rightarrow>
          (case log_dispatch w a p action (res_decision r) level db' of
             (Some _, db'') \<Rightarrow> (Some r, db'')
           | (None, db'') \<Rightarrow> dispatch_failed w a p action level LogFailed db''))"

text \<open>
  The action is the one of the escalation step where that is true of it, else the policy's; the
  test of membership raises for a list or an object.
\<close>

definition dispatch :: "response_env \<Rightarrow> alert_facts \<Rightarrow> response_policy \<Rightarrow> bool \<Rightarrow> int option \<Rightarrow>
    pval option \<Rightarrow> dispatch_result operation" where
  "dispatch w a p shadow level escalated db =
     (let action = (case escalated of
                      Some v \<Rightarrow> if truthy v then v else VStr (policy_action p)
                    | None \<Rightarrow> VStr (policy_action p))
      in case action of
           VStr act \<Rightarrow>
             if act \<notin> set ALLOWED_ACTIONS then (Some (error_result action (UnknownDispatch action)), db)
             else if shadow then
               and_then (log_dispatch w a p act ''shadow'' level)
                 (\<lambda>_. give (done_result act ''shadow'' [])) db
             else enforce_and_log w a p act level db
         | VList _ \<Rightarrow> (None, db)
         | VDict _ \<Rightarrow> (None, db)
         | _ \<Rightarrow> (Some (error_result action (UnknownDispatch action)), db))"

section \<open>The pipeline\<close>

definition tenant_rate_limited :: "response_env \<Rightarrow> string \<Rightarrow> response_db \<Rightarrow> bool" where
  "tenant_rate_limited w tenant db =
     rate_limit_exceeded w tenant
       (case dict_get (configs db) tenant of None \<Rightarrow> 50 | Some row \<Rightarrow> max_actions_per_hour row) db"

text \<open>The level and, when it differs from the action of the policy, the action of the ladder.\<close>

definition escalate :: "response_env \<Rightarrow> alert_facts \<Rightarrow> response_policy \<Rightarrow> (int option \<times> pval option) operation" where
  "escalate w a p db =
     (if no_text (al_agent a) then (Some (None, None), db)
      else and_then (evaluate_escalation w (al_tenant a) (the (al_agent a)))
        (\<lambda>r. give (Some (new_level r),
                   if py_eq (esc_action r) (VStr (policy_action p)) then None
                   else Some (esc_action r))) db)"

definition audit_response :: "response_env \<Rightarrow> alert_facts \<Rightarrow> response_policy \<Rightarrow> bool \<Rightarrow> int option \<Rightarrow>
    dispatch_result \<Rightarrow> response_db \<Rightarrow> response_db" where
  "audit_response w a p shadow level r db =
     (case to_uuid w (al_tenant a) of
        None \<Rightarrow> db
      | Some t \<Rightarrow>
          (case to_uuid w (al_id a) of
             None \<Rightarrow> db
           | Some aid \<Rightarrow>
               if \<not> audit_works w then db
               else db\<lparr>audit_log := audit_log db @
                 [\<lparr>audit_tenant = t, audit_user = None,
                   audit_action = ''auto_response.'' @ res_decision r, audit_resource = aid,
                   audit_details =
                     [(''policy_id'', VStr (policy_id p)), (''policy_name'', VStr (policy_name p)),
                      (''action'', res_action r), (''shadow'', VBool shadow),
                      (''escalation_level'',
                        case level of None \<Rightarrow> VNone | Some n \<Rightarrow> VNum (NInt n)),
                      (''success'', VBool (res_success r))]\<rparr>]\<rparr>))"

text \<open>Steps 4 to 7 of \<open>handle_alert\<close>, for a policy that matched and a tenant below its limit.\<close>

definition respond :: "response_env \<Rightarrow> alert_facts \<Rightarrow> response_policy \<Rightarrow> dispatch_result option operation" where
  "respond w a p db =
     (case is_shadow_mode w (al_tenant a) db of
        (shadow, db1) \<Rightarrow>
          and_then (escalate w a p) (\<lambda>(level, escalated).
            and_then (dispatch w a p shadow level escalated) (\<lambda>r.
              (\<lambda>db'. (Some (Some r), audit_response w a p shadow level r db')))) db1)"

definition refused :: "string \<Rightarrow> string \<Rightarrow> (string, pval) dict \<Rightarrow> dispatch_result" where
  "refused action decision details =
     \<lparr>res_success = False, res_action = VStr action, res_decision = decision, res_details = details,
      res_error = None\<rparr>"

definition handle_alert_body :: "response_env \<Rightarrow> alert_facts \<Rightarrow> dispatch_result option operation" where
  "handle_alert_body w a db =
     (case check_kill_switch (al_tenant a) db of
        (True, reason) \<Rightarrow>
          and_then (log_for w a None ''none'' [] ''blocked_kill_switch'' None)
            (\<lambda>_. give (Some (refused ''none'' ''blocked_kill_switch'' [(''reason'', VStr reason)]))) db
      | (False, _) \<Rightarrow>
          and_then (evaluate_alert w a) (\<lambda>found.
            case found of
              None \<Rightarrow> give None
            | Some p \<Rightarrow> (\<lambda>db'.
                if tenant_rate_limited w (al_tenant a) db' then
                  and_then (log_for w a (Some (policy_id p)) (policy_action p) (policy_params p)
                              ''rate_limited'' None)
                    (\<lambda>_. give (Some (refused (policy_action p) ''rate_limited'' []))) db'
                else respond w a p db')) db)"

definition handle_alert :: "response_env \<Rightarrow> alert_facts \<Rightarrow> response_db \<Rightarrow>
    dispatch_result option \<times> response_db" where
  "handle_alert w a db =
     (case handle_alert_body w a db of
        (None, db') \<Rightarrow> (None, db')
      | (Some r, db') \<Rightarrow> (r, db'))"

end
