(* ===== verification/Response_Invariant.thy ===== *)
theory Response_Invariant
  imports Response_Orchestrator
begin

text \<open>
  The invariant of the response layer, kept by the pipeline, the switches, the orders and their acknowledgements, which
  also only append to the action log; the routes of the administrators follow in \<open>Response_Admin_Props\<close>, one of
  which changes entries of the log. Statements about operations
  have the form \<open>holds I m Q\<close>: from a state with \<open>I\<close>, \<open>m\<close> ends in one with \<open>I\<close>, also when it raises, and
  its result has \<open>Q\<close>.
\<close>

section \<open>Pre- and postconditions\<close>

definition holds :: "(response_db \<Rightarrow> bool) \<Rightarrow> 'a operation \<Rightarrow> ('a \<Rightarrow> bool) \<Rightarrow> bool" where
  "holds I m Q \<longleftrightarrow> (\<forall>db. I db \<longrightarrow> I (snd (m db)) \<and> (\<forall>x. fst (m db) = Some x \<longrightarrow> Q x))"

named_theorems holds_intros \<open>rules for the operations of the response layer\<close>

lemma holds_give [holds_intros]: "Q x \<Longrightarrow> holds I (give x) Q"
  by (simp add: holds_def give_def)

lemma holds_and_then [holds_intros]:
  "holds I m Q \<Longrightarrow> (\<And>x. Q x \<Longrightarrow> holds I (f x) R) \<Longrightarrow> holds I (and_then m f) R"
  unfolding holds_def and_then_def by (auto split: prod.split option.split)

lemma holds_true: "holds I m Q \<Longrightarrow> holds I m (\<lambda>_. True)"
  by (simp add: holds_def)

lemma holds_if [holds_intros]:
  "(b \<Longrightarrow> holds I m Q) \<Longrightarrow> (\<not> b \<Longrightarrow> holds I n Q) \<Longrightarrow> holds I (if b then m else n) Q"
  by simp

lemma holdsD: "holds I m Q \<Longrightarrow> I db \<Longrightarrow> I (snd (m db))"
  by (simp add: holds_def)

lemma holds_result: "holds I m Q \<Longrightarrow> I db \<Longrightarrow> m db = (Some x, db') \<Longrightarrow> Q x"
  by (auto simp: holds_def dest!: spec [of _ db])

section \<open>The invariant\<close>

definition DECISIONS :: "string list" where
  "DECISIONS =
     [''executed'', ''shadow'', ''blocked_kill_switch'', ''cooldown_skip'', ''escalated'',
      ''overridden'', ''rate_limited'', ''error'']"

definition entry_ok :: "action_entry \<Rightarrow> bool" where
  "entry_ok e \<longleftrightarrow> entry_decision e \<in> set DECISIONS \<and>
     entry_action e \<in> insert ''none'' (set ALLOWED_ACTIONS) \<and>
     (entry_executed_at e \<noteq> None \<longleftrightarrow> entry_decision e = ''executed'')"

definition policy_ok :: "string \<Rightarrow> response_policy \<Rightarrow> bool" where
  "policy_ok t p \<longleftrightarrow> policy_tenant p = t \<and> policy_enabled p \<and> policy_action p \<in> set ALLOWED_ACTIONS"

definition cache_ok :: "(string, cache_entry) dict \<Rightarrow> bool" where
  "cache_ok c \<longleftrightarrow> dict_wf c \<and> length c \<le> MAX_CACHED_TENANTS \<and>
     (\<forall>(t, e) \<in> set c. \<forall>p \<in> set (cached_policies e). policy_ok t p)"

definition ladder_ok :: "escalation_row \<Rightarrow> bool" where
  "ladder_ok r \<longleftrightarrow> 1 \<le> current_level r \<and> current_level r \<le> offense_count r"

definition command_ok :: "agent_command \<Rightarrow> bool" where
  "command_ok c \<longleftrightarrow> cmd_type c \<in> set (dict_values ACTION_TO_COMMAND) \<and>
     (matches_uuid (cmd_agent c) \<or> matches_paid (cmd_agent c)) \<and>
     length (cmd_reason c) \<le> MAX_REASON_LENGTH"

definition response_ok :: "response_db \<Rightarrow> bool" where
  "response_ok db \<longleftrightarrow> dict_wf (configs db) \<and> cache_ok (policy_cache db) \<and>
     list_all entry_ok (action_log db) \<and>
     (\<forall>r \<in> set (dict_values (escalations db)). ladder_ok r) \<and>
     list_all command_ok (commands db)"

text \<open>The invariant together with a prefix of the log that must not change.\<close>

definition kept :: "action_entry list \<Rightarrow> response_db \<Rightarrow> bool" where
  "kept old db \<longleftrightarrow> response_ok db \<and> (\<exists>new. action_log db = old @ new)"

lemma kept_append [simp]:
  "kept old db \<Longrightarrow> entry_ok e \<Longrightarrow> kept old (db\<lparr>action_log := action_log db @ [e]\<rparr>)"
  by (auto simp: kept_def response_ok_def)

lemma kept_configs [simp]:
  "kept old db \<Longrightarrow> dict_wf c \<Longrightarrow> kept old (db\<lparr>configs := c\<rparr>)"
  by (simp add: kept_def response_ok_def)

lemma kept_cache [simp]:
  "kept old db \<Longrightarrow> cache_ok c \<Longrightarrow> kept old (db\<lparr>policy_cache := c\<rparr>)"
  by (simp add: kept_def response_ok_def)

lemma kept_outside [simp]:
  "kept old (db\<lparr>notifications := n\<rparr>) = kept old db"
  "kept old (db\<lparr>trust_penalties := p\<rparr>) = kept old db"
  "kept old (db\<lparr>audit_log := l\<rparr>) = kept old db"
  "kept old (db\<lparr>rule_registry := g\<rparr>) = kept old db"
  by (simp_all add: kept_def response_ok_def)

lemma kept_commands [simp]:
  "kept old db \<Longrightarrow> list_all command_ok cs \<Longrightarrow> kept old (db\<lparr>commands := cs\<rparr>)"
  by (simp add: kept_def response_ok_def)

lemma kept_ladder:
  assumes "kept old db" and "ladder_ok r"
  shows "kept old (db\<lparr>escalations := dict_set k r (escalations db)\<rparr>)"
proof -
  have "\<forall>x \<in> set (dict_values (dict_set k r (escalations db))). ladder_ok x"
    using assms dict_values_set [of k r "escalations db"]
    by (auto simp: kept_def response_ok_def simp del: set_map)
  with assms show ?thesis by (simp add: kept_def response_ok_def)
qed

section \<open>The policy cache\<close>

lemma cache_ok_del: "cache_ok c \<Longrightarrow> cache_ok (dict_del k c)"
  by (auto simp: cache_ok_def dict_del_def dict_wf_def distinct_map_filter
      intro: order_trans [OF length_filter_le])

lemma length_dict_del: "dict_wf c \<Longrightarrow> k \<in> set (dict_keys c) \<Longrightarrow> length (dict_del k c) = length c - 1"
proof (induction c)
  case (Cons p c)
  then have "fst p \<notin> set (dict_keys c)" by (simp add: dict_wf_def)
  then have all: "dict_del k c = c" if "fst p = k"
    using that by (simp add: dict_del_def filter_id_conv case_prod_beta) (metis image_eqI)
  show ?case
  proof (cases "fst p = k")
    case True
    then show ?thesis using all by (simp add: dict_del_def case_prod_beta)
  next
    case False
    with Cons have "k \<in> set (dict_keys c)" "length (dict_del k c) = length c - 1"
      by (auto simp: dict_wf_def)
    then show ?thesis using False by (cases c) (auto simp: dict_del_def case_prod_beta)
  qed
qed simp

lemma dict_del_keys: "dict_keys (dict_del k c) = filter (\<lambda>x. x \<noteq> k) (dict_keys c)"
  by (induction c) (auto simp: dict_del_def)

lemma length_dict_dels:
  "dict_wf c \<Longrightarrow> distinct ks \<Longrightarrow> set ks \<subseteq> set (dict_keys c) \<Longrightarrow>
   length (foldl (\<lambda>c k. dict_del k c) c ks) = length c - length ks"
proof (induction ks arbitrary: c)
  case (Cons k ks)
  then have "set ks \<subseteq> set (dict_keys (dict_del k c))"
    by (auto simp: dict_del_keys simp del: set_map)
  with Cons show ?case by (simp add: length_dict_del)
qed simp

lemma cache_ok_evict:
  assumes wf: "dict_wf c" and len: "length c \<le> Suc MAX_CACHED_TENANTS"
    and ps: "\<forall>(t, e) \<in> set c. \<forall>p \<in> set (cached_policies e). policy_ok t p"
  shows "cache_ok (evict_cache_if_needed c)"
proof (cases "MAX_CACHED_TENANTS < length c")
  case False
  with wf ps show ?thesis by (simp add: evict_cache_if_needed_def cache_ok_def)
next
  case True
  let ?keys = "map fst (sort_key (\<lambda>(_, e). loaded_at e) c)"
  let ?drop = "take (length ?keys div 4) ?keys"
  have "distinct ?keys" "set ?keys = set (dict_keys c)"
    using wf by (auto simp: dict_wf_def distinct_map)
  then have "distinct ?drop" "set ?drop \<subseteq> set (dict_keys c)"
    by (auto intro: distinct_take dest: in_set_takeD simp del: set_map)
  then have "length (foldl (\<lambda>c k. dict_del k c) c ?drop) = length c - length ?drop"
    by (rule length_dict_dels [OF wf])
  moreover have "length ?drop = length c div 4" by simp
  ultimately have "length (foldl (\<lambda>c k. dict_del k c) c ?drop) \<le> MAX_CACHED_TENANTS"
    using len True by (simp add: MAX_CACHED_TENANTS_def)
  moreover have "dict_wf (foldl (\<lambda>c k. dict_del k c) c ks) \<and>
      set (foldl (\<lambda>c k. dict_del k c) c ks) \<subseteq> set c" for ks
    using wf
  proof (induction ks arbitrary: c)
    case (Cons k ks)
    then have "dict_wf (foldl (\<lambda>c k. dict_del k c) (dict_del k c) ks) \<and>
        set (foldl (\<lambda>c k. dict_del k c) (dict_del k c) ks) \<subseteq> set (dict_del k c)"
      by blast
    then show ?case by (auto simp: dict_del_def)
  qed simp
  ultimately have "cache_ok (foldl (\<lambda>c k. dict_del k c) c ?drop)"
    using ps unfolding cache_ok_def by blast
  with True show ?thesis by (simp add: evict_cache_if_needed_def Let_def)
qed

section \<open>The pipeline keeps the invariant\<close>

lemma first_rows: "p \<in> set (enabled_rows t db) \<Longrightarrow> policy_tenant p = t \<and> policy_enabled p"
  by (auto simp: enabled_rows_def)

lemma load_policies_kept:
  assumes I: "kept old db" and l: "load_policies w t db = (ps, db')"
  shows "kept old db' \<and> (\<forall>p \<in> set ps. policy_ok t p)"
proof -
  have c: "cache_ok (policy_cache db)" using I by (simp add: kept_def response_ok_def)
  have read: "kept old db'' \<and> (\<forall>p \<in> set qs. policy_ok t p)"
    if r: "read_and_cache w t db = (qs, db'')" for qs db''
  proof -
    have qs: "\<forall>p \<in> set qs. policy_ok t p"
      using r first_rows [of _ t db] by (auto simp: read_and_cache_def Let_def read_policy_def policy_ok_def)
    let ?e = "\<lparr>cached_policies = qs, loaded_at = monotonic w\<rparr>"
    have "length (dict_set t ?e (policy_cache db)) \<le> Suc MAX_CACHED_TENANTS"
      using c by (simp add: length_dict_set cache_ok_def)
    moreover have "\<forall>(u, e) \<in> set (dict_set t ?e (policy_cache db)). \<forall>p \<in> set (cached_policies e). policy_ok u p"
    proof clarify
      fix u e p
      assume mem: "(u, e) \<in> set (dict_set t ?e (policy_cache db))" and p: "p \<in> set (cached_policies e)"
      from mem have "(u, e) = (t, ?e) \<or> (u, e) \<in> set (policy_cache db)"
        using set_dict_set_subset [of t ?e "policy_cache db"] by blast
      then show "policy_ok u p" using qs p c by (auto simp: cache_ok_def)
    qed
    ultimately have "cache_ok (evict_cache_if_needed (dict_set t ?e (policy_cache db)))"
      using c by (intro cache_ok_evict) (simp_all add: cache_ok_def)
    then have "kept old db''"
      using r I by (auto simp: read_and_cache_def Let_def)
    with qs show ?thesis by blast
  qed
  show ?thesis
  proof (cases "dict_get (policy_cache db) t")
    case None
    with l read show ?thesis by (simp add: load_policies_def)
  next
    case (Some e)
    then have "(t, e) \<in> set (policy_cache db)" by (rule map_of_SomeD)
    with c have "\<forall>p \<in> set (cached_policies e). policy_ok t p" by (auto simp: cache_ok_def)
    with Some l read I show ?thesis by (auto simp: load_policies_def split: if_splits)
  qed
qed

lemma log_decision_kept [holds_intros]:
  assumes "decision \<in> set DECISIONS" and "action \<in> insert ''none'' (set ALLOWED_ACTIONS)"
  shows "holds (kept old) (log_decision w t al p ag action ps decision sev conf att ev lvl) (\<lambda>_. True)"
  using assms by (auto simp: holds_def log_decision_def entry_ok_def Let_def split: option.split)

lemma log_for_kept [holds_intros]:
  assumes "decision \<in> set DECISIONS" and "action \<in> insert ''none'' (set ALLOWED_ACTIONS)"
  shows "holds (kept old) (log_for w a p action ps decision lvl) (\<lambda>_. True)"
  unfolding log_for_def using assms by (rule log_decision_kept)

lemma check_cooldown_kept [holds_intros]: "holds I (check_cooldown w t p ag n) (\<lambda>_. True)"
  by (simp add: holds_def check_cooldown_def split: option.split)

lemma first_match_kept:
  "\<forall>p \<in> set ps. policy_ok t p \<Longrightarrow>
   holds (kept old) (first_match w a ps) (\<lambda>m. \<forall>p. m = Some p \<longrightarrow> policy_ok t p)"
proof (induction ps)
  case Nil
  then show ?case by (simp add: holds_give)
next
  case (Cons p ps)
  then have p: "policy_ok t p" and ih:
    "holds (kept old) (first_match w a ps) (\<lambda>m. \<forall>p. m = Some p \<longrightarrow> policy_ok t p)"
    by simp_all
  have log: "holds (kept old) (log_for w a (Some (policy_id p)) (policy_action p) (policy_params p)
      ''cooldown_skip'' None) (\<lambda>_. True)"
    using p by (intro log_for_kept) (simp_all add: DECISIONS_def policy_ok_def)
  have "holds (kept old) (give (Some p)) (\<lambda>m. \<forall>p. m = Some p \<longrightarrow> policy_ok t p)"
    using p by (simp add: holds_give)
  with ih log show ?case
    unfolding first_match.simps by (blast intro: holds_intros)
qed

lemma evaluate_alert_kept:
  "holds (kept old) (evaluate_alert w a) (\<lambda>m. \<forall>p. m = Some p \<longrightarrow> policy_ok (al_tenant a) p)"
proof -
  have "kept old (snd (evaluate_alert w a db)) \<and>
      (\<forall>m. fst (evaluate_alert w a db) = Some m \<longrightarrow> (\<forall>p. m = Some p \<longrightarrow> policy_ok (al_tenant a) p))"
    if I: "kept old db" for db
  proof -
    obtain ps db' where l: "load_policies w (al_tenant a) db = (ps, db')" by fastforce
    with load_policies_kept [OF I] have "kept old db'" and "\<forall>p \<in> set ps. policy_ok (al_tenant a) p"
      by blast+
    with first_match_kept [of ps "al_tenant a" old w a] l show ?thesis
      by (auto simp: evaluate_alert_def holds_def)
  qed
  then show ?thesis by (auto simp: holds_def)
qed

text \<open>A ladder has at least one step, all of them valid.\<close>

lemma default_steps_valid: "list_all valid_step DEFAULT_STEPS"
  by code_simp

lemma escalation_config_steps:
  assumes "get_escalation_config w t db = Some (steps, window, enabled)"
  shows "steps \<noteq> [] \<and> list_all valid_step steps"
proof -
  have v: "validated_steps xs \<noteq> [] \<and> list_all valid_step (validated_steps xs)" for xs
    using default_steps_valid
    by (auto simp: validated_steps_def Let_def list_all_iff DEFAULT_STEPS_def)
  have "DEFAULT_STEPS \<noteq> []" by (simp add: DEFAULT_STEPS_def)
  with v default_steps_valid assms show ?thesis
    by (auto simp: get_escalation_config_def split: option.splits)
qed

lemma seen_row_in: "seen_row w t a db = Some r \<Longrightarrow> r \<in> set (dict_values (escalations db))"
  by (auto simp: seen_row_def live_row_def dest: dict_get_in_values split: if_splits option.splits)

lemma climb_ladder_ok:
  assumes "climb now win maxl row = (level, n, restarted)" and "1 \<le> maxl"
    and "\<And>r. row = Some r \<Longrightarrow> ladder_ok r"
  shows "1 \<le> max 1 (min level maxl) \<and> max 1 (min level maxl) \<le> n \<and> max 1 (min level maxl) \<le> maxl"
  using assms by (force simp: climb_def ladder_ok_def split: option.splits if_splits)

lemma evaluate_escalation_kept [holds_intros]:
  "holds (kept old) (evaluate_escalation w t a) (\<lambda>r. 1 \<le> new_level r)"
  unfolding holds_def
proof (intro allI impI)
  fix db assume I: "kept old db"
  show "kept old (snd (evaluate_escalation w t a db)) \<and>
    (\<forall>x. fst (evaluate_escalation w t a db) = Some x \<longrightarrow> 1 \<le> new_level x)"
  proof (cases "get_escalation_config w t db")
    case (Some cfg)
    obtain steps window enabled where cfg: "get_escalation_config w t db = Some (steps, window, enabled)"
      using Some by (cases cfg) auto
    show ?thesis
    proof (cases "uuid_column w a")
      case (Some aid)
      obtain level n restarted where
        c: "climb (clock w) window (int (length steps)) (seen_row w t aid db) = (level, n, restarted)"
        by (metis prod_cases3)
      have "steps \<noteq> []" using escalation_config_steps [OF cfg] by simp
      then have top: "1 \<le> int (length steps)" by (cases steps) auto
      have row: "ladder_ok r" if "seen_row w t aid db = Some r" for r
        using seen_row_in [OF that] I by (auto simp: kept_def response_ok_def)
      from climb_ladder_ok [OF c top row]
      have lv: "1 \<le> max 1 (min level (int (length steps)))" "max 1 (min level (int (length steps))) \<le> n"
        by auto
      then have "kept old (upsert_escalation (clock w) window t aid (max 1 (min level (int (length steps)))) n restarted db)"
        using I unfolding upsert_escalation_def Let_def
        by (intro kept_ladder) (auto simp: ladder_ok_def split: option.split)
      then show ?thesis
        using cfg Some c I lv
        by (simp add: evaluate_escalation_def Let_def step_result_def)
    qed (use cfg I in \<open>simp add: evaluate_escalation_def step_result_def\<close>)
  qed (use I in \<open>simp add: evaluate_escalation_def\<close>)
qed

lemma upsert_config_kept: "kept old db \<Longrightarrow> kept old (upsert_config t f db)"
  unfolding upsert_config_def by (rule kept_configs) (auto simp: kept_def response_ok_def)

lemma is_shadow_mode_kept: "kept old db \<Longrightarrow> kept old (snd (is_shadow_mode w t db))"
  by (simp add: is_shadow_mode_def set_shadow_mode_def upsert_config_kept split: option.split)

lemma queue_command_kept: "kept old db \<Longrightarrow> kept old (snd (queue_command w t a al act ps by reason db))"
proof -
  assume I: "kept old db"
  then have "list_all command_ok (commands db)" by (simp add: kept_def response_ok_def)
  moreover have "ct \<in> set (dict_values ACTION_TO_COMMAND)" if "dict_get ACTION_TO_COMMAND act = Some ct" for ct
    using that by (rule dict_get_in_values)
  ultimately show ?thesis
    using I by (auto simp: queue_command_def Let_def command_ok_def split: option.split)
qed

lemma enforce_kept:
  assumes "kept old db" and "enforce w a p action db = (r, db')"
  shows "kept old db' \<and> (\<forall>x. r = Inr x \<longrightarrow> res_decision x \<in> set DECISIONS)"
proof -
  have queue: "kept old db''" if "queue_command w t ag al act ps b rs db = (q, db'')" for t ag al act ps b rs q db''
    using queue_command_kept [OF assms(1), of w t ag al act ps b rs] that by simp
  show ?thesis
    using assms queue
    by (auto simp: enforce_def Let_def dispatch_agent_command_def dispatch_trust_penalty_def
        dispatch_mcp_block_def dispatch_notification_def done_result_def error_result_def DECISIONS_def
        split: if_splits option.splits prod.splits sum.splits)
qed

lemma log_dispatch_kept [holds_intros]:
  assumes "decision \<in> set DECISIONS" and "action \<in> set ALLOWED_ACTIONS"
  shows "holds (kept old) (log_dispatch w a p action decision level) (\<lambda>_. True)"
  unfolding log_dispatch_def using assms by (intro log_decision_kept) auto

lemma dispatch_failed_kept:
  assumes "kept old db" and "action \<in> set ALLOWED_ACTIONS"
  shows "kept old (snd (dispatch_failed w a p action level e db))"
  using holdsD [OF log_dispatch_kept [of "''error''" action old w a p level]] assms
  by (simp add: dispatch_failed_def DECISIONS_def)

lemma enforce_and_log_kept [holds_intros]:
  assumes act: "action \<in> set ALLOWED_ACTIONS"
  shows "holds (kept old) (enforce_and_log w a p action level) (\<lambda>_. True)"
  unfolding holds_def
proof (intro allI impI conjI TrueI)
  fix db assume I: "kept old db"
  obtain r db1 where e: "enforce w a p action db = (r, db1)" by fastforce
  note k = enforce_kept [OF I e]
  show "kept old (snd (enforce_and_log w a p action level db))"
  proof (cases r)
    case (Inl x)
    with e k act show ?thesis by (simp add: enforce_and_log_def dispatch_failed_kept)
  next
    case (Inr x)
    obtain o2 db2 where l: "log_dispatch w a p action (res_decision x) level db1 = (o2, db2)" by fastforce
    have "kept old db2"
      using holdsD [OF log_dispatch_kept [of "res_decision x" action old w a p level]] k act l Inr
      by (metis snd_conv)
    with e l Inr act show ?thesis
      by (cases o2) (simp_all add: enforce_and_log_def dispatch_failed_kept)
  qed
qed

lemma dispatch_kept [holds_intros]:
  "holds (kept old) (dispatch w a p shadow level escalated) (\<lambda>_. True)"
proof -
  have sh: "holds (kept old) (and_then (log_dispatch w a p act ''shadow'' level)
      (\<lambda>_. give (done_result act ''shadow'' []))) (\<lambda>_. True)" if "act \<in> set ALLOWED_ACTIONS" for act
    using that by (intro holds_and_then [OF log_dispatch_kept] holds_give) (auto simp: DECISIONS_def)
  show ?thesis
    using sh enforce_and_log_kept
    by (auto simp: holds_def dispatch_def Let_def split: pval.split option.split)
qed

lemma escalate_if: "escalate w a p =
  (if no_text (al_agent a) then give (None, None)
   else and_then (evaluate_escalation w (al_tenant a) (the (al_agent a)))
     (\<lambda>r. give (Some (new_level r),
            if py_eq (esc_action r) (VStr (policy_action p)) then None else Some (esc_action r))))"
  by (rule ext) (simp add: escalate_def give_def)

lemma escalate_kept [holds_intros]: "holds (kept old) (escalate w a p) (\<lambda>_. True)"
  unfolding escalate_if
  by (intro holds_if holds_and_then [OF evaluate_escalation_kept] holds_give) simp_all

lemma audit_response_kept [simp]: "kept old (audit_response w a p s l r db) = kept old db"
  by (simp add: audit_response_def split: option.split)

lemma respond_kept: "holds (kept old) (respond w a p) (\<lambda>_. True)"
proof -
  have audit: "holds (kept old) (\<lambda>db'. (Some (Some r), audit_response w a p s level r db')) (\<lambda>_. True)"
    for s level r
    by (simp add: holds_def)
  have "holds (kept old) (case x of (level, escalated) \<Rightarrow>
      and_then (dispatch w a p s level escalated) (\<lambda>r.
        (\<lambda>db'. (Some (Some r), audit_response w a p s level r db')))) (\<lambda>_. True)" for s x
    by (cases x) (auto intro: holds_and_then [OF dispatch_kept] audit)
  then have "holds (kept old) (and_then (escalate w a p) (\<lambda>(level, escalated).
      and_then (dispatch w a p s level escalated) (\<lambda>r.
        (\<lambda>db'. (Some (Some r), audit_response w a p s level r db'))))) (\<lambda>_. True)" for s
    by (rule holds_and_then [OF escalate_kept])
  note stages = holdsD [OF this]
  show ?thesis
    unfolding holds_def
  proof (intro allI impI conjI TrueI)
    fix db assume "kept old db"
    then have "kept old (snd (is_shadow_mode w (al_tenant a) db))" by (rule is_shadow_mode_kept)
    from stages [OF this] show "kept old (snd (respond w a p db))"
      by (simp add: respond_def case_prod_beta)
  qed
qed

lemma handle_alert_kept: "kept old db \<Longrightarrow> kept old (snd (handle_alert w a db))"
proof -
  assume I: "kept old db"
  have "kept old (snd (handle_alert_body w a db))"
  proof (cases "fst (check_kill_switch (al_tenant a) db)")
    case True
    then obtain reason where k: "check_kill_switch (al_tenant a) db = (True, reason)" by (metis prod.collapse)
    have "holds (kept old) (and_then (log_for w a None ''none'' [] ''blocked_kill_switch'' None)
        (\<lambda>_. give x)) (\<lambda>_. True)" for x :: "dispatch_result option"
      by (intro holds_and_then [OF log_for_kept] holds_give) (simp_all add: DECISIONS_def)
    from holdsD [OF this I] k show ?thesis by (simp add: handle_alert_body_def)
  next
    case False
    then obtain reason where k: "check_kill_switch (al_tenant a) db = (False, reason)" by (metis prod.collapse)
    let ?limit = "\<lambda>p. and_then (log_for w a (Some (policy_id p)) (policy_action p) (policy_params p)
                   ''rate_limited'' None) (\<lambda>_. give (Some (refused (policy_action p) ''rate_limited'' [])))"
    let ?next = "\<lambda>found. case found of None \<Rightarrow> give None
      | Some p \<Rightarrow> (\<lambda>db'. if tenant_rate_limited w (al_tenant a) db' then ?limit p db' else respond w a p db')"
    have "holds (kept old) (?limit p) (\<lambda>_. True)" if "policy_ok (al_tenant a) p" for p
      using that by (intro holds_and_then [OF log_for_kept] holds_give)
        (simp_all add: DECISIONS_def policy_ok_def)
    then have "holds (kept old) (?next found) (\<lambda>_. True)"
      if "\<forall>p. found = Some p \<longrightarrow> policy_ok (al_tenant a) p" for found
      using that respond_kept [of old w a]
      by (cases found) (simp_all add: holds_give, simp add: holds_def)
    from holdsD [OF holds_and_then [OF evaluate_alert_kept this] I] k
    show ?thesis by (simp add: handle_alert_body_def)
  qed
  then show ?thesis by (auto simp: handle_alert_def split: prod.splits option.splits)
qed

section \<open>All operations\<close>

text \<open>
  What happens to the response layer: alerts, the switches, resets, the acknowledgements of the
  gateway and commands queued by an analyst.
\<close>

datatype response_op =
  Alert response_env alert_facts
| KillSwitch response_env string bool string "string option"
| ShadowOn response_env string "string option" "int option"
| ShadowOff response_env string "string option"
| ResetLadder response_env string string
| InvalidateCache "string option"
| Queue response_env string string "string option" string "(string, pval) dict" "string option" string
| MarkDispatched response_env string
| MarkCompleted response_env "pval \<Rightarrow> string" string bool "(string, pval) dict"

fun response_step :: "response_db \<Rightarrow> response_op \<Rightarrow> response_db" where
  "response_step db (Alert w a) = snd (handle_alert w a db)"
| "response_step db (KillSwitch w t active reason by) = set_kill_switch w t active reason by db"
| "response_step db (ShadowOn w t by hours) = snd (enable_shadow_mode w t by hours db)"
| "response_step db (ShadowOff w t by) = snd (disable_shadow_mode w t by db)"
| "response_step db (ResetLadder w t agent) = snd (reset_escalation w t agent db)"
| "response_step db (InvalidateCache t) = invalidate_policy_cache t db"
| "response_step db (Queue w t agent al act ps by reason) = snd (queue_command w t agent al act ps by reason db)"
| "response_step db (MarkDispatched w c) = snd (mark_dispatched w c db)"
| "response_step db (MarkCompleted w repr c ok data) = snd (mark_completed w repr c ok data db)"

lemma reset_escalation_kept:
  assumes I: "kept old db"
  shows "kept old (snd (reset_escalation w t a db))"
proof -
  have "kept old (db\<lparr>escalations := dict_set (t, aid) (r\<lparr>deleted_at := d\<rparr>) (escalations db)\<rparr>)"
    if "live_row t aid db = Some r" for aid r d
  proof (rule kept_ladder [OF I])
    have "r \<in> set (dict_values (escalations db))"
      using that by (auto simp: live_row_def dest: dict_get_in_values split: option.splits if_splits)
    with I show "ladder_ok (r\<lparr>deleted_at := d\<rparr>)"
      by (auto simp: kept_def response_ok_def ladder_ok_def)
  qed
  with I show ?thesis by (simp add: reset_escalation_def split: option.split)
qed

lemma update_commands_kept:
  assumes "kept old db" and "\<And>c. command_ok c \<Longrightarrow> command_ok (f c)"
  shows "kept old (update_commands P f db)"
proof -
  have "list_all command_ok (map (\<lambda>c. if P c then f c else c) (commands db))"
    using assms by (auto simp: kept_def response_ok_def list_all_iff)
  with assms(1) show ?thesis by (simp add: update_commands_def)
qed

lemma mark_dispatched_kept: "kept old db \<Longrightarrow> kept old (snd (mark_dispatched w c db))"
  unfolding mark_dispatched_def by (auto intro!: update_commands_kept simp: command_ok_def)

lemma mark_completed_kept: "kept old db \<Longrightarrow> kept old (snd (mark_completed w repr c ok data db))"
  unfolding mark_completed_def Let_def
  by (auto intro!: update_commands_kept simp: command_ok_def split: option.split)

lemma invalidate_kept: "kept old db \<Longrightarrow> kept old (invalidate_policy_cache t db)"
proof -
  assume I: "kept old db"
  then have "cache_ok (policy_cache db)" by (simp add: kept_def response_ok_def)
  moreover have "cache_ok []" by (simp add: cache_ok_def)
  ultimately show ?thesis
    using I by (simp add: invalidate_policy_cache_def cache_ok_del split: option.split)
qed

lemma response_step_kept: "kept old db \<Longrightarrow> kept old (response_step db c)"
  by (cases c)
    (simp_all add: handle_alert_kept set_kill_switch_def enable_shadow_mode_def disable_shadow_mode_def
      set_shadow_mode_def upsert_config_kept reset_escalation_kept invalidate_kept queue_command_kept
      mark_dispatched_kept mark_completed_kept Let_def)

lemma kept_start: "response_ok db \<Longrightarrow> kept (action_log db) db"
  by (simp add: kept_def)

interpretation response: logged_machine response_step response_ok action_log
  by unfold_locales (use kept_start response_step_kept in \<open>force simp: kept_def\<close>)+

end
