(* ===== verification/Response_Props.thy ===== *)
theory Response_Props
  imports Response_Invariant
begin

text \<open>
  What the response layer guarantees: the kill switch and shadow mode, the choice of a policy, its
  cooldown and the hourly limit, and the append-only log.
\<close>

section \<open>Effects of the stages\<close>

text \<open>The state only grew by log entries, all with the property \<open>P\<close>.\<close>

definition logs :: "(action_entry \<Rightarrow> bool) \<Rightarrow> response_db \<Rightarrow> response_db \<Rightarrow> bool" where
  "logs P db db' \<longleftrightarrow> (\<exists>new. db' = db\<lparr>action_log := action_log db @ new\<rparr> \<and> list_all P new)"

lemma logs_refl [simp, intro]: "logs P db db"
  unfolding logs_def by (rule exI [of _ "[]"]) simp

lemma logs_one: "P e \<Longrightarrow> logs P db (db\<lparr>action_log := action_log db @ [e]\<rparr>)"
  unfolding logs_def by (rule exI [of _ "[e]"]) simp

lemma logs_trans: "logs P a b \<Longrightarrow> logs P b c \<Longrightarrow> logs P a c"
  by (force simp: logs_def)

lemma logs_mono: "logs P a b \<Longrightarrow> (\<And>e. P e \<Longrightarrow> Q e) \<Longrightarrow> logs Q a b"
  by (auto simp: logs_def list_all_iff)

definition about :: "alert_facts \<Rightarrow> action_entry \<Rightarrow> bool" where
  "about a e \<longleftrightarrow> entry_tenant e = al_tenant a \<and> entry_alert e = al_id a"

definition skip_of :: "alert_facts \<Rightarrow> action_entry \<Rightarrow> bool" where
  "skip_of a e \<longleftrightarrow> about a e \<and> entry_decision e = ''cooldown_skip''"

lemma log_for_effect:
  "log_for w a p action params decision level db = (r, db') \<Longrightarrow>
   logs (\<lambda>e. about a e \<and> entry_decision e = decision) db db'"
  by (cases "bind_agent w (al_agent a)")
     (auto simp: log_for_def log_decision_def about_def Let_def intro: logs_one)

lemma check_cooldown_state [simp]: "snd (check_cooldown w t p agent n db) = db"
  by (simp add: check_cooldown_def split: option.split)

text \<open>Skipped policies leave no entry that counts, so they change no later cooldown check.\<close>

lemma check_cooldown_logs:
  assumes "logs (skip_of a) db db'"
  shows "fst (check_cooldown w t p agent n db') = fst (check_cooldown w t p agent n db)"
  using assms by (auto simp: logs_def check_cooldown_def list_ex_iff list_all_iff skip_of_def counted_def
      split: option.split)

lemma check_cooldown_cache [simp]:
  "fst (check_cooldown w t p agent n (db\<lparr>policy_cache := c\<rparr>)) = fst (check_cooldown w t p agent n db)"
  by (simp add: check_cooldown_def split: option.split)

abbreviation cooling :: "response_env \<Rightarrow> alert_facts \<Rightarrow> response_policy \<Rightarrow> response_db \<Rightarrow> bool option" where
  "cooling w a p db \<equiv>
     fst (check_cooldown w (al_tenant a) (policy_id p) (al_agent a) (policy_cooldown p) db)"

text \<open>\<open>p\<close> is the first policy of the list that matches and is not cooling down.\<close>

definition first_ready :: "response_env \<Rightarrow> alert_facts \<Rightarrow> response_db \<Rightarrow> response_policy list \<Rightarrow>
    response_policy \<Rightarrow> bool" where
  "first_ready w a db ps p \<longleftrightarrow>
     (\<exists>qs rs. ps = qs @ p # rs \<and> conditions_match a p \<and> cooling w a p db = Some False \<and>
        (\<forall>q \<in> set qs. conditions_match a q \<longrightarrow> cooling w a q db = Some True))"

lemma first_ready_head:
  "conditions_match a p \<Longrightarrow> cooling w a p db = Some False \<Longrightarrow> first_ready w a db (p # ps) p"
  unfolding first_ready_def by (rule exI [of _ "[]"]) simp

lemma first_ready_Cons:
  assumes "first_ready w a db ps p" and "conditions_match a q \<Longrightarrow> cooling w a q db = Some True"
  shows "first_ready w a db (q # ps) p"
proof -
  from assms(1) obtain qs rs where "ps = qs @ p # rs" "conditions_match a p" "cooling w a p db = Some False"
      "\<forall>q \<in> set qs. conditions_match a q \<longrightarrow> cooling w a q db = Some True"
    by (auto simp: first_ready_def)
  with assms(2) show ?thesis
    unfolding first_ready_def by (intro exI [of _ "q # qs"] exI [of _ rs]) simp
qed

lemma first_ready_logs: "logs (skip_of a) db db' \<Longrightarrow> first_ready w a db' ps p = first_ready w a db ps p"
  by (simp add: first_ready_def check_cooldown_logs)

lemma first_ready_cache [simp]: "first_ready w a (db\<lparr>policy_cache := c\<rparr>) ps p = first_ready w a db ps p"
  by (simp add: first_ready_def)

lemma first_match_effect:
  assumes "first_match w a ps db = (r, db')"
  shows "logs (skip_of a) db db' \<and> (\<forall>p. r = Some (Some p) \<longrightarrow> first_ready w a db ps p)"
  using assms
proof (induction ps arbitrary: db)
  case Nil
  then show ?case by (auto simp: op_simps)
next
  case (Cons p ps)
  let ?cool = "check_cooldown w (al_tenant a) (policy_id p) (al_agent a) (policy_cooldown p) db"
  have cool: "?cool = (cooling w a p db, db)" by (simp add: prod_eq_iff)
  show ?case
  proof (cases "conditions_match a p")
    case False
    with Cons.prems have "first_match w a ps db = (r, db')" by simp
    from Cons.IH [OF this] False show ?thesis
      by (auto intro: first_ready_Cons)
  next
    case True
    consider "cooling w a p db = None" | "cooling w a p db = Some False" | "cooling w a p db = Some True"
      by (metis (full_types) not_None_eq)
    then show ?thesis
    proof cases
      case 1
      with Cons.prems True cool show ?thesis by (auto simp: op_simps)
    next
      case 2
      with Cons.prems True cool show ?thesis by (auto simp: op_simps intro: first_ready_head)
    next
      case 3
      obtain l db1 where l: "log_for w a (Some (policy_id p)) (policy_action p) (policy_params p)
          ''cooldown_skip'' None db = (l, db1)" by fastforce
      have one: "logs (skip_of a) db db1"
        using log_for_effect [OF l] by (rule logs_mono) (simp add: skip_of_def)
      show ?thesis
      proof (cases l)
        case None
        with Cons.prems True cool 3 l one show ?thesis by (auto simp: op_simps)
      next
        case (Some x)
        with Cons.prems True cool 3 l have "first_match w a ps db1 = (r, db')" by (simp add: op_simps)
        from Cons.IH [OF this] one 3 show ?thesis
          by (auto simp: first_ready_logs [OF one] intro: logs_trans first_ready_Cons)
      qed
    qed
  qed
qed

lemma load_policies_effect:
  "load_policies w t db = (ps, db') \<Longrightarrow> \<exists>c. db' = db\<lparr>policy_cache := c\<rparr>"
  by (auto simp: load_policies_def read_and_cache_def Let_def split: option.splits if_splits
      intro: exI [of _ "policy_cache db"])

lemma evaluate_alert_effect:
  assumes "evaluate_alert w a db = (r, db')"
  obtains c where "logs (skip_of a) (db\<lparr>policy_cache := c\<rparr>) db'"
    and "\<And>p. r = Some (Some p) \<Longrightarrow> first_ready w a db (fst (load_policies w (al_tenant a) db)) p"
proof -
  obtain ps db1 where l: "load_policies w (al_tenant a) db = (ps, db1)" by fastforce
  then obtain c where c: "db1 = db\<lparr>policy_cache := c\<rparr>" using load_policies_effect by blast
  have f: "first_match w a ps db1 = (r, db')" using assms l by (simp add: evaluate_alert_def)
  show ?thesis
    by (rule that [of c]) (use first_match_effect [OF f] l c in \<open>simp_all\<close>)
qed

section \<open>Example states\<close>

text \<open>One tenant with one policy and no configuration, and an alert of one of its agents.\<close>

definition demo_env :: "rat \<Rightarrow> response_env" where
  "demo_env now =
     \<lparr>clock = now, monotonic = now, uuid_column = Some, to_uuid = Some, load_json = (\<lambda>_. None),
      json_length = (\<lambda>_. 0), fresh_id = (\<lambda>_. ''id''), row_locked = (\<lambda>_ _. False), audit_works = True,
      trust_reply = (\<lambda>_ _. Inr (VNone, VNone)), channel_reply = (\<lambda>_ _. Inr ())\<rparr>"

definition demo_policy :: response_policy where
  "demo_policy =
     \<lparr>policy_id = ''p1'', policy_tenant = ''t1'', policy_name = ''isolate'', policy_severity = [''high''],
      policy_attack_class = [], policy_event_type = [], policy_min_confidence = FFin 0,
      policy_action = ''isolate_agent'', policy_params = [], policy_enabled = True,
      policy_priority = 1, policy_cooldown = 300, policy_require_shadow = True\<rparr>"

definition demo_db :: response_db where
  "demo_db =
     \<lparr>configs = [], policy_rows = [(demo_policy, 0)], policy_cache = [], action_log = [],
      escalations = [], commands = [], notifications = [], trust_penalties = [], audit_log = [],
      rule_registry = new_registry\<rparr>"

definition demo_agent :: string where
  "demo_agent = ''01234567-89ab-cdef-0123-456789abcdef''"

definition demo_alert :: alert_facts where
  "demo_alert =
     \<lparr>al_tenant = ''t1'', al_id = ''a1'', al_agent = Some demo_agent, al_severity = ''High'',
      al_confidence = FFin 1, al_attack_class = [], al_event_type = ''process_exec''\<rparr>"

lemmas demo_defs = demo_env_def demo_policy_def demo_db_def demo_agent_def demo_alert_def

lemma demo_db_ok: "response_ok demo_db"
  by (simp add: response_ok_def demo_defs cache_ok_def)

lemma demo_lower: "py_lower ''High'' = ''high''" "py_lower ''high'' = ''high''"
  by code_simp+

lemma demo_match: "conditions_match demo_alert (read_policy demo_policy)"
  by (simp add: conditions_match_def read_policy_def demo_defs demo_lower)

text \<open>Before any action was logged, the policy is chosen; the state changes in its cache only.\<close>

lemma demo_choice:
  assumes "policy_rows db = policy_rows demo_db" and "policy_cache db = []" and "action_log db = []"
  shows "\<exists>c. evaluate_alert (demo_env t) demo_alert db =
    (Some (Some (read_policy demo_policy)), db\<lparr>policy_cache := c\<rparr>)"
proof -
  have "enabled_rows ''t1'' db = [demo_policy]"
    using assms by (simp add: enabled_rows_def demo_db_def demo_policy_def)
  moreover have "policy_action demo_policy \<in> set ALLOWED_ACTIONS"
    by (simp add: demo_policy_def ALLOWED_ACTIONS_def)
  moreover have "al_tenant demo_alert = ''t1''" by (simp add: demo_alert_def)
  ultimately obtain c where l: "load_policies (demo_env t) (al_tenant demo_alert) db =
      ([read_policy demo_policy], db\<lparr>policy_cache := c\<rparr>)"
    using assms by (simp add: load_policies_def read_and_cache_def Let_def)
  have "check_cooldown (demo_env t) (al_tenant demo_alert) (policy_id (read_policy demo_policy))
      (al_agent demo_alert) (policy_cooldown (read_policy demo_policy)) (db\<lparr>policy_cache := c\<rparr>) =
      (Some False, db\<lparr>policy_cache := c\<rparr>)"
    using assms by (simp add: check_cooldown_def bind_agent_def demo_env_def demo_alert_def)
  with l demo_match show ?thesis
    by (auto simp: evaluate_alert_def op_simps)
qed

section \<open>Choice of a policy\<close>

text \<open>
  The policy an alert gets is, in the order of the tenant's list, the first one that matches it
  and is not in its cooldown; every earlier policy that matches is in its cooldown.
\<close>

theorem policy_choice:
  assumes "evaluate_alert w a db = (Some (Some p), db')"
  shows "\<exists>qs rs. fst (load_policies w (al_tenant a) db) = qs @ p # rs \<and> conditions_match a p \<and>
    cooling w a p db = Some False \<and>
    (\<forall>q \<in> set qs. conditions_match a q \<longrightarrow> cooling w a q db = Some True)"
  using evaluate_alert_effect [OF assms] by (metis first_ready_def)

lemma policy_choice_witness:
  "\<exists>db'. evaluate_alert (demo_env 10000) demo_alert demo_db = (Some (Some (read_policy demo_policy)), db') \<and>
   (\<exists>qs rs. fst (load_policies (demo_env 10000) ''t1'' demo_db) = qs @ read_policy demo_policy # rs)"
proof -
  have "\<exists>db'. evaluate_alert (demo_env 10000) demo_alert demo_db = (Some (Some (read_policy demo_policy)), db')"
    using demo_choice [of demo_db 10000] by (auto simp: demo_db_def)
  then obtain db' where e: "evaluate_alert (demo_env 10000) demo_alert demo_db =
      (Some (Some (read_policy demo_policy)), db')" by blast
  moreover have "al_tenant demo_alert = ''t1''" by (simp add: demo_alert_def)
  ultimately show ?thesis using policy_choice [OF e] by auto
qed

section \<open>Dispatch\<close>

lemma log_decision_cases:
  "log_decision w t al p agent act ps d sev conf att ev lvl db = (r, db') \<Longrightarrow>
   (r = None \<and> bind_agent w agent = None \<and> db' = db) \<or>
   (\<exists>e. r \<noteq> None \<and> db' = db\<lparr>action_log := action_log db @ [e]\<rparr> \<and> entry_tenant e = t \<and>
      entry_policy e = p \<and> bind_agent w agent = Some (entry_agent e) \<and> entry_decision e = d \<and>
      entry_action e = act \<and> entry_created_at e = clock w)"
  by (cases "bind_agent w agent") (auto simp: log_decision_def Let_def)

text \<open>The entry a dispatch leaves: of the policy, its tenant and the agent, now.\<close>

definition entry_for :: "response_env \<Rightarrow> alert_facts \<Rightarrow> response_policy \<Rightarrow> string \<Rightarrow> action_entry \<Rightarrow> bool" where
  "entry_for w a p d e \<longleftrightarrow> entry_tenant e = policy_tenant p \<and> entry_policy e = Some (policy_id p) \<and>
     bind_agent w (al_agent a) = Some (entry_agent e) \<and> entry_decision e = d \<and>
     entry_created_at e = clock w"

lemma log_dispatch_cases:
  assumes "log_dispatch w a p act d lvl db = (r, db')"
  shows "(r = None \<and> bind_agent w (al_agent a) = None \<and> db' = db) \<or>
   (\<exists>e. r \<noteq> None \<and> db' = db\<lparr>action_log := action_log db @ [e]\<rparr> \<and> entry_for w a p d e)"
  using log_decision_cases [OF assms [unfolded log_dispatch_def]] by (auto simp: entry_for_def)

lemma queue_command_log [simp]: "action_log (snd (queue_command w t a al act ps b r db)) = action_log db"
  by (simp add: queue_command_def Let_def split: option.split)

lemma agent_command_log [simp]:
  "action_log (snd (dispatch_agent_command w t ag al act ps db)) = action_log db"
proof (cases ag)
  case (Some g)
  show ?thesis
  proof (cases "to_uuid w t")
    case (Some u)
    let ?q = "queue_command w u g (Some al) act ps None (''Auto-response: policy match on alert '' @ al) db"
    obtain q db' where "?q = (q, db')" by fastforce
    moreover from this have "action_log db' = action_log db" using queue_command_log by (metis snd_conv)
    ultimately show ?thesis
      using \<open>ag = Some g\<close> Some by (cases q) (simp_all add: dispatch_agent_command_def)
  qed (simp add: dispatch_agent_command_def \<open>ag = Some g\<close>)
qed (simp add: dispatch_agent_command_def)

lemma backends_log [simp]:
  "action_log (snd (dispatch_trust_penalty w t ag db)) = action_log db"
  "action_log (snd (dispatch_mcp_block w t ps db)) = action_log db"
  "action_log (snd (dispatch_notification w t a p db)) = action_log db"
  by (simp_all add: dispatch_trust_penalty_def dispatch_mcp_block_def
      dispatch_notification_def Let_def case_prod_beta split: sum.split)

lemma enforce_log [simp]: "action_log (snd (enforce w a p act db)) = action_log db"
  by (simp add: enforce_def Let_def)

text \<open>
  A dispatch logs at most one entry; a result that counts as an action is the one the entry records.
\<close>

definition dispatch_logs :: "response_env \<Rightarrow> alert_facts \<Rightarrow> response_policy \<Rightarrow> dispatch_result option \<Rightarrow>
    response_db \<Rightarrow> response_db \<Rightarrow> bool" where
  "dispatch_logs w a p r db db' \<longleftrightarrow>
     (\<exists>new. action_log db' = action_log db @ new \<and> length new \<le> 1 \<and>
        (\<forall>x. r = Some x \<longrightarrow> counted (res_decision x) \<longrightarrow>
           (\<exists>e. new = [e] \<and> entry_for w a p (res_decision x) e)))"

lemma dispatch_failed_logs:
  "dispatch_failed w a p act lvl e db = (r, db') \<Longrightarrow> dispatch_logs w a p r db db'"
  using log_dispatch_cases [of w a p act "''error''" lvl db "fst (log_dispatch w a p act ''error'' lvl db)"
      "snd (log_dispatch w a p act ''error'' lvl db)"]
  by (auto simp: dispatch_failed_def dispatch_logs_def error_result_def counted_def)

lemma enforce_and_log_logs:
  assumes "enforce_and_log w a p act lvl db = (r, db')"
  shows "dispatch_logs w a p r db db'"
proof -
  obtain x db1 where e: "enforce w a p act db = (x, db1)" by fastforce
  then have l1: "action_log db1 = action_log db" using enforce_log [of w a p act db] by simp
  have fail: "dispatch_logs w a p r db db'" if "dispatch_failed w a p act lvl y db1 = (r, db')" for y
    using dispatch_failed_logs [OF that] l1 by (simp add: dispatch_logs_def)
  show ?thesis
  proof (cases x)
    case (Inl y)
    with assms e fail show ?thesis by (simp add: enforce_and_log_def)
  next
    case (Inr y)
    obtain o2 db2 where l: "log_dispatch w a p act (res_decision y) lvl db1 = (o2, db2)" by fastforce
    from log_dispatch_cases [OF l] show ?thesis
    proof
      assume "o2 = None \<and> bind_agent w (al_agent a) = None \<and> db2 = db1"
      with assms e Inr l fail show ?thesis by (simp add: enforce_and_log_def)
    next
      assume "\<exists>en. o2 \<noteq> None \<and> db2 = db1\<lparr>action_log := action_log db1 @ [en]\<rparr> \<and> entry_for w a p (res_decision y) en"
      with assms e Inr l l1 show ?thesis
        by (auto simp: enforce_and_log_def dispatch_logs_def)
    qed
  qed
qed

lemma dispatch_logs_none [simp]: "dispatch_logs w a p None db db"
  by (simp add: dispatch_logs_def)

lemma dispatch_effect:
  assumes "dispatch w a p shadow lvl esc db = (r, db')"
  shows "dispatch_logs w a p r db db'"
proof -
  have err: "dispatch_logs w a p (Some (error_result v e)) db db" for v e
    by (simp add: dispatch_logs_def error_result_def counted_def)
  have sh: "dispatch_logs w a p r db db'"
    if "and_then (log_dispatch w a p act ''shadow'' lvl) (\<lambda>_. give (done_result act ''shadow'' [])) db = (r, db')" for act
  proof -
    obtain o2 db2 where l: "log_dispatch w a p act ''shadow'' lvl db = (o2, db2)" by fastforce
    with log_dispatch_cases [OF l] that show ?thesis
      by (auto simp: op_simps dispatch_logs_def done_result_def)
  qed
  show ?thesis
  proof (cases "case esc of Some v \<Rightarrow> if truthy v then v else VStr (policy_action p) | None \<Rightarrow> VStr (policy_action p)")
    case (VStr act)
    with assms err sh enforce_and_log_logs show ?thesis
      by (auto simp: dispatch_def Let_def split: if_splits)
  qed (use assms err in \<open>auto simp: dispatch_def Let_def\<close>)
qed

section \<open>The pipeline\<close>

lemma evaluate_escalation_log [simp]:
  "action_log (snd (evaluate_escalation w t a db)) = action_log db"
  by (simp add: evaluate_escalation_def upsert_escalation_def Let_def case_prod_beta split: option.split)

lemma escalate_log [simp]: "action_log (snd (escalate w a p db)) = action_log db"
  using evaluate_escalation_log [of w "al_tenant a" "the (al_agent a)" db]
  by (cases "evaluate_escalation w (al_tenant a) (the (al_agent a)) db")
    (auto simp: escalate_def op_simps split: option.split)

lemma is_shadow_mode_log [simp]: "action_log (snd (is_shadow_mode w t db)) = action_log db"
  by (simp add: is_shadow_mode_def set_shadow_mode_def upsert_config_def split: option.split)

lemma audit_response_log [simp]: "action_log (audit_response w a p s l r db) = action_log db"
  by (simp add: audit_response_def split: option.split)

lemma respond_effect:
  assumes "respond w a p db = (r, db')"
  shows "dispatch_logs w a p (case r of Some x \<Rightarrow> x | None \<Rightarrow> None) db db'"
proof -
  obtain shadow db1 where s: "is_shadow_mode w (al_tenant a) db = (shadow, db1)" by fastforce
  have l1: "action_log db1 = action_log db" using is_shadow_mode_log s by (metis snd_conv)
  obtain e db2 where e: "escalate w a p db1 = (e, db2)" by fastforce
  have l2: "action_log db2 = action_log db" using escalate_log e l1 by (metis snd_conv)
  show ?thesis
  proof (cases e)
    case None
    with assms s e l2 show ?thesis by (auto simp: respond_def op_simps dispatch_logs_def)
  next
    case (Some le)
    then obtain level esc where le: "e = Some (level, esc)" by (cases le) auto
    obtain d db3 where d: "dispatch w a p shadow level esc db2 = (d, db3)" by fastforce
    from dispatch_effect [OF d] l2 have "dispatch_logs w a p d db db3" by (simp add: dispatch_logs_def)
    with assms s e le d show ?thesis
      by (cases d) (auto simp: respond_def op_simps dispatch_logs_def)
  qed
qed

lemma evaluate_alert_log:
  assumes "evaluate_alert w a db = (r, db')"
  obtains new where "action_log db' = action_log db @ new" and "list_all (skip_of a) new"
    and "configs db' = configs db"
proof -
  obtain c where "logs (skip_of a) (db\<lparr>policy_cache := c\<rparr>) db'" using evaluate_alert_effect [OF assms] .
  then show ?thesis by (auto simp: logs_def intro: that)
qed

lemma skips_not_counted: "list_all (skip_of a) new \<Longrightarrow> e \<in> set new \<Longrightarrow> \<not> counted (entry_decision e)"
  by (auto simp: list_all_iff skip_of_def counted_def)

text \<open>
  The log an alert leaves: entries that do not count, then at most one of a dispatch, which a
  result that counts as an action has left.
\<close>

definition alert_log :: "response_env \<Rightarrow> alert_facts \<Rightarrow> dispatch_result option \<Rightarrow> response_db \<Rightarrow>
    response_db \<Rightarrow> bool" where
  "alert_log w a r db db' \<longleftrightarrow>
     (\<exists>skips new. action_log db' = action_log db @ skips @ new \<and> length new \<le> 1 \<and>
        (\<forall>e \<in> set skips. \<not> counted (entry_decision e)) \<and>
        (new \<noteq> [] \<longrightarrow> \<not> tenant_rate_limited w (al_tenant a) db) \<and>
        (\<forall>x. r = Some x \<longrightarrow> counted (res_decision x) \<longrightarrow>
           (\<exists>p e. new = [e] \<and> entry_for w a p (res_decision x) e \<and>
              first_ready w a db (fst (load_policies w (al_tenant a) db)) p)))"

lemma alert_log_quiet:
  assumes "action_log db' = action_log db @ skips" and "\<forall>e \<in> set skips. \<not> counted (entry_decision e)"
    and "\<And>x. r = Some x \<Longrightarrow> \<not> counted (res_decision x)"
  shows "alert_log w a r db db'"
  unfolding alert_log_def by (rule exI [of _ skips], rule exI [of _ "[]"]) (use assms in auto)

text \<open>A refusal: one entry with its decision, which does not count.\<close>

lemma refusal_log:
  assumes "log_for w a p action ps d lvl db = (l, db')" and "\<not> counted d"
  obtains new where "action_log db' = action_log db @ new" and "\<forall>e \<in> set new. \<not> counted (entry_decision e)"
proof -
  from log_for_effect [OF assms(1)] assms(2) show ?thesis
    by (auto simp: logs_def list_all_iff intro: that)
qed

lemma handle_killed_log:
  assumes "handle_alert w a db = (r, db')" and k: "check_kill_switch (al_tenant a) db = (True, reason)"
  shows "alert_log w a r db db'"
proof -
  obtain l db1 where l: "log_for w a None ''none'' [] ''blocked_kill_switch'' None db = (l, db1)" by fastforce
  then obtain new where "action_log db1 = action_log db @ new" "\<forall>e \<in> set new. \<not> counted (entry_decision e)"
    by (rule refusal_log) (simp add: counted_def)
  with assms l show ?thesis
    by (intro alert_log_quiet [of _ _ new])
      (auto simp: handle_alert_def handle_alert_body_def op_simps refused_def counted_def split: option.splits)
qed

lemma handle_matched_log:
  assumes h: "handle_alert w a db = (r, db')" and k: "check_kill_switch (al_tenant a) db = (False, reason)"
    and f: "evaluate_alert w a db = (Some (Some p), db1)"
  shows "alert_log w a r db db'"
proof -
  obtain skips where skips: "action_log db1 = action_log db @ skips" "list_all (skip_of a) skips"
      "configs db1 = configs db"
    using f by (rule evaluate_alert_log)
  have sk: "\<forall>e \<in> set skips. \<not> counted (entry_decision e)" using skips(2) skips_not_counted by blast
  have limited: "tenant_rate_limited w (al_tenant a) db1 = tenant_rate_limited w (al_tenant a) db"
    using skips sk by (simp add: tenant_rate_limited_def rate_limit_exceeded_def recent_actions_def
        filter_empty_conv cong: option.case_cong)
  show ?thesis
  proof (cases "tenant_rate_limited w (al_tenant a) db1")
    case True
    obtain l db2 where l: "log_for w a (Some (policy_id p)) (policy_action p) (policy_params p)
        ''rate_limited'' None db1 = (l, db2)" by fastforce
    then obtain new where "action_log db2 = action_log db1 @ new" "\<forall>e \<in> set new. \<not> counted (entry_decision e)"
      by (rule refusal_log) (simp add: counted_def)
    with h k f True l sk skips show ?thesis
      by (intro alert_log_quiet [of _ _ "skips @ new"])
        (auto simp: handle_alert_def handle_alert_body_def op_simps refused_def counted_def
          split: option.splits)
  next
    case False
    obtain o2 db2 where o: "respond w a p db1 = (o2, db2)" by fastforce
    have "handle_alert w a db = ((case o2 of None \<Rightarrow> None | Some x \<Rightarrow> x), db2)"
      using k f False o by (simp add: handle_alert_def handle_alert_body_def op_simps split: option.split)
    with h have r: "r = (case o2 of None \<Rightarrow> None | Some x \<Rightarrow> x)" and db': "db' = db2" by simp_all
    have ready: "first_ready w a db (fst (load_policies w (al_tenant a) db)) p"
      using evaluate_alert_effect [OF f] by metis
    obtain new where new: "action_log db2 = action_log db1 @ new" "length new \<le> 1"
        "\<forall>x. r = Some x \<longrightarrow> counted (res_decision x) \<longrightarrow> (\<exists>e. new = [e] \<and> entry_for w a p (res_decision x) e)"
      using respond_effect [OF o] unfolding dispatch_logs_def r by (elim exE conjE)
    show ?thesis
      unfolding alert_log_def
      by (rule exI [of _ skips], rule exI [of _ new])
        (use new skips sk limited False ready db' in \<open>auto intro: exI [of _ p]\<close>)
  qed
qed

lemma handle_alert_log:
  assumes h: "handle_alert w a db = (r, db')"
  shows "alert_log w a r db db'"
proof (cases "check_kill_switch (al_tenant a) db")
  case (Pair killed reason)
  obtain found db1 where f: "evaluate_alert w a db = (found, db1)" by fastforce
  then obtain skips where skips: "action_log db1 = action_log db @ skips" "list_all (skip_of a) skips"
    by (rule evaluate_alert_log)
  have sk: "\<forall>e \<in> set skips. \<not> counted (entry_decision e)" using skips(2) skips_not_counted by blast
  show ?thesis
  proof (cases killed)
    case True
    with h Pair handle_killed_log show ?thesis by simp
  next
    case False
    show ?thesis
    proof (cases "found = None \<or> found = Some None")
      case True
      with h Pair False f skips sk show ?thesis
        by (intro alert_log_quiet [of _ _ skips])
          (auto simp: handle_alert_def handle_alert_body_def op_simps give_def split: option.splits)
    next
      case matched: False
      then obtain p where "found = Some (Some p)" by (metis option.exhaust)
      with h Pair False f handle_matched_log show ?thesis by simp
    qed
  qed
qed

section \<open>Cooldown\<close>

text \<open>
  C31: When an alert is answered with an executed or shadowed action, the entry it appends names the
  policy, and no earlier entry of that policy for the same agent (for any agent, when the alert has
  none) that executed or shadowed an action lies within the cooldown of the policy.
\<close>

theorem cooldown_respected:
  assumes "handle_alert w a db = (Some r, db')" and "counted (res_decision r)"
  shows "\<exists>p e old. action_log db' = old @ [e] \<and> entry_policy e = Some (policy_id p) \<and>
    entry_created_at e = clock w \<and>
    p \<in> set (fst (load_policies w (al_tenant a) db)) \<and> conditions_match a p \<and>
    (0 < policy_cooldown p \<longrightarrow>
      (\<forall>o2 \<in> set (action_log db). entry_tenant o2 = al_tenant a \<and> entry_policy o2 = Some (policy_id p) \<and>
         (entry_agent e = None \<or> entry_agent o2 = entry_agent e) \<and> counted (entry_decision o2) \<longrightarrow>
         entry_created_at o2 \<le> clock w - of_int (policy_cooldown p)))"
proof -
  obtain skips p e where log: "action_log db' = (action_log db @ skips) @ [e]"
    and e: "entry_for w a p (res_decision r) e"
    and p: "first_ready w a db (fst (load_policies w (al_tenant a) db)) p"
    using handle_alert_log [OF assms(1)] assms(2) unfolding alert_log_def by fastforce
  from p have "p \<in> set (fst (load_policies w (al_tenant a) db))" "conditions_match a p"
    and cool: "cooling w a p db = Some False"
    by (auto simp: first_ready_def)
  moreover have "entry_created_at o2 \<le> clock w - of_int (policy_cooldown p)"
    if "0 < policy_cooldown p" "o2 \<in> set (action_log db)" "entry_tenant o2 = al_tenant a"
      "entry_policy o2 = Some (policy_id p)" "entry_agent e = None \<or> entry_agent o2 = entry_agent e"
      "counted (entry_decision o2)" for o2
    using cool e that
    by (auto simp: check_cooldown_def entry_for_def list_ex_iff not_less split: option.splits if_splits)
  ultimately show ?thesis using log e by (fastforce simp: entry_for_def)
qed

section \<open>Hourly limit\<close>

definition hourly_limit :: "string \<Rightarrow> response_db \<Rightarrow> int" where
  "hourly_limit tenant db =
     (case dict_get (configs db) tenant of None \<Rightarrow> 50 | Some row \<Rightarrow> max_actions_per_hour row)"

text \<open>
  An alert never lifts the number of executed and shadowed actions of its tenant in the last hour
  over the configured limit: afterwards it is at most the limit, or what it was before.
\<close>

theorem hourly_limit_kept:
  assumes "1 \<le> hourly_limit (al_tenant a) db"
  shows "int (length (recent_actions w (al_tenant a) (snd (handle_alert w a db)))) \<le>
    max (hourly_limit (al_tenant a) db) (int (length (recent_actions w (al_tenant a) db)))"
proof -
  obtain r db' where h: "handle_alert w a db = (r, db')" by fastforce
  obtain skips new where log: "action_log db' = action_log db @ skips @ new" and len: "length new \<le> 1"
    and sk: "\<forall>e \<in> set skips. \<not> counted (entry_decision e)"
    and free: "new \<noteq> [] \<longrightarrow> \<not> tenant_rate_limited w (al_tenant a) db"
    using handle_alert_log [OF h] unfolding alert_log_def by (elim exE conjE)
  let ?P = "\<lambda>e. entry_tenant e = al_tenant a \<and> counted (entry_decision e) \<and> clock w - 3600 < entry_created_at e"
  have "filter ?P skips = []" using sk by (simp add: filter_empty_conv)
  then have n: "length (recent_actions w (al_tenant a) db') =
      length (recent_actions w (al_tenant a) db) + length (filter ?P new)"
    by (simp add: recent_actions_def log)
  have "length (filter ?P new) \<le> length new" by (rule length_filter_le)
  moreover have "int (length (recent_actions w (al_tenant a) db)) < hourly_limit (al_tenant a) db"
    if "new \<noteq> []"
    using free that assms
    by (auto simp: tenant_rate_limited_def rate_limit_exceeded_def hourly_limit_def split: option.splits)
  ultimately show ?thesis using n len h by (cases new) (auto simp: max_def)
qed

section \<open>The example alert\<close>

lemma demo_first_step:
  "fst (evaluate_escalation (demo_env t) ''t1'' demo_agent (demo_db\<lparr>policy_cache := c\<rparr>)) =
   Some \<lparr>new_level = 1, esc_action = VStr ''log_only'', esc_params = VDict [],
     esc_label = Some (VStr ''Monitor''), esc_offenses = 1, window_restarted = True\<rparr>"
  by (simp add: evaluate_escalation_def get_escalation_config_def demo_db_def demo_env_def seen_row_def
      live_row_def climb_def step_result_def step_field_def DEFAULT_STEPS_def Let_def dict_get_or_def)

text \<open>A first alert under the default configuration: its action is shadowed, as log_only.\<close>

lemma demo_handled:
  "fst (handle_alert (demo_env t) demo_alert demo_db) = Some (done_result ''log_only'' ''shadow'' [])"
proof -
  obtain c where e: "evaluate_alert (demo_env t) demo_alert demo_db =
      (Some (Some (read_policy demo_policy)), demo_db\<lparr>policy_cache := c\<rparr>)"
    using demo_choice [of demo_db t] by (auto simp: demo_db_def)
  obtain db2 where esc: "evaluate_escalation (demo_env t) ''t1'' demo_agent (demo_db\<lparr>policy_cache := c\<rparr>) =
      (Some \<lparr>new_level = 1, esc_action = VStr ''log_only'', esc_params = VDict [],
       esc_label = Some (VStr ''Monitor''), esc_offenses = 1, window_restarted = True\<rparr>, db2)"
    using demo_first_step by (metis prod.collapse)
  have kill: "check_kill_switch ''t1'' demo_db = (False, [])"
    by (simp add: check_kill_switch_def demo_db_def)
  have limit: "\<not> tenant_rate_limited (demo_env t) ''t1'' (demo_db\<lparr>policy_cache := c\<rparr>)"
    by (simp add: tenant_rate_limited_def rate_limit_exceeded_def recent_actions_def demo_db_def)
  have shadow: "is_shadow_mode (demo_env t) ''t1'' (demo_db\<lparr>policy_cache := c\<rparr>) = (True, demo_db\<lparr>policy_cache := c\<rparr>)"
    by (simp add: is_shadow_mode_def demo_db_def)
  have facts: "al_tenant demo_alert = ''t1''" "al_agent demo_alert = Some demo_agent" "demo_agent \<noteq> []"
      "policy_action (read_policy demo_policy) = ''isolate_agent''"
    by (simp_all add: demo_defs read_policy_def)
  have d: "fst (dispatch (demo_env t) demo_alert (read_policy demo_policy) True (Some 1) (Some (VStr ''log_only'')) db2) =
      Some (done_result ''log_only'' ''shadow'' [])"
    by (simp add: dispatch_def ALLOWED_ACTIONS_def op_simps log_dispatch_def log_decision_def facts
        bind_agent_def demo_env_def Let_def)
  then show ?thesis
    using e esc kill limit shadow facts
    by (cases "dispatch (demo_env t) demo_alert (read_policy demo_policy) True (Some 1) (Some (VStr ''log_only'')) db2")
      (simp add: handle_alert_def handle_alert_body_def respond_def op_simps escalate_def no_text_def)
qed

lemma cooldown_respected_witness:
  "\<exists>r db' (p :: response_policy) e old. handle_alert (demo_env 10000) demo_alert demo_db = (Some r, db') \<and>
     counted (res_decision r) \<and> action_log db' = old @ [e] \<and> entry_policy e = Some (policy_id p)"
proof -
  obtain db' where h: "handle_alert (demo_env 10000) demo_alert demo_db =
      (Some (done_result ''log_only'' ''shadow'' []), db')"
    using demo_handled by (metis prod.collapse)
  have c: "counted (res_decision (done_result ''log_only'' ''shadow'' []))"
    by (simp add: done_result_def counted_def)
  obtain p :: response_policy and e old where "action_log db' = old @ [e]" "entry_policy e = Some (policy_id p)"
    using cooldown_respected [OF h c] by (elim exE conjE)
  with h c show ?thesis by (intro exI conjI)
qed

lemma hourly_limit_kept_witness:
  "1 \<le> hourly_limit ''t1'' demo_db \<and>
   int (length (recent_actions (demo_env 10000) ''t1'' (snd (handle_alert (demo_env 10000) demo_alert demo_db)))) \<le> 50"
proof -
  have t: "al_tenant demo_alert = ''t1''" and l: "hourly_limit ''t1'' demo_db = 50"
    and n: "recent_actions (demo_env 10000) ''t1'' demo_db = []"
    by (simp_all add: demo_alert_def hourly_limit_def demo_db_def recent_actions_def)
  then show ?thesis using hourly_limit_kept [of demo_alert demo_db "demo_env 10000"] by simp
qed

end
