(* ===== verification/Response_Safety.thy ===== *)
theory Response_Safety
  imports Response_Props
begin

text \<open>
  What the switches of a tenant stop, how an agent climbs its ladder, the life of a command, and the
  cases in which the response layer does less than its documentation says.
\<close>

section \<open>Enforcement\<close>

text \<open>Everything that reaches an agent, the trust service, a channel or the registry of MCP servers.\<close>

definition enforced :: "response_db \<Rightarrow> agent_command list \<times> (string \<times> pval \<times> (string, pval) dict) list \<times>
    (string \<times> string) list \<times> mcp_registry" where
  "enforced db = (commands db, notifications db, trust_penalties db, rule_registry db)"

lemma enforced_update [simp]:
  "enforced (db\<lparr>action_log := l\<rparr>) = enforced db"
  "enforced (db\<lparr>configs := c\<rparr>) = enforced db"
  "enforced (db\<lparr>policy_cache := p\<rparr>) = enforced db"
  "enforced (db\<lparr>escalations := e\<rparr>) = enforced db"
  "enforced (db\<lparr>audit_log := g\<rparr>) = enforced db"
  by (simp_all add: enforced_def)

lemma enforced_log [simp]:
  "enforced (snd (log_decision w t al p ag act ps d sv cf at1 ev lvl db)) = enforced db"
  by (simp add: log_decision_def Let_def split: option.split)

lemma enforced_logs: "logs P db db' \<Longrightarrow> enforced db' = enforced db"
  by (auto simp: logs_def)

lemma enforced_evaluate_alert: "enforced (snd (evaluate_alert w a db)) = enforced db"
  using evaluate_alert_effect [of w a db "fst (evaluate_alert w a db)" "snd (evaluate_alert w a db)"]
  by (metis enforced_logs enforced_update(3) prod.collapse)

lemma enforced_evaluate_escalation [simp]:
  "enforced (snd (evaluate_escalation w t a db)) = enforced db"
  by (simp add: evaluate_escalation_def upsert_escalation_def Let_def case_prod_beta split: option.split)

lemma enforced_escalate [simp]: "enforced (snd (escalate w a p db)) = enforced db"
  using enforced_evaluate_escalation [of w "al_tenant a" "the (al_agent a)" db]
  by (cases "evaluate_escalation w (al_tenant a) (the (al_agent a)) db")
    (auto simp: escalate_def op_simps split: option.split)

lemma enforced_is_shadow_mode [simp]: "enforced (snd (is_shadow_mode w t db)) = enforced db"
  by (simp add: is_shadow_mode_def set_shadow_mode_def upsert_config_def split: option.split)

section \<open>Kill switch\<close>

text \<open>Operations that are not a command queued by hand, nor turn the kill switch of the tenant off.\<close>

fun under_kill_switch :: "string \<Rightarrow> response_op \<Rightarrow> bool" where
  "under_kill_switch t (Alert w a) = (al_tenant a = t)"
| "under_kill_switch t (KillSwitch w t' active reason by) = (t' = t \<longrightarrow> active)"
| "under_kill_switch t (Queue _ _ _ _ _ _ _ _) = False"
| "under_kill_switch t (MarkDispatched _ _) = False"
| "under_kill_switch t (MarkCompleted _ _ _ _ _) = False"
| "under_kill_switch t _ = True"

lemma handle_alert_killed:
  assumes "fst (check_kill_switch (al_tenant a) db)"
  shows "logs (\<lambda>e. about a e \<and> entry_decision e = ''blocked_kill_switch'') db (snd (handle_alert w a db))"
proof -
  obtain reason where k: "check_kill_switch (al_tenant a) db = (True, reason)"
    using assms by (metis prod.collapse)
  obtain l db1 where l: "log_for w a None ''none'' [] ''blocked_kill_switch'' None db = (l, db1)" by fastforce
  then have "snd (handle_alert w a db) = db1"
    using k by (simp add: handle_alert_def handle_alert_body_def op_simps split: option.split)
  with log_for_effect [OF l] show ?thesis by simp
qed

lemma check_kill_switch_configs: "configs db' = configs db \<Longrightarrow> check_kill_switch t db' = check_kill_switch t db"
  by (simp add: check_kill_switch_def)

lemma killed_step:
  assumes k: "fst (check_kill_switch t db)" and c: "under_kill_switch t c"
  shows "fst (check_kill_switch t (response_step db c)) \<and> enforced (response_step db c) = enforced db"
proof (cases c)
  case (Alert w a)
  with k c have "logs (\<lambda>e. about a e \<and> entry_decision e = ''blocked_kill_switch'') db (response_step db c)"
    using handle_alert_killed [of a db w] by simp
  then have "enforced (response_step db c) = enforced db" "configs (response_step db c) = configs db"
    by (auto simp: logs_def)
  with k check_kill_switch_configs show ?thesis by metis
next
  case (ResetLadder w u agent)
  have "configs (snd (reset_escalation w u agent db)) = configs db"
      "enforced (snd (reset_escalation w u agent db)) = enforced db"
    by (simp_all add: reset_escalation_def split: option.split)
  with k ResetLadder check_kill_switch_configs show ?thesis by (metis response_step.simps(5))
next
  case (InvalidateCache u)
  have "configs (invalidate_policy_cache u db) = configs db"
      "enforced (invalidate_policy_cache u db) = enforced db"
    by (simp_all add: invalidate_policy_cache_def split: option.split)
  with k InvalidateCache check_kill_switch_configs show ?thesis by (metis response_step.simps(6))
qed (use k c in \<open>auto simp: check_kill_switch_def set_kill_switch_def enable_shadow_mode_def
    disable_shadow_mode_def set_shadow_mode_def upsert_config_def Let_def dict_get_or_def
    split: option.splits if_splits\<close>)

text \<open>
  C1: Once the kill switch of a tenant is on, no sequence of its alerts and of other operations
  (shadow mode turned on or off, ladders reset, switches of other tenants) sends a command, a
  notification or a trust penalty, until the switch is turned off.
\<close>

theorem kill_switch_halts:
  assumes "\<forall>c \<in> set cs. under_kill_switch t c"
  shows "enforced (foldl response_step (set_kill_switch w t True reason by db) cs) = enforced db"
proof -
  have "fst (check_kill_switch t db1) \<Longrightarrow> enforced (foldl response_step db1 cs) = enforced db1" for db1
    using assms
  proof (induction cs arbitrary: db1)
    case (Cons c cs)
    with killed_step [of t db1 c] show ?case by simp
  qed simp
  then show ?thesis
    by (simp add: check_kill_switch_def set_kill_switch_def upsert_config_def)
qed

lemma kill_switch_halts_witness:
  "enforced (foldl response_step (set_kill_switch (demo_env 0) ''t1'' True [] None demo_db)
     [ShadowOff (demo_env 1) ''t1'' None, Alert (demo_env 2) demo_alert]) = enforced demo_db"
  by (rule kill_switch_halts) (simp add: demo_alert_def)

section \<open>Shadow mode\<close>

lemma enforced_log_for [simp]: "enforced (snd (log_for w a p act ps d lvl db)) = enforced db"
  by (simp add: log_for_def)

lemma enforced_dispatch_shadow: "enforced (snd (dispatch w a p True lvl esc db)) = enforced db"
proof -
  have "enforced (snd (and_then (log_dispatch w a p act ''shadow'' lvl)
      (\<lambda>_. give (done_result act ''shadow'' [])) db)) = enforced db" for act
    using enforced_log [of w "policy_tenant p" "al_id a" "Some (policy_id p)" "al_agent a" act "policy_params p" "''shadow''"]
    by (simp add: op_simps log_dispatch_def case_prod_beta split: option.split)
  then show ?thesis by (simp add: dispatch_def Let_def split: pval.split)
qed

lemma enforced_audit [simp]: "enforced (audit_response w a p s lvl r db) = enforced db"
  by (simp add: audit_response_def split: option.split)

text \<open>Only step 4 to 7 of the pipeline can enforce anything.\<close>

lemma handle_alert_split:
  "enforced (snd (handle_alert w a db)) = enforced db \<or>
   (\<exists>p db1. enforced db1 = enforced db \<and> configs db1 = configs db \<and>
      handle_alert w a db = (case fst (respond w a p db1) of None \<Rightarrow> None | Some x \<Rightarrow> x, snd (respond w a p db1)))"
proof (cases "check_kill_switch (al_tenant a) db")
  case (Pair killed reason)
  obtain found db1 where f: "evaluate_alert w a db = (found, db1)" by fastforce
  then have f1: "enforced db1 = enforced db" and f2: "configs db1 = configs db"
    using enforced_evaluate_alert evaluate_alert_log by (metis snd_conv, metis)
  show ?thesis
  proof (cases "killed \<or> found = None \<or> found = Some None")
    case True
    with Pair f f1 handle_alert_killed [of a db w] show ?thesis
      by (cases killed) (auto simp: enforced_logs handle_alert_def handle_alert_body_def op_simps)
  next
    case False
    then obtain p where p: "found = Some (Some p)" by (metis option.exhaust)
    obtain l db2 where l: "log_for w a (Some (policy_id p)) (policy_action p) (policy_params p)
        ''rate_limited'' None db1 = (l, db2)" by fastforce
    have l2: "enforced db2 = enforced db" using enforced_log_for l f1 by (metis snd_conv)
    show ?thesis
    proof (cases "tenant_rate_limited w (al_tenant a) db1")
      case True
      with Pair False f p l l2 show ?thesis
        by (simp add: handle_alert_def handle_alert_body_def op_simps split: option.split)
    next
      case unlimited: False
      then have "handle_alert w a db =
          (case fst (respond w a p db1) of None \<Rightarrow> None | Some x \<Rightarrow> x, snd (respond w a p db1))"
        using Pair False f p
        by (cases "respond w a p db1") (simp add: handle_alert_def handle_alert_body_def op_simps split: option.split)
      with f1 f2 show ?thesis by blast
    qed
  qed
qed

lemma enforced_handle_alert:
  assumes "\<And>p db1. configs db1 = configs db \<Longrightarrow> enforced (snd (respond w a p db1)) = enforced db1"
  shows "enforced (snd (handle_alert w a db)) = enforced db"
  using handle_alert_split [of w a db]
proof
  assume "\<exists>p db1. enforced db1 = enforced db \<and> configs db1 = configs db \<and>
      handle_alert w a db = (case fst (respond w a p db1) of None \<Rightarrow> None | Some x \<Rightarrow> x, snd (respond w a p db1))"
  then obtain p db1 where "enforced db1 = enforced db" "configs db1 = configs db"
      "snd (handle_alert w a db) = snd (respond w a p db1)"
    by (elim exE conjE) (metis snd_conv)
  with assms show ?thesis by metis
qed

text \<open>
  C11: While shadow mode is effective for a tenant, an alert sends no command, notification or trust
  penalty, and touches no registry, whatever its policies and its agent's ladder ask for.
\<close>

theorem shadow_enforces_nothing:
  assumes "effective (get_shadow_status w (al_tenant a) db)"
  shows "enforced (snd (handle_alert w a db)) = enforced db"
proof (rule enforced_handle_alert)
  fix p and db1 :: response_db
  assume "configs db1 = configs db"
  with assms have s: "is_shadow_mode w (al_tenant a) db1 = (True, db1)"
    by (auto simp: get_shadow_status_def is_shadow_mode_def split: option.splits)
  obtain e db2 where e: "escalate w a p db1 = (e, db2)" by fastforce
  then have e2: "enforced db2 = enforced db1" using enforced_escalate by (metis snd_conv)
  obtain d db3 where d: "dispatch w a p True (fst (the e)) (snd (the e)) db2 = (d, db3)" by fastforce
  then have "enforced db3 = enforced db1" using enforced_dispatch_shadow e2 by (metis snd_conv)
  with s e e2 d show "enforced (snd (respond w a p db1)) = enforced db1"
    by (cases e; cases d) (auto simp: respond_def op_simps case_prod_beta)
qed

lemma shadow_enforces_nothing_witness:
  "enforced (snd (handle_alert (demo_env 10000) demo_alert demo_db)) = enforced demo_db"
proof (rule shadow_enforces_nothing)
  show "effective (get_shadow_status (demo_env 10000) (al_tenant demo_alert) demo_db)"
    by (simp add: get_shadow_status_def demo_db_def)
qed

end
