(* ===== verification/Response_Ladder.thy ===== *)
theory Response_Ladder
  imports Response_Safety
begin

text \<open>
  The escalation ladder over time: how it climbs inside a window, and the cases in which it falls
  back to its first step.
\<close>

section \<open>One evaluation\<close>

text \<open>The evaluation of an agent whose identifier the database reads, under an enabled ladder.\<close>

definition ladder_env :: "string \<Rightarrow> string \<Rightarrow> string \<Rightarrow> pval list \<Rightarrow> int \<Rightarrow> response_db \<Rightarrow> response_env \<Rightarrow> bool" where
  "ladder_env t agent aid steps window db w \<longleftrightarrow>
     uuid_column w agent = Some aid \<and> get_escalation_config w t db = Some (steps, window, True)"

lemma evaluate_escalation_enabled:
  assumes "ladder_env t agent aid steps window db w"
    and "climb (clock w) window (int (length steps)) (seen_row w t aid db) = (l, n, restarted)"
    and "level = max 1 (min l (int (length steps)))"
  shows "evaluate_escalation w t agent db =
    (Some (step_result (steps ! nat (level - 1)) level None n restarted),
     upsert_escalation (clock w) window t aid level n restarted db)"
  using assms by (simp add: evaluate_escalation_def ladder_env_def Let_def)

lemma configs_upsert_escalation [simp]:
  "configs (upsert_escalation now window t aid level n restarted db) = configs db"
  by (simp add: upsert_escalation_def Let_def)

lemma ladder_env_configs:
  "configs db' = configs db \<Longrightarrow> ladder_env t agent aid steps window db' w = ladder_env t agent aid steps window db w"
  by (simp add: ladder_env_def get_escalation_config_def)

lemma ladder_env_steps: "ladder_env t agent aid steps window db w \<Longrightarrow> 1 \<le> length steps"
  using escalation_config_steps [of w t db steps window True] by (cases steps) (auto simp: ladder_env_def)

lemma upsert_escalation_row [simp]:
  "dict_get (escalations (upsert_escalation now window t aid level n restarted db)) (t, aid) =
   Some (case dict_get (escalations db) (t, aid) of
     None \<Rightarrow> \<lparr>current_level = level, offense_count = n, first_offense = now, last_offense = now,
              reset_at = now + of_int window, deleted_at = None\<rparr>
   | Some r \<Rightarrow> r\<lparr>current_level := level, offense_count := n,
              first_offense := (if restarted then now else first_offense r), last_offense := now,
              reset_at := now + of_int window\<rparr>)"
  by (simp add: upsert_escalation_def Let_def split: option.split)

section \<open>Climbing\<close>

abbreviation offend :: "string \<Rightarrow> string \<Rightarrow> response_db \<Rightarrow> response_env list \<Rightarrow> response_db" where
  "offend t agent \<equiv> foldl (\<lambda>db w. snd (evaluate_escalation w t agent db))"

text \<open>The row after \<open>n\<close> offenses, the first of them at \<open>start\<close>, on a ladder of \<open>k\<close> steps.\<close>

definition climbed :: "string \<Rightarrow> string \<Rightarrow> nat \<Rightarrow> nat \<Rightarrow> rat \<Rightarrow> response_db \<Rightarrow> bool" where
  "climbed t aid k n start db \<longleftrightarrow>
     (case dict_get (escalations db) (t, aid) of
        None \<Rightarrow> n = 0
      | Some r \<Rightarrow> 0 < n \<and> deleted_at r = None \<and> offense_count r = int n \<and>
          current_level r = int (min n k) \<and> first_offense r = start)"

lemma climbed_step:
  assumes w: "ladder_env t agent aid steps window db w" and free: "\<not> row_locked w t aid"
    and c: "climbed t aid (length steps) n start db"
    and time: "n = 0 \<longrightarrow> clock w = start" "clock w \<le> start + of_int window"
  shows "\<exists>r. fst (evaluate_escalation w t agent db) = Some r \<and>
      new_level r = int (min (Suc n) (length steps)) \<and> esc_offenses r = int (Suc n) \<and>
      esc_action r = step_field (steps ! (min (Suc n) (length steps) - 1)) ''action'' VNone \<and>
      climbed t aid (length steps) (Suc n) start (snd (evaluate_escalation w t agent db)) \<and>
      configs (snd (evaluate_escalation w t agent db)) = configs db"
proof -
  have k: "1 \<le> length steps" by (rule ladder_env_steps [OF w])
  let ?level = "int (min (Suc n) (length steps))"
  have climb: "climb (clock w) window (int (length steps)) (seen_row w t aid db) =
      (if n = 0 then 1 else min (int (min n (length steps)) + 1) (int (length steps)), int (Suc n), n = 0)"
    using c free time by (auto simp: climbed_def climb_def seen_row_def live_row_def split: option.splits)
  have level: "?level = max 1 (min (if n = 0 then 1 else min (int (min n (length steps)) + 1) (int (length steps)))
      (int (length steps)))"
    using k by (auto simp: min_def max_def)
  have idx: "nat (?level - 1) = min (Suc n) (length steps) - 1" by simp
  note eval = evaluate_escalation_enabled [OF w climb level]
  have "climbed t aid (length steps) (Suc n) start
      (upsert_escalation (clock w) window t aid ?level (int (Suc n)) (n = 0) db)"
    using c time by (auto simp: climbed_def split: option.splits)
  then show ?thesis by (simp add: eval step_result_def idx)
qed

text \<open>
  C30: Offenses of an agent inside one window, counted from the first of them, climb the ladder one
  step each and stay on the last step: the n-th offense has count n, level min n of the number of
  steps, and the action of that step.
\<close>

theorem ladder_climbs:
  assumes "dict_get (escalations db) (t, aid) = None"
    and "\<forall>v \<in> set (ws @ [w]). ladder_env t agent aid steps window db v \<and> \<not> row_locked v t aid \<and>
      clock v \<le> clock (hd (ws @ [w])) + of_int window"
  shows "\<exists>r. fst (evaluate_escalation w t agent (offend t agent db ws)) = Some r \<and>
    new_level r = int (min (length ws + 1) (length steps)) \<and> esc_offenses r = int (length ws + 1) \<and>
    esc_action r = step_field (steps ! (min (length ws + 1) (length steps) - 1)) ''action'' VNone"
proof -
  let ?start = "clock (hd (ws @ [w]))"
  have run: "climbed t aid (length steps) (length vs) ?start (offend t agent db vs) \<and>
      configs (offend t agent db vs) = configs db"
    if "\<exists>us. ws @ [w] = vs @ us" for vs
    using that
  proof (induction vs rule: rev_induct)
    case Nil
    with assms(1) show ?case by (simp add: climbed_def)
  next
    case (snoc v vs)
    then obtain us where us: "ws @ [w] = vs @ v # us" by auto
    then have ih: "climbed t aid (length steps) (length vs) ?start (offend t agent db vs)"
        "configs (offend t agent db vs) = configs db"
      using snoc.IH by auto
    have v: "v \<in> set (ws @ [w])" using us by simp
    have first: "length vs = 0 \<longrightarrow> clock v = ?start" using us by (cases vs) (auto simp del: append_eq_Cons_conv)
    have "ladder_env t agent aid steps window (offend t agent db vs) v"
      using assms(2) v ih(2) ladder_env_configs by blast
    moreover have "\<not> row_locked v t aid" "clock v \<le> ?start + of_int window" using assms(2) v by auto
    ultimately have "climbed t aid (length steps) (Suc (length vs)) ?start (offend t agent db (vs @ [v])) \<and>
        configs (offend t agent db (vs @ [v])) = configs (offend t agent db vs)"
      using climbed_step [of t agent aid steps window _ v, OF _ _ ih(1) first] by auto
    then show ?case using ih(2) by simp
  qed
  have last: "climbed t aid (length steps) (length ws) ?start (offend t agent db ws)"
      "configs (offend t agent db ws) = configs db"
    using run [of ws] by auto
  have env: "ladder_env t agent aid steps window (offend t agent db ws) w"
    using assms(2) by (simp add: ladder_env_configs [OF last(2)])
  have free: "\<not> row_locked w t aid" and time: "clock w \<le> ?start + of_int window" using assms(2) by auto
  have first: "length ws = 0 \<longrightarrow> clock w = ?start" by simp
  from climbed_step [OF env free last(1) first time] show ?thesis
    unfolding Suc_eq_plus1 by (elim exE conjE) (intro exI conjI)
qed

lemma ladder_climbs_witness:
  "\<exists>r. fst (evaluate_escalation (demo_env 300) ''t1'' demo_agent
      (offend ''t1'' demo_agent demo_db [demo_env 100, demo_env 200])) = Some r \<and>
    new_level r = 3 \<and> esc_offenses r = 3 \<and> esc_action r = VStr ''isolate_agent''"
proof -
  have "ladder_env ''t1'' demo_agent demo_agent DEFAULT_STEPS 3600 demo_db (demo_env n)" for n
    by (simp add: ladder_env_def demo_env_def get_escalation_config_def demo_db_def DEFAULT_WINDOW_SEC_def)
  then have "\<forall>v \<in> set ([demo_env 100, demo_env 200] @ [demo_env 300]).
      ladder_env ''t1'' demo_agent demo_agent DEFAULT_STEPS 3600 demo_db v \<and> \<not> row_locked v ''t1'' demo_agent \<and>
      clock v \<le> clock (hd ([demo_env 100, demo_env 200] @ [demo_env 300])) + of_int 3600"
    by (simp add: demo_env_def)
  from ladder_climbs [OF _ this] show ?thesis
    by (simp add: demo_db_def DEFAULT_STEPS_def step_field_def dict_get_or_def)
qed

section \<open>After a reset\<close>

lemma escalations_log [simp]:
  "escalations (snd (log_decision w t al p ag act ps d sv cf at1 ev lvl db)) = escalations db"
  by (simp add: log_decision_def Let_def split: option.split)

lemma escalations_log_for [simp]: "escalations (snd (log_for w a p act ps d lvl db)) = escalations db"
  by (simp add: log_for_def)

lemma escalations_log_dispatch [simp]:
  "escalations (snd (log_dispatch w a p act d lvl db)) = escalations db"
  by (simp add: log_dispatch_def)

lemma escalations_queue [simp]:
  "escalations (snd (queue_command w t a al act ps b r db)) = escalations db"
  by (simp add: queue_command_def Let_def split: option.split)

lemma escalations_agent_command [simp]:
  "escalations (snd (dispatch_agent_command w t ag al act ps db)) = escalations db"
proof (cases ag)
  case (Some g)
  show ?thesis
  proof (cases "to_uuid w t")
    case (Some u)
    let ?q = "queue_command w u g (Some al) act ps None (''Auto-response: policy match on alert '' @ al) db"
    obtain q db' where "?q = (q, db')" by fastforce
    moreover from this have "escalations db' = escalations db" using escalations_queue by (metis snd_conv)
    ultimately show ?thesis
      using \<open>ag = Some g\<close> Some by (cases q) (simp_all add: dispatch_agent_command_def)
  qed (simp add: dispatch_agent_command_def \<open>ag = Some g\<close>)
qed (simp add: dispatch_agent_command_def)

lemma escalations_enforce [simp]: "escalations (snd (enforce w a p act db)) = escalations db"
  by (simp add: enforce_def Let_def dispatch_trust_penalty_def dispatch_mcp_block_def
      dispatch_notification_def case_prod_beta split: sum.split)

lemma escalations_enforce_and_log [simp]:
  "escalations (snd (enforce_and_log w a p act lvl db)) = escalations db"
proof -
  obtain x db1 where e: "enforce w a p act db = (x, db1)" by fastforce
  then have e1: "escalations db1 = escalations db" using escalations_enforce by (metis snd_conv)
  have l: "escalations (snd (log_dispatch w a p act d lvl db1)) = escalations db" for d by (simp add: e1)
  show ?thesis
  proof (cases x)
    case (Inr r)
    obtain o2 db2 where o: "log_dispatch w a p act (res_decision r) lvl db1 = (o2, db2)" by fastforce
    then have "escalations db2 = escalations db" using l by (metis snd_conv)
    with e Inr o show ?thesis by (cases o2) (simp_all add: enforce_and_log_def dispatch_failed_def)
  qed (use e l in \<open>simp add: enforce_and_log_def dispatch_failed_def\<close>)
qed

lemma escalations_dispatch [simp]: "escalations (snd (dispatch w a p s lvl esc db)) = escalations db"
proof -
  have "escalations (snd (and_then (log_dispatch w a p act ''shadow'' lvl)
      (\<lambda>_. give (done_result act ''shadow'' [])) db)) = escalations db" for act
    using escalations_log_dispatch [of w a p act "''shadow''" lvl db]
    by (simp add: op_simps case_prod_beta split: option.split)
  then show ?thesis by (simp add: dispatch_def Let_def split: pval.split)
qed

lemma escalations_evaluate_alert [simp]: "escalations (snd (evaluate_alert w a db)) = escalations db"
proof -
  obtain r db' where e: "evaluate_alert w a db = (r, db')" by fastforce
  obtain c where "logs (skip_of a) (db\<lparr>policy_cache := c\<rparr>) db'" using evaluate_alert_effect [OF e] .
  with e show ?thesis by (auto simp: logs_def)
qed

lemma escalations_is_shadow_mode [simp]: "escalations (snd (is_shadow_mode w t db)) = escalations db"
  by (simp add: is_shadow_mode_def set_shadow_mode_def upsert_config_def split: option.split)

lemma escalations_audit [simp]: "escalations (audit_response w a p s lvl r db) = escalations db"
  by (simp add: audit_response_def split: option.split)

text \<open>In the whole pipeline only the ladder itself writes the table of the ladders.\<close>

definition ladder_pred :: "((string \<times> string, escalation_row) dict \<Rightarrow> bool) \<Rightarrow> response_db \<Rightarrow> bool" where
  "ladder_pred P db \<longleftrightarrow> P (escalations db)"

lemma ladder_pred_cong: "escalations db' = escalations db \<Longrightarrow> ladder_pred P db' = ladder_pred P db"
  by (simp add: ladder_pred_def)

lemma handle_alert_ladder_pred:
  assumes esc: "\<And>db. ladder_pred P db \<Longrightarrow>
      ladder_pred P (snd (evaluate_escalation w (al_tenant a) (the (al_agent a)) db))"
    and I: "ladder_pred P db"
  shows "ladder_pred P (snd (handle_alert w a db))"
proof -
  have escalate: "ladder_pred P (snd (escalate w a p db1))" if "ladder_pred P db1" for p db1
    using esc [OF that] that
    by (cases "evaluate_escalation w (al_tenant a) (the (al_agent a)) db1")
      (auto simp: escalate_def op_simps split: option.split)
  have respond: "ladder_pred P (snd (respond w a p db1))" if "ladder_pred P db1" for p db1
  proof -
    obtain s db2 where s: "is_shadow_mode w (al_tenant a) db1 = (s, db2)" by fastforce
    then have s2: "ladder_pred P db2" using that escalations_is_shadow_mode ladder_pred_cong by (metis snd_conv)
    obtain e db3 where e: "escalate w a p db2 = (e, db3)" by fastforce
    have e3: "ladder_pred P db3" using escalate [OF s2, of p] e by simp
    obtain d db4 where d: "dispatch w a p s (fst (the e)) (snd (the e)) db3 = (d, db4)" by fastforce
    then have "ladder_pred P db4" using e3 escalations_dispatch ladder_pred_cong by (metis snd_conv)
    moreover have "ladder_pred P (audit_response w a p s l r db4) = ladder_pred P db4" for l r
      by (rule ladder_pred_cong) simp
    ultimately show ?thesis
      using s e e3 d by (cases e; cases d) (auto simp: respond_def op_simps case_prod_beta)
  qed
  obtain found db1 where f: "evaluate_alert w a db = (found, db1)" by fastforce
  then have f1: "ladder_pred P db1" using I escalations_evaluate_alert ladder_pred_cong by (metis snd_conv)
  have log: "ladder_pred P db2 \<Longrightarrow> ladder_pred P (snd (log_for w a q act ps d lvl db2))" for q act ps d lvl db2
    by (simp add: ladder_pred_def)
  have body: "ladder_pred P (snd (and_then (log_for w a q act ps d lvl) (\<lambda>_. give x) db2))"
    if "ladder_pred P db2" for q act ps d lvl db2 and x :: "dispatch_result option"
    using log [OF that, of q act ps d lvl] by (simp add: op_simps case_prod_beta split: option.split)
  have "ladder_pred P (snd (handle_alert_body w a db))"
    using body [OF I] body [OF f1] respond [OF f1] f f1
    by (cases "check_kill_switch (al_tenant a) db"; cases "fst (check_kill_switch (al_tenant a) db)"; cases found)
      (auto simp: handle_alert_body_def and_then_def [where m = "evaluate_alert w a"] give_def split: option.split)
  then show ?thesis by (cases "handle_alert_body w a db") (auto simp: handle_alert_def split: option.split)
qed

definition soft_deleted :: "string \<Rightarrow> string \<Rightarrow> (string \<times> string, escalation_row) dict \<Rightarrow> bool" where
  "soft_deleted t aid es \<longleftrightarrow> (case dict_get es (t, aid) of None \<Rightarrow> False | Some r \<Rightarrow> deleted_at r \<noteq> None)"

lemma soft_deleted_upsert:
  "ladder_pred (soft_deleted t aid) db \<Longrightarrow>
   ladder_pred (soft_deleted t aid) (upsert_escalation now window u ag level n restarted db)"
  by (auto simp: ladder_pred_def soft_deleted_def upsert_escalation_def Let_def split: option.splits)

lemma soft_deleted_evaluate:
  "ladder_pred (soft_deleted t aid) db \<Longrightarrow>
   ladder_pred (soft_deleted t aid) (snd (evaluate_escalation w u ag db))"
  by (simp add: evaluate_escalation_def Let_def case_prod_beta soft_deleted_upsert split: option.split)

lemma soft_deleted_reset:
  "ladder_pred (soft_deleted t aid) db \<Longrightarrow>
   ladder_pred (soft_deleted t aid) (snd (reset_escalation w u ag db))"
  by (auto simp: ladder_pred_def soft_deleted_def reset_escalation_def split: option.splits)

lemma escalations_config [simp]: "escalations (upsert_config t f db) = escalations db"
  by (simp add: upsert_config_def)

lemma soft_deleted_step:
  assumes "ladder_pred (soft_deleted t aid) db"
  shows "ladder_pred (soft_deleted t aid) (response_step db c)"
proof (cases c)
  case (Alert w a)
  then show ?thesis
    using handle_alert_ladder_pred [OF soft_deleted_evaluate assms] by simp
next
  case (ResetLadder w u ag)
  then show ?thesis using soft_deleted_reset [OF assms] by simp
next
  case (Queue w u ag al act ps iss rs)
  then show ?thesis using assms ladder_pred_cong [OF escalations_queue] by simp
next
  case (InvalidateCache u)
  then show ?thesis using assms by (simp add: ladder_pred_def invalidate_policy_cache_def split: option.split)
qed (use assms in \<open>simp_all add: ladder_pred_def set_kill_switch_def enable_shadow_mode_def
    disable_shadow_mode_def set_shadow_mode_def mark_dispatched_def mark_completed_def
    update_commands_def Let_def split: option.split\<close>)

text \<open>
  A reset of an agent's ladder is for ever: whatever happens afterwards, its next offense is
  taken for a first one, at the first step, because the row stays marked as deleted and the ladder
  never sees it again. An agent that was reset once is never throttled, isolated or blocked by it.
\<close>

theorem reset_is_permanent:
  assumes "reset_escalation w t agent db = (Some True, db')"
    and "uuid_column w agent = Some aid"
    and "ladder_env t agent aid steps window (foldl response_step db' cs) v"
  shows "\<exists>r. fst (evaluate_escalation v t agent (foldl response_step db' cs)) = Some r \<and>
    new_level r = 1 \<and> esc_offenses r = 1 \<and> esc_action r = step_field (steps ! 0) ''action'' VNone"
proof -
  have "ladder_pred (soft_deleted t aid) db'"
    using assms(1,2)
    by (auto simp: reset_escalation_def ladder_pred_def soft_deleted_def split: option.splits)
  then have "ladder_pred (soft_deleted t aid) (foldl response_step db' cs)"
    by (induction cs arbitrary: db') (auto intro: soft_deleted_step)
  then have "live_row t aid (foldl response_step db' cs) = None"
    by (auto simp: ladder_pred_def soft_deleted_def live_row_def split: option.splits)
  then have c: "climb (clock v) window (int (length steps)) (seen_row v t aid (foldl response_step db' cs)) = (1, 1, True)"
    by (simp add: climb_def seen_row_def)
  have "1 \<le> length steps" by (rule ladder_env_steps [OF assms(3)])
  then have "1 = max 1 (min 1 (int (length steps)))" by simp
  from evaluate_escalation_enabled [OF assms(3) c this] show ?thesis
    by (simp add: step_result_def)
qed

text \<open>An agent that had reached the third step, and its reset.\<close>

definition demo_offender :: response_db where
  "demo_offender = demo_db\<lparr>escalations := [((''t1'', demo_agent),
     \<lparr>current_level = 3, offense_count = 3, first_offense = 0, last_offense = 200, reset_at = 3800,
      deleted_at = None\<rparr>)]\<rparr>"

lemma demo_offender_env:
  "configs db = [] \<Longrightarrow> ladder_env ''t1'' demo_agent demo_agent DEFAULT_STEPS 3600 db (demo_env n)"
  by (simp add: ladder_env_def demo_env_def get_escalation_config_def DEFAULT_WINDOW_SEC_def)

lemma reset_is_permanent_witness:
  "\<exists>db' r. reset_escalation (demo_env 300) ''t1'' demo_agent demo_offender = (Some True, db') \<and>
    fst (evaluate_escalation (demo_env 500) ''t1'' demo_agent
      (foldl response_step db' [InvalidateCache None])) = Some r \<and> new_level r = 1"
proof -
  obtain db' where r: "reset_escalation (demo_env 300) ''t1'' demo_agent demo_offender = (Some True, db')"
    and c: "configs db' = []"
    by (simp add: reset_escalation_def demo_offender_def demo_env_def live_row_def demo_db_def)
  have "uuid_column (demo_env 300) demo_agent = Some demo_agent" by (simp add: demo_env_def)
  moreover have "ladder_env ''t1'' demo_agent demo_agent DEFAULT_STEPS 3600
      (foldl response_step db' [InvalidateCache None]) (demo_env 500)"
    by (rule demo_offender_env) (simp add: invalidate_policy_cache_def c)
  ultimately have "\<exists>r. fst (evaluate_escalation (demo_env 500) ''t1'' demo_agent
      (foldl response_step db' [InvalidateCache None])) = Some r \<and> new_level r = 1"
    using reset_is_permanent [OF r] by blast
  with r show ?thesis by blast
qed

section \<open>Concurrent alerts\<close>

text \<open>
  When another transaction holds the row of an agent, an alert takes the agent for a first
  offender: it answers with the first step, and writes level 1, count 1 and a new window over the
  row, so two alerts at once reset the ladder instead of climbing it.
\<close>

theorem locked_row_restarts:
  assumes "ladder_env t agent aid steps window db w" and "row_locked w t aid"
    and "dict_get (escalations db) (t, aid) = Some old"
  shows "\<exists>r. fst (evaluate_escalation w t agent db) = Some r \<and> new_level r = 1 \<and>
    dict_get (escalations (snd (evaluate_escalation w t agent db))) (t, aid) =
      Some (old\<lparr>current_level := 1, offense_count := 1, first_offense := clock w,
                last_offense := clock w, reset_at := clock w + of_int window\<rparr>)"
proof -
  have "1 \<le> length steps" by (rule ladder_env_steps [OF assms(1)])
  then have l: "1 = max 1 (min 1 (int (length steps)))" by simp
  have "climb (clock w) window (int (length steps)) (seen_row w t aid db) = (1, 1, True)"
    using assms(2) by (simp add: climb_def seen_row_def)
  from evaluate_escalation_enabled [OF assms(1) this l] assms(3) show ?thesis
    by (simp add: step_result_def)
qed

lemma locked_row_restarts_witness:
  "\<exists>r. fst (evaluate_escalation (demo_env 300\<lparr>row_locked := \<lambda>_ _. True\<rparr>) ''t1'' demo_agent demo_offender) = Some r \<and>
     new_level r = 1"
proof -
  let ?w = "demo_env 300\<lparr>row_locked := \<lambda>_ _. True\<rparr>"
  have env: "ladder_env ''t1'' demo_agent demo_agent DEFAULT_STEPS 3600 demo_offender ?w"
    by (simp add: ladder_env_def demo_env_def get_escalation_config_def demo_offender_def demo_db_def
        DEFAULT_WINDOW_SEC_def)
  have row: "\<exists>old. dict_get (escalations demo_offender) (''t1'', demo_agent) = Some old"
    by (simp add: demo_offender_def)
  then obtain old where "dict_get (escalations demo_offender) (''t1'', demo_agent) = Some old" ..
  from locked_row_restarts [OF env _ this] show ?thesis by auto
qed

end
