(* ===== verification/Response_Gaps.thy ===== *)
theory Response_Gaps
  imports Response_Ladder
begin

text \<open>
  The life of a queued command, and the cases in which the
  response layer does less than its documentation says: the first step of the ladder, agents whose
  identifier is no UUID, and the blocking of MCP servers.
\<close>

section \<open>Commands\<close>

fun status_rank :: "command_status \<Rightarrow> nat" where
  "status_rank Pending = 0"
| "status_rank Dispatched = 1"
| "status_rank Acknowledged = 2"
| "status_rank Completed = 3"
| "status_rank Failed = 3"

text \<open>The same order, untouched or further on its way; an order at its end is untouched.\<close>

definition progressed :: "agent_command \<Rightarrow> agent_command \<Rightarrow> bool" where
  "progressed c d \<longleftrightarrow> c = d \<or>
     status_rank (cmd_status c) < status_rank (cmd_status d) \<and>
     (cmd_id d, cmd_tenant d, cmd_agent d, cmd_alert d, cmd_type d, cmd_params d, cmd_issued_by d,
      cmd_reason d, cmd_created_at d) =
     (cmd_id c, cmd_tenant c, cmd_agent c, cmd_alert c, cmd_type c, cmd_params c, cmd_issued_by c,
      cmd_reason c, cmd_created_at c)"

lemma progressed_refl [simp]: "progressed c c"
  by (simp add: progressed_def)

lemma progressed_trans: "progressed a b \<Longrightarrow> progressed b c \<Longrightarrow> progressed a c"
  by (auto simp: progressed_def)

definition commands_after :: "response_db \<Rightarrow> response_db \<Rightarrow> bool" where
  "commands_after db db' \<longleftrightarrow>
     length (commands db) \<le> length (commands db') \<and>
     list_all2 progressed (commands db) (take (length (commands db)) (commands db'))"

lemma commands_after_append: "commands db' = commands db @ new \<Longrightarrow> commands_after db db'"
  by (simp add: commands_after_def list_all2_refl)

lemma commands_after_trans:
  assumes "commands_after a b" and "commands_after b c"
  shows "commands_after a c"
proof -
  let ?n = "length (commands a)"
  from assms have len: "?n \<le> length (commands b)" "length (commands b) \<le> length (commands c)"
    by (simp_all add: commands_after_def)
  have "progressed (commands a ! i) (commands c ! i)" if "i < ?n" for i
    using assms that len
    by (auto simp: commands_after_def list_all2_conv_all_nth intro: progressed_trans [of _ "commands b ! i"])
  with len show ?thesis by (simp add: commands_after_def list_all2_conv_all_nth)
qed

lemma queue_command_appends: "\<exists>new. commands (snd (queue_command w t a al act ps b r db)) = commands db @ new"
  by (simp add: queue_command_def Let_def split: option.split)

lemma agent_command_appends:
  "\<exists>new. commands (snd (dispatch_agent_command w t ag al act ps db)) = commands db @ new"
proof (cases ag)
  case (Some g)
  show ?thesis
  proof (cases "to_uuid w t")
    case (Some u)
    let ?q = "queue_command w u g (Some al) act ps None (''Auto-response: policy match on alert '' @ al) db"
    obtain q db' where "?q = (q, db')" by fastforce
    moreover from this have "\<exists>new. commands db' = commands db @ new" using queue_command_appends by (metis snd_conv)
    ultimately show ?thesis
      using \<open>ag = Some g\<close> Some by (cases q) (simp_all add: dispatch_agent_command_def)
  qed (simp add: dispatch_agent_command_def \<open>ag = Some g\<close>)
qed (simp add: dispatch_agent_command_def)

lemma enforce_appends: "\<exists>new. commands (snd (enforce w a p act db)) = commands db @ new"
  using agent_command_appends
  by (simp add: enforce_def Let_def dispatch_trust_penalty_def dispatch_mcp_block_def
      dispatch_notification_def case_prod_beta split: sum.split)

lemma commands_enforced: "enforced db' = enforced db \<Longrightarrow> commands db' = commands db"
  by (simp add: enforced_def)

lemma enforced_log_dispatch [simp]: "enforced (snd (log_dispatch w a p act d lvl db)) = enforced db"
  by (simp add: log_dispatch_def)

lemma enforce_and_log_appends: "\<exists>new. commands (snd (enforce_and_log w a p act lvl db)) = commands db @ new"
proof -
  obtain x db1 where e: "enforce w a p act db = (x, db1)" by fastforce
  then have e1: "\<exists>new. commands db1 = commands db @ new" using enforce_appends by (metis snd_conv)
  have l: "commands (snd (log_dispatch w a p act d lvl db2)) = commands db2" for d db2
    by (rule commands_enforced) simp
  show ?thesis
  proof (cases x)
    case (Inr r)
    obtain o2 db2 where o: "log_dispatch w a p act (res_decision r) lvl db1 = (o2, db2)" by fastforce
    then have "commands db2 = commands db1" using l by (metis snd_conv)
    with e e1 Inr o l show ?thesis by (cases o2) (simp_all add: enforce_and_log_def dispatch_failed_def)
  qed (use e e1 l in \<open>simp add: enforce_and_log_def dispatch_failed_def\<close>)
qed

lemma dispatch_appends: "\<exists>new. commands (snd (dispatch w a p s lvl esc db)) = commands db @ new"
proof (cases s)
  case True
  then show ?thesis using commands_enforced [OF enforced_dispatch_shadow] by simp
next
  case False
  then show ?thesis
    using enforce_and_log_appends by (simp add: dispatch_def Let_def split: pval.split)
qed

lemma respond_appends: "\<exists>new. commands (snd (respond w a p db)) = commands db @ new"
proof -
  obtain s db1 where s: "is_shadow_mode w (al_tenant a) db = (s, db1)" by fastforce
  then have s1: "enforced db1 = enforced db" using enforced_is_shadow_mode by (metis snd_conv)
  obtain e db2 where e: "escalate w a p db1 = (e, db2)" by fastforce
  then have e2: "commands db2 = commands db" using enforced_escalate commands_enforced s1 by (metis snd_conv)
  obtain d db3 where d: "dispatch w a p s (fst (the e)) (snd (the e)) db2 = (d, db3)" by fastforce
  then have "\<exists>new. commands db3 = commands db @ new" using dispatch_appends e2 by (metis snd_conv)
  moreover have "commands (audit_response w a p s l r db3) = commands db3" for l r
    by (rule commands_enforced) simp
  ultimately show ?thesis
    using s e e2 d by (cases e; cases d) (auto simp: respond_def op_simps case_prod_beta)
qed

lemma handle_alert_appends: "\<exists>new. commands (snd (handle_alert w a db)) = commands db @ new"
  using handle_alert_split [of w a db]
proof
  assume "enforced (snd (handle_alert w a db)) = enforced db"
  then have "commands (snd (handle_alert w a db)) = commands db" by (rule commands_enforced)
  then show ?thesis by simp
next
  assume "\<exists>p db1. enforced db1 = enforced db \<and> configs db1 = configs db \<and>
      handle_alert w a db = (case fst (respond w a p db1) of None \<Rightarrow> None | Some x \<Rightarrow> x, snd (respond w a p db1))"
  then obtain p db1 where e: "enforced db1 = enforced db"
      and h: "snd (handle_alert w a db) = snd (respond w a p db1)"
    by (elim exE conjE) (metis snd_conv)
  show ?thesis using respond_appends [of w a p db1] unfolding h commands_enforced [OF e] .
qed

lemma update_commands_after:
  assumes "\<And>c. P c \<Longrightarrow> progressed c (f c)"
  shows "commands_after db (update_commands P f db)"
  using assms by (simp add: commands_after_def update_commands_def list_all2_conv_all_nth)

lemma commands_step: "commands_after db (response_step db c)"
proof (cases c)
  case (Alert w a)
  obtain new where "commands (snd (handle_alert w a db)) = commands db @ new" using handle_alert_appends by blast
  with Alert show ?thesis by (simp add: commands_after_append)
next
  case (Queue w t ag al act ps iss rs)
  obtain new where "commands (snd (queue_command w t ag al act ps iss rs db)) = commands db @ new"
    using queue_command_appends by blast
  with Queue show ?thesis by (simp add: commands_after_append)
next
  case (MarkDispatched w cid)
  have "commands_after db (update_commands (\<lambda>c. cmd_id c = cid \<and> cmd_status c = Pending)
      (\<lambda>c. c\<lparr>cmd_status := Dispatched, cmd_dispatched_at := Some (clock w)\<rparr>) db)"
    by (rule update_commands_after) (auto simp: progressed_def)
  with MarkDispatched show ?thesis
    using commands_after_append [of db db "[]"] by (simp add: mark_dispatched_def)
next
  case (MarkCompleted w repr cid ok data)
  let ?db1 = "update_commands
      (\<lambda>c. cmd_id c = cid \<and> cmd_status c \<in> {Pending, Dispatched, Acknowledged})
      (\<lambda>c. c\<lparr>cmd_status := (if ok then Completed else Failed),
             cmd_completed_at := Some (clock w), cmd_result := Some (bounded_result w data)\<rparr>) db"
  have "commands_after db ?db1" by (rule update_commands_after) (auto simp: progressed_def)
  moreover have "commands (snd (mark_completed w repr cid ok data db)) = (if matches_uuid cid then commands ?db1 else commands db)"
    by (simp add: mark_completed_def Let_def split: option.split)
  ultimately show ?thesis
    using MarkCompleted commands_after_append [of db db "[]"] by (auto simp: commands_after_def)
next
  case (ResetLadder w t ag)
  then show ?thesis
    using commands_after_append [of "response_step db c" db "[]"]
    by (simp add: reset_escalation_def split: option.split)
next
  case (InvalidateCache t)
  then show ?thesis
    using commands_after_append [of "response_step db c" db "[]"]
    by (simp add: invalidate_policy_cache_def split: option.split)
qed (use commands_after_append [of "response_step db c" db "[]"] in \<open>simp_all add: set_kill_switch_def
    enable_shadow_mode_def disable_shadow_mode_def set_shadow_mode_def upsert_config_def Let_def\<close>)

text \<open>
  C36: Whatever happens, the orders to the sensors keep their identity, target, kind and parameters and
  their place in the queue; an order is left as it is or moves forward from pending over dispatched
  and acknowledged to completed or failed, and one at its end never changes again.
\<close>

theorem command_lifecycle: "commands_after db (foldl response_step db cs)"
proof (induction cs arbitrary: db)
  case Nil
  show ?case using commands_after_append [of db db "[]"] by simp
next
  case (Cons c cs)
  show ?case using commands_after_trans [OF commands_step Cons.IH] by simp
qed

text \<open>
  A late or repeated acknowledgement does not change a finished order, but the learning pipeline
  is told its outcome all the same: an order that was completed is reported as failed.
\<close>

theorem late_acknowledgement_reported:
  assumes "matches_uuid cid" and "audit_works w"
    and "find (\<lambda>c. cmd_id c = cid) (commands db) = Some c"
    and "\<forall>d \<in> set (commands db). cmd_id d = cid \<longrightarrow> cmd_status d = Completed"
  shows "mark_completed w repr cid False data db =
    (Some (), db\<lparr>audit_log := audit_log db @ [outcome_entry repr False data c]\<rparr>)"
proof -
  let ?f = "\<lambda>c. if cmd_id c = cid \<and> cmd_status c \<in> {Pending, Dispatched, Acknowledged}
      then c\<lparr>cmd_status := Failed, cmd_completed_at := Some (clock w),
             cmd_result := Some (bounded_result w data)\<rparr> else c"
  have "map ?f (commands db) = commands db"
    using assms(4) by (intro map_idI) auto
  then have "update_commands (\<lambda>c. cmd_id c = cid \<and> cmd_status c \<in> {Pending, Dispatched, Acknowledged})
      (\<lambda>c. c\<lparr>cmd_status := Failed, cmd_completed_at := Some (clock w),
             cmd_result := Some (bounded_result w data)\<rparr>) db = db"
    by (simp add: update_commands_def)
  with assms(1-3) show ?thesis by (simp add: mark_completed_def)
qed

text \<open>An order that was carried out.\<close>

definition demo_done :: agent_command where
  "demo_done =
     \<lparr>cmd_id = demo_agent, cmd_tenant = ''t1'', cmd_agent = demo_agent, cmd_alert = None,
      cmd_type = ''isolate_host'', cmd_params = [], cmd_status = Completed, cmd_issued_by = None,
      cmd_reason = [], cmd_created_at = 0, cmd_dispatched_at = Some 1, cmd_completed_at = Some 2,
      cmd_result = Some []\<rparr>"

lemma demo_agent_uuid: "matches_uuid demo_agent"
  unfolding demo_agent_def by code_simp

lemma late_acknowledgement_reported_witness:
  "audit_log (snd (mark_completed (demo_env 9) (\<lambda>_. []) demo_agent False [] (demo_db\<lparr>commands := [demo_done]\<rparr>))) =
   [outcome_entry (\<lambda>_. []) False [] demo_done]"
proof -
  let ?db = "demo_db\<lparr>commands := [demo_done]\<rparr>"
  have "audit_works (demo_env 9)" by (simp add: demo_env_def)
  moreover have "find (\<lambda>c. cmd_id c = demo_agent) (commands ?db) = Some demo_done"
    by (simp add: demo_done_def)
  moreover have "\<forall>d \<in> set (commands ?db). cmd_id d = demo_agent \<longrightarrow> cmd_status d = Completed"
    by (simp add: demo_done_def)
  ultimately show ?thesis
    using late_acknowledgement_reported [OF demo_agent_uuid] by (simp add: demo_db_def)
qed

section \<open>The first step of the ladder\<close>

text \<open>
  With shadow mode off, the first offense of an agent is answered with the first step of its
  ladder, whatever the matching policy asks for: under the default ladder an agent a policy wants
  isolated is only logged, and no command is queued.
\<close>

theorem first_offense_only_logged:
  assumes "fst (check_kill_switch (al_tenant a) db) = False"
    and "evaluate_alert w a db = (Some (Some p), db1)"
    and "\<not> tenant_rate_limited w (al_tenant a) db1"
    and "fst (is_shadow_mode w (al_tenant a) db1) = False"
    and "al_agent a = Some agent" and "agent \<noteq> []"
    and "ladder_env (al_tenant a) agent aid steps window (snd (is_shadow_mode w (al_tenant a) db1)) w"
    and "seen_row w (al_tenant a) aid (snd (is_shadow_mode w (al_tenant a) db1)) = None"
    and "step_field (steps ! 0) ''action'' VNone = VStr ''log_only''"
    and "policy_action p \<noteq> ''log_only''"
  shows "fst (handle_alert w a db) = Some (done_result ''log_only'' ''executed'' [(''passive'', VBool True)]) \<and>
    enforced (snd (handle_alert w a db)) = enforced db"
proof -
  obtain db2 where s: "is_shadow_mode w (al_tenant a) db1 = (False, db2)"
    using assms(4) by (metis prod.collapse)
  have e2: "enforced db2 = enforced db"
    using s assms(2) enforced_is_shadow_mode enforced_evaluate_alert by (metis snd_conv)
  have env: "ladder_env (al_tenant a) agent aid steps window db2 w" using assms(7) s by simp
  have "1 \<le> length steps" by (rule ladder_env_steps [OF env])
  then have l: "1 = max 1 (min 1 (int (length steps)))" by simp
  have c: "climb (clock w) window (int (length steps)) (seen_row w (al_tenant a) aid db2) = (1, 1, True)"
    using assms(8) s by (simp add: climb_def)
  obtain r db3 where esc: "evaluate_escalation w (al_tenant a) agent db2 = (Some r, db3)"
    and r: "new_level r = 1" "esc_action r = VStr ''log_only''"
    using evaluate_escalation_enabled [OF env c l] assms(9) by (simp add: step_result_def)
  have e3: "enforced db3 = enforced db" using enforced_evaluate_escalation esc e2 by (metis snd_conv)
  have agent: "bind_agent w (al_agent a) \<noteq> None" using env assms(5) by (simp add: bind_agent_def ladder_env_def)
  obtain o2 db4 where d: "log_dispatch w a p ''log_only'' ''executed'' (Some 1) db3 = (o2, db4)" by fastforce
  have o2: "o2 \<noteq> None" using log_dispatch_cases [OF d] agent by blast
  have e4: "enforced db4 = enforced db" using enforced_log_dispatch d e3 by (metis snd_conv)
  have "dispatch w a p False (Some 1) (Some (VStr ''log_only'')) db3 =
      (Some (done_result ''log_only'' ''executed'' [(''passive'', VBool True)]), db4)"
    using d o2
    by (auto simp: dispatch_def ALLOWED_ACTIONS_def enforce_and_log_def enforce_def AGENT_ACTIONS_def
        PASSIVE_ACTIONS_def done_result_def)
  moreover have "escalate w a p db2 = (Some (Some 1, Some (VStr ''log_only'')), db3)"
    using esc r assms(5,6,10) by (simp add: escalate_def no_text_def op_simps)
  ultimately have "respond w a p db1 = (Some (Some (done_result ''log_only'' ''executed'' [(''passive'', VBool True)])),
      audit_response w a p False (Some 1) (done_result ''log_only'' ''executed'' [(''passive'', VBool True)]) db4)"
    using s by (simp add: respond_def op_simps)
  then show ?thesis
    using assms(1-3) e4
    by (cases "check_kill_switch (al_tenant a) db")
      (simp add: handle_alert_def handle_alert_body_def op_simps)
qed

text \<open>The example tenant with shadow mode turned off.\<close>

definition demo_live :: response_db where
  "demo_live = demo_db\<lparr>configs := [(''t1'', column_defaults\<lparr>shadow_mode := False\<rparr>)]\<rparr>"

lemma first_offense_only_logged_witness:
  "policy_action (read_policy demo_policy) = ''isolate_agent'' \<and>
   commands (snd (handle_alert (demo_env 10000) demo_alert demo_live)) = []"
proof -
  obtain c where e: "evaluate_alert (demo_env 10000) demo_alert demo_live =
      (Some (Some (read_policy demo_policy)), demo_live\<lparr>policy_cache := c\<rparr>)"
    using demo_choice [of demo_live 10000] by (auto simp: demo_live_def demo_db_def)
  let ?db1 = "demo_live\<lparr>policy_cache := c\<rparr>"
  have t: "al_tenant demo_alert = ''t1''" "al_agent demo_alert = Some demo_agent" "demo_agent \<noteq> []"
    and p: "policy_action (read_policy demo_policy) = ''isolate_agent''"
    by (simp_all add: demo_defs read_policy_def)
  have s: "is_shadow_mode (demo_env 10000) ''t1'' ?db1 = (False, ?db1)"
    by (simp add: is_shadow_mode_def demo_live_def)
  have "ladder_env ''t1'' demo_agent demo_agent DEFAULT_STEPS 3600 ?db1 (demo_env 10000)"
    using default_steps_valid
    by (simp add: ladder_env_def demo_env_def get_escalation_config_def demo_live_def column_defaults_def
        stored_steps_def validated_steps_def Let_def list_all_iff filter_id_conv [THEN iffD2] DEFAULT_STEPS_def)
  moreover have "\<not> tenant_rate_limited (demo_env 10000) ''t1'' ?db1"
    by (simp add: tenant_rate_limited_def rate_limit_exceeded_def recent_actions_def demo_live_def
        demo_db_def column_defaults_def)
  moreover have "seen_row (demo_env 10000) ''t1'' demo_agent ?db1 = None"
    by (simp add: seen_row_def live_row_def demo_live_def demo_db_def)
  moreover have "fst (check_kill_switch ''t1'' demo_live) = False"
    by (simp add: check_kill_switch_def demo_live_def column_defaults_def)
  moreover have "step_field (DEFAULT_STEPS ! 0) ''action'' VNone = VStr ''log_only''"
    by (simp add: DEFAULT_STEPS_def step_field_def dict_get_or_def)
  ultimately have "enforced (snd (handle_alert (demo_env 10000) demo_alert demo_live)) = enforced demo_live"
    using first_offense_only_logged [of demo_alert demo_live "demo_env 10000" "read_policy demo_policy" ?db1
        demo_agent demo_agent DEFAULT_STEPS 3600] e t p s by simp
  then show ?thesis using p by (simp add: enforced_def demo_live_def demo_db_def)
qed

section \<open>Agents whose identifier is no UUID\<close>

lemma log_for_refused:
  "bind_agent w (al_agent a) = None \<Longrightarrow> log_for w a p act ps d lvl db = (None, db)"
  by (simp add: log_for_def log_decision_def)

lemma log_dispatch_refused:
  "bind_agent w (al_agent a) = None \<Longrightarrow> log_dispatch w a p act d lvl db = (None, db)"
  by (simp add: log_dispatch_def log_decision_def)

lemma evaluate_escalation_refused:
  "uuid_column w agent = None \<Longrightarrow> snd (evaluate_escalation w t agent db) = db"
  by (simp add: evaluate_escalation_def split: option.split)

lemma first_match_refused:
  "bind_agent w (al_agent a) = None \<Longrightarrow> snd (first_match w a ps db) = db"
  by (induction ps arbitrary: db) (auto simp: op_simps check_cooldown_def split: option.split)

lemma dispatch_refused:
  assumes b: "bind_agent w (al_agent a) = None"
  shows "action_log (snd (dispatch w a p s lvl esc db)) = action_log db \<and>
    (\<forall>r. fst (dispatch w a p s lvl esc db) = Some r \<longrightarrow> res_decision r = ''error'')"
proof -
  have enforced: "action_log (snd (enforce_and_log w a p act lvl db)) = action_log db \<and>
      (\<forall>r. fst (enforce_and_log w a p act lvl db) = Some r \<longrightarrow> res_decision r = ''error'')" for act
  proof -
    obtain x db1 where e: "enforce w a p act db = (x, db1)" by fastforce
    then have "action_log db1 = action_log db" using enforce_log by (metis snd_conv)
    with e b show ?thesis
      by (cases x) (auto simp: enforce_and_log_def log_dispatch_refused dispatch_failed_def error_result_def)
  qed
  show ?thesis
    using enforced b
    by (simp add: dispatch_def Let_def op_simps log_dispatch_refused error_result_def split: pval.split)
qed

text \<open>
  The agent columns of the response tables hold UUIDs, while the agents of the platform are named
  by texts like ptx-org-host-0123456789ab. For such an agent no alert is ever logged, shadowed or
  executed: the action log stays as it is, and the answer is nothing or an error.
\<close>

theorem other_agents_unanswered:
  assumes "al_agent a = Some agent" and "uuid_column w agent = None"
  shows "action_log (snd (handle_alert w a db)) = action_log db \<and>
    (\<forall>r. fst (handle_alert w a db) = Some r \<longrightarrow> res_decision r = ''error'')"
proof -
  have b: "bind_agent w (al_agent a) = None" using assms by (simp add: bind_agent_def)
  have respond: "action_log (snd (respond w a p db1)) = action_log db1 \<and>
      (\<forall>r. fst (respond w a p db1) = Some (Some r) \<longrightarrow> res_decision r = ''error'')" for p db1
  proof -
    obtain s db2 where s: "is_shadow_mode w (al_tenant a) db1 = (s, db2)" by fastforce
    then have s2: "action_log db2 = action_log db1" using is_shadow_mode_log by (metis snd_conv)
    obtain e db3 where e: "escalate w a p db2 = (e, db3)" by fastforce
    then have e3: "action_log db3 = action_log db1" using escalate_log s2 by (metis snd_conv)
    obtain d db4 where d: "dispatch w a p s (fst (the e)) (snd (the e)) db3 = (d, db4)" by fastforce
    then have "action_log db4 = action_log db1" "\<forall>r. d = Some r \<longrightarrow> res_decision r = ''error''"
      using dispatch_refused [OF b, of p s "fst (the e)" "snd (the e)" db3] e3 by simp_all
    with s e e3 d show ?thesis
      by (cases e; cases d) (auto simp: respond_def op_simps case_prod_beta)
  qed
  obtain ps db1 where l: "load_policies w (al_tenant a) db = (ps, db1)" by fastforce
  then obtain c where "db1 = db\<lparr>policy_cache := c\<rparr>" using load_policies_effect by blast
  then have l1: "action_log db1 = action_log db" by simp
  obtain found where f: "evaluate_alert w a db = (found, db1)"
    using first_match_refused [OF b, of ps db1] l by (simp add: evaluate_alert_def) (metis prod.collapse)
  obtain killed reason where k: "check_kill_switch (al_tenant a) db = (killed, reason)" by fastforce
  show ?thesis
  proof (cases "killed \<or> found = None \<or> found = Some None \<or> tenant_rate_limited w (al_tenant a) db1")
    case True
    with k f l1 b show ?thesis
      by (cases killed; cases found)
        (auto simp: handle_alert_def handle_alert_body_def op_simps log_for_refused split: option.split)
  next
    case False
    then obtain p where p: "found = Some (Some p)" by (metis option.exhaust)
    with False k f have "handle_alert w a db =
        (case fst (respond w a p db1) of None \<Rightarrow> None | Some x \<Rightarrow> x, snd (respond w a p db1))"
      by (cases "respond w a p db1") (simp add: handle_alert_def handle_alert_body_def op_simps split: option.split)
    with respond [of p db1] l1 show ?thesis by (auto split: option.split)
  qed
qed

definition demo_paid :: string where
  "demo_paid = ''ptx-acme-dev-0123456789ab''"

lemma other_agents_unanswered_witness:
  "matches_paid demo_paid \<and>
   action_log (snd (handle_alert (demo_env 1\<lparr>uuid_column := \<lambda>s. if matches_uuid s then Some s else None\<rparr>)
     (demo_alert\<lparr>al_agent := Some demo_paid\<rparr>) demo_live)) = []"
proof -
  have paid: "matches_paid demo_paid" "\<not> matches_uuid demo_paid"
    unfolding demo_paid_def by code_simp+
  let ?w = "demo_env 1\<lparr>uuid_column := \<lambda>s. if matches_uuid s then Some s else None\<rparr>"
  have "action_log (snd (handle_alert ?w (demo_alert\<lparr>al_agent := Some demo_paid\<rparr>) demo_live)) = action_log demo_live"
    using other_agents_unanswered [of "demo_alert\<lparr>al_agent := Some demo_paid\<rparr>" demo_paid ?w demo_live] paid
    by simp
  with paid show ?thesis by (simp add: demo_live_def demo_db_def)
qed

section \<open>Blocking an MCP server\<close>

text \<open>
  A policy that blocks an MCP server reports success and logs an executed action, but the registry
  the rules consult keeps its trust in every server: the block goes to a registry that is thrown away.
\<close>

theorem mcp_block_lost:
  assumes "policy_action p = ''block_mcp_server''"
    and "dict_get (policy_params p) ''server_id'' = Some server" and "truthy server" and "hashable server"
    and "bind_agent w (al_agent a) \<noteq> None"
  shows "\<exists>r db'. dispatch w a p False lvl None db = (Some r, db') \<and> res_success r \<and>
    res_decision r = ''executed'' \<and>
    mcp_trust_level t s (rule_registry db') = mcp_trust_level t s (rule_registry db)"
proof -
  let ?r = "done_result ''block_mcp_server'' ''executed'' [(''server_id'', server)]"
  have en: "enforce w a p ''block_mcp_server'' db = (Inr ?r, db)"
    using assms(2-4)
    by (simp add: enforce_def AGENT_ACTIONS_def dispatch_mcp_block_def dict_get_or_def case_prod_beta)
  obtain o2 db' where l: "log_dispatch w a p ''block_mcp_server'' ''executed'' lvl db = (o2, db')" by fastforce
  then have o2: "o2 \<noteq> None" using log_dispatch_cases [OF l] assms(5) by blast
  have "rule_registry db' = rule_registry db"
    using enforced_log_dispatch [of w a p "''block_mcp_server''" "''executed''" lvl db] l by (simp add: enforced_def)
  moreover have "dispatch w a p False lvl None db = (Some ?r, db')"
    using en l o2 assms(1)
    by (auto simp: dispatch_def ALLOWED_ACTIONS_def enforce_and_log_def done_result_def)
  ultimately show ?thesis by (auto simp: done_result_def)
qed

lemma mcp_block_lost_witness:
  "\<exists>r db'. dispatch (demo_env 1) demo_alert (demo_policy\<lparr>policy_action := ''block_mcp_server'',
      policy_params := [(''server_id'', VStr ''evil'')]\<rparr>) False None None demo_db = (Some r, db') \<and>
    res_success r \<and> mcp_trust_level ''t1'' (VStr ''evil'') (rule_registry db') = Unknown"
proof -
  let ?p = "demo_policy\<lparr>policy_action := ''block_mcp_server'', policy_params := [(''server_id'', VStr ''evil'')]\<rparr>"
  have "bind_agent (demo_env 1) (al_agent demo_alert) \<noteq> None"
    by (simp add: bind_agent_def demo_env_def demo_alert_def)
  moreover have "mcp_trust_level ''t1'' (VStr ''evil'') (rule_registry demo_db) = Unknown"
    by (simp add: demo_db_def mcp_trust_level_def new_registry_def)
  ultimately show ?thesis
    using mcp_block_lost [of ?p "VStr ''evil''" "demo_env 1" demo_alert None demo_db "''t1''" "VStr ''evil''"]
    by auto
qed

end
