(* ===== verification/Response_Admin.thy ===== *)
theory Response_Admin
  imports Response_Gaps
begin

text \<open>
  The routes of \<open>backend/app/routers/response.py\<close> that change something: the switches, the policies, the ladders,
  the configuration and the overrides, with the checks of their bodies and their audit entries. A result is the status of the error or the value.
  The commit comes before the audit entry, so a request whose audit entry fails answers 500 and has taken effect.
\<close>

section \<open>Requests\<close>

text \<open>What a request reads beside the environment: its user, the identifier it draws, \<open>repr\<close>, \<open>json.dumps\<close>, the
  text of a time, the rounding of a REAL column, and whether pydantic's bounds of a number let NaN pass.\<close>

record route_env =
  route_base :: response_env
  route_user :: string
  new_row :: string
  repr_value :: "pval \<Rightarrow> string"
  json_text :: "pval \<Rightarrow> string"
  iso_time :: "rat \<Rightarrow> string"
  real_column :: "py_float \<Rightarrow> py_float"
  nan_passes :: bool

record policy_body =
  body_name :: string
  body_description :: string
  body_severity :: pval
  body_attack_class :: pval
  body_event_type :: pval
  body_min_confidence :: py_float
  body_action :: string
  body_params :: "(string, pval) dict"
  body_enabled :: bool
  body_priority :: int
  body_cooldown :: int
  body_require_shadow :: bool

text \<open>\<open>validate_string_lists\<close>: twenty items are looked at, empty and long ones are dropped.\<close>

definition clean_items :: "route_env \<Rightarrow> pval \<Rightarrow> string list" where
  "clean_items w v =
     (case v of
        VList xs \<Rightarrow> filter (\<lambda>s. s \<noteq> [] \<and> length s \<le> 100) (map (\<lambda>x. py_lower (py_strip (py_str (repr_value w) x))) (take 20 xs))
      | _ \<Rightarrow> [])"

definition policy_body_ok :: "route_env \<Rightarrow> policy_body \<Rightarrow> bool" where
  "policy_body_ok w b \<longleftrightarrow>
     1 \<le> length (body_name b) \<and> length (body_name b) \<le> 200 \<and> length (body_description b) \<le> 2000 \<and>
     length (clean_items w (body_severity b)) \<le> 10 \<and> length (clean_items w (body_attack_class b)) \<le> 20 \<and>
     length (clean_items w (body_event_type b)) \<le> 20 \<and>
     (case body_min_confidence b of FFin x \<Rightarrow> 0 \<le> x \<and> x \<le> 1 | FNaN \<Rightarrow> nan_passes w | _ \<Rightarrow> False) \<and>
     body_action b \<in> set ALLOWED_ACTIONS \<and> json_length (route_base w) (body_params b) \<le> 8192 \<and>
     0 \<le> body_priority b \<and> body_priority b \<le> 10000 \<and> 0 \<le> body_cooldown b \<and> body_cooldown b \<le> 86400"

text \<open>The severities are in a column of texts of twenty characters, which refuses longer ones.\<close>

definition severity_fits :: "route_env \<Rightarrow> policy_body \<Rightarrow> bool" where
  "severity_fits w b \<longleftrightarrow> list_all (\<lambda>s. length s \<le> 20) (clean_items w (body_severity b))"

definition policy_of_body :: "route_env \<Rightarrow> string \<Rightarrow> string \<Rightarrow> policy_body \<Rightarrow> response_policy" where
  "policy_of_body w tenant i b =
     \<lparr>policy_id = i, policy_tenant = tenant, policy_name = body_name b, policy_severity = clean_items w (body_severity b),
      policy_attack_class = clean_items w (body_attack_class b), policy_event_type = clean_items w (body_event_type b),
      policy_min_confidence = real_column w (body_min_confidence b), policy_action = body_action b,
      policy_params = body_params b, policy_enabled = body_enabled b, policy_priority = body_priority b,
      policy_cooldown = body_cooldown b, policy_require_shadow = body_require_shadow b\<rparr>"

text \<open>The audit entry at the end of a route; its insertion may raise.\<close>

definition audit_route :: "route_env \<Rightarrow> string \<Rightarrow> string \<Rightarrow> string \<Rightarrow> (string, pval) dict \<Rightarrow> 'a \<Rightarrow> response_db \<Rightarrow>
    (nat + 'a) \<times> response_db" where
  "audit_route w tenant action resource details x db =
     (if \<not> audit_works (route_base w) then (Inl 500, db)
      else (Inr x, db\<lparr>audit_log := audit_log db @
        [\<lparr>audit_tenant = tenant, audit_user = Some (route_user w), audit_action = action, audit_resource = resource,
          audit_details = details\<rparr>]\<rparr>))"

section \<open>Switches and ladders\<close>

text \<open>The dash of the text is code point 0x2014, beyond the characters of the model: it is written as a question mark.\<close>

definition shadow_warning :: string where
  "shadow_warning = ''Auto-response is now LIVE ? enforcement active''"

definition toggle_kill_switch :: "route_env \<Rightarrow> string \<Rightarrow> bool \<Rightarrow> string \<Rightarrow> response_db \<Rightarrow> (nat + unit) \<times> response_db" where
  "toggle_kill_switch w tenant active reason db =
     (if 1000 < length reason then (Inl 422, db)
      else audit_route w tenant (if active then ''response.kill_switch.activate'' else ''response.kill_switch.deactivate'') []
             [(''active'', VBool active), (''reason'', VStr reason)] ()
             (set_kill_switch (route_base w) tenant active reason (Some (route_user w)) db))"

definition enable_shadow :: "route_env \<Rightarrow> string \<Rightarrow> int option \<Rightarrow> response_db \<Rightarrow> (nat + bool \<times> rat option) \<times> response_db" where
  "enable_shadow w tenant hours db =
     (if case hours of None \<Rightarrow> False | Some h \<Rightarrow> h < 1 \<or> 8760 < h then (Inl 422, db)
      else case enable_shadow_mode (route_base w) tenant (Some (route_user w)) hours db of
             (result, db1) \<Rightarrow> audit_route w tenant ''response.shadow.enable'' []
               [(''shadow_mode'', VBool True),
                (''expires_at'', case snd result of None \<Rightarrow> VNone | Some t \<Rightarrow> VStr (iso_time w t))] result db1)"

definition disable_shadow :: "route_env \<Rightarrow> string \<Rightarrow> response_db \<Rightarrow> (nat + bool \<times> rat option) \<times> response_db" where
  "disable_shadow w tenant db =
     (case disable_shadow_mode (route_base w) tenant (Some (route_user w)) db of
        (result, db1) \<Rightarrow> audit_route w tenant ''response.shadow.disable'' []
          [(''warning'', VStr shadow_warning)] result db1)"

definition reset_agent_escalation :: "route_env \<Rightarrow> string \<Rightarrow> string \<Rightarrow> response_db \<Rightarrow> (nat + unit) \<times> response_db" where
  "reset_agent_escalation w tenant agent db =
     (if 256 < length agent \<or> \<not> (matches_paid agent \<or> matches_uuid agent) then (Inl 422, db)
      else case reset_escalation (route_base w) tenant agent db of
             (None, db1) \<Rightarrow> (Inl 500, db1)
           | (Some False, db1) \<Rightarrow> (Inl 404, db1)
           | (Some True, db1) \<Rightarrow>
               audit_route w tenant ''response.escalation.reset'' [] [(''agent_id'', VStr agent)] () db1)"

section \<open>Policies\<close>

definition create_response_policy :: "route_env \<Rightarrow> string \<Rightarrow> policy_body \<Rightarrow> response_db \<Rightarrow> (nat + string) \<times> response_db" where
  "create_response_policy w tenant b db =
     (if \<not> policy_body_ok w b then (Inl 422, db)
      else if \<not> severity_fits w b then (Inl 500, db)
      else audit_route w tenant ''response.policy.create'' (new_row w)
             [(''name'', VStr (body_name b)), (''action'', VStr (body_action b))] (new_row w)
             (invalidate_policy_cache (Some tenant)
               (db\<lparr>policy_rows := policy_rows db @ [(policy_of_body w tenant (new_row w) b, clock (route_base w))]\<rparr>)))"

definition has_policy :: "string \<Rightarrow> string \<Rightarrow> response_db \<Rightarrow> bool" where
  "has_policy tenant i db \<longleftrightarrow> list_ex (\<lambda>(p, created). policy_id p = i \<and> policy_tenant p = tenant) (policy_rows db)"

definition update_response_policy :: "route_env \<Rightarrow> string \<Rightarrow> string \<Rightarrow> policy_body \<Rightarrow> response_db \<Rightarrow>
    (nat + unit) \<times> response_db" where
  "update_response_policy w tenant i b db =
     (if \<not> policy_body_ok w b then (Inl 422, db)
      else if \<not> has_policy tenant i db then (Inl 404, db)
      else if \<not> severity_fits w b then (Inl 500, db)
      else audit_route w tenant ''response.policy.update'' i
             [(''name'', VStr (body_name b)), (''action'', VStr (body_action b))] ()
             (invalidate_policy_cache (Some tenant)
               (db\<lparr>policy_rows := map (\<lambda>(p, created).
                  (if policy_id p = i \<and> policy_tenant p = tenant then policy_of_body w tenant i b else p, created)) (policy_rows db)\<rparr>)))"

text \<open>\<open>ON DELETE SET NULL\<close> of the column \<open>policy_id\<close> of the action log.\<close>

definition unlink_policy :: "string \<Rightarrow> action_entry \<Rightarrow> action_entry" where
  "unlink_policy i e = (if entry_policy e = Some i then e\<lparr>entry_policy := None\<rparr> else e)"

definition delete_response_policy :: "route_env \<Rightarrow> string \<Rightarrow> string \<Rightarrow> response_db \<Rightarrow> (nat + unit) \<times> response_db" where
  "delete_response_policy w tenant i db =
     (if \<not> has_policy tenant i db then (Inl 404, db)
      else audit_route w tenant ''response.policy.delete'' i [] ()
             (invalidate_policy_cache (Some tenant)
               (db\<lparr>policy_rows := filter (\<lambda>(p, created). \<not> (policy_id p = i \<and> policy_tenant p = tenant)) (policy_rows db),
                   action_log := map (unlink_policy i) (action_log db)\<rparr>)))"

section \<open>Configuration\<close>

record config_body =
  cfg_escalation :: "bool option"
  cfg_window :: "int option"
  cfg_steps :: "(string, pval) dict list option"
  cfg_max_actions :: "int option"

text \<open>\<open>validate_steps\<close>: an action that is a list or an object is no member of a set, but an exception.\<close>

fun steps_error :: "(string, pval) dict list \<Rightarrow> nat option" where
  "steps_error [] = None"
| "steps_error (s # ss) =
     (case (dict_get s ''level'', dict_get s ''action'') of
        (Some _, Some (VStr a)) \<Rightarrow> if a \<in> set ALLOWED_ACTIONS then steps_error ss else Some 422
      | (Some _, Some (VList _)) \<Rightarrow> Some 500
      | (Some _, Some (VDict _)) \<Rightarrow> Some 500
      | _ \<Rightarrow> Some 422)"

definition in_bounds :: "int \<Rightarrow> int \<Rightarrow> int option \<Rightarrow> bool" where
  "in_bounds lo hi x \<longleftrightarrow> (case x of None \<Rightarrow> True | Some n \<Rightarrow> lo \<le> n \<and> n \<le> hi)"

definition config_body_error :: "config_body \<Rightarrow> nat option" where
  "config_body_error b =
     (case (case cfg_steps b of None \<Rightarrow> None | Some ss \<Rightarrow> if 10 < length ss then Some 422 else steps_error ss) of
        Some e \<Rightarrow> Some e
      | None \<Rightarrow> if in_bounds 60 86400 (cfg_window b) \<and> in_bounds 1 1000 (cfg_max_actions b) then None else Some 422)"

definition provided :: "'a option \<Rightarrow> 'a \<Rightarrow> 'a" where
  "provided x old = (case x of None \<Rightarrow> old | Some y \<Rightarrow> y)"

definition config_details :: "route_env \<Rightarrow> config_body \<Rightarrow> (string, pval) dict" where
  "config_details w b =
     (case cfg_escalation b of None \<Rightarrow> [] | Some e \<Rightarrow> [(''esc_enabled'', VBool e)]) @
     (case cfg_window b of None \<Rightarrow> [] | Some n \<Rightarrow> [(''esc_window'', VNum (NInt n))]) @
     (case cfg_steps b of None \<Rightarrow> [] | Some ss \<Rightarrow> [(''esc_steps'', VStr (json_text w (VList (map VDict ss))))]) @
     (case cfg_max_actions b of None \<Rightarrow> [] | Some n \<Rightarrow> [(''max_hour'', VNum (NInt n))])"

text \<open>The upsert: a new row gets the defaults of its columns, and only an existing one the provided values.\<close>

definition update_response_config :: "route_env \<Rightarrow> string \<Rightarrow> config_body \<Rightarrow> response_db \<Rightarrow> (nat + unit) \<times> response_db" where
  "update_response_config w tenant b db =
     (case config_body_error b of
        Some e \<Rightarrow> (Inl e, db)
      | None \<Rightarrow>
          (let now = clock (route_base w);
               row = (case dict_get (configs db) tenant of
                        None \<Rightarrow> column_defaults\<lparr>config_updated_at := now\<rparr>
                      | Some c \<Rightarrow> c\<lparr>escalation_enabled := provided (cfg_escalation b) (escalation_enabled c),
                          escalation_window := provided (cfg_window b) (escalation_window c),
                          escalation_steps := provided (map_option (\<lambda>ss. VList (map VDict ss)) (cfg_steps b)) (escalation_steps c),
                          max_actions_per_hour := provided (cfg_max_actions b) (max_actions_per_hour c),
                          config_updated_at := now\<rparr>)
           in audit_route w tenant ''response.config.update'' [] (config_details w b) ()
                (db\<lparr>configs := dict_set tenant row (configs db)\<rparr>)))"

section \<open>Overrides\<close>

text \<open>The new row copies the columns that the statement names. The others are NULL, which a text and the confidence of
  the model hold as the empty text and NaN.\<close>

definition override_entry :: "route_env \<Rightarrow> string \<Rightarrow> action_entry \<Rightarrow> action_entry" where
  "override_entry w reason e =
     e\<lparr>entry_id := new_row w, entry_decision := ''overridden'', entry_level := None, entry_severity := [],
       entry_confidence := FNaN, entry_attack_class := [], entry_event_type := [],
       entry_overridden_by := Some (route_user w), entry_override_reason := take 1000 reason,
       entry_created_at := clock (route_base w), entry_executed_at := None\<rparr>"

text \<open>The reversal of an isolation; an exception is logged and the override stands.\<close>

definition queue_reversal :: "route_env \<Rightarrow> string \<Rightarrow> string \<Rightarrow> action_entry \<Rightarrow> response_db \<Rightarrow> bool \<times> response_db" where
  "queue_reversal w tenant reason e db =
     (if entry_action e = ''isolate_agent'' \<and> \<not> no_text (entry_agent e) then
        (case to_uuid (route_base w) tenant of
           None \<Rightarrow> (False, db)
         | Some t \<Rightarrow>
             (case queue_command (route_base w) t (the (entry_agent e)) None ''isolate_agent''
                     [(''unisolate'', VBool True)] (Some (route_user w)) (''Human override: '' @ take 500 reason) db of
                (Inl _, db1) \<Rightarrow> (False, db1)
              | (Inr _, db1) \<Rightarrow> (True, db1)))
      else (False, db))"

definition override_action :: "route_env \<Rightarrow> string \<Rightarrow> string \<Rightarrow> string \<Rightarrow> response_db \<Rightarrow> (nat + string \<times> bool) \<times> response_db" where
  "override_action w tenant log_id reason db =
     (if reason = [] \<or> 1000 < length reason then (Inl 422, db)
      else case find (\<lambda>e. entry_id e = log_id \<and> entry_tenant e = tenant) (action_log db) of
             None \<Rightarrow> (Inl 404, db)
           | Some e \<Rightarrow>
               if entry_decision e = ''overridden'' then (Inl 409, db)
               else (case queue_reversal w tenant reason e
                            (db\<lparr>action_log := action_log db @ [override_entry w reason e]\<rparr>) of
                       (queued, db1) \<Rightarrow>
                         audit_route w tenant ''response.override'' log_id
                           [(''original_action'', VStr (entry_action e)), (''reason'', VStr reason), (''reversal_queued'', VBool queued)]
                           (new_row w, queued) db1))"

end
