(* ===== verification/Response_Admin_Props.thy ===== *)
theory Response_Admin_Props
  imports Response_Admin
begin

text \<open>
  The response layer under all of its operations, those of the administrators included: what is kept of its state
  and of the action log, and what overrides and the first change of a configuration do not do.
\<close>

section \<open>All operations\<close>

datatype admin_op =
  Response response_op
| Toggle_Kill_Switch route_env string bool string
| Enable_Shadow route_env string "int option"
| Disable_Shadow route_env string
| Reset_Agent route_env string string
| Create_Policy route_env string policy_body
| Update_Policy route_env string string policy_body
| Delete_Policy route_env string string
| Update_Config route_env string config_body
| Override route_env string string string

fun admin_step :: "response_db \<Rightarrow> admin_op \<Rightarrow> response_db" where
  "admin_step db (Response c) = response_step db c"
| "admin_step db (Toggle_Kill_Switch w t active reason) = snd (toggle_kill_switch w t active reason db)"
| "admin_step db (Enable_Shadow w t hours) = snd (enable_shadow w t hours db)"
| "admin_step db (Disable_Shadow w t) = snd (disable_shadow w t db)"
| "admin_step db (Reset_Agent w t agent) = snd (reset_agent_escalation w t agent db)"
| "admin_step db (Create_Policy w t b) = snd (create_response_policy w t b db)"
| "admin_step db (Update_Policy w t i b) = snd (update_response_policy w t i b db)"
| "admin_step db (Delete_Policy w t i) = snd (delete_response_policy w t i db)"
| "admin_step db (Update_Config w t b) = snd (update_response_config w t b db)"
| "admin_step db (Override w t i reason) = snd (override_action w t i reason db)"

text \<open>The policies that an operation asks to delete, and the entries of the log without their links to some policies.\<close>

fun asks_to_delete :: "admin_op \<Rightarrow> string set" where
  "asks_to_delete (Delete_Policy w t i) = {i}"
| "asks_to_delete c = {}"

definition without_links :: "string set \<Rightarrow> action_entry \<Rightarrow> action_entry" where
  "without_links ids e = (case entry_policy e of None \<Rightarrow> e | Some i \<Rightarrow> if i \<in> ids then e\<lparr>entry_policy := None\<rparr> else e)"

lemma without_no_links [simp]: "without_links {} = id"
  by (auto simp: without_links_def split: option.split)

lemma unlink_without: "unlink_policy i = without_links {i}"
  by (auto simp: unlink_policy_def without_links_def split: option.split)

lemma without_links_twice: "without_links ids (without_links ids' e) = without_links (ids \<union> ids') e"
  by (auto simp: without_links_def split: option.split)

lemma without_links_ok: "entry_ok (without_links ids e) = entry_ok e"
  by (auto simp: without_links_def entry_ok_def split: option.split)

lemma audit_route_keeps [simp]:
  "response_ok (snd (audit_route w t act res d x db)) = response_ok db"
  "action_log (snd (audit_route w t act res d x db)) = action_log db"
  by (simp_all add: audit_route_def response_ok_def)

lemma invalidate_ok: "response_ok db \<Longrightarrow> response_ok (invalidate_policy_cache t db)"
  using invalidate_kept [of "[]" db t] by (simp add: kept_def)

lemma invalidate_log [simp]: "action_log (invalidate_policy_cache t db) = action_log db"
  by (simp add: invalidate_policy_cache_def split: option.split)

lemma rows_ok [simp]: "response_ok (db\<lparr>policy_rows := rs\<rparr>) = response_ok db"
  by (simp add: response_ok_def)

lemma queue_command_same_log:
  "queue_command w t a al act ps b r db = (res, db1) \<Longrightarrow> action_log db1 = action_log db"
  by (auto simp: queue_command_def Let_def split: option.splits if_splits)

lemma queue_command_ok:
  "queue_command w t a al act ps b r db = (res, db1) \<Longrightarrow> response_ok db \<Longrightarrow> response_ok db1"
  using queue_command_kept [of "[]" db w t a al act ps b r] by (simp add: kept_def)

lemma queue_reversal_ok: "queue_reversal w t reason e db = (queued, db1) \<Longrightarrow> response_ok db \<Longrightarrow> response_ok db1"
  unfolding queue_reversal_def
  by (auto split: if_splits option.splits prod.splits sum.splits dest: queue_command_ok)

lemma queue_reversal_log: "queue_reversal w t reason e db = (queued, db1) \<Longrightarrow> action_log db1 = action_log db"
  unfolding queue_reversal_def
  by (auto split: if_splits option.splits prod.splits sum.splits dest: queue_command_same_log)

lemma override_entry_ok: "entry_ok e \<Longrightarrow> entry_ok (override_entry w reason e)"
  by (simp add: entry_ok_def override_entry_def DECISIONS_def)

lemma override_keeps:
  assumes "response_ok db"
  shows "response_ok (snd (override_action w t i reason db)) \<and>
    (\<exists>new. action_log (snd (override_action w t i reason db)) = action_log db @ new)"
proof (cases "find (\<lambda>e. entry_id e = i \<and> entry_tenant e = t) (action_log db)")
  case None
  with assms show ?thesis by (simp add: override_action_def)
next
  case (Some e)
  let ?db = "db\<lparr>action_log := action_log db @ [override_entry w reason e]\<rparr>"
  have "e \<in> set (action_log db)" using Some by (auto simp: find_Some_iff)
  then have ok: "response_ok ?db" using assms override_entry_ok by (auto simp: response_ok_def list_all_iff)
  obtain q db1 where "queue_reversal w t reason e ?db = (q, db1)" by fastforce
  with queue_reversal_ok [OF this ok] queue_reversal_log [OF this] Some assms show ?thesis by (auto simp: override_action_def)
qed

lemma switch_keeps:
  assumes "response_ok db"
  shows "response_ok (set_kill_switch w t active reason by_user db) \<and>
      action_log (set_kill_switch w t active reason by_user db) = action_log db"
    and "response_ok (set_shadow_mode w t on by_user until_time db) \<and>
      action_log (set_shadow_mode w t on by_user until_time db) = action_log db"
  using assms by (simp_all add: set_kill_switch_def set_shadow_mode_def upsert_config_def response_ok_def)

lemma reset_keeps:
  assumes "response_ok db"
  shows "response_ok (snd (reset_escalation w t agent db)) \<and>
    action_log (snd (reset_escalation w t agent db)) = action_log db"
  using response.inv_step [OF assms, of "ResetLadder w t agent"]
  by (simp add: reset_escalation_def split: option.split)

lemma admin_step_keeps:
  assumes "response_ok db"
  shows "response_ok (admin_step db c) \<and> (\<exists>ids new. ids \<subseteq> asks_to_delete c \<and>
    action_log (admin_step db c) = map (without_links ids) (action_log db) @ new)"
proof -
  have grow: "\<exists>ids new. ids \<subseteq> asks_to_delete c \<and> l = map (without_links ids) (action_log db) @ new"
    if "\<exists>new. l = action_log db @ new" for l c
    using that by (intro exI [of _ "{}"]) simp
  show ?thesis
  proof (cases c)
    case (Response r)
    with response.inv_step [OF assms, of r] response.log_step [OF assms, of r] grow show ?thesis by simp
  next
    case (Toggle_Kill_Switch w t active reason)
    with switch_keeps [OF assms] assms grow show ?thesis by (simp add: toggle_kill_switch_def)
  next
    case (Enable_Shadow w t hours)
    with switch_keeps [OF assms] assms grow show ?thesis by (simp add: enable_shadow_def enable_shadow_mode_def Let_def)
  next
    case (Disable_Shadow w t)
    with switch_keeps [OF assms] assms grow show ?thesis by (simp add: disable_shadow_def disable_shadow_mode_def)
  next
    case (Reset_Agent w t agent)
    with reset_keeps [OF assms, of "route_base w" t agent] assms grow show ?thesis
      by (auto simp: reset_agent_escalation_def split: prod.split option.split bool.split)
  next
    case (Create_Policy w t b)
    with assms grow show ?thesis by (auto simp: create_response_policy_def intro: invalidate_ok)
  next
    case (Update_Policy w t i b)
    with assms grow show ?thesis by (auto simp: update_response_policy_def intro: invalidate_ok)
  next
    case (Delete_Policy w t i)
    have "response_ok (db\<lparr>policy_rows := rs, action_log := map (unlink_policy i) (action_log db)\<rparr>)" for rs
      using assms by (auto simp: response_ok_def list_all_iff unlink_without without_links_ok)
    with Delete_Policy assms grow show ?thesis
      by (auto simp: delete_response_policy_def unlink_without intro: invalidate_ok)
  next
    case (Update_Config w t b)
    have "response_ok (db\<lparr>configs := dict_set t row (configs db)\<rparr>)" for row
      using assms by (simp add: response_ok_def)
    with Update_Config assms grow show ?thesis
      by (auto simp: update_response_config_def Let_def split: option.split)
  next
    case (Override w t i reason)
    with override_keeps [OF assms] grow show ?thesis by simp
  qed
qed

interpretation admin: machine admin_step response_ok
  by unfold_locales (use admin_step_keeps in blast)

text \<open>
  C2: Every sequence of operations of the response layer (alerts, switches, resets, orders and their acknowledgements,
  creating, changing and deleting policies, changing the configuration, overrides) keeps its invariant: whitelisted
  actions and decisions, ladders between 1 and their offense count, a bounded cache of the tenants' own enabled
  policies, well-formed commands. The action log only grows at its end: no entry is removed or moved, and the one
  change to an entry is that its link to a policy is cleared, when a request of the sequence deletes that policy.
\<close>

theorem response_invariant:
  assumes "response_ok db"
  shows "response_ok (foldl admin_step db cs) \<and>
    (\<exists>ids new. ids \<subseteq> \<Union> (asks_to_delete ` set cs) \<and>
       action_log (foldl admin_step db cs) = map (without_links ids) (action_log db) @ new)"
proof (induction cs rule: rev_induct)
  case Nil
  show ?case using assms by (auto intro: exI [of _ "{}"])
next
  case (snoc c cs)
  then obtain ids new where old: "response_ok (foldl admin_step db cs)" "ids \<subseteq> \<Union> (asks_to_delete ` set cs)"
    "action_log (foldl admin_step db cs) = map (without_links ids) (action_log db) @ new" by blast
  from admin_step_keeps [OF old(1), of c] obtain ids' new' where "ids' \<subseteq> asks_to_delete c"
    and log: "action_log (admin_step (foldl admin_step db cs) c) =
      map (without_links ids') (action_log (foldl admin_step db cs)) @ new'" by blast
  then have "ids' \<union> ids \<subseteq> \<Union> (asks_to_delete ` set (cs @ [c]))" using old(2) by auto
  moreover have "action_log (foldl admin_step db (cs @ [c])) =
      map (without_links (ids' \<union> ids)) (action_log db) @ map (without_links ids') new @ new'"
    using log old(3) by (simp add: without_links_twice)
  ultimately show ?case using admin_step_keeps [OF old(1), of c] by (simp only: foldl_append foldl.simps) blast
qed

text \<open>A log of one isolation, linked to the policy that is then deleted; the isolation is then overridden.\<close>

definition demo_route :: route_env where
  "demo_route =
     \<lparr>route_base = demo_env 20, route_user = ''u1'', new_row = ''n1'', repr_value = (\<lambda>_. []), json_text = (\<lambda>_. []),
      iso_time = (\<lambda>_. []), real_column = id, nan_passes = False\<rparr>"

definition demo_entry :: action_entry where
  "demo_entry =
     \<lparr>entry_id = ''e1'', entry_tenant = ''t1'', entry_alert = ''a1'', entry_policy = Some ''p1'',
      entry_agent = Some demo_agent, entry_action = ''isolate_agent'', entry_params = [], entry_decision = ''executed'',
      entry_level = None, entry_severity = ''High'', entry_confidence = FFin 1, entry_attack_class = [],
      entry_event_type = ''process_exec'', entry_overridden_by = None, entry_override_reason = [],
      entry_created_at = 10, entry_executed_at = Some 10\<rparr>"

definition demo_logged :: response_db where
  "demo_logged = demo_db\<lparr>action_log := [demo_entry]\<rparr>"

lemma demo_logged_ok: "response_ok demo_logged"
  using demo_db_ok
  by (simp add: response_ok_def demo_logged_def demo_db_def entry_ok_def demo_entry_def DECISIONS_def ALLOWED_ACTIONS_def)

definition demo_requests :: "admin_op list" where
  "demo_requests =
     [Delete_Policy demo_route ''t1'' ''p1'', Override demo_route ''t1'' ''e1'' ''false alarm'',
      Response (Alert (demo_env 30) demo_alert)]"

lemma response_invariant_witness:
  "response_ok (foldl admin_step demo_logged demo_requests) \<and>
   (\<exists>ids new. ids \<subseteq> {''p1''} \<and>
     action_log (foldl admin_step demo_logged demo_requests) = map (without_links ids) [demo_entry] @ new)"
proof -
  have "\<Union> (asks_to_delete ` set demo_requests) = {''p1''}" by (simp add: demo_requests_def)
  moreover have "action_log demo_logged = [demo_entry]" by (simp add: demo_logged_def)
  ultimately show ?thesis using response_invariant [OF demo_logged_ok, of demo_requests] by (simp only:)
qed

section \<open>Overrides and the first change of a configuration\<close>

text \<open>The decision that is checked is that of the first entry, which an override does not change: it can be overridden
  again.\<close>

lemma override_twice:
  assumes "find (\<lambda>e. entry_id e = i \<and> entry_tenant e = t) (action_log db) = Some e"
    and "entry_decision e \<noteq> ''overridden''" and "reason \<noteq> []" and "length reason \<le> 1000"
    and "audit_works (route_base w)" and "audit_works (route_base w')"
  shows "\<exists>x y db1 db2. override_action w t i reason db = (Inr x, db1) \<and> override_action w' t i reason db1 = (Inr y, db2)"
proof -
  let ?db = "db\<lparr>action_log := action_log db @ [override_entry w reason e]\<rparr>"
  obtain q db1 where q: "queue_reversal w t reason e ?db = (q, db1)" by fastforce
  then have log: "action_log db1 = action_log db @ [override_entry w reason e]" by (simp add: queue_reversal_log)
  have "find P (xs @ ys) = Some y" if "find P xs = Some y" for P :: "action_entry \<Rightarrow> bool" and xs ys y
    using that by (induction xs) auto
  then have "find (\<lambda>e. entry_id e = i \<and> entry_tenant e = t) (action_log db1) = Some e" using log assms(1) by simp
  with q assms show ?thesis by (auto simp: override_action_def audit_route_def split: prod.split)
qed

text \<open>The reversal of an isolation is one more order to isolate the agent.\<close>

lemma reversal_isolates:
  assumes "entry_action e = ''isolate_agent''" and "entry_agent e = Some a" and "matches_uuid a"
    and "to_uuid (route_base w) t = Some u" and "json_length (route_base w) [(''unisolate'', VBool True)] \<le> MAX_PARAMS_SIZE"
  shows "\<exists>cmd db1. queue_reversal w t reason e db = (True, db1) \<and> commands db1 = commands db @ [cmd] \<and>
    cmd_type cmd = ''isolate_host''"
proof -
  have "a \<noteq> []" using assms(3) by (auto simp: matches_uuid_def strip_final_newline_def)
  with assms show ?thesis
    by (auto simp: queue_reversal_def queue_command_def no_text_def ACTION_TO_COMMAND_def Let_def)
qed

text \<open>Without a row of its own, a tenant's change of the configuration stores the defaults, whatever it asks for.\<close>

lemma first_config_update_lost:
  assumes "dict_get (configs db) t = None" and "config_body_error b = None"
  shows "dict_get (configs (snd (update_response_config w t b db))) t =
    Some (column_defaults\<lparr>config_updated_at := clock (route_base w)\<rparr>)"
  using assms by (simp add: update_response_config_def audit_route_def Let_def dict_get_set)

end
