(* ===== verification/Audit_Chain.thy ===== *)
theory Audit_Chain
  imports Py_Values
begin

text \<open>
  \<open>backend/app/services/recording/tamper_proof_chain.py\<close>: the chained audit log of a tenant, its
  verification, and legal holds. \<open>json.dumps\<close> and HMAC-SHA256 together are a parameter: the digest of
  the fields of an entry and the hash before it under a key.
\<close>

section \<open>Entries\<close>

datatype chain_action =
  RecordingStarted | RecordingStopped | LevelChanged | EventRecorded | SessionReplayed
| ExportGenerated | LegalHoldSet | LegalHoldReleased | ConfigChanged | ChainVerified

record chain_entry =
  ce_id :: string
  ce_action :: chain_action
  ce_timestamp :: string
  ce_tenant :: string
  ce_actor :: string
  ce_agent :: "string option"
  ce_details :: "(string, pval) dict"
  ce_hash :: string
  ce_previous :: string

text \<open>What is hashed: the fields without the two hashes, and the hash of the predecessor.\<close>

type_synonym hashed_fields =
  "string \<times> chain_action \<times> string \<times> string \<times> string \<times> string option \<times> (string, pval) dict \<times> string"

type_synonym digest = "string \<Rightarrow> hashed_fields \<Rightarrow> string"

definition chain_body :: "chain_entry \<Rightarrow> string \<Rightarrow> hashed_fields" where
  "chain_body e prev =
     (ce_id e, ce_action e, ce_timestamp e, ce_tenant e, ce_actor e, ce_agent e, ce_details e, prev)"

definition compute_hash :: "digest \<Rightarrow> string \<Rightarrow> chain_entry \<Rightarrow> string \<Rightarrow> string" where
  "compute_hash h key e prev = h key (chain_body e prev)"

record legal_hold =
  hold_tenant :: string
  hold_agent :: string
  hold_reason :: string
  held_by :: string
  held_at :: string
  released_at :: "string option"
  released_by :: "string option"

definition hold_active :: "legal_hold \<Rightarrow> bool" where
  "hold_active h \<longleftrightarrow> released_at h = None"

record tamper_chain =
  chain_entries :: "(string, chain_entry list) dict"
  last_hash :: "(string, string) dict"
  tenant_keys :: "(string, string) dict"
  legal_holds :: "(string, legal_hold list) dict"

definition new_chain :: tamper_chain where
  "new_chain = \<lparr>chain_entries = [], last_hash = [], tenant_keys = [], legal_holds = []\<rparr>"

definition MAX_ENTRIES_PER_TENANT :: nat where
  "MAX_ENTRIES_PER_TENANT = 100000"

text \<open>
  What one call takes from outside: the digest, a random key for a tenant without one, a fresh
  identifier for an entry and the time.
\<close>

record chain_env =
  digest_of :: digest
  random_key :: string
  fresh_entry :: string
  iso_now :: string

section \<open>Keys\<close>

definition set_tenant_key :: "string \<Rightarrow> string \<Rightarrow> tamper_chain \<Rightarrow> tamper_chain" where
  "set_tenant_key tenant key c = c\<lparr>tenant_keys := dict_set tenant key (tenant_keys c)\<rparr>"

definition get_key :: "chain_env \<Rightarrow> string \<Rightarrow> tamper_chain \<Rightarrow> string \<times> tamper_chain" where
  "get_key w tenant c =
     (case dict_get (tenant_keys c) tenant of
        Some key \<Rightarrow> (key, c)
      | None \<Rightarrow> (random_key w, set_tenant_key tenant (random_key w) c))"

section \<open>Appending\<close>

definition entries_of :: "string \<Rightarrow> tamper_chain \<Rightarrow> chain_entry list" where
  "entries_of tenant c = dict_get_or (chain_entries c) tenant []"

definition make_entry :: "chain_env \<Rightarrow> string \<Rightarrow> string \<Rightarrow> string \<Rightarrow> chain_action \<Rightarrow> string \<Rightarrow>
    string option \<Rightarrow> (string, pval) dict \<Rightarrow> chain_entry" where
  "make_entry w key prev tenant action actor agent details =
     (let e = \<lparr>ce_id = fresh_entry w, ce_action = action, ce_timestamp = iso_now w, ce_tenant = tenant,
               ce_actor = actor, ce_agent = agent, ce_details = details, ce_hash = [],
               ce_previous = prev\<rparr>
      in e\<lparr>ce_hash := compute_hash (digest_of w) key e prev\<rparr>)"

definition append_entry :: "chain_env \<Rightarrow> string \<Rightarrow> chain_action \<Rightarrow> string \<Rightarrow> string option \<Rightarrow>
    (string, pval) dict \<Rightarrow> tamper_chain \<Rightarrow> chain_entry \<times> tamper_chain" where
  "append_entry w tenant action actor agent details c =
     (let prev = dict_get_or (last_hash c) tenant ''genesis'';
          (key, c1) = get_key w tenant c;
          e = make_entry w key prev tenant action actor agent details;
          es = entries_of tenant c1 @ [e];
          kept = (if MAX_ENTRIES_PER_TENANT < length es
                  then slice_from_end (int MAX_ENTRIES_PER_TENANT) es else es)
      in (e, c1\<lparr>chain_entries := dict_set tenant kept (chain_entries c1),
               last_hash := dict_set tenant (ce_hash e) (last_hash c1)\<rparr>))"

section \<open>Verification\<close>

text \<open>The index of the first entry whose hash is not the one computed from its fields and predecessor.\<close>

fun first_broken :: "digest \<Rightarrow> string \<Rightarrow> string \<Rightarrow> chain_entry list \<Rightarrow> nat option" where
  "first_broken h key prev [] = None"
| "first_broken h key prev (e # es) =
     (if ce_hash e \<noteq> compute_hash h key e prev then Some 0
      else map_option Suc (first_broken h key (ce_hash e) es))"

record verification =
  ver_valid :: bool
  ver_checked :: nat
  ver_broken_at :: "nat option"
  ver_entry :: "string option"

definition verify_chain :: "chain_env \<Rightarrow> string \<Rightarrow> tamper_chain \<Rightarrow> verification \<times> tamper_chain" where
  "verify_chain w tenant c =
     (let es = entries_of tenant c
      in if es = [] then (\<lparr>ver_valid = True, ver_checked = 0, ver_broken_at = None, ver_entry = None\<rparr>, c)
         else case get_key w tenant c of
           (key, c1) \<Rightarrow>
             (case first_broken (digest_of w) key ''genesis'' es of
                None \<Rightarrow> (\<lparr>ver_valid = True, ver_checked = length es, ver_broken_at = None,
                          ver_entry = None\<rparr>, c1)
              | Some i \<Rightarrow> (\<lparr>ver_valid = False, ver_checked = i + 1, ver_broken_at = Some i,
                          ver_entry = Some (ce_id (es ! i))\<rparr>, c1)))"

section \<open>Queries\<close>

definition get_entries :: "string \<Rightarrow> chain_action option \<Rightarrow> string option \<Rightarrow> string option \<Rightarrow> int \<Rightarrow>
    tamper_chain \<Rightarrow> chain_entry list" where
  "get_entries tenant action agent since limit c =
     slice_from_end limit
       (filter (\<lambda>e. (case action of None \<Rightarrow> True | Some a \<Rightarrow> ce_action e = a) \<and>
                  (case agent of None \<Rightarrow> True | Some g \<Rightarrow> ce_agent e = Some g) \<and>
                  (case since of None \<Rightarrow> True | Some t \<Rightarrow> \<not> str_lt (ce_timestamp e) t))
         (entries_of tenant c))"

definition chain_length :: "string \<Rightarrow> tamper_chain \<Rightarrow> nat" where
  "chain_length tenant c = length (entries_of tenant c)"

section \<open>Legal holds\<close>

definition holds_of :: "string \<Rightarrow> tamper_chain \<Rightarrow> legal_hold list" where
  "holds_of tenant c = dict_get_or (legal_holds c) tenant []"

definition set_legal_hold :: "chain_env \<Rightarrow> string \<Rightarrow> string \<Rightarrow> string \<Rightarrow> string \<Rightarrow> tamper_chain \<Rightarrow>
    legal_hold \<times> tamper_chain" where
  "set_legal_hold w tenant agent reason user c =
     (let h = \<lparr>hold_tenant = tenant, hold_agent = agent, hold_reason = reason, held_by = user,
               held_at = iso_now w, released_at = None, released_by = None\<rparr>;
          c1 = c\<lparr>legal_holds := dict_set tenant (holds_of tenant c @ [h]) (legal_holds c)\<rparr>
      in (h, snd (append_entry w tenant LegalHoldSet user (Some agent) [(''reason'', VStr reason)] c1)))"

text \<open>The first active hold of the agent, released, and the holds with it in its place.\<close>

fun release_first :: "string \<Rightarrow> string \<Rightarrow> string \<Rightarrow> legal_hold list \<Rightarrow> (legal_hold \<times> legal_hold list) option" where
  "release_first now agent user [] = None"
| "release_first now agent user (h # hs) =
     (if hold_agent h = agent \<and> hold_active h then
        (let h' = h\<lparr>released_at := Some now, released_by := Some user\<rparr> in Some (h', h' # hs))
      else map_option (\<lambda>(r, hs'). (r, h # hs')) (release_first now agent user hs))"

definition release_legal_hold :: "chain_env \<Rightarrow> string \<Rightarrow> string \<Rightarrow> string \<Rightarrow> tamper_chain \<Rightarrow>
    legal_hold option \<times> tamper_chain" where
  "release_legal_hold w tenant agent user c =
     (case release_first (iso_now w) agent user (holds_of tenant c) of
        None \<Rightarrow> (None, c)
      | Some (h, hs) \<Rightarrow>
          (Some h, snd (append_entry w tenant LegalHoldReleased user (Some agent) []
                     (c\<lparr>legal_holds := dict_set tenant hs (legal_holds c)\<rparr>))))"

definition get_legal_holds :: "string \<Rightarrow> bool \<Rightarrow> tamper_chain \<Rightarrow> legal_hold list" where
  "get_legal_holds tenant active_only c =
     (if active_only then filter hold_active (holds_of tenant c) else holds_of tenant c)"

definition is_held :: "string \<Rightarrow> string \<Rightarrow> tamper_chain \<Rightarrow> bool" where
  "is_held tenant agent c = list_ex (\<lambda>h. hold_agent h = agent \<and> hold_active h) (holds_of tenant c)"

definition chain_stats :: "string \<Rightarrow> tamper_chain \<Rightarrow> nat \<times> nat \<times> nat \<times> string option" where
  "chain_stats tenant c =
     (let es = entries_of tenant c; hs = holds_of tenant c
      in (length es, length (filter hold_active hs), length hs,
          if es = [] then None else Some (ce_timestamp (last es))))"

end
