(* ===== verification/Recording.thy ===== *)
theory Recording
  imports Audit_Chain
begin

text \<open>
  \<open>backend/app/services/recording\<close>: the session recorder with its three tiers (\<open>session_recorder.py\<close>),
  the replay of recorded sessions (\<open>dvr_replay.py\<close>) and the compliance exports (\<open>compliance_export.py\<close>),
  which read the chained audit log and append to it. SHA-256, the clock and fresh identifiers are
  arguments; the texts of the replay summaries, which need characters outside the model's range, are kept
  as their parts.
\<close>

section \<open>Recorder\<close>

datatype recording_level = AUDIT | EXTENDED | FULL_DVR

fun level_number :: "recording_level \<Rightarrow> nat" where
  "level_number AUDIT = 1"
| "level_number EXTENDED = 2"
| "level_number FULL_DVR = 3"

record recording_config =
  config_tenant :: string
  config_agent :: "string option"
  config_level :: recording_level
  config_enabled :: bool

record audit_fields =
  au_timestamp :: string
  au_agent :: string
  au_event_type :: string
  au_tool :: "string option"
  au_result :: string
  au_classification :: string
  au_trust :: py_num
  au_rule :: "string option"
  au_bytes :: int

type_synonym json_payload = "(string, pval) dict"

record extended_fields =
  ex_parameters :: "json_payload option"
  ex_request :: "string option"
  ex_response :: "string option"
  ex_prompt_hash :: "string option"
  ex_metadata :: "json_payload option"
  ex_env_hashes :: "(string, string) dict option"

record dvr_fields =
  dv_prompt :: "string option"
  dv_response :: "string option"
  dv_rag :: "json_payload list option"
  dv_system_prompt :: "string option"
  dv_environment :: "json_payload option"
  dv_timing :: "int option"

record recording_event =
  rec_id :: string
  rec_level :: recording_level
  rec_tenant :: string
  rec_audit :: "audit_fields option"
  rec_extended :: "extended_fields option"
  rec_dvr :: "dvr_fields option"

record recorder =
  rec_configs :: "(string, recording_config) dict"
  rec_events :: "recording_event list"

definition new_recorder :: recorder where
  "new_recorder = \<lparr>rec_configs = [], rec_events = []\<rparr>"

definition MAX_EVENTS :: nat where
  "MAX_EVENTS = 200000"

record rec_env =
  rec_now :: string
  rec_uuid :: string
  sha256 :: "string \<Rightarrow> string"

subsection \<open>Configuration\<close>

definition config_key :: "string \<Rightarrow> string option \<Rightarrow> string" where
  "config_key tenant agent =
     (case agent of None \<Rightarrow> tenant | Some a \<Rightarrow> if a = [] then tenant else colon_join tenant a)"

definition set_config :: "string \<Rightarrow> string option \<Rightarrow> recording_level \<Rightarrow> bool \<Rightarrow> recorder \<Rightarrow>
    recording_config \<times> recorder" where
  "set_config tenant agent level enabled r =
     (let c = \<lparr>config_tenant = tenant, config_agent = agent, config_level = level, config_enabled = enabled\<rparr>
      in (c, r\<lparr>rec_configs := dict_set (config_key tenant agent) c (rec_configs r)\<rparr>))"

definition tenant_config :: "string \<Rightarrow> recorder \<Rightarrow> recording_config" where
  "tenant_config tenant r = dict_get_or (rec_configs r) tenant
     \<lparr>config_tenant = tenant, config_agent = None, config_level = AUDIT, config_enabled = True\<rparr>"

definition get_config :: "string \<Rightarrow> string option \<Rightarrow> recorder \<Rightarrow> recording_config" where
  "get_config tenant agent r =
     (case agent of
        None \<Rightarrow> tenant_config tenant r
      | Some a \<Rightarrow>
          if a = [] then tenant_config tenant r
          else (case dict_get (rec_configs r) (colon_join tenant a) of
              Some c \<Rightarrow> c | None \<Rightarrow> tenant_config tenant r))"

definition get_configs :: "string \<Rightarrow> recorder \<Rightarrow> recording_config list" where
  "get_configs tenant r = filter (\<lambda>c. config_tenant c = tenant) (dict_values (rec_configs r))"

subsection \<open>Recording\<close>

text \<open>The arguments of a call, by the level they belong to.\<close>

record audit_args =
  a_agent :: string
  a_event_type :: string
  a_tool :: "string option"
  a_result :: string
  a_classification :: string
  a_trust :: py_num
  a_rule :: "string option"
  a_bytes :: int

record extended_args =
  x_parameters :: "json_payload option"
  x_request :: "string option"
  x_response :: "string option"
  x_prompt :: "string option"
  x_metadata :: "json_payload option"
  x_env_keys :: "(string, string) dict option"

definition audit_of :: "rec_env \<Rightarrow> audit_args \<Rightarrow> audit_fields" where
  "audit_of w a =
     \<lparr>au_timestamp = rec_now w, au_agent = a_agent a, au_event_type = a_event_type a, au_tool = a_tool a,
      au_result = a_result a, au_classification = a_classification a, au_trust = a_trust a,
      au_rule = a_rule a, au_bytes = a_bytes a\<rparr>"

definition extended_of :: "rec_env \<Rightarrow> extended_args \<Rightarrow> extended_fields" where
  "extended_of w x =
     \<lparr>ex_parameters = x_parameters x, ex_request = x_request x, ex_response = x_response x,
      ex_prompt_hash = (case x_prompt x of None \<Rightarrow> None | Some p \<Rightarrow> if p = [] then None else Some (sha256 w p)),
      ex_metadata = x_metadata x,
      ex_env_hashes = (case x_env_keys x of None \<Rightarrow> None
                       | Some d \<Rightarrow> if d = [] then None else Some (map (\<lambda>(k, v). (k, sha256 w v)) d))\<rparr>"

definition push_event :: "recorder \<Rightarrow> recording_event \<Rightarrow> recorder" where
  "push_event r e =
     (let es = rec_events r @ [e]
      in r\<lparr>rec_events := (if MAX_EVENTS < length es then slice_from_end (int MAX_EVENTS) es else es)\<rparr>)"

definition record_action :: "rec_env \<Rightarrow> string \<Rightarrow> audit_args \<Rightarrow> extended_args \<Rightarrow> dvr_fields \<Rightarrow> recorder \<Rightarrow>
    recording_event \<times> recorder" where
  "record_action w tenant a x d r =
     (let c = get_config tenant (Some (a_agent a)) r
      in if \<not> config_enabled c then
           (\<lparr>rec_id = rec_uuid w, rec_level = AUDIT, rec_tenant = tenant, rec_audit = None,
             rec_extended = None, rec_dvr = None\<rparr>, r)
         else
           (let level = config_level c;
                e = \<lparr>rec_id = rec_uuid w, rec_level = level, rec_tenant = tenant,
                     rec_audit = Some (audit_of w a),
                     rec_extended = (if 2 \<le> level_number level then Some (extended_of w x) else None),
                     rec_dvr = (if 3 \<le> level_number level then Some d else None)\<rparr>
            in (e, push_event r e)))"

subsection \<open>Queries\<close>

definition of_agent :: "string \<Rightarrow> recording_event \<Rightarrow> bool" where
  "of_agent agent e = (case rec_audit e of None \<Rightarrow> False | Some a \<Rightarrow> au_agent a = agent)"

definition of_type :: "string \<Rightarrow> recording_event \<Rightarrow> bool" where
  "of_type t e = (case rec_audit e of None \<Rightarrow> False | Some a \<Rightarrow> au_event_type a = t)"

definition when_given :: "string option \<Rightarrow> (string \<Rightarrow> 'a \<Rightarrow> bool) \<Rightarrow> 'a list \<Rightarrow> 'a list" where
  "when_given x P xs = (case x of None \<Rightarrow> xs | Some v \<Rightarrow> if v = [] then xs else filter (P v) xs)"

definition get_events :: "string \<Rightarrow> string option \<Rightarrow> string option \<Rightarrow> int \<Rightarrow> recorder \<Rightarrow> recording_event list" where
  "get_events tenant agent event_type limit r =
     slice_from_end limit
       (when_given event_type of_type
         (when_given agent of_agent (filter (\<lambda>e. rec_tenant e = tenant) (rec_events r))))"

definition recorder_stats :: "string \<Rightarrow> recorder \<Rightarrow> nat \<times> (recording_level \<Rightarrow> nat) \<times> nat" where
  "recorder_stats tenant r =
     (let es = filter (\<lambda>e. rec_tenant e = tenant) (rec_events r)
      in (length es, (\<lambda>l. length (filter (\<lambda>e. rec_level e = l) es)), length (get_configs tenant r)))"

section \<open>Replay\<close>

datatype step_type = StepInput | StepDecision | StepAction | StepResult | StepBlocked

text \<open>The words a summary shows, in the order of its text.\<close>

datatype step_summary =
  BlockedBy "string option" string "string option"
| Decision "string option"
| Received string
| Happened string "string option" string "string option"

record replay_step =
  st_index :: nat
  st_type :: step_type
  st_timestamp :: string
  st_agent :: string
  st_summary :: step_summary
  st_details :: "(string, pval) dict"
  st_rule :: "string option"
  st_trust :: "py_num option"
  st_duration :: "int option"

record replay_session =
  rs_id :: string
  rs_tenant :: string
  rs_agent :: string
  rs_created :: string
  rs_steps :: "replay_step list"

definition duration_total_us :: "replay_session \<Rightarrow> int" where
  "duration_total_us s = sum_list (map (\<lambda>x. case st_duration x of None \<Rightarrow> 0 | Some d \<Rightarrow> d) (rs_steps s))"

definition blocked_count :: "replay_session \<Rightarrow> nat" where
  "blocked_count s = length (filter (\<lambda>x. st_type x = StepBlocked) (rs_steps s))"

definition classify_step :: "string \<Rightarrow> string \<Rightarrow> step_type" where
  "classify_step event_type result =
     (if result = ''blocked'' then StepBlocked
      else dict_get_or
        [(''llm_invoke'', StepDecision), (''llm_response'', StepResult), (''tool_call'', StepAction),
         (''api_request'', StepAction), (''api_response'', StepResult), (''agent_input'', StepInput),
         (''user_message'', StepInput)] event_type StepAction)"

text \<open>\<open>tool or 'N/A'\<close>: an empty name counts as none.\<close>

definition shown_text :: "string option \<Rightarrow> string option" where
  "shown_text x = (if x = Some [] then None else x)"

definition build_summary :: "string \<Rightarrow> audit_fields \<Rightarrow> step_type \<Rightarrow> step_summary" where
  "build_summary event_type a t =
     (if t = StepBlocked then BlockedBy (au_rule a) event_type (shown_text (au_tool a))
      else if t = StepDecision then Decision (shown_text (au_tool a))
      else if t = StepInput then Received event_type
      else Happened event_type (shown_text (au_tool a)) (au_result a)
        (if au_classification a \<noteq> ''clean'' then Some (au_classification a) else None))"

text \<open>A detail that is shown when its value is given and not empty.\<close>

definition detail :: "string \<Rightarrow> pval \<Rightarrow> (string, pval) dict" where
  "detail k v = (if truthy v then [(k, v)] else [])"

fun opt_payload :: "json_payload option \<Rightarrow> pval" where
  "opt_payload None = VNone"
| "opt_payload (Some d) = VDict d"

definition audit_details :: "audit_fields \<Rightarrow> (string, pval) dict" where
  "audit_details a =
     detail ''tool_name'' (text_value (au_tool a)) @
     detail ''data_classification'' (VStr (au_classification a)) @
     detail ''bytes_transferred'' (VNum (NInt (au_bytes a)))"

definition extended_details :: "extended_fields option \<Rightarrow> (string, pval) dict" where
  "extended_details x =
     (case x of
        None \<Rightarrow> []
      | Some x \<Rightarrow>
          detail ''tool_parameters'' (opt_payload (ex_parameters x)) @
          detail ''api_request'' (text_value (ex_request x)) @
          detail ''api_response'' (text_value (ex_response x)) @
          detail ''llm_prompt_hash'' (text_value (ex_prompt_hash x)))"

definition dvr_details :: "dvr_fields option \<Rightarrow> (string, pval) dict" where
  "dvr_details d =
     (case d of
        None \<Rightarrow> []
      | Some d \<Rightarrow>
          detail ''llm_prompt'' (text_value (dv_prompt d)) @
          detail ''llm_response'' (text_value (dv_response d)) @
          detail ''rag_results'' (case dv_rag d of None \<Rightarrow> VNone | Some xs \<Rightarrow> VList (map VDict xs)) @
          detail ''environment'' (opt_payload (dv_environment d)))"

text \<open>
  The step of the event at an index. Stored events always have audit fields; without them the step gets
  the defaults of the code.
\<close>

definition no_audit :: "string \<Rightarrow> string \<Rightarrow> audit_fields" where
  "no_audit now agent =
     \<lparr>au_timestamp = now, au_agent = agent, au_event_type = ''unknown'', au_tool = None,
      au_result = ''success'', au_classification = ''clean'', au_trust = NInt 0, au_rule = Some ''unknown rule'',
      au_bytes = 0\<rparr>"

definition replay_step_of :: "string \<Rightarrow> string \<Rightarrow> nat \<times> recording_event \<Rightarrow> replay_step" where
  "replay_step_of now agent ie =
     (let e = snd ie;
          a = (case rec_audit e of Some a \<Rightarrow> a | None \<Rightarrow> no_audit now agent);
          t = classify_step (au_event_type a) (au_result a)
      in \<lparr>st_index = fst ie, st_type = t, st_timestamp = au_timestamp a, st_agent = au_agent a,
          st_summary = build_summary (au_event_type a) a t,
          st_details = (if rec_audit e = None then [] else audit_details a) @
                       extended_details (rec_extended e) @ dvr_details (rec_dvr e),
          st_rule = (case rec_audit e of Some a \<Rightarrow> au_rule a | None \<Rightarrow> None),
          st_trust = map_option au_trust (rec_audit e),
          st_duration = (case rec_dvr e of None \<Rightarrow> None | Some d \<Rightarrow> dv_timing d)\<rparr>)"

type_synonym replays = "(string, replay_session) dict"

definition MAX_SESSIONS :: nat where
  "MAX_SESSIONS = 10000"

definition build_replay :: "string \<Rightarrow> string \<Rightarrow> string \<Rightarrow> string \<Rightarrow> recording_event list \<Rightarrow> replays \<Rightarrow>
    replay_session \<times> replays" where
  "build_replay now i tenant agent es rs =
     (let s = \<lparr>rs_id = i, rs_tenant = tenant, rs_agent = agent, rs_created = now,
               rs_steps = map (replay_step_of now agent) (enumerate 0 es)\<rparr>;
          rs1 = dict_set i s rs
      in (s, drop (length rs1 - MAX_SESSIONS) rs1))"

definition get_session :: "string \<Rightarrow> string \<Rightarrow> replays \<Rightarrow> replay_session option" where
  "get_session i tenant rs =
     (case dict_get rs i of
        None \<Rightarrow> None | Some s \<Rightarrow> if rs_tenant s = tenant then Some s else None)"

definition list_replays :: "string \<Rightarrow> int \<Rightarrow> replays \<Rightarrow> (string \<times> string \<times> string \<times> nat \<times> nat) list" where
  "list_replays tenant limit rs =
     slice_from_end limit
       (map (\<lambda>s. (rs_id s, rs_agent s, rs_created s, length (rs_steps s), blocked_count s))
         (filter (\<lambda>s. rs_tenant s = tenant) (dict_values rs)))"

definition compare_sessions :: "string \<Rightarrow> string \<Rightarrow> string \<Rightarrow> replays \<Rightarrow> (int \<times> int \<times> int) option" where
  "compare_sessions i j tenant rs =
     (case (get_session i tenant rs, get_session j tenant rs) of
        (Some a, Some b) \<Rightarrow>
          Some (int (length (rs_steps b)) - int (length (rs_steps a)),
                int (blocked_count b) - int (blocked_count a),
                duration_total_us b - duration_total_us a)
      | _ \<Rightarrow> None)"

section \<open>Exports\<close>

datatype compliance_framework = ISO_27001 | SOC2 | HIPAA | FEDRAMP

fun framework_value :: "compliance_framework \<Rightarrow> string" where
  "framework_value ISO_27001 = ''iso_27001''"
| "framework_value SOC2 = ''soc2''"
| "framework_value HIPAA = ''hipaa''"
| "framework_value FEDRAMP = ''fedramp''"

fun framework_actions :: "compliance_framework \<Rightarrow> chain_action list option" where
  "framework_actions HIPAA = Some [EventRecorded, LegalHoldSet, LegalHoldReleased, ExportGenerated]"
| "framework_actions _ = None"

record export_package =
  ep_id :: string
  ep_tenant :: string
  ep_framework :: compliance_framework
  ep_generated :: string
  ep_by :: string
  ep_start :: "string option"
  ep_end :: "string option"
  ep_verification :: verification
  ep_configs :: "recording_config list"
  ep_holds :: "legal_hold list"
  ep_entries :: "chain_entry list"
  ep_chain_length :: nat

record export_state =
  ex_chain :: tamper_chain
  ex_recorder :: recorder
  ex_packages :: "export_package list"

definition MAX_EXPORTS :: nat where
  "MAX_EXPORTS = 5000"

definition EXPORT_LIMIT :: int where
  "EXPORT_LIMIT = 5000"

definition export_entries :: "string \<Rightarrow> compliance_framework \<Rightarrow> string option \<Rightarrow> string option \<Rightarrow>
    tamper_chain \<Rightarrow> chain_entry list" where
  "export_entries tenant fw start finish c =
     (let es = get_entries tenant None None start EXPORT_LIMIT c;
          es1 = (case finish of
                   None \<Rightarrow> es
                 | Some t \<Rightarrow> if t = [] then es
                            else filter (\<lambda>e. ce_timestamp e = t \<or> str_lt (ce_timestamp e) t) es)
      in case framework_actions fw of None \<Rightarrow> es1 | Some as \<Rightarrow> filter (\<lambda>e. ce_action e \<in> set as) es1)"

definition generate_export :: "chain_env \<Rightarrow> string \<Rightarrow> string \<Rightarrow> compliance_framework \<Rightarrow> string \<Rightarrow>
    string option \<Rightarrow> string option \<Rightarrow> export_state \<Rightarrow> export_package \<times> export_state" where
  "generate_export w i tenant fw user start finish st =
     (let (ver, c1) = verify_chain w tenant (ex_chain st);
          entries = export_entries tenant fw start finish c1;
          details = [(''framework'', VStr (framework_value fw)), (''period_start'', text_value start),
                     (''period_end'', text_value finish), (''entries_exported'', VNum (NInt (int (length entries))))];
          c2 = snd (append_entry w tenant ExportGenerated user None details c1);
          p = \<lparr>ep_id = i, ep_tenant = tenant, ep_framework = fw, ep_generated = iso_now w, ep_by = user,
               ep_start = start, ep_end = finish, ep_verification = ver,
               ep_configs = get_configs tenant (ex_recorder st), ep_holds = get_legal_holds tenant False c1,
               ep_entries = entries, ep_chain_length = chain_length tenant c1\<rparr>;
          ps = ex_packages st @ [p]
      in (p, st\<lparr>ex_chain := c2,
               ex_packages := (if MAX_EXPORTS < length ps then slice_from_end (int MAX_EXPORTS) ps else ps)\<rparr>))"

definition list_exports :: "string \<Rightarrow> int \<Rightarrow> export_state \<Rightarrow> export_package list" where
  "list_exports tenant limit st = slice_from_end limit (filter (\<lambda>p. ep_tenant p = tenant) (ex_packages st))"

end
