(* ===== verification/Audit_Chain_Props.thy ===== *)
theory Audit_Chain_Props
  imports Audit_Chain
begin

text \<open>
  What the chained audit log guarantees: an untouched chain verifies while nothing was evicted, and a
  forged chain with the same last hash is a collision of the digest; and what it does not: evicted
  chains are reported as broken, shortened ones are not.
\<close>

section \<open>Verified lists of entries\<close>

abbreviation verifies :: "digest \<Rightarrow> string \<Rightarrow> string \<Rightarrow> chain_entry list \<Rightarrow> bool" where
  "verifies h key prev es \<equiv> first_broken h key prev es = None"

definition chain_end :: "string \<Rightarrow> chain_entry list \<Rightarrow> string" where
  "chain_end prev es = (if es = [] then prev else ce_hash (last es))"

lemma chain_end_simps [simp]:
  "chain_end prev [] = prev" "chain_end prev (e # es) = chain_end (ce_hash e) es"
  by (simp_all add: chain_end_def)

lemma verifies_Cons:
  "verifies h key prev (e # es) \<longleftrightarrow> ce_hash e = compute_hash h key e prev \<and> verifies h key (ce_hash e) es"
  by auto

lemma verifies_append:
  "verifies h key prev (es @ fs) \<longleftrightarrow> verifies h key prev es \<and> verifies h key (chain_end prev es) fs"
  by (induction es arbitrary: prev) (auto simp del: first_broken.simps(2) simp: verifies_Cons)

text \<open>An entry up to the predecessor it stores, which verification does not read: every other field of the record
  counts. Then the inputs of the digest when a list is verified.\<close>

definition recorded :: "chain_entry \<Rightarrow> chain_entry" where
  "recorded e = e\<lparr>ce_previous := []\<rparr>"

lemma recorded_eq_iff:
  "recorded e = recorded f \<longleftrightarrow>
     ce_id e = ce_id f \<and> ce_action e = ce_action f \<and> ce_timestamp e = ce_timestamp f \<and> ce_tenant e = ce_tenant f \<and>
     ce_actor e = ce_actor f \<and> ce_agent e = ce_agent f \<and> ce_details e = ce_details f \<and> ce_hash e = ce_hash f"
  by (cases e; cases f) (simp add: recorded_def)

fun hashed :: "string \<Rightarrow> chain_entry list \<Rightarrow> hashed_fields list" where
  "hashed prev [] = []"
| "hashed prev (e # es) = chain_body e prev # hashed (ce_hash e) es"

lemma hashed_append: "hashed prev (es @ fs) = hashed prev es @ hashed (chain_end prev es) fs"
  by (induction es arbitrary: prev) auto

text \<open>Two different inputs among those hashed with the same digest, or one with the digest genesis.\<close>

definition collision :: "digest \<Rightarrow> string \<Rightarrow> hashed_fields list \<Rightarrow> bool" where
  "collision h key xs \<longleftrightarrow>
     (\<exists>x \<in> set xs. \<exists>y \<in> set xs. x \<noteq> y \<and> h key x = h key y) \<or> (\<exists>x \<in> set xs. h key x = ''genesis'')"

lemma collisionI: "x \<in> set xs \<Longrightarrow> y \<in> set xs \<Longrightarrow> h key x = h key y \<Longrightarrow> x \<noteq> y \<Longrightarrow> collision h key xs"
  unfolding collision_def by blast

lemma collision_genesis: "x \<in> set xs \<Longrightarrow> h key x = ''genesis'' \<Longrightarrow> collision h key xs"
  unfolding collision_def by blast

lemma collision_mono: "collision h key xs \<Longrightarrow> set xs \<subseteq> set ys \<Longrightarrow> collision h key ys"
  unfolding collision_def by blast

lemma chain_body_eq: "chain_body e p = chain_body f q \<and> ce_hash e = ce_hash f \<longleftrightarrow> recorded e = recorded f \<and> p = q"
  by (auto simp: chain_body_def recorded_eq_iff)

lemma verifies_snoc:
  "verifies h key prev (es @ [e]) \<longleftrightarrow>
   verifies h key prev es \<and> ce_hash e = h key (chain_body e (chain_end prev es))"
  by (simp add: verifies_append compute_hash_def)

lemma chain_end_snoc [simp]: "chain_end prev (es @ [e]) = ce_hash e"
  by (simp add: chain_end_def)

text \<open>
  C13: Two chains that verify under the same key and end in the same hash hold the same entries in the same order:
  identifier, action, time, tenant, actor, agent, details and hash of each agree, and only the predecessors stored in
  the entries, which are not verified, may differ. Otherwise verifying the two itself exhibits two different inputs
  with the same digest (or one whose digest is the word genesis): a collision of HMAC-SHA256, or two details that
  \<open>json.dumps\<close> writes alike, as it does when only the order of their keys differs.
\<close>

theorem forgery_needs_collision:
  assumes "verifies h key ''genesis'' es" and "verifies h key ''genesis'' fs"
    and "chain_end ''genesis'' es = chain_end ''genesis'' fs"
  shows "map recorded es = map recorded fs \<or>
    collision h key (hashed ''genesis'' es @ hashed ''genesis'' fs)"
  using assms
proof (induction es arbitrary: fs rule: rev_induct)
  case Nil
  show ?case
  proof (cases fs rule: rev_cases)
    case (snoc gs f)
    with Nil have "h key (chain_body f (chain_end ''genesis'' gs)) = ''genesis''"
      by (simp add: verifies_snoc)
    with snoc show ?thesis by (auto simp: hashed_append intro: collision_genesis)
  qed simp
next
  case (snoc e es)
  show ?case
  proof (cases fs rule: rev_cases)
    case Nil
    with snoc.prems have "h key (chain_body e (chain_end ''genesis'' es)) = ''genesis''"
      by (simp add: verifies_snoc)
    then show ?thesis by (auto simp: hashed_append intro: collision_genesis)
  next
    case last: (snoc gs f)
    let ?x = "chain_body e (chain_end ''genesis'' es)" and ?y = "chain_body f (chain_end ''genesis'' gs)"
    have eq: "h key ?x = h key ?y" using snoc.prems last by (simp add: verifies_snoc)
    show ?thesis
    proof (cases "?x = ?y")
      case True
      then have "recorded e = recorded f" "chain_end ''genesis'' es = chain_end ''genesis'' gs"
        using chain_body_eq [of e _ f] snoc.prems(3) last by simp_all
      moreover have "verifies h key ''genesis'' es" "verifies h key ''genesis'' gs"
        using snoc.prems last by (simp_all add: verifies_snoc)
      ultimately have "map recorded es = map recorded gs \<or>
          collision h key (hashed ''genesis'' es @ hashed ''genesis'' gs)"
        using snoc.IH by blast
      then show ?thesis
      proof
        assume "map recorded es = map recorded gs"
        with last \<open>recorded e = recorded f\<close> show ?thesis by simp
      next
        assume "collision h key (hashed ''genesis'' es @ hashed ''genesis'' gs)"
        moreover have "set (hashed ''genesis'' es @ hashed ''genesis'' gs) \<subseteq>
          set (hashed ''genesis'' (es @ [e]) @ hashed ''genesis'' fs)"
          by (auto simp: hashed_append last)
        ultimately have "collision h key (hashed ''genesis'' (es @ [e]) @ hashed ''genesis'' fs)"
          by (rule collision_mono)
        then show ?thesis ..
      qed
    next
      case False
      with eq last show ?thesis
        by (intro disjI2 collisionI [of ?x _ ?y]) (simp_all add: hashed_append)
    qed
  qed
qed

definition demo_digest :: digest where
  "demo_digest key b = key @ fst b"

definition demo_chain_env :: "string \<Rightarrow> chain_env" where
  "demo_chain_env i = \<lparr>digest_of = demo_digest, random_key = ''k'', fresh_entry = i, iso_now = ''now''\<rparr>"

definition demo_entries :: "chain_entry list" where
  "demo_entries =
     [make_entry (demo_chain_env ''1'') ''k'' ''genesis'' ''t'' EventRecorded ''u'' None [],
      make_entry (demo_chain_env ''2'') ''k'' ''k1'' ''t'' EventRecorded ''u'' None []]"

lemma demo_entries_verify: "verifies demo_digest ''k'' ''genesis'' demo_entries"
  by (simp add: demo_entries_def make_entry_def demo_chain_env_def demo_digest_def compute_hash_def
      chain_body_def Let_def)

definition other_entries :: "chain_entry list" where
  "other_entries =
     [make_entry (demo_chain_env ''1'') ''k'' ''genesis'' ''t'' EventRecorded ''u'' None [],
      make_entry (demo_chain_env ''2'') ''k'' ''k1'' ''t'' EventRecorded ''mallory'' None []]"

lemma other_entries_verify: "verifies demo_digest ''k'' ''genesis'' other_entries"
  by (simp add: other_entries_def make_entry_def demo_chain_env_def demo_digest_def compute_hash_def
      chain_body_def Let_def)

text \<open>A digest that reads the identifier only cannot tell the actor of the second entry: the collision is found.\<close>

lemma forgery_needs_collision_witness:
  "length demo_entries = 2 \<and> map recorded demo_entries \<noteq> map recorded other_entries \<and>
   collision demo_digest ''k'' (hashed ''genesis'' demo_entries @ hashed ''genesis'' other_entries)"
proof -
  have "chain_end ''genesis'' demo_entries = chain_end ''genesis'' other_entries"
    and differ: "map recorded demo_entries \<noteq> map recorded other_entries"
    by (simp_all add: demo_entries_def other_entries_def recorded_def make_entry_def demo_chain_env_def demo_digest_def
        compute_hash_def chain_body_def Let_def)
  then show ?thesis
    using forgery_needs_collision [OF demo_entries_verify other_entries_verify] by (simp add: demo_entries_def)
qed

text \<open>
  A chain from which the last entries are cut off still verifies, although the hash of the
  removed last entry is kept in the state: verification never compares the two.
\<close>

theorem truncation_unnoticed:
  assumes "fst (verify_chain w t c) = v" and "ver_valid v"
    and "dict_get (tenant_keys c) t = Some key"
  shows "ver_valid (fst (verify_chain w t
    (c\<lparr>chain_entries := dict_set t (take n (entries_of t c)) (chain_entries c)\<rparr>)))"
proof -
  have "verifies (digest_of w) key ''genesis'' (take n (entries_of t c) @ drop n (entries_of t c))"
    using assms by (auto simp: verify_chain_def get_key_def Let_def split: if_splits option.splits)
  then have "verifies (digest_of w) key ''genesis'' (take n (entries_of t c))"
    using verifies_append by blast
  with assms(3) show ?thesis
    by (simp add: verify_chain_def entries_of_def get_key_def Let_def)
qed

definition demo_chain :: tamper_chain where
  "demo_chain = new_chain\<lparr>chain_entries := [(''t'', demo_entries)], last_hash := [(''t'', ''k2'')],
     tenant_keys := [(''t'', ''k'')]\<rparr>"

lemma truncation_unnoticed_witness:
  "ver_valid (fst (verify_chain (demo_chain_env ''3'') ''t'' (demo_chain\<lparr>chain_entries :=
     dict_set ''t'' (take 1 (entries_of ''t'' demo_chain)) (chain_entries demo_chain)\<rparr>)))"
proof -
  have e: "entries_of ''t'' demo_chain = demo_entries" "demo_entries \<noteq> []"
    by (simp_all add: entries_of_def demo_chain_def dict_get_or_def demo_entries_def)
  have k: "dict_get (tenant_keys demo_chain) ''t'' = Some ''k''" by (simp add: demo_chain_def)
  have "ver_valid (fst (verify_chain (demo_chain_env ''3'') ''t'' demo_chain))"
    using e k demo_entries_verify by (simp add: verify_chain_def get_key_def demo_chain_env_def)
  from truncation_unnoticed [OF refl this k] show ?thesis .
qed

section \<open>Histories\<close>

datatype chain_op =
  Append chain_env string chain_action string "string option" "(string, pval) dict"
| SetHold chain_env string string string string
| ReleaseHold chain_env string string string
| Verify chain_env string

fun chain_step :: "tamper_chain \<Rightarrow> chain_op \<Rightarrow> tamper_chain" where
  "chain_step c (Append w t act actor agent details) = snd (append_entry w t act actor agent details c)"
| "chain_step c (SetHold w t agent reason user) = snd (set_legal_hold w t agent reason user c)"
| "chain_step c (ReleaseHold w t agent user) = snd (release_legal_hold w t agent user c)"
| "chain_step c (Verify w t) = snd (verify_chain w t c)"

fun op_env :: "chain_op \<Rightarrow> chain_env" where
  "op_env (Append w _ _ _ _ _) = w"
| "op_env (SetHold w _ _ _ _) = w"
| "op_env (ReleaseHold w _ _ _) = w"
| "op_env (Verify w _) = w"

text \<open>
  All entries a tenant ever got, of which the last hundred thousand are kept: they verify under the
  tenant's key, and their end is the recorded last hash.
\<close>

definition chain_history :: "digest \<Rightarrow> string \<Rightarrow> chain_entry list \<Rightarrow> tamper_chain \<Rightarrow> bool" where
  "chain_history h t all c \<longleftrightarrow>
     entries_of t c = take_last MAX_ENTRIES_PER_TENANT all \<and>
     dict_get_or (last_hash c) t ''genesis'' = chain_end ''genesis'' all \<and>
     (all \<noteq> [] \<longrightarrow> (\<exists>key. dict_get (tenant_keys c) t = Some key \<and> verifies h key ''genesis'' all))"

lemma get_key_state:
  "get_key w t c = (key, c1) \<Longrightarrow>
   chain_entries c1 = chain_entries c \<and> last_hash c1 = last_hash c \<and> legal_holds c1 = legal_holds c \<and>
   dict_get (tenant_keys c1) t = Some key \<and>
   (\<forall>u. u \<noteq> t \<longrightarrow> dict_get (tenant_keys c1) u = dict_get (tenant_keys c) u) \<and>
   (\<forall>k. dict_get (tenant_keys c) t = Some k \<longrightarrow> key = k)"
  by (auto simp: get_key_def set_tenant_key_def split: option.splits)

lemma kept_entries:
  "(if MAX_ENTRIES_PER_TENANT < length es then slice_from_end (int MAX_ENTRIES_PER_TENANT) es else es) =
   take_last MAX_ENTRIES_PER_TENANT es"
  by (simp add: slice_from_end_def MAX_ENTRIES_PER_TENANT_def)

lemma append_entry_history:
  assumes H: "chain_history (digest_of w) t all c" and a: "append_entry w t act actor agent details c = (e, c')"
  shows "chain_history (digest_of w) t (all @ [e]) c'"
proof -
  obtain key c1 where g: "get_key w t c = (key, c1)" by fastforce
  note k = get_key_state [OF g]
  let ?prev = "dict_get_or (last_hash c) t ''genesis''"
  have e: "e = make_entry w key ?prev t act actor agent details"
    and entries: "entries_of t c' = take_last MAX_ENTRIES_PER_TENANT (entries_of t c @ [e])"
    and last: "dict_get_or (last_hash c') t ''genesis'' = ce_hash e"
    and keys: "tenant_keys c' = tenant_keys c1"
    using a g k
    by (auto simp: append_entry_def Let_def kept_entries entries_of_def dict_get_or_def)
  have prev: "?prev = chain_end ''genesis'' all" using H by (simp add: chain_history_def)
  have "ce_hash e = compute_hash (digest_of w) key e ?prev"
    by (simp add: e make_entry_def Let_def compute_hash_def chain_body_def)
  moreover have "verifies (digest_of w) key ''genesis'' all"
    using H k by (cases "all = []") (auto simp: chain_history_def)
  ultimately have "verifies (digest_of w) key ''genesis'' (all @ [e])"
    by (simp add: verifies_append prev)
  moreover have "entries_of t c' = take_last MAX_ENTRIES_PER_TENANT (all @ [e])"
    using H entries by (simp add: chain_history_def take_last_snoc_take_last)
  ultimately show ?thesis
    using last keys k by (auto simp: chain_history_def chain_end_def)
qed


lemma append_entry_other:
  "t' \<noteq> t \<Longrightarrow> chain_history h t' all c \<Longrightarrow> chain_history h t' all (snd (append_entry w t act actor agent details c))"
  by (auto simp: append_entry_def chain_history_def entries_of_def dict_get_or_def get_key_def
      set_tenant_key_def Let_def split: option.splits prod.splits)

lemma history_holds: "chain_history h t all (c\<lparr>legal_holds := hs\<rparr>) = chain_history h t all c"
  by (simp add: chain_history_def entries_of_def)

lemma verify_chain_history:
  "chain_history h t all c \<Longrightarrow> chain_history h t all (snd (verify_chain w t' c))"
  by (auto simp: verify_chain_def chain_history_def entries_of_def dict_get_or_def get_key_def
      set_tenant_key_def Let_def split: option.splits prod.splits if_splits)

text \<open>An operation of the tenant adds at most one entry, and an append adds one.\<close>

fun appends :: "string \<Rightarrow> chain_op \<Rightarrow> bool" where
  "appends t (Append _ t' _ _ _ _) = (t' = t)"
| "appends t op = False"

lemma append_history:
  assumes "digest_of w = h" and "chain_history h t all c"
  shows "\<exists>all'. chain_history h t all' (snd (append_entry w t' act actor agent details c)) \<and>
    length all + (if t' = t then 1 else 0) \<le> length all'"
proof (cases "t' = t")
  case True
  obtain e c' where a: "append_entry w t act actor agent details c = (e, c')" by fastforce
  from append_entry_history [OF _ a] assms have "chain_history h t (all @ [e]) c'" by simp
  with a True show ?thesis by (intro exI [of _ "all @ [e]"]) simp
next
  case False
  with assms(2) show ?thesis by (auto intro!: append_entry_other)
qed

lemma chain_step_history:
  assumes "digest_of (op_env op) = h" and "chain_history h t all c"
  shows "\<exists>all'. chain_history h t all' (chain_step c op) \<and>
    length all + (if appends t op then 1 else 0) \<le> length all'"
proof (cases op)
  case (Append w t' act actor agent details)
  with append_history [OF _ assms(2)] assms(1) show ?thesis by simp
next
  case (SetHold w t' agent reason user)
  let ?c = "c\<lparr>legal_holds := dict_set t' (holds_of t' c @ [\<lparr>hold_tenant = t', hold_agent = agent,
    hold_reason = reason, held_by = user, held_at = iso_now w, released_at = None,
    released_by = None\<rparr>]) (legal_holds c)\<rparr>"
  from assms(2) have "chain_history h t all ?c" by (simp add: history_holds)
  from append_history [OF _ this, of w t' LegalHoldSet user "Some agent" "[(''reason'', VStr reason)]"]
    assms(1) SetHold show ?thesis by (auto simp: set_legal_hold_def Let_def intro: add_leD1)
next
  case (ReleaseHold w t' agent user)
  show ?thesis
  proof (cases "release_first (iso_now w) agent user (holds_of t' c)")
    case None
    with ReleaseHold assms(2) show ?thesis by (auto simp: release_legal_hold_def)
  next
    case (Some r)
    obtain h1 hs where r: "r = (h1, hs)" by (cases r)
    from assms(2) have "chain_history h t all (c\<lparr>legal_holds := dict_set t' hs (legal_holds c)\<rparr>)"
      by (simp add: history_holds)
    from append_history [OF _ this, of w t' LegalHoldReleased user "Some agent" "[]"]
      assms(1) ReleaseHold Some r show ?thesis
      by (auto simp: release_legal_hold_def intro: add_leD1)
  qed
next
  case (Verify w t')
  with assms(2) show ?thesis by (auto intro: verify_chain_history)
qed

lemma new_chain_history: "chain_history h t [] new_chain"
  by (simp add: chain_history_def new_chain_def entries_of_def dict_get_or_def)

lemma run_history:
  assumes "\<forall>op \<in> set ops. digest_of (op_env op) = h"
  shows "\<exists>all. chain_history h t all (foldl chain_step new_chain ops) \<and>
    length (filter (appends t) ops) \<le> length all"
  using assms
proof (induction ops rule: rev_induct)
  case Nil
  then show ?case using new_chain_history by fastforce
next
  case (snoc op ops)
  then obtain all where a: "chain_history h t all (foldl chain_step new_chain ops)"
    "length (filter (appends t) ops) \<le> length all" by auto
  from chain_step_history [OF _ a(1), of op] snoc.prems obtain all' where
    "chain_history h t all' (chain_step (foldl chain_step new_chain ops) op)"
    "length all + (if appends t op then 1 else 0) \<le> length all'" by auto
  with a(2) show ?case by (intro exI [of _ all']) (auto split: if_splits)
qed

lemma verify_history:
  assumes "chain_history (digest_of w) t all c" and "all \<noteq> []"
  shows "\<exists>key. verifies (digest_of w) key ''genesis'' all \<and>
    fst (verify_chain w t c) =
      (case first_broken (digest_of w) key ''genesis'' (entries_of t c) of
         None \<Rightarrow> \<lparr>ver_valid = True, ver_checked = length (entries_of t c), ver_broken_at = None,
                 ver_entry = None\<rparr>
       | Some i \<Rightarrow> \<lparr>ver_valid = False, ver_checked = i + 1, ver_broken_at = Some i,
                 ver_entry = Some (ce_id (entries_of t c ! i))\<rparr>)"
proof -
  from assms obtain key where k: "dict_get (tenant_keys c) t = Some key"
    "verifies (digest_of w) key ''genesis'' all" by (auto simp: chain_history_def)
  have "length (entries_of t c) = min MAX_ENTRIES_PER_TENANT (length all)"
    using assms(1) by (simp add: chain_history_def)
  moreover have "0 < length all" "0 < MAX_ENTRIES_PER_TENANT"
    using assms(2) by (simp_all add: MAX_ENTRIES_PER_TENANT_def)
  ultimately have "0 < length (entries_of t c)" by (metis min_less_iff_conj)
  then have "entries_of t c \<noteq> []" by simp
  with k show ?thesis
    by (intro exI [of _ key]) (auto simp: verify_chain_def get_key_def Let_def split: option.splits)
qed

text \<open>
  C12: Whatever is appended, held, released and verified, for whichever tenants, from the empty chain and
  under one digest: as long as a tenant's chain has fewer than 100000 entries, its verification succeeds
  and has checked every entry.
\<close>

theorem chain_verifies:
  assumes "\<forall>op \<in> set ops. digest_of (op_env op) = digest_of w"
    and "chain_length t (foldl chain_step new_chain ops) < MAX_ENTRIES_PER_TENANT"
  shows "fst (verify_chain w t (foldl chain_step new_chain ops)) =
    \<lparr>ver_valid = True, ver_checked = chain_length t (foldl chain_step new_chain ops),
     ver_broken_at = None, ver_entry = None\<rparr>"
proof -
  let ?c = "foldl chain_step new_chain ops"
  from run_history [OF assms(1)] obtain all where H: "chain_history (digest_of w) t all ?c" by blast
  then have all: "entries_of t ?c = all"
    using assms(2) by (auto simp: chain_history_def chain_length_def)
  show ?thesis
  proof (cases "all = []")
    case True
    with all show ?thesis by (simp add: verify_chain_def chain_length_def)
  next
    case False
    from verify_history [OF H False] all show ?thesis by (auto simp: chain_length_def)
  qed
qed

lemma chain_verifies_witness:
  "fst (verify_chain (demo_chain_env ''9'') ''t'' (foldl chain_step new_chain
     [Append (demo_chain_env ''1'') ''t'' EventRecorded ''u'' None [],
      SetHold (demo_chain_env ''2'') ''t'' ''a'' ''case'' ''u''])) =
   \<lparr>ver_valid = True, ver_checked = 2, ver_broken_at = None, ver_entry = None\<rparr>"
proof -
  let ?ops = "[Append (demo_chain_env ''1'') ''t'' EventRecorded ''u'' None [],
      SetHold (demo_chain_env ''2'') ''t'' ''a'' ''case'' ''u'']"
  have "chain_length ''t'' (foldl chain_step new_chain ?ops) = 2"
    by (simp add: chain_length_def entries_of_def set_legal_hold_def append_entry_def get_key_def
        set_tenant_key_def new_chain_def dict_get_or_def demo_chain_env_def Let_def holds_of_def
        MAX_ENTRIES_PER_TENANT_def)
  moreover have "\<forall>op \<in> set ?ops. digest_of (op_env op) = digest_of (demo_chain_env ''9'')"
    by (simp add: demo_chain_env_def)
  ultimately show ?thesis
    using chain_verifies [of ?ops "demo_chain_env ''9''" "''t''"]
    by (simp add: MAX_ENTRIES_PER_TENANT_def)
qed

text \<open>
  A digest that depends on the predecessor: no digest is the word genesis, and the entry that follows
  genesis has another digest than the same entry after a different predecessor.
\<close>

definition tells_genesis :: "digest \<Rightarrow> bool" where
  "tells_genesis h \<longleftrightarrow>
     (\<forall>key b. h key b \<noteq> ''genesis'') \<and>
     (\<forall>key e p. p \<noteq> ''genesis'' \<longrightarrow> h key (chain_body e p) \<noteq> h key (chain_body e ''genesis''))"

lemma verified_suffix:
  assumes "verifies h key ''genesis'' (xs @ e # es)" and "xs \<noteq> []" and "tells_genesis h"
  shows "ce_hash e \<noteq> compute_hash h key e ''genesis''"
proof -
  from assms(1) have e: "ce_hash e = compute_hash h key e (chain_end ''genesis'' xs)"
    and xs: "verifies h key ''genesis'' xs"
    by (simp_all only: verifies_append verifies_Cons)
  from assms(2) obtain ys y where ys: "xs = ys @ [y]" by (cases xs rule: rev_cases) auto
  with xs have "ce_hash y \<noteq> ''genesis''"
    using assms(3) by (simp add: verifies_snoc tells_genesis_def del: split_paired_All)
  with e ys assms(3) show ?thesis by (auto simp: compute_hash_def tells_genesis_def)
qed

text \<open>
  Once more than 100000 entries were appended for a tenant, its untouched chain is reported as tampered
  with, at its first entry: verification starts from genesis, but the predecessor of the first kept
  entry was evicted.
\<close>

theorem evicted_chain_reported_broken:
  assumes "\<forall>op \<in> set ops. digest_of (op_env op) = digest_of w"
    and "MAX_ENTRIES_PER_TENANT < length (filter (appends t) ops)"
    and "tells_genesis (digest_of w)"
  shows "ver_valid (fst (verify_chain w t (foldl chain_step new_chain ops))) = False \<and>
    ver_broken_at (fst (verify_chain w t (foldl chain_step new_chain ops))) = Some 0"
proof -
  let ?c = "foldl chain_step new_chain ops" and ?M = MAX_ENTRIES_PER_TENANT
  from run_history [OF assms(1), of t] obtain all where
    H: "chain_history (digest_of w) t all ?c" and len: "?M < length all"
    using assms(2) by (meson less_le_trans)
  have all: "all = take (length all - ?M) all @ entries_of t ?c"
    using H by (simp add: chain_history_def take_last_def)
  have ne: "take (length all - ?M) all \<noteq> []" using len by auto
  obtain e es where es: "entries_of t ?c = e # es"
    using H len by (cases "entries_of t ?c")
      (auto simp: chain_history_def take_last_def MAX_ENTRIES_PER_TENANT_def)
  from verify_history [OF H] len obtain key where
    v: "verifies (digest_of w) key ''genesis'' all" and
    r: "fst (verify_chain w t ?c) =
      (case first_broken (digest_of w) key ''genesis'' (entries_of t ?c) of
         None \<Rightarrow> \<lparr>ver_valid = True, ver_checked = length (entries_of t ?c), ver_broken_at = None,
                 ver_entry = None\<rparr>
       | Some i \<Rightarrow> \<lparr>ver_valid = False, ver_checked = i + 1, ver_broken_at = Some i,
                 ver_entry = Some (ce_id (entries_of t ?c ! i))\<rparr>)" by fastforce
  from v all es have "verifies (digest_of w) key ''genesis'' (take (length all - ?M) all @ e # es)"
    by metis
  from verified_suffix [OF this ne assms(3)] have "ce_hash e \<noteq> compute_hash (digest_of w) key e ''genesis''" .
  with r es show ?thesis by simp
qed

definition marking_digest :: digest where
  "marking_digest key = (\<lambda>(i, act, ts, t, u, a, d, prev). if prev = ''genesis'' then ''first'' else ''next'')"

definition marking_env :: chain_env where
  "marking_env = \<lparr>digest_of = marking_digest, random_key = ''k'', fresh_entry = ''e'', iso_now = ''now''\<rparr>"

lemma tells_genesis_marking: "tells_genesis marking_digest"
  by (auto simp: tells_genesis_def marking_digest_def chain_body_def)

lemma evicted_chain_reported_broken_witness:
  "ver_broken_at (fst (verify_chain marking_env ''t'' (foldl chain_step new_chain
     (replicate 100001 (Append marking_env ''t'' EventRecorded ''u'' None []))))) = Some 0"
proof -
  let ?op = "Append marking_env ''t'' EventRecorded ''u'' None []"
  have "tells_genesis (digest_of marking_env)" by (simp add: marking_env_def tells_genesis_marking)
  moreover have "filter (appends ''t'') (replicate 100001 ?op) = replicate 100001 ?op"
    by (simp only: filter_replicate appends.simps refl if_True)
  then have "MAX_ENTRIES_PER_TENANT < length (filter (appends ''t'') (replicate 100001 ?op))"
    by (simp only: length_replicate MAX_ENTRIES_PER_TENANT_def)
  moreover have "\<forall>op \<in> set (replicate 100001 ?op). digest_of (op_env op) = digest_of marking_env"
    by (simp only: set_replicate_conv_if) simp
  ultimately show ?thesis
    using evicted_chain_reported_broken [of "replicate 100001 ?op" marking_env "''t''"] by blast
qed

end
