(* ===== verification/Recording_Props.thy ===== *)
theory Recording_Props
  imports Recording Audit_Chain_Props
begin

text \<open>
  What the recorder keeps and drops, what a replay shows of the recorded events, and what an export
  contains.
\<close>

section \<open>Tiers\<close>

text \<open>The payloads a level keeps: the others are replaced by nothing.\<close>

definition no_payload :: extended_args where
  "no_payload = \<lparr>x_parameters = None, x_request = None, x_response = None, x_prompt = None,
     x_metadata = None, x_env_keys = None\<rparr>"

definition no_dvr :: dvr_fields where
  "no_dvr = \<lparr>dv_prompt = None, dv_response = None, dv_rag = None, dv_system_prompt = None,
     dv_environment = None, dv_timing = None\<rparr>"

fun kept_payload :: "recording_level \<Rightarrow> extended_args \<Rightarrow> extended_args" where
  "kept_payload AUDIT x = no_payload"
| "kept_payload _ x = x"

fun kept_dvr :: "recording_level \<Rightarrow> dvr_fields \<Rightarrow> dvr_fields" where
  "kept_dvr FULL_DVR d = d"
| "kept_dvr _ d = no_dvr"

datatype rec_op =
  Configure string "string option" recording_level bool
| Record rec_env string audit_args extended_args dvr_fields

fun rec_step :: "recorder \<Rightarrow> rec_op \<Rightarrow> recorder" where
  "rec_step r (Configure t a l b) = snd (set_config t a l b r)"
| "rec_step r (Record w t a x d) = snd (record_action w t a x d r)"

text \<open>The same calls with every payload above the level configured at that moment taken out.\<close>

fun redacted :: "recorder \<Rightarrow> rec_op list \<Rightarrow> rec_op list" where
  "redacted r [] = []"
| "redacted r (Configure t a l b # ops) = Configure t a l b # redacted (rec_step r (Configure t a l b)) ops"
| "redacted r (Record w t a x d # ops) =
     (let l = config_level (get_config t (Some (a_agent a)) r)
      in Record w t a (kept_payload l x) (kept_dvr l d) # redacted (rec_step r (Record w t a x d)) ops)"

lemma record_redacted:
  "record_action w t a (kept_payload (config_level (get_config t (Some (a_agent a)) r)) x)
     (kept_dvr (config_level (get_config t (Some (a_agent a)) r)) d) r = record_action w t a x d r"
  by (cases "config_level (get_config t (Some (a_agent a)) r)") (auto simp: record_action_def Let_def)

text \<open>
  What the recorder stores does not depend on payloads above the configured level: any sequence of
  calls leaves the recorder in the state it would be in if each call had been made without the payloads
  its tenant and agent were not configured to record at that moment.
\<close>

theorem payloads_above_level_dropped:
  "foldl rec_step r (redacted r ops) = foldl rec_step r ops"
proof (induction ops arbitrary: r)
  case (Cons op ops)
  then show ?case by (cases op) (simp_all add: Let_def record_redacted)
qed simp

text \<open>Stored events carry exactly the tiers of their level.\<close>

definition tiers_ok :: "recording_event \<Rightarrow> bool" where
  "tiers_ok e \<longleftrightarrow> rec_audit e \<noteq> None \<and>
     (rec_extended e \<noteq> None \<longleftrightarrow> 2 \<le> level_number (rec_level e)) \<and>
     (rec_dvr e \<noteq> None \<longleftrightarrow> 3 \<le> level_number (rec_level e))"

lemma push_event_mem: "e \<in> set (rec_events (push_event r f)) \<Longrightarrow> e = f \<or> e \<in> set (rec_events r)"
  using set_slice_from_end [of "int MAX_EVENTS" "rec_events r @ [f]"]
  by (auto simp: push_event_def Let_def split: if_splits)

lemma rec_step_tiers: "list_all tiers_ok (rec_events r) \<Longrightarrow> list_all tiers_ok (rec_events (rec_step r op))"
  by (cases op) (auto simp: set_config_def record_action_def Let_def list_all_iff tiers_ok_def dest!: push_event_mem)

interpretation recorder_tiers: machine rec_step "\<lambda>r. list_all tiers_ok (rec_events r)"
  by unfold_locales (rule rec_step_tiers)

interpretation recorder_buffer: last_buffer push_event rec_events MAX_EVENTS
  by unfold_locales (simp add: push_event_def Let_def slice_from_end_def MAX_EVENTS_def)

text \<open>Switching recording off also drops the audit level that is called always on.\<close>

lemma disabled_records_nothing:
  "\<not> config_enabled (get_config t (Some (a_agent a)) r) \<Longrightarrow> snd (record_action w t a x d r) = r"
  by (simp add: record_action_def Let_def)

text \<open>
  The configuration set last for an agent is the one used for it until another is set for it, whatever
  is configured for its tenant or for other agents, as long as tenants have no colon in their names (they
  are UUIDs).
\<close>

theorem agent_config_overrides:
  assumes "CHR '':'' \<notin> set t" and "a \<noteq> []"
    and "list_all (\<lambda>(u, b, l, on). CHR '':'' \<notin> set u \<and> (u, b) \<noteq> (t, Some a)) later"
  shows "get_config t (Some a)
      (foldl (\<lambda>r (u, b, l, on). snd (set_config u b l on r)) (snd (set_config t (Some a) level enabled r)) later) =
    \<lparr>config_tenant = t, config_agent = Some a, config_level = level, config_enabled = enabled\<rparr>"
proof -
  let ?c = "\<lparr>config_tenant = t, config_agent = Some a, config_level = level, config_enabled = enabled\<rparr>"
  have "dict_get (rec_configs (foldl (\<lambda>r (u, b, l, on). snd (set_config u b l on r)) s later)) (colon_join t a) = Some ?c"
    if "dict_get (rec_configs s) (colon_join t a) = Some ?c" for s
    using that assms(3)
  proof (induction later arbitrary: s)
    case (Cons p later)
    obtain u b l on where p: "p = (u, b, l, on)" by (cases p)
    from Cons.prems(2) p have u: "CHR '':'' \<notin> set u" "(u, b) \<noteq> (t, Some a)" by auto
    have "CHR '':'' \<in> set (colon_join t a)" by (simp add: colon_join_def)
    with u(1) have "u \<noteq> colon_join t a" by blast
    moreover have "colon_join u c \<noteq> colon_join t a" if "b = Some c" for c
      using colon_join_first [of u c t a] u assms(1) that by auto
    ultimately have "config_key u b \<noteq> colon_join t a" by (simp add: config_key_def split: option.splits)
    with Cons.prems Cons.IH p show ?case by (simp add: set_config_def Let_def)
  qed simp
  moreover have "dict_get (rec_configs (snd (set_config t (Some a) level enabled r))) (colon_join t a) = Some ?c"
    using assms(2) by (simp add: set_config_def Let_def config_key_def)
  ultimately show ?thesis using assms(2) by (simp add: get_config_def)
qed

lemma agent_config_overrides_witness:
  "config_level (get_config ''t'' (Some ''a'') (snd (set_config ''t'' None AUDIT True
     (snd (set_config ''t'' (Some ''a'') FULL_DVR True new_recorder))))) = FULL_DVR"
  using agent_config_overrides [of "''t''" "''a''" "[(''t'', None, AUDIT, True)]" FULL_DVR True new_recorder]
  by simp

section \<open>Replay\<close>

lemma blocked_iff: "classify_step t res = StepBlocked \<longleftrightarrow> res = ''blocked''"
  by (auto simp: classify_step_def dict_get_or_def)

lemma get_events_bound: "0 < limit \<Longrightarrow> length (get_events t a ty limit r) \<le> nat limit"
  by (simp add: get_events_def slice_from_end_def)

lemma get_events_mem:
  assumes "e \<in> set (get_events t (Some a) None limit r)" and "a \<noteq> []"
  shows "e \<in> set (rec_events r) \<and> rec_tenant e = t \<and> of_agent a e"
proof -
  have "e \<in> set (when_given (Some a) of_agent (filter (\<lambda>e. rec_tenant e = t) (rec_events r)))"
    using assms(1) set_slice_from_end unfolding get_events_def when_given_def [of None] by fastforce
  with assms(2) show ?thesis by (auto simp: when_given_def)
qed

definition only_audit_details :: "replay_step \<Rightarrow> bool" where
  "only_audit_details s \<longleftrightarrow>
     set (dict_keys (st_details s)) \<subseteq> {''tool_name'', ''data_classification'', ''bytes_transferred''}"

lemma audit_details_only: "set (dict_keys (audit_details a)) \<subseteq> {''tool_name'', ''data_classification'', ''bytes_transferred''}"
  by (auto simp: audit_details_def detail_def)

text \<open>
  A replay built from the recorded events of an agent has one step for each event, in their order,
  numbered from 0, with the time and the agent of the event; a step is blocked exactly when the result of
  the event is, and an event recorded at the audit level shows no payload.
\<close>

theorem replay_matches_events:
  assumes "list_all tiers_ok (rec_events r)" and "a \<noteq> []" and "es = get_events t (Some a) None limit r"
    and "build_replay now i t a es rs = (s, rs')" and "k < length es"
    and "rec_audit (es ! k) = Some au" and "step = rs_steps s ! k"
  shows "length (rs_steps s) = length es \<and> st_index step = k \<and>
    st_timestamp step = au_timestamp au \<and> st_agent step = a \<and>
    (st_type step = StepBlocked \<longleftrightarrow> au_result au = ''blocked'') \<and>
    (rec_level (es ! k) = AUDIT \<longrightarrow> only_audit_details step)"
proof -
  have s: "rs_steps s = map (replay_step_of now a) (enumerate 0 es)"
    using assms(4) by (auto simp: build_replay_def Let_def)
  have "enumerate 0 es ! k = (k, es ! k)" using assms(5) by (simp add: nth_enumerate_eq)
  then have step: "step = replay_step_of now a (k, es ! k)" using assms(5,7) s by simp
  have mem: "es ! k \<in> set es" using assms(5) by simp
  then have e: "es ! k \<in> set (rec_events r)" "of_agent a (es ! k)"
    using get_events_mem assms(2,3) by blast+
  then have "tiers_ok (es ! k)" using assms(1) by (simp add: list_all_iff)
  then have "rec_level (es ! k) = AUDIT \<Longrightarrow> rec_extended (es ! k) = None \<and> rec_dvr (es ! k) = None"
    by (auto simp: tiers_ok_def)
  then have "rec_level (es ! k) = AUDIT \<longrightarrow> only_audit_details step"
    using audit_details_only [of au]
    by (auto simp: step replay_step_of_def Let_def assms(6) only_audit_details_def extended_details_def dvr_details_def)
  moreover have "au_agent au = a" using e(2) assms(6) by (simp add: of_agent_def)
  ultimately show ?thesis
    by (simp add: s step replay_step_of_def Let_def assms(6) blocked_iff)
qed

definition demo_audit :: "string \<Rightarrow> audit_args" where
  "demo_audit res = \<lparr>a_agent = ''a'', a_event_type = ''tool_call'', a_tool = Some ''search'', a_result = res,
     a_classification = ''clean'', a_trust = NInt 1, a_rule = None, a_bytes = 3\<rparr>"

definition demo_rec_env :: rec_env where
  "demo_rec_env = \<lparr>rec_now = ''now'', rec_uuid = ''e'', sha256 = (\<lambda>s. ''h'')\<rparr>"

definition demo_recorder :: recorder where
  "demo_recorder = foldl rec_step new_recorder
     [Record demo_rec_env ''t'' (demo_audit ''success'') no_payload no_dvr,
      Record demo_rec_env ''t'' (demo_audit ''blocked'') no_payload no_dvr]"

lemmas demo_recording_defs = demo_recorder_def demo_rec_env_def demo_audit_def record_action_def push_event_def
  get_config_def tenant_config_def new_recorder_def dict_get_or_def audit_of_def MAX_EVENTS_def Let_def

lemma replay_matches_events_witness:
  "st_type (rs_steps (fst (build_replay ''now'' ''r'' ''t'' ''a''
       (get_events ''t'' (Some ''a'') None 500 demo_recorder) [])) ! 1) = StepBlocked"
proof -
  let ?es = "get_events ''t'' (Some ''a'') None 500 demo_recorder"
  obtain s rs' where b: "build_replay ''now'' ''r'' ''t'' ''a'' ?es [] = (s, rs')" by fastforce
  have "list_all tiers_ok (rec_events demo_recorder)"
    by (simp add: demo_recording_defs tiers_ok_def)
  moreover have "1 < length ?es" "rec_audit (?es ! 1) = Some (audit_of demo_rec_env (demo_audit ''blocked''))"
    by (simp_all add: get_events_def when_given_def slice_from_end_def take_last_def of_agent_def demo_recording_defs)
  moreover have "au_result (audit_of demo_rec_env (demo_audit ''blocked'')) = ''blocked''"
    by (simp add: audit_of_def demo_audit_def)
  ultimately show ?thesis
    using replay_matches_events [OF _ _ refl b _ _ refl, of 1] b by (metis fst_conv list.distinct(1))
qed

text \<open>A session is found only by its own tenant, and building one leaves the sessions of others.\<close>

lemma get_session_tenant: "get_session i t rs = Some s \<Longrightarrow> rs_tenant s = t"
  by (auto simp: get_session_def split: option.splits if_splits)

lemma sessions_bounded: "length (snd (build_replay now i t a es rs)) \<le> MAX_SESSIONS"
  by (simp add: build_replay_def Let_def)

section \<open>Exports\<close>

lemma export_entries_limit:
  assumes "entries_of t c = old @ recent" and "EXPORT_LIMIT \<le> int (length recent)"
    and "list_all (\<lambda>e. str_lt finish (ce_timestamp e) \<and> (case start of None \<Rightarrow> True | Some s \<Rightarrow> \<not> str_lt (ce_timestamp e) s)) recent"
  shows "set (get_entries t None None start EXPORT_LIMIT c) \<subseteq> set recent"
proof -
  let ?P = "\<lambda>e. case start of None \<Rightarrow> True | Some s \<Rightarrow> \<not> str_lt (ce_timestamp e) s"
  have "filter ?P recent = recent" using assms(3) by (auto simp: filter_id_conv list_all_iff)
  then have "get_entries t None None start EXPORT_LIMIT c = take_last 5000 (filter ?P old @ recent)"
    by (simp add: get_entries_def assms(1) slice_from_end_def EXPORT_LIMIT_def)
  moreover have "take_last 5000 (filter ?P old @ recent) = take_last 5000 recent"
    using assms(2) by (simp add: take_last_def EXPORT_LIMIT_def)
  ultimately show ?thesis by (simp add: set_take_last)
qed

lemma str_lt_asym: "str_lt a b \<Longrightarrow> \<not> str_lt b a \<and> a \<noteq> b"
  by (induction a b rule: str_lt.induct) auto

text \<open>
  An export is cut to the last 5000 entries before the end of its period is looked at: once 5000
  entries are newer than the period, the export of the period contains no entry at all, and says so with
  the verification of the whole chain beside it.
\<close>

theorem old_period_exported_empty:
  assumes "entries_of t (ex_chain st) = old @ recent" and "5000 \<le> length recent" and "finish \<noteq> []"
    and "list_all (\<lambda>e. str_lt finish (ce_timestamp e) \<and>
           (case start of None \<Rightarrow> True | Some s \<Rightarrow> \<not> str_lt (ce_timestamp e) s)) recent"
  shows "ep_entries (fst (generate_export w i t fw user start (Some finish) st)) = [] \<and>
    ep_verification (fst (generate_export w i t fw user start (Some finish) st)) = fst (verify_chain w t (ex_chain st))"
proof -
  obtain ver c1 where v: "verify_chain w t (ex_chain st) = (ver, c1)" by fastforce
  have "entries_of t c1 = old @ recent"
    using v assms(1) by (auto simp: verify_chain_def get_key_def set_tenant_key_def entries_of_def Let_def
        split: if_splits option.splits)
  from export_entries_limit [OF this, of finish start] assms(2,4)
  have sub: "set (get_entries t None None start EXPORT_LIMIT c1) \<subseteq> set recent" by (simp add: EXPORT_LIMIT_def)
  have "filter (\<lambda>e. ce_timestamp e = finish \<or> str_lt (ce_timestamp e) finish)
      (get_entries t None None start EXPORT_LIMIT c1) = []"
  proof (rule filter_False, rule ballI)
    fix e
    assume "e \<in> set (get_entries t None None start EXPORT_LIMIT c1)"
    with sub assms(4) have "str_lt finish (ce_timestamp e)" by (auto simp: list_all_iff)
    with str_lt_asym [OF this] show "\<not> (ce_timestamp e = finish \<or> str_lt (ce_timestamp e) finish)" by blast
  qed
  then have "export_entries t fw start (Some finish) c1 = []"
    using assms(3) by (simp add: export_entries_def Let_def split: option.splits)
  with v show ?thesis by (simp add: generate_export_def Let_def)
qed

definition stamped :: "string \<Rightarrow> chain_entry" where
  "stamped t = \<lparr>ce_id = ''e'', ce_action = EventRecorded, ce_timestamp = t, ce_tenant = ''t'', ce_actor = ''u'',
     ce_agent = None, ce_details = [], ce_hash = [], ce_previous = []\<rparr>"

definition busy_exports :: export_state where
  "busy_exports = \<lparr>ex_chain = new_chain\<lparr>chain_entries :=
       [(''t'', [stamped ''2025-01-05'', stamped ''2025-01-06''] @ replicate 5000 (stamped ''2025-03-01''))]\<rparr>,
     ex_recorder = new_recorder, ex_packages = []\<rparr>"

lemma old_period_exported_empty_witness:
  "ep_entries (fst (generate_export (demo_chain_env ''x'') ''p'' ''t'' SOC2 ''u'' (Some ''2025-01-01'')
     (Some ''2025-01-31'') busy_exports)) = []"
proof -
  have e: "entries_of ''t'' (ex_chain busy_exports) =
      [stamped ''2025-01-05'', stamped ''2025-01-06''] @ replicate 5000 (stamped ''2025-03-01'')"
    by (simp add: busy_exports_def entries_of_def dict_get_or_def)
  have "str_lt ''2025-01-31'' ''2025-03-01''" "\<not> str_lt ''2025-03-01'' ''2025-01-01''"
    by code_simp+
  then have "list_all (\<lambda>e. str_lt ''2025-01-31'' (ce_timestamp e) \<and>
      (case Some ''2025-01-01'' of None \<Rightarrow> True | Some s \<Rightarrow> \<not> str_lt (ce_timestamp e) s))
      (replicate 5000 (stamped ''2025-03-01''))"
    by (auto simp: list_all_iff stamped_def)
  from old_period_exported_empty [OF e _ _ this] show ?thesis by simp
qed

text \<open>With at most 5000 entries since its start an export is exactly the period.\<close>

lemma export_complete:
  assumes "length (get_entries t None None start 100000 c) \<le> 5000" and "finish \<noteq> []" and "framework_actions fw = None"
    and "length (entries_of t c) \<le> 100000"
  shows "export_entries t fw start (Some finish) c =
    filter (\<lambda>e. (case start of None \<Rightarrow> True | Some s \<Rightarrow> \<not> str_lt (ce_timestamp e) s) \<and>
                (ce_timestamp e = finish \<or> str_lt (ce_timestamp e) finish)) (entries_of t c)"
proof -
  let ?P = "\<lambda>e. case start of None \<Rightarrow> True | Some s \<Rightarrow> \<not> str_lt (ce_timestamp e) s"
  have "length (filter ?P (entries_of t c)) \<le> 100000"
    using assms(4) length_filter_le le_trans by blast
  then have "length (filter ?P (entries_of t c)) \<le> 5000"
    using assms(1) by (simp add: get_entries_def slice_from_end_def)
  then have "get_entries t None None start EXPORT_LIMIT c = filter ?P (entries_of t c)"
    by (simp add: get_entries_def slice_from_end_def EXPORT_LIMIT_def)
  with assms(2,3) show ?thesis by (auto simp: export_entries_def Let_def intro: filter_cong)
qed

text \<open>An export is itself recorded: the history of the chain grows by its entry.\<close>

lemma export_recorded:
  assumes "chain_history (digest_of w) t all (ex_chain st)"
  shows "\<exists>e. ce_action e = ExportGenerated \<and>
    chain_history (digest_of w) t (all @ [e]) (ex_chain (snd (generate_export w i t fw user start finish st)))"
proof -
  obtain ver c1 where v: "verify_chain w t (ex_chain st) = (ver, c1)" by fastforce
  have h: "chain_history (digest_of w) t all c1" using verify_chain_history [OF assms, of w t] v by simp
  let ?d = "[(''framework'', VStr (framework_value fw)), (''period_start'', text_value start),
    (''period_end'', text_value finish),
    (''entries_exported'', VNum (NInt (int (length (export_entries t fw start finish c1)))))]"
  obtain e c2 where a: "append_entry w t ExportGenerated user None ?d c1 = (e, c2)" by fastforce
  have "ce_action e = ExportGenerated"
    using a by (auto simp: append_entry_def make_entry_def Let_def split: prod.splits)
  with append_entry_history [OF h a] v a show ?thesis
    by (intro exI [of _ e]) (simp add: generate_export_def Let_def)
qed

end
