(* ===== verification/Task_Tracker.thy ===== *)
theory Task_Tracker
  imports Py_Values
begin

text \<open>
  \<open>backend/app/services/a2a/task_tracker.py\<close>: the tasks agents delegate to each other, the depth limit
  and cycle check at recording, the walk from a task to the root of its chain, and the graph of who
  delegates to whom. Identifiers the code draws and the clock are arguments.
\<close>

section \<open>Tasks\<close>

datatype task_status = Submitted | Working | Completed | Failed | Cancelled | PolicyBlocked

record a2a_task =
  internal_id :: string
  task_tenant :: string
  task_id :: string
  initiator_agent :: string
  source_agent :: string
  target_agent :: string
  task_capability :: string
  task_state :: task_status
  chain_depth :: nat
  parent_task :: "string option"
  task_description :: string
  result_summary :: string
  task_error :: string
  created_at :: rat
  updated_at :: rat
  completed_at :: "rat option"
  task_metadata :: "(string, pval) dict"

record delegation_chain =
  chain_initiator :: string
  chain_tasks :: "a2a_task list"
  total_depth :: nat
  has_cycle :: bool
  cycle_agents :: "string list"

type_synonym task_tracker = "(string, (string, a2a_task) dict) dict"

definition new_tracker :: task_tracker where
  "new_tracker = []"

definition MAX_CHAIN_DEPTH :: nat where
  "MAX_CHAIN_DEPTH = 10"

datatype delegation_error =
  DepthExceeded nat
| CircularDelegation string string

record task_env =
  fresh_uuid :: string
  fresh_hex :: string
  task_now :: rat

text \<open>\<open>bool\<close> of an optional identifier: absent and empty are false.\<close>

definition given :: "string option \<Rightarrow> bool" where
  "given i \<longleftrightarrow> (case i of None \<Rightarrow> False | Some s \<Rightarrow> s \<noteq> [])"

definition tasks_of :: "string \<Rightarrow> task_tracker \<Rightarrow> (string, a2a_task) dict" where
  "tasks_of tenant tr = dict_get_or tr tenant []"

definition find_task :: "a2a_task list \<Rightarrow> string \<Rightarrow> a2a_task option" where
  "find_task ts i = find (\<lambda>t. task_id t = i) ts"

definition find_by_task_id :: "string \<Rightarrow> string \<Rightarrow> task_tracker \<Rightarrow> a2a_task option" where
  "find_by_task_id tenant i tr = find_task (dict_values (tasks_of tenant tr)) i"

text \<open>The task of an optional identifier.\<close>

definition parent_of :: "a2a_task list \<Rightarrow> string option \<Rightarrow> a2a_task option" where
  "parent_of ts i = (case i of None \<Rightarrow> None | Some s \<Rightarrow> if s = [] then None else find_task ts s)"

lemma find_task_mem: "find_task ts i = Some t \<Longrightarrow> t \<in> set ts"
  by (auto simp: find_task_def find_Some_iff)

lemma parent_of_mem: "parent_of ts i = Some t \<Longrightarrow> t \<in> set ts"
  by (auto simp: parent_of_def find_task_mem split: option.splits if_splits)

section \<open>Recording\<close>

text \<open>
  The loop of the cycle check: from the parent upwards, until an agent is met again or the chain ends.
  It ends because each round adds an agent of the recorded tasks to the ones seen.
\<close>

function detect_from :: "a2a_task list \<Rightarrow> string list \<Rightarrow> string option \<Rightarrow> bool" where
  "detect_from ts seen current =
     (case parent_of ts current of
        None \<Rightarrow> False
      | Some t \<Rightarrow>
          if source_agent t \<in> set seen then True
          else detect_from ts (source_agent t # seen) (parent_task t))"
  by pat_completeness auto

termination
proof (relation "measure (\<lambda>(ts, seen, _). card (source_agent ` set ts - set seen))")
  fix ts seen current t
  assume "parent_of ts current = Some t" and "source_agent t \<notin> set seen"
  then have "source_agent t \<in> source_agent ` set ts - set seen" using parent_of_mem by fastforce
  then have "source_agent ` set ts - set (source_agent t # seen) \<subset> source_agent ` set ts - set seen" by auto
  then have "card (source_agent ` set ts - set (source_agent t # seen)) < card (source_agent ` set ts - set seen)"
    by (intro psubset_card_mono) simp_all
  then show "((ts, source_agent t # seen, parent_task t), (ts, seen, current))
      \<in> measure (\<lambda>(ts, seen, _). card (source_agent ` set ts - set seen))"
    by (simp only: in_measure split_conv)
qed simp

declare detect_from.simps [simp del]

definition detect_cycle :: "string \<Rightarrow> string \<Rightarrow> string \<Rightarrow> string option \<Rightarrow> task_tracker \<Rightarrow> bool" where
  "detect_cycle tenant source target parent tr =
     (if source = target then True
      else if \<not> given parent then False
      else detect_from (dict_values (tasks_of tenant tr)) [source, target] parent)"

definition record_delegation :: "task_env \<Rightarrow> string \<Rightarrow> string \<Rightarrow> string \<Rightarrow> string \<Rightarrow> string \<Rightarrow>
    string option \<Rightarrow> string \<Rightarrow> (string, pval) dict \<Rightarrow> task_tracker \<Rightarrow>
    delegation_error + (a2a_task \<times> task_tracker)" where
  "record_delegation w tenant source target capability i parent description metadata tr =
     (let p = parent_of (dict_values (tasks_of tenant tr)) parent;
          depth = (case p of None \<Rightarrow> 0 | Some t \<Rightarrow> chain_depth t + 1);
          initiator = (case p of None \<Rightarrow> source | Some t \<Rightarrow> initiator_agent t)
      in if MAX_CHAIN_DEPTH < depth then Inl (DepthExceeded depth)
         else if detect_cycle tenant source target parent tr then Inl (CircularDelegation source target)
         else
           let t = \<lparr>internal_id = fresh_uuid w, task_tenant = tenant,
                    task_id = (if i = [] then fresh_hex w else i), initiator_agent = initiator,
                    source_agent = source, target_agent = target, task_capability = capability,
                    task_state = Submitted, chain_depth = depth, parent_task = parent,
                    task_description = description, result_summary = [], task_error = [],
                    created_at = task_now w, updated_at = task_now w, completed_at = None,
                    task_metadata = metadata\<rparr>
           in Inr (t, dict_set tenant (dict_set (internal_id t) t (tasks_of tenant tr)) tr))"

definition update_task :: "task_env \<Rightarrow> task_status \<Rightarrow> string \<Rightarrow> string \<Rightarrow> a2a_task \<Rightarrow> a2a_task" where
  "update_task w status summary err t =
     t\<lparr>task_state := status, updated_at := task_now w,
       result_summary := (if summary = [] then result_summary t else summary),
       task_error := (if err = [] then task_error t else err),
       completed_at := (if status \<in> {Completed, Failed} then Some (task_now w) else completed_at t)\<rparr>"

text \<open>The object found is changed in place: it stays in the dictionary under its internal identifier.\<close>

definition update_status :: "task_env \<Rightarrow> string \<Rightarrow> string \<Rightarrow> task_status \<Rightarrow> string \<Rightarrow> string \<Rightarrow> task_tracker \<Rightarrow>
    a2a_task option \<times> task_tracker" where
  "update_status w tenant i status summary err tr =
     (case find_by_task_id tenant i tr of
        None \<Rightarrow> (None, tr)
      | Some t \<Rightarrow>
          let t' = update_task w status summary err t
          in (Some t', dict_set tenant (dict_set (internal_id t) t' (tasks_of tenant tr)) tr))"

section \<open>Chains\<close>

text \<open>The walk to the root; it has no bound, so not returning is the value \<open>None\<close>.\<close>

partial_function (option) walk_up :: "a2a_task list \<Rightarrow> a2a_task \<Rightarrow> a2a_task list \<Rightarrow> string list \<Rightarrow>
    string list \<Rightarrow> (a2a_task list \<times> string list) option" where
  "walk_up ts current chain seen cyc =
     (case parent_of ts (parent_task current) of
        None \<Rightarrow> Some (chain, cyc)
      | Some p \<Rightarrow>
          walk_up ts p (p # chain) (source_agent p # seen)
            (if source_agent p \<in> set seen then cyc @ [source_agent p] else cyc))"

definition get_delegation_chain :: "string \<Rightarrow> string \<Rightarrow> task_tracker \<Rightarrow> delegation_chain option option" where
  "get_delegation_chain tenant i tr =
     (case find_by_task_id tenant i tr of
        None \<Rightarrow> Some None
      | Some t \<Rightarrow>
          map_option (\<lambda>(chain, cyc).
              Some \<lparr>chain_initiator = source_agent (hd chain), chain_tasks = chain,
                    total_depth = length chain, has_cycle = (cyc \<noteq> []), cycle_agents = cyc\<rparr>)
            (walk_up (dict_values (tasks_of tenant tr)) t [t] [source_agent t, target_agent t] []))"

section \<open>Queries\<close>

definition list_tasks :: "string \<Rightarrow> task_status option \<Rightarrow> string option \<Rightarrow> int \<Rightarrow> task_tracker \<Rightarrow> a2a_task list" where
  "list_tasks tenant status agent limit tr =
     slice_to limit
       (filter (\<lambda>t. given agent \<longrightarrow> Some (source_agent t) = agent \<or> Some (target_agent t) = agent)
         (filter (\<lambda>t. case status of None \<Rightarrow> True | Some s \<Rightarrow> task_state t = s)
           (sort_key (\<lambda>t. - created_at t) (dict_values (tasks_of tenant tr)))))"

definition count_up :: "'k \<Rightarrow> ('k, nat) dict \<Rightarrow> ('k, nat) dict" where
  "count_up k d = dict_set k (dict_get_or d k 0 + 1) d"

record task_stats =
  total_tasks :: nat
  by_status :: "(task_status, nat) dict"
  unique_agents :: nat
  max_depth :: nat
  active_tasks :: nat

definition tracker_stats :: "string \<Rightarrow> task_tracker \<Rightarrow> task_stats" where
  "tracker_stats tenant tr =
     (let ts = dict_values (tasks_of tenant tr)
      in \<lparr>total_tasks = length ts,
          by_status = foldl (\<lambda>d t. count_up (task_state t) d) [] ts,
          unique_agents = length (remdups (map source_agent ts @ map target_agent ts)),
          max_depth = foldl max 0 (map chain_depth ts),
          active_tasks = length (filter (\<lambda>t. task_state t \<in> {Submitted, Working}) ts)\<rparr>)"

record graph_node =
  node_id :: string
  delegations_out :: nat
  delegations_in :: nat

definition ensure_node :: "(string, graph_node) dict \<Rightarrow> string \<Rightarrow> (string, graph_node) dict" where
  "ensure_node nodes a =
     (if dict_get nodes a = None
      then dict_set a \<lparr>node_id = a, delegations_out = 0, delegations_in = 0\<rparr> nodes else nodes)"

definition change_node :: "string \<Rightarrow> (graph_node \<Rightarrow> graph_node) \<Rightarrow> (string, graph_node) dict \<Rightarrow>
    (string, graph_node) dict" where
  "change_node a f nodes =
     (case dict_get nodes a of None \<Rightarrow> nodes | Some n \<Rightarrow> dict_set a (f n) nodes)"

definition add_to_graph :: "(string, graph_node) dict \<Rightarrow> a2a_task \<Rightarrow> (string, graph_node) dict" where
  "add_to_graph nodes t =
     change_node (target_agent t) (\<lambda>n. n\<lparr>delegations_in := delegations_in n + 1\<rparr>)
       (change_node (source_agent t) (\<lambda>n. n\<lparr>delegations_out := delegations_out n + 1\<rparr>)
         (ensure_node (ensure_node nodes (source_agent t)) (target_agent t)))"

definition communication_graph :: "string \<Rightarrow> task_tracker \<Rightarrow>
    graph_node list \<times> (string \<times> string \<times> nat) list" where
  "communication_graph tenant tr =
     (let ts = dict_values (tasks_of tenant tr)
      in (dict_values (foldl add_to_graph [] ts),
          map (\<lambda>((source, target), n). (source, target, n))
            (foldl (\<lambda>d t. count_up (source_agent t, target_agent t) d) [] ts)))"

end
