(* ===== verification/Task_Tracker_Props.thy ===== *)
theory Task_Tracker_Props
  imports Task_Tracker
begin

text \<open>
  What the task tracker guarantees. With identifiers that are new when they are recorded, every chain
  walk returns, finds no cycle and is as long as the recorded depth says; a caller that names a task its
  own parent makes the walk endless. The graph counts the recorded delegations.
\<close>

section \<open>Histories\<close>

datatype task_op =
  Delegate task_env string string string string string "string option" string "(string, pval) dict"
| UpdateStatus task_env string string task_status string string

text \<open>An operation that raises leaves the tracker as it is.\<close>

fun task_step :: "task_tracker \<Rightarrow> task_op \<Rightarrow> task_tracker" where
  "task_step tr (Delegate w tenant source target cap i parent desc meta) =
     (case record_delegation w tenant source target cap i parent desc meta tr of
        Inl _ \<Rightarrow> tr | Inr (_, tr') \<Rightarrow> tr')"
| "task_step tr (UpdateStatus w tenant i status summary err) =
     snd (update_status w tenant i status summary err tr)"

abbreviation task_list :: "string \<Rightarrow> task_tracker \<Rightarrow> a2a_task list" where
  "task_list tenant tr \<equiv> dict_values (tasks_of tenant tr)"

text \<open>
  The identifiers of an operation are new: the internal one is no key, and the external one belongs to
  no task, is no task's parent and is not the parent given.
\<close>

definition fresh_id :: "task_tracker \<Rightarrow> string \<Rightarrow> string \<Rightarrow> string option \<Rightarrow> bool" where
  "fresh_id tr tenant i parent \<longleftrightarrow>
     parent \<noteq> Some i \<and> (\<forall>t \<in> set (task_list tenant tr). task_id t \<noteq> i \<and> parent_task t \<noteq> Some i)"

fun fresh_op :: "task_tracker \<Rightarrow> task_op \<Rightarrow> bool" where
  "fresh_op tr (Delegate w tenant source target cap i parent desc meta) =
     (fresh_uuid w \<notin> set (dict_keys (tasks_of tenant tr)) \<and>
      fresh_id tr tenant (if i = [] then fresh_hex w else i) parent)"
| "fresh_op tr (UpdateStatus w tenant i status summary err) = True"

fun fresh_run :: "task_tracker \<Rightarrow> task_op list \<Rightarrow> bool" where
  "fresh_run tr [] = True"
| "fresh_run tr (op # ops) = (fresh_op tr op \<and> fresh_run (task_step tr op) ops)"

section \<open>Depth\<close>

text \<open>Tasks are stored under their tenant and identifier, at most ten deep, and never delegate to themselves.\<close>

definition task_ok :: "string \<Rightarrow> string \<Rightarrow> a2a_task \<Rightarrow> bool" where
  "task_ok tenant k t \<longleftrightarrow> internal_id t = k \<and> task_tenant t = tenant \<and>
     chain_depth t \<le> MAX_CHAIN_DEPTH \<and> source_agent t \<noteq> target_agent t"

definition tracker_ok :: "task_tracker \<Rightarrow> bool" where
  "tracker_ok tr \<longleftrightarrow> (\<forall>tenant. dict_wf (tasks_of tenant tr) \<and>
     (\<forall>(k, t) \<in> set (tasks_of tenant tr). task_ok tenant k t))"

lemma tasks_of_set [simp]:
  "tasks_of tenant' (dict_set tenant ts tr) = (if tenant' = tenant then ts else tasks_of tenant' tr)"
  by (simp add: tasks_of_def)

lemma tracker_ok_put:
  assumes "tracker_ok tr" and "task_ok tenant k t"
  shows "tracker_ok (dict_set tenant (dict_set k t (tasks_of tenant tr)) tr)"
  unfolding tracker_ok_def
proof (intro allI conjI ballI)
  fix t'
  show "dict_wf (tasks_of t' (dict_set tenant (dict_set k t (tasks_of tenant tr)) tr))"
    using assms(1) by (auto simp: tracker_ok_def)
next
  fix t' x
  assume "x \<in> set (tasks_of t' (dict_set tenant (dict_set k t (tasks_of tenant tr)) tr))"
  then have "x \<in> set (tasks_of t' tr) \<or> t' = tenant \<and> x = (k, t)"
    using set_dict_set_subset [of k t "tasks_of tenant tr"] by (auto split: if_splits)
  then show "case x of (k, t) \<Rightarrow> task_ok t' k t"
    using assms unfolding tracker_ok_def by blast
qed

lemma find_by_task_id_ok:
  assumes "tracker_ok tr" and "find_by_task_id tenant i tr = Some t"
  shows "task_ok tenant (internal_id t) t" and "(internal_id t, t) \<in> set (tasks_of tenant tr)"
    and "task_id t = i"
proof -
  from assms(2) have f: "find_task (task_list tenant tr) i = Some t" by (simp add: find_by_task_id_def)
  then have "t \<in> set (task_list tenant tr)" by (rule find_task_mem)
  moreover from f have i: "task_id t = i" by (auto simp: find_task_def find_Some_iff)
  ultimately obtain k where k: "(k, t) \<in> set (tasks_of tenant tr)" by force
  with assms(1) have "task_ok tenant k t" by (auto simp: tracker_ok_def)
  with k i show "task_ok tenant (internal_id t) t" "(internal_id t, t) \<in> set (tasks_of tenant tr)"
    "task_id t = i" by (simp_all add: task_ok_def)
qed

lemma record_delegation_cases:
  assumes "record_delegation w tenant source target cap i parent desc meta tr = Inr (t, tr')"
  shows "tr' = dict_set tenant (dict_set (fresh_uuid w) t (tasks_of tenant tr)) tr"
    and "internal_id t = fresh_uuid w" "task_tenant t = tenant"
    "task_id t = (if i = [] then fresh_hex w else i)" "parent_task t = parent"
    "source_agent t = source" "target_agent t = target"
    "chain_depth t = (case parent_of (task_list tenant tr) parent of None \<Rightarrow> 0 | Some p \<Rightarrow> chain_depth p + 1)"
    "chain_depth t \<le> MAX_CHAIN_DEPTH" "\<not> detect_cycle tenant source target parent tr"
  using assms by (auto simp: record_delegation_def Let_def split: if_splits)

lemma task_step_ok: "tracker_ok tr \<Longrightarrow> tracker_ok (task_step tr op)"
proof (cases op)
  case (Delegate w tenant source target cap i parent desc meta)
  assume ok: "tracker_ok tr"
  show ?thesis
  proof (cases "record_delegation w tenant source target cap i parent desc meta tr")
    case (Inr r)
    obtain t tr' where r: "r = (t, tr')" by (cases r)
    note d = record_delegation_cases [OF Inr [unfolded r]]
    have "task_ok tenant (fresh_uuid w) t"
      using d by (auto simp: task_ok_def detect_cycle_def)
    from tracker_ok_put [OF ok this] show ?thesis by (simp add: Delegate Inr r d(1))
  qed (use ok Delegate in simp)
next
  case (UpdateStatus w tenant i status summary err)
  assume ok: "tracker_ok tr"
  show ?thesis
  proof (cases "find_by_task_id tenant i tr")
    case (Some t)
    have "task_ok tenant (internal_id t) (update_task w status summary err t)"
      using find_by_task_id_ok(1) [OF ok Some] by (simp add: task_ok_def update_task_def)
    from tracker_ok_put [OF ok this] Some show ?thesis
      by (simp add: UpdateStatus update_status_def Let_def)
  qed (use ok UpdateStatus in \<open>simp add: update_status_def\<close>)
qed

interpretation tasks: machine task_step tracker_ok
  by unfold_locales (rule task_step_ok)

lemma new_tracker_ok: "tracker_ok new_tracker"
  by (simp add: tracker_ok_def new_tracker_def tasks_of_def dict_get_or_def)

text \<open>
  Whatever is delegated and updated from the empty tracker, with whatever identifiers: every task
  has a delegation depth of at most ten, no task goes from an agent to itself, and each is stored under
  its own tenant and identifier.
\<close>

theorem delegation_depth_bounded:
  "\<forall>(k, t) \<in> set (tasks_of tenant (foldl task_step new_tracker ops)).
     internal_id t = k \<and> task_tenant t = tenant \<and> chain_depth t \<le> 10 \<and> source_agent t \<noteq> target_agent t"
  using tasks.inv_run [OF new_tracker_ok, of ops]
  unfolding tracker_ok_def task_ok_def MAX_CHAIN_DEPTH_def by blast

section \<open>Chains with new identifiers\<close>

text \<open>
  The depth of a task is one more than its parent's, and the cycle check run again on the task finds
  nothing.
\<close>

definition well_rooted :: "a2a_task list \<Rightarrow> a2a_task \<Rightarrow> bool" where
  "well_rooted ts t \<longleftrightarrow>
     chain_depth t = (case parent_of ts (parent_task t) of None \<Rightarrow> 0 | Some p \<Rightarrow> chain_depth p + 1) \<and>
     \<not> detect_from ts [source_agent t, target_agent t] (parent_task t)"

definition rooted :: "a2a_task list \<Rightarrow> bool" where
  "rooted ts \<longleftrightarrow> (\<forall>t \<in> set ts. well_rooted ts t)"

lemma parent_of_None [simp]: "parent_of ts None = None"
  by (simp add: parent_of_def)

lemma find_task_snoc: "i \<noteq> task_id u \<Longrightarrow> find_task (ts @ [u]) i = find_task ts i"
  by (induction ts) (auto simp: find_task_def)

lemma find_task_new: "find_task ts (task_id t) = None \<Longrightarrow> find_task (ts @ [t]) (task_id t) = Some t"
  by (induction ts) (auto simp: find_task_def split: if_splits)

lemma detect_from_None: "parent_of ts p = None \<Longrightarrow> \<not> detect_from ts seen p"
  by (subst detect_from.simps) simp

lemma detect_from_Some:
  "parent_of ts p = Some t \<Longrightarrow> detect_from ts seen p \<longleftrightarrow>
   source_agent t \<in> set seen \<or> detect_from ts (source_agent t # seen) (parent_task t)"
  by (subst detect_from.simps) simp

lemma parent_of_snoc: "p \<noteq> Some (task_id u) \<Longrightarrow> parent_of (ts @ [u]) p = parent_of ts p"
  by (cases p) (auto simp: parent_of_def find_task_snoc)

lemma detect_from_snoc:
  assumes "\<forall>t \<in> set ts. parent_task t \<noteq> Some (task_id u)" and "p \<noteq> Some (task_id u)"
  shows "detect_from (ts @ [u]) seen p = detect_from ts seen p"
  using assms
proof (induction ts seen p rule: detect_from.induct)
  case (1 ts seen p)
  show ?case
  proof (cases "parent_of ts p")
    case None
    with "1.prems"(2) show ?thesis by (simp add: detect_from_None parent_of_snoc)
  next
    case (Some t)
    with "1.prems" parent_of_mem [OF Some] "1.IH" [OF Some] show ?thesis
      by (auto simp: detect_from_Some parent_of_snoc)
  qed
qed

lemma well_rooted_snoc:
  assumes "\<forall>t \<in> set ts. parent_task t \<noteq> Some (task_id u)" and "parent_task t \<noteq> Some (task_id u)"
  shows "well_rooted (ts @ [u]) t = well_rooted ts t"
  using assms by (simp add: well_rooted_def parent_of_snoc detect_from_snoc)

text \<open>The walk goes up one level a round, in step with the cycle check.\<close>

lemma walk_returns:
  assumes "rooted ts" and "well_rooted ts t" and "set seen' = set seen"
    and "\<not> detect_from ts seen (parent_task t)"
  shows "\<exists>chain'. walk_up ts t chain seen' [] = Some (chain', []) \<and>
    length chain' = length chain + chain_depth t"
  using assms
proof (induction "chain_depth t" arbitrary: t chain seen seen')
  case 0
  then have "parent_of ts (parent_task t) = None" by (auto simp: well_rooted_def split: option.splits)
  with 0 show ?case by (simp add: walk_up.simps)
next
  case (Suc n)
  then obtain p where p: "parent_of ts (parent_task t) = Some p" and n: "n = chain_depth p"
    by (auto simp: well_rooted_def split: option.splits)
  have root: "well_rooted ts p" using Suc.prems(1) parent_of_mem [OF p] by (simp add: rooted_def)
  have d: "source_agent p \<notin> set seen" "\<not> detect_from ts (source_agent p # seen) (parent_task p)"
    using Suc.prems(4) p by (simp_all add: detect_from_Some)
  from Suc.hyps(1) [OF n Suc.prems(1) root, of "source_agent p # seen'" "source_agent p # seen" "p # chain"]
    Suc.prems(3) d(2) obtain chain' where
    "walk_up ts p (p # chain) (source_agent p # seen') [] = Some (chain', [])"
    "length chain' = Suc (length chain) + chain_depth p" by auto
  with p d(1) Suc.prems(3) Suc.hyps(2) n show ?case by (subst walk_up.simps) simp
qed

definition tenants_rooted :: "task_tracker \<Rightarrow> bool" where
  "tenants_rooted tr \<longleftrightarrow> (\<forall>tenant. rooted (task_list tenant tr))"

text \<open>Changing the fields a status update changes leaves the identifiers and agents of the list.\<close>

definition same_links :: "a2a_task \<Rightarrow> a2a_task \<Rightarrow> bool" where
  "same_links t u \<longleftrightarrow> task_id t = task_id u \<and> parent_task t = parent_task u \<and>
     chain_depth t = chain_depth u \<and> source_agent t = source_agent u \<and> target_agent t = target_agent u"

lemma same_links_refl [simp]: "same_links t t"
  by (simp add: same_links_def)

lemma find_task_same:
  "list_all2 same_links ts us \<Longrightarrow> rel_option same_links (find_task ts i) (find_task us i)"
  unfolding find_task_def by (induction rule: list_all2_induct) (auto simp: same_links_def)

lemma parent_of_same:
  "list_all2 same_links ts us \<Longrightarrow> rel_option same_links (parent_of ts p) (parent_of us p)"
  by (auto simp: parent_of_def find_task_same split: option.splits)

lemma detect_from_same:
  "list_all2 same_links ts us \<Longrightarrow> detect_from ts seen p = detect_from us seen p"
proof (induction ts seen p rule: detect_from.induct)
  case (1 ts seen p)
  from parent_of_same [OF "1.prems", of p] show ?case
  proof (cases rule: option.rel_cases)
    case (Some t u)
    then show ?thesis using "1.IH" [OF Some(1)] "1.prems"
      by (auto simp: detect_from_Some same_links_def)
  qed (simp add: detect_from_None)
qed

lemma rooted_same:
  assumes "list_all2 same_links ts us" and "rooted ts"
  shows "rooted us"
  unfolding rooted_def
proof
  fix u
  assume "u \<in> set us"
  then obtain t where t: "t \<in> set ts" "same_links t u"
    using assms(1) by (metis list_all2_conv_all_nth in_set_conv_nth)
  then have "well_rooted ts t" using assms(2) by (simp add: rooted_def)
  with t(2) parent_of_same [OF assms(1), of "parent_task u"] detect_from_same [OF assms(1)]
  show "well_rooted us u"
    by (auto simp: well_rooted_def same_links_def option_rel_Some1 split: option.splits)
qed

lemma dict_set_same_links:
  "dict_get d k = Some t \<Longrightarrow> same_links t u \<Longrightarrow>
   list_all2 same_links (dict_values d) (dict_values (dict_set k u d))"
  by (induction d) (auto simp: list_all2_refl split: if_splits)

lemma task_step_rooted:
  assumes ok: "tracker_ok tr" and root: "tenants_rooted tr" and fresh: "fresh_op tr op"
  shows "tenants_rooted (task_step tr op)"
proof (cases op)
  case (Delegate w tenant source target cap i parent desc meta)
  show ?thesis
  proof (cases "record_delegation w tenant source target cap i parent desc meta tr")
    case (Inr r)
    obtain t tr' where r: "r = (t, tr')" by (cases r)
    note d = record_delegation_cases [OF Inr [unfolded r]]
    let ?ts = "task_list tenant tr"
    have vals: "task_list tenant tr' = ?ts @ [t]"
      using fresh by (simp add: Delegate d(1) dict_set_fresh)
    have new: "\<forall>u \<in> set ?ts. parent_task u \<noteq> Some (task_id t)" "parent \<noteq> Some (task_id t)"
      using fresh d(4) by (auto simp: Delegate fresh_id_def simp del: set_map)
    have "\<not> given parent \<Longrightarrow> parent_of ?ts parent = None"
      by (auto simp: given_def parent_of_def split: option.splits)
    then have "well_rooted ?ts t"
      using d(5-8,10) by (auto simp: well_rooted_def detect_cycle_def detect_from_None split: if_splits)
    moreover have "\<forall>u \<in> set ?ts. well_rooted ?ts u" using root by (simp add: tenants_rooted_def rooted_def)
    ultimately have "rooted (?ts @ [t])"
      using new d(5) by (auto simp: rooted_def well_rooted_snoc simp del: set_map)
    then show ?thesis
      using root vals by (auto simp: tenants_rooted_def Delegate Inr r d(1))
  qed (use root Delegate in simp)
next
  case (UpdateStatus w tenant i status summary err)
  show ?thesis
  proof (cases "find_by_task_id tenant i tr")
    case (Some t)
    from find_by_task_id_ok(2) [OF ok Some] ok
    have "dict_get (tasks_of tenant tr) (internal_id t) = Some t"
      by (auto simp: tracker_ok_def dict_wf_def)
    moreover have "same_links t (update_task w status summary err t)"
      by (simp add: same_links_def update_task_def)
    ultimately have "list_all2 same_links (task_list tenant tr)
        (dict_values (dict_set (internal_id t) (update_task w status summary err t) (tasks_of tenant tr)))"
      by (rule dict_set_same_links)
    with root Some show ?thesis
      by (auto simp: tenants_rooted_def UpdateStatus update_status_def Let_def intro: rooted_same)
  qed (use root UpdateStatus in \<open>simp add: update_status_def\<close>)
qed

lemma fresh_run_rooted:
  "tracker_ok tr \<Longrightarrow> tenants_rooted tr \<Longrightarrow> fresh_run tr ops \<Longrightarrow> tenants_rooted (foldl task_step tr ops)"
  by (induction ops arbitrary: tr) (auto intro: task_step_ok task_step_rooted)

text \<open>
  C20: When every delegation brings new identifiers (as the ones the tracker draws are), the chain of
  every recorded task can be built: the walk returns, reports no cycle, and has one task more than the
  recorded depth, at most eleven. So the cycle check at recording misses nothing.
\<close>

theorem fresh_chains_return:
  assumes "fresh_run new_tracker ops"
    and "find_by_task_id tenant i (foldl task_step new_tracker ops) = Some t"
  shows "\<exists>ch. get_delegation_chain tenant i (foldl task_step new_tracker ops) = Some (Some ch) \<and>
    \<not> has_cycle ch \<and> total_depth ch = chain_depth t + 1 \<and> total_depth ch \<le> 11"
proof -
  let ?tr = "foldl task_step new_tracker ops" and ?ts = "task_list tenant (foldl task_step new_tracker ops)"
  have ok: "tracker_ok ?tr" by (rule tasks.inv_run [OF new_tracker_ok])
  have "tenants_rooted new_tracker"
    by (simp add: tenants_rooted_def rooted_def new_tracker_def tasks_of_def dict_get_or_def)
  with assms(1) have "tenants_rooted ?tr" by (intro fresh_run_rooted new_tracker_ok)
  then have root: "rooted ?ts" by (simp add: tenants_rooted_def)
  have "t \<in> set ?ts" using assms(2) find_task_mem unfolding find_by_task_id_def by blast
  with root have wr: "well_rooted ?ts t" unfolding rooted_def by blast
  then have "\<not> detect_from ?ts [source_agent t, target_agent t] (parent_task t)"
    by (simp add: well_rooted_def)
  from walk_returns [OF root wr refl this, of "[t]"] obtain chain where
    "walk_up ?ts t [t] [source_agent t, target_agent t] [] = Some (chain, [])"
    "length chain = Suc (chain_depth t)" by auto
  moreover have "chain_depth t \<le> 10"
    using find_by_task_id_ok(1) [OF ok assms(2)] by (simp add: task_ok_def MAX_CHAIN_DEPTH_def)
  ultimately show ?thesis using assms(2) by (simp add: get_delegation_chain_def)
qed


definition demo_task_env :: "string \<Rightarrow> task_env" where
  "demo_task_env i = \<lparr>fresh_uuid = i, fresh_hex = i, task_now = 0\<rparr>"

definition demo_delegations :: "task_op list" where
  "demo_delegations =
     [Delegate (demo_task_env ''1'') ''t'' ''a'' ''b'' ''read'' [] None [] [],
      Delegate (demo_task_env ''2'') ''t'' ''b'' ''c'' ''read'' [] (Some ''1'') [] []]"

lemmas demo_task_defs = demo_delegations_def demo_task_env_def record_delegation_def new_tracker_def
  tasks_of_def dict_get_or_def MAX_CHAIN_DEPTH_def detect_cycle_def given_def parent_of_def find_task_def
  detect_from.simps fresh_id_def Let_def

lemma fresh_chains_return_witness:
  "\<exists>ch. get_delegation_chain ''t'' ''2'' (foldl task_step new_tracker demo_delegations) = Some (Some ch) \<and>
     \<not> has_cycle ch \<and> total_depth ch = 2"
proof -
  have fresh: "fresh_run new_tracker demo_delegations" by (simp add: demo_task_defs)
  have "\<exists>t. find_by_task_id ''t'' ''2'' (foldl task_step new_tracker demo_delegations) = Some t \<and>
      chain_depth t = 1"
    by (simp add: demo_task_defs find_by_task_id_def)
  then show ?thesis using fresh_chains_return [OF fresh] by fastforce
qed

section \<open>A task that is its own parent\<close>

lemma walk_up_cycle:
  assumes "walk_up ts t chain seen cyc = Some r" and "parent_of ts (parent_task t) = Some t"
  shows False
proof -
  have "parent_of ts (parent_task t) \<noteq> Some t"
    by (rule walk_up.raw_induct [where P = "\<lambda>ts t chain seen cyc r. parent_of ts (parent_task t) \<noteq> Some t",
        OF _ assms(1)]) (auto split: option.splits)
  with assms(2) show False by simp
qed

text \<open>
  A caller may name the new task as its own parent: the tracker records it, and building its chain
  never returns.
\<close>

theorem self_parent_never_returns:
  assumes "i \<noteq> []" and "source \<noteq> target" and "find_by_task_id tenant i tr = None"
    and "fresh_uuid w \<notin> set (dict_keys (tasks_of tenant tr))"
  shows "\<exists>t tr'. record_delegation w tenant source target cap i (Some i) desc meta tr = Inr (t, tr') \<and>
    get_delegation_chain tenant i tr' = None"
proof -
  let ?ts = "task_list tenant tr"
  have none: "find_task ?ts i = None" using assms(3) by (simp add: find_by_task_id_def)
  then have p: "parent_of ?ts (Some i) = None" by (simp add: parent_of_def)
  then have "\<not> detect_cycle tenant source target (Some i) tr"
    using assms(2) by (simp add: detect_cycle_def detect_from_None)
  with p obtain t tr' where r: "record_delegation w tenant source target cap i (Some i) desc meta tr = Inr (t, tr')"
    by (simp add: record_delegation_def Let_def)
  note d = record_delegation_cases [OF r]
  have vals: "task_list tenant tr' = ?ts @ [t]" using assms(4) d(1) by (simp add: dict_set_fresh)
  have "find_task (?ts @ [t]) i = Some t"
    using none assms(1) d(4) find_task_new [of ?ts t] by simp
  then have f: "find_by_task_id tenant i tr' = Some t" "parent_of (task_list tenant tr') (parent_task t) = Some t"
    using vals assms(1) d(5) by (simp_all add: find_by_task_id_def parent_of_def)
  have "walk_up (task_list tenant tr') t [t] [source_agent t, target_agent t] [] = None"
    using walk_up_cycle [OF _ f(2)] by (metis not_None_eq)
  with f r show ?thesis by (auto simp: get_delegation_chain_def)
qed

lemma self_parent_never_returns_witness:
  "\<exists>t tr'. record_delegation (demo_task_env ''1'') ''t'' ''a'' ''b'' ''read'' ''x'' (Some ''x'') [] [] new_tracker
      = Inr (t, tr') \<and> get_delegation_chain ''t'' ''x'' tr' = None"
  by (rule self_parent_never_returns)
    (simp_all add: find_by_task_id_def find_task_def new_tracker_def tasks_of_def dict_get_or_def)

section \<open>The communication graph\<close>

lemma dict_wf_mem_iff: "dict_wf d \<Longrightarrow> (k, v) \<in> set d \<longleftrightarrow> dict_get d k = Some v"
  by (auto simp: dict_wf_def)

abbreviation tally :: "('a \<Rightarrow> 'k) \<Rightarrow> 'a list \<Rightarrow> ('k, nat) dict" where
  "tally f xs \<equiv> foldl (\<lambda>d x. count_up (f x) d) [] xs"

lemma tally_lookup:
  "dict_wf (tally f xs) \<and> dict_get (tally f xs) k =
     (if k \<in> f ` set xs then Some (length (filter (\<lambda>x. f x = k) xs)) else None)"
proof (induction xs rule: rev_induct)
  case (snoc x xs)
  have "k \<notin> f ` set xs \<Longrightarrow> filter (\<lambda>x. f x = k) xs = []" by (auto simp: filter_empty_conv)
  with snoc show ?case by (auto simp: count_up_def dict_get_or_def image_iff)
qed simp

lemma tally_mem:
  "(k, n) \<in> set (tally f xs) \<longleftrightarrow> n = length (filter (\<lambda>x. f x = k) xs) \<and> 0 < n"
  using tally_lookup [of f xs k] by (auto simp: dict_wf_mem_iff filter_empty_conv split: if_splits)

lemma change_node_get [simp]:
  "dict_get (change_node a f d) b = (if b = a then map_option f (dict_get d a) else dict_get d b)"
  by (simp add: change_node_def split: option.splits)

lemma ensure_node_get [simp]:
  "dict_get (ensure_node d a) b =
     (if b = a \<and> dict_get d a = None then Some \<lparr>node_id = a, delegations_out = 0, delegations_in = 0\<rparr>
      else dict_get d b)"
  by (simp add: ensure_node_def)

definition graph_node_of :: "a2a_task list \<Rightarrow> string \<Rightarrow> graph_node" where
  "graph_node_of ts a =
     \<lparr>node_id = a, delegations_out = length (filter (\<lambda>t. source_agent t = a) ts),
      delegations_in = length (filter (\<lambda>t. target_agent t = a) ts)\<rparr>"

lemma add_to_graph_wf: "dict_wf d \<Longrightarrow> dict_wf (add_to_graph d t)"
  by (auto simp: add_to_graph_def change_node_def ensure_node_def split: option.splits)

lemma add_to_graph_get:
  "dict_get (add_to_graph d t) a =
     (if a = source_agent t \<or> a = target_agent t then
        Some (let n = (case dict_get d a of
                 None \<Rightarrow> \<lparr>node_id = a, delegations_out = 0, delegations_in = 0\<rparr> | Some n \<Rightarrow> n)
              in n\<lparr>delegations_out := delegations_out n + (if source_agent t = a then 1 else 0),
                   delegations_in := delegations_in n + (if target_agent t = a then 1 else 0)\<rparr>)
      else dict_get d a)"
  by (cases "a = source_agent t"; cases "a = target_agent t"; cases "dict_get d a")
    (auto simp: add_to_graph_def Let_def)

lemma graph_wf: "dict_wf (foldl add_to_graph [] ts)"
  by (induction ts rule: rev_induct) (simp_all add: add_to_graph_wf)

lemma graph_lookup:
  "dict_get (foldl add_to_graph [] ts) a =
     (if \<exists>t \<in> set ts. a = source_agent t \<or> a = target_agent t then Some (graph_node_of ts a) else None)"
proof (induction ts rule: rev_induct)
  case (snoc t ts)
  show ?case
  proof (cases "\<exists>t \<in> set ts. a = source_agent t \<or> a = target_agent t")
    case True
    with snoc show ?thesis by (simp add: add_to_graph_get graph_node_of_def)
  next
    case False
    then have "filter (\<lambda>t. source_agent t = a) ts = []" "filter (\<lambda>t. target_agent t = a) ts = []"
      by (auto simp: filter_empty_conv)
    with False snoc show ?thesis by (simp add: add_to_graph_get graph_node_of_def)
  qed
qed simp

text \<open>
  The communication graph has an edge for exactly the pairs of agents between which tasks were
  delegated, weighted with their number, and a node for exactly the agents of those tasks, with the
  numbers of tasks they delegated and received.
\<close>

theorem communication_graph_counts:
  "((source, target, n) \<in> set (snd (communication_graph tenant tr)) \<longleftrightarrow>
     n = length (filter (\<lambda>t. source_agent t = source \<and> target_agent t = target) (task_list tenant tr)) \<and> 0 < n) \<and>
   (node \<in> set (fst (communication_graph tenant tr)) \<longleftrightarrow>
     node = graph_node_of (task_list tenant tr) (node_id node) \<and>
     (\<exists>t \<in> set (task_list tenant tr). node_id node = source_agent t \<or> node_id node = target_agent t))"
proof
  have "(source, target, n) \<in> set (snd (communication_graph tenant tr)) \<longleftrightarrow>
      ((source, target), n) \<in> set (tally (\<lambda>t. (source_agent t, target_agent t)) (task_list tenant tr))"
    by (force simp: communication_graph_def Let_def)
  then show "(source, target, n) \<in> set (snd (communication_graph tenant tr)) \<longleftrightarrow>
     n = length (filter (\<lambda>t. source_agent t = source \<and> target_agent t = target) (task_list tenant tr)) \<and> 0 < n"
    by (simp add: tally_mem)
next
  let ?g = "foldl add_to_graph [] (task_list tenant tr)"
  have "node \<in> set (dict_values ?g) \<longleftrightarrow> (\<exists>a. dict_get ?g a = Some node)"
    using dict_value_get dict_get_in_values graph_wf by metis
  then show "node \<in> set (fst (communication_graph tenant tr)) \<longleftrightarrow>
     node = graph_node_of (task_list tenant tr) (node_id node) \<and>
     (\<exists>t \<in> set (task_list tenant tr). node_id node = source_agent t \<or> node_id node = target_agent t)"
    by (auto simp: communication_graph_def Let_def graph_lookup graph_node_of_def simp del: set_map
        split: if_splits)
qed

lemma delegation_depth_bounded_witness:
  "length (tasks_of ''t'' (foldl task_step new_tracker demo_delegations)) = 2 \<and>
   chain_depth (snd (tasks_of ''t'' (foldl task_step new_tracker demo_delegations) ! 1)) \<le> 10"
proof -
  let ?ts = "tasks_of ''t'' (foldl task_step new_tracker demo_delegations)"
  have two: "length ?ts = 2" by (simp add: demo_task_defs)
  then have "?ts ! 1 \<in> set ?ts" by simp
  from bspec [OF delegation_depth_bounded this] have "chain_depth (snd (?ts ! 1)) \<le> 10"
    by (simp add: case_prod_beta)
  with two show ?thesis by blast
qed

end
