(* ===== verification/Quarantine.thy ===== *)
theory Quarantine
  imports Py_Values
begin

text \<open>
  \<open>backend/engine/sandbox/quarantine.py\<close>: quarantine sessions of suspicious agents, the interception of
  their actions, release and escalation. Every operation runs under the manager's lock, so operations
  are atomic here; the clock and the identifiers drawn are arguments.
\<close>

section \<open>Data\<close>

definition MAX_CAPTURED_ACTIONS :: nat where
  "MAX_CAPTURED_ACTIONS = 10000"

definition MAX_ACTION_PAYLOAD_SIZE :: nat where
  "MAX_ACTION_PAYLOAD_SIZE = 64 * 1024"

definition MAX_QUARANTINE_DURATION_S :: int where
  "MAX_QUARANTINE_DURATION_S = 86400"

datatype quarantine_mode = Observe | Intercept | BlockMode

datatype quarantine_state = QPending | QActive | QReleased | QEscalated

datatype action_type =
  NetworkRequest | FileWrite | FileRead | ToolCall | ApiCall | IpcMessage | ResourceAccess | UnknownAction

datatype disposition = DAllowed | DSimulated | DBlocked

fun mode_value :: "quarantine_mode \<Rightarrow> string" where
  "mode_value Observe = ''observe''"
| "mode_value Intercept = ''intercept''"
| "mode_value BlockMode = ''block''"

fun state_value :: "quarantine_state \<Rightarrow> string" where
  "state_value QPending = ''pending''"
| "state_value QActive = ''active''"
| "state_value QReleased = ''released''"
| "state_value QEscalated = ''escalated''"

fun action_type_value :: "action_type \<Rightarrow> string" where
  "action_type_value NetworkRequest = ''network_request''"
| "action_type_value FileWrite = ''file_write''"
| "action_type_value FileRead = ''file_read''"
| "action_type_value ToolCall = ''tool_call''"
| "action_type_value ApiCall = ''api_call''"
| "action_type_value IpcMessage = ''ipc_message''"
| "action_type_value ResourceAccess = ''resource_access''"
| "action_type_value UnknownAction = ''unknown''"

fun disposition_value :: "disposition \<Rightarrow> string" where
  "disposition_value DAllowed = ''allowed''"
| "disposition_value DSimulated = ''simulated''"
| "disposition_value DBlocked = ''blocked''"

record captured_action =
  action_id :: string
  captured_type :: action_type
  captured_as :: disposition
  captured_at :: string
  captured_agent :: string
  captured_tenant :: string
  captured_target :: string
  payload_summary :: string
  simulated_response :: "string option"

fun optional_str :: "string option \<Rightarrow> pval" where
  "optional_str None = VNone"
| "optional_str (Some s) = VStr s"

definition action_dict :: "captured_action \<Rightarrow> (string, pval) dict" where
  "action_dict a =
     [(''action_id'', VStr (action_id a)), (''action_type'', VStr (action_type_value (captured_type a))),
      (''disposition'', VStr (disposition_value (captured_as a))), (''timestamp'', VStr (captured_at a)),
      (''agent_id'', VStr (captured_agent a)), (''tenant_id'', VStr (captured_tenant a)),
      (''target'', VStr (captured_target a)), (''payload_summary'', VStr (payload_summary a)),
      (''simulated_response'', optional_str (simulated_response a))]"

record quarantine_config =
  quarantine_id :: string
  q_tenant :: string
  q_agent :: string
  sandbox_id :: string
  q_mode :: quarantine_mode
  q_reason :: string
  triggered_by :: string
  max_duration_s :: int

datatype quarantine_error =
  BadDuration | ReasonTooLong
| AlreadyExists string
| AlreadyQuarantined string string
| NotFound string
| NotActive string

text \<open>What the constructor of a configuration accepts.\<close>

definition check_config :: "quarantine_config \<Rightarrow> quarantine_error + quarantine_config" where
  "check_config cfg =
     (if \<not> (1 \<le> max_duration_s cfg \<and> max_duration_s cfg \<le> MAX_QUARANTINE_DURATION_S) then Inl BadDuration
      else if 1024 < length (q_reason cfg) then Inl ReasonTooLong
      else Inr cfg)"

record quarantine_session =
  q_config :: quarantine_config
  q_state :: quarantine_state
  q_started :: string
  q_actions :: "captured_action list"
  q_ended :: "string option"
  release_reason :: "string option"
  analyst_notes :: "string list"

definition action_count :: "quarantine_session \<Rightarrow> nat" where
  "action_count s = length (q_actions s)"

definition action_summary :: "quarantine_session \<Rightarrow> (string, nat) dict" where
  "action_summary s =
     foldl (\<lambda>counts a. let key = action_type_value (captured_type a)
                       in dict_set key (dict_get_or counts key 0 + 1) counts) [] (q_actions s)"

definition session_dict :: "quarantine_session \<Rightarrow> (string, pval) dict" where
  "session_dict s =
     [(''quarantine_id'', VStr (quarantine_id (q_config s))), (''tenant_id'', VStr (q_tenant (q_config s))),
      (''agent_id'', VStr (q_agent (q_config s))), (''sandbox_id'', VStr (sandbox_id (q_config s))),
      (''mode'', VStr (mode_value (q_mode (q_config s)))), (''state'', VStr (state_value (q_state s))),
      (''reason'', VStr (q_reason (q_config s))), (''triggered_by'', VStr (triggered_by (q_config s))),
      (''started_at'', VStr (q_started s)), (''ended_at'', optional_str (q_ended s)),
      (''action_count'', VNum (NInt (int (action_count s)))),
      (''action_summary'', VDict (map (\<lambda>(k, n). (k, VNum (NInt (int n)))) (action_summary s))),
      (''release_reason'', optional_str (release_reason s))]"

definition generate_simulated_response :: "action_type \<Rightarrow> string" where
  \<open>generate_simulated_response a =
     (case a of
        NetworkRequest \<Rightarrow> ''{"status": 200, "body": "OK"}''
      | FileWrite \<Rightarrow> ''{"bytes_written": 0, "status": "success"}''
      | FileRead \<Rightarrow> ''{"content": "", "status": "success"}''
      | ToolCall \<Rightarrow> ''{"result": null, "status": "success"}''
      | ApiCall \<Rightarrow> ''{"status": 200, "data": {}}''
      | IpcMessage \<Rightarrow> ''{"delivered": true}''
      | ResourceAccess \<Rightarrow> ''{"granted": true}''
      | UnknownAction \<Rightarrow> ''{"status": "ok"}'')\<close>

section \<open>The manager\<close>

record quarantine_manager =
  sessions :: "(string, quarantine_session) dict"
  agent_index :: "(string, string) dict"

definition new_manager :: quarantine_manager where
  "new_manager = \<lparr>sessions = [], agent_index = []\<rparr>"

definition put_session :: "quarantine_session \<Rightarrow> quarantine_manager \<Rightarrow> quarantine_manager" where
  "put_session s m = m\<lparr>sessions := dict_set (quarantine_id (q_config s)) s (sessions m)\<rparr>"

definition quarantine :: "string \<Rightarrow> quarantine_config \<Rightarrow> quarantine_manager \<Rightarrow>
    quarantine_error + (quarantine_session \<times> quarantine_manager)" where
  "quarantine now cfg m =
     (if dict_get (sessions m) (quarantine_id cfg) \<noteq> None then Inl (AlreadyExists (quarantine_id cfg))
      else case dict_get (agent_index m) (q_agent cfg) of
        Some existing \<Rightarrow> Inl (AlreadyQuarantined (q_agent cfg) existing)
      | None \<Rightarrow>
          let s = \<lparr>q_config = cfg, q_state = QActive, q_started = now, q_actions = [], q_ended = None,
                   release_reason = None, analyst_notes = []\<rparr>
          in Inr (s, (put_session s m)\<lparr>agent_index :=
               dict_set (q_agent cfg) (quarantine_id cfg) (agent_index m)\<rparr>))"

text \<open>What the agent is told in each mode.\<close>

definition disposition_for :: "quarantine_mode \<Rightarrow> action_type \<Rightarrow> disposition \<times> string option" where
  "disposition_for mode a =
     (case mode of
        Observe \<Rightarrow> (DAllowed, None)
      | Intercept \<Rightarrow> (DSimulated, Some (generate_simulated_response a))
      | BlockMode \<Rightarrow> (DBlocked, None))"

definition capture :: "string \<Rightarrow> string \<Rightarrow> string \<Rightarrow> action_type \<Rightarrow> string \<Rightarrow> string \<Rightarrow>
    quarantine_session \<Rightarrow> captured_action" where
  "capture i now agent a target payload s =
     (case disposition_for (q_mode (q_config s)) a of
        (d, simulated) \<Rightarrow>
          \<lparr>action_id = i, captured_type = a, captured_as = d, captured_at = now, captured_agent = agent,
           captured_tenant = q_tenant (q_config s), captured_target = take 512 target,
           payload_summary = take 256 (take MAX_ACTION_PAYLOAD_SIZE payload),
           simulated_response = simulated\<rparr>)"

definition intercept :: "string \<Rightarrow> string \<Rightarrow> string \<Rightarrow> action_type \<Rightarrow> string \<Rightarrow> string \<Rightarrow>
    quarantine_manager \<Rightarrow> (disposition \<times> string option) \<times> quarantine_manager" where
  "intercept i now agent a target payload m =
     (case dict_get (agent_index m) agent of
        None \<Rightarrow> ((DAllowed, None), m)
      | Some q \<Rightarrow>
         (case dict_get (sessions m) q of
            None \<Rightarrow> ((DAllowed, None), m)
          | Some s \<Rightarrow>
              if q_state s \<noteq> QActive then ((DAllowed, None), m)
              else if MAX_CAPTURED_ACTIONS \<le> action_count s then
                (disposition_for (q_mode (q_config s)) a, m)
              else
                (disposition_for (q_mode (q_config s)) a,
                 m\<lparr>sessions := dict_set q
                   (s\<lparr>q_actions := q_actions s @ [capture i now agent a target payload s]\<rparr>) (sessions m)\<rparr>)))"

text \<open>The end of a session, by release or escalation, and the end of its place in the index.\<close>

definition active_session :: "string \<Rightarrow> quarantine_manager \<Rightarrow> quarantine_error + quarantine_session" where
  "active_session q m =
     (case dict_get (sessions m) q of
        None \<Rightarrow> Inl (NotFound q)
      | Some s \<Rightarrow> if q_state s \<noteq> QActive then Inl (NotActive q) else Inr s)"

definition release :: "string \<Rightarrow> string \<Rightarrow> string \<Rightarrow> quarantine_manager \<Rightarrow>
    quarantine_error + (quarantine_session \<times> quarantine_manager)" where
  "release now q reason m =
     (case active_session q m of
        Inl e \<Rightarrow> Inl e
      | Inr s \<Rightarrow>
          let s' = s\<lparr>q_state := QReleased, q_ended := Some now, release_reason := Some reason\<rparr>
          in Inr (s', m\<lparr>sessions := dict_set q s' (sessions m),
                       agent_index := dict_del (q_agent (q_config s)) (agent_index m)\<rparr>))"

definition escalate_session :: "string \<Rightarrow> string \<Rightarrow> string \<Rightarrow> quarantine_manager \<Rightarrow>
    quarantine_error + (quarantine_session \<times> quarantine_manager)" where
  "escalate_session now q note_text m =
     (case active_session q m of
        Inl e \<Rightarrow> Inl e
      | Inr s \<Rightarrow>
          let s' = s\<lparr>q_state := QEscalated, q_ended := Some now,
                    analyst_notes := (if note_text = [] then analyst_notes s else analyst_notes s @ [note_text])\<rparr>
          in Inr (s', m\<lparr>sessions := dict_set q s' (sessions m),
                       agent_index := dict_del (q_agent (q_config s)) (agent_index m)\<rparr>))"

definition add_note :: "string \<Rightarrow> string \<Rightarrow> quarantine_manager \<Rightarrow> quarantine_error + quarantine_manager" where
  "add_note q note_text m =
     (case dict_get (sessions m) q of
        None \<Rightarrow> Inl (NotFound q)
      | Some s \<Rightarrow> Inr (m\<lparr>sessions :=
          dict_set q (s\<lparr>analyst_notes := analyst_notes s @ [take 2048 note_text]\<rparr>) (sessions m)\<rparr>))"

section \<open>Queries\<close>

definition get_actions :: "string \<Rightarrow> action_type option \<Rightarrow> int \<Rightarrow> quarantine_manager \<Rightarrow>
    quarantine_error + (string, pval) dict list" where
  "get_actions q a limit m =
     (case dict_get (sessions m) q of
        None \<Rightarrow> Inl (NotFound q)
      | Some s \<Rightarrow>
          Inr (map action_dict
            (slice_to (min (max limit 1) (int MAX_CAPTURED_ACTIONS))
              (case a of None \<Rightarrow> q_actions s | Some t \<Rightarrow> filter (\<lambda>c. captured_type c = t) (q_actions s)))))"

definition is_quarantined :: "string \<Rightarrow> quarantine_manager \<Rightarrow> bool" where
  "is_quarantined agent m \<longleftrightarrow> dict_get (agent_index m) agent \<noteq> None"

definition list_sessions :: "string \<Rightarrow> quarantine_state option \<Rightarrow> quarantine_manager \<Rightarrow>
    (string, pval) dict list" where
  "list_sessions tenant state m =
     map session_dict
       (filter (\<lambda>s. (tenant = [] \<or> q_tenant (q_config s) = tenant) \<and>
                  (case state of None \<Rightarrow> True | Some st \<Rightarrow> q_state s = st))
         (dict_values (sessions m)))"

definition active_count :: "quarantine_manager \<Rightarrow> nat" where
  "active_count m = length (agent_index m)"

end
