(* ===== verification/Quarantine_Props.thy ===== *)
theory Quarantine_Props
  imports Quarantine
begin

text \<open>
  What quarantine guarantees: the index of agents is exactly the active sessions, captured actions are
  never lost or changed, and an agent in an active session gets the answer of its mode. And what ends
  with a session: an escalated agent acts unrestricted and unobserved.
\<close>

section \<open>Operations\<close>

datatype quarantine_op =
  Quarantine string quarantine_config
| Act string string string action_type string string
| Release string string string
| Escalate string string string
| AddNote string string

definition after :: "'m \<Rightarrow> 'e + 'r \<times> 'm \<Rightarrow> 'm" where
  "after m r = (case r of Inl _ \<Rightarrow> m | Inr (_, m') \<Rightarrow> m')"

lemma after_simps [simp]: "after m (Inl e) = m" "after m (Inr (x, m')) = m'"
  by (simp_all add: after_def)

text \<open>A configuration the constructor refuses is never passed on; an operation that raises changes nothing.\<close>

fun quarantine_step :: "quarantine_manager \<Rightarrow> quarantine_op \<Rightarrow> quarantine_manager" where
  "quarantine_step m (Quarantine now cfg) =
     (case check_config cfg of
        Inl _ \<Rightarrow> m
      | Inr cfg \<Rightarrow> after m (quarantine now cfg m))"
| "quarantine_step m (Act i now agent a target payload) = snd (intercept i now agent a target payload m)"
| "quarantine_step m (Release now q reason) = after m (release now q reason m)"
| "quarantine_step m (Escalate now q msg) = after m (escalate_session now q msg m)"
| "quarantine_step m (AddNote q msg) = (case add_note q msg m of Inl _ \<Rightarrow> m | Inr m' \<Rightarrow> m')"

section \<open>The index\<close>

definition manager_ok :: "quarantine_manager \<Rightarrow> bool" where
  "manager_ok m \<longleftrightarrow>
     (\<forall>q s. dict_get (sessions m) q = Some s \<longrightarrow>
        quarantine_id (q_config s) = q \<and> action_count s \<le> MAX_CAPTURED_ACTIONS) \<and>
     (\<forall>agent q. dict_get (agent_index m) agent = Some q \<longleftrightarrow>
        (\<exists>s. dict_get (sessions m) q = Some s \<and> q_state s = QActive \<and> q_agent (q_config s) = agent))"

lemma active_session_cases:
  "active_session q m = Inr s \<longleftrightarrow> dict_get (sessions m) q = Some s \<and> q_state s = QActive"
  by (auto simp: active_session_def split: option.splits)

text \<open>A session changed in place, with its state, configuration and bound kept.\<close>

lemma manager_ok_change:
  assumes "manager_ok m" and "dict_get (sessions m) q = Some s" and "q_config s' = q_config s"
    and "q_state s' = q_state s" and "action_count s' \<le> MAX_CAPTURED_ACTIONS"
  shows "manager_ok (m\<lparr>sessions := dict_set q s' (sessions m)\<rparr>)"
  using assms by (auto simp: manager_ok_def)

text \<open>An active session ended.\<close>

lemma manager_ok_end:
  assumes "manager_ok m" and "dict_get (sessions m) q = Some s" and "q_state s = QActive"
    and "q_config s' = q_config s" and "q_state s' \<noteq> QActive" and "q_actions s' = q_actions s"
  shows "manager_ok (m\<lparr>sessions := dict_set q s' (sessions m),
    agent_index := dict_del (q_agent (q_config s)) (agent_index m)\<rparr>)"
proof -
  have uniq: "q' = q" if "dict_get (sessions m) q' = Some s1" "q_state s1 = QActive"
    "q_agent (q_config s1) = q_agent (q_config s)" for q' s1
  proof -
    have "dict_get (agent_index m) (q_agent (q_config s)) = Some q"
      and "dict_get (agent_index m) (q_agent (q_config s)) = Some q'"
      using assms(1-3) that unfolding manager_ok_def by blast+
    then show ?thesis by simp
  qed
  let ?m = "m\<lparr>sessions := dict_set q s' (sessions m),
    agent_index := dict_del (q_agent (q_config s)) (agent_index m)\<rparr>"
  have "dict_get (agent_index ?m) agent = Some q' \<longleftrightarrow>
      (\<exists>s. dict_get (sessions ?m) q' = Some s \<and> q_state s = QActive \<and> q_agent (q_config s) = agent)" for agent q'
  proof (cases "agent = q_agent (q_config s)")
    case True
    with uniq assms(5) show ?thesis by auto
  next
    case False
    have "dict_get (agent_index m) agent = Some q' \<longleftrightarrow>
      (\<exists>s. dict_get (sessions m) q' = Some s \<and> q_state s = QActive \<and> q_agent (q_config s) = agent)"
      using assms(1) by (simp add: manager_ok_def)
    with False assms(2,5) show ?thesis by auto
  qed
  moreover have "quarantine_id (q_config s1) = q' \<and> action_count s1 \<le> MAX_CAPTURED_ACTIONS"
    if "dict_get (sessions ?m) q' = Some s1" for q' s1
    using assms(1,2,4,6) that by (auto simp: manager_ok_def action_count_def split: if_splits)
  ultimately show ?thesis unfolding manager_ok_def by blast
qed

lemma quarantine_ok:
  assumes "manager_ok m" and "quarantine now cfg m = Inr (s, m')"
  shows "manager_ok m'"
proof -
  have new: "dict_get (sessions m) (quarantine_id cfg) = None" "dict_get (agent_index m) (q_agent cfg) = None"
    and m': "m' = (put_session s m)\<lparr>agent_index := dict_set (q_agent cfg) (quarantine_id cfg) (agent_index m)\<rparr>"
    and s: "q_config s = cfg" "q_state s = QActive" "q_actions s = []"
    using assms(2) by (auto simp: quarantine_def Let_def split: if_splits option.splits)
  have "\<And>q s. dict_get (sessions m) q = Some s \<Longrightarrow> q_state s = QActive \<Longrightarrow> q_agent (q_config s) \<noteq> q_agent cfg"
    using assms(1) new(2) by (metis manager_ok_def option.distinct(1))
  then show ?thesis
    using assms(1) new s by (auto simp: m' manager_ok_def put_session_def action_count_def)
qed

lemma intercept_cases:
  assumes "manager_ok m"
  shows "(dict_get (agent_index m) agent = None \<and> intercept i now agent a target payload m = ((DAllowed, None), m)) \<or>
    (\<exists>q s. dict_get (agent_index m) agent = Some q \<and> dict_get (sessions m) q = Some s \<and>
       q_state s = QActive \<and> intercept i now agent a target payload m =
         (disposition_for (q_mode (q_config s)) a,
          if MAX_CAPTURED_ACTIONS \<le> action_count s then m
          else m\<lparr>sessions := dict_set q
            (s\<lparr>q_actions := q_actions s @ [capture i now agent a target payload s]\<rparr>) (sessions m)\<rparr>))"
proof (cases "dict_get (agent_index m) agent")
  case (Some q)
  with assms obtain s where "dict_get (sessions m) q = Some s" "q_state s = QActive"
    unfolding manager_ok_def by blast
  with Some show ?thesis by (simp add: intercept_def)
qed (simp add: intercept_def)

lemma quarantine_step_ok: "manager_ok m \<Longrightarrow> manager_ok (quarantine_step m op)"
proof (cases op)
  case (Quarantine now cfg)
  assume "manager_ok m"
  then show ?thesis
    by (auto simp: Quarantine after_def split: sum.splits prod.splits intro: quarantine_ok)
next
  case (Act i now agent a target payload)
  assume ok: "manager_ok m"
  from intercept_cases [OF this, of agent i now a target payload] show ?thesis
    by (auto simp: Act ok action_count_def intro!: manager_ok_change [OF ok])
next
  case (Release now q reason)
  assume ok: "manager_ok m"
  then show ?thesis
    by (auto simp: Release release_def active_session_cases Let_def split: sum.splits
        intro!: manager_ok_end)
next
  case (Escalate now q msg)
  assume ok: "manager_ok m"
  then show ?thesis
    by (auto simp: Escalate escalate_session_def active_session_cases Let_def split: sum.splits
        intro!: manager_ok_end)
next
  case (AddNote q msg)
  assume ok: "manager_ok m"
  show ?thesis
  proof (cases "dict_get (sessions m) q")
    case (Some s)
    with ok have "action_count s \<le> MAX_CAPTURED_ACTIONS" by (simp add: manager_ok_def)
    with manager_ok_change [OF ok Some] Some show ?thesis
      by (simp add: AddNote add_note_def action_count_def)
  qed (simp add: AddNote add_note_def ok)
qed

text \<open>The actions captured for a session.\<close>

definition session_actions :: "string \<Rightarrow> quarantine_manager \<Rightarrow> captured_action list" where
  "session_actions q m = (case dict_get (sessions m) q of None \<Rightarrow> [] | Some s \<Rightarrow> q_actions s)"

lemma quarantine_step_actions:
  "manager_ok m \<Longrightarrow> \<exists>new. session_actions q (quarantine_step m op) = session_actions q m @ new"
proof (cases op)
  case (Act i now agent a target payload)
  assume "manager_ok m"
  from intercept_cases [OF this, of agent i now a target payload] show ?thesis
    by (auto simp: Act session_actions_def)
qed (auto simp: session_actions_def quarantine_def put_session_def release_def escalate_session_def
    add_note_def active_session_def Let_def split: sum.splits option.splits)

interpretation quarantine: logged_machine quarantine_step manager_ok "session_actions q" for q
  by unfold_locales (auto intro: quarantine_step_ok quarantine_step_actions)

lemma new_manager_ok: "manager_ok new_manager"
  by (simp add: manager_ok_def new_manager_def)


section \<open>Properties\<close>

abbreviation quarantine_run :: "quarantine_op list \<Rightarrow> quarantine_manager" where
  "quarantine_run ops \<equiv> foldl quarantine_step new_manager ops"

lemmas quarantine_run_ok = quarantine.inv_run [OF new_manager_ok]

text \<open>
  After any operations an agent is in the index exactly with its active session, so an agent has at
  most one, and no session holds more than 10000 captured actions.
\<close>

theorem quarantine_index_exact:
  "(dict_get (agent_index (quarantine_run ops)) agent = Some q \<longleftrightarrow>
     (\<exists>s. dict_get (sessions (quarantine_run ops)) q = Some s \<and> q_state s = QActive \<and>
        q_agent (q_config s) = agent)) \<and>
   length (session_actions q (quarantine_run ops)) \<le> 10000"
  using quarantine_run_ok [of ops]
  by (auto simp: manager_ok_def session_actions_def action_count_def MAX_CAPTURED_ACTIONS_def
      split: option.splits)

text \<open>
  C21: An action of an agent with an active session gets the answer of the session's mode, which outside
  observe mode never lets it through. It is appended to the captured actions of the session while those
  are fewer than 10000, and not recorded after that; no other session changes.
\<close>

theorem quarantined_action_contained:
  assumes "dict_get (sessions (quarantine_run ops)) q = Some s" and "q_state s = QActive"
  shows "fst (intercept i now (q_agent (q_config s)) a target payload (quarantine_run ops)) =
      disposition_for (q_mode (q_config s)) a \<and>
    (fst (disposition_for (q_mode (q_config s)) a) = DAllowed \<longleftrightarrow> q_mode (q_config s) = Observe) \<and>
    session_actions q' (snd (intercept i now (q_agent (q_config s)) a target payload (quarantine_run ops))) =
      session_actions q' (quarantine_run ops) @
        (if q' = q \<and> length (q_actions s) < 10000
         then [capture i now (q_agent (q_config s)) a target payload s] else [])"
proof -
  let ?m = "quarantine_run ops"
  have "dict_get (agent_index ?m) (q_agent (q_config s)) = Some q"
    using quarantine_run_ok [of ops] assms unfolding manager_ok_def by blast
  then show ?thesis
    using assms
    by (cases "q_mode (q_config s)")
      (auto simp: intercept_def disposition_for_def session_actions_def action_count_def
        MAX_CAPTURED_ACTIONS_def)
qed

definition demo_config :: quarantine_config where
  "demo_config = \<lparr>quarantine_id = ''q'', q_tenant = ''t'', q_agent = ''a'', sandbox_id = ''s'',
     q_mode = BlockMode, q_reason = [], triggered_by = [], max_duration_s = 60\<rparr>"

definition demo_quarantine :: "quarantine_op list" where
  "demo_quarantine = [Quarantine ''now'' demo_config]"

lemmas demo_quarantine_defs = demo_quarantine_def demo_config_def check_config_def quarantine_def
  put_session_def new_manager_def MAX_QUARANTINE_DURATION_S_def Let_def

lemma quarantined_action_contained_witness:
  "fst (intercept ''1'' ''now'' ''a'' FileWrite ''/etc/passwd'' ''x'' (quarantine_run demo_quarantine)) =
     (DBlocked, None)"
proof -
  let ?s = "\<lparr>q_config = demo_config, q_state = QActive, q_started = ''now'', q_actions = [], q_ended = None,
    release_reason = None, analyst_notes = []\<rparr>"
  have "dict_get (sessions (quarantine_run demo_quarantine)) ''q'' = Some ?s"
    by (simp add: demo_quarantine_defs)
  from quarantined_action_contained [OF this, of "''1''" "''now''" FileWrite "''/etc/passwd''" "''x''"]
  show ?thesis by (simp add: demo_config_def disposition_for_def)
qed

text \<open>
  Escalating a session to the security team lifts the quarantine: every later action of the agent is
  let through and none is captured, in whatever mode the session was.
\<close>

theorem escalated_agent_unrestricted:
  assumes "escalate_session now q msg (quarantine_run ops) = Inr (s, m')"
  shows "intercept i now' (q_agent (q_config s)) a target payload m' = ((DAllowed, None), m')"
  using assms
  by (auto simp: escalate_session_def active_session_cases intercept_def Let_def split: sum.splits)

lemma escalated_agent_unrestricted_witness:
  "\<exists>s m'. escalate_session ''later'' ''q'' ''look'' (quarantine_run demo_quarantine) = Inr (s, m') \<and>
     intercept ''1'' ''now'' ''a'' FileWrite ''/etc/passwd'' ''x'' m' = ((DAllowed, None), m')"
proof -
  obtain s m' where e: "escalate_session ''later'' ''q'' ''look'' (quarantine_run demo_quarantine) = Inr (s, m')"
    and a: "q_agent (q_config s) = ''a''"
    by (simp add: demo_quarantine_defs escalate_session_def active_session_def)
  show ?thesis
    using escalated_agent_unrestricted [OF e, of "''1''" "''now''" FileWrite "''/etc/passwd''" "''x''"] a e by auto
qed

text \<open>
  A captured action stays where it is: no later operation removes, reorders or changes the captured
  actions of any session.
\<close>

theorem captured_actions_kept:
  "\<exists>new. session_actions q (quarantine_run (ops @ later)) = session_actions q (quarantine_run ops) @ new"
  using quarantine.log_run [OF quarantine_run_ok, where cs = later] by (simp add: foldl_append)

end
