(* ===== verification/Ip_Address.thy ===== *)
theory Ip_Address
  imports Py_Values "HOL-Library.Word"
begin

text \<open>
  What the permission checks use of Python's \<open>ipaddress\<close> module, and \<open>backend/app/middleware/abac.py\<close>:
  addresses and networks of both versions from their text, membership, the ranges that count as
  trusted proxies, and the address a request is attributed to.
\<close>

unbundle bit_operations_syntax

section \<open>Addresses\<close>

datatype ip_address = V4 "32 word" | V6 "128 word"

definition all_some :: "'a option list \<Rightarrow> 'a list option" where
  "all_some xs = (if None \<in> set xs then None else Some (map the xs))"

text \<open>Decimal octets without leading zeros.\<close>

definition parse_octet :: "string \<Rightarrow> nat option" where
  "parse_octet s =
     (if s = [] \<or> \<not> list_all is_ascii_digit s \<or> 3 < length s \<or> (s \<noteq> ''0'' \<and> hd s = CHR ''0'') \<or>
         255 < digits_value s
      then None else Some (digits_value s))"

definition from_digits :: "nat \<Rightarrow> nat list \<Rightarrow> nat" where
  "from_digits base ds = foldl (\<lambda>n d. base * n + d) 0 ds"

definition parse_v4 :: "string \<Rightarrow> 32 word option" where
  "parse_v4 s =
     (let parts = split_on (CHR ''.'') s
      in if length parts \<noteq> 4 then None
         else map_option (\<lambda>ds. word_of_nat (from_digits 256 ds)) (all_some (map parse_octet parts)))"

definition hex_digit :: "char \<Rightarrow> nat option" where
  "hex_digit c =
     (if 48 \<le> code c \<and> code c \<le> 57 then Some (code c - 48)
      else if 65 \<le> code c \<and> code c \<le> 70 then Some (code c - 55)
      else if 97 \<le> code c \<and> code c \<le> 102 then Some (code c - 87)
      else None)"

definition parse_hextet :: "string \<Rightarrow> nat option" where
  "parse_hextet s =
     (if s = [] \<or> 4 < length s then None
      else map_option (from_digits 16) (all_some (map hex_digit s)))"

text \<open>
  The groups of an IPv6 address as numbers or none for an empty group; a dotted IPv4 suffix counts as two
  groups.
\<close>

definition v6_groups :: "string \<Rightarrow> (nat option) list option" where
  "v6_groups s =
     (let parts = split_on (CHR '':'') s;
          group = (\<lambda>p. if p = [] then Some None else map_option Some (parse_hextet p))
      in if length parts < 3 then None
         else if CHR ''.'' \<in> set (last parts) then
           (case parse_v4 (last parts) of
              None \<Rightarrow> None
            | Some w \<Rightarrow> map_option (\<lambda>gs. gs @ [Some (unat w div 65536), Some (unat w mod 65536)])
                (all_some (map group (butlast parts))))
         else all_some (map group parts))"

text \<open>
  One empty group inside stands for the zeros left out; an empty first or last group is only allowed
  next to it.
\<close>

definition v6_number :: "(nat option) list \<Rightarrow> nat option" where
  "v6_number gs =
     (if 9 < length gs then None else
      case filter (\<lambda>i. gs ! i = None) [1..<length gs - 1] of
        [] \<Rightarrow> (if length gs \<noteq> 8 then None else map_option (from_digits 65536) (all_some gs))
      | [skip] \<Rightarrow>
          (let hi = (if hd gs = None then skip - 1 else skip);
               lo = (if last gs = None then length gs - skip - 2 else length gs - skip - 1)
           in if (hd gs = None \<and> hi \<noteq> 0) \<or> (last gs = None \<and> lo \<noteq> 0) \<or> 7 < hi + lo then None
              else map_option (from_digits 65536)
                (all_some (take hi gs @ replicate (8 - (hi + lo)) (Some 0) @
                  (if lo = 0 then [] else drop (skip + 1) gs))))
      | _ \<Rightarrow> None)"

text \<open>The text before a scope identifier, which must not be empty.\<close>

definition split_scope :: "string \<Rightarrow> string option" where
  "split_scope s =
     (case split_on (CHR ''%'') s of
        [a] \<Rightarrow> Some a
      | [a, scope] \<Rightarrow> if scope = [] then None else Some a
      | _ \<Rightarrow> None)"

definition parse_v6 :: "string \<Rightarrow> 128 word option" where
  "parse_v6 s =
     (case split_scope s of
        None \<Rightarrow> None
      | Some a \<Rightarrow>
          (case v6_groups a of
             None \<Rightarrow> None
           | Some gs \<Rightarrow> map_option word_of_nat (v6_number gs)))"

text \<open>\<open>ip_address(s)\<close>, with \<open>None\<close> for the \<open>ValueError\<close>.\<close>

definition parse_ip :: "string \<Rightarrow> ip_address option" where
  "parse_ip s =
     (if CHR ''/'' \<in> set s then None
      else case parse_v4 s of
        Some w \<Rightarrow> Some (V4 w)
      | None \<Rightarrow> map_option V6 (parse_v6 s))"

section \<open>Networks\<close>

datatype ip_network = N4 "32 word" nat | N6 "128 word" nat

definition netmask :: "nat \<Rightarrow> 'a::len word" where
  "netmask p = push_bit (LENGTH('a) - p) (- 1)"

definition parse_prefix :: "nat \<Rightarrow> string \<Rightarrow> nat option" where
  "parse_prefix width s =
     (if s = [] \<or> \<not> list_all is_ascii_digit s \<or> width < digits_value s then None
      else Some (digits_value s))"

text \<open>An IPv4 mask may also be written as an address, a netmask or a hostmask.\<close>

definition mask_prefix :: "32 word \<Rightarrow> nat option" where
  "mask_prefix w = find (\<lambda>p. netmask p = w) [0..<33]"

definition parse_mask4 :: "string \<Rightarrow> nat option" where
  "parse_mask4 s =
     (case parse_prefix 32 s of
        Some p \<Rightarrow> Some p
      | None \<Rightarrow>
          (case parse_v4 s of
             None \<Rightarrow> None
           | Some w \<Rightarrow> (case mask_prefix w of Some p \<Rightarrow> Some p | None \<Rightarrow> mask_prefix (NOT w))))"

definition network4 :: "string \<Rightarrow> nat option \<Rightarrow> ip_network option" where
  "network4 a p =
     (case (parse_v4 a, p) of (Some w, Some n) \<Rightarrow> Some (N4 (w AND netmask n) n) | _ \<Rightarrow> None)"

definition network6 :: "string \<Rightarrow> nat option \<Rightarrow> ip_network option" where
  "network6 a p =
     (case (parse_v6 a, p) of (Some w, Some n) \<Rightarrow> Some (N6 (w AND netmask n) n) | _ \<Rightarrow> None)"

text \<open>\<open>ip_network(s, strict=False)\<close>\<close>

definition parse_network :: "string \<Rightarrow> ip_network option" where
  "parse_network s =
     (case split_on (CHR ''/'') s of
        [a] \<Rightarrow> (case network4 a (Some 32) of Some n \<Rightarrow> Some n | None \<Rightarrow> network6 a (Some 128))
      | [a, m] \<Rightarrow>
          (case network4 a (parse_mask4 m) of
             Some n \<Rightarrow> Some n | None \<Rightarrow> network6 a (parse_prefix 128 m))
      | _ \<Rightarrow> None)"

fun in_network :: "ip_address \<Rightarrow> ip_network \<Rightarrow> bool" where
  "in_network (V4 w) (N4 n p) = (w AND netmask p = n)"
| "in_network (V6 w) (N6 n p) = (w AND netmask p = n)"
| "in_network _ _ = False"

text \<open>Membership compares the leading bits, that is the quotient by the size of the network.\<close>

lemma netmask_eq_iff:
  "(w :: 'a::len word) AND netmask p = v AND netmask p \<longleftrightarrow>
   drop_bit (LENGTH('a) - p) w = drop_bit (LENGTH('a) - p) v"
proof -
  have "(w AND netmask p = v AND netmask p) \<longleftrightarrow>
      (\<forall>n < LENGTH('a). LENGTH('a) - p \<le> n \<longrightarrow> bit w n = bit v n)"
    by (auto simp: bit_eq_iff netmask_def bit_simps)
  also have "\<dots> \<longleftrightarrow> drop_bit (LENGTH('a) - p) w = drop_bit (LENGTH('a) - p) v"
  proof
    assume a: "\<forall>n < LENGTH('a). LENGTH('a) - p \<le> n \<longrightarrow> bit w n = bit v n"
    show "drop_bit (LENGTH('a) - p) w = drop_bit (LENGTH('a) - p) v"
    proof (rule bit_word_eqI)
      fix n
      assume "n < LENGTH('a)"
      show "bit (drop_bit (LENGTH('a) - p) w) n = bit (drop_bit (LENGTH('a) - p) v) n"
      proof (cases "LENGTH('a) - p + n < LENGTH('a)")
        case True
        with a show ?thesis by (simp add: bit_drop_bit_eq)
      next
        case False
        then show ?thesis by (simp add: bit_drop_bit_eq) (metis bit_imp_le_length not_less)
      qed
    qed
  next
    assume "drop_bit (LENGTH('a) - p) w = drop_bit (LENGTH('a) - p) v"
    then have "bit w (LENGTH('a) - p + n) = bit v (LENGTH('a) - p + n)" for n
      by (metis bit_drop_bit_eq o_apply)
    then show "\<forall>n < LENGTH('a). LENGTH('a) - p \<le> n \<longrightarrow> bit w n = bit v n"
      by (metis le_add_diff_inverse)
  qed
  finally show ?thesis .
qed

lemma netmask_div:
  "(w :: 'a::len word) AND netmask p = v AND netmask p \<longleftrightarrow>
   unat w div 2 ^ (LENGTH('a) - p) = unat v div 2 ^ (LENGTH('a) - p)"
  unfolding netmask_eq_iff by (simp only: word_unat_eq_iff unat_drop_bit_eq) (simp only: drop_bit_eq_div)

section \<open>Trusted proxies and the client of a request\<close>

definition TRUSTED_PROXIES :: "string list" where
  "TRUSTED_PROXIES = [''127.0.0.1'', ''::1'', ''172.16.0.0/12'', ''10.0.0.0/8'', ''192.168.0.0/16'']"

definition is_trusted_proxy :: "string \<Rightarrow> bool" where
  "is_trusted_proxy ip =
     (case parse_ip ip of
        None \<Rightarrow> False
      | Some addr \<Rightarrow>
          ip \<in> set TRUSTED_PROXIES \<or>
          list_ex (\<lambda>net. CHR ''/'' \<in> set net \<and>
              (case parse_network net of None \<Rightarrow> False | Some n \<Rightarrow> in_network addr n)) TRUSTED_PROXIES)"

definition get_client_ip :: "string option \<Rightarrow> string option \<Rightarrow> string" where
  "get_client_ip peer forwarded =
     (case (peer, forwarded) of
        (Some p, Some f) \<Rightarrow>
          if p \<noteq> [] \<and> is_trusted_proxy p \<and> f \<noteq> [] then py_strip (hd (split_on (CHR '','') f))
          else if p = [] then ''0.0.0.0'' else p
      | (Some p, None) \<Rightarrow> if p = [] then ''0.0.0.0'' else p
      | (None, _) \<Rightarrow> ''0.0.0.0'')"

end
