(* ===== verification/Abac.thy ===== *)
theory Abac
  imports Ip_Address
begin

text \<open>
  \<open>backend/app/services/abac_service.py\<close> and the role routes of \<open>backend/app/routers/roles.py\<close>: the
  permissions of a user from the role tables, the fallback to the legacy role, the per-process cache, the
  conditions on grants, and the operations on roles. The tables are lists of rows in the order they were
  inserted; the clock is an argument. An exception that no caller turns into a status is \<open>Internal\<close>.
\<close>

section \<open>Tables and state\<close>

record role_row =
  role_id :: string
  role_tenant :: string
  role_name :: string
  role_description :: string
  is_builtin :: bool
  role_policy :: "(string, pval) dict"

record grant_row =
  grant_role :: string
  grant_permission :: string
  grant_conditions :: "(string, pval) dict"

record user_role_row =
  ur_user :: string
  ur_role :: string
  ur_deleted :: "rat option"

record permission_row =
  permission_id :: string
  resource :: string
  perm_action :: string

record abac_state =
  users :: "(string, string) dict"
  permissions :: "permission_row list"
  roles :: "role_row list"
  grants :: "grant_row list"
  user_roles :: "user_role_row list"
  permission_cache :: "(string, rat \<times> string set) dict"

record abac_env =
  unix_time :: rat
  hhmm :: string
  new_role_id :: string

datatype abac_error = Status nat | Internal

section \<open>Cache\<close>

definition CACHE_TTL_SECONDS :: rat where
  "CACHE_TTL_SECONDS = 15"

definition cache_get :: "abac_env \<Rightarrow> string \<Rightarrow> abac_state \<Rightarrow> string set option \<times> abac_state" where
  "cache_get w user st =
     (case dict_get (permission_cache st) user of
        None \<Rightarrow> (None, st)
      | Some (at_time, perms) \<Rightarrow>
          if CACHE_TTL_SECONDS < unix_time w - at_time
          then (None, st\<lparr>permission_cache := dict_del user (permission_cache st)\<rparr>)
          else (Some perms, st))"

definition cache_set :: "abac_env \<Rightarrow> string \<Rightarrow> string set \<Rightarrow> abac_state \<Rightarrow> abac_state" where
  "cache_set w user perms st =
     st\<lparr>permission_cache := dict_set user (unix_time w, perms) (permission_cache st)\<rparr>"

definition invalidate_user_cache :: "string \<Rightarrow> abac_state \<Rightarrow> abac_state" where
  "invalidate_user_cache user st = st\<lparr>permission_cache := dict_del user (permission_cache st)\<rparr>"

definition invalidate_role_cache :: "abac_state \<Rightarrow> abac_state" where
  "invalidate_role_cache st = st\<lparr>permission_cache := []\<rparr>"

section \<open>Permissions\<close>

definition viewer_permissions :: "string set" where
  "viewer_permissions = {''agents.read'', ''alerts.read'', ''rules.read'', ''events.read'', ''dashboard.view'',
     ''analytics.view'', ''timeline.read'', ''trust.read'', ''policies.read'', ''telemetry.read'',
     ''ws.subscribe''}"

definition analyst_permissions :: "string set" where
  "analyst_permissions = {''agents.read'', ''agents.write'', ''alerts.read'', ''alerts.acknowledge'',
     ''alerts.execute_action'', ''rules.read'', ''rules.write'', ''events.read'', ''dashboard.view'',
     ''analytics.view'', ''investigation.run'', ''timeline.read'', ''ml.view'', ''trust.read'',
     ''trust.compute'', ''policies.read'', ''exports.generate'', ''telemetry.read'',
     ''agent_policy.manage'', ''ws.subscribe'', ''notifications.manage'', ''copilot.use'', ''drift.read''}"

definition admin_permissions :: "string set" where
  "admin_permissions = {''agents.read'', ''agents.write'', ''agents.delete'', ''alerts.read'',
     ''alerts.acknowledge'', ''alerts.delete'', ''alerts.execute_action'', ''rules.read'', ''rules.write'',
     ''rules.delete'', ''events.read'', ''dashboard.view'', ''analytics.view'', ''investigation.run'',
     ''timeline.read'', ''ml.view'', ''ml.manage'', ''trust.read'', ''trust.compute'', ''policies.read'',
     ''policies.write'', ''users.read'', ''users.manage'', ''integrations.manage'',
     ''notifications.manage'', ''exports.generate'', ''telemetry.read'', ''cloud_telemetry.manage'',
     ''agent_policy.manage'', ''ws.subscribe'', ''auth.manage'', ''tenants.read'', ''tenants.manage'',
     ''copilot.use'', ''drift.read''}"

definition legacy_role_permissions :: "string \<Rightarrow> string set option" where
  "legacy_role_permissions role =
     (if role = ''admin'' then Some admin_permissions
      else if role = ''analyst'' then Some analyst_permissions
      else if role = ''viewer'' then Some viewer_permissions
      else None)"

definition permission_name :: "permission_row \<Rightarrow> string" where
  "permission_name p = resource p @ CHR ''.'' # perm_action p"

text \<open>
  The join of permissions, grants, roles and user roles for one user: the rows of a user's roles are not
  tested for \<open>deleted_at\<close>.
\<close>

definition user_grants :: "string \<Rightarrow> abac_state \<Rightarrow> (permission_row \<times> grant_row) list" where
  "user_grants user st =
     [(p, g). ur \<leftarrow> user_roles st, ur_user ur = user, r \<leftarrow> roles st, role_id r = ur_role ur,
        g \<leftarrow> grants st, grant_role g = role_id r, p \<leftarrow> permissions st, permission_id p = grant_permission g]"

definition get_user_permissions :: "abac_env \<Rightarrow> string \<Rightarrow> string option \<Rightarrow> abac_state \<Rightarrow>
    string set \<times> abac_state" where
  "get_user_permissions w user legacy st =
     (case cache_get w user st of
        (Some perms, st1) \<Rightarrow> (perms, st1)
      | (None, st1) \<Rightarrow>
          let rows = map (permission_name \<circ> fst) (user_grants user st1);
              perms = (if rows \<noteq> [] then set rows
                       else if list_ex (\<lambda>ur. ur_user ur = user) (user_roles st1) then {}
                       else case legacy of
                         None \<Rightarrow> {}
                       | Some role \<Rightarrow>
                           (case legacy_role_permissions role of None \<Rightarrow> {} | Some ps \<Rightarrow> ps))
          in (perms, cache_set w user perms st1))"

section \<open>Conditions\<close>

text \<open>\<open>key in v\<close> and \<open>v[key]\<close> for a text key, \<open>None\<close> for the exception.\<close>

fun has_key :: "string \<Rightarrow> pval \<Rightarrow> bool option" where
  "has_key k (VDict d) = Some (dict_get d k \<noteq> None)"
| "has_key k (VStr s) = Some (is_substring k s)"
| "has_key k (VList xs) = Some (py_in_list (VStr k) xs)"
| "has_key k v = None"

fun item :: "string \<Rightarrow> pval \<Rightarrow> pval option" where
  "item k (VDict d) = dict_get d k"
| "item k v = None"

definition and_if :: "bool option \<Rightarrow> bool option \<Rightarrow> bool option" where
  "and_if c d = (case c of None \<Rightarrow> None | Some False \<Rightarrow> Some False | Some True \<Rightarrow> d)"

text \<open>One bound of a time range: passed when absent, and compared with the time as text.\<close>

definition bound_ok :: "string \<Rightarrow> (pval \<Rightarrow> bool option) \<Rightarrow> pval \<Rightarrow> bool option" where
  "bound_ok k violated tr =
     (case has_key k tr of
        None \<Rightarrow> None
      | Some False \<Rightarrow> Some True
      | Some True \<Rightarrow>
          (case item k tr of None \<Rightarrow> None | Some v \<Rightarrow> map_option Not (violated v)))"

definition time_range_ok :: "string \<Rightarrow> pval \<Rightarrow> bool option" where
  "time_range_ok now tr =
     and_if (bound_ok ''after'' (\<lambda>v. py_lt (VStr now) v) tr)
       (bound_ok ''before'' (\<lambda>v. py_lt v (VStr now)) tr)"

text \<open>\<open>ip_address(v)\<close> and \<open>ip_network(v, strict=False)\<close> of a value: texts and integers, booleans included.\<close>

fun integer_of :: "pval \<Rightarrow> int option" where
  "integer_of (VNum (NInt i)) = Some i"
| "integer_of (VBool b) = Some (if b then 1 else 0)"
| "integer_of v = None"

definition address_of_int :: "int \<Rightarrow> ip_address option" where
  "address_of_int i =
     (if 0 \<le> i \<and> i < 2 ^ 32 then Some (V4 (word_of_int i))
      else if 0 \<le> i \<and> i < 2 ^ 128 then Some (V6 (word_of_int i)) else None)"

definition address_of :: "pval \<Rightarrow> ip_address option" where
  "address_of v =
     (case v of VStr s \<Rightarrow> parse_ip s | _ \<Rightarrow> Option.bind (integer_of v) address_of_int)"

fun single_network :: "ip_address \<Rightarrow> ip_network" where
  "single_network (V4 w) = N4 w 32"
| "single_network (V6 w) = N6 w 128"

definition network_of :: "pval \<Rightarrow> ip_network option" where
  "network_of v =
     (case v of VStr s \<Rightarrow> parse_network s
      | _ \<Rightarrow> map_option single_network (Option.bind (integer_of v) address_of_int))"

text \<open>
  The networks of the condition are read until one contains the address; one that is no network before
  that denies, like an address that is none.
\<close>

fun in_any_network :: "ip_address \<Rightarrow> pval list \<Rightarrow> bool" where
  "in_any_network ip [] = False"
| "in_any_network ip (v # nets) =
     (case network_of v of None \<Rightarrow> False | Some n \<Rightarrow> in_network ip n \<or> in_any_network ip nets)"

fun iterate :: "pval \<Rightarrow> pval list option" where
  "iterate (VList xs) = Some xs"
| "iterate (VStr s) = Some (map (\<lambda>c. VStr [c]) s)"
| "iterate (VDict d) = Some (map (VStr \<circ> fst) d)"
| "iterate v = None"

fun get_field :: "string \<Rightarrow> pval \<Rightarrow> pval \<Rightarrow> pval option" where
  "get_field k other (VDict d) = Some (dict_get_or d k other)"
| "get_field k other v = None"

definition ip_range_ok :: "pval \<Rightarrow> (string, pval) dict \<Rightarrow> bool option" where
  "ip_range_ok rng context =
     (let ip = dict_get_or context ''client_ip'' VNone
      in if \<not> truthy ip then Some True
         else case get_field ''allowed'' (VList []) rng of
           None \<Rightarrow> None
         | Some allowed \<Rightarrow>
             (case address_of ip of
                None \<Rightarrow> Some False
              | Some addr \<Rightarrow> map_option (in_any_network addr) (iterate allowed)))"

definition resource_tags_ok :: "pval \<Rightarrow> (string, pval) dict \<Rightarrow> bool option" where
  "resource_tags_ok cond context =
     (case (get_field ''required_tags'' (VDict []) cond, dict_get_or context ''resource_tags'' (VDict [])) of
        (Some (VDict required), VDict tags) \<Rightarrow>
          Some (list_all (\<lambda>(k, v). py_eq (dict_get_or tags k VNone) v) required)
      | (Some (VDict []), _) \<Rightarrow> Some True
      | _ \<Rightarrow> None)"

definition when_present :: "string \<Rightarrow> (pval \<Rightarrow> bool option) \<Rightarrow> (string, pval) dict \<Rightarrow> bool option" where
  "when_present k f d = (case dict_get d k of None \<Rightarrow> Some True | Some v \<Rightarrow> f v)"

definition check_condition_set :: "abac_env \<Rightarrow> (string, pval) dict \<Rightarrow> (string, pval) dict \<Rightarrow> bool option" where
  "check_condition_set w conditions context =
     (if conditions = [] then Some True
      else and_if (when_present ''time_range'' (time_range_ok (hhmm w)) conditions)
        (and_if (when_present ''ip_range'' (\<lambda>v. ip_range_ok v context) conditions)
          (when_present ''resource_tags'' (\<lambda>v. resource_tags_ok v context) conditions)))"

text \<open>\<open>any\<close> over checks that may raise: the first that passes decides, unless one raises before it.\<close>

fun any_check :: "bool option list \<Rightarrow> bool option" where
  "any_check [] = Some False"
| "any_check (None # cs) = None"
| "any_check (Some True # cs) = Some True"
| "any_check (Some False # cs) = any_check cs"

text \<open>The text before the first dot of a permission and the text after it.\<close>

definition split_permission :: "string \<Rightarrow> (string \<times> string) option" where
  "split_permission s =
     (if CHR ''.'' \<in> set s
      then Some (takeWhile (\<lambda>c. c \<noteq> CHR ''.'') s, tl (dropWhile (\<lambda>c. c \<noteq> CHR ''.'') s)) else None)"

definition evaluate_conditions :: "abac_env \<Rightarrow> string \<Rightarrow> string \<Rightarrow> (string, pval) dict \<Rightarrow> abac_state \<Rightarrow>
    bool option" where
  "evaluate_conditions w user permission context st =
     (case split_permission permission of
        None \<Rightarrow> None
      | Some (res, act) \<Rightarrow>
          let rows = map (grant_conditions \<circ> snd)
                       (filter (\<lambda>(p, g). resource p = res \<and> perm_action p = act) (user_grants user st))
          in if rows = [] \<or> [] \<in> set rows then Some True
             else any_check (map (\<lambda>c. check_condition_set w c context) rows))"

definition check_permission :: "abac_env \<Rightarrow> string \<Rightarrow> string \<Rightarrow> string option \<Rightarrow> (string, pval) dict \<Rightarrow>
    abac_state \<Rightarrow> bool option \<times> abac_state" where
  "check_permission w user required legacy context st =
     (case get_user_permissions w user legacy st of
        (perms, st1) \<Rightarrow>
          (if required \<notin> perms then Some False
           else if context \<noteq> [] then evaluate_conditions w user required context st1
           else Some True, st1))"

text \<open>The context the route dependency builds; the user needs any one of the permissions.\<close>

definition request_context :: "string option \<Rightarrow> string option \<Rightarrow> string \<Rightarrow> string \<Rightarrow> (string, pval) dict" where
  "request_context peer forwarded meth path =
     [(''client_ip'', VStr (get_client_ip peer forwarded)), (''method'', VStr meth), (''path'', VStr path)]"

fun require_permission :: "abac_env \<Rightarrow> string \<Rightarrow> string option \<Rightarrow> (string, pval) dict \<Rightarrow> string list \<Rightarrow>
    abac_state \<Rightarrow> (abac_error + unit) \<times> abac_state" where
  "require_permission w user role context [] st = (Inl (Status 403), st)"
| "require_permission w user role context (p # ps) st =
     (case check_permission w user p role context st of
        (None, st1) \<Rightarrow> (Inl Internal, st1)
      | (Some True, st1) \<Rightarrow> (Inr (), st1)
      | (Some False, st1) \<Rightarrow> require_permission w user role context ps st1)"

section \<open>Operations on roles\<close>

text \<open>
  A flush raises when it breaks a key: a second role of the tenant with the name, a permission that does
  not exist or is given twice, a role the user already has. Nothing is committed then.
\<close>

definition create_role :: "abac_env \<Rightarrow> string \<Rightarrow> string \<Rightarrow> string \<Rightarrow> string list \<Rightarrow> (string, pval) dict \<Rightarrow>
    abac_state \<Rightarrow> abac_error + abac_state" where
  "create_role w tenant name description permission_ids policy st =
     (if list_ex (\<lambda>r. role_tenant r = tenant \<and> role_name r = name) (roles st) then Inl (Status 409)
      else if \<not> set permission_ids \<subseteq> permission_id ` set (permissions st) \<or> \<not> distinct permission_ids
        then Inl (Status 409)
      else Inr (invalidate_role_cache
        (st\<lparr>roles := roles st @ [\<lparr>role_id = new_role_id w, role_tenant = tenant, role_name = name,
              role_description = description, is_builtin = False, role_policy = policy\<rparr>],
            grants := grants st @ map (\<lambda>p. \<lparr>grant_role = new_role_id w, grant_permission = p,
              grant_conditions = []\<rparr>) permission_ids\<rparr>)))"

definition find_role :: "string \<Rightarrow> string \<Rightarrow> abac_state \<Rightarrow> role_row option" where
  "find_role tenant i st = find (\<lambda>r. role_id r = i \<and> role_tenant r = tenant) (roles st)"

definition given_text :: "string option \<Rightarrow> bool" where
  "given_text s \<longleftrightarrow> (case s of None \<Rightarrow> False | Some t \<Rightarrow> t \<noteq> [])"

definition updated_role :: "string option \<Rightarrow> string option \<Rightarrow> (string, pval) dict option \<Rightarrow> role_row \<Rightarrow> role_row" where
  "updated_role name description policy r =
     r\<lparr>role_name := (if given_text name then the name else role_name r),
       role_description := (case description of None \<Rightarrow> role_description r | Some d \<Rightarrow> d),
       role_policy := (case policy of None \<Rightarrow> role_policy r | Some p \<Rightarrow> p)\<rparr>"

text \<open>
  Replacing the permissions reads \<open>RolePermission.deleted_at\<close>, an attribute the mapped class does not
  have: the request ends with an exception before anything is written.
\<close>

definition update_role :: "string \<Rightarrow> string \<Rightarrow> string option \<Rightarrow> string option \<Rightarrow> (string, pval) dict option \<Rightarrow>
    string list option \<Rightarrow> abac_state \<Rightarrow> abac_error + abac_state" where
  "update_role tenant i name description policy permission_ids st =
     (case find_role tenant i st of
        None \<Rightarrow> Inl (Status 404)
      | Some r \<Rightarrow>
          if is_builtin r \<and> given_text name \<and> name \<noteq> Some (role_name r) then Inl (Status 400)
          else if permission_ids \<noteq> None then Inl Internal
          else
            let r' = updated_role name description policy r
            in if list_ex (\<lambda>q. q \<noteq> r \<and> role_tenant q = tenant \<and> role_name q = role_name r') (roles st)
               then Inl Internal
               else Inr (invalidate_role_cache
                 (st\<lparr>roles := map (\<lambda>q. if q = r then r' else q) (roles st)\<rparr>)))"

text \<open>Deleting sets \<open>deleted_at\<close> on an object whose class has no such column: no row changes.\<close>

definition delete_role :: "string \<Rightarrow> string \<Rightarrow> abac_state \<Rightarrow> abac_error + abac_state" where
  "delete_role tenant i st =
     (case find_role tenant i st of
        None \<Rightarrow> Inl (Status 404)
      | Some r \<Rightarrow> if is_builtin r then Inl (Status 400) else Inr (invalidate_role_cache st))"

definition assign_role_to_user :: "string \<Rightarrow> string \<Rightarrow> abac_state \<Rightarrow> abac_error + abac_state" where
  "assign_role_to_user user role st =
     (if list_ex (\<lambda>ur. ur_user ur = user \<and> ur_role ur = role) (user_roles st) then Inl (Status 409)
      else Inr (invalidate_user_cache user
        (st\<lparr>user_roles := user_roles st @ [\<lparr>ur_user = user, ur_role = role, ur_deleted = None\<rparr>]\<rparr>)))"

definition remove_role_from_user :: "abac_env \<Rightarrow> string \<Rightarrow> string \<Rightarrow> abac_state \<Rightarrow> abac_state" where
  "remove_role_from_user w user role st =
     invalidate_user_cache user
       (st\<lparr>user_roles := map (\<lambda>ur. if ur_user ur = user \<and> ur_role ur = role \<and> ur_deleted ur = None
                                   then ur\<lparr>ur_deleted := Some (unix_time w)\<rparr> else ur) (user_roles st)\<rparr>)"

text \<open>The routes check that the user and the role are of the caller's tenant.\<close>

definition assign_user_role :: "string \<Rightarrow> string \<Rightarrow> string \<Rightarrow> abac_state \<Rightarrow> abac_error + abac_state" where
  "assign_user_role tenant user role st =
     (if dict_get (users st) user \<noteq> Some tenant then Inl (Status 404)
      else if find_role tenant role st = None then Inl (Status 404)
      else assign_role_to_user user role st)"

definition remove_user_role :: "abac_env \<Rightarrow> string \<Rightarrow> string \<Rightarrow> string \<Rightarrow> abac_state \<Rightarrow> abac_error + abac_state" where
  "remove_user_role w tenant user role st =
     (if dict_get (users st) user \<noteq> Some tenant then Inl (Status 404)
      else Inr (remove_role_from_user w user role st))"

definition list_roles :: "string \<Rightarrow> abac_state \<Rightarrow> role_row list" where
  "list_roles tenant st = filter (\<lambda>r. role_tenant r = tenant) (roles st)"

definition get_user_roles :: "string \<Rightarrow> abac_state \<Rightarrow> role_row list" where
  "get_user_roles user st =
     [r. ur \<leftarrow> user_roles st, ur_user ur = user, r \<leftarrow> roles st, role_id r = ur_role ur]"

end
