(* ===== verification/Abac_Props.thy ===== *)
theory Abac_Props
  imports Abac
begin

text \<open>
  What the permission checks guarantee: in one process the cache always agrees with the tables, and a
  network condition on every grant is enforced against the address of the request. And what they do
  not: no operation takes a permission away, and a request through a trusted proxy chooses its address.
\<close>

section \<open>Operations\<close>

datatype abac_op =
  Check abac_env string string "string option" "(string, pval) dict"
| CreateRole abac_env string string string "string list" "(string, pval) dict"
| UpdateRole string string "string option" "string option" "(string, pval) dict option" "string list option"
| DeleteRole string string
| AssignRole string string string
| RemoveRole abac_env string string string

definition or_unchanged :: "'s \<Rightarrow> 'e + 's \<Rightarrow> 's" where
  "or_unchanged s r = (case r of Inl _ \<Rightarrow> s | Inr s' \<Rightarrow> s')"

lemma or_unchanged_simps [simp]: "or_unchanged s (Inl e) = s" "or_unchanged s (Inr s') = s'"
  by (simp_all add: or_unchanged_def)

fun abac_step :: "abac_state \<Rightarrow> abac_op \<Rightarrow> abac_state" where
  "abac_step st (Check w user perm legacy context) = snd (check_permission w user perm legacy context st)"
| "abac_step st (CreateRole w tenant name desc perms policy) =
     or_unchanged st (create_role w tenant name desc perms policy st)"
| "abac_step st (UpdateRole tenant i name desc policy perms) =
     or_unchanged st (update_role tenant i name desc policy perms st)"
| "abac_step st (DeleteRole tenant i) = or_unchanged st (delete_role tenant i st)"
| "abac_step st (AssignRole tenant user role) = or_unchanged st (assign_user_role tenant user role st)"
| "abac_step st (RemoveRole w tenant user role) = or_unchanged st (remove_user_role w tenant user role st)"

section \<open>The tables only grow\<close>

lemma user_grants_iff:
  "(p, g) \<in> set (user_grants user st) \<longleftrightarrow>
   (\<exists>ur \<in> set (user_roles st). \<exists>r \<in> set (roles st). ur_user ur = user \<and> role_id r = ur_role ur \<and>
      g \<in> set (grants st) \<and> grant_role g = role_id r \<and> p \<in> set (permissions st) \<and>
      permission_id p = grant_permission g)"
  by (fastforce simp: user_grants_def)

text \<open>The permissions, the grants, the identifiers of roles and who has them.\<close>

definition links :: "abac_state \<Rightarrow> permission_row set \<times> grant_row set \<times> string set \<times> (string \<times> string) set" where
  "links st = (set (permissions st), set (grants st), role_id ` set (roles st),
     (\<lambda>ur. (ur_user ur, ur_role ur)) ` set (user_roles st))"

lemma user_grants_links:
  "set (user_grants user st) =
     {(p, g). p \<in> fst (links st) \<and> g \<in> fst (snd (links st)) \<and> grant_role g \<in> fst (snd (snd (links st))) \<and>
        (user, grant_role g) \<in> snd (snd (snd (links st))) \<and> permission_id p = grant_permission g}"
  by (auto simp: user_grants_iff links_def image_iff) metis+

definition links_le :: "abac_state \<Rightarrow> abac_state \<Rightarrow> bool" where
  "links_le s t \<longleftrightarrow> fst (links s) \<subseteq> fst (links t) \<and> fst (snd (links s)) \<subseteq> fst (snd (links t)) \<and>
     fst (snd (snd (links s))) \<subseteq> fst (snd (snd (links t))) \<and> snd (snd (snd (links s))) \<subseteq> snd (snd (snd (links t)))"

lemma user_grants_mono: "links_le s t \<Longrightarrow> set (user_grants user s) \<subseteq> set (user_grants user t)"
  unfolding user_grants_links links_le_def by blast

lemma links_cache [simp]: "links (st\<lparr>permission_cache := c\<rparr>) = links st"
  by (simp add: links_def)

lemma links_le_eq: "links t = links s \<Longrightarrow> links_le s t"
  by (simp add: links_le_def)

lemma links_check [simp]:
  "links (snd (get_user_permissions w user legacy st)) = links st"
  "links (snd (check_permission w user perm legacy context st)) = links st"
  by (simp_all add: check_permission_def get_user_permissions_def cache_get_def cache_set_def Let_def
      split: option.splits prod.splits)

lemma image_same: "(\<And>x. f (g x) = f x) \<Longrightarrow> f ` g ` A = f ` A"
  by (simp add: image_image)

lemma links_remove [simp]: "links (remove_role_from_user w user role st) = links st"
proof -
  have "(\<lambda>ur. (ur_user ur, ur_role ur)) ` (\<lambda>ur. if ur_user ur = user \<and> ur_role ur = role \<and> ur_deleted ur = None
      then ur\<lparr>ur_deleted := Some (unix_time w)\<rparr> else ur) ` set (user_roles st) =
    (\<lambda>ur. (ur_user ur, ur_role ur)) ` set (user_roles st)"
    by (rule image_same) simp
  then show ?thesis by (simp only: remove_role_from_user_def invalidate_user_cache_def links_def) simp
qed

lemma links_update: "update_role tenant i name desc policy perms st = Inr st' \<Longrightarrow> links st' = links st"
proof -
  assume "update_role tenant i name desc policy perms st = Inr st'"
  then obtain r where st': "st' = invalidate_role_cache
      (st\<lparr>roles := map (\<lambda>q. if q = r then updated_role name desc policy r else q) (roles st)\<rparr>)"
    by (auto simp: update_role_def Let_def split: option.splits if_splits)
  have "role_id ` (\<lambda>q. if q = r then updated_role name desc policy r else q) ` set (roles st) =
      role_id ` set (roles st)"
    by (rule image_same) (simp add: updated_role_def)
  then show ?thesis by (simp only: st' links_def invalidate_role_cache_def) simp
qed

lemma abac_step_links: "links_le st (abac_step st op)"
proof (cases op)
  case (CreateRole w tenant name desc perms policy)
  then show ?thesis
    by (auto simp: create_role_def invalidate_role_cache_def links_le_def links_def)
next
  case (UpdateRole tenant i name desc policy perms)
  then show ?thesis
    by (cases "update_role tenant i name desc policy perms st")
      (auto intro!: links_le_eq dest: links_update)
next
  case (DeleteRole tenant i)
  then show ?thesis
    by (auto simp: delete_role_def invalidate_role_cache_def intro!: links_le_eq split: option.splits)
next
  case (AssignRole tenant user role)
  then show ?thesis
    by (auto simp: assign_user_role_def assign_role_to_user_def invalidate_user_cache_def links_le_def links_def)
qed (auto simp: remove_user_role_def intro: links_le_eq)

lemma abac_run_grants: "set (user_grants user st) \<subseteq> set (user_grants user (foldl abac_step st ops))"
proof (induction ops arbitrary: st)
  case (Cons op ops)
  show ?case
    using user_grants_mono [OF abac_step_links [of st op], of user] Cons [of "abac_step st op"] by auto
qed simp

text \<open>
  C9: A permission a user has through a role is never taken away: whatever roles are removed from users,
  updated or deleted, and even right after an accepted removal of the user's role, the user still has it.
\<close>

theorem permissions_never_revoked:
  assumes "(p, g) \<in> set (user_grants user st)"
    and "remove_user_role w tenant user role (foldl abac_step st ops) = Inr st'"
  shows "permission_name p \<in> fst (get_user_permissions w' user legacy st')"
proof -
  let ?s = "foldl abac_step st ops"
  from assms(2) have st': "st' = remove_role_from_user w user role ?s"
    by (auto simp: remove_user_role_def split: if_splits)
  have "(p, g) \<in> set (user_grants user ?s)" using assms(1) abac_run_grants by blast
  then have mem: "(p, g) \<in> set (user_grants user st')" by (simp add: user_grants_links st')
  have "dict_get (permission_cache st') user = None"
    by (simp add: st' remove_role_from_user_def invalidate_user_cache_def)
  then have "cache_get w' user st' = (None, st')" by (simp add: cache_get_def)
  moreover have "user_grants user st' \<noteq> []" using mem by auto
  ultimately show ?thesis using mem
    by (force simp: get_user_permissions_def Let_def)
qed

definition demo_abac :: abac_state where
  "demo_abac = \<lparr>users = [(''u'', ''t'')], permissions = [\<lparr>permission_id = ''p'', resource = ''rules'',
       perm_action = ''delete''\<rparr>],
     roles = [\<lparr>role_id = ''r'', role_tenant = ''t'', role_name = ''owner'', role_description = [],
       is_builtin = False, role_policy = []\<rparr>],
     grants = [\<lparr>grant_role = ''r'', grant_permission = ''p'', grant_conditions = []\<rparr>],
     user_roles = [\<lparr>ur_user = ''u'', ur_role = ''r'', ur_deleted = None\<rparr>], permission_cache = []\<rparr>"

definition demo_abac_env :: abac_env where
  "demo_abac_env = \<lparr>unix_time = 0, hhmm = ''12:00'', new_role_id = ''n''\<rparr>"

lemma permissions_never_revoked_witness:
  "\<exists>st'. remove_user_role demo_abac_env ''t'' ''u'' ''r'' (foldl abac_step demo_abac [DeleteRole ''t'' ''r'']) =
      Inr st' \<and> ''rules.delete'' \<in> fst (get_user_permissions demo_abac_env ''u'' None st')"
proof -
  let ?s = "foldl abac_step demo_abac [DeleteRole ''t'' ''r'']"
  have "users ?s = [(''u'', ''t'')]"
    by (simp add: delete_role_def find_role_def demo_abac_def invalidate_role_cache_def)
  then obtain st' where r: "remove_user_role demo_abac_env ''t'' ''u'' ''r'' ?s = Inr st'"
    by (simp add: remove_user_role_def)
  have "(\<lparr>permission_id = ''p'', resource = ''rules'', perm_action = ''delete''\<rparr>,
      \<lparr>grant_role = ''r'', grant_permission = ''p'', grant_conditions = []\<rparr>) \<in> set (user_grants ''u'' demo_abac)"
    by (simp add: user_grants_def demo_abac_def)
  from permissions_never_revoked [OF this r, of demo_abac_env None] r
  show ?thesis by (auto simp: permission_name_def)
qed

section \<open>The cache\<close>

text \<open>What the tables say of a user; without any row for the user it is left to the legacy role.\<close>

definition table_permissions :: "string \<Rightarrow> abac_state \<Rightarrow> string set" where
  "table_permissions user st = permission_name ` fst ` set (user_grants user st)"

definition has_role_rows :: "string \<Rightarrow> abac_state \<Rightarrow> bool" where
  "has_role_rows user st \<longleftrightarrow> user \<in> fst ` snd (snd (snd (links st)))"

definition cached_ok :: "string \<Rightarrow> string set \<Rightarrow> abac_state \<Rightarrow> bool" where
  "cached_ok user perms st \<longleftrightarrow>
     (if has_role_rows user st then perms = table_permissions user st
      else perms = {} \<or> (\<exists>role. legacy_role_permissions role = Some perms))"

definition cache_coherent :: "abac_state \<Rightarrow> bool" where
  "cache_coherent st \<longleftrightarrow>
     (\<forall>user t perms. dict_get (permission_cache st) user = Some (t, perms) \<longrightarrow> cached_ok user perms st)"

lemma table_permissions_links: "links s = links t \<Longrightarrow> table_permissions user s = table_permissions user t"
  by (simp add: table_permissions_def user_grants_links)

lemma cached_ok_links: "links s = links t \<Longrightarrow> cached_ok user perms s = cached_ok user perms t"
  by (simp add: cached_ok_def has_role_rows_def cong: table_permissions_links)


lemma cache_coherent_links:
  assumes "cache_coherent st" and "links st' = links st"
    and "\<And>user. dict_get (permission_cache st') user = None \<or>
      dict_get (permission_cache st') user = dict_get (permission_cache st) user"
  shows "cache_coherent st'"
  unfolding cache_coherent_def
proof (intro allI impI)
  fix user t perms
  assume "dict_get (permission_cache st') user = Some (t, perms)"
  with assms(3) [of user] have "dict_get (permission_cache st) user = Some (t, perms)" by auto
  with assms(1) have "cached_ok user perms st" by (simp add: cache_coherent_def)
  then show "cached_ok user perms st'" using cached_ok_links [OF assms(2)] by simp
qed

lemma cache_coherent_empty: "permission_cache st = [] \<Longrightarrow> cache_coherent st"
  by (simp add: cache_coherent_def)

lemma has_role_rows_iff: "has_role_rows user st \<longleftrightarrow> list_ex (\<lambda>ur. ur_user ur = user) (user_roles st)"
  by (force simp: has_role_rows_def links_def list_ex_iff)

lemma user_grants_role_rows: "user_grants user st \<noteq> [] \<Longrightarrow> has_role_rows user st"
proof -
  assume "user_grants user st \<noteq> []"
  then obtain p g where "(p, g) \<in> set (user_grants user st)" by (metis list.set_intros(1) neq_Nil_conv surj_pair)
  then show ?thesis by (auto simp: user_grants_iff has_role_rows_iff list_ex_iff)
qed

text \<open>What a lookup that misses the cache computes.\<close>

definition resolved :: "string \<Rightarrow> string option \<Rightarrow> abac_state \<Rightarrow> string set" where
  "resolved user legacy st =
     (if has_role_rows user st then table_permissions user st
      else case legacy of None \<Rightarrow> {}
        | Some role \<Rightarrow> (case legacy_role_permissions role of None \<Rightarrow> {} | Some ps \<Rightarrow> ps))"

lemma cached_ok_resolved: "cached_ok user (resolved user legacy st) st"
  by (auto simp: cached_ok_def resolved_def split: option.splits)

lemma get_user_permissions_cases:
  obtains (hit) t perms where "dict_get (permission_cache st) user = Some (t, perms)"
      "get_user_permissions w user legacy st = (perms, st)"
  | (miss) st1 where "links st1 = links st"
      "\<And>u. dict_get (permission_cache st1) u = None \<or>
         dict_get (permission_cache st1) u = dict_get (permission_cache st) u"
      "get_user_permissions w user legacy st = (resolved user legacy st, cache_set w user (resolved user legacy st) st1)"
proof -
  have miss_value: "get_user_permissions w user legacy st =
      (resolved user legacy st, cache_set w user (resolved user legacy st) st1)"
    if "cache_get w user st = (None, st1)" and l: "links st1 = links st" for st1
  proof -
    have t: "table_permissions user st1 = table_permissions user st" "has_role_rows user st1 = has_role_rows user st"
      by (rule table_permissions_links [OF l]) (simp add: has_role_rows_def l)
    have "(if map (permission_name \<circ> fst) (user_grants user st1) \<noteq> []
        then set (map (permission_name \<circ> fst) (user_grants user st1))
        else if list_ex (\<lambda>ur. ur_user ur = user) (user_roles st1) then {}
        else case legacy of None \<Rightarrow> {}
          | Some role \<Rightarrow> (case legacy_role_permissions role of None \<Rightarrow> {} | Some ps \<Rightarrow> ps)) =
      resolved user legacy st1"
    proof (cases "user_grants user st1 = []")
      case True
      then show ?thesis by (simp add: resolved_def has_role_rows_iff table_permissions_def)
    next
      case False
      then show ?thesis using user_grants_role_rows by (simp add: resolved_def table_permissions_def image_comp)
    qed
    moreover have "resolved user legacy st1 = resolved user legacy st" by (simp add: resolved_def t)
    ultimately show ?thesis
      by (simp only: get_user_permissions_def that(1) prod.case option.case Let_def)
  qed
  show thesis
  proof (cases "fst (cache_get w user st)")
    case None
    let ?s = "snd (cache_get w user st)"
    have g: "cache_get w user st = (None, ?s)" using None by (simp add: prod_eq_iff)
    have l: "links ?s = links st" by (simp add: cache_get_def split: option.splits)
    show thesis
      by (rule miss [OF l _ miss_value [OF g l]]) (auto simp: cache_get_def split: option.splits)
  next
    case (Some perms)
    then obtain t where "dict_get (permission_cache st) user = Some (t, perms)" "cache_get w user st = (Some perms, st)"
      by (auto simp: cache_get_def split: option.splits if_splits)
    then show thesis by (intro hit) (simp_all add: get_user_permissions_def)
  qed
qed

lemma get_user_permissions_coherent:
  assumes "cache_coherent st"
  shows "cache_coherent (snd (get_user_permissions w user legacy st))"
proof (cases rule: get_user_permissions_cases [of st user w legacy])
  case hit
  with assms show ?thesis by simp
next
  case (miss st1)
  have l: "links (cache_set w user (resolved user legacy st) st1) = links st"
    by (simp add: cache_set_def miss(1))
  have "cached_ok u perms (cache_set w user (resolved user legacy st) st1)"
    if "dict_get (permission_cache (cache_set w user (resolved user legacy st) st1)) u = Some (t, perms)" for u t perms
  proof (cases "u = user")
    case True
    with that have "perms = resolved user legacy st" by (simp add: cache_set_def)
    with True show ?thesis using cached_ok_resolved cached_ok_links [OF l] by simp
  next
    case False
    with that have "dict_get (permission_cache st1) u = Some (t, perms)" by (simp add: cache_set_def)
    with miss(2) [of u] have "dict_get (permission_cache st) u = Some (t, perms)" by auto
    then have "cached_ok u perms st" using assms by (simp add: cache_coherent_def)
    then show ?thesis using cached_ok_links [OF l] by simp
  qed
  then show ?thesis by (simp add: miss(3) cache_coherent_def)
qed

lemma assign_coherent:
  assumes "cache_coherent st"
  shows "cache_coherent (invalidate_user_cache user (st\<lparr>user_roles := user_roles st @
    [\<lparr>ur_user = user, ur_role = role, ur_deleted = None\<rparr>]\<rparr>))"
    (is "cache_coherent ?t")
  unfolding cache_coherent_def
proof (intro allI impI)
  fix u t perms
  assume c: "dict_get (permission_cache ?t) u = Some (t, perms)"
  then have u: "u \<noteq> user" and "dict_get (permission_cache st) u = Some (t, perms)"
    by (auto simp: invalidate_user_cache_def split: if_splits)
  with assms have ok: "cached_ok u perms st" by (simp add: cache_coherent_def)
  have "set (user_grants u ?t) = set (user_grants u st)" "has_role_rows u ?t = has_role_rows u st"
    using u by (auto simp: user_grants_links has_role_rows_def links_def invalidate_user_cache_def)
  with ok show "cached_ok u perms ?t" by (simp add: cached_ok_def table_permissions_def)
qed

lemma abac_step_coherent: "cache_coherent st \<Longrightarrow> cache_coherent (abac_step st op)"
proof (cases op)
  case (Check w user perm legacy ctx)
  assume "cache_coherent st"
  then have "cache_coherent (snd (get_user_permissions w user legacy st))"
    by (rule get_user_permissions_coherent)
  then show ?thesis by (simp add: Check check_permission_def case_prod_unfold)
next
  case (AssignRole tenant user role)
  assume "cache_coherent st"
  then show ?thesis
    by (auto simp: AssignRole assign_user_role_def assign_role_to_user_def intro: assign_coherent)
next
  case (RemoveRole w tenant user role)
  assume "cache_coherent st"
  then have "cache_coherent (remove_role_from_user w user role st)"
    by (rule cache_coherent_links [OF _ links_remove])
      (simp add: remove_role_from_user_def invalidate_user_cache_def)
  with \<open>cache_coherent st\<close> show ?thesis by (auto simp: RemoveRole remove_user_role_def)
qed (auto simp: create_role_def update_role_def delete_role_def invalidate_role_cache_def Let_def
    intro: cache_coherent_empty split: option.splits)

interpretation abac: machine abac_step cache_coherent
  by unfold_locales (rule abac_step_coherent)

text \<open>
  In one process a permission check never works with an outdated set for a user who has a row in the
  user roles: after any operations from an empty cache, the permissions it uses are exactly those the
  tables give the user.
\<close>

theorem cached_permissions_current:
  assumes "permission_cache st = []" and "ur \<in> set (user_roles (foldl abac_step st ops))"
  shows "fst (get_user_permissions w (ur_user ur) legacy (foldl abac_step st ops)) =
    permission_name ` fst ` set (user_grants (ur_user ur) (foldl abac_step st ops))"
proof -
  let ?s = "foldl abac_step st ops"
  have coherent: "cache_coherent ?s" by (rule abac.inv_run [OF cache_coherent_empty [OF assms(1)]])
  have rows: "has_role_rows (ur_user ur) ?s" using assms(2) by (auto simp: has_role_rows_iff list_ex_iff)
  have "fst (get_user_permissions w (ur_user ur) legacy ?s) = table_permissions (ur_user ur) ?s"
  proof (cases rule: get_user_permissions_cases [of ?s "ur_user ur" w legacy])
    case (hit t perms)
    with coherent rows show ?thesis by (auto simp: cache_coherent_def cached_ok_def)
  next
    case (miss st1)
    with rows show ?thesis by (simp add: resolved_def)
  qed
  then show ?thesis by (simp add: table_permissions_def)
qed

lemma cached_permissions_current_witness:
  "fst (get_user_permissions demo_abac_env ''u'' None (foldl abac_step demo_abac [])) = {''rules.delete''}"
proof -
  have "\<lparr>ur_user = ''u'', ur_role = ''r'', ur_deleted = None\<rparr> \<in> set (user_roles (foldl abac_step demo_abac []))"
    by (simp add: demo_abac_def)
  from cached_permissions_current [OF _ this, of demo_abac_env None]
  have "fst (get_user_permissions demo_abac_env ''u'' None (foldl abac_step demo_abac [])) =
      permission_name ` fst ` set (user_grants ''u'' demo_abac)"
    by (simp add: demo_abac_def)
  then show ?thesis by (simp add: user_grants_def demo_abac_def permission_name_def)
qed


section \<open>Network conditions\<close>

lemmas digit_defs = is_ascii_digit_def code_def digits_value_def digit_value_def

lemma in_any_network_iff:
  "in_any_network ip nets \<Longrightarrow> \<exists>v n. v \<in> set nets \<and> network_of v = Some n \<and> in_network ip n"
  by (induction nets) (auto split: option.splits)

lemma any_check_Cons: "any_check (c # cs) = Some True \<longleftrightarrow> c = Some True \<or> c = Some False \<and> any_check cs = Some True"
  by (cases "(c # cs)" rule: any_check.cases) auto

lemma any_check_True: "any_check (map f xs) = Some True \<Longrightarrow> \<exists>x \<in> set xs. f x = Some True"
  by (induction xs) (auto simp: any_check_Cons)

lemma and_if_True: "and_if c d = Some True \<longleftrightarrow> c = Some True \<and> d = Some True"
  by (auto simp: and_if_def split: option.splits bool.splits)

lemma check_condition_set_True:
  assumes "check_condition_set w conds ctx = Some True" and "dict_get conds k = Some v"
    and "k \<in> {''time_range'', ''ip_range'', ''resource_tags''}"
  shows "(k = ''time_range'' \<longrightarrow> time_range_ok (hhmm w) v = Some True) \<and>
    (k = ''ip_range'' \<longrightarrow> ip_range_ok v ctx = Some True) \<and>
    (k = ''resource_tags'' \<longrightarrow> resource_tags_ok v ctx = Some True)"
  using assms by (auto simp: check_condition_set_def and_if_True when_present_def split: if_splits)

text \<open>The grants of a permission by its two parts.\<close>

definition permission_grants :: "string \<Rightarrow> string \<Rightarrow> abac_state \<Rightarrow> grant_row set" where
  "permission_grants user permission st =
     {g. \<exists>p. (p, g) \<in> set (user_grants user st) \<and> split_permission permission = Some (resource p, perm_action p)}"

text \<open>A grant limited to a list of networks.\<close>

definition limited_to :: "pval list \<Rightarrow> grant_row \<Rightarrow> bool" where
  "limited_to nets g \<longleftrightarrow> (\<exists>cond. dict_get (grant_conditions g) ''ip_range'' = Some (VDict cond) \<and>
     dict_get cond ''allowed'' = Some (VList nets))"

lemma evaluate_conditions_grant:
  assumes "evaluate_conditions w user permission ctx st = Some True"
    and "permission_grants user permission st \<noteq> {}"
    and "\<forall>g \<in> permission_grants user permission st. grant_conditions g \<noteq> []"
  shows "\<exists>g \<in> permission_grants user permission st. check_condition_set w (grant_conditions g) ctx = Some True"
proof -
  from assms(2) obtain res act where sp: "split_permission permission = Some (res, act)"
    by (auto simp: permission_grants_def)
  let ?rows = "map (grant_conditions \<circ> snd)
    (filter (\<lambda>(p, g). resource p = res \<and> perm_action p = act) (user_grants user st))"
  have rows: "set ?rows = grant_conditions ` permission_grants user permission st"
    using sp by (force simp: permission_grants_def)
  then have "?rows \<noteq> []" using assms(2) by (metis image_is_empty set_empty)
  moreover have "[] \<notin> set ?rows" using assms(3) unfolding rows by force
  ultimately have "any_check (map (\<lambda>c. check_condition_set w c ctx) ?rows) = Some True"
    using assms(1) sp by (simp add: evaluate_conditions_def Let_def del: set_map)
  from any_check_True [OF this] have "\<exists>c \<in> set ?rows. check_condition_set w c ctx = Some True" .
  with rows show ?thesis by auto
qed

lemma ip_range_ok_networks:
  assumes "ip_range_ok (VDict cond) ctx = Some True" and "dict_get cond ''allowed'' = Some (VList nets)"
    and "dict_get ctx ''client_ip'' = Some (VStr ip)" and "ip \<noteq> []"
  shows "\<exists>addr v n. parse_ip ip = Some addr \<and> v \<in> set nets \<and> network_of v = Some n \<and> in_network addr n"
  using assms in_any_network_iff
  by (fastforce simp: ip_range_ok_def dict_get_or_def Let_def address_of_def split: option.splits)

lemma split_on_head: "split_on c xs \<noteq> [] \<and> hd (split_on c xs) = takeWhile (\<lambda>x. x \<noteq> c) xs"
  by (induction xs) (auto split: list.splits)

lemma client_address:
  "(get_client_ip peer forwarded \<noteq> [] \<and> peer = Some (get_client_ip peer forwarded)) \<or>
   (peer \<in> {None, Some []} \<and> get_client_ip peer forwarded = ''0.0.0.0'') \<or>
   (\<exists>proxy header. peer = Some proxy \<and> is_trusted_proxy proxy \<and> forwarded = Some header \<and>
      get_client_ip peer forwarded = py_strip (takeWhile (\<lambda>c. c \<noteq> CHR '','') header))"
  by (auto simp: get_client_ip_def split_on_head split: option.splits)

text \<open>
  C10: When every grant of a permission is limited to networks, a request that is allowed is attributed to an address
  that lies in a network of one of those grants, or to the empty address, which every limit lets pass. That address is
  the one of the peer (0.0.0.0 if there is none) or, when the peer is a trusted proxy, the first entry of the
  X-Forwarded-For header it sends, which the client may have written; only such an entry, left blank, gives the empty
  address.
\<close>

theorem network_limits_enforced:
  assumes "fst (check_permission w user permission legacy (request_context peer forwarded meth path) st) = Some True"
    and "permission_grants user permission st \<noteq> {}"
    and "\<forall>g \<in> permission_grants user permission st. \<exists>nets. limited_to nets g"
  shows "\<exists>ip. ((ip \<noteq> [] \<and> peer = Some ip) \<or> (peer \<in> {None, Some []} \<and> ip = ''0.0.0.0'') \<or>
      (\<exists>proxy header. peer = Some proxy \<and> is_trusted_proxy proxy \<and> forwarded = Some header \<and>
         ip = py_strip (takeWhile (\<lambda>c. c \<noteq> CHR '','') header))) \<and>
    (ip = [] \<or> (\<exists>addr g nets v n. parse_ip ip = Some addr \<and> g \<in> permission_grants user permission st \<and>
       limited_to nets g \<and> v \<in> set nets \<and> network_of v = Some n \<and> in_network addr n))"
proof -
  let ?ctx = "request_context peer forwarded meth path"
  obtain perms st1 where g: "get_user_permissions w user legacy st = (perms, st1)" by fastforce
  have same: "permission_grants user permission st1 = permission_grants user permission st"
    using links_check(1) [of w user legacy st] g by (simp add: permission_grants_def user_grants_links)
  have "evaluate_conditions w user permission ?ctx st1 = Some True"
    using assms(1) g by (auto simp: check_permission_def request_context_def split: if_splits)
  moreover have "\<forall>g \<in> permission_grants user permission st1. grant_conditions g \<noteq> []"
    using assms(3) same by (force simp: limited_to_def)
  ultimately obtain g where gr: "g \<in> permission_grants user permission st"
    and c: "check_condition_set w (grant_conditions g) ?ctx = Some True"
    using evaluate_conditions_grant assms(2) same by metis
  from assms(3) gr obtain nets cond where l: "limited_to nets g"
    "dict_get (grant_conditions g) ''ip_range'' = Some (VDict cond)" "dict_get cond ''allowed'' = Some (VList nets)"
    by (auto simp: limited_to_def)
  from check_condition_set_True [OF c l(2)] have "ip_range_ok (VDict cond) ?ctx = Some True" by simp
  from ip_range_ok_networks [OF this l(3)]
  have "get_client_ip peer forwarded = [] \<or> (\<exists>addr v n. parse_ip (get_client_ip peer forwarded) = Some addr \<and> v \<in> set nets \<and>
      network_of v = Some n \<and> in_network addr n)" by (auto simp: request_context_def)
  with gr l(1) show ?thesis
    by (intro exI [of _ "get_client_ip peer forwarded"] conjI client_address) blast
qed

text \<open>
  A request that arrives from a private address (10/8, 172.16/12 or 192.168/16) is attributed to
  whatever its X-Forwarded-For header names first, so such a client, or any client behind a proxy that
  appends to the header, chooses the address its network conditions are checked against.
\<close>

theorem private_peer_names_address:
  assumes "parse_ip peer = Some (V4 w)"
    and "unat w div 2 ^ 24 = 10 \<or> unat w div 2 ^ 20 = 2753 \<or> unat w div 2 ^ 16 = 49320"
    and "CHR '','' \<notin> set claimed" and "claimed \<noteq> []"
  shows "get_client_ip (Some peer) (Some (claimed @ CHR '','' # appended)) = py_strip claimed"
proof -
  have ten: "parse_network ''10.0.0.0/8'' = Some (N4 (0x0A000000 AND netmask 8) 8)"
    and mid: "parse_network ''172.16.0.0/12'' = Some (N4 (0xAC100000 AND netmask 12) 12)"
    and home: "parse_network ''192.168.0.0/16'' = Some (N4 (0xC0A80000 AND netmask 16) 16)"
    by (simp_all add: parse_network_def network4_def parse_v4_def parse_octet_def parse_mask4_def
        parse_prefix_def digit_defs all_some_def from_digits_def)
  have "in_network (V4 w) (N4 (0x0A000000 AND netmask 8) 8) \<or>
      in_network (V4 w) (N4 (0xAC100000 AND netmask 12) 12) \<or>
      in_network (V4 w) (N4 (0xC0A80000 AND netmask 16) 16)"
    using assms(2) by (simp add: netmask_div)
  then have "is_trusted_proxy peer"
    using assms(1) ten mid home by (auto simp: is_trusted_proxy_def TRUSTED_PROXIES_def)
  moreover have "peer \<noteq> []" using assms(1) by (auto simp: parse_ip_def parse_v4_def parse_v6_def split_scope_def v6_groups_def)
  moreover have "hd (split_on (CHR '','') (claimed @ CHR '','' # appended)) = claimed"
    using assms(3) by (simp add: split_on_first)
  ultimately show ?thesis by (simp add: get_client_ip_def)
qed


lemma parse_ten: "parse_ip ''10.0.0.7'' = Some (V4 0x0A000007)"
  by (simp add: parse_ip_def parse_v4_def parse_octet_def digit_defs all_some_def from_digits_def)

lemma strip_address: "py_strip ''1.2.3.4'' = ''1.2.3.4''"
  by (simp add: py_strip_def py_isspace_def code_def)

lemma private_peer_names_address_witness:
  "get_client_ip (Some ''10.0.0.7'') (Some ''1.2.3.4,10.0.0.7'') = ''1.2.3.4''"
  using private_peer_names_address [OF parse_ten, of "''1.2.3.4''" "''10.0.0.7''"] strip_address by simp

text \<open>
  A request through a trusted proxy whose X-Forwarded-For header starts with a comma is checked as if
  its conditions had no network limits: the address comes out empty, and an empty address passes every
  one of them.
\<close>

theorem blank_forwarded_skips_networks:
  assumes "is_trusted_proxy peer"
  shows "check_condition_set w conds (request_context (Some peer) (Some (CHR '','' # rest)) meth path) =
    check_condition_set w (dict_del ''ip_range'' conds)
      (request_context (Some peer) (Some (CHR '','' # rest)) meth path)"
proof -
  have "\<not> is_trusted_proxy []"
    by (simp add: is_trusted_proxy_def parse_ip_def parse_v4_def parse_v6_def split_scope_def v6_groups_def)
  with assms have "get_client_ip (Some peer) (Some (CHR '','' # rest)) = []"
    by (auto simp: get_client_ip_def py_strip_def)
  then have pass: "\<And>v. ip_range_ok v (request_context (Some peer) (Some (CHR '','' # rest)) meth path) = Some True"
    by (simp add: ip_range_ok_def request_context_def dict_get_or_def)
  let ?d = "dict_del ''ip_range'' conds"
  have same: "when_present k f conds = when_present k f ?d" if "k \<noteq> ''ip_range''" for k f
    using that by (simp add: when_present_def)
  have absent: "conds = [] \<Longrightarrow> ?d = []" by (simp add: dict_del_def)
  have empty: "when_present k f [] = Some True" for k f by (simp add: when_present_def)
  have when_pass: "when_present ''ip_range'' (\<lambda>v. Some True) d = Some True" for d :: "(string, pval) dict"
    by (simp add: when_present_def split: option.splits)
  show ?thesis
    unfolding check_condition_set_def pass when_pass
    using absent by (cases "?d = []") (simp_all add: same empty and_if_def)
qed

definition ten_only :: "(string, pval) dict" where
  "ten_only = [(''ip_range'', VDict [(''allowed'', VList [VStr ''192.168.0.0/16''])])]"

lemma ten_trusted: "is_trusted_proxy ''10.0.0.7''"
proof -
  have "parse_network ''10.0.0.0/8'' = Some (N4 (0x0A000000 AND netmask 8) 8)"
    by (simp add: parse_network_def network4_def parse_v4_def parse_octet_def parse_mask4_def
        parse_prefix_def digit_defs all_some_def from_digits_def)
  moreover have "in_network (V4 0x0A000007) (N4 (0x0A000000 AND netmask 8) 8)"
    by (simp add: netmask_div)
  ultimately show ?thesis by (auto simp: is_trusted_proxy_def parse_ten TRUSTED_PROXIES_def)
qed

lemma blank_forwarded_skips_networks_witness:
  "check_condition_set demo_abac_env ten_only (request_context (Some ''10.0.0.7'') (Some '',8.8.8.8'') ''GET'' []) =
   Some True"
  using blank_forwarded_skips_networks [OF ten_trusted, of demo_abac_env ten_only "''8.8.8.8''" "''GET''" "[]"]
  by (simp add: ten_only_def dict_del_def check_condition_set_def)

text \<open>The state of the demonstration with a network limit on its grant.\<close>

definition limited_abac :: abac_state where
  "limited_abac = demo_abac\<lparr>grants := [\<lparr>grant_role = ''r'', grant_permission = ''p'',
     grant_conditions = [(''ip_range'', VDict [(''allowed'', VList [VStr ''10.0.0.0/8''])])]\<rparr>]\<rparr>"

lemma limited_grants:
  "permission_grants ''u'' ''rules.delete'' limited_abac = set (grants limited_abac)"
  by (auto simp: permission_grants_def user_grants_def limited_abac_def demo_abac_def split_permission_def)

lemma network_limits_enforced_witness:
  "\<exists>addr v n. parse_ip ''10.0.0.7'' = Some addr \<and> network_of v = Some n \<and> in_network addr n"
proof -
  let ?ctx = "request_context (Some ''10.0.0.7'') None ''GET'' []"
  have ip: "get_client_ip (Some ''10.0.0.7'') None = ''10.0.0.7''" by (simp add: get_client_ip_def)
  have net: "network_of (VStr ''10.0.0.0/8'') = Some (N4 (0x0A000000 AND netmask 8) 8)"
    by (simp add: network_of_def parse_network_def network4_def parse_v4_def parse_octet_def parse_mask4_def
        parse_prefix_def digit_defs all_some_def from_digits_def)
  have "in_network (V4 0x0A000007) (N4 (0x0A000000 AND netmask 8) 8)" by (simp add: netmask_div)
  then have "check_condition_set demo_abac_env (grant_conditions (hd (grants limited_abac))) ?ctx = Some True"
    by (simp add: limited_abac_def check_condition_set_def when_present_def and_if_def ip_range_ok_def
        request_context_def ip dict_get_or_def address_of_def parse_ten net)
  then have "fst (check_permission demo_abac_env ''u'' ''rules.delete'' None ?ctx limited_abac) = Some True"
    by (simp add: check_permission_def get_user_permissions_def cache_get_def limited_abac_def demo_abac_def
        user_grants_def permission_name_def Let_def request_context_def evaluate_conditions_def
        split_permission_def cache_set_def)
  moreover have "\<forall>g \<in> permission_grants ''u'' ''rules.delete'' limited_abac. \<exists>nets. limited_to nets g"
    unfolding limited_grants by (simp add: limited_abac_def limited_to_def)
  moreover have "permission_grants ''u'' ''rules.delete'' limited_abac \<noteq> {}"
    unfolding limited_grants by (simp add: limited_abac_def)
  ultimately show ?thesis
    using network_limits_enforced [of demo_abac_env "''u''" "''rules.delete''" None "Some ''10.0.0.7''" None "''GET''" "[]" limited_abac]
    by auto
qed

end
