(* ===== verification/Py_Sets.thy ===== *)
theory Py_Sets
  imports Py_Values
begin

text \<open>
  Python sets of JSON values, as lists without equal elements, their sorted order, and what equality of
  JSON values satisfies. A list or dictionary is unhashable: putting it in a set raises TypeError, which is
  \<open>None\<close> here.
\<close>

section \<open>Sets\<close>

fun set_hashable :: "pval \<Rightarrow> bool" where
  "set_hashable (VList xs) = False"
| "set_hashable (VDict d) = False"
| "set_hashable _ = True"

definition set_add :: "pval \<Rightarrow> pval list \<Rightarrow> pval list" where
  "set_add v xs = (if py_in_list v xs then xs else xs @ [v])"

definition py_set :: "pval list \<Rightarrow> pval list option" where
  "py_set xs = (if list_all set_hashable xs then Some (foldl (\<lambda>s v. set_add v s) [] xs) else None)"

definition set_minus :: "pval list \<Rightarrow> pval list \<Rightarrow> pval list" where
  "set_minus xs ys = filter (\<lambda>x. \<not> py_in_list x ys) xs"

definition same_set :: "pval list \<Rightarrow> pval list \<Rightarrow> bool" where
  "same_set xs ys \<longleftrightarrow> set_minus xs ys = [] \<and> set_minus ys xs = []"

text \<open>
  \<open>sorted(xs)\<close>: \<open>None\<close> when two elements have no order. Strings, numbers and \<open>None\<close> are three classes
  without order between them, and every sort has to compare two elements of different classes.
\<close>

fun py_insert :: "pval \<Rightarrow> pval list \<Rightarrow> pval list option" where
  "py_insert x [] = Some [x]"
| "py_insert x (y # ys) =
     (case py_lt x y of
        None \<Rightarrow> None
      | Some True \<Rightarrow> Some (x # y # ys)
      | Some False \<Rightarrow> map_option ((#) y) (py_insert x ys))"

fun py_sorted :: "pval list \<Rightarrow> pval list option" where
  "py_sorted [] = Some []"
| "py_sorted (x # xs) = (case py_sorted xs of None \<Rightarrow> None | Some ys \<Rightarrow> py_insert x ys)"

lemma py_insert_set: "py_insert x ys = Some zs \<Longrightarrow> set zs = insert x (set ys)"
  by (induction x ys arbitrary: zs rule: py_insert.induct) (auto split: option.splits bool.splits)

lemma py_insert_length: "py_insert x ys = Some zs \<Longrightarrow> length zs = Suc (length ys)"
  by (induction x ys arbitrary: zs rule: py_insert.induct) (auto split: option.splits bool.splits)

lemma py_sorted_set: "py_sorted xs = Some ys \<Longrightarrow> set ys = set xs \<and> length ys = length xs"
  by (induction xs arbitrary: ys) (auto split: option.splits dest: py_insert_set py_insert_length)

lemma py_sorted_empty [simp]: "py_sorted xs = Some [] \<longleftrightarrow> xs = []"
  by (auto dest: py_sorted_set)

lemma py_insert_strings: "list_all (\<lambda>v. \<exists>s. v = VStr s) (x # xs) \<Longrightarrow> py_insert x xs \<noteq> None"
  by (induction x xs rule: py_insert.induct) (auto split: option.splits bool.splits)

lemma py_sorted_strings: "list_all (\<lambda>v. \<exists>s. v = VStr s) xs \<Longrightarrow> py_sorted xs \<noteq> None"
proof (induction xs)
  case (Cons x xs)
  then obtain ys where ys: "py_sorted xs = Some ys" by auto
  with Cons.prems py_sorted_set [OF ys] have "list_all (\<lambda>v. \<exists>s. v = VStr s) (x # ys)"
    by (simp add: list_all_iff)
  from py_insert_strings [OF this] ys show ?case by simp
qed simp

section \<open>Equality of JSON values\<close>

text \<open>A value JSON can hold: no NaN, no sentinel, and the keys of an object are distinct.\<close>

fun json_value :: "pval \<Rightarrow> bool" where
  "json_value VNone = True"
| "json_value (VBool b) = True"
| "json_value (VNum n) = (num_float n \<noteq> FNaN)"
| "json_value (VStr s) = True"
| "json_value (VList xs) = list_all json_value xs"
| "json_value (VDict d) = (distinct (map fst d) \<and> list_all (\<lambda>p. json_value (snd p)) d)"
| "json_value VMissing = False"

lemma py_eq_text: "py_eq (VStr s) v \<longleftrightarrow> v = VStr s"
  by (cases v) auto

lemma in_list_text: "py_in_list (VStr s) xs \<longleftrightarrow> VStr s \<in> set xs"
  by (simp add: py_in_list_def list_ex_iff py_eq_text del: py_eq.simps)

lemma float_eq_refl [simp]: "f \<noteq> FNaN \<Longrightarrow> float_eq f f"
  by (cases f) auto

lemma py_eq_dict_refl:
  assumes "distinct (map fst d)" and "\<And>v. v \<in> set (map snd d) \<Longrightarrow> py_eq v v" and "set e \<subseteq> set d"
  shows "py_eq_dict e d"
  using assms(3)
proof (induction e)
  case (Cons p e)
  obtain k v where p: "p = (k, v)" by (cases p)
  with Cons.prems assms(1) have "dict_get d k = Some v" by (simp add: map_of_eq_Some_iff)
  moreover from p Cons.prems assms(2) have "py_eq v v" by force
  ultimately show ?case using Cons by (simp add: p)
qed simp

lemma py_eq_list_refl: "(\<And>v. v \<in> set xs \<Longrightarrow> py_eq v v) \<Longrightarrow> py_eq_list xs xs"
  by (induction xs) auto

lemma py_eq_refl: "json_value v \<Longrightarrow> py_eq v v"
proof (induction v rule: json_value.induct)
  case (5 xs)
  then show ?case by (auto intro!: py_eq_list_refl simp: list_all_iff)
next
  case (6 d)
  then have "py_eq_dict d d"
    by (intro py_eq_dict_refl) (auto simp: list_all_iff)
  then show ?case by simp
qed auto

lemma set_minus_self: "list_all json_value xs \<Longrightarrow> set_minus xs xs = []"
  by (auto simp: set_minus_def filter_empty_conv py_in_list_def list_all_iff list_ex_iff intro: py_eq_refl)

lemma same_set_self: "list_all json_value xs \<Longrightarrow> same_set xs xs"
  by (simp add: same_set_def set_minus_self)

lemma set_add_subset: "set (set_add v xs) \<subseteq> insert v (set xs)"
  by (auto simp: set_add_def)

lemma set_adds_subset: "set (foldl (\<lambda>s v. set_add v s) ys xs) \<subseteq> set ys \<union> set xs"
proof (induction xs arbitrary: ys)
  case (Cons x xs)
  from Cons [of "set_add x ys"] set_add_subset [of x ys] show ?case by auto
qed simp

lemma py_set_subset: "py_set xs = Some s \<Longrightarrow> set s \<subseteq> set xs"
  using set_adds_subset [of "[]" xs] by (auto simp: py_set_def split: if_splits)

text \<open>Every element of the list has an equal one in the set.\<close>

lemma set_add_keeps: "py_in_list w ys \<Longrightarrow> py_in_list w (set_add v ys)"
  by (auto simp: set_add_def py_in_list_def)

lemma set_adds_keep: "py_in_list w ys \<Longrightarrow> py_in_list w (foldl (\<lambda>s v. set_add v s) ys xs)"
  by (induction xs arbitrary: ys) (auto intro: set_add_keeps)

lemma set_add_has: "json_value v \<Longrightarrow> py_in_list v (set_add v ys)"
  by (auto simp: set_add_def py_in_list_def intro: py_eq_refl)

lemma set_adds_have: "v \<in> set xs \<Longrightarrow> json_value v \<Longrightarrow> py_in_list v (foldl (\<lambda>s v. set_add v s) ys xs)"
proof (induction xs arbitrary: ys)
  case (Cons x xs)
  then show ?case by (cases "v = x") (auto intro: set_adds_keep set_add_has)
qed simp

end
