(* ===== verification/Drift_Workflow.thy ===== *)
theory Drift_Workflow
  imports Py_Values
begin

text \<open>
  \<open>backend/app/services/drift/workflow.py\<close>: approving, rejecting, reverting and escalating drift events,
  and the approval log. A resolution is three statements (read the event, update it, insert into the
  log); they are modelled one by one, so that requests can interleave between them. The clock and the
  identifiers drawn are arguments; user identifiers are UUIDs, as the routes pass them.
\<close>

section \<open>Tables\<close>

record drift_event =
  drift_id :: string
  drift_tenant :: string
  drift_agent :: string
  drift_type :: string
  drift_severity :: string
  drift_field :: string
  old_value :: "string option"
  new_value :: "string option"
  baseline_snapshot :: string
  current_snapshot :: string
  drift_status :: string
  resolved_by :: "string option"
  resolved_at :: "rat option"
  resolution_reason :: "string option"
  drift_created :: rat

record approval_row =
  approval_id :: string
  approval_tenant :: string
  approval_event :: string
  approval_action :: string
  approval_user :: string
  approval_reason :: string
  approval_metadata :: "(string, pval) dict"
  approval_created :: rat

record drift_db =
  drift_events :: "drift_event list"
  approval_log :: "approval_row list"

datatype drift_error = DriftNotFound string | AlreadyResolved string

record drift_env =
  drift_now :: rat
  log_uuid :: string

section \<open>Statements\<close>

definition is_event :: "string \<Rightarrow> string \<Rightarrow> drift_event \<Rightarrow> bool" where
  "is_event tenant i e \<longleftrightarrow> drift_id e = i \<and> drift_tenant e = tenant"

definition select_event :: "string \<Rightarrow> string \<Rightarrow> drift_db \<Rightarrow> drift_event option" where
  "select_event tenant i db = find (is_event tenant i) (drift_events db)"

definition resolve_event :: "drift_env \<Rightarrow> string \<Rightarrow> string \<Rightarrow> string \<Rightarrow> drift_event \<Rightarrow> drift_event" where
  "resolve_event w status user reason e =
     e\<lparr>drift_status := status, resolved_by := Some user, resolved_at := Some (drift_now w),
       resolution_reason := Some reason\<rparr>"

definition update_event :: "drift_env \<Rightarrow> string \<Rightarrow> string \<Rightarrow> string \<Rightarrow> string \<Rightarrow> string \<Rightarrow> drift_db \<Rightarrow> drift_db" where
  "update_event w tenant i status user reason db =
     db\<lparr>drift_events := map (\<lambda>e. if is_event tenant i e then resolve_event w status user reason e else e)
       (drift_events db)\<rparr>"

definition append_log :: "drift_env \<Rightarrow> string \<Rightarrow> string \<Rightarrow> string \<Rightarrow> string \<Rightarrow> string \<Rightarrow> (string, pval) dict \<Rightarrow>
    drift_db \<Rightarrow> approval_row \<times> drift_db" where
  "append_log w tenant i user action reason meta db =
     (let row = \<lparr>approval_id = log_uuid w, approval_tenant = tenant, approval_event = i,
                 approval_action = action, approval_user = user, approval_reason = reason,
                 approval_metadata = meta, approval_created = drift_now w\<rparr>
      in (row, db\<lparr>approval_log := approval_log db @ [row]\<rparr>))"

text \<open>The test between the read and the update.\<close>

definition open_event :: "string \<Rightarrow> string \<Rightarrow> drift_db \<Rightarrow> drift_error + drift_event" where
  "open_event tenant i db =
     (case select_event tenant i db of
        None \<Rightarrow> Inl (DriftNotFound i)
      | Some e \<Rightarrow> if drift_status e \<noteq> ''open'' then Inl (AlreadyResolved (drift_status e)) else Inr e)"

section \<open>Requests\<close>

definition resolve_drift :: "drift_env \<Rightarrow> string \<Rightarrow> string \<Rightarrow> string \<Rightarrow> string \<Rightarrow> string \<Rightarrow> (string, pval) dict \<Rightarrow>
    drift_db \<Rightarrow> drift_error + (drift_event option \<times> approval_row \<times> drift_db)" where
  "resolve_drift w tenant i user action reason meta db =
     (case open_event tenant i db of
        Inl e \<Rightarrow> Inl e
      | Inr e \<Rightarrow>
          let db1 = update_event w tenant i action user reason db;
              (row, db2) = append_log w tenant i user action reason meta db1
          in Inr (select_event tenant i db1, row, db2))"

definition approve_drift where
  "approve_drift w tenant i user reason meta = resolve_drift w tenant i user ''approved'' reason meta"

definition reject_drift where
  "reject_drift w tenant i user reason meta = resolve_drift w tenant i user ''rejected'' reason meta"

definition system_user :: string where
  "system_user = ''00000000-0000-0000-0000-000000000000''"

definition auto_revert_drift where
  "auto_revert_drift w tenant i reason = resolve_drift w tenant i system_user ''auto_reverted'' reason
     [(''automated'', VBool True), (''trigger'', VStr ''drift_policy'')]"

definition escalate_drift :: "drift_env \<Rightarrow> string \<Rightarrow> string \<Rightarrow> string \<Rightarrow> string \<Rightarrow> (string, pval) dict \<Rightarrow> drift_db \<Rightarrow>
    drift_error + (drift_event \<times> approval_row \<times> drift_db)" where
  "escalate_drift w tenant i user reason meta db =
     (case select_event tenant i db of
        None \<Rightarrow> Inl (DriftNotFound i)
      | Some e \<Rightarrow> (case append_log w tenant i user ''escalated'' reason meta db of
                      (row, db1) \<Rightarrow> Inr (e, row, db1)))"

definition page :: "nat \<Rightarrow> nat \<Rightarrow> 'a list \<Rightarrow> 'a list" where
  "page limit offset xs = take limit (drop offset xs)"

definition list_approval_log :: "string \<Rightarrow> string option \<Rightarrow> nat \<Rightarrow> nat \<Rightarrow> drift_db \<Rightarrow> approval_row list \<times> nat" where
  "list_approval_log tenant event limit offset db =
     (let rows = filter (\<lambda>r. approval_tenant r = tenant \<and>
                   (case event of None \<Rightarrow> True | Some i \<Rightarrow> i = [] \<or> approval_event r = i)) (approval_log db)
      in (page limit offset (sort_key (\<lambda>r. - approval_created r) rows), length rows))"

definition severity_rank :: "string \<Rightarrow> nat" where
  "severity_rank s =
     (if s = ''critical'' then 1 else if s = ''high'' then 2 else if s = ''medium'' then 3
      else if s = ''low'' then 4 else 5)"

definition get_pending_approvals :: "string \<Rightarrow> nat \<Rightarrow> nat \<Rightarrow> drift_db \<Rightarrow> drift_event list \<times> nat" where
  "get_pending_approvals tenant limit offset db =
     (let rows = filter (\<lambda>e. drift_tenant e = tenant \<and> drift_status e = ''open'') (drift_events db)
      in (page limit offset (sort_key (severity_rank \<circ> drift_severity)
            (sort_key (\<lambda>e. - drift_created e) rows)), length rows))"

section \<open>One request at a time\<close>

datatype drift_op =
  Approve drift_env string string string string "(string, pval) dict"
| Reject drift_env string string string string "(string, pval) dict"
| AutoRevert drift_env string string string
| EscalateDrift drift_env string string string string "(string, pval) dict"

definition database_after :: "drift_db \<Rightarrow> drift_error + ('a \<times> approval_row \<times> drift_db) \<Rightarrow> drift_db" where
  "database_after db r = (case r of Inl _ \<Rightarrow> db | Inr (_, _, db') \<Rightarrow> db')"

fun drift_request :: "drift_db \<Rightarrow> drift_op \<Rightarrow> drift_db" where
  "drift_request db (Approve w tenant i user reason meta) =
     database_after db (approve_drift w tenant i user reason meta db)"
| "drift_request db (Reject w tenant i user reason meta) =
     database_after db (reject_drift w tenant i user reason meta db)"
| "drift_request db (AutoRevert w tenant i reason) =
     database_after db (auto_revert_drift w tenant i reason db)"
| "drift_request db (EscalateDrift w tenant i user reason meta) =
     database_after db (escalate_drift w tenant i user reason meta db)"

definition resolutions :: "string \<Rightarrow> string \<Rightarrow> drift_db \<Rightarrow> string list" where
  "resolutions tenant i db =
     map approval_action (filter (\<lambda>r. approval_tenant r = tenant \<and> approval_event r = i \<and>
       approval_action r \<noteq> ''escalated'') (approval_log db))"

text \<open>The log holds the one resolution of an event that is resolved, and none of one that is open.\<close>

definition drift_ok :: "drift_db \<Rightarrow> bool" where
  "drift_ok db \<longleftrightarrow> (\<forall>e \<in> set (drift_events db). resolutions (drift_tenant e) (drift_id e) db =
     (if drift_status e = ''open'' then [] else [drift_status e]))"

lemma select_event_mem: "select_event tenant i db = Some e \<Longrightarrow> e \<in> set (drift_events db) \<and> is_event tenant i e"
  by (auto simp: select_event_def find_Some_iff)

lemma resolve_drift_ok:
  assumes "drift_ok db" and "action \<notin> {''open'', ''escalated''}"
  shows "drift_ok (database_after db (resolve_drift w tenant i user action reason meta db))"
proof (cases "open_event tenant i db")
  case (Inl e)
  with assms(1) show ?thesis by (simp add: resolve_drift_def database_after_def)
next
  case (Inr e)
  then have e: "e \<in> set (drift_events db)" "is_event tenant i e" "drift_status e = ''open''"
    using select_event_mem by (auto simp: open_event_def split: option.splits if_splits)
  then have none: "resolutions tenant i db = []" using assms(1) by (auto simp: drift_ok_def is_event_def)
  let ?db = "database_after db (resolve_drift w tenant i user action reason meta db)"
  have res: "resolutions t j ?db = resolutions t j db @ (if t = tenant \<and> j = i then [action] else [])" for t j
    using assms(2) by (auto simp: Inr resolve_drift_def database_after_def append_log_def update_event_def
        resolutions_def Let_def)
  have ev: "drift_events ?db = map (\<lambda>e. if is_event tenant i e then resolve_event w action user reason e else e)
      (drift_events db)"
    by (simp add: Inr resolve_drift_def database_after_def append_log_def update_event_def Let_def)
  show ?thesis
    unfolding drift_ok_def ev
  proof
    fix f
    assume "f \<in> set (map (\<lambda>e. if is_event tenant i e then resolve_event w action user reason e else e)
      (drift_events db))"
    then obtain g where g: "g \<in> set (drift_events db)"
      "f = (if is_event tenant i g then resolve_event w action user reason g else g)" by auto
    show "resolutions (drift_tenant f) (drift_id f) ?db = (if drift_status f = ''open'' then [] else [drift_status f])"
    proof (cases "is_event tenant i g")
      case True
      with g none assms(2) show ?thesis by (simp add: res resolve_event_def is_event_def)
    next
      case False
      with g assms(1) show ?thesis by (auto simp: res drift_ok_def is_event_def)
    qed
  qed
qed

lemma escalate_drift_ok:
  "drift_ok db \<Longrightarrow> drift_ok (database_after db (escalate_drift w tenant i user reason meta db))"
  by (auto simp: escalate_drift_def database_after_def append_log_def drift_ok_def resolutions_def Let_def
      split: option.splits)

lemma drift_request_ok: "drift_ok db \<Longrightarrow> drift_ok (drift_request db op)"
  by (cases op) (simp_all add: approve_drift_def reject_drift_def auto_revert_drift_def resolve_drift_ok
      escalate_drift_ok)

lemma drift_request_log: "\<exists>new. approval_log (drift_request db op) = approval_log db @ new"
  by (cases op) (auto simp: approve_drift_def reject_drift_def auto_revert_drift_def escalate_drift_def
      resolve_drift_def database_after_def append_log_def update_event_def Let_def
      split: sum.splits option.splits)

interpretation drift: logged_machine drift_request drift_ok approval_log
  by unfold_locales (auto intro: drift_request_ok drift_request_log)

text \<open>
  When requests run one after the other, each drift event is resolved at most once: the approval log
  has exactly one resolution of an event that is resolved, with the status it has, and none of an open
  one, and no entry of the log ever changes.
\<close>

theorem drift_resolved_once:
  assumes "approval_log db = []" and "\<forall>e \<in> set (drift_events db). drift_status e = ''open''"
  shows "(e \<in> set (drift_events (foldl drift_request db ops)) \<longrightarrow>
      resolutions (drift_tenant e) (drift_id e) (foldl drift_request db ops) =
        (if drift_status e = ''open'' then [] else [drift_status e])) \<and>
    (\<exists>new. approval_log (foldl drift_request db (ops @ later)) =
      approval_log (foldl drift_request db ops) @ new)"
proof -
  have "drift_ok db" using assms by (simp add: drift_ok_def resolutions_def)
  then have "drift_ok (foldl drift_request db ops)" by (rule drift.inv_run)
  then show ?thesis using drift.log_run [of "foldl drift_request db ops" later] by (auto simp: drift_ok_def)
qed

definition demo_event :: drift_event where
  "demo_event = \<lparr>drift_id = ''e'', drift_tenant = ''t'', drift_agent = ''a'', drift_type = ''model_swap'',
     drift_severity = ''high'', drift_field = ''model_name'', old_value = None, new_value = None,
     baseline_snapshot = ''b'', current_snapshot = ''c'', drift_status = ''open'', resolved_by = None,
     resolved_at = None, resolution_reason = None, drift_created = 0\<rparr>"

definition demo_drift_env :: drift_env where
  "demo_drift_env = \<lparr>drift_now = 1, log_uuid = ''l''\<rparr>"

definition demo_drift_db :: drift_db where
  "demo_drift_db = \<lparr>drift_events = [demo_event], approval_log = []\<rparr>"

lemma drift_resolved_once_witness:
  "resolutions ''t'' ''e'' (foldl drift_request demo_drift_db
     [Approve demo_drift_env ''t'' ''e'' ''u'' ''ok'' [], Reject demo_drift_env ''t'' ''e'' ''v'' ''no'' []]) =
   [''approved'']"
proof -
  let ?ops = "[Approve demo_drift_env ''t'' ''e'' ''u'' ''ok'' [], Reject demo_drift_env ''t'' ''e'' ''v'' ''no'' []]"
  let ?e = "resolve_event demo_drift_env ''approved'' ''u'' ''ok'' demo_event"
  have e: "?e \<in> set (drift_events (foldl drift_request demo_drift_db ?ops))"
    by (simp add: demo_drift_db_def demo_event_def approve_drift_def reject_drift_def resolve_drift_def
        open_event_def select_event_def is_event_def database_after_def append_log_def update_event_def
        resolve_event_def Let_def)
  have "approval_log demo_drift_db = []" "\<forall>e \<in> set (drift_events demo_drift_db). drift_status e = ''open''"
    by (simp_all add: demo_drift_db_def demo_event_def)
  from drift_resolved_once [OF this, of ?e ?ops] e show ?thesis
    by (simp add: resolve_event_def demo_event_def)
qed

section \<open>Interleaved requests\<close>

text \<open>
  A resolution between its statements: before the read, after it, after the update, and done. The
  statements of several requests interleave freely; the lock an update holds on its row until the request
  commits rules some orders out, but not the one where both requests read first.
\<close>

record drift_resolution =
  by_env :: drift_env
  for_tenant :: string
  for_event :: string
  by_user :: string
  with_action :: string
  with_reason :: string

datatype stage = Before | Checked | Updated | Finished "drift_error option"

fun drift_advance :: "drift_resolution \<Rightarrow> stage \<Rightarrow> drift_db \<Rightarrow> stage \<times> drift_db" where
  "drift_advance r Before db =
     (case open_event (for_tenant r) (for_event r) db of
        Inl e \<Rightarrow> (Finished (Some e), db) | Inr _ \<Rightarrow> (Checked, db))"
| "drift_advance r Checked db =
     (Updated, update_event (by_env r) (for_tenant r) (for_event r) (with_action r) (by_user r) (with_reason r) db)"
| "drift_advance r Updated db =
     (Finished None,
      snd (append_log (by_env r) (for_tenant r) (for_event r) (by_user r) (with_action r) (with_reason r) [] db))"
| "drift_advance r (Finished e) db = (Finished e, db)"

inductive drift_step :: "drift_db \<times> (drift_resolution \<times> stage) list \<Rightarrow>
    drift_db \<times> (drift_resolution \<times> stage) list \<Rightarrow> bool" where
  step: "i < length ps \<Longrightarrow> ps ! i = (r, s) \<Longrightarrow> drift_advance r s db = (s', db') \<Longrightarrow>
    drift_step (db, ps) (db', ps[i := (r, s')])"

inductive_cases drift_stepE: "drift_step (db, ps) x"

text \<open>Run alone, the three steps are the request.\<close>

lemma drift_advance_alone:
  "(let (s1, db1) = drift_advance r Before db; (s2, db2) = drift_advance r s1 db1; (s3, db3) = drift_advance r s2 db2
    in (s3, db3)) =
   (case resolve_drift (by_env r) (for_tenant r) (for_event r) (by_user r) (with_action r) (with_reason r) [] db of
      Inl e \<Rightarrow> (Finished (Some e), db) | Inr (_, _, db') \<Rightarrow> (Finished None, db'))"
  by (simp add: resolve_drift_def Let_def split: sum.splits prod.splits)

lemma drift_steps_log:
  "drift_step\<^sup>*\<^sup>* (db, ps) (db', ps') \<Longrightarrow> \<exists>new. approval_log db' = approval_log db @ new"
proof (induction "(db', ps')" arbitrary: db' ps' rule: rtranclp_induct)
  case (step y)
  obtain db1 ps1 where y: "y = (db1, ps1)" by (cases y)
  with step obtain new where new: "approval_log db1 = approval_log db @ new" by blast
  from step.hyps(2) y obtain r s s' where "drift_advance r s db1 = (s', db')" by (auto elim: drift_stepE)
  then have "\<exists>more. approval_log db' = approval_log db1 @ more"
    by (cases s) (auto simp: update_event_def append_log_def Let_def split: sum.splits)
  with new show ?case by (metis append.assoc)
qed simp

text \<open>
  When two requests resolve the same open event at the same time, both may succeed, whatever the two
  actions are: the update does not test the status again, so the event ends with the second action and
  the log holds both.
\<close>

theorem concurrent_resolutions_both_succeed:
  assumes "select_event t i db = Some e" and "drift_status e = ''open''"
    and "for_tenant r1 = t" "for_event r1 = i" "for_tenant r2 = t" "for_event r2 = i"
  shows "\<exists>db' rows. drift_step\<^sup>*\<^sup>* (db, [(r1, Before), (r2, Before)])
      (db', [(r1, Finished None), (r2, Finished None)]) \<and>
    map_option drift_status (select_event t i db') = Some (with_action r2) \<and>
    approval_log db' = approval_log db @ rows \<and> map approval_action rows = [with_action r1, with_action r2] \<and>
    map approval_event rows = [i, i]"
proof -
  let ?upd = "\<lambda>r. update_event (by_env r) t i (with_action r) (by_user r) (with_reason r)"
  let ?log = "\<lambda>r db. snd (append_log (by_env r) t i (by_user r) (with_action r) (with_reason r) [] db)"
  let ?db' = "?log r2 (?upd r2 (?log r1 (?upd r1 db)))"
  have chk: "drift_advance r1 Before db = (Checked, db)" "drift_advance r2 Before db = (Checked, db)"
    using assms by (simp_all add: open_event_def)
  have 1: "drift_step (db, [(r1, Before), (r2, Before)]) (db, [(r1, Checked), (r2, Before)])"
    using drift_step.step [of 0 "[(r1, Before), (r2, Before)]" r1 Before db Checked db] chk by simp
  have 2: "drift_step (db, [(r1, Checked), (r2, Before)]) (db, [(r1, Checked), (r2, Checked)])"
    using drift_step.step [of 1 "[(r1, Checked), (r2, Before)]" r2 Before db Checked db] chk by simp
  have 3: "drift_step (db, [(r1, Checked), (r2, Checked)]) (?upd r1 db, [(r1, Updated), (r2, Checked)])"
    using drift_step.step [of 0 "[(r1, Checked), (r2, Checked)]" r1 Checked db] assms by simp
  have 4: "drift_step (d, [(r1, Updated), (r2, s)]) (?log r1 d, [(r1, Finished None), (r2, s)])" for d s
    using drift_step.step [of 0 "[(r1, Updated), (r2, s)]" r1 Updated d] assms by simp
  have 5: "drift_step (d, [(r1, s), (r2, Checked)]) (?upd r2 d, [(r1, s), (r2, Updated)])" for d s
    using drift_step.step [of 1 "[(r1, s), (r2, Checked)]" r2 Checked d] assms by simp
  have 6: "drift_step (d, [(r1, s), (r2, Updated)]) (?log r2 d, [(r1, s), (r2, Finished None)])" for d s
    using drift_step.step [of 1 "[(r1, s), (r2, Updated)]" r2 Updated d] assms by simp
  have chain: "drift_step x y \<Longrightarrow> drift_step\<^sup>*\<^sup>* y z \<Longrightarrow> drift_step\<^sup>*\<^sup>* x z" for x y z
    by (rule converse_rtranclp_into_rtranclp)
  have reach: "drift_step\<^sup>*\<^sup>* (db, [(r1, Before), (r2, Before)]) (?db', [(r1, Finished None), (r2, Finished None)])"
    using chain [OF 1 chain [OF 2 chain [OF 3 chain [OF 4 chain [OF 5 chain [OF 6 rtranclp.rtrancl_refl]]]]]] .
  have sel: "select_event t i (?upd r d) =
      map_option (resolve_event (by_env r) (with_action r) (by_user r) (with_reason r)) (select_event t i d)" for r d
  proof -
    have "find (is_event t i) (map (\<lambda>e. if is_event t i e
          then resolve_event (by_env r) (with_action r) (by_user r) (with_reason r) e else e) es) =
        map_option (resolve_event (by_env r) (with_action r) (by_user r) (with_reason r)) (find (is_event t i) es)"
      for es by (induction es) (auto simp: is_event_def resolve_event_def)
    then show ?thesis by (simp add: select_event_def update_event_def)
  qed
  have logs: "select_event t i (?log r d) = select_event t i d" for r d
    by (simp add: select_event_def append_log_def Let_def)
  have "map_option drift_status (select_event t i ?db') = Some (with_action r2)"
    by (simp add: sel logs assms(1)) (simp add: resolve_event_def)
  then show ?thesis
    using reach by (intro exI [of _ ?db']) (auto simp: append_log_def update_event_def Let_def)
qed

definition demo_resolution :: "string \<Rightarrow> string \<Rightarrow> drift_resolution" where
  "demo_resolution user action = \<lparr>by_env = demo_drift_env, for_tenant = ''t'', for_event = ''e'', by_user = user,
     with_action = action, with_reason = []\<rparr>"

lemma concurrent_resolutions_both_succeed_witness:
  "\<exists>db'. drift_step\<^sup>*\<^sup>* (demo_drift_db,
       [(demo_resolution ''u'' ''rejected'', Before), (demo_resolution ''v'' ''approved'', Before)])
     (db', [(demo_resolution ''u'' ''rejected'', Finished None), (demo_resolution ''v'' ''approved'', Finished None)]) \<and>
     map_option drift_status (select_event ''t'' ''e'' db') = Some ''approved''"
proof -
  have "select_event ''t'' ''e'' demo_drift_db = Some demo_event" "drift_status demo_event = ''open''"
    by (simp_all add: select_event_def demo_drift_db_def is_event_def demo_event_def)
  from concurrent_resolutions_both_succeed [OF this, of "demo_resolution ''u'' ''rejected''"
      "demo_resolution ''v'' ''approved''"]
  show ?thesis by (auto simp: demo_resolution_def)
qed

end
