(* ===== verification/Drift_Detector.thy ===== *)
theory Drift_Detector
  imports Py_Sets Drift_Workflow
begin

text \<open>
  \<open>backend/app/services/drift/snapshot.py\<close> and \<open>detector.py\<close>: the snapshots of agent configurations, the
  comparison of a snapshot with the one before it, the drift policy of a tenant and the events it creates,
  and the request that submits a snapshot (\<open>routers/drift.py\<close>). JSON columns are held as the value
  \<open>json.loads\<close> gives; JSON texts, \<open>repr\<close> of values and the rounding of the REAL and JSONB columns are
  parameters. A request that raises is rolled back.
\<close>

section \<open>Tables\<close>

record snap_dict =
  model_provider :: "string option"
  model_name :: "string option"
  model_version :: "string option"
  prompt_hash :: "string option"
  tool_list :: pval
  permissions :: pval
  env_var_hashes :: pval
  dependencies :: pval
  rag_sources :: pval
  temperature :: "py_float option"
  framework_name :: "string option"
  framework_version :: "string option"

record snapshot_row = snap_dict +
  snap_id :: string
  snap_tenant :: string
  snap_agent :: string
  snap_version :: nat
  snapshot_trigger :: string
  captured_by :: "string option"
  snap_created :: rat

record drift_policy =
  policy_tenant :: string
  policy_mode :: string
  alert_on_model_swap :: bool
  alert_on_prompt_change :: bool
  alert_on_tool_change :: bool
  alert_on_permission_escalation :: bool
  alert_on_dependency_change :: bool
  alert_on_rag_change :: bool
  auto_revert_enabled :: bool
  maintenance_windows :: pval

record drift_tables =
  snapshots :: "snapshot_row list"
  policies :: "drift_policy list"
  drift_data :: drift_db

text \<open>What a request reads: the clock, the identifiers it draws, and the conversions of values.\<close>

record detector_env =
  det_now :: rat
  snap_uuid :: string
  event_uuid :: "nat \<Rightarrow> string"
  json_loads :: "string \<Rightarrow> pval option"
  json_dumps :: "pval \<Rightarrow> string"
  value_repr :: "pval \<Rightarrow> string"
  jsonb :: "pval \<Rightarrow> pval"
  real4 :: "py_float \<Rightarrow> py_float"

section \<open>Snapshots\<close>

definition next_version :: "string \<Rightarrow> string \<Rightarrow> drift_tables \<Rightarrow> nat" where
  "next_version tenant agent tb =
     foldl max 0 (map snap_version (filter (\<lambda>r. snap_tenant r = tenant \<and> snap_agent r = agent) (snapshots tb))) + 1"

definition stored_config :: "detector_env \<Rightarrow> snap_dict \<Rightarrow> snap_dict" where
  "stored_config w c =
     c\<lparr>tool_list := jsonb w (tool_list c), permissions := jsonb w (permissions c),
       env_var_hashes := jsonb w (env_var_hashes c), dependencies := jsonb w (dependencies c),
       rag_sources := jsonb w (rag_sources c), temperature := map_option (real4 w) (temperature c)\<rparr>"

definition snapshot_of :: "detector_env \<Rightarrow> string \<Rightarrow> string \<Rightarrow> nat \<Rightarrow> string \<Rightarrow> string option \<Rightarrow> snap_dict \<Rightarrow>
    snapshot_row" where
  "snapshot_of w tenant agent version trigger captured c =
     snap_dict.extend c
       (snapshot_row.fields (snap_uuid w) tenant agent version trigger captured (det_now w))"

definition create_snapshot :: "detector_env \<Rightarrow> string \<Rightarrow> string \<Rightarrow> string \<Rightarrow> string option \<Rightarrow> snap_dict \<Rightarrow>
    drift_tables \<Rightarrow> snapshot_row \<times> drift_tables" where
  "create_snapshot w tenant agent trigger captured c tb =
     (let row = snapshot_of w tenant agent (next_version tenant agent tb) trigger captured (stored_config w c)
      in (row, tb\<lparr>snapshots := snapshots tb @ [row]\<rparr>))"

definition list_snapshots :: "string \<Rightarrow> string option \<Rightarrow> nat \<Rightarrow> nat \<Rightarrow> drift_tables \<Rightarrow> snapshot_row list \<times> nat" where
  "list_snapshots tenant agent limit offset tb =
     (let rows = filter (\<lambda>r. snap_tenant r = tenant \<and>
                   (case agent of None \<Rightarrow> True | Some a \<Rightarrow> a = [] \<or> snap_agent r = a)) (snapshots tb)
      in (page limit offset (sort_key (\<lambda>r. - snap_created r) rows), length rows))"

definition get_snapshot :: "string \<Rightarrow> string \<Rightarrow> drift_tables \<Rightarrow> snapshot_row option" where
  "get_snapshot tenant i tb = find (\<lambda>r. snap_id r = i \<and> snap_tenant r = tenant) (snapshots tb)"

text \<open>\<open>ORDER BY version DESC LIMIT 1\<close>.\<close>

fun newest :: "snapshot_row list \<Rightarrow> snapshot_row option" where
  "newest [] = None"
| "newest (r # rs) =
     (case newest rs of
        None \<Rightarrow> Some r
      | Some b \<Rightarrow> if snap_version b \<le> snap_version r then Some r else Some b)"

definition get_latest_snapshot :: "string \<Rightarrow> string \<Rightarrow> drift_tables \<Rightarrow> snapshot_row option" where
  "get_latest_snapshot tenant agent tb =
     newest (filter (\<lambda>r. snap_tenant r = tenant \<and> snap_agent r = agent) (snapshots tb))"

text \<open>The snapshot just before a version, whatever became of the drift it brought.\<close>

definition baseline_of :: "string \<Rightarrow> string \<Rightarrow> nat \<Rightarrow> drift_tables \<Rightarrow> snapshot_row option" where
  "baseline_of tenant agent version tb =
     newest (filter (\<lambda>r. snap_tenant r = tenant \<and> snap_agent r = agent \<and> snap_version r < version) (snapshots tb))"

section \<open>Comparison\<close>

record drift =
  d_type :: string
  d_severity :: string
  d_field :: string
  d_old :: "string option"
  d_new :: "string option"

definition SEVERITY_MAP :: "(string, string) dict" where
  "SEVERITY_MAP =
     [(''model_swap'', ''critical''), (''prompt_change'', ''high''), (''tool_added'', ''high''),
      (''tool_removed'', ''medium''), (''permission_escalation'', ''critical''),
      (''dependency_change'', ''medium''), (''rag_change'', ''high''), (''config_change'', ''low'')]"

definition make_drift :: "detector_env \<Rightarrow> string \<Rightarrow> string \<Rightarrow> pval \<Rightarrow> pval \<Rightarrow> drift" where
  "make_drift w t f old new =
     \<lparr>d_type = t, d_severity = dict_get_or SEVERITY_MAP t ''medium'', d_field = f,
      d_old = (if old = VNone then None else Some (py_str (value_repr w) old)),
      d_new = (if new = VNone then None else Some (py_str (value_repr w) new))\<rparr>"

definition safe_json :: "detector_env \<Rightarrow> string \<Rightarrow> pval" where
  "safe_json w s = (case json_loads w s of None \<Rightarrow> VDict [] | Some v \<Rightarrow> v)"

definition decoded :: "detector_env \<Rightarrow> pval \<Rightarrow> pval" where
  "decoded w v = (case v of VStr s \<Rightarrow> safe_json w s | _ \<Rightarrow> v)"

definition truncate_text :: "string \<Rightarrow> string" where
  "truncate_text s = (if length s \<le> 256 then s else take 253 s @ ''...'')"

text \<open>The elements of a list value; anything else has none.\<close>

definition list_items :: "detector_env \<Rightarrow> pval \<Rightarrow> pval list" where
  "list_items w v = (case decoded w v of VList xs \<Rightarrow> xs | _ \<Rightarrow> [])"

definition field_or :: "(string, pval) dict \<Rightarrow> string \<Rightarrow> string \<Rightarrow> pval" where
  "field_or d k v = dict_get_or d k (VStr v)"

definition tool_name :: "detector_env \<Rightarrow> pval \<Rightarrow> pval" where
  "tool_name w t =
     (case t of
        VDict d \<Rightarrow> dict_get_or d ''name'' (VStr (py_str (value_repr w) t))
      | _ \<Rightarrow> VStr (py_str (value_repr w) t))"

definition tool_names :: "detector_env \<Rightarrow> pval \<Rightarrow> pval list option" where
  "tool_names w v = py_set (map (tool_name w) (list_items w v))"

definition dep_name :: "detector_env \<Rightarrow> pval \<Rightarrow> pval" where
  "dep_name w v =
     (case v of
        VDict d \<Rightarrow> VStr (py_str (value_repr w) (field_or d ''name'' ''?'') @ ''@'' @
                       py_str (value_repr w) (field_or d ''version'' ''?''))
      | _ \<Rightarrow> VStr (py_str (value_repr w) v))"

definition dep_set :: "detector_env \<Rightarrow> pval \<Rightarrow> pval list option" where
  "dep_set w v = py_set (map (dep_name w) (list_items w v))"

definition rag_name :: "detector_env \<Rightarrow> pval \<Rightarrow> pval" where
  "rag_name w v =
     (case v of
        VDict d \<Rightarrow> VStr (py_str (value_repr w) (field_or d ''type'' ''?'') @ '':'' @
                       py_str (value_repr w) (dict_get_or d ''endpoint'' (field_or d ''collection'' ''?'')))
      | _ \<Rightarrow> VStr (py_str (value_repr w) v))"

definition rag_set :: "detector_env \<Rightarrow> pval \<Rightarrow> pval list option" where
  "rag_set w v = py_set (map (rag_name w) (list_items w v))"

text \<open>The loop over the old permissions, in their order; an unhashable list element raises.\<close>

fun widened :: "(string, pval) dict \<Rightarrow> (string, pval) dict \<Rightarrow> bool option" where
  "widened [] new = Some False"
| "widened ((k, old_val) # rest) new =
     (case dict_get new k of
        None \<Rightarrow> widened rest new
      | Some new_val \<Rightarrow>
          if old_val = VBool False \<and> new_val = VBool True then Some True
          else (case (old_val, new_val) of
              (VList xs, VList ys) \<Rightarrow>
                (case (py_set ys, py_set xs) of
                   (Some ys', Some xs') \<Rightarrow> if set_minus ys' xs' \<noteq> [] then Some True else widened rest new
                 | _ \<Rightarrow> None)
            | _ \<Rightarrow> widened rest new))"

definition detect_permission_escalation :: "pval \<Rightarrow> pval \<Rightarrow> bool option" where
  "detect_permission_escalation old new =
     (case (old, new) of
        (VDict o', VDict n) \<Rightarrow>
          if \<exists>k \<in> set (dict_keys n). k \<notin> set (dict_keys o') then Some True else widened o' n
      | _ \<Rightarrow> Some (\<not> py_eq old new))"

definition model_drift :: "detector_env \<Rightarrow> string \<Rightarrow> string option \<Rightarrow> string option \<Rightarrow> drift list" where
  "model_drift w field old new =
     (if old \<noteq> new \<and> new \<noteq> None then [make_drift w ''model_swap'' field (text_value old) (text_value new)] else [])"

text \<open>Both texts given, not empty, and different.\<close>

definition text_drift :: "detector_env \<Rightarrow> string \<Rightarrow> string \<Rightarrow> string option \<Rightarrow> string option \<Rightarrow> drift list" where
  "text_drift w t field old new =
     (if truthy (text_value old) \<and> truthy (text_value new) \<and> old \<noteq> new
      then [make_drift w t field (text_value old) (text_value new)] else [])"

text \<open>One drift for each element added and one for each element removed, in sorted order.\<close>

definition set_drifts :: "detector_env \<Rightarrow> string \<Rightarrow> string \<Rightarrow> string \<Rightarrow> pval list \<Rightarrow> pval list \<Rightarrow> drift list option" where
  "set_drifts w t_add t_del field old new =
     (case (py_sorted (set_minus new old), py_sorted (set_minus old new)) of
        (Some added, Some removed) \<Rightarrow>
          Some (map (\<lambda>v. make_drift w t_add field VNone v) added @
                map (\<lambda>v. make_drift w t_del field v VNone) removed)
      | _ \<Rightarrow> None)"

definition tool_drifts :: "detector_env \<Rightarrow> snap_dict \<Rightarrow> snap_dict \<Rightarrow> drift list option" where
  "tool_drifts w b c =
     (case (tool_names w (tool_list b), tool_names w (tool_list c)) of
        (Some old, Some new) \<Rightarrow> set_drifts w ''tool_added'' ''tool_removed'' ''tool_list'' old new
      | _ \<Rightarrow> None)"

definition permission_drifts :: "detector_env \<Rightarrow> snap_dict \<Rightarrow> snap_dict \<Rightarrow> drift list option" where
  "permission_drifts w b c =
     (let old = decoded w (permissions b); new = decoded w (permissions c)
      in case detect_permission_escalation old new of
           None \<Rightarrow> None
         | Some False \<Rightarrow> Some []
         | Some True \<Rightarrow> Some [make_drift w ''permission_escalation'' ''permissions''
             (VStr (truncate_text (json_dumps w old))) (VStr (truncate_text (json_dumps w new)))])"

definition dep_drifts :: "detector_env \<Rightarrow> snap_dict \<Rightarrow> snap_dict \<Rightarrow> drift list option" where
  "dep_drifts w b c =
     (case (dep_set w (dependencies b), dep_set w (dependencies c)) of
        (Some old, Some new) \<Rightarrow>
          if same_set old new then Some []
          else set_drifts w ''dependency_change'' ''dependency_change'' ''dependencies'' old new
      | _ \<Rightarrow> None)"

definition rag_drifts :: "detector_env \<Rightarrow> snap_dict \<Rightarrow> snap_dict \<Rightarrow> drift list option" where
  "rag_drifts w b c =
     (case (rag_set w (rag_sources b), rag_set w (rag_sources c)) of
        (Some old, Some new) \<Rightarrow>
          if same_set old new then Some []
          else (case (py_sorted old, py_sorted new) of
              (Some o', Some n) \<Rightarrow> Some [make_drift w ''rag_change'' ''rag_sources''
                (VStr (truncate_text (value_repr w (VList o')))) (VStr (truncate_text (value_repr w (VList n))))]
            | _ \<Rightarrow> None)
      | _ \<Rightarrow> None)"

definition env_drifts :: "detector_env \<Rightarrow> snap_dict \<Rightarrow> snap_dict \<Rightarrow> drift list" where
  "env_drifts w b c =
     (if py_eq (decoded w (env_var_hashes b)) (decoded w (env_var_hashes c)) then []
      else [make_drift w ''config_change'' ''env_var_hashes'' (VStr ''[hashes changed]'') (VStr ''[hashes changed]'')])"

definition float_text :: "detector_env \<Rightarrow> py_float \<Rightarrow> pval" where
  "float_text w f = VStr (value_repr w (VNum (NFloat f)))"

definition temperature_drifts :: "detector_env \<Rightarrow> snap_dict \<Rightarrow> snap_dict \<Rightarrow> drift list" where
  "temperature_drifts w b c =
     (case (temperature b, temperature c) of
        (Some old, Some new) \<Rightarrow>
          if \<not> float_eq old new
          then [make_drift w ''config_change'' ''temperature'' (float_text w old) (float_text w new)] else []
      | _ \<Rightarrow> [])"

definition detect_drift :: "detector_env \<Rightarrow> snap_dict \<Rightarrow> snap_dict \<Rightarrow> drift list option" where
  "detect_drift w b c =
     (case tool_drifts w b c of None \<Rightarrow> None | Some tools \<Rightarrow>
      (case permission_drifts w b c of None \<Rightarrow> None | Some perms \<Rightarrow>
       (case dep_drifts w b c of None \<Rightarrow> None | Some deps \<Rightarrow>
        (case rag_drifts w b c of None \<Rightarrow> None | Some rag \<Rightarrow>
           Some (model_drift w ''model_provider'' (model_provider b) (model_provider c) @
                 model_drift w ''model_name'' (model_name b) (model_name c) @
                 model_drift w ''model_version'' (model_version b) (model_version c) @
                 text_drift w ''prompt_change'' ''prompt_hash'' (prompt_hash b) (prompt_hash c) @
                 tools @ perms @ deps @ rag @ env_drifts w b c @ temperature_drifts w b c @
                 text_drift w ''config_change'' ''framework_version'' (framework_version b) (framework_version c))))))"

section \<open>Policy\<close>

definition get_policy :: "string \<Rightarrow> drift_tables \<Rightarrow> drift_policy option" where
  "get_policy tenant tb = find (\<lambda>p. policy_tenant p = tenant) (policies tb)"

definition alerts_on :: "drift_policy \<Rightarrow> string \<Rightarrow> bool" where
  "alerts_on p t = dict_get_or
     [(''model_swap'', alert_on_model_swap p), (''prompt_change'', alert_on_prompt_change p),
      (''tool_added'', alert_on_tool_change p), (''tool_removed'', alert_on_tool_change p),
      (''permission_escalation'', alert_on_permission_escalation p),
      (''dependency_change'', alert_on_dependency_change p), (''rag_change'', alert_on_rag_change p),
      (''config_change'', True)] t True"

definition apply_policy_filter :: "drift list \<Rightarrow> drift_policy option \<Rightarrow> drift list" where
  "apply_policy_filter ds p = (case p of None \<Rightarrow> ds | Some p \<Rightarrow> filter (\<lambda>d. alerts_on p (d_type d)) ds)"

text \<open>Hour and weekday (0 is Monday) of a UTC time in seconds since 1970, a Thursday.\<close>

definition utc_hour :: "rat \<Rightarrow> int" where
  "utc_hour t = \<lfloor>t\<rfloor> div 3600 mod 24"

definition utc_weekday :: "rat \<Rightarrow> int" where
  "utc_weekday t = (\<lfloor>t\<rfloor> div 86400 + 3) mod 7"

text \<open>One window; \<open>None\<close> when a bound is not a number.\<close>

definition window_matches :: "rat \<Rightarrow> pval \<Rightarrow> bool option" where
  "window_matches now win =
     (case win of
        VDict d \<Rightarrow>
          if py_eq (dict_get_or d ''day_of_week'' VNone) (VNum (NInt (utc_weekday now))) then
            (let hour = VNum (NInt (utc_hour now));
                 start = dict_get_or d ''start_hour'' (VNum (NInt 0));
                 finish = dict_get_or d ''end_hour'' (VNum (NInt 0))
             in case py_le start hour of
                  None \<Rightarrow> None | Some False \<Rightarrow> Some False | Some True \<Rightarrow> py_lt hour finish)
          else Some False
      | _ \<Rightarrow> Some False)"

fun any_window :: "rat \<Rightarrow> pval list \<Rightarrow> bool option" where
  "any_window now [] = Some False"
| "any_window now (win # ws) =
     (case window_matches now win of
        None \<Rightarrow> None | Some True \<Rightarrow> Some True | Some False \<Rightarrow> any_window now ws)"

definition in_maintenance_window :: "detector_env \<Rightarrow> drift_policy option \<Rightarrow> bool option" where
  "in_maintenance_window w p =
     (case p of
        None \<Rightarrow> Some False
      | Some p \<Rightarrow>
          (let ws = decoded w (maintenance_windows p)
           in if \<not> truthy ws then Some False
              else case ws of
                  VList xs \<Rightarrow> any_window (det_now w) xs
                | VDict d \<Rightarrow> Some False
                | VStr s \<Rightarrow> Some False
                | _ \<Rightarrow> None))"

section \<open>Requests\<close>

definition event_of :: "detector_env \<Rightarrow> string \<Rightarrow> string \<Rightarrow> string \<Rightarrow> string \<Rightarrow> nat \<times> drift \<Rightarrow> drift_event" where
  "event_of w tenant agent base cur nd =
     \<lparr>drift_id = event_uuid w (fst nd), drift_tenant = tenant, drift_agent = agent, drift_type = d_type (snd nd),
      drift_severity = d_severity (snd nd), drift_field = d_field (snd nd), old_value = d_old (snd nd),
      new_value = d_new (snd nd), baseline_snapshot = base, current_snapshot = cur, drift_status = ''open'',
      resolved_by = None, resolved_at = None, resolution_reason = None, drift_created = det_now w\<rparr>"

definition insert_events :: "drift_event list \<Rightarrow> drift_tables \<Rightarrow> drift_tables" where
  "insert_events es tb =
     tb\<lparr>drift_data := (drift_data tb)\<lparr>drift_events := drift_events (drift_data tb) @ es\<rparr>\<rparr>"

definition mode_of :: "drift_policy option \<Rightarrow> string" where
  "mode_of p = (case p of None \<Rightarrow> ''learning'' | Some p \<Rightarrow> policy_mode p)"

definition process_snapshot_drift :: "detector_env \<Rightarrow> string \<Rightarrow> string \<Rightarrow> string \<Rightarrow> drift_tables \<Rightarrow>
    (drift_event list \<times> drift_tables) option" where
  "process_snapshot_drift w tenant agent current tb =
     (let policy = get_policy tenant tb; mode = mode_of policy
      in case get_snapshot tenant current tb of
           None \<Rightarrow> Some ([], tb)
         | Some cur \<Rightarrow>
             (case baseline_of tenant agent (snap_version cur) tb of
                None \<Rightarrow> Some ([], tb)
              | Some base \<Rightarrow>
                  (case detect_drift w (snap_dict.truncate base) (snap_dict.truncate cur) of
                     None \<Rightarrow> None
                   | Some [] \<Rightarrow> Some ([], tb)
                   | Some ds \<Rightarrow>
                       if mode = ''learning'' then Some ([], tb)
                       else (case in_maintenance_window w policy of
                           None \<Rightarrow> None
                         | Some inside \<Rightarrow>
                             if inside \<and> mode = ''standard'' then Some ([], tb)
                             else let es = map (event_of w tenant agent (snap_id base) current)
                                             (enumerate 0 (apply_policy_filter ds policy))
                                  in Some (es, insert_events es tb)))))"

text \<open>The request that submits a snapshot; \<open>None\<close> is the answer 400, with nothing stored.\<close>

definition create_config_snapshot :: "detector_env \<Rightarrow> string \<Rightarrow> string \<Rightarrow> string \<Rightarrow> string option \<Rightarrow> snap_dict \<Rightarrow>
    drift_tables \<Rightarrow> (snapshot_row \<times> drift_event list \<times> drift_tables) option" where
  "create_config_snapshot w tenant agent trigger captured c tb =
     (case create_snapshot w tenant agent trigger captured c tb of
        (row, tb1) \<Rightarrow>
          (case process_snapshot_drift w tenant agent (snap_id row) tb1 of
             None \<Rightarrow> None
           | Some (es, tb2) \<Rightarrow> Some (row, es, tb2)))"

text \<open>The arguments a caller leaves out get the defaults of \<open>kwargs.get\<close>, so an update resets them.\<close>

definition default_policy :: "string \<Rightarrow> string \<Rightarrow> drift_policy" where
  "default_policy tenant mode =
     \<lparr>policy_tenant = tenant, policy_mode = mode, alert_on_model_swap = True, alert_on_prompt_change = True,
      alert_on_tool_change = True, alert_on_permission_escalation = True, alert_on_dependency_change = False,
      alert_on_rag_change = True, auto_revert_enabled = False, maintenance_windows = VList []\<rparr>"

definition upsert_policy :: "detector_env \<Rightarrow> drift_policy \<Rightarrow> drift_tables \<Rightarrow> drift_tables option" where
  "upsert_policy w p tb =
     (if policy_mode p \<notin> {''strict'', ''standard'', ''learning''} then None
      else let p' = p\<lparr>maintenance_windows := jsonb w (maintenance_windows p)\<rparr>
           in Some (case get_policy (policy_tenant p) tb of
                None \<Rightarrow> tb\<lparr>policies := policies tb @ [p']\<rparr>
              | Some _ \<Rightarrow> tb\<lparr>policies := map (\<lambda>q. if policy_tenant q = policy_tenant p then p' else q) (policies tb)\<rparr>))"

definition list_drift_events :: "string \<Rightarrow> string option \<Rightarrow> string option \<Rightarrow> string option \<Rightarrow> nat \<Rightarrow> nat \<Rightarrow>
    drift_tables \<Rightarrow> drift_event list \<times> nat" where
  "list_drift_events tenant agent status severity limit offset tb =
     (let wants = (\<lambda>f x. case f of None \<Rightarrow> True | Some v \<Rightarrow> v = [] \<or> v = x);
          rows = filter (\<lambda>e. drift_tenant e = tenant \<and> wants agent (drift_agent e) \<and>
                    wants status (drift_status e) \<and> wants severity (drift_severity e)) (drift_events (drift_data tb))
      in (page limit offset (sort_key (\<lambda>e. - drift_created e) rows), length rows))"

definition get_drift_event :: "string \<Rightarrow> string \<Rightarrow> drift_tables \<Rightarrow> drift_event option" where
  "get_drift_event tenant i tb = select_event tenant i (drift_data tb)"

record drift_stats =
  total_drift_events :: nat
  open_drift_events :: nat
  critical_drift_events :: nat
  drift_events_last_24h :: nat
  total_snapshots :: nat
  monitored_agents :: nat
  stats_mode :: string

definition get_drift_stats :: "rat \<Rightarrow> string \<Rightarrow> drift_tables \<Rightarrow> drift_stats" where
  "get_drift_stats now tenant tb =
     (let es = filter (\<lambda>e. drift_tenant e = tenant) (drift_events (drift_data tb));
          ss = filter (\<lambda>r. snap_tenant r = tenant) (snapshots tb)
      in \<lparr>total_drift_events = length es,
          open_drift_events = length (filter (\<lambda>e. drift_status e = ''open'') es),
          critical_drift_events = length (filter (\<lambda>e. drift_severity e = ''critical'') es),
          drift_events_last_24h = length (filter (\<lambda>e. now - 86400 < drift_created e) es),
          total_snapshots = length ss,
          monitored_agents = length (remdups (map snap_agent ss)),
          stats_mode = mode_of (get_policy tenant tb)\<rparr>)"

section \<open>Differences for display\<close>

text \<open>\<open>_normalise\<close> reads a text as JSON where it can.\<close>

definition normalise :: "detector_env \<Rightarrow> pval \<Rightarrow> pval" where
  "normalise w v = (case v of VStr s \<Rightarrow> (case json_loads w s of None \<Rightarrow> v | Some x \<Rightarrow> x) | _ \<Rightarrow> v)"

definition diff_fields :: "snap_dict \<Rightarrow> (string \<times> pval) list" where
  "diff_fields r =
     [(''model_provider'', text_value (model_provider r)), (''model_name'', text_value (model_name r)),
      (''model_version'', text_value (model_version r)), (''prompt_hash'', text_value (prompt_hash r)),
      (''tool_list'', tool_list r), (''permissions'', permissions r), (''env_var_hashes'', env_var_hashes r),
      (''dependencies'', dependencies r), (''rag_sources'', rag_sources r),
      (''temperature'', (case temperature r of None \<Rightarrow> VNone | Some f \<Rightarrow> VNum (NFloat f))),
      (''framework_name'', text_value (framework_name r)), (''framework_version'', text_value (framework_version r))]"

definition diff_snapshots :: "detector_env \<Rightarrow> string \<Rightarrow> string \<Rightarrow> string \<Rightarrow> drift_tables \<Rightarrow>
    (string \<times> pval \<times> pval) list option" where
  "diff_snapshots w tenant i j tb =
     (case (get_snapshot tenant i tb, get_snapshot tenant j tb) of
        (Some a, Some b) \<Rightarrow>
          Some (filter (\<lambda>(f, x, y). \<not> py_eq x y)
            (map2 (\<lambda>(f, x) (g, y). (f, normalise w x, normalise w y))
               (diff_fields (snap_dict.truncate a)) (diff_fields (snap_dict.truncate b))))
      | _ \<Rightarrow> None)"

end
