(* ===== verification/Drift_Detector_Props.thy ===== *)
theory Drift_Detector_Props
  imports Drift_Detector
begin

text \<open>
  What the comparison of snapshots reports and what it does not, the versions of snapshots, and how a
  rejected change becomes the baseline.
\<close>

section \<open>No drift\<close>

definition texts_agree :: "string option \<Rightarrow> string option \<Rightarrow> bool" where
  "texts_agree old new \<longleftrightarrow> old = new \<or> old \<in> {None, Some []} \<or> new \<in> {None, Some []}"

definition sets_agree :: "pval list option \<Rightarrow> pval list option \<Rightarrow> bool" where
  "sets_agree old new \<longleftrightarrow> (\<exists>xs ys. old = Some xs \<and> new = Some ys \<and> same_set xs ys)"

definition temperatures_agree :: "py_float option \<Rightarrow> py_float option \<Rightarrow> bool" where
  "temperatures_agree old new \<longleftrightarrow> old = None \<or> new = None \<or> float_eq (the old) (the new)"

lemma make_drift_field [simp]: "d_field (make_drift w t f x y) = f" "d_type (make_drift w t f x y) = t"
  by (simp_all add: make_drift_def)

lemma text_drift_empty: "text_drift w t f old new = [] \<longleftrightarrow> texts_agree old new"
  by (auto simp: text_drift_def texts_agree_def text_value_def split: option.splits)

lemma set_drifts_empty: "set_drifts w t u f old new = Some [] \<longleftrightarrow> same_set old new"
  by (auto simp: set_drifts_def same_set_def split: option.splits dest: py_sorted_set)

lemma set_drifts_same: "same_set old new \<Longrightarrow> set_drifts w t u f old new = Some []"
  by (simp add: set_drifts_empty)

lemma tool_drifts_empty:
  "tool_drifts w b c = Some [] \<longleftrightarrow> sets_agree (tool_names w (tool_list b)) (tool_names w (tool_list c))"
  by (auto simp: tool_drifts_def sets_agree_def set_drifts_empty split: option.splits)

lemma dep_drifts_empty:
  "dep_drifts w b c = Some [] \<longleftrightarrow> sets_agree (dep_set w (dependencies b)) (dep_set w (dependencies c))"
  by (auto simp: dep_drifts_def sets_agree_def set_drifts_empty split: option.splits if_splits)

lemma rag_drifts_empty:
  "rag_drifts w b c = Some [] \<longleftrightarrow> sets_agree (rag_set w (rag_sources b)) (rag_set w (rag_sources c))"
  by (auto simp: rag_drifts_def sets_agree_def split: option.splits if_splits)

lemma permission_drifts_empty:
  "permission_drifts w b c = Some [] \<longleftrightarrow>
     detect_permission_escalation (decoded w (permissions b)) (decoded w (permissions c)) = Some False"
  by (auto simp: permission_drifts_def Let_def split: option.splits bool.splits)

lemma model_drift_empty: "model_drift w f old new = [] \<longleftrightarrow> new = None \<or> old = new"
  by (auto simp: model_drift_def)

lemma env_drifts_empty:
  "env_drifts w b c = [] \<longleftrightarrow> py_eq (decoded w (env_var_hashes b)) (decoded w (env_var_hashes c))"
  by (simp add: env_drifts_def)

lemma temperature_drifts_empty: "temperature_drifts w b c = [] \<longleftrightarrow> temperatures_agree (temperature b) (temperature c)"
  by (auto simp: temperature_drifts_def temperatures_agree_def split: option.splits)

lemmas drift_empty = tool_drifts_empty dep_drifts_empty rag_drifts_empty permission_drifts_empty
  model_drift_empty env_drifts_empty temperature_drifts_empty text_drift_empty

lemma detect_drift_empty:
  "detect_drift w b c = Some [] \<longleftrightarrow>
     tool_drifts w b c = Some [] \<and> permission_drifts w b c = Some [] \<and> dep_drifts w b c = Some [] \<and>
     rag_drifts w b c = Some [] \<and>
     model_drift w ''model_provider'' (model_provider b) (model_provider c) = [] \<and>
     model_drift w ''model_name'' (model_name b) (model_name c) = [] \<and>
     model_drift w ''model_version'' (model_version b) (model_version c) = [] \<and>
     text_drift w ''prompt_change'' ''prompt_hash'' (prompt_hash b) (prompt_hash c) = [] \<and>
     env_drifts w b c = [] \<and> temperature_drifts w b c = [] \<and>
     text_drift w ''config_change'' ''framework_version'' (framework_version b) (framework_version c) = []"
  by (auto simp: detect_drift_def split: option.splits)

text \<open>The comparison is quiet when each of its parts is.\<close>

lemma detect_drift_quiet:
  "detect_drift w b c = Some [] \<longleftrightarrow>
     (model_provider c = None \<or> model_provider b = model_provider c) \<and>
     (model_name c = None \<or> model_name b = model_name c) \<and>
     (model_version c = None \<or> model_version b = model_version c) \<and>
     texts_agree (prompt_hash b) (prompt_hash c) \<and>
     sets_agree (tool_names w (tool_list b)) (tool_names w (tool_list c)) \<and>
     detect_permission_escalation (decoded w (permissions b)) (decoded w (permissions c)) = Some False \<and>
     sets_agree (dep_set w (dependencies b)) (dep_set w (dependencies c)) \<and>
     sets_agree (rag_set w (rag_sources b)) (rag_set w (rag_sources c)) \<and>
     py_eq (decoded w (env_var_hashes b)) (decoded w (env_var_hashes c)) \<and>
     temperatures_agree (temperature b) (temperature c) \<and>
     texts_agree (framework_version b) (framework_version c)"
  unfolding detect_drift_empty drift_empty by blast

section \<open>Resubmission\<close>

text \<open>A configuration as the columns hold it, whose lists the comparison can put into sets.\<close>

definition comparable :: "detector_env \<Rightarrow> snap_dict \<Rightarrow> bool" where
  "comparable w c \<longleftrightarrow>
     tool_names w (tool_list c) \<noteq> None \<and>
     detect_permission_escalation (decoded w (permissions c)) (decoded w (permissions c)) \<noteq> None \<and>
     list_all (\<lambda>t. json_value (tool_name w t)) (list_items w (tool_list c)) \<and>
     json_value (decoded w (permissions c)) \<and> json_value (decoded w (env_var_hashes c)) \<and>
     temperature c \<noteq> Some FNaN"

lemma strings_json: "list_all json_value (map (dep_name w) xs)" "list_all json_value (map (rag_name w) xs)"
  "list_all set_hashable (map (dep_name w) xs)" "list_all set_hashable (map (rag_name w) xs)"
  by (auto simp: list_all_iff dep_name_def rag_name_def split: pval.splits)

lemma py_set_json: "list_all json_value xs \<Longrightarrow> py_set xs = Some s \<Longrightarrow> list_all json_value s"
  by (metis list_all_iff py_set_subset subsetD)

lemma sets_agree_self: "list_all json_value xs \<Longrightarrow> py_set xs \<noteq> None \<Longrightarrow> sets_agree (py_set xs) (py_set xs)"
  by (auto simp: sets_agree_def intro: same_set_self py_set_json)

lemma py_set_strings: "py_set (map (dep_name w) xs) \<noteq> None" "py_set (map (rag_name w) xs) \<noteq> None"
  using strings_json by (auto simp: py_set_def)

lemma widened_self:
  assumes "distinct (map fst d)" and "list_all (\<lambda>p. json_value (snd p)) d" and "set e \<subseteq> set d"
  shows "widened e d \<noteq> Some True"
  using assms(3)
proof (induction e)
  case (Cons p e)
  obtain k v where p: "p = (k, v)" by (cases p)
  with Cons.prems assms(1) have get: "dict_get d k = Some v" by (simp add: map_of_eq_Some_iff)
  have json: "json_value v" using p Cons.prems assms(2) by (auto simp: list_all_iff)
  show ?case
  proof (cases v)
    case (VList xs)
    with json have "set_minus ys ys = []" if "py_set xs = Some ys" for ys
      using py_set_json [OF _ that] by (simp add: set_minus_self)
    with VList get Cons show ?thesis by (auto simp: p split: option.splits)
  qed (use get Cons in \<open>auto simp: p\<close>)
qed simp

lemma no_escalation_self:
  assumes "json_value v"
  shows "detect_permission_escalation v v \<noteq> Some True"
proof (cases v)
  case (VDict d)
  with assms have "widened d d \<noteq> Some True" by (intro widened_self) auto
  with VDict show ?thesis by (simp add: detect_permission_escalation_def)
qed (use py_eq_refl [OF assms] in \<open>simp_all add: detect_permission_escalation_def\<close>)

text \<open>A snapshot compared with an equal configuration shows no drift.\<close>

lemma detect_drift_self:
  assumes "comparable w c"
  shows "detect_drift w c c = Some []"
proof -
  let ?p = "decoded w (permissions c)"
  have perms: "detect_permission_escalation ?p ?p = Some False"
    using assms no_escalation_self [of ?p] by (auto simp: comparable_def)
  have "sets_agree (tool_names w (tool_list c)) (tool_names w (tool_list c))"
    using assms unfolding tool_names_def comparable_def
    by (intro sets_agree_self) (auto simp: list_all_iff)
  moreover have "sets_agree (dep_set w (dependencies c)) (dep_set w (dependencies c))"
    unfolding dep_set_def by (intro sets_agree_self strings_json py_set_strings)
  moreover have "sets_agree (rag_set w (rag_sources c)) (rag_set w (rag_sources c))"
    unfolding rag_set_def by (intro sets_agree_self strings_json py_set_strings)
  moreover have "temperatures_agree (temperature c) (temperature c)"
    using assms by (cases "temperature c") (auto simp: temperatures_agree_def comparable_def)
  ultimately show ?thesis
    using assms perms by (simp add: detect_drift_quiet texts_agree_def py_eq_refl comparable_def)
qed

lemma le_foldl_max: "x \<in> set xs \<or> x \<le> m \<Longrightarrow> x \<le> foldl max (m :: nat) xs"
proof (induction xs arbitrary: m)
  case (Cons y ys)
  from Cons.IH [of "max m y"] Cons.prems show ?case by (auto simp: le_max_iff_disj)
qed simp

lemma next_version_fresh:
  assumes "r \<in> set (snapshots tb)" and "snap_tenant r = t" and "snap_agent r = a"
  shows "snap_version r < next_version t a tb"
proof -
  have "snap_version r \<in> set (map snap_version (filter (\<lambda>r. snap_tenant r = t \<and> snap_agent r = a) (snapshots tb)))"
    using assms by simp
  then have "snap_version r \<le> foldl max 0
      (map snap_version (filter (\<lambda>r. snap_tenant r = t \<and> snap_agent r = a) (snapshots tb)))"
    by (intro le_foldl_max disjI1)
  then show ?thesis by (simp add: next_version_def)
qed

lemma newest_snoc: "\<forall>x \<in> set rs. snap_version x < snap_version r \<Longrightarrow> newest (rs @ [r]) = Some r"
  by (induction rs) auto

lemma newest_mem: "newest rs = Some r \<Longrightarrow> r \<in> set rs"
  by (induction rs arbitrary: r) (auto split: option.splits if_splits)

lemma find_snoc: "\<forall>x \<in> set xs. \<not> P x \<Longrightarrow> P y \<Longrightarrow> find P (xs @ [y]) = Some y"
  by (induction xs) auto

lemma snapshot_of_simps [simp]:
  "snap_id (snapshot_of w t a v tr ca c) = snap_uuid w" "snap_tenant (snapshot_of w t a v tr ca c) = t"
  "snap_agent (snapshot_of w t a v tr ca c) = a" "snap_version (snapshot_of w t a v tr ca c) = v"
  "snap_dict.truncate (snapshot_of w t a v tr ca c) = c"
  by (simp_all add: snapshot_of_def snap_dict.extend_def snapshot_row.fields_def snap_dict.truncate_def)

text \<open>What a submission compares: the stored configuration with the latest one before it.\<close>

lemma submission_compares:
  assumes "create_snapshot w t a tr ca c tb = (row, tb1)" and "snap_uuid w \<notin> snap_id ` set (snapshots tb)"
  shows "get_snapshot t (snap_id row) tb1 = Some row \<and> snap_dict.truncate row = stored_config w c \<and>
    baseline_of t a (snap_version row) tb1 = get_latest_snapshot t a tb"
proof -
  from assms(1) have row: "row = snapshot_of w t a (next_version t a tb) tr ca (stored_config w c)"
    and tb1: "snapshots tb1 = snapshots tb @ [row]"
    by (auto simp: create_snapshot_def Let_def)
  have "get_snapshot t (snap_id row) tb1 = Some row"
    unfolding get_snapshot_def tb1 by (rule find_snoc) (use assms(2) row in \<open>auto simp: image_iff\<close>)
  moreover have "filter (\<lambda>r. snap_tenant r = t \<and> snap_agent r = a \<and> snap_version r < snap_version row) (snapshots tb) =
      filter (\<lambda>r. snap_tenant r = t \<and> snap_agent r = a) (snapshots tb)"
    using next_version_fresh [of _ tb t a] by (intro filter_cong) (auto simp: row)
  ultimately show ?thesis
    by (simp add: row baseline_of_def get_latest_snapshot_def tb1)
qed

lemma latest_after_create:
  assumes "create_snapshot w t a tr ca c tb = (row, tb1)"
  shows "get_latest_snapshot t a tb1 = Some row"
proof -
  from assms have row: "row = snapshot_of w t a (next_version t a tb) tr ca (stored_config w c)"
    and tb1: "snapshots tb1 = snapshots tb @ [row]"
    by (auto simp: create_snapshot_def Let_def)
  have "newest (filter (\<lambda>r. snap_tenant r = t \<and> snap_agent r = a) (snapshots tb) @ [row]) = Some row"
    using next_version_fresh [of _ tb t a] by (intro newest_snoc) (auto simp: row)
  then show ?thesis by (simp add: get_latest_snapshot_def tb1 row)
qed

lemma process_keeps:
  assumes "process_snapshot_drift w t a i tb = Some (es, tb1)"
  shows "tb1 = insert_events es tb"
  using assms by (auto simp: process_snapshot_drift_def Let_def insert_events_def split: option.splits list.splits if_splits)

text \<open>
  A configuration that was submitted once is the baseline from then on, whatever was decided about the
  drift it brought: after any approvals, rejections and reversions a second submission of it is accepted
  without a drift event.
\<close>

theorem rejected_change_becomes_baseline:
  assumes "create_config_snapshot w t a tr ca c tb = Some (row, es, tb1)"
    and "tb2 = tb1\<lparr>drift_data := foldl drift_request (drift_data tb1) ops\<rparr>"
    and "snap_uuid w' \<notin> snap_id ` set (snapshots tb1)" and "jsonb w' = jsonb w" and "real4 w' = real4 w"
    and "comparable w' (stored_config w' c)"
  shows "\<exists>row' tb3. create_config_snapshot w' t a tr' ca' c tb2 = Some (row', [], tb3) \<and> drift_data tb3 = drift_data tb2"
proof -
  obtain tb0 where tb0: "create_snapshot w t a tr ca c tb = (row, tb0)"
    and proc: "process_snapshot_drift w t a (snap_id row) tb0 = Some (es, tb1)"
    using assms(1) by (auto simp: create_config_snapshot_def split: prod.splits option.splits)
  have same: "snapshots tb2 = snapshots tb0"
    using process_keeps [OF proc] assms(2) by (simp add: insert_events_def)
  have "snap_dict.truncate row = stored_config w c"
    using tb0 by (auto simp: create_snapshot_def Let_def)
  moreover have "stored_config w' c = stored_config w c" by (simp add: stored_config_def assms(4,5))
  ultimately have old: "snap_dict.truncate row = stored_config w' c" by simp
  obtain row' tb3 where new: "create_snapshot w' t a tr' ca' c tb2 = (row', tb3)"
    by (cases "create_snapshot w' t a tr' ca' c tb2")
  have "snap_uuid w' \<notin> snap_id ` set (snapshots tb2)"
    using assms(3) process_keeps [OF proc] same by (simp add: insert_events_def)
  note compares = submission_compares [OF new this]
  have "get_latest_snapshot t a tb2 = Some row"
    using latest_after_create [OF tb0] same by (simp add: get_latest_snapshot_def)
  with compares old detect_drift_self [OF assms(6)]
  have "process_snapshot_drift w' t a (snap_id row') tb3 = Some ([], tb3)"
    by (simp add: process_snapshot_drift_def)
  moreover have "drift_data tb3 = drift_data tb2" using new by (auto simp: create_snapshot_def Let_def)
  ultimately show ?thesis by (simp add: create_config_snapshot_def new)
qed

definition demo_detector :: "string \<Rightarrow> detector_env" where
  "demo_detector i =
     \<lparr>det_now = 0, snap_uuid = i, event_uuid = (\<lambda>n. i @ nat_to_string n), json_loads = (\<lambda>s. None),
      json_dumps = (\<lambda>v. ''{}''), value_repr = (\<lambda>v. ''?''), jsonb = (\<lambda>v. v), real4 = (\<lambda>f. f)\<rparr>"

definition demo_snapshot :: "string \<Rightarrow> snap_dict" where
  "demo_snapshot tool =
     \<lparr>model_provider = None, model_name = Some ''m'', model_version = None, prompt_hash = None,
      tool_list = VList [VDict [(''name'', VStr tool)]], permissions = VDict [], env_var_hashes = VDict [],
      dependencies = VList [], rag_sources = VList [], temperature = None, framework_name = None,
      framework_version = None\<rparr>"

definition demo_tables :: drift_tables where
  "demo_tables =
     \<lparr>snapshots = [snapshot_of (demo_detector ''s0'') ''t'' ''a'' 1 ''manual'' None (demo_snapshot ''search'')],
      policies = [default_policy ''t'' ''strict''], drift_data = \<lparr>drift_events = [], approval_log = []\<rparr>\<rparr>"

lemmas demo_drift_defs = create_config_snapshot_def create_snapshot_def process_snapshot_drift_def
  get_snapshot_def baseline_of_def next_version_def get_policy_def mode_of_def default_policy_def
  in_maintenance_window_def detect_drift_def tool_drifts_def permission_drifts_def dep_drifts_def rag_drifts_def
  env_drifts_def temperature_drifts_def text_drift_def model_drift_def tool_names_def dep_set_def rag_set_def
  list_items_def decoded_def tool_name_def py_set_def set_add_def set_minus_def same_set_def py_in_list_def
  set_drifts_def detect_permission_escalation_def apply_policy_filter_def alerts_on_def dict_get_or_def
  stored_config_def text_value_def insert_events_def event_of_def make_drift_def SEVERITY_MAP_def
  get_latest_snapshot_def demo_tables_def demo_snapshot_def demo_detector_def Let_def

lemma demo_submission:
  "\<exists>row tb1. create_config_snapshot (demo_detector ''s1'') ''t'' ''a'' ''manual'' None (demo_snapshot ''shell'') demo_tables
     = Some (row, drift_events (drift_data tb1), tb1) \<and>
   map (\<lambda>e. (drift_type e, old_value e, new_value e)) (drift_events (drift_data tb1)) =
     [(''tool_added'', None, Some ''shell''), (''tool_removed'', Some ''search'', None)] \<and>
   map snap_id (snapshots tb1) = [''s0'', ''s1'']"
  by (simp add: demo_drift_defs)

lemma rejected_change_becomes_baseline_witness:
  "\<exists>row es tb1 row' tb3.
     create_config_snapshot (demo_detector ''s1'') ''t'' ''a'' ''manual'' None (demo_snapshot ''shell'') demo_tables
       = Some (row, es, tb1) \<and> length es = 2 \<and>
     create_config_snapshot (demo_detector ''s2'') ''t'' ''a'' ''manual'' None (demo_snapshot ''shell'')
       (tb1\<lparr>drift_data := foldl drift_request (drift_data tb1)
          [Reject \<lparr>drift_now = 1, log_uuid = ''l''\<rparr> ''t'' ''s10'' ''u'' ''no shell'' []]\<rparr>) = Some (row', [], tb3)"
proof -
  obtain row tb1 where sub: "create_config_snapshot (demo_detector ''s1'') ''t'' ''a'' ''manual'' None
      (demo_snapshot ''shell'') demo_tables = Some (row, drift_events (drift_data tb1), tb1)"
    "length (drift_events (drift_data tb1)) = 2" "map snap_id (snapshots tb1) = [''s0'', ''s1'']"
    using demo_submission by (metis (no_types, lifting) length_Cons length_map list.size(3) numeral_2_eq_2)
  then have ids: "snap_id ` set (snapshots tb1) = {''s0'', ''s1''}"
    by (metis list.simps(15) empty_set set_map)
  have "comparable (demo_detector ''s2'') (stored_config (demo_detector ''s2'') (demo_snapshot ''shell''))"
    by (simp add: comparable_def demo_drift_defs)
  moreover have "snap_uuid (demo_detector ''s2'') \<notin> snap_id ` set (snapshots tb1)"
    by (simp add: ids demo_detector_def)
  moreover have "jsonb (demo_detector ''s2'') = jsonb (demo_detector ''s1'')"
    "real4 (demo_detector ''s2'') = real4 (demo_detector ''s1'')"
    by (simp_all add: demo_detector_def)
  ultimately obtain row' tb3 where "create_config_snapshot (demo_detector ''s2'') ''t'' ''a'' ''manual'' None
      (demo_snapshot ''shell'') (tb1\<lparr>drift_data := foldl drift_request (drift_data tb1)
          [Reject \<lparr>drift_now = 1, log_uuid = ''l''\<rparr> ''t'' ''s10'' ''u'' ''no shell'' []]\<rparr>) = Some (row', [], tb3)"
    using rejected_change_becomes_baseline [OF sub(1) refl] by blast
  with sub(1,2) show ?thesis by blast
qed

section \<open>What is reported\<close>

text \<open>A policy that reports: not learning, and not a standard policy inside a maintenance window.\<close>

definition reports :: "detector_env \<Rightarrow> drift_policy \<Rightarrow> bool" where
  "reports w p \<longleftrightarrow> policy_mode p \<noteq> ''learning'' \<and>
     \<not> (policy_mode p = ''standard'' \<and> in_maintenance_window w (Some p) = Some True)"

lemma process_reports:
  assumes "process_snapshot_drift w t a i tb = Some (es, tb')" and "get_policy t tb = Some p" and "reports w p"
    and "get_snapshot t i tb = Some cur" and "baseline_of t a (snap_version cur) tb = Some base"
    and "detect_drift w (snap_dict.truncate base) (snap_dict.truncate cur) = Some ds"
  shows "es = map (event_of w t a (snap_id base) i) (enumerate 0 (filter (\<lambda>d. alerts_on p (d_type d)) ds))"
  using assms by (auto simp: process_snapshot_drift_def reports_def mode_of_def Let_def apply_policy_filter_def
      split: option.splits list.splits if_splits)

lemma process_compared:
  assumes "process_snapshot_drift w t a i tb = Some (es, tb')"
    and "get_snapshot t i tb = Some cur" and "baseline_of t a (snap_version cur) tb = Some base"
  shows "detect_drift w (snap_dict.truncate base) (snap_dict.truncate cur) \<noteq> None"
proof
  assume "detect_drift w (snap_dict.truncate base) (snap_dict.truncate cur) = None"
  with assms show False by (simp add: process_snapshot_drift_def Let_def)
qed

lemma numbered: "x \<in> set xs \<Longrightarrow> \<exists>k. (k, x) \<in> set (enumerate n xs)"
  by (induction xs arbitrary: n) auto

lemma tools_in_detect:
  assumes "detect_drift w b c = Some ds" and "tool_drifts w b c = Some tools"
  shows "set tools \<subseteq> set ds"
  using assms by (auto simp: detect_drift_def split: option.splits)

lemma added_tool_drift:
  assumes "tool_drifts w b c = Some tools" and "tool_names w (tool_list b) = Some old"
    and "tool \<in> set (list_items w (tool_list c))" and "tool_name w tool = VStr n" and "\<not> py_in_list (VStr n) old"
  shows "make_drift w ''tool_added'' ''tool_list'' VNone (VStr n) \<in> set tools"
proof -
  obtain new where new: "tool_names w (tool_list c) = Some new"
    and sets: "set_drifts w ''tool_added'' ''tool_removed'' ''tool_list'' old new = Some tools"
    using assms(1,2) by (auto simp: tool_drifts_def split: option.splits)
  have "VStr n \<in> set (map (tool_name w) (list_items w (tool_list c)))"
    using assms(3,4) by (metis image_eqI set_map)
  then have "py_in_list (VStr n) new"
    using new set_adds_have [of "VStr n" "map (tool_name w) (list_items w (tool_list c))" "[]"]
    by (auto simp: tool_names_def py_set_def simp del: set_map split: if_splits)
  then have "VStr n \<in> set new"
    by (simp add: in_list_text)
  then have "VStr n \<in> set (set_minus new old)" using assms(5) by (simp add: set_minus_def)
  with sets show ?thesis
    by (auto simp: set_drifts_def split: option.splits dest!: py_sorted_set)
qed

text \<open>
  C19: When the policy of the tenant reports and alerts on tools, a submission that is accepted creates an
  open drift event of severity high for every named tool the latest snapshot of the agent did not have.
\<close>

theorem new_tool_reported:
  assumes "create_config_snapshot w t a tr ca c tb = Some (row, es, tb')"
    and "snap_uuid w \<notin> snap_id ` set (snapshots tb)"
    and "get_policy t tb = Some p" and "reports w p" and "alert_on_tool_change p"
    and "get_latest_snapshot t a tb = Some base" and "tool_names w (tool_list base) = Some old"
    and "tool \<in> set (list_items w (tool_list (stored_config w c)))" and "tool_name w tool = VStr n"
    and "\<not> py_in_list (VStr n) old"
  shows "\<exists>e \<in> set es. e \<in> set (drift_events (drift_data tb')) \<and> drift_type e = ''tool_added'' \<and>
    new_value e = Some n \<and> drift_severity e = ''high'' \<and> drift_status e = ''open'' \<and>
    drift_agent e = a \<and> drift_tenant e = t \<and> current_snapshot e = snap_id row"
proof -
  obtain tb0 where tb0: "create_snapshot w t a tr ca c tb = (row, tb0)"
    and proc: "process_snapshot_drift w t a (snap_id row) tb0 = Some (es, tb')"
    using assms(1) by (auto simp: create_config_snapshot_def split: prod.splits option.splits)
  note compares = submission_compares [OF tb0 assms(2)]
  have policy: "get_policy t tb0 = Some p"
    using tb0 assms(3) by (auto simp: create_snapshot_def get_policy_def Let_def)
  let ?b = "snap_dict.truncate base" and ?c = "stored_config w c"
  have "detect_drift w ?b ?c \<noteq> None"
    using process_compared [OF proc, of row base] compares assms(6) by simp
  then obtain ds where ds: "detect_drift w ?b ?c = Some ds" by blast
  then obtain tools where tools: "tool_drifts w ?b ?c = Some tools"
    by (auto simp: detect_drift_def split: option.splits)
  have "tool_list ?b = tool_list base" by (simp add: snap_dict.truncate_def)
  with assms(7) have old: "tool_names w (tool_list ?b) = Some old" by simp
  let ?d = "make_drift w ''tool_added'' ''tool_list'' VNone (VStr n)"
  have "?d \<in> set ds"
    using added_tool_drift [OF tools old assms(8-10)] tools_in_detect [OF ds tools] by blast
  then have "?d \<in> set (filter (\<lambda>d. alerts_on p (d_type d)) ds)"
    using assms(5) by (simp add: alerts_on_def dict_get_or_def)
  from numbered [OF this, of 0] obtain k where k: "(k, ?d) \<in> set (enumerate 0 (filter (\<lambda>d. alerts_on p (d_type d)) ds))"
    by blast
  have es: "es = map (event_of w t a (snap_id base) (snap_id row))
      (enumerate 0 (filter (\<lambda>d. alerts_on p (d_type d)) ds))"
    using process_reports [OF proc policy assms(4), of row base ds] compares ds assms(6) by metis
  let ?e = "event_of w t a (snap_id base) (snap_id row) (k, ?d)"
  have "?e \<in> set es" using imageI [OF k, of "event_of w t a (snap_id base) (snap_id row)"] by (simp only: es set_map)
  moreover have "?e \<in> set (drift_events (drift_data tb'))"
    using calculation process_keeps [OF proc] by (simp add: insert_events_def)
  ultimately show ?thesis
    by (intro bexI [of _ ?e]) (simp_all add: event_of_def make_drift_def SEVERITY_MAP_def dict_get_or_def)
qed

lemma new_tool_reported_witness:
  "\<exists>row tb'. create_config_snapshot (demo_detector ''s1'') ''t'' ''a'' ''manual'' None (demo_snapshot ''shell'') demo_tables
     = Some (row, drift_events (drift_data tb'), tb') \<and>
   (\<exists>e. e \<in> set (drift_events (drift_data tb')) \<and> new_value e = Some ''shell'' \<and> drift_severity e = ''high'')"
proof -
  let ?w = "demo_detector ''s1''"
  let ?base = "snapshot_of (demo_detector ''s0'') ''t'' ''a'' 1 ''manual'' None (demo_snapshot ''search'')"
  obtain row tb' where sub: "create_config_snapshot ?w ''t'' ''a'' ''manual'' None (demo_snapshot ''shell'') demo_tables
     = Some (row, drift_events (drift_data tb'), tb')"
    using demo_submission by blast
  have "snap_uuid ?w \<notin> snap_id ` set (snapshots demo_tables)"
    by (simp add: demo_tables_def demo_detector_def)
  moreover have "get_policy ''t'' demo_tables = Some (default_policy ''t'' ''strict'')"
    by (simp add: get_policy_def demo_tables_def default_policy_def)
  moreover have "reports ?w (default_policy ''t'' ''strict'')" "alert_on_tool_change (default_policy ''t'' ''strict'')"
    by (simp_all add: reports_def default_policy_def)
  moreover have "get_latest_snapshot ''t'' ''a'' demo_tables = Some ?base"
    by (simp add: get_latest_snapshot_def demo_tables_def)
  moreover have "tool_names ?w (tool_list ?base) = Some [VStr ''search'']"
    by (simp add: demo_drift_defs snapshot_of_def snap_dict.extend_def)
  moreover have "VDict [(''name'', VStr ''shell'')] \<in> set (list_items ?w (tool_list (stored_config ?w (demo_snapshot ''shell''))))"
    "tool_name ?w (VDict [(''name'', VStr ''shell'')]) = VStr ''shell''"
    "\<not> py_in_list (VStr ''shell'') [VStr ''search'']"
    by (simp_all add: demo_drift_defs)
  ultimately have "\<exists>e \<in> set (drift_events (drift_data tb')). e \<in> set (drift_events (drift_data tb')) \<and>
      drift_type e = ''tool_added'' \<and> new_value e = Some ''shell'' \<and> drift_severity e = ''high'' \<and>
      drift_status e = ''open'' \<and> drift_agent e = ''a'' \<and> drift_tenant e = ''t'' \<and> current_snapshot e = snap_id row"
    by (rule new_tool_reported [OF sub])
  with sub show ?thesis by blast
qed

text \<open>A tenant without a policy, or with a learning one, never gets a drift event.\<close>

lemma learning_creates_nothing:
  assumes "mode_of (get_policy t tb) = ''learning''" and "process_snapshot_drift w t a i tb = Some (es, tb')"
  shows "es = [] \<and> tb' = tb"
  using assms by (auto simp: process_snapshot_drift_def Let_def split: option.splits list.splits)

text \<open>
  A permission that is a text, or an object of permissions, can be replaced by any other one: only new
  names at the top, \<open>False\<close> becoming \<open>True\<close>, and lists that grow count as wider.
\<close>

lemma wider_text_not_reported:
  assumes "detect_permission_escalation (VDict d) (VDict d) = Some False" and "dict_wf d"
    and "dict_get d k = Some old" and "old \<noteq> VBool False" and "\<forall>xs. old \<noteq> VList xs"
  shows "detect_permission_escalation (VDict d) (VDict (dict_set k new d)) = Some False"
proof -
  have "widened e (dict_set k new d) = Some False" if "widened e d = Some False" "set e \<subseteq> set d" for e
    using that
  proof (induction e)
    case (Cons p e)
    obtain k' v where p: "p = (k', v)" by (cases p)
    with Cons.prems assms(2) have v: "dict_get d k' = Some v" by (simp add: dict_wf_def map_of_eq_Some_iff)
    have rest: "widened e d = Some False"
      using Cons.prems(1) by (auto simp: p v split: if_splits pval.splits option.splits)
    show ?case
    proof (cases "k' = k")
      case True
      with v assms(3) have "v = old" by simp
      with True Cons rest assms(4,5) show ?thesis by (cases old) (auto simp: p)
    next
      case False
      with Cons rest v show ?thesis by (auto simp: p split: if_splits pval.splits option.splits)
    qed
  qed simp
  then have "widened d (dict_set k new d) = Some False"
    using assms(1) by (simp add: detect_permission_escalation_def split: if_splits)
  moreover have "k \<in> set (dict_keys d)" using assms(3) by (metis dict_get_None_iff option.discI)
  ultimately show ?thesis by (auto simp: detect_permission_escalation_def dict_keys_set_mem simp del: set_map)
qed

section \<open>Versions\<close>

record submission =
  sub_env :: detector_env
  sub_tenant :: string
  sub_agent :: string
  sub_trigger :: string
  sub_captured :: "string option"
  sub_config :: snap_dict

definition submit :: "drift_tables \<Rightarrow> submission \<Rightarrow> drift_tables" where
  "submit tb s =
     (case create_config_snapshot (sub_env s) (sub_tenant s) (sub_agent s) (sub_trigger s) (sub_captured s)
             (sub_config s) tb of
        None \<Rightarrow> tb | Some (_, _, tb') \<Rightarrow> tb')"

definition versions :: "string \<Rightarrow> string \<Rightarrow> drift_tables \<Rightarrow> nat list" where
  "versions t a tb = map snap_version (filter (\<lambda>r. snap_tenant r = t \<and> snap_agent r = a) (snapshots tb))"

definition versions_ok :: "drift_tables \<Rightarrow> bool" where
  "versions_ok tb \<longleftrightarrow> (\<forall>t a. versions t a tb = [1..<Suc (length (versions t a tb))])"

lemma foldl_max_upt: "foldl max 0 [1..<Suc n] = n"
  by (induction n) auto

lemma create_versions:
  assumes "create_snapshot w t a tr ca c tb = (row, tb1)" and "versions_ok tb"
  shows "versions_ok tb1"
proof -
  from assms(1) have row: "row = snapshot_of w t a (next_version t a tb) tr ca (stored_config w c)"
    and tb1: "snapshots tb1 = snapshots tb @ [row]"
    by (auto simp: create_snapshot_def Let_def)
  have "next_version t a tb = Suc (length (versions t a tb))"
    using assms(2) foldl_max_upt [of "length (versions t a tb)"]
    unfolding versions_ok_def next_version_def versions_def [symmetric] by (metis Suc_eq_plus1)
  moreover have "versions t' a' tb1 = versions t' a' tb @ (if t' = t \<and> a' = a then [next_version t a tb] else [])" for t' a'
    by (auto simp: versions_def tb1 row)
  ultimately show ?thesis using assms(2) by (auto simp: versions_ok_def simp del: upt_Suc) (simp add: upt_Suc_append)
qed

lemma insert_events_versions: "versions_ok (insert_events es tb) \<longleftrightarrow> versions_ok tb"
  by (simp add: versions_ok_def versions_def insert_events_def)

lemma submit_versions:
  assumes "versions_ok tb"
  shows "versions_ok (submit tb s)"
proof (cases "create_config_snapshot (sub_env s) (sub_tenant s) (sub_agent s) (sub_trigger s) (sub_captured s)
    (sub_config s) tb")
  case (Some r)
  obtain row es tb' where r: "r = (row, es, tb')" by (cases r)
  with Some obtain tb1 where "create_snapshot (sub_env s) (sub_tenant s) (sub_agent s) (sub_trigger s)
      (sub_captured s) (sub_config s) tb = (row, tb1)" and "tb' = insert_events es tb1"
    by (auto simp: create_config_snapshot_def split: prod.splits option.splits dest: process_keeps)
  with assms create_versions Some r show ?thesis by (auto simp: submit_def insert_events_versions)
qed (simp add: submit_def assms)

interpretation submissions: machine submit versions_ok
  by unfold_locales (rule submit_versions)

text \<open>
  With submissions one after the other the snapshots of an agent are numbered 1, 2, 3 and so on in the
  order they were accepted, and a rejected submission uses no number.
\<close>

theorem versions_consecutive:
  "versions t a (foldl submit \<lparr>snapshots = [], policies = ps, drift_data = data\<rparr> subs) =
     [1..<Suc (length (versions t a (foldl submit \<lparr>snapshots = [], policies = ps, drift_data = data\<rparr> subs)))]"
proof -
  have "versions_ok \<lparr>snapshots = [], policies = ps, drift_data = data\<rparr>"
    by (simp add: versions_ok_def versions_def)
  then show ?thesis using submissions.inv_run [of _ subs] unfolding versions_ok_def by blast
qed

end
