(* ===== verification/Drift_Configurations.thy ===== *)
theory Drift_Configurations
  imports Drift_Detector_Props
begin

text \<open>
  Configurations of agents in their plain shape: tools, dependencies and retrieval sources are objects
  with a few fields that count and others that do not, permissions are switches, lists of scopes or levels. On these
  the comparison of \<open>detector.py\<close> is given by conditions on the fields alone.
\<close>

section \<open>Configurations and the JSON they are sent as\<close>

datatype grant = Flag bool | Scopes "string list" | Level string

type_synonym other_fields = "(string, pval) dict"

record agent_config =
  cfg_provider :: "string option"
  cfg_model :: "string option"
  cfg_version :: "string option"
  cfg_prompt :: "string option"
  cfg_tools :: "(string \<times> other_fields) list"
  cfg_grants :: "(string, grant) dict"
  cfg_env :: "(string, string) dict"
  cfg_deps :: "(string \<times> string \<times> other_fields) list"
  cfg_rag :: "(string \<times> string \<times> other_fields) list"
  cfg_temperature :: "rat option"
  cfg_framework :: "string option"
  cfg_framework_version :: "string option"

fun grant_json :: "grant \<Rightarrow> pval" where
  "grant_json (Flag b) = VBool b"
| "grant_json (Scopes xs) = VList (map VStr xs)"
| "grant_json (Level s) = VStr s"

definition tool_json :: "string \<times> other_fields \<Rightarrow> pval" where
  "tool_json = (\<lambda>(n, d). VDict ((''name'', VStr n) # d))"

definition dep_json :: "string \<times> string \<times> other_fields \<Rightarrow> pval" where
  "dep_json = (\<lambda>(n, v, d). VDict ((''name'', VStr n) # (''version'', VStr v) # d))"

definition rag_json :: "string \<times> string \<times> other_fields \<Rightarrow> pval" where
  "rag_json = (\<lambda>(k, e, d). VDict ((''type'', VStr k) # (''endpoint'', VStr e) # d))"

definition snap_of :: "agent_config \<Rightarrow> snap_dict" where
  "snap_of c =
     \<lparr>model_provider = cfg_provider c, model_name = cfg_model c, model_version = cfg_version c, prompt_hash = cfg_prompt c,
      tool_list = VList (map tool_json (cfg_tools c)),
      permissions = VDict (map (\<lambda>(k, g). (k, grant_json g)) (cfg_grants c)),
      env_var_hashes = VDict (map (\<lambda>(k, s). (k, VStr s)) (cfg_env c)),
      dependencies = VList (map dep_json (cfg_deps c)), rag_sources = VList (map rag_json (cfg_rag c)),
      temperature = map_option FFin (cfg_temperature c), framework_name = cfg_framework c,
      framework_version = cfg_framework_version c\<rparr>"

text \<open>The keys of an object are distinct; no version holds the sign that joins it to a name, and no type of a source the
  colon that joins it to an endpoint.\<close>

definition config_ok :: "agent_config \<Rightarrow> bool" where
  "config_ok c \<longleftrightarrow> distinct (dict_keys (cfg_grants c)) \<and> distinct (dict_keys (cfg_env c)) \<and>
     list_all (\<lambda>(n, v, d). CHR ''@'' \<notin> set v) (cfg_deps c) \<and> list_all (\<lambda>(k, e, d). CHR '':'' \<notin> set k) (cfg_rag c)"

section \<open>What may follow without drift\<close>

text \<open>A switch may be turned off and a list of scopes may shrink; a level, or a grant of another kind, may be anything.\<close>

fun may_follow :: "grant \<Rightarrow> grant \<Rightarrow> bool" where
  "may_follow (Flag old) (Flag new) \<longleftrightarrow> old \<or> \<not> new"
| "may_follow (Scopes old) (Scopes new) \<longleftrightarrow> set new \<subseteq> set old"
| "may_follow old new \<longleftrightarrow> True"

definition grants_narrow :: "(string, grant) dict \<Rightarrow> (string, grant) dict \<Rightarrow> bool" where
  "grants_narrow old new \<longleftrightarrow>
     list_all (\<lambda>k. case (dict_get old k, dict_get new k) of (Some g, Some h) \<Rightarrow> may_follow g h | _ \<Rightarrow> False) (dict_keys new)"

section \<open>Sets of texts\<close>

lemma py_set_texts: "\<exists>s. py_set (map VStr xs) = Some s \<and> set s = VStr ` set xs"
proof -
  obtain s where s: "py_set (map VStr xs) = Some s" "s = foldl (\<lambda>s v. set_add v s) [] (map VStr xs)"
    by (auto simp: py_set_def list_all_iff)
  have "set s \<subseteq> VStr ` set xs" using py_set_subset [OF s(1)] by simp
  moreover have "VStr x \<in> set s" if "x \<in> set xs" for x
    using set_adds_have [of "VStr x" "map VStr xs" "[]"] that s(2) by (simp add: in_list_text)
  ultimately show ?thesis using s(1) by blast
qed

lemma set_minus_texts: "set xs = VStr ` A \<Longrightarrow> set ys = VStr ` B \<Longrightarrow> set_minus xs ys = [] \<longleftrightarrow> A \<subseteq> B"
  by (auto simp: set_minus_def filter_empty_conv in_list_text)

lemma sets_agree_texts: "sets_agree (py_set (map VStr xs)) (py_set (map VStr ys)) \<longleftrightarrow> set xs = set ys"
proof -
  obtain s u where "py_set (map VStr xs) = Some s" "set s = VStr ` set xs" "py_set (map VStr ys) = Some u" "set u = VStr ` set ys"
    using py_set_texts by metis
  then show ?thesis by (auto simp: sets_agree_def same_set_def set_minus_texts)
qed

lemma joined_inj_front:
  "c \<notin> set xs \<Longrightarrow> c \<notin> set xs' \<Longrightarrow> xs @ c # ys = xs' @ c # ys' \<longleftrightarrow> xs = xs' \<and> ys = ys'"
proof (induction xs arbitrary: xs')
  case Nil
  then show ?case by (cases xs') auto
next
  case (Cons x xs)
  then show ?case by (cases xs') auto
qed

lemma joined_inj:
  assumes "c \<notin> set ys" and "c \<notin> set ys'"
  shows "xs @ c # ys = xs' @ c # ys' \<longleftrightarrow> xs = xs' \<and> ys = ys'"
proof -
  have "xs @ c # ys = xs' @ c # ys' \<longleftrightarrow> rev ys @ c # rev xs = rev ys' @ c # rev xs'"
    by (metis rev.simps(2) rev_append rev_rev_ident append.assoc append_Cons append_Nil)
  then show ?thesis using assms by (auto simp: joined_inj_front)
qed

lemma image_eq_iff: "f ` A = f ` B \<longleftrightarrow> (\<forall>x \<in> A. \<exists>y \<in> B. f x = f y) \<and> (\<forall>y \<in> B. \<exists>x \<in> A. f x = f y)"
  by (simp add: set_eq_subset image_subset_iff image_iff eq_commute)

lemma image_eq_via:
  assumes "\<And>x y. x \<in> A \<Longrightarrow> y \<in> B \<Longrightarrow> f x = f y \<longleftrightarrow> g x = g y"
  shows "f ` A = f ` B \<longleftrightarrow> g ` A = g ` B"
  unfolding image_eq_iff by (simp add: assms cong: ball_cong bex_cong)

section \<open>The parts of the comparison\<close>

lemma tools_of_config: "tool_names w (tool_list (snap_of c)) = py_set (map VStr (map fst (cfg_tools c)))"
proof -
  have "tool_name w \<circ> tool_json = VStr \<circ> fst"
    by (auto simp: tool_name_def tool_json_def dict_get_or_def)
  then show ?thesis by (simp add: tool_names_def list_items_def decoded_def snap_of_def)
qed

definition dep_key :: "string \<times> string \<times> other_fields \<Rightarrow> string \<times> string" where
  "dep_key = (\<lambda>(n, v, d). (n, v))"

lemma version_plain: "config_ok c \<Longrightarrow> x \<in> set (cfg_deps c) \<Longrightarrow> CHR ''@'' \<notin> set (snd (dep_key x))"
  by (fastforce simp: config_ok_def list_all_iff dep_key_def)

lemma kind_plain: "config_ok c \<Longrightarrow> x \<in> set (cfg_rag c) \<Longrightarrow> CHR '':'' \<notin> set (fst (dep_key x))"
  by (fastforce simp: config_ok_def list_all_iff dep_key_def)

lemma deps_of_config:
  "dep_set w (dependencies (snap_of c)) = py_set (map VStr (map (\<lambda>x. fst (dep_key x) @ CHR ''@'' # snd (dep_key x)) (cfg_deps c)))"
proof -
  have "dep_name w \<circ> dep_json = VStr \<circ> (\<lambda>x. fst (dep_key x) @ CHR ''@'' # snd (dep_key x))"
    by (auto simp: dep_name_def dep_json_def field_or_def dict_get_or_def dep_key_def)
  then show ?thesis by (simp add: dep_set_def list_items_def decoded_def snap_of_def)
qed

lemma rag_of_config:
  "rag_set w (rag_sources (snap_of c)) = py_set (map VStr (map (\<lambda>x. fst (dep_key x) @ CHR '':'' # snd (dep_key x)) (cfg_rag c)))"
proof -
  have "rag_name w \<circ> rag_json = VStr \<circ> (\<lambda>x. fst (dep_key x) @ CHR '':'' # snd (dep_key x))"
    by (auto simp: rag_name_def rag_json_def field_or_def dict_get_or_def dep_key_def)
  then show ?thesis by (simp add: rag_set_def list_items_def decoded_def snap_of_def)
qed

lemma tools_agree:
  "sets_agree (tool_names w (tool_list (snap_of b))) (tool_names w (tool_list (snap_of c))) \<longleftrightarrow>
   fst ` set (cfg_tools b) = fst ` set (cfg_tools c)"
  by (simp only: tools_of_config sets_agree_texts set_map)

lemma deps_agree:
  assumes "config_ok b" and "config_ok c"
  shows "sets_agree (dep_set w (dependencies (snap_of b))) (dep_set w (dependencies (snap_of c))) \<longleftrightarrow>
    dep_key ` set (cfg_deps b) = dep_key ` set (cfg_deps c)"
  unfolding deps_of_config sets_agree_texts set_map
  by (rule image_eq_via) (simp_all add: joined_inj version_plain [OF assms(1)] version_plain [OF assms(2)] prod_eq_iff)

lemma rag_agree:
  assumes "config_ok b" and "config_ok c"
  shows "sets_agree (rag_set w (rag_sources (snap_of b))) (rag_set w (rag_sources (snap_of c))) \<longleftrightarrow>
    dep_key ` set (cfg_rag b) = dep_key ` set (cfg_rag c)"
  unfolding rag_of_config sets_agree_texts set_map
  by (rule image_eq_via) (simp_all add: joined_inj_front kind_plain [OF assms(1)] kind_plain [OF assms(2)] prod_eq_iff)

text \<open>Permissions: the loop over the old ones, each compared with the new one of its name.\<close>

abbreviation grants_json :: "(string, grant) dict \<Rightarrow> (string, pval) dict" where
  "grants_json d \<equiv> map (\<lambda>(k, g). (k, grant_json g)) d"

lemma grants_json_get: "dict_get (grants_json d) k = map_option grant_json (dict_get d k)"
  by (induction d) auto

lemma grants_json_keys: "dict_keys (grants_json d) = dict_keys d"
  by (simp add: comp_def split_def)

lemma scopes_widened:
  "\<exists>s u. py_set (map VStr ys) = Some s \<and> py_set (map VStr xs) = Some u \<and> (set_minus s u = [] \<longleftrightarrow> set ys \<subseteq> set xs)"
proof -
  obtain s where s: "py_set (map VStr ys) = Some s" "set s = VStr ` set ys" using py_set_texts by metis
  obtain u where u: "py_set (map VStr xs) = Some u" "set u = VStr ` set xs" using py_set_texts by metis
  show ?thesis by (intro exI conjI) (rule s(1), rule u(1), rule set_minus_texts [OF s(2) u(2)])
qed

lemma widened_grants:
  "widened (grants_json old) (grants_json new) =
     Some (\<not> list_all (\<lambda>(k, g). case dict_get new k of None \<Rightarrow> True | Some h \<Rightarrow> may_follow g h) old)"
proof (induction old)
  case (Cons p old)
  obtain k g where p: "p = (k, g)" by (cases p)
  show ?case
  proof (cases "dict_get new k")
    case None
    with Cons show ?thesis by (simp add: p grants_json_get)
  next
    case (Some h)
    show ?thesis
    proof (cases "\<exists>xs ys. g = Scopes xs \<and> h = Scopes ys")
      case True
      then obtain xs ys where g: "g = Scopes xs" "h = Scopes ys" by blast
      from scopes_widened [of ys xs] Some Cons show ?thesis by (auto simp: p g grants_json_get)
    next
      case False
      with Some Cons show ?thesis by (cases g; cases h) (auto simp: p grants_json_get)
    qed
  qed
qed simp

lemma grants_checked:
  assumes "distinct (dict_keys old)" and "set (dict_keys new) \<subseteq> set (dict_keys old)"
  shows "list_all (\<lambda>(k, g). case dict_get new k of None \<Rightarrow> True | Some h \<Rightarrow> may_follow g h) old \<longleftrightarrow> grants_narrow old new"
proof
  assume l: "list_all (\<lambda>(k, g). case dict_get new k of None \<Rightarrow> True | Some h \<Rightarrow> may_follow g h) old"
  have "case (dict_get old k, dict_get new k) of (Some g, Some h) \<Rightarrow> may_follow g h | _ \<Rightarrow> False" if "k \<in> set (dict_keys new)" for k
  proof -
    from that obtain h where h: "dict_get new k = Some h" by (cases "dict_get new k") (simp_all add: dict_get_None_iff)
    from that assms(2) obtain g where g: "dict_get old k = Some g"
      by (cases "dict_get old k") (auto simp only: dict_get_None_iff)
    from l map_of_SomeD [OF g] h have "may_follow g h" by (fastforce simp: list_all_iff)
    with g h show ?thesis by simp
  qed
  then show "grants_narrow old new" by (simp only: grants_narrow_def list_all_iff) blast
next
  assume r: "grants_narrow old new"
  have "case dict_get new k of None \<Rightarrow> True | Some h \<Rightarrow> may_follow g h" if "(k, g) \<in> set old" for k g
  proof (cases "dict_get new k")
    case (Some h)
    then have "k \<in> set (dict_keys new)" by (metis dict_get_None_iff option.distinct(1))
    with r have "case (dict_get old k, dict_get new k) of (Some g, Some h) \<Rightarrow> may_follow g h | _ \<Rightarrow> False"
      by (simp only: grants_narrow_def list_all_iff)
    with Some that assms(1) show ?thesis by (simp add: map_of_is_SomeI)
  qed simp
  then show "list_all (\<lambda>(k, g). case dict_get new k of None \<Rightarrow> True | Some h \<Rightarrow> may_follow g h) old"
    by (auto simp: list_all_iff)
qed

lemma escalation_of_config:
  assumes "config_ok b"
  shows "detect_permission_escalation (decoded w (permissions (snap_of b))) (decoded w (permissions (snap_of c))) = Some False \<longleftrightarrow>
    grants_narrow (cfg_grants b) (cfg_grants c)"
proof (cases "set (dict_keys (cfg_grants c)) \<subseteq> set (dict_keys (cfg_grants b))")
  case True
  with grants_checked [OF _ True] assms show ?thesis
    by (auto simp: detect_permission_escalation_def decoded_def snap_of_def widened_grants config_ok_def grants_json_keys
        simp del: map_map)
next
  case False
  then obtain k where "k \<in> set (dict_keys (cfg_grants c))" "dict_get (cfg_grants b) k = None"
    by (metis map_of_eq_None_iff set_map subsetI)
  then have "\<not> grants_narrow (cfg_grants b) (cfg_grants c)" by (force simp: grants_narrow_def list_all_iff)
  with False show ?thesis
    by (auto simp: detect_permission_escalation_def decoded_def snap_of_def grants_json_keys simp del: map_map)
qed

text \<open>Hashes of the environment, temperature and texts.\<close>

lemma py_eq_dict_texts:
  "py_eq_dict (map (\<lambda>(k, s). (k, VStr s)) d) (map (\<lambda>(k, s). (k, VStr s)) e) \<longleftrightarrow> (\<forall>(k, s) \<in> set d. dict_get e k = Some s)"
proof (induction d)
  case (Cons p d)
  have "dict_get (map (\<lambda>(k, s). (k, VStr s)) e) k = map_option VStr (dict_get e k)" for k
    by (induction e) auto
  with Cons show ?case by (cases p) (auto split: option.splits)
qed simp

lemma env_of_config:
  assumes "config_ok b" and "config_ok c"
  shows "py_eq (decoded w (env_var_hashes (snap_of b))) (decoded w (env_var_hashes (snap_of c))) \<longleftrightarrow>
    dict_get (cfg_env b) = dict_get (cfg_env c)"
proof -
  let ?d = "cfg_env b" and ?e = "cfg_env c"
  have dist: "distinct (dict_keys ?d)" "distinct (dict_keys ?e)" using assms by (simp_all add: config_ok_def)
  have len: "length x = card (set x)" if "distinct (dict_keys x)" for x :: "(string, string) dict"
    using that by (metis distinct_card distinct_map)
  have "py_eq (decoded w (env_var_hashes (snap_of b))) (decoded w (env_var_hashes (snap_of c))) \<longleftrightarrow>
      length ?d = length ?e \<and> set ?d \<subseteq> set ?e"
    using dist by (auto simp: decoded_def snap_of_def py_eq_dict_texts)
  also have "\<dots> \<longleftrightarrow> set ?d = set ?e"
    using len [OF dist(1)] len [OF dist(2)] by (metis List.finite_set card_subset_eq subset_refl)
  also have "\<dots> \<longleftrightarrow> dict_get ?d = dict_get ?e" using map_of_inject_set [OF dist] by simp
  finally show ?thesis .
qed

text \<open>
  C34: For configurations of the shape of \<open>agent_config\<close>, the comparison reports nothing exactly when all of this holds:
  no model field was set to another value, the prompt and the version of the framework are equal or missing on one side,
  the tools have the same names, the dependencies the same names and versions, the sources the same types and endpoints,
  each permission is an old one that was not widened (no switch turned on, no scope added), the environment has
  the same names and hashes, and the temperature is equal or missing on one side. So the descriptions of tools, their
  order, permissions that are dropped, levels, and the name of the framework are not compared. The shape: keys of
  objects are distinct, no version contains the sign \<open>@\<close> and no type of a source a colon.
\<close>

theorem no_drift_iff:
  assumes "config_ok b" and "config_ok c"
  shows "detect_drift w (snap_of b) (snap_of c) = Some [] \<longleftrightarrow>
    (cfg_provider c = None \<or> cfg_provider b = cfg_provider c) \<and> (cfg_model c = None \<or> cfg_model b = cfg_model c) \<and>
    (cfg_version c = None \<or> cfg_version b = cfg_version c) \<and>
    (cfg_prompt b = cfg_prompt c \<or> cfg_prompt b \<in> {None, Some []} \<or> cfg_prompt c \<in> {None, Some []}) \<and>
    {n. \<exists>d. (n, d) \<in> set (cfg_tools b)} = {n. \<exists>d. (n, d) \<in> set (cfg_tools c)} \<and>
    grants_narrow (cfg_grants b) (cfg_grants c) \<and>
    {(n, v). \<exists>d. (n, v, d) \<in> set (cfg_deps b)} = {(n, v). \<exists>d. (n, v, d) \<in> set (cfg_deps c)} \<and>
    {(k, e). \<exists>d. (k, e, d) \<in> set (cfg_rag b)} = {(k, e). \<exists>d. (k, e, d) \<in> set (cfg_rag c)} \<and>
    dict_get (cfg_env b) = dict_get (cfg_env c) \<and>
    (cfg_temperature b = None \<or> cfg_temperature c = None \<or> cfg_temperature b = cfg_temperature c) \<and>
    (cfg_framework_version b = cfg_framework_version c \<or> cfg_framework_version b \<in> {None, Some []} \<or>
       cfg_framework_version c \<in> {None, Some []})"
proof -
  have tools: "fst ` set xs = {n. \<exists>d. (n, d) \<in> set xs}" for xs :: "(string \<times> other_fields) list"
    by force
  have keys: "dep_key ` set xs = {(n, v). \<exists>d. (n, v, d) \<in> set xs}" for xs
    by (force simp: dep_key_def)
  have temps: "temperatures_agree (temperature (snap_of b)) (temperature (snap_of c)) \<longleftrightarrow>
      cfg_temperature b = None \<or> cfg_temperature c = None \<or> cfg_temperature b = cfg_temperature c"
    by (cases "cfg_temperature b"; cases "cfg_temperature c") (simp_all add: temperatures_agree_def snap_of_def)
  have texts: "model_provider (snap_of x) = cfg_provider x" "model_name (snap_of x) = cfg_model x"
    "model_version (snap_of x) = cfg_version x" "prompt_hash (snap_of x) = cfg_prompt x"
    "framework_version (snap_of x) = cfg_framework_version x" for x
    by (simp_all add: snap_of_def)
  show ?thesis
    unfolding detect_drift_quiet texts temps texts_agree_def tools_agree deps_agree [OF assms] rag_agree [OF assms]
      escalation_of_config [OF assms(1)] env_of_config [OF assms] tools keys
    by (rule refl)
qed

definition first_config :: agent_config where
  "first_config =
     \<lparr>cfg_provider = Some ''p'', cfg_model = Some ''m'', cfg_version = None, cfg_prompt = None,
      cfg_tools = [(''search'', [(''description'', VStr ''old'')]), (''mail'', [])],
      cfg_grants = [(''net'', Flag True), (''files'', Scopes [''/tmp'', ''/srv'']), (''role'', Level ''reader'')],
      cfg_env = [(''KEY'', ''h1'')], cfg_deps = [(''lib'', ''1.0'', [])], cfg_rag = [(''web'', ''https://x'', [])],
      cfg_temperature = Some (1 / 2), cfg_framework = Some ''f'', cfg_framework_version = Some ''1''\<rparr>"

definition quiet_change :: agent_config where
  "quiet_change = first_config\<lparr>cfg_prompt := Some ''hash'', cfg_model := None, cfg_tools := [(''mail'', []), (''search'', [])],
     cfg_grants := [(''role'', Level ''admin''), (''net'', Flag False), (''files'', Scopes [''/tmp''])], cfg_framework := None\<rparr>"

lemma no_drift_iff_witness:
  "detect_drift (demo_detector ''s'') (snap_of first_config) (snap_of quiet_change) = Some [] \<and>
   detect_drift (demo_detector ''s'') (snap_of first_config) (snap_of (first_config\<lparr>cfg_deps := [(''lib'', ''1.1'', [])]\<rparr>)) \<noteq> Some [] \<and>
   detect_drift (demo_detector ''s'') (snap_of quiet_change) (snap_of first_config) \<noteq> Some []"
proof -
  have ok: "config_ok first_config" "config_ok quiet_change" "config_ok (first_config\<lparr>cfg_deps := [(''lib'', ''1.1'', [])]\<rparr>)"
    by (simp_all add: config_ok_def first_config_def quiet_change_def)
  have "detect_drift (demo_detector ''s'') (snap_of first_config) (snap_of quiet_change) = Some []"
    unfolding no_drift_iff [OF ok(1,2)] by (auto simp: first_config_def quiet_change_def grants_narrow_def)
  moreover have "detect_drift (demo_detector ''s'') (snap_of first_config) (snap_of (first_config\<lparr>cfg_deps := [(''lib'', ''1.1'', [])]\<rparr>)) \<noteq> Some []"
    unfolding no_drift_iff [OF ok(1,3)] by (auto simp: first_config_def)
  moreover have "detect_drift (demo_detector ''s'') (snap_of quiet_change) (snap_of first_config) \<noteq> Some []"
    unfolding no_drift_iff [OF ok(2,1)] by (auto simp: first_config_def quiet_change_def grants_narrow_def)
  ultimately show ?thesis by blast
qed

text \<open>Without the condition on versions two dependencies are the same element of the compared sets.\<close>

lemma version_with_at_sign:
  "dep_set w (dependencies (snap_of (c\<lparr>cfg_deps := [(''a'', ''1@2'', [])]\<rparr>))) =
   dep_set w (dependencies (snap_of (c\<lparr>cfg_deps := [(''a@1'', ''2'', [])]\<rparr>)))"
  by (simp add: deps_of_config dep_key_def)

end
