(* ===== verification/Identity.thy ===== *)
theory Identity
  imports Py_Values
begin

text \<open>
  \<open>backend/app/services/identity_hierarchy.py\<close>: the identity level of each agent, its upgrades and
  downgrades, and the features the trust score takes from it. The module's global store is the state;
  the clock is an argument.
\<close>

section \<open>Levels\<close>

datatype identity_level = NoIdentity | Software | OsKeystore | Hardware | Attested

fun level_value :: "identity_level \<Rightarrow> nat" where
  "level_value NoIdentity = 0"
| "level_value Software = 1"
| "level_value OsKeystore = 2"
| "level_value Hardware = 3"
| "level_value Attested = 4"

lemma level_value_inj: "level_value a = level_value b \<longleftrightarrow> a = b"
  by (cases a; cases b) simp_all

instantiation identity_level :: linorder
begin

definition less_eq_identity_level :: "identity_level \<Rightarrow> identity_level \<Rightarrow> bool" where
  "a \<le> b \<longleftrightarrow> level_value a \<le> level_value b"

definition less_identity_level :: "identity_level \<Rightarrow> identity_level \<Rightarrow> bool" where
  "a < b \<longleftrightarrow> level_value a < level_value b"

instance
  by standard (auto simp: less_eq_identity_level_def less_identity_level_def level_value_inj)

end

fun level_trust_boost :: "identity_level \<Rightarrow> py_float" where
  "level_trust_boost NoIdentity = float_of_decimal 0 1"
| "level_trust_boost Software = float_of_decimal 5 2"
| "level_trust_boost OsKeystore = float_of_decimal 10 2"
| "level_trust_boost Hardware = float_of_decimal 20 2"
| "level_trust_boost Attested = float_of_decimal 30 2"

fun upgrade_paths :: "identity_level \<Rightarrow> identity_level set" where
  "upgrade_paths NoIdentity = {Software, OsKeystore, Hardware}"
| "upgrade_paths Software = {OsKeystore, Hardware}"
| "upgrade_paths OsKeystore = {Hardware}"
| "upgrade_paths Hardware = {Attested}"
| "upgrade_paths Attested = {}"

section \<open>Identities\<close>

datatype identity_change =
  Registered identity_level string
| Reregistered identity_level string
| Upgraded identity_level identity_level string
| Downgraded identity_level identity_level string string

record agent_identity =
  ident_agent :: string
  ident_tenant :: string
  ident_level :: identity_level
  ident_backend :: string
  public_key_hex :: string
  attestation_time :: "string option"
  last_verified :: "string option"
  ident_created :: string
  ident_updated :: string
  ident_history :: "identity_change list"

type_synonym identity_store = "(string, (string, agent_identity) dict) dict"

datatype identity_error =
  InvalidAgentId string
| InvalidTenantId string
| NotRegistered string
| NotHigher identity_level identity_level
| PathNotAllowed identity_level identity_level
| NotLower identity_level identity_level

definition is_id_char :: "char \<Rightarrow> bool" where
  "is_id_char c \<longleftrightarrow> (let n = code c in 48 \<le> n \<and> n \<le> 57 \<or> 65 \<le> n \<and> n \<le> 90 \<or> 97 \<le> n \<and> n \<le> 122) \<or>
     c \<in> {CHR ''_'', CHR ''.'', CHR '':'', CHR ''-''}"

definition matches_id :: "nat \<Rightarrow> string \<Rightarrow> bool" where
  "matches_id n s \<longleftrightarrow> (let t = strip_final_newline s in t \<noteq> [] \<and> length t \<le> n \<and> list_all is_id_char t)"

definition validate_ids :: "string \<Rightarrow> string \<Rightarrow> identity_error + unit" where
  "validate_ids tenant agent =
     (if \<not> matches_id 128 tenant then Inl (InvalidTenantId tenant)
      else if \<not> matches_id 256 agent then Inl (InvalidAgentId agent) else Inr ())"

text \<open>Reading the store of a tenant creates it.\<close>

definition tenant_store :: "string \<Rightarrow> identity_store \<Rightarrow> (string, agent_identity) dict \<times> identity_store" where
  "tenant_store tenant st =
     (case dict_get st tenant of Some d \<Rightarrow> (d, st) | None \<Rightarrow> ([], dict_set tenant [] st))"

definition put_identity :: "string \<Rightarrow> agent_identity \<Rightarrow> identity_store \<Rightarrow> identity_store" where
  "put_identity tenant ident st =
     (case tenant_store tenant st of (d, st1) \<Rightarrow> dict_set tenant (dict_set (ident_agent ident) ident d) st1)"

section \<open>Operations\<close>

definition register_agent :: "string \<Rightarrow> string \<Rightarrow> string \<Rightarrow> identity_level \<Rightarrow> string \<Rightarrow> string \<Rightarrow> identity_store \<Rightarrow>
    identity_error + (agent_identity \<times> identity_store)" where
  "register_agent now tenant agent level backend key st =
     (case validate_ids tenant agent of
        Inl e \<Rightarrow> Inl e
      | Inr _ \<Rightarrow>
          let (d, st1) = tenant_store tenant st;
              ident = (case dict_get d agent of
                Some old \<Rightarrow>
                  old\<lparr>ident_level := level, ident_backend := backend, public_key_hex := key,
                      ident_updated := now, ident_history := ident_history old @ [Reregistered level now]\<rparr>
              | None \<Rightarrow>
                  \<lparr>ident_agent = agent, ident_tenant = tenant, ident_level = level, ident_backend = backend,
                   public_key_hex = key, attestation_time = None, last_verified = None,
                   ident_created = now, ident_updated = now, ident_history = [Registered level now]\<rparr>)
          in Inr (ident, dict_set tenant (dict_set agent ident d) st1))"

definition get_identity :: "string \<Rightarrow> string \<Rightarrow> identity_store \<Rightarrow>
    identity_error + (agent_identity option \<times> identity_store)" where
  "get_identity tenant agent st =
     (case validate_ids tenant agent of
        Inl e \<Rightarrow> Inl e
      | Inr _ \<Rightarrow> (case tenant_store tenant st of (d, st1) \<Rightarrow> Inr (dict_get d agent, st1)))"

definition list_identities :: "string \<Rightarrow> identity_store \<Rightarrow> identity_error + (agent_identity list \<times> identity_store)" where
  "list_identities tenant st =
     (if \<not> matches_id 128 tenant then Inl (InvalidTenantId tenant)
      else case tenant_store tenant st of (d, st1) \<Rightarrow> Inr (dict_values d, st1))"

definition delete_identity :: "string \<Rightarrow> string \<Rightarrow> identity_store \<Rightarrow> identity_error + (bool \<times> identity_store)" where
  "delete_identity tenant agent st =
     (case validate_ids tenant agent of
        Inl e \<Rightarrow> Inl e
      | Inr _ \<Rightarrow>
          (case tenant_store tenant st of
             (d, st1) \<Rightarrow>
               if dict_get d agent = None then Inr (False, st1)
               else Inr (True, dict_set tenant (dict_del agent d) st1)))"

text \<open>An identity found in the store and replaced by a changed one.\<close>

definition change_identity :: "string \<Rightarrow> string \<Rightarrow> (agent_identity \<Rightarrow> identity_error + agent_identity) \<Rightarrow>
    identity_store \<Rightarrow> identity_error + (agent_identity \<times> identity_store)" where
  "change_identity tenant agent f st =
     (case validate_ids tenant agent of
        Inl e \<Rightarrow> Inl e
      | Inr _ \<Rightarrow>
          (case tenant_store tenant st of
             (d, st1) \<Rightarrow>
               (case dict_get d agent of
                  None \<Rightarrow> Inl (NotRegistered agent)
                | Some ident \<Rightarrow>
                    (case f ident of
                       Inl e \<Rightarrow> Inl e
                     | Inr ident' \<Rightarrow> Inr (ident', dict_set tenant (dict_set agent ident' d) st1)))))"

definition upgraded :: "string \<Rightarrow> identity_level \<Rightarrow> string \<Rightarrow> string \<Rightarrow> agent_identity \<Rightarrow>
    identity_error + agent_identity" where
  "upgraded now target backend key ident =
     (if target \<le> ident_level ident then Inl (NotHigher (ident_level ident) target)
      else if target \<notin> upgrade_paths (ident_level ident) then Inl (PathNotAllowed (ident_level ident) target)
      else Inr (ident\<lparr>ident_level := target,
        ident_backend := (if backend = [] then ident_backend ident else backend),
        public_key_hex := (if key = [] then public_key_hex ident else key),
        attestation_time := (if target = Attested then Some now else attestation_time ident),
        ident_updated := now,
        ident_history := ident_history ident @ [Upgraded (ident_level ident) target now]\<rparr>))"

definition upgrade_identity where
  "upgrade_identity now tenant agent target backend key =
     change_identity tenant agent (upgraded now target backend key)"

definition downgraded :: "string \<Rightarrow> identity_level \<Rightarrow> string \<Rightarrow> agent_identity \<Rightarrow> identity_error + agent_identity" where
  "downgraded now target reason ident =
     (if ident_level ident \<le> target then Inl (NotLower (ident_level ident) target)
      else Inr (ident\<lparr>ident_level := target,
        attestation_time := (if target < Attested then None else attestation_time ident),
        ident_updated := now,
        ident_history := ident_history ident @ [Downgraded (ident_level ident) target reason now]\<rparr>))"

definition downgrade_identity where
  "downgrade_identity now tenant agent target reason =
     change_identity tenant agent (downgraded now target reason)"

definition record_verification :: "string \<Rightarrow> string \<Rightarrow> string \<Rightarrow> identity_store \<Rightarrow>
    identity_error + (agent_identity option \<times> identity_store)" where
  "record_verification now tenant agent st =
     (case validate_ids tenant agent of
        Inl e \<Rightarrow> Inl e
      | Inr _ \<Rightarrow>
          (case tenant_store tenant st of
             (d, st1) \<Rightarrow>
               (case dict_get d agent of
                  None \<Rightarrow> Inr (None, st1)
                | Some ident \<Rightarrow>
                    let ident' = ident\<lparr>last_verified := Some now\<rparr>
                    in Inr (Some ident', dict_set tenant (dict_set agent ident' d) st1))))"

section \<open>Trust features\<close>

definition get_trust_boost :: "string \<Rightarrow> string \<Rightarrow> identity_store \<Rightarrow> py_float" where
  "get_trust_boost tenant agent st =
     (case get_identity tenant agent st of
        Inr (Some ident, _) \<Rightarrow> level_trust_boost (ident_level ident)
      | _ \<Rightarrow> FFin 0)"

definition compute_identity_features :: "string \<Rightarrow> string \<Rightarrow> identity_store \<Rightarrow> (string, py_float) dict" where
  "compute_identity_features tenant agent st =
     (case get_identity tenant agent st of
        Inr (Some ident, _) \<Rightarrow>
          [(''identity_level'', FFin (of_nat (level_value (ident_level ident)))),
           (''identity_is_hardware'', FFin (if Hardware \<le> ident_level ident then 1 else 0)),
           (''identity_is_attested'', FFin (if ident_level ident = Attested then 1 else 0)),
           (''identity_trust_boost'', level_trust_boost (ident_level ident))]
      | _ \<Rightarrow>
          [(''identity_level'', FFin 0), (''identity_is_hardware'', FFin 0),
           (''identity_is_attested'', FFin 0), (''identity_trust_boost'', FFin 0)])"

section \<open>Attestation\<close>

datatype identity_op =
  RegisterAgent string string string identity_level string string
| DeleteIdentity string string
| UpgradeIdentity string string string identity_level string string
| DowngradeIdentity string string string identity_level string
| RecordVerification string string string

definition store_after :: "identity_store \<Rightarrow> identity_error + ('a \<times> identity_store) \<Rightarrow> identity_store" where
  "store_after st r = (case r of Inl _ \<Rightarrow> st | Inr (_, st') \<Rightarrow> st')"

fun identity_step :: "identity_store \<Rightarrow> identity_op \<Rightarrow> identity_store" where
  "identity_step st (RegisterAgent now tenant agent level backend key) =
     store_after st (register_agent now tenant agent level backend key st)"
| "identity_step st (DeleteIdentity tenant agent) = store_after st (delete_identity tenant agent st)"
| "identity_step st (UpgradeIdentity now tenant agent target backend key) =
     store_after st (upgrade_identity now tenant agent target backend key st)"
| "identity_step st (DowngradeIdentity now tenant agent target reason) =
     store_after st (downgrade_identity now tenant agent target reason st)"
| "identity_step st (RecordVerification now tenant agent) =
     store_after st (record_verification now tenant agent st)"

definition identity_of :: "string \<Rightarrow> string \<Rightarrow> identity_store \<Rightarrow> agent_identity option" where
  "identity_of tenant agent st = dict_get (dict_get_or st tenant []) agent"

lemma tenant_store_eq:
  "tenant_store tenant st = (dict_get_or st tenant [], snd (tenant_store tenant st))"
  "dict_get_or (snd (tenant_store tenant st)) t [] = dict_get_or st t []"
  by (auto simp: tenant_store_def dict_get_or_def split: option.splits)

lemma identity_of_set [simp]:
  "identity_of t a (dict_set tenant d st) = (if t = tenant then dict_get d a else identity_of t a st)"
  by (simp add: identity_of_def)

lemma identity_of_tenant_store [simp]: "identity_of t a (snd (tenant_store tenant st)) = identity_of t a st"
  by (simp add: identity_of_def tenant_store_eq(2))

lemma tenant_store_cases:
  "\<exists>st1. tenant_store tenant st = (dict_get_or st tenant [], st1) \<and>
     (\<forall>t a. identity_of t a st1 = identity_of t a st)"
  using tenant_store_eq(1) identity_of_tenant_store by blast

text \<open>The history of an identity: each change with the level after it.\<close>

fun change_level :: "identity_change \<Rightarrow> identity_level" where
  "change_level (Registered l _) = l"
| "change_level (Reregistered l _) = l"
| "change_level (Upgraded _ l _) = l"
| "change_level (Downgraded _ l _ _) = l"

text \<open>A change a level allows: registration sets any level, the others follow the paths.\<close>

fun change_allowed :: "identity_level \<Rightarrow> identity_change \<Rightarrow> bool" where
  "change_allowed l (Registered l' _) = False"
| "change_allowed l (Reregistered l' _) = True"
| "change_allowed l (Upgraded a b _) = (a = l \<and> b \<in> upgrade_paths l)"
| "change_allowed l (Downgraded a b _ _) = (a = l \<and> b < l)"

fun history_from :: "identity_level \<Rightarrow> identity_change list \<Rightarrow> bool" where
  "history_from l [] = True"
| "history_from l (c # cs) = (change_allowed l c \<and> history_from (change_level c) cs)"

definition history_ok :: "identity_change list \<Rightarrow> bool" where
  "history_ok cs \<longleftrightarrow> (case cs of Registered l _ # ds \<Rightarrow> history_from l ds | _ \<Rightarrow> False)"

lemma history_from_snoc:
  "history_from l (cs @ [c]) \<longleftrightarrow> history_from l cs \<and> change_allowed (if cs = [] then l else change_level (last cs)) c"
  by (induction cs arbitrary: l) auto

lemma history_ok_snoc:
  "cs \<noteq> [] \<Longrightarrow> history_ok (cs @ [c]) \<longleftrightarrow> history_ok cs \<and> change_allowed (change_level (last cs)) c"
  by (cases cs; cases "hd cs") (auto simp: history_ok_def history_from_snoc)

definition identity_ok :: "string \<Rightarrow> string \<Rightarrow> agent_identity \<Rightarrow> bool" where
  "identity_ok tenant agent ident \<longleftrightarrow> ident_tenant ident = tenant \<and> ident_agent ident = agent \<and>
     history_ok (ident_history ident) \<and> change_level (last (ident_history ident)) = ident_level ident"

definition store_ok :: "identity_store \<Rightarrow> bool" where
  "store_ok st \<longleftrightarrow> (\<forall>tenant agent ident. identity_of tenant agent st = Some ident \<longrightarrow> identity_ok tenant agent ident)"

lemma store_ok_put:
  assumes "store_ok st" and "\<And>t a. identity_of t a st1 = identity_of t a st" and "identity_ok tenant agent ident"
  shows "store_ok (dict_set tenant (dict_set agent ident (dict_get_or st tenant [])) st1)"
  using assms by (auto simp: store_ok_def identity_of_def split: if_splits)

lemma history_not_Nil: "identity_ok tenant agent ident \<Longrightarrow> ident_history ident \<noteq> []"
  by (auto simp: identity_ok_def history_ok_def)

lemma change_identity_ok:
  assumes ok: "store_ok st"
    and f: "\<And>i j. f i = Inr j \<Longrightarrow> identity_ok tenant agent i \<Longrightarrow> identity_ok tenant agent j"
  shows "store_ok (store_after st (change_identity tenant agent f st))"
proof -
  obtain st1 where st1: "tenant_store tenant st = (dict_get_or st tenant [], st1)"
    "\<And>t a. identity_of t a st1 = identity_of t a st" using tenant_store_cases [of tenant st] by blast
  show ?thesis
  proof (cases "identity_of tenant agent st")
    case (Some ident)
    then have "identity_ok tenant agent ident" using ok by (simp add: store_ok_def)
    with Some f [of ident] show ?thesis
      by (auto simp: change_identity_def store_after_def st1(1) identity_of_def ok
          intro!: store_ok_put [OF ok st1(2)] split: sum.splits)
  qed (auto simp: change_identity_def store_after_def st1(1) identity_of_def ok split: sum.splits)
qed

lemma upgraded_ok: "upgraded now target backend key i = Inr j \<Longrightarrow> identity_ok t a i \<Longrightarrow> identity_ok t a j"
  using history_not_Nil by (auto simp: upgraded_def identity_ok_def history_ok_snoc split: if_splits)

lemma downgraded_ok: "downgraded now target reason i = Inr j \<Longrightarrow> identity_ok t a i \<Longrightarrow> identity_ok t a j"
  using history_not_Nil by (auto simp: downgraded_def identity_ok_def history_ok_snoc split: if_splits)

lemma identity_step_ok: "store_ok st \<Longrightarrow> store_ok (identity_step st op)"
proof (cases op)
  case (RegisterAgent now tenant agent level backend key)
  assume ok: "store_ok st"
  obtain st1 where st1: "tenant_store tenant st = (dict_get_or st tenant [], st1)"
    "\<And>t a. identity_of t a st1 = identity_of t a st" using tenant_store_cases [of tenant st] by blast
  have new: "identity_ok tenant agent ident"
    if "register_agent now tenant agent level backend key st = Inr (ident, st')" for ident st'
  proof (cases "identity_of tenant agent st")
    case None
    with that show ?thesis
      by (auto simp: register_agent_def st1(1) identity_of_def identity_ok_def history_ok_def Let_def
          split: sum.splits)
  next
    case (Some old)
    then have old: "identity_ok tenant agent old" using ok by (simp add: store_ok_def)
    with that Some history_not_Nil [OF old] show ?thesis
      by (auto simp: register_agent_def st1(1) identity_of_def identity_ok_def history_ok_snoc Let_def
          split: sum.splits)
  qed
  show ?thesis
  proof (cases "register_agent now tenant agent level backend key st")
    case (Inr r)
    obtain ident st' where r: "r = (ident, st')" by (cases r)
    have "st' = dict_set tenant (dict_set agent ident (dict_get_or st tenant [])) st1"
      using Inr r by (auto simp: register_agent_def st1(1) Let_def split: sum.splits)
    with store_ok_put [OF ok st1(2) new [OF Inr [unfolded r]]] show ?thesis
      by (simp add: RegisterAgent store_after_def Inr r)
  qed (simp add: RegisterAgent store_after_def ok)
next
  case (DeleteIdentity tenant agent)
  assume ok: "store_ok st"
  obtain st1 where st1: "tenant_store tenant st = (dict_get_or st tenant [], st1)"
    "\<And>t a. identity_of t a st1 = identity_of t a st" using tenant_store_cases [of tenant st] by blast
  have "store_ok (dict_set tenant (dict_del agent (dict_get_or st tenant [])) st1)" "store_ok st1"
    using ok st1(2) by (auto simp: store_ok_def identity_of_def split: if_splits)
  then show ?thesis
    by (simp add: DeleteIdentity delete_identity_def store_after_def st1(1) ok split: sum.splits)
next
  case (RecordVerification now tenant agent)
  assume ok: "store_ok st"
  obtain st1 where st1: "tenant_store tenant st = (dict_get_or st tenant [], st1)"
    "\<And>t a. identity_of t a st1 = identity_of t a st" using tenant_store_cases [of tenant st] by blast
  have "store_ok st1" using ok st1(2) by (simp add: store_ok_def)
  moreover have "store_ok (dict_set tenant (dict_set agent (i\<lparr>last_verified := Some now\<rparr>) (dict_get_or st tenant [])) st1)"
    if "dict_get (dict_get_or st tenant []) agent = Some i" for i
    using that ok by (intro store_ok_put [OF ok st1(2)]) (simp add: store_ok_def identity_of_def identity_ok_def)
  ultimately show ?thesis
    by (auto simp: RecordVerification record_verification_def store_after_def st1(1) ok Let_def
        split: sum.splits option.splits)
qed (simp_all add: upgrade_identity_def downgrade_identity_def change_identity_ok upgraded_ok downgraded_ok)

interpretation identity: machine identity_step store_ok
  by unfold_locales (rule identity_step_ok)

lemma attested_from_hardware:
  assumes "history_from l cs" and "cs \<noteq> []" and "change_level (last cs) = Attested"
  shows "(\<exists>now. Reregistered Attested now = last cs) \<or> (\<exists>now. Upgraded Hardware Attested now = last cs)"
  using assms
proof (induction cs arbitrary: l)
  case (Cons c cs)
  show ?case
  proof (cases "cs = []")
    case True
    with Cons.prems show ?thesis
      by (cases c; cases l) (auto simp: less_identity_level_def)
  qed (use Cons in auto)
qed simp

text \<open>
  An identity's history always explains its level: it starts with the registration, every upgrade in
  it follows the upgrade paths and every downgrade goes down, and its last change ends at the level. So
  an agent is attested only because it was registered so, or by an upgrade from hardware.
\<close>

theorem identity_history_explains:
  assumes "identity_of tenant agent (foldl identity_step [] ops) = Some ident"
  shows "history_ok (ident_history ident) \<and> change_level (last (ident_history ident)) = ident_level ident \<and>
    (ident_level ident = Attested \<longrightarrow>
      (\<exists>now. last (ident_history ident) \<in> {Registered Attested now, Reregistered Attested now,
        Upgraded Hardware Attested now}))"
proof -
  have "store_ok []" by (simp add: store_ok_def identity_of_def dict_get_or_def)
  then have "store_ok (foldl identity_step [] ops)" by (rule identity.inv_run)
  with assms have ok: "identity_ok tenant agent ident" by (simp add: store_ok_def)
  then have h: "history_ok (ident_history ident)" "change_level (last (ident_history ident)) = ident_level ident"
    by (simp_all add: identity_ok_def)
  then obtain l t cs where hist: "ident_history ident = Registered l t # cs" "history_from l cs"
    by (auto simp: history_ok_def split: list.splits identity_change.splits)
  have "\<exists>now. last (ident_history ident) \<in> {Registered Attested now, Reregistered Attested now,
        Upgraded Hardware Attested now}" if "ident_level ident = Attested"
  proof (cases "cs = []")
    case True
    with hist h that show ?thesis by auto
  next
    case False
    with hist(1) h(2) that have "change_level (last cs) = Attested" "last (ident_history ident) = last cs" by simp_all
    with attested_from_hardware [OF hist(2) False] show ?thesis by (metis insertI1 insertI2)
  qed
  with h show ?thesis by blast
qed


definition demo_identity_ops :: "identity_op list" where
  "demo_identity_ops = [RegisterAgent ''1'' ''t'' ''a'' Hardware [] [], UpgradeIdentity ''2'' ''t'' ''a'' Attested [] []]"

lemma demo_ids: "validate_ids ''t'' ''a'' = Inr ()"
  by code_simp

lemma demo_identity_level:
  "\<exists>ident. identity_of ''t'' ''a'' (foldl identity_step [] demo_identity_ops) = Some ident \<and> ident_level ident = Attested"
  by (simp add: demo_identity_ops_def store_after_def register_agent_def upgrade_identity_def
      change_identity_def upgraded_def tenant_store_def demo_ids less_eq_identity_level_def Let_def identity_of_def
      dict_get_or_def)

lemma identity_history_explains_witness:
  "\<exists>ident now. identity_of ''t'' ''a'' (foldl identity_step [] demo_identity_ops) = Some ident \<and>
     ident_level ident = Attested \<and>
     last (ident_history ident) \<in> {Registered Attested now, Reregistered Attested now, Upgraded Hardware Attested now}"
proof -
  obtain ident :: agent_identity where i: "identity_of ''t'' ''a'' (foldl identity_step [] demo_identity_ops) = Some ident"
    "ident_level ident = Attested" using demo_identity_level by blast
  from identity_history_explains [OF i(1)] i show ?thesis by blast
qed

text \<open>
  Registering an agent again sets whatever level is asked for, past the upgrade paths, and keeps the
  time of an earlier attestation: an agent without identity gets the trust boost of an attested one by a
  second registration, and a re-registered agent without identity still shows an attestation time.
\<close>

theorem reregistration_bypasses_paths:
  assumes "validate_ids tenant agent = Inr ()" and "identity_of tenant agent st = Some old"
  shows "\<exists>ident st'. register_agent now tenant agent level backend key st = Inr (ident, st') \<and>
    identity_of tenant agent st' = Some ident \<and> ident_level ident = level \<and>
    attestation_time ident = attestation_time old \<and>
    get_trust_boost tenant agent st' = level_trust_boost level"
proof -
  let ?ident = "old\<lparr>ident_level := level, ident_backend := backend, public_key_hex := key,
    ident_updated := now, ident_history := ident_history old @ [Reregistered level now]\<rparr>"
  obtain st1 where st1: "tenant_store tenant st = (dict_get_or st tenant [], st1)"
    using tenant_store_cases [of tenant st] by blast
  let ?st' = "dict_set tenant (dict_set agent ?ident (dict_get_or st tenant [])) st1"
  have "register_agent now tenant agent level backend key st = Inr (?ident, ?st')"
    using assms by (simp add: register_agent_def st1 identity_of_def Let_def)
  moreover have "get_trust_boost tenant agent ?st' = level_trust_boost level"
    using assms(1) by (simp add: get_trust_boost_def get_identity_def tenant_store_def)
  ultimately show ?thesis by simp
qed

lemma reregistration_bypasses_paths_witness:
  "\<exists>ident st'. register_agent ''2'' ''t'' ''a'' Attested [] []
       (identity_step [] (RegisterAgent ''1'' ''t'' ''a'' NoIdentity [] [])) = Inr (ident, st') \<and>
     ident_level ident = Attested \<and> attestation_time ident = None \<and>
     get_trust_boost ''t'' ''a'' st' = level_trust_boost Attested"
proof -
  let ?st = "identity_step [] (RegisterAgent ''1'' ''t'' ''a'' NoIdentity [] [])"
  obtain old :: agent_identity where o: "identity_of ''t'' ''a'' ?st = Some old" "attestation_time old = None"
    by (simp add: store_after_def register_agent_def tenant_store_def demo_ids Let_def identity_of_def dict_get_or_def)
  from reregistration_bypasses_paths [OF demo_ids o(1), of "''2''" Attested "[]" "[]"] o(2) show ?thesis by auto
qed

end
