(* ===== verification/Auth.thy ===== *)
theory Auth
  imports Py_Values
begin

text \<open>
  \<open>backend/app/services/auth_service.py\<close> and \<open>user_service.py\<close> with \<open>utils/password.py\<close>: password rules,
  the limit on login attempts, account lockout, refresh tokens and their rotation, and the operations on
  users, as the routes \<open>routers/auth.py\<close> and \<open>routers/users.py\<close> run them. bcrypt, SHA-256, random tokens
  and the clocks are arguments; an access token is the payload that is signed. An exception rolls the
  session of the database back, but not the attempts kept in memory.
\<close>

section \<open>Password rules\<close>

datatype violation = TooShort nat | NoUppercase | NoLowercase | NoDigit | NoSpecial | TooCommon

definition MIN_PASSWORD_LENGTH :: nat where
  "MIN_PASSWORD_LENGTH = 12"

definition COMMON_PASSWORDS :: "string list" where
  "COMMON_PASSWORDS =
     [''password1234'', ''123456789012'', ''qwerty123456'', ''admin1234567'', ''changeme1234'',
      ''letmein12345'', ''welcome12345'', ''password1234!'', ''Password1234'', ''Password123!'',
      ''Passw0rd1234'', ''Phantex12345'', ''phantex12345'']"

definition is_upper :: "char \<Rightarrow> bool" where
  "is_upper c \<longleftrightarrow> 65 \<le> code c \<and> code c \<le> 90"

definition is_lower :: "char \<Rightarrow> bool" where
  "is_lower c \<longleftrightarrow> 97 \<le> code c \<and> code c \<le> 122"

text \<open>All printable ASCII characters that are no letter, digit or space are special.\<close>

definition is_special :: "char \<Rightarrow> bool" where
  "is_special c \<longleftrightarrow>
     (33 \<le> code c \<and> code c \<le> 47) \<or> (58 \<le> code c \<and> code c \<le> 64) \<or> (91 \<le> code c \<and> code c \<le> 96) \<or>
     (123 \<le> code c \<and> code c \<le> 126)"

definition violation_if :: "bool \<Rightarrow> violation \<Rightarrow> violation list" where
  "violation_if b v = (if b then [v] else [])"

definition validate_password_strength :: "string \<Rightarrow> violation list" where
  "validate_password_strength p =
     violation_if (length p < MIN_PASSWORD_LENGTH) (TooShort (length p)) @
     violation_if (\<not> list_ex is_upper p) NoUppercase @
     violation_if (\<not> list_ex is_lower p) NoLowercase @
     violation_if (\<not> list_ex is_ascii_digit p) NoDigit @
     violation_if (\<not> list_ex is_special p) NoSpecial @
     violation_if (py_lower p \<in> set COMMON_PASSWORDS) TooCommon"

section \<open>State\<close>

record user_row =
  usr_id :: string
  usr_tenant :: string
  usr_email :: string
  usr_hash :: string
  usr_role :: string
  usr_name :: "string option"
  usr_active :: bool
  usr_failed :: nat
  usr_locked :: "rat option"
  usr_must_change :: bool
  usr_last_login :: "rat option"

record token_row =
  tok_user :: string
  tok_tenant :: string
  tok_hash :: string
  tok_expires :: rat
  tok_revoked :: bool

record auth_state =
  users :: "user_row list"
  tokens :: "token_row list"
  email_attempts :: "(string, rat list) dict"

record auth_env =
  utc :: rat
  monotonic :: rat
  checkpw :: "string \<Rightarrow> string \<Rightarrow> bool"
  hashpw :: "string \<Rightarrow> string"
  sha256_hex :: "string \<Rightarrow> string"
  raw_token :: string
  new_user_id :: string
  access_minutes :: nat
  refresh_days :: nat

record access_payload =
  claim_sub :: string
  claim_tenant :: string
  claim_role :: string
  claim_mcp :: bool
  claim_iat :: int
  claim_exp :: int

record token_response =
  resp_access :: access_payload
  resp_refresh :: string
  resp_expires_in :: nat
  resp_must_change :: bool

section \<open>Login attempts\<close>

definition MAX_LOGIN_ATTEMPTS_PER_MINUTE :: nat where
  "MAX_LOGIN_ATTEMPTS_PER_MINUTE = 5"

definition ACCOUNT_LOCKOUT_ATTEMPTS :: nat where
  "ACCOUNT_LOCKOUT_ATTEMPTS = 5"

definition ACCOUNT_LOCKOUT_DURATION_MINUTES :: nat where
  "ACCOUNT_LOCKOUT_DURATION_MINUTES = 15"

definition recent_attempts :: "rat \<Rightarrow> string \<Rightarrow> auth_state \<Rightarrow> rat list" where
  "recent_attempts now email st = filter (\<lambda>t. now - 60 < t) (dict_get_or (email_attempts st) email [])"

definition check_email_rate_limit :: "rat \<Rightarrow> string \<Rightarrow> auth_state \<Rightarrow> bool \<times> auth_state" where
  "check_email_rate_limit now email st =
     (let kept = recent_attempts now email st
      in if MAX_LOGIN_ATTEMPTS_PER_MINUTE \<le> length kept
         then (False, st\<lparr>email_attempts := dict_set email kept (email_attempts st)\<rparr>)
         else (True, st\<lparr>email_attempts := dict_set email (kept @ [now]) (email_attempts st)\<rparr>))"

text \<open>Keys without attempts, or whose latest attempt is too old, are removed.\<close>

definition cleanup_email_attempts :: "rat \<Rightarrow> rat \<Rightarrow> auth_state \<Rightarrow> nat \<times> auth_state" where
  "cleanup_email_attempts now max_age st =
     (let stale = (\<lambda>(k, v). list_all (\<lambda>t. t < now - max_age) v)
      in (length (filter stale (email_attempts st)),
          st\<lparr>email_attempts := filter (\<lambda>e. \<not> stale e) (email_attempts st)\<rparr>))"

section \<open>Tokens\<close>

definition create_access_token :: "auth_env \<Rightarrow> user_row \<Rightarrow> access_payload" where
  "create_access_token w u =
     \<lparr>claim_sub = usr_id u, claim_tenant = usr_tenant u, claim_role = usr_role u, claim_mcp = usr_must_change u,
      claim_iat = \<lfloor>utc w\<rfloor>, claim_exp = \<lfloor>utc w + 60 * of_nat (access_minutes w)\<rfloor>\<rparr>"

text \<open>The hashes are unique in the table: \<open>None\<close> is the error of a second row with the same hash.\<close>

definition create_token_pair :: "auth_env \<Rightarrow> user_row \<Rightarrow> auth_state \<Rightarrow> (token_response \<times> auth_state) option" where
  "create_token_pair w u st =
     (let h = sha256_hex w (raw_token w);
          row = \<lparr>tok_user = usr_id u, tok_tenant = usr_tenant u, tok_hash = h,
                 tok_expires = utc w + 86400 * of_nat (refresh_days w), tok_revoked = False\<rparr>
      in if list_ex (\<lambda>t. tok_hash t = h) (tokens st) then None
         else Some (\<lparr>resp_access = create_access_token w u, resp_refresh = raw_token w,
                     resp_expires_in = access_minutes w * 60, resp_must_change = usr_must_change u\<rparr>,
                    st\<lparr>tokens := tokens st @ [row]\<rparr>))"

definition revoke_all_refresh_tokens :: "string \<Rightarrow> auth_state \<Rightarrow> auth_state" where
  "revoke_all_refresh_tokens user st =
     st\<lparr>tokens := map (\<lambda>t. if tok_user t = user then t\<lparr>tok_revoked := True\<rparr> else t) (tokens st)\<rparr>"

definition revoke_token :: "string \<Rightarrow> auth_state \<Rightarrow> auth_state" where
  "revoke_token h st =
     st\<lparr>tokens := map (\<lambda>t. if tok_hash t = h then t\<lparr>tok_revoked := True\<rparr> else t) (tokens st)\<rparr>"

definition find_user :: "string \<Rightarrow> auth_state \<Rightarrow> user_row option" where
  "find_user i st = find (\<lambda>u. usr_id u = i) (users st)"

text \<open>
  The ways a rotation ends, with the session's state: a reuse is committed before the answer, the
  revocation of an inactive user's token is rolled back with it.
\<close>

datatype refresh_outcome =
  Issued token_response auth_state
| ReuseDetected auth_state
| UnknownToken
| InactiveUser auth_state
| HashTaken

definition refresh_token_pair :: "auth_env \<Rightarrow> string \<Rightarrow> auth_state \<Rightarrow> refresh_outcome" where
  "refresh_token_pair w raw st =
     (let h = sha256_hex w raw
      in case find (\<lambda>t. tok_hash t = h \<and> \<not> tok_revoked t \<and> utc w < tok_expires t) (tokens st) of
           None \<Rightarrow>
             (case find (\<lambda>t. tok_hash t = h \<and> tok_revoked t) (tokens st) of
                None \<Rightarrow> UnknownToken
              | Some t \<Rightarrow> ReuseDetected (revoke_all_refresh_tokens (tok_user t) st))
         | Some t \<Rightarrow>
             (let st1 = revoke_token h st
              in case find_user (tok_user t) st1 of
                   None \<Rightarrow> InactiveUser st1
                 | Some u \<Rightarrow>
                     if \<not> usr_active u then InactiveUser st1
                     else (case create_token_pair w u st1 of
                         None \<Rightarrow> HashTaken | Some (r, st2) \<Rightarrow> Issued r st2)))"

text \<open>The route: everything but an answer with tokens is an error, and rolls back what is not committed.\<close>

definition refresh :: "auth_env \<Rightarrow> string \<Rightarrow> auth_state \<Rightarrow> token_response option \<times> auth_state" where
  "refresh w raw st =
     (case refresh_token_pair w raw st of
        Issued r st' \<Rightarrow> (Some r, st')
      | ReuseDetected st' \<Rightarrow> (None, st')
      | InactiveUser _ \<Rightarrow> (None, st)
      | _ \<Rightarrow> (None, st))"

section \<open>Authentication\<close>

datatype auth_error = RateLimited | MultipleResults

definition normalize_email :: "string \<Rightarrow> string" where
  "normalize_email email = py_lower (py_strip email)"

definition update_row :: "string \<Rightarrow> (user_row \<Rightarrow> user_row) \<Rightarrow> auth_state \<Rightarrow> auth_state" where
  "update_row i f st = st\<lparr>users := map (\<lambda>u. if usr_id u = i then f u else u) (users st)\<rparr>"

definition failed_login :: "auth_env \<Rightarrow> user_row \<Rightarrow> user_row" where
  "failed_login w u =
     (let n = usr_failed u + 1
      in u\<lparr>usr_failed := n,
           usr_locked := (if ACCOUNT_LOCKOUT_ATTEMPTS \<le> n
                          then Some (utc w + 60 * of_nat ACCOUNT_LOCKOUT_DURATION_MINUTES) else usr_locked u)\<rparr>)"

definition successful_login :: "auth_env \<Rightarrow> user_row \<Rightarrow> user_row" where
  "successful_login w u = u\<lparr>usr_failed := 0, usr_locked := None, usr_last_login := Some (utc w)\<rparr>"

definition is_locked :: "rat \<Rightarrow> user_row \<Rightarrow> bool" where
  "is_locked now u \<longleftrightarrow> (case usr_locked u of None \<Rightarrow> False | Some l \<Rightarrow> now < l)"

definition authenticate_user :: "auth_env \<Rightarrow> string \<Rightarrow> string \<Rightarrow> auth_state \<Rightarrow>
    (auth_error + user_row option) \<times> auth_state" where
  "authenticate_user w email password st =
     (let e = normalize_email email;
          (allowed, st1) = check_email_rate_limit (monotonic w) e st
      in if \<not> allowed then (Inl RateLimited, st1)
         else case filter (\<lambda>u. usr_email u = e \<and> usr_active u) (users st1) of
             [] \<Rightarrow> (Inr None, st1)
           | [u] \<Rightarrow>
               if is_locked (utc w) u then (Inr None, st1)
               else if \<not> checkpw w password (usr_hash u)
                    then (Inr None, update_row (usr_id u) (failed_login w) st1)
                    else (Inr (Some (successful_login w u)), update_row (usr_id u) (successful_login w) st1)
           | _ \<Rightarrow> (Inl MultipleResults, st1))"

text \<open>The route: 429, 401, 500 when the query or the insertion raises, or the tokens.\<close>

definition login :: "auth_env \<Rightarrow> string \<Rightarrow> string \<Rightarrow> auth_state \<Rightarrow> (nat + token_response) \<times> auth_state" where
  "login w email password st =
     (case authenticate_user w email password st of
        (Inl RateLimited, st1) \<Rightarrow> (Inl 429, st1)
      | (Inl MultipleResults, st1) \<Rightarrow> (Inl 500, st1)
      | (Inr None, st1) \<Rightarrow> (Inl 401, st1)
      | (Inr (Some u), st1) \<Rightarrow>
          (case create_token_pair w u st1 of
             None \<Rightarrow> (Inl 500, st\<lparr>email_attempts := email_attempts st1\<rparr>)
           | Some (r, st2) \<Rightarrow> (Inr r, st2)))"

definition logout :: "string \<Rightarrow> auth_state \<Rightarrow> auth_state" where
  "logout user st = revoke_all_refresh_tokens user st"

section \<open>Users\<close>

datatype user_error = WeakPassword "violation list" | DuplicateEmail | InvalidRole | UserNotFound | WrongPassword

definition create_user :: "auth_env \<Rightarrow> string \<Rightarrow> string \<Rightarrow> string \<Rightarrow> string \<Rightarrow> string option \<Rightarrow> auth_state \<Rightarrow>
    user_error + (user_row \<times> auth_state)" where
  "create_user w tenant email password role name st =
     (if validate_password_strength password \<noteq> [] then Inl (WeakPassword (validate_password_strength password))
      else if list_ex (\<lambda>u. usr_tenant u = tenant \<and> usr_email u = email) (users st) then Inl DuplicateEmail
      else let u = \<lparr>usr_id = new_user_id w, usr_tenant = tenant, usr_email = email, usr_hash = hashpw w password,
                    usr_role = role, usr_name = name, usr_active = True, usr_failed = 0, usr_locked = None,
                    usr_must_change = True, usr_last_login = None\<rparr>
           in Inr (u, st\<lparr>users := users st @ [u]\<rparr>))"

text \<open>Row-level security shows the session only the users of its tenant.\<close>

definition change_attributes :: "string option \<Rightarrow> string option \<Rightarrow> bool option \<Rightarrow> user_row \<Rightarrow> user_row" where
  "change_attributes role name active u =
     u\<lparr>usr_role := (case role of None \<Rightarrow> usr_role u | Some r \<Rightarrow> r),
       usr_name := (case name of None \<Rightarrow> usr_name u | Some n \<Rightarrow> Some n),
       usr_active := (case active of None \<Rightarrow> usr_active u | Some a \<Rightarrow> a)\<rparr>"

definition update_user :: "string \<Rightarrow> string \<Rightarrow> string option \<Rightarrow> string option \<Rightarrow> bool option \<Rightarrow> auth_state \<Rightarrow>
    user_error + (user_row option \<times> auth_state)" where
  "update_user tenant i role name active st =
     (case find (\<lambda>u. usr_id u = i \<and> usr_tenant u = tenant) (users st) of
        None \<Rightarrow> Inr (None, st)
      | Some u \<Rightarrow>
          if (case role of None \<Rightarrow> False | Some r \<Rightarrow> r \<notin> {''admin'', ''analyst'', ''viewer''}) then Inl InvalidRole
          else Inr (Some (change_attributes role name active u), update_row i (change_attributes role name active) st))"

definition change_password :: "auth_env \<Rightarrow> string \<Rightarrow> string \<Rightarrow> string \<Rightarrow> auth_state \<Rightarrow> user_error + auth_state" where
  "change_password w i current new st =
     (case find_user i st of
        None \<Rightarrow> Inl UserNotFound
      | Some u \<Rightarrow>
          if \<not> checkpw w current (usr_hash u) then Inl WrongPassword
          else if validate_password_strength new \<noteq> [] then Inl (WeakPassword (validate_password_strength new))
          else Inr (revoke_all_refresh_tokens i
                 (update_row i (\<lambda>u. u\<lparr>usr_hash := hashpw w new, usr_must_change := False\<rparr>) st)))"

definition count_users :: "string \<Rightarrow> auth_state \<Rightarrow> nat" where
  "count_users tenant st = length (filter (\<lambda>u. usr_tenant u = tenant) (users st))"

end
