(* ===== verification/Auth_Props.thy ===== *)
theory Auth_Props
  imports Auth
begin

text \<open>
  Refresh tokens are used once, guesses of a password are limited, and the places where a login cannot
  succeed or a common password is accepted.
\<close>

section \<open>Operations\<close>

datatype auth_op =
  Login auth_env string string
| Refresh auth_env string
| Logout string
| CreateUser auth_env string string string string "string option"
| UpdateUser string string "string option" "string option" "bool option"
| ChangePassword auth_env string string string
| Cleanup rat rat

fun auth_step :: "auth_state \<Rightarrow> auth_op \<Rightarrow> auth_state" where
  "auth_step st (Login w email pw) = snd (login w email pw st)"
| "auth_step st (Refresh w raw) = snd (refresh w raw st)"
| "auth_step st (Logout u) = logout u st"
| "auth_step st (CreateUser w t e p r n) = (case create_user w t e p r n st of Inl _ \<Rightarrow> st | Inr (_, st') \<Rightarrow> st')"
| "auth_step st (UpdateUser t i r n a) = (case update_user t i r n a st of Inl _ \<Rightarrow> st | Inr (_, st') \<Rightarrow> st')"
| "auth_step st (ChangePassword w i c n) = (case change_password w i c n st of Inl _ \<Rightarrow> st | Inr st' \<Rightarrow> st')"
| "auth_step st (Cleanup now age) = snd (cleanup_email_attempts now age st)"

lemma row_updates [simp]:
  "tokens (update_row i f st) = tokens st" "tokens (st\<lparr>email_attempts := d\<rparr>) = tokens st"
  by (simp_all add: update_row_def)

lemma rate_limit_tokens [simp]:
  "tokens (snd (check_email_rate_limit now e st)) = tokens st"
  "users (snd (check_email_rate_limit now e st)) = users st"
  by (simp_all add: check_email_rate_limit_def Let_def)

lemma authenticate_tokens [simp]: "tokens (snd (authenticate_user w e p st)) = tokens st"
  using rate_limit_tokens [of "monotonic w" "normalize_email e" st]
  by (auto simp: authenticate_user_def Let_def simp del: rate_limit_tokens split: prod.splits list.splits)

section \<open>Refresh tokens\<close>

text \<open>How an operation changes the tokens: rows are revoked or appended, with a hash of their own.\<close>

definition tokens_grow :: "token_row list \<Rightarrow> token_row list \<Rightarrow> bool" where
  "tokens_grow ts ts' \<longleftrightarrow>
     (\<exists>f new. ts' = map f ts @ new \<and>
        (\<forall>t. tok_hash (f t) = tok_hash t \<and> tok_user (f t) = tok_user t \<and> (tok_revoked t \<longrightarrow> tok_revoked (f t))) \<and>
        (distinct (map tok_hash ts) \<longrightarrow> distinct (map tok_hash (map f ts @ new))))"

lemma tokens_grow_refl [simp]: "tokens_grow ts ts"
  unfolding tokens_grow_def by (rule exI [of _ id], rule exI [of _ "[]"]) simp

lemma grow_map:
  assumes "\<And>t. tok_hash (f t) = tok_hash t \<and> tok_user (f t) = tok_user t \<and> (tok_revoked t \<longrightarrow> tok_revoked (f t))"
  shows "tokens_grow ts (map f ts)"
  unfolding tokens_grow_def
  using assms by (intro exI [of _ f] exI [of _ "[]"]) (simp add: o_def)

lemma grow_append: "list_all (\<lambda>x. tok_hash x \<noteq> tok_hash t) ts \<Longrightarrow> tokens_grow ts (ts @ [t])"
  unfolding tokens_grow_def by (intro exI [of _ id] exI [of _ "[t]"]) (auto simp: list_all_iff)

lemma grow_trans:
  assumes "tokens_grow a b" and "tokens_grow b c"
  shows "tokens_grow a c"
proof -
  obtain f n where 1: "b = map f a @ n"
    "\<And>t. tok_hash (f t) = tok_hash t \<and> tok_user (f t) = tok_user t \<and> (tok_revoked t \<longrightarrow> tok_revoked (f t))"
    "distinct (map tok_hash a) \<longrightarrow> distinct (map tok_hash b)"
    using assms(1) unfolding tokens_grow_def by blast
  obtain g m where 2: "c = map g b @ m"
    "\<And>t. tok_hash (g t) = tok_hash t \<and> tok_user (g t) = tok_user t \<and> (tok_revoked t \<longrightarrow> tok_revoked (g t))"
    "distinct (map tok_hash b) \<longrightarrow> distinct (map tok_hash c)"
    using assms(2) unfolding tokens_grow_def by blast
  have "c = map (\<lambda>t. g (f t)) a @ (map g n @ m)" using 1(1) 2(1) by (simp add: o_def)
  with 1 2 show ?thesis
    unfolding tokens_grow_def by (intro exI [of _ "\<lambda>t. g (f t)"] exI [of _ "map g n @ m"]) auto
qed

lemma revoke_all_grow [simp]: "tokens_grow (tokens st) (tokens (revoke_all_refresh_tokens u st))"
  by (auto simp: revoke_all_refresh_tokens_def intro!: grow_map)

lemma revoke_token_grow [simp]: "tokens_grow (tokens st) (tokens (revoke_token h st))"
  by (auto simp: revoke_token_def intro!: grow_map)

lemma create_pair_grow: "create_token_pair w u st = Some (r, st') \<Longrightarrow> tokens_grow (tokens st) (tokens st')"
  by (auto simp: create_token_pair_def Let_def list_ex_iff list_all_iff intro!: grow_append split: if_splits)

lemma refresh_grow: "tokens_grow (tokens st) (tokens (snd (refresh w raw st)))"
proof (cases "refresh_token_pair w raw st")
  case (Issued r st')
  then obtain u where "create_token_pair w u (revoke_token (sha256_hex w raw) st) = Some (r, st')"
    by (auto simp: refresh_token_pair_def Let_def split: option.splits if_splits)
  with Issued show ?thesis
    using grow_trans [OF revoke_token_grow create_pair_grow] by (simp add: refresh_def)
next
  case (ReuseDetected st')
  then show ?thesis
    by (auto simp: refresh_def refresh_token_pair_def Let_def split: option.splits if_splits)
qed (simp_all add: refresh_def)

lemma login_grow: "tokens_grow (tokens st) (tokens (snd (login w e p st)))"
  using authenticate_tokens [of w e p st]
  by (auto simp: login_def simp del: authenticate_tokens split: prod.splits sum.splits option.splits auth_error.splits
      dest: create_pair_grow)

lemma auth_step_grow: "tokens_grow (tokens st) (tokens (auth_step st op))"
  by (cases op)
    (auto simp: login_grow refresh_grow logout_def create_user_def update_user_def change_password_def
      cleanup_email_attempts_def Let_def revoke_all_refresh_tokens_def update_row_def
      intro!: grow_map split: option.splits sum.splits)

text \<open>A token that was used or revoked, of a user.\<close>

definition spent :: "string \<Rightarrow> string \<Rightarrow> auth_state \<Rightarrow> bool" where
  "spent h u st \<longleftrightarrow> (\<exists>t \<in> set (tokens st). tok_hash t = h \<and> tok_user t = u \<and> tok_revoked t)"

lemma grow_spent: "tokens_grow (tokens st) (tokens st') \<Longrightarrow> spent h u st \<Longrightarrow> spent h u st'"
  unfolding tokens_grow_def spent_def by fastforce

lemma grow_distinct: "tokens_grow ts ts' \<Longrightarrow> distinct (map tok_hash ts) \<Longrightarrow> distinct (map tok_hash ts')"
  unfolding tokens_grow_def by blast

definition spent_ok :: "string \<Rightarrow> string \<Rightarrow> auth_state \<Rightarrow> bool" where
  "spent_ok h u st \<longleftrightarrow> distinct (map tok_hash (tokens st)) \<and> spent h u st"

interpretation token_hashes: machine auth_step "\<lambda>st. distinct (map tok_hash (tokens st))"
  by unfold_locales (rule grow_distinct [OF auth_step_grow])

interpretation spent_tokens: machine auth_step "spent_ok h u"
  by unfold_locales (auto simp: spent_ok_def intro: grow_distinct [OF auth_step_grow] grow_spent [OF auth_step_grow])

lemma find_only:
  assumes "t \<in> set xs" and "P t" and only: "\<And>x. x \<in> set xs \<Longrightarrow> P x \<Longrightarrow> x = t"
  shows "find P xs = Some t"
proof (cases "find P xs")
  case None
  with assms(1,2) show ?thesis by (simp add: find_None_iff)
next
  case (Some y)
  then have "y \<in> set xs" "P y" by (auto simp: find_Some_iff)
  with only Some show ?thesis by simp
qed

lemma spent_refresh:
  assumes "spent_ok (sha256_hex w raw) u st"
  shows "refresh w raw st = (None, revoke_all_refresh_tokens u st)"
proof -
  let ?h = "sha256_hex w raw"
  obtain t where t: "t \<in> set (tokens st)" "tok_hash t = ?h" "tok_user t = u" "tok_revoked t"
    using assms by (auto simp: spent_ok_def spent_def)
  have inj: "inj_on tok_hash (set (tokens st))" using assms by (simp add: spent_ok_def distinct_map)
  have only: "x = t" if "x \<in> set (tokens st)" "tok_hash x = ?h" for x
    using inj_onD [OF inj, of x t] that t by simp
  then have "find (\<lambda>t. tok_hash t = ?h \<and> \<not> tok_revoked t \<and> utc w < tok_expires t) (tokens st) = None"
    using t(4) by (auto simp: find_None_iff)
  moreover have "find (\<lambda>t. tok_hash t = ?h \<and> tok_revoked t) (tokens st) = Some t"
    by (rule find_only) (use t only in blast)+
  ultimately show ?thesis using t(3) by (simp add: refresh_def refresh_token_pair_def Let_def)
qed

lemma issued_spends:
  assumes "refresh w raw st = (Some r, st')"
  shows "spent (sha256_hex w raw) (claim_sub (resp_access r)) st'"
proof -
  let ?h = "sha256_hex w raw"
  obtain t u where t: "find (\<lambda>t. tok_hash t = ?h \<and> \<not> tok_revoked t \<and> utc w < tok_expires t) (tokens st) = Some t"
    and u: "find_user (tok_user t) (revoke_token ?h st) = Some u"
    and pair: "create_token_pair w u (revoke_token ?h st) = Some (r, st')"
    using assms by (auto simp: refresh_def refresh_token_pair_def Let_def
        split: refresh_outcome.splits option.splits if_splits)
  have "t \<in> set (tokens st)" "tok_hash t = ?h" using t by (auto simp: find_Some_iff)
  then have "t\<lparr>tok_revoked := True\<rparr> \<in> set (tokens (revoke_token ?h st))"
    by (force simp: revoke_token_def)
  moreover have "usr_id u = tok_user t" using u by (auto simp: find_user_def find_Some_iff)
  ultimately have "spent ?h (usr_id u) (revoke_token ?h st)"
    using \<open>tok_hash t = ?h\<close> unfolding spent_def by (intro bexI [of _ "t\<lparr>tok_revoked := True\<rparr>"]) auto
  from grow_spent [OF create_pair_grow [OF pair] this] pair show ?thesis
    by (auto simp: create_token_pair_def create_access_token_def Let_def split: if_splits)
qed

text \<open>
  C7: A refresh token is exchanged once. After it was exchanged, whatever happens next, presenting it again
  gets no tokens, and revokes every refresh token of its user.
\<close>

theorem refresh_token_single_use:
  assumes "tokens st0 = []" and "refresh w raw (foldl auth_step st0 before) = (Some r, st1)"
    and "sha256_hex w' = sha256_hex w"
    and "refresh w' raw (foldl auth_step st1 later) = (answer, st3)"
    and "t \<in> set (tokens st3)" and "tok_user t = claim_sub (resp_access r)"
  shows "answer = None \<and> tok_revoked t"
proof -
  have "distinct (map tok_hash (tokens (foldl auth_step st0 before)))"
    by (rule token_hashes.inv_run) (simp add: assms(1))
  then have "distinct (map tok_hash (tokens st1))"
    using grow_distinct [OF refresh_grow [of "foldl auth_step st0 before" w raw]] assms(2) by simp
  then have "spent_ok (sha256_hex w raw) (claim_sub (resp_access r)) st1"
    using issued_spends [OF assms(2)] by (simp add: spent_ok_def)
  then have "spent_ok (sha256_hex w raw) (claim_sub (resp_access r)) (foldl auth_step st1 later)"
    by (rule spent_tokens.inv_run)
  then have "spent_ok (sha256_hex w' raw) (claim_sub (resp_access r)) (foldl auth_step st1 later)"
    using assms(3) by simp
  from spent_refresh [OF this] assms(4-6) show ?thesis
    by (auto simp: revoke_all_refresh_tokens_def)
qed

definition demo_auth :: "string \<Rightarrow> auth_env" where
  "demo_auth raw = \<lparr>utc = 1000, monotonic = 1000, checkpw = (\<lambda>p h. p = h), hashpw = (\<lambda>p. p), sha256_hex = (\<lambda>s. s),
     raw_token = raw, new_user_id = ''u'', access_minutes = 15, refresh_days = 7\<rparr>"

definition demo_user :: user_row where
  "demo_user = \<lparr>usr_id = ''u'', usr_tenant = ''t'', usr_email = ''a@b'', usr_hash = ''secret'', usr_role = ''viewer'',
     usr_name = None, usr_active = True, usr_failed = 0, usr_locked = None, usr_must_change = False,
     usr_last_login = None\<rparr>"

definition demo_auth_state :: auth_state where
  "demo_auth_state = \<lparr>users = [demo_user], tokens = [], email_attempts = []\<rparr>"

lemmas demo_auth_defs = demo_auth_state_def demo_user_def demo_auth_def refresh_def refresh_token_pair_def
  create_token_pair_def create_access_token_def find_user_def revoke_token_def successful_login_def
  update_row_def check_email_rate_limit_def recent_attempts_def dict_get_or_def is_locked_def
  MAX_LOGIN_ATTEMPTS_PER_MINUTE_def Let_def

lemma demo_normalize: "normalize_email ''a@b'' = ''a@b''"
  by code_simp

lemma demo_exchange:
  "\<exists>r st1. refresh (demo_auth ''2'') ''1'' (foldl auth_step demo_auth_state [Login (demo_auth ''1'') ''a@b'' ''secret''])
     = (Some r, st1) \<and> claim_sub (resp_access r) = ''u'' \<and> map tok_user (tokens st1) = [''u'', ''u''] \<and>
     map tok_hash (tokens st1) = [''1'', ''2'']"
  by (simp add: login_def authenticate_user_def demo_normalize demo_auth_defs)

lemma refresh_token_single_use_witness:
  "\<exists>r st1 st3. refresh (demo_auth ''2'') ''1'' (foldl auth_step demo_auth_state [Login (demo_auth ''1'') ''a@b'' ''secret''])
     = (Some r, st1) \<and> refresh (demo_auth ''3'') ''1'' st1 = (None, st3)"
proof -
  obtain r :: token_response and st1 :: auth_state where ex: "refresh (demo_auth ''2'') ''1''
      (foldl auth_step demo_auth_state [Login (demo_auth ''1'') ''a@b'' ''secret'']) = (Some r, st1)"
    and user: "claim_sub (resp_access r) = ''u''" and owners: "map tok_user (tokens st1) = [''u'', ''u'']"
    by (rule exE [OF demo_exchange], elim exE conjE) (rule that)
  obtain answer st3 where again: "refresh (demo_auth ''3'') ''1'' (foldl auth_step st1 []) = (answer, st3)"
    by fastforce
  have "tokens_grow (tokens st1) (tokens st3)" using refresh_grow [of st1 "demo_auth ''3''" "''1''"] again by simp
  then obtain f new where f: "tokens st3 = map f (tokens st1) @ new" "\<And>t. tok_user (f t) = tok_user t"
    unfolding tokens_grow_def by blast
  obtain t ts where "tokens st1 = t # ts" "tok_user t = ''u''" using owners by (cases "tokens st1") auto
  with f user have t: "f t \<in> set (tokens st3)" "tok_user (f t) = claim_sub (resp_access r)" by simp_all
  have st: "tokens demo_auth_state = []" "sha256_hex (demo_auth ''3'') = sha256_hex (demo_auth ''2'')"
    by (simp_all add: demo_auth_state_def demo_auth_def)
  from refresh_token_single_use [OF st(1) ex st(2) again t] have "answer = None" by (rule conjunct1)
  with again have "refresh (demo_auth ''3'') ''1'' st1 = (None, st3)" by simp
  with ex show ?thesis by (intro exI conjI)
qed

text \<open>A changed password ends every session that could be refreshed.\<close>

lemma revoke_all_revokes:
  "list_all (\<lambda>t. tok_user t = i \<longrightarrow> tok_revoked t) (tokens (revoke_all_refresh_tokens i st))"
proof -
  have "list_all (\<lambda>t. tok_user t = i \<longrightarrow> tok_revoked t)
      (map (\<lambda>t. if tok_user t = i then t\<lparr>tok_revoked := True\<rparr> else t) ts)" for ts
    by (induction ts) simp_all
  then show ?thesis by (simp add: revoke_all_refresh_tokens_def)
qed

lemma password_change_revokes:
  assumes "change_password w i cur new st = Inr st'"
  shows "list_all (\<lambda>t. tok_user t = i \<longrightarrow> tok_revoked t) (tokens st')"
proof -
  obtain st2 where "st' = revoke_all_refresh_tokens i st2"
    using assms by (auto simp: change_password_def split: option.splits if_splits)
  then show ?thesis by (simp only: revoke_all_revokes)
qed

section \<open>Guesses\<close>

text \<open>Attempts to log in with one address, each with its time and password, and their answers.\<close>

fun attempts :: "string \<Rightarrow> (auth_env \<times> string) list \<Rightarrow> auth_state \<Rightarrow> (auth_error + user_row option) list" where
  "attempts e [] st = []"
| "attempts e ((w, p) # as) st =
     (case authenticate_user w e p st of (r, st') \<Rightarrow> r # attempts e as st')"

definition refusals :: "(auth_error + user_row option) list \<Rightarrow> nat" where
  "refusals rs = length (filter (\<lambda>r. r = Inr None) rs)"

definition the_user :: "string \<Rightarrow> user_row \<Rightarrow> auth_state \<Rightarrow> bool" where
  "the_user e u st \<longleftrightarrow> filter (\<lambda>v. usr_email v = normalize_email e \<and> usr_active v) (users st) = [u] \<and>
     distinct (map usr_id (users st))"

text \<open>The state of the user after some number of refused attempts before the time.\<close>

definition guessed :: "nat \<Rightarrow> rat \<Rightarrow> user_row \<Rightarrow> bool" where
  "guessed k t u \<longleftrightarrow> (if k < 5 then usr_failed u = k \<and> usr_locked u = None
     else (\<exists>l. usr_locked u = Some l \<and> t \<le> l))"

lemma update_row_user:
  assumes "the_user e u st" and "\<And>v. usr_email (f v) = usr_email v \<and> usr_active (f v) = usr_active v \<and> usr_id (f v) = usr_id v"
  shows "the_user e (f u) (update_row (usr_id u) f st)"
proof -
  let ?P = "\<lambda>v. usr_email v = normalize_email e \<and> usr_active v"
  let ?g = "\<lambda>v. if usr_id v = usr_id u then f v else v"
  have "filter ?P (map ?g (users st)) = map ?g (filter ?P (users st))"
    using assms(2) by (simp add: filter_map o_def cong: filter_cong)
  then have "filter ?P (map ?g (users st)) = [f u]"
    using assms(1) by (simp add: the_user_def)
  moreover have "map usr_id (map ?g (users st)) = map usr_id (users st)"
    using assms(2) by (induction "users st") auto
  ultimately show ?thesis using assms(1) by (simp add: the_user_def update_row_def del: map_map)
qed

lemma guess_step:
  assumes "the_user e u st" and "guessed k (t0 + 900) u" and "t0 \<le> utc w" and "utc w < t0 + 900"
    and "authenticate_user w e p st = (r, st')" and "\<not> (\<exists>v. r = Inr (Some v))"
  shows "\<exists>u'. the_user e u' st' \<and> guessed (k + (if r = Inr None then 1 else 0)) (t0 + 900) u'"
proof -
  obtain ok st1 where rl: "check_email_rate_limit (monotonic w) (normalize_email e) st = (ok, st1)" by fastforce
  have us: "users st1 = users st" using rate_limit_tokens(2) [of "monotonic w" "normalize_email e" st] rl by simp
  then have u1: "the_user e u st1" using assms(1) by (simp add: the_user_def)
  show ?thesis
  proof (cases ok)
    case False
    with rl assms(5) have "r = Inl RateLimited" "st' = st1" by (auto simp: authenticate_user_def Let_def)
    with u1 assms(2) show ?thesis by auto
  next
    case True
    have one: "filter (\<lambda>v. usr_email v = normalize_email e \<and> usr_active v) (users st1) = [u]"
      using u1 by (simp add: the_user_def)
    show ?thesis
    proof (cases "is_locked (utc w) u")
      case locked: True
      with True rl one assms(5) have "r = Inr None" "st' = st1" by (auto simp: authenticate_user_def Let_def)
      moreover have "\<not> k < 5" using locked assms(2) by (auto simp: guessed_def is_locked_def)
      ultimately show ?thesis using u1 assms(2) by (auto simp: guessed_def)
    next
      case unlocked: False
      then have k: "k < 5" using assms(2,4) by (force simp: guessed_def is_locked_def split: if_splits)
      from True rl one assms(5,6) unlocked have "r = Inr None" "st' = update_row (usr_id u) (failed_login w) st1"
        by (auto simp: authenticate_user_def Let_def split: if_splits)
      moreover have "the_user e (failed_login w u) (update_row (usr_id u) (failed_login w) st1)"
        by (rule update_row_user [OF u1]) (simp add: failed_login_def Let_def)
      moreover have "guessed (k + 1) (t0 + 900) (failed_login w u)"
        using k assms(2,3) by (auto simp: guessed_def failed_login_def Let_def ACCOUNT_LOCKOUT_ATTEMPTS_def
            ACCOUNT_LOCKOUT_DURATION_MINUTES_def)
      ultimately show ?thesis by auto
    qed
  qed
qed

lemma guess_success:
  assumes "the_user e u st" and "guessed k (t0 + 900) u" and "utc w < t0 + 900"
    and "fst (authenticate_user w e p st) = Inr (Some v)"
  shows "k < 5"
proof -
  obtain ok st1 where rl: "check_email_rate_limit (monotonic w) (normalize_email e) st = (ok, st1)" by fastforce
  have "users st1 = users st" using rate_limit_tokens(2) [of "monotonic w" "normalize_email e" st] rl by simp
  then have "filter (\<lambda>v. usr_email v = normalize_email e \<and> usr_active v) (users st1) = [u]"
    using assms(1) by (simp add: the_user_def)
  with rl assms(4) have "\<not> is_locked (utc w) u" by (auto simp: authenticate_user_def Let_def split: if_splits)
  with assms(2,3) show ?thesis by (force simp: guessed_def is_locked_def split: if_splits)
qed

text \<open>
  C8: Within fifteen minutes an account is open to five guesses: when an attempt to log in succeeds and no
  earlier one did, at most four attempts before it were refused, wherever they came from.
\<close>

theorem five_guesses:
  assumes "the_user e u st" and "usr_failed u = 0" and "usr_locked u = None"
    and "list_all (\<lambda>(w, p). t0 \<le> utc w \<and> utc w < t0 + 900) as"
    and "attempts e as st = rs @ Inr (Some v) # rest" and "\<not> list_ex (\<lambda>r. \<exists>v. r = Inr (Some v)) rs"
  shows "refusals rs \<le> 4"
proof -
  have "k + refusals rs < 5" if "the_user e u st" "guessed k (t0 + 900) u" for k
    using that assms(4-6)
  proof (induction as arbitrary: st rs k u)
    case (Cons a as)
    obtain w p where a: "a = (w, p)" by (cases a)
    obtain r st' where r: "authenticate_user w e p st = (r, st')" by fastforce
    have times: "t0 \<le> utc w" "utc w < t0 + 900" using Cons.prems(3) a by auto
    show ?case
    proof (cases rs)
      case Nil
      with Cons.prems(4) a r have "fst (authenticate_user w e p st) = Inr (Some v)" by simp
      from guess_success [OF Cons.prems(1,2) times(2) this] Nil show ?thesis by (simp add: refusals_def)
    next
      case (Cons r' rs')
      then have rs': "r' = r" "attempts e as st' = rs' @ Inr (Some v) # rest"
        using Cons.prems(4) a r by auto
      with Cons Cons.prems(5) have "\<not> (\<exists>v. r = Inr (Some v))" by auto
      from guess_step [OF Cons.prems(1,2) times r this] obtain u' where
        u': "the_user e u' st'" "guessed (k + (if r = Inr None then 1 else 0)) (t0 + 900) u'" by blast
      have "k + (if r = Inr None then 1 else 0) + refusals rs' < 5"
        using Cons.IH [OF u' _ rs'(2)] Cons.prems(3,5) Cons a by auto
      with Cons rs'(1) show ?thesis by (simp add: refusals_def split: if_splits)
    qed
  qed simp
  moreover have "guessed 0 (t0 + 900) u" using assms(2,3) by (simp add: guessed_def)
  ultimately show ?thesis using assms(1) by fastforce
qed

lemma five_guesses_witness:
  "\<exists>v. attempts ''a@b'' [(demo_auth ''1'', ''x''), (demo_auth ''2'', ''secret'')] demo_auth_state =
     [Inr None, Inr (Some v)] \<and> refusals [Inr None] \<le> 4"
proof -
  let ?as = "[(demo_auth ''1'', ''x''), (demo_auth ''2'', ''secret'')]"
  obtain v where v: "attempts ''a@b'' ?as demo_auth_state = [Inr None] @ Inr (Some v) # []"
    by (simp add: authenticate_user_def demo_normalize failed_login_def ACCOUNT_LOCKOUT_ATTEMPTS_def demo_auth_defs)
  have "the_user ''a@b'' demo_user demo_auth_state"
    by (simp add: the_user_def demo_normalize demo_auth_state_def demo_user_def)
  moreover have "usr_failed demo_user = 0" "usr_locked demo_user = None" by (simp_all add: demo_user_def)
  moreover have "list_all (\<lambda>(w, p). 1000 \<le> utc w \<and> utc w < 1000 + 900) ?as" by (simp add: demo_auth_def)
  ultimately have "refusals [Inr None] \<le> 4"
    using five_guesses [of "''a@b''" demo_user demo_auth_state 1000 ?as "[Inr None]" v "[]"] v by simp
  with v show ?thesis by auto
qed

section \<open>Attempts per minute\<close>

datatype rate_op = Check rat string | Clean rat rat

fun rate_time :: "rate_op \<Rightarrow> rat" where
  "rate_time (Check now _) = now"
| "rate_time (Clean now _) = now"

text \<open>The state with the times of the attempts for one address that were let through.\<close>

fun rate_step :: "string \<Rightarrow> auth_state \<times> rat list \<Rightarrow> rate_op \<Rightarrow> auth_state \<times> rat list" where
  "rate_step e (st, L) (Check now e') =
     (case check_email_rate_limit now e' st of
        (ok, st') \<Rightarrow> (st', if ok \<and> e' = e then L @ [now] else L))"
| "rate_step e (st, L) (Clean now age) = (snd (cleanup_email_attempts now age st), L)"

definition spaced :: "rat list \<Rightarrow> bool" where
  "spaced L \<longleftrightarrow> (\<forall>i. i + 5 < length L \<longrightarrow> L ! i + 60 \<le> L ! (i + 5))"

definition rate_inv :: "string \<Rightarrow> rat \<Rightarrow> auth_state \<times> rat list \<Rightarrow> bool" where
  "rate_inv e now s \<longleftrightarrow> dict_wf (email_attempts (fst s)) \<and> sorted (snd s) \<and> spaced (snd s) \<and>
     list_all (\<lambda>t. t \<le> now) (snd s) \<and>
     (\<exists>c \<le> now - 60. dict_get_or (email_attempts (fst s)) e [] = filter (\<lambda>t. c < t) (snd s))"

lemma rate_inv_later: "rate_inv e now s \<Longrightarrow> now \<le> now' \<Longrightarrow> rate_inv e now' s"
  unfolding rate_inv_def list_all_iff by (meson diff_right_mono order_trans)

lemma few_recent:
  assumes "sorted L" and "length (filter (\<lambda>t. c < t) L) < 5" and "5 \<le> length L"
  shows "L ! (length L - 5) \<le> (c :: rat)"
proof (rule ccontr)
  assume "\<not> L ! (length L - 5) \<le> c"
  then have "c < t" if "t \<in> set (drop (length L - 5) L)" for t
  proof -
    from that obtain j where "j < 5" "t = L ! (length L - 5 + j)"
      using assms(3) by (auto simp: in_set_conv_nth)
    with assms(1,3) have "L ! (length L - 5) \<le> t" by (auto intro: sorted_nth_mono)
    with \<open>\<not> L ! (length L - 5) \<le> c\<close> show ?thesis by simp
  qed
  then have "filter (\<lambda>t. c < t) (drop (length L - 5) L) = drop (length L - 5) L" by (simp add: filter_id_conv)
  moreover have "length (filter (\<lambda>t. c < t) (drop (length L - 5) L)) \<le> length (filter (\<lambda>t. c < t) L)"
    by (metis append_take_drop_id filter_append length_append le_add2)
  ultimately show False using assms(2,3) by simp
qed

lemma spaced_snoc:
  assumes "spaced L" and "sorted L" and "length (filter (\<lambda>t. now - 60 < t) L) < 5"
  shows "spaced (L @ [now])"
  unfolding spaced_def
proof (intro allI impI)
  fix i
  assume i: "i + 5 < length (L @ [now])"
  show "(L @ [now]) ! i + 60 \<le> (L @ [now]) ! (i + 5)"
  proof (cases "i + 5 < length L")
    case True
    with assms(1) show ?thesis by (simp add: spaced_def nth_append)
  next
    case False
    with i have "i = length L - 5" "5 \<le> length L" by auto
    with few_recent [OF assms(2,3)] show ?thesis by (simp add: nth_append)
  qed
qed

lemma check_inv:
  assumes inv: "rate_inv e now (st, L)"
  shows "rate_inv e now (rate_step e (st, L) (Check now e'))"
proof -
  from inv obtain c where c: "c \<le> now - 60" "dict_get_or (email_attempts st) e [] = filter (\<lambda>t. c < t) L"
    and wf: "dict_wf (email_attempts st)" "sorted L" "spaced L" "list_all (\<lambda>t. t \<le> now) L"
    by (auto simp: rate_inv_def)
  show ?thesis
  proof (cases "e' = e")
    case False
    with c wf show ?thesis
      by (auto simp: rate_inv_def check_email_rate_limit_def Let_def)
  next
    case True
    have recent: "recent_attempts now e st = filter (\<lambda>t. now - 60 < t) L"
      using c by (auto simp: recent_attempts_def intro: filter_cong)
    show ?thesis
    proof (cases "5 \<le> length (recent_attempts now e st)")
      case full: True
      with True c(1) wf recent show ?thesis
        by (auto simp: rate_inv_def check_email_rate_limit_def Let_def MAX_LOGIN_ATTEMPTS_PER_MINUTE_def)
    next
      case room: False
      then have "spaced (L @ [now])" using spaced_snoc wf recent by simp
      moreover have "sorted (L @ [now])" using wf by (simp add: sorted_append list_all_iff)
      moreover have "recent_attempts now e st @ [now] = filter (\<lambda>t. now - 60 < t) (L @ [now])"
        by (simp add: recent)
      moreover have "rate_step e (st, L) (Check now e') =
          (st\<lparr>email_attempts := dict_set e (recent_attempts now e st @ [now]) (email_attempts st)\<rparr>, L @ [now])"
        using True room by (simp add: check_email_rate_limit_def Let_def MAX_LOGIN_ATTEMPTS_PER_MINUTE_def)
      moreover have "list_all (\<lambda>t. t \<le> now) (L @ [now])" using wf by simp
      ultimately show ?thesis
        using wf(1) unfolding rate_inv_def by (intro conjI exI [of _ "now - 60"]) simp_all
    qed
  qed
qed

lemma dict_get_filter_value:
  "dict_wf d \<Longrightarrow> dict_get (filter (\<lambda>(k, v). P v) d) k =
     (case dict_get d k of None \<Rightarrow> None | Some v \<Rightarrow> if P v then Some v else None)"
  by (simp add: dict_get_filter split: option.splits)

lemma clean_inv:
  assumes inv: "rate_inv e now (st, L)" and "60 \<le> age"
  shows "rate_inv e now (rate_step e (st, L) (Clean now age))"
proof -
  from inv obtain c where c: "c \<le> now - 60" "dict_get_or (email_attempts st) e [] = filter (\<lambda>t. c < t) L"
    and wf: "dict_wf (email_attempts st)" "sorted L" "spaced L" "list_all (\<lambda>t. t \<le> now) L"
    by (auto simp: rate_inv_def)
  let ?d = "filter (\<lambda>(k, v). \<not> list_all (\<lambda>t. t < now - age) v) (email_attempts st)"
  have get: "dict_get ?d e = (case dict_get (email_attempts st) e of None \<Rightarrow> None
      | Some v \<Rightarrow> if list_all (\<lambda>t. t < now - age) v then None else Some v)"
    by (simp only: dict_get_filter_value [OF wf(1)]) (simp split: option.splits)
  have "\<exists>c' \<le> now - 60. dict_get_or ?d e [] = filter (\<lambda>t. c' < t) L"
  proof (cases "dict_get (email_attempts st) e")
    case None
    with c get show ?thesis by (auto simp: dict_get_or_def)
  next
    case (Some v)
    then have v: "v = filter (\<lambda>t. c < t) L" using c by (simp add: dict_get_or_def)
    show ?thesis
    proof (cases "list_all (\<lambda>t. t < now - age) v")
      case False
      with Some get v c(1) show ?thesis by (auto simp: dict_get_or_def)
    next
      case True
      then have "filter (\<lambda>t. max c (now - age) < t) L = []"
        by (auto simp: v filter_empty_conv list_all_iff)
      moreover have "max c (now - age) \<le> now - 60" using c(1) assms(2) by simp
      ultimately show ?thesis using Some get True by (auto simp: dict_get_or_def intro!: exI [of _ "max c (now - age)"])
    qed
  qed
  moreover have "dict_wf ?d" using wf(1) by (simp add: dict_wf_def distinct_map_filter)
  moreover have "(\<lambda>x. \<not> (case x of (k, v) \<Rightarrow> list_all (\<lambda>t. t < now - age) v)) =
      (\<lambda>(k :: string, v). \<not> list_all (\<lambda>t. t < now - age) v)"
    by (rule ext) (simp add: case_prod_beta)
  ultimately show ?thesis using wf by (simp add: rate_inv_def cleanup_email_attempts_def Let_def)
qed

text \<open>
  Whatever the order of attempts for any addresses and of clean-ups that keep at least a minute, the
  sixth attempt let through for an address comes at least sixty seconds after the first of the six.
\<close>

theorem five_attempts_per_minute:
  assumes "sorted (map rate_time ops)" and "list_all (\<lambda>op. case op of Clean _ age \<Rightarrow> 60 \<le> age | _ \<Rightarrow> True) ops"
    and "email_attempts st = []" and "foldl (rate_step e) (st, []) ops = (st', L)" and "i + 5 < length L"
  shows "L ! i + 60 \<le> L ! (i + 5)"
proof -
  have "rate_inv e now (foldl (rate_step e) (st, []) ops)" if "list_all (\<lambda>op. rate_time op \<le> now) ops" for now
    using assms(1,2) that
  proof (induction ops arbitrary: now rule: rev_induct)
    case Nil
    with assms(3) show ?case by (auto simp: rate_inv_def spaced_def dict_get_or_def intro: exI [of _ "now - 60"])
  next
    case (snoc op ops)
    obtain st1 L1 where s: "foldl (rate_step e) (st, []) ops = (st1, L1)" by fastforce
    have "list_all (\<lambda>x. rate_time x \<le> rate_time op) ops" "sorted (map rate_time ops)"
      using snoc.prems(1) by (auto simp: sorted_append list_all_iff)
    with snoc s have inv: "rate_inv e (rate_time op) (st1, L1)" by simp
    have "rate_inv e (rate_time op) (rate_step e (st1, L1) op)"
    proof (cases op)
      case (Check t e')
      with inv check_inv show ?thesis by simp
    next
      case (Clean t age)
      with snoc.prems(2) have "60 \<le> age" by simp
      with Clean inv clean_inv show ?thesis by simp
    qed
    with s snoc.prems(3) show ?case by (auto intro: rate_inv_later)
  qed
  from this [of "Max (insert 0 (rate_time ` set ops))"] have "spaced L"
    using assms(4) by (auto simp: rate_inv_def list_all_iff)
  with assms(5) show ?thesis by (simp add: spaced_def)
qed

lemma five_attempts_per_minute_witness:
  "snd (foldl (rate_step ''e'') (demo_auth_state, []) (map (\<lambda>t. Check t ''e'') [0, 1, 2, 3, 4, 5, 60])) ! 0 + 60 \<le>
   snd (foldl (rate_step ''e'') (demo_auth_state, []) (map (\<lambda>t. Check t ''e'') [0, 1, 2, 3, 4, 5, 60])) ! 5"
proof -
  let ?ops = "map (\<lambda>t. Check t ''e'') [0, 1, 2, 3, 4, 5, 60 :: rat]"
  obtain st' where run: "foldl (rate_step ''e'') (demo_auth_state, []) ?ops = (st', [0, 1, 2, 3, 4, 60])"
    by (simp add: demo_auth_state_def check_email_rate_limit_def recent_attempts_def dict_get_or_def
        MAX_LOGIN_ATTEMPTS_PER_MINUTE_def Let_def)
  have "sorted (map rate_time ?ops)"
    "list_all (\<lambda>op. case op of Clean _ age \<Rightarrow> 60 \<le> age | _ \<Rightarrow> True) ?ops" "email_attempts demo_auth_state = []"
    by (simp_all add: demo_auth_state_def)
  from five_attempts_per_minute [OF this run, of 0] run show ?thesis by simp
qed

section \<open>Logins that cannot succeed\<close>

lemma authenticated:
  assumes "authenticate_user w e p st = (Inr (Some v), st')"
  shows "\<exists>u \<in> set (users st). usr_email u = normalize_email e \<and> usr_active u \<and> v = successful_login w u \<and>
    filter (\<lambda>u. usr_email u = normalize_email e \<and> usr_active u) (users st) = [u]"
proof -
  obtain ok st1 where rl: "check_email_rate_limit (monotonic w) (normalize_email e) st = (ok, st1)" by fastforce
  have us: "users st1 = users st" using rate_limit_tokens(2) [of "monotonic w" "normalize_email e" st] rl by simp
  obtain u where u: "filter (\<lambda>u. usr_email u = normalize_email e \<and> usr_active u) (users st) = [u]"
    "v = successful_login w u"
    using assms rl us by (auto simp: authenticate_user_def Let_def split: if_splits list.splits)
  have "u \<in> set (filter (\<lambda>u. usr_email u = normalize_email e \<and> usr_active u) (users st))"
    by (simp add: u(1) del: set_filter)
  then have "u \<in> set (users st) \<and> usr_email u = normalize_email e \<and> usr_active u" by simp
  with u show ?thesis by blast
qed

lemma login_tokens:
  assumes "login w e p st = (Inr r, st')"
  shows "\<exists>u \<in> set (users st). usr_email u = normalize_email e \<and> usr_active u \<and> claim_sub (resp_access r) = usr_id u \<and>
    filter (\<lambda>u. usr_email u = normalize_email e \<and> usr_active u) (users st) = [u]"
proof -
  obtain v st1 st2 where a: "authenticate_user w e p st = (Inr (Some v), st1)"
    and "create_token_pair w v st1 = Some (r, st2)"
    using assms by (auto simp: login_def split: prod.splits sum.splits option.splits auth_error.splits)
  then have "claim_sub (resp_access r) = usr_id v"
    by (auto simp: create_token_pair_def create_access_token_def Let_def split: if_splits)
  with authenticated [OF a] show ?thesis by (auto simp: successful_login_def)
qed

lemma py_lower_char_not_upper: "\<not> is_upper (py_lower_char c)"
  by (auto simp: is_upper_def py_lower_char_def)

lemma normalize_not_upper: "\<not> list_ex is_upper (normalize_email e)"
  by (auto simp: normalize_email_def py_lower_def list_ex_iff py_lower_char_not_upper)

text \<open>
  A login looks the address up in lower case, but a user is created with the address as it was typed:
  a user whose address has a capital letter never gets tokens from a login, with any spelling of the
  address and any password.
\<close>

theorem capital_address_never_logs_in:
  assumes "create_user w t email pw role name st = Inr (u, st1)" and "list_ex is_upper email"
    and "distinct (map usr_id (users st1))" and "login w' e p st1 = (Inr r, st2)"
  shows "claim_sub (resp_access r) \<noteq> usr_id u"
proof
  assume same: "claim_sub (resp_access r) = usr_id u"
  obtain v where v: "v \<in> set (users st1)" "usr_email v = normalize_email e" "usr_id v = usr_id u"
    using login_tokens [OF assms(4)] same by auto
  have u: "u \<in> set (users st1)" "usr_email u = email"
    using assms(1) by (auto simp: create_user_def Let_def split: if_splits)
  have "inj_on usr_id (set (users st1))" using assms(3) by (simp add: distinct_map)
  from inj_onD [OF this v(3) v(1) u(1)] v(2) u(2) assms(2) normalize_not_upper show False by metis
qed

definition capital_user :: auth_state where
  "capital_user = demo_auth_state\<lparr>users := [demo_user\<lparr>usr_id := ''v''\<rparr>]\<rparr>"

lemma strong_demo_password: "validate_password_strength ''Correct-Horse-9'' = []"
  by code_simp

lemma capital_address_never_logs_in_witness:
  "\<exists>u st1 r st2. create_user (demo_auth ''1'') ''t'' ''Bob@b'' ''Correct-Horse-9'' ''viewer'' None capital_user = Inr (u, st1) \<and>
     login (demo_auth ''2'') ''a@b'' ''secret'' st1 = (Inr r, st2) \<and> claim_sub (resp_access r) \<noteq> usr_id u"
proof -
  obtain u st1 where c: "create_user (demo_auth ''1'') ''t'' ''Bob@b'' ''Correct-Horse-9'' ''viewer'' None capital_user
      = Inr (u, st1)" and us: "map usr_id (users st1) = [''v'', ''u'']"
    and st1: "st1 = capital_user\<lparr>users := users capital_user @ [u]\<rparr>" and u: "usr_email u = ''Bob@b''"
    by (simp add: create_user_def strong_demo_password capital_user_def demo_auth_state_def demo_user_def
        demo_auth_def Let_def)
  obtain r st2 where l: "login (demo_auth ''2'') ''a@b'' ''secret'' st1 = (Inr r, st2)"
    using u by (simp add: st1 capital_user_def login_def authenticate_user_def demo_normalize demo_auth_defs)
  have "list_ex is_upper ''Bob@b''" by code_simp
  from capital_address_never_logs_in [OF c this _ l] us have "claim_sub (resp_access r) \<noteq> usr_id u" by simp
  with c l show ?thesis by blast
qed

text \<open>
  Addresses are unique within a tenant only, but a login searches all tenants: once any tenant creates
  an active user with the address of an active user of another tenant, no login with this address
  succeeds, for either of them; it is refused by the rate limit or fails with an internal error.
\<close>

theorem same_address_blocks_login:
  assumes "u \<in> set (users st)" and "usr_active u" and "usr_email u = normalize_email e"
    and "create_user w t (usr_email u) pw role name st = Inr (v, st1)"
  shows "fst (login w' e p st1) = Inl 429 \<or> fst (login w' e p st1) = Inl 500"
proof -
  let ?P = "\<lambda>u. usr_email u = normalize_email e \<and> usr_active u"
  have v: "users st1 = users st @ [v]" "?P v"
    using assms(3,4) by (auto simp: create_user_def Let_def split: if_splits)
  have "u \<in> set (filter ?P (users st))" using assms(1-3) by simp
  then obtain x xs where f: "filter ?P (users st) = x # xs" by (cases "filter ?P (users st)") auto
  obtain ok st2 where rl: "check_email_rate_limit (monotonic w') (normalize_email e) st1 = (ok, st2)" by fastforce
  have "users st2 = users st1" using rate_limit_tokens(2) [of "monotonic w'" "normalize_email e" st1] rl by simp
  with v f have "filter ?P (users st2) = x # xs @ [v]" by simp
  with rl show ?thesis
    by (cases xs) (auto simp: login_def authenticate_user_def Let_def)
qed

lemma same_address_blocks_login_witness:
  "\<exists>v st1. create_user (demo_auth ''1'') ''other'' ''a@b'' ''Correct-Horse-9'' ''viewer'' None capital_user = Inr (v, st1) \<and>
     (fst (login (demo_auth ''2'') ''a@b'' ''secret'' st1) = Inl 429 \<or> fst (login (demo_auth ''2'') ''a@b'' ''secret'' st1) = Inl 500)"
proof -
  let ?u = "demo_user\<lparr>usr_id := ''v''\<rparr>"
  obtain v st1 where c: "create_user (demo_auth ''1'') ''other'' (usr_email ?u) ''Correct-Horse-9'' ''viewer'' None capital_user
      = Inr (v, st1)"
    by (simp add: create_user_def strong_demo_password capital_user_def demo_auth_state_def demo_user_def Let_def)
  have "?u \<in> set (users capital_user)" "usr_active ?u" "usr_email ?u = normalize_email ''a@b''"
    by (simp_all add: capital_user_def demo_user_def demo_normalize)
  from same_address_blocks_login [OF this c] c show ?thesis by (auto simp: demo_user_def)
qed

text \<open>
  The list of common passwords is compared with the password in lower case, so its entries with a
  capital letter never match: Password123! is on the list, meets every other rule, and is accepted.
\<close>

theorem common_password_accepted:
  "''Password123!'' \<in> set COMMON_PASSWORDS \<and> validate_password_strength ''Password123!'' = [] \<and>
   is_ok (create_user w tenant email ''Password123!'' role name st) =
     (\<not> list_ex (\<lambda>u. usr_tenant u = tenant \<and> usr_email u = email) (users st))"
proof -
  have "validate_password_strength ''Password123!'' = []" by code_simp
  then show ?thesis by (simp add: COMMON_PASSWORDS_def create_user_def Let_def)
qed

end
