(* ===== verification/A2a.thy ===== *)
theory A2a
  imports Py_Values
begin

text \<open>
  \<open>backend/app/services/a2a\<close>: the registry of agent cards (\<open>registry.py\<close>), the correlation of delegated
  tasks with calls of MCP tools (\<open>correlator.py\<close>), and the conformance checks of protocol messages
  (\<open>fingerprinter.py\<close>). The JSON text and SHA-256 of the fields of a card are one parameter; a conformance
  score is kept as the numbers of checks passed and made.
\<close>

section \<open>Registry\<close>

datatype card_status = Verified | Unverified | Revoked

text \<open>A card as it is submitted; the optional fields may be missing.\<close>

record card_data =
  cd_agent_id :: "string option"
  cd_name :: string
  cd_url :: string
  cd_capabilities :: "string list"
  cd_auth_type :: "string option"
  cd_description :: "string option"
  cd_version :: "string option"
  cd_metadata :: "(string, pval) dict"

record agent_card =
  card_id :: string
  card_agent_id :: string
  card_name :: string
  card_url :: string
  card_capabilities :: "string list"
  card_auth_type :: string
  card_description :: string
  card_version :: string
  card_status :: card_status
  card_fingerprint :: string
  card_registered :: rat
  card_updated :: rat
  card_metadata :: "(string, pval) dict"

type_synonym card_registry = "(string, (string, agent_card) dict) dict"

text \<open>The fields that are hashed: authentication, capabilities, name, address, version.\<close>

type_synonym card_fields = "string option \<times> string list \<times> string \<times> string \<times> string option"

record a2a_env =
  card_digest :: "card_fields \<Rightarrow> string"
  card_uuid :: string
  a2a_now :: rat

definition SENSITIVE_CAPABILITIES :: "string list" where
  "SENSITIVE_CAPABILITIES =
     [''admin'', ''database'', ''payment'', ''credentials'', ''file_write'', ''code_execution'', ''network_access'',
      ''secret_management'', ''user_management'', ''deployment'', ''infrastructure'']"

datatype card_error = MissingField string | TooManyCapabilities

datatype card_warning =
  NotHttps | NoCapabilities | SensitiveDeclared "string list" | OpenCard | CapabilityDrift | StatusReset

record card_validation =
  cv_errors :: "card_error list"
  cv_warnings :: "card_warning list"
  cv_sensitive :: "string list"

definition listed_if :: "bool \<Rightarrow> 'a \<Rightarrow> 'a list" where
  "listed_if b x = (if b then [x] else [])"

definition sensitive_of :: "string list \<Rightarrow> string list" where
  "sensitive_of caps = filter (\<lambda>c. c \<in> set SENSITIVE_CAPABILITIES) caps"

definition validate_card :: "card_data \<Rightarrow> card_validation" where
  "validate_card d =
     \<lparr>cv_errors =
        listed_if (cd_name d = []) (MissingField ''name'') @ listed_if (cd_url d = []) (MissingField ''url'') @
        listed_if (cd_capabilities d = []) (MissingField ''capabilities'') @
        listed_if (50 < length (cd_capabilities d)) TooManyCapabilities,
      cv_warnings =
        listed_if (cd_url d \<noteq> [] \<and> \<not> (starts_with ''https://'' (cd_url d) \<or> starts_with ''http://localhost'' (cd_url d)))
          NotHttps @
        listed_if (cd_capabilities d = []) NoCapabilities @
        listed_if (sensitive_of (cd_capabilities d) \<noteq> []) (SensitiveDeclared (sensitive_of (cd_capabilities d))) @
        listed_if (case cd_auth_type d of None \<Rightarrow> True | Some a \<Rightarrow> a = ''none'') OpenCard,
      cv_sensitive = sensitive_of (cd_capabilities d)\<rparr>"

definition compute_fingerprint :: "a2a_env \<Rightarrow> card_data \<Rightarrow> string" where
  "compute_fingerprint w d =
     card_digest w (cd_auth_type d, cd_capabilities d, cd_name d, cd_url d, cd_version d)"

definition cards_of :: "string \<Rightarrow> card_registry \<Rightarrow> (string, agent_card) dict" where
  "cards_of tenant r = dict_get_or r tenant []"

definition find_by_agent_id :: "string \<Rightarrow> string \<Rightarrow> card_registry \<Rightarrow> agent_card option" where
  "find_by_agent_id tenant agent r =
     find (\<lambda>c. card_agent_id c = agent \<or> card_name c = agent) (dict_values (cards_of tenant r))"

definition given_or :: "'a option \<Rightarrow> 'a \<Rightarrow> 'a" where
  "given_or x y = (case x of None \<Rightarrow> y | Some v \<Rightarrow> v)"

definition update_existing :: "a2a_env \<Rightarrow> card_data \<Rightarrow> card_validation \<Rightarrow> agent_card \<Rightarrow> agent_card \<times> card_validation" where
  "update_existing w d v c =
     (let fp = compute_fingerprint w d;
          drifted = set (cd_capabilities d) \<noteq> set (card_capabilities c);
          changed = fp \<noteq> card_fingerprint c
      in (c\<lparr>card_status := (if changed then Unverified else card_status c), card_url := cd_url d,
            card_capabilities := cd_capabilities d, card_auth_type := given_or (cd_auth_type d) (card_auth_type c),
            card_description := given_or (cd_description d) (card_description c),
            card_version := given_or (cd_version d) (card_version c), card_fingerprint := fp, card_updated := a2a_now w\<rparr>,
          v\<lparr>cv_warnings := cv_warnings v @ listed_if drifted CapabilityDrift @ listed_if changed StatusReset\<rparr>))"

definition put_card :: "string \<Rightarrow> agent_card \<Rightarrow> card_registry \<Rightarrow> card_registry" where
  "put_card tenant c r = dict_set tenant (dict_set (card_id c) c (cards_of tenant r)) r"

definition new_card :: "a2a_env \<Rightarrow> card_data \<Rightarrow> bool \<Rightarrow> agent_card" where
  "new_card w d auto_verify =
     \<lparr>card_id = card_uuid w, card_agent_id = given_or (cd_agent_id d) (cd_name d), card_name = cd_name d,
      card_url = cd_url d, card_capabilities = cd_capabilities d, card_auth_type = given_or (cd_auth_type d) ''none'',
      card_description = given_or (cd_description d) [], card_version = given_or (cd_version d) ''1.0'',
      card_status = (if auto_verify then Verified else Unverified), card_fingerprint = compute_fingerprint w d,
      card_registered = a2a_now w, card_updated = a2a_now w, card_metadata = cd_metadata d\<rparr>"

definition register_card :: "a2a_env \<Rightarrow> string \<Rightarrow> card_data \<Rightarrow> bool \<Rightarrow> card_registry \<Rightarrow>
    card_error list + (agent_card \<times> card_validation \<times> card_registry)" where
  "register_card w tenant d auto_verify r =
     (let v = validate_card d
      in if cv_errors v \<noteq> [] then Inl (cv_errors v)
         else case find_by_agent_id tenant (cd_name d) r of
             Some c \<Rightarrow> (case update_existing w d v c of (c', v') \<Rightarrow> Inr (c', v', put_card tenant c' r))
           | None \<Rightarrow> (let c = new_card w d auto_verify in Inr (c, v, put_card tenant c r)))"

definition get_card :: "string \<Rightarrow> string \<Rightarrow> card_registry \<Rightarrow> agent_card option" where
  "get_card tenant i r = dict_get (cards_of tenant r) i"

definition list_cards :: "string \<Rightarrow> card_status option \<Rightarrow> string option \<Rightarrow> card_registry \<Rightarrow> agent_card list" where
  "list_cards tenant status capability r =
     filter (\<lambda>c. (case status of None \<Rightarrow> True | Some s \<Rightarrow> card_status c = s) \<and>
               (case capability of None \<Rightarrow> True | Some k \<Rightarrow> k = [] \<or> k \<in> set (card_capabilities c)))
       (dict_values (cards_of tenant r))"

definition is_verified :: "string \<Rightarrow> string \<Rightarrow> card_registry \<Rightarrow> bool" where
  "is_verified tenant agent r =
     (case find_by_agent_id tenant agent r of None \<Rightarrow> False | Some c \<Rightarrow> card_status c = Verified)"

definition verify_card :: "string \<Rightarrow> string \<Rightarrow> card_registry \<Rightarrow> bool \<times> card_registry" where
  "verify_card tenant i r =
     (case get_card tenant i r of
        None \<Rightarrow> (False, r)
      | Some c \<Rightarrow> if card_status c = Revoked then (False, r)
                  else (True, put_card tenant (c\<lparr>card_status := Verified\<rparr>) r))"

definition revoke_card :: "string \<Rightarrow> string \<Rightarrow> card_registry \<Rightarrow> bool \<times> card_registry" where
  "revoke_card tenant i r =
     (case get_card tenant i r of
        None \<Rightarrow> (False, r) | Some c \<Rightarrow> (True, put_card tenant (c\<lparr>card_status := Revoked\<rparr>) r))"

definition registry_stats :: "string \<Rightarrow> card_registry \<Rightarrow> nat \<times> (card_status \<Rightarrow> nat) \<times> nat" where
  "registry_stats tenant r =
     (let cs = dict_values (cards_of tenant r)
      in (length cs, (\<lambda>s. length (filter (\<lambda>c. card_status c = s) cs)),
          length (filter (\<lambda>c. sensitive_of (card_capabilities c) \<noteq> []) cs)))"

section \<open>Correlator\<close>

definition SENSITIVE_MCP_TOOLS :: "string list" where
  "SENSITIVE_MCP_TOOLS =
     [''write_file'', ''delete_file'', ''exec'', ''shell'', ''bash'', ''cmd'', ''http_request'', ''send_email'',
      ''database_query'', ''secret_read'', ''deploy'', ''kubectl'', ''terraform'', ''aws_cli'']"

definition CORRELATION_WINDOW :: rat where
  "CORRELATION_WINDOW = 1800"

record task_event =
  te_task :: string
  te_source :: string
  te_target :: "string option"
  te_capability :: string

record mcp_call =
  mc_call :: string
  mc_agent :: "string option"
  mc_tool :: string

datatype found_by = TaskArrived | CallArrived

record correlation =
  co_task :: task_event
  co_call :: mcp_call
  co_by :: found_by

record correlator =
  recent_tasks :: "(string, (rat \<times> task_event) list) dict"
  recent_mcp :: "(string, (rat \<times> mcp_call) list) dict"

definition new_correlator :: correlator where
  "new_correlator = \<lparr>recent_tasks = [], recent_mcp = []\<rparr>"

definition tasks_for :: "string \<Rightarrow> correlator \<Rightarrow> (rat \<times> task_event) list" where
  "tasks_for tenant c = dict_get_or (recent_tasks c) tenant []"

definition calls_for :: "string \<Rightarrow> correlator \<Rightarrow> (rat \<times> mcp_call) list" where
  "calls_for tenant c = dict_get_or (recent_mcp c) tenant []"

definition in_window :: "rat \<Rightarrow> (rat \<times> 'a) list \<Rightarrow> (rat \<times> 'a) list" where
  "in_window now xs = filter (\<lambda>(ts, x). now - CORRELATION_WINDOW \<le> ts) xs"

definition prune_key :: "string \<Rightarrow> rat \<Rightarrow> (string, (rat \<times> 'a) list) dict \<Rightarrow> (string, (rat \<times> 'a) list) dict" where
  "prune_key tenant now d =
     (case dict_get d tenant of None \<Rightarrow> d | Some xs \<Rightarrow> dict_set tenant (in_window now xs) d)"

definition prune :: "string \<Rightarrow> rat \<Rightarrow> correlator \<Rightarrow> correlator" where
  "prune tenant now c =
     \<lparr>recent_tasks = prune_key tenant now (recent_tasks c), recent_mcp = prune_key tenant now (recent_mcp c)\<rparr>"

definition found_pair :: "task_event \<Rightarrow> mcp_call \<Rightarrow> found_by \<Rightarrow> correlation" where
  "found_pair t m b = \<lparr>co_task = t, co_call = m, co_by = b\<rparr>"

definition correlate_task :: "string \<Rightarrow> task_event \<Rightarrow> correlator \<Rightarrow> correlation list" where
  "correlate_task tenant t c =
     map (\<lambda>(_, m). found_pair t m TaskArrived)
       (filter (\<lambda>(_, m). mc_agent m = Some (given_or (te_target t) []) \<and> mc_tool m \<in> set SENSITIVE_MCP_TOOLS)
         (calls_for tenant c))"

definition correlate_call :: "string \<Rightarrow> mcp_call \<Rightarrow> correlator \<Rightarrow> correlation list" where
  "correlate_call tenant m c =
     (if mc_tool m \<notin> set SENSITIVE_MCP_TOOLS then []
      else map (\<lambda>(_, t). found_pair t m CallArrived)
        (filter (\<lambda>(_, t). te_target t = Some (given_or (mc_agent m) [])) (tasks_for tenant c)))"

definition ingest_a2a_task :: "string \<Rightarrow> rat \<Rightarrow> task_event \<Rightarrow> correlator \<Rightarrow> correlation list \<times> correlator" where
  "ingest_a2a_task tenant now t c =
     (let c1 = prune tenant now (c\<lparr>recent_tasks := dict_set tenant (tasks_for tenant c @ [(now, t)]) (recent_tasks c)\<rparr>)
      in (correlate_task tenant t c1, c1))"

definition ingest_mcp_call :: "string \<Rightarrow> rat \<Rightarrow> mcp_call \<Rightarrow> correlator \<Rightarrow> correlation list \<times> correlator" where
  "ingest_mcp_call tenant now m c =
     (let c1 = prune tenant now (c\<lparr>recent_mcp := dict_set tenant (calls_for tenant c @ [(now, m)]) (recent_mcp c)\<rparr>)
      in (correlate_call tenant m c1, c1))"

definition recent_correlations :: "string \<Rightarrow> correlator \<Rightarrow> nat \<times> nat \<times> nat" where
  "recent_correlations tenant c = (30, length (tasks_for tenant c), length (calls_for tenant c))"

section \<open>Fingerprints\<close>

record fingerprint_result =
  fp_passed :: nat
  fp_total :: nat
  fp_type :: string
  fp_missing :: "string list"
  fp_suspicious :: bool

definition CARD_REQUIRED :: "string list" where
  "CARD_REQUIRED = [''name'', ''url'', ''capabilities'']"

definition CARD_ALL :: "string list" where
  "CARD_ALL = CARD_REQUIRED @ [''description'', ''version'', ''auth_type'', ''metadata'', ''agent_id'']"

definition TASK_REQUIRED :: "string list" where
  "TASK_REQUIRED = [''task_id'', ''source_agent'', ''target_agent'', ''capability'']"

definition TASK_ALL :: "string list" where
  "TASK_ALL = TASK_REQUIRED @ [''description'', ''parameters'', ''parent_task_id'', ''timeout'', ''priority'']"

definition RESPONSE_REQUIRED :: "string list" where
  "RESPONSE_REQUIRED = [''task_id'', ''status'']"

definition RESPONSE_ALL :: "string list" where
  "RESPONSE_ALL = RESPONSE_REQUIRED @ [''result'', ''error'', ''metadata'', ''artifacts'']"

definition present :: "(string, pval) dict \<Rightarrow> string \<Rightarrow> bool" where
  "present msg f = (case dict_get msg f of None \<Rightarrow> False | Some v \<Rightarrow> truthy v)"

definition no_extra :: "string list \<Rightarrow> (string, pval) dict \<Rightarrow> bool" where
  "no_extra known msg = list_all (\<lambda>k. k \<in> set known) (dict_keys msg)"

text \<open>\<open>v in {...}\<close> for a set of texts: a list or dictionary is unhashable and raises.\<close>

definition in_texts :: "pval \<Rightarrow> string list \<Rightarrow> bool option" where
  "in_texts v known =
     (case v of VStr s \<Rightarrow> Some (s \<in> set known) | VList xs \<Rightarrow> None | VDict d \<Rightarrow> None | _ \<Rightarrow> Some False)"

definition is_host_char :: "char \<Rightarrow> bool" where
  "is_host_char c \<longleftrightarrow> py_isalnum c \<or> c = CHR ''_'' \<or> c = CHR ''-'' \<or> c = CHR ''.''"

definition path_ok :: "string \<Rightarrow> bool" where
  "path_ok s = (case s of [] \<Rightarrow> True | c # cs \<Rightarrow> c = CHR ''/'' \<and> list_all (\<lambda>d. \<not> py_isspace d) cs)"

text \<open>\<open>^https?://[\w\-.]+(:\d+)?(/\S*)?$\<close>: no character of one part can begin the next, so nothing backtracks.\<close>

definition after_scheme :: "string \<Rightarrow> string option" where
  "after_scheme s =
     (if starts_with ''https://'' s then Some (drop 8 s)
      else if starts_with ''http://'' s then Some (drop 7 s) else None)"

definition url_matches :: "string \<Rightarrow> bool" where
  "url_matches u =
     (case after_scheme (strip_final_newline u) of
        None \<Rightarrow> False
      | Some r \<Rightarrow>
          (let rest = dropWhile is_host_char r
           in takeWhile is_host_char r \<noteq> [] \<and>
              (case rest of
                 [] \<Rightarrow> True
               | c # cs \<Rightarrow>
                   if c = CHR '':'' then takeWhile is_ascii_digit cs \<noteq> [] \<and> path_ok (dropWhile is_ascii_digit cs)
                   else path_ok rest)))"

text \<open>An absent or empty address fails; \<open>re.match\<close> of a value that is no text raises.\<close>

definition url_check :: "pval \<Rightarrow> bool option" where
  "url_check v = (if \<not> truthy v then Some False else case v of VStr s \<Rightarrow> Some (url_matches s) | _ \<Rightarrow> None)"

definition result_of :: "string \<Rightarrow> string list \<Rightarrow> (string, pval) dict \<Rightarrow> bool list \<Rightarrow> fingerprint_result" where
  "result_of t required msg checks =
     (let all = map (present msg) required @ checks;
          passed = length (filter id all)
      in \<lparr>fp_passed = passed, fp_total = length all, fp_type = t,
          fp_missing = filter (\<lambda>f. \<not> present msg f) required,
          fp_suspicious = 10 * passed < 7 * length all\<rparr>)"

fun is_text :: "pval \<Rightarrow> bool" where
  "is_text (VStr s) = True"
| "is_text _ = False"

definition texts_only :: "pval \<Rightarrow> bool" where
  "texts_only v = (case v of VList xs \<Rightarrow> list_all is_text xs | _ \<Rightarrow> False)"

definition fingerprint_card :: "(string, pval) dict \<Rightarrow> fingerprint_result option" where
  "fingerprint_card msg =
     (case (url_check (dict_get_or msg ''url'' (VStr [])),
            in_texts (dict_get_or msg ''version'' (VStr ''1.0'')) [''1.0'', ''1.1'', ''2.0''],
            in_texts (dict_get_or msg ''auth_type'' (VStr ''none''))
              [''none'', ''bearer'', ''mtls'', ''oauth2'', ''api_key'']) of
        (Some u, Some v, Some a) \<Rightarrow>
          Some (result_of ''agent_card'' CARD_REQUIRED msg
            [no_extra CARD_ALL msg, u, v, a, texts_only (dict_get_or msg ''capabilities'' (VList []))])
      | _ \<Rightarrow> None)"

definition fingerprint_task_request :: "(string, pval) dict \<Rightarrow> fingerprint_result" where
  "fingerprint_task_request msg =
     result_of ''task_request'' TASK_REQUIRED msg
       [no_extra TASK_ALL msg,
        (case dict_get_or msg ''task_id'' (VStr []) of VStr s \<Rightarrow> 4 \<le> length s | _ \<Rightarrow> False)]"

definition fingerprint_task_response :: "(string, pval) dict \<Rightarrow> fingerprint_result option" where
  "fingerprint_task_response msg =
     map_option (\<lambda>ok. result_of ''task_response'' RESPONSE_REQUIRED msg [ok, no_extra RESPONSE_ALL msg])
       (in_texts (dict_get_or msg ''status'' (VStr []))
         [''submitted'', ''working'', ''completed'', ''failed'', ''cancelled''])"

definition msg_has_key :: "(string, pval) dict \<Rightarrow> string \<Rightarrow> bool" where
  "msg_has_key msg k \<longleftrightarrow> dict_get msg k \<noteq> None"

definition detect_type :: "(string, pval) dict \<Rightarrow> string" where
  "detect_type msg =
     (if msg_has_key msg ''capabilities'' \<and> msg_has_key msg ''url'' then ''agent_card''
      else if msg_has_key msg ''source_agent'' \<and> msg_has_key msg ''target_agent'' then ''task_request''
      else if msg_has_key msg ''task_id'' \<and> msg_has_key msg ''status'' \<and> \<not> msg_has_key msg ''source_agent'' then ''task_response''
      else ''unknown'')"

definition fingerprint :: "(string, pval) dict \<Rightarrow> string \<Rightarrow> fingerprint_result option" where
  "fingerprint msg given =
     (let t = (if given = [] then detect_type msg else given)
      in if t = ''agent_card'' then fingerprint_card msg
         else if t = ''task_request'' then Some (fingerprint_task_request msg)
         else if t = ''task_response'' then fingerprint_task_response msg
         else Some \<lparr>fp_passed = 0, fp_total = 1, fp_type = ''unknown'', fp_missing = [], fp_suspicious = True\<rparr>)"

end
