(* ===== verification/A2a_Props.thy ===== *)
theory A2a_Props
  imports A2a
begin

text \<open>
  What a verified card stands for, that names are unique, how a revoked card comes back, and that the
  correlator finds exactly the pairs within its window.
\<close>

section \<open>Cards\<close>

text \<open>Submissions as the route makes them: without an agent identifier, with every other field.\<close>

definition from_route :: "card_data \<Rightarrow> bool" where
  "from_route d \<longleftrightarrow> cd_agent_id d = None \<and> cd_auth_type d \<noteq> None \<and> cd_version d \<noteq> None"

definition fields_of :: "agent_card \<Rightarrow> card_fields" where
  "fields_of c = (Some (card_auth_type c), card_capabilities c, card_name c, card_url c, Some (card_version c))"

datatype reg_op =
  Register a2a_env string card_data bool
| Verify string string
| Revoke string string

text \<open>
  The registry with a record of what was verified: the identifier of the card and its fields at that
  moment, for every verification and every registration that verifies at once.
\<close>

type_synonym verified_log = "(string \<times> string \<times> card_fields) list"

fun reg_step :: "card_registry \<times> verified_log \<Rightarrow> reg_op \<Rightarrow> card_registry \<times> verified_log" where
  "reg_step (r, vl) (Register w t d auto) =
     (case register_card w t d auto r of
        Inl _ \<Rightarrow> (r, vl)
      | Inr (c, _, r') \<Rightarrow>
          (r', if auto \<and> find_by_agent_id t (cd_name d) r = None then vl @ [(t, card_id c, fields_of c)] else vl))"
| "reg_step (r, vl) (Verify t i) =
     (case verify_card t i r of
        (ok, r') \<Rightarrow> (r', if ok then vl @ (case get_card t i r' of None \<Rightarrow> [] | Some c \<Rightarrow> [(t, i, fields_of c)]) else vl))"
| "reg_step (r, vl) (Revoke t i) = (snd (revoke_card t i r), vl)"

definition op_ok :: "(card_fields \<Rightarrow> string) \<Rightarrow> reg_op \<Rightarrow> bool" where
  "op_ok h op = (case op of Register w t d auto \<Rightarrow> card_digest w = h \<and> from_route d | _ \<Rightarrow> True)"

definition attested :: "(card_fields \<Rightarrow> string) \<Rightarrow> verified_log \<Rightarrow> string \<Rightarrow> string \<Rightarrow> card_fields \<Rightarrow> bool" where
  "attested h vl t i x \<longleftrightarrow> list_ex (\<lambda>e. fst e = t \<and> fst (snd e) = i \<and> h (snd (snd e)) = h x) vl"

lemma attested_append [simp]: "attested h (vl @ wl) t i x \<longleftrightarrow> attested h vl t i x \<or> attested h wl t i x"
  by (simp add: attested_def)

lemma attested_one [simp]: "attested h [(t, i, x)] t i x" "\<not> attested h [] t i x"
  by (simp_all add: attested_def)

lemma attested_cong: "h x = h y \<Longrightarrow> attested h vl t i x = attested h vl t i y"
  by (simp add: attested_def)

definition card_ok :: "(card_fields \<Rightarrow> string) \<Rightarrow> verified_log \<Rightarrow> string \<Rightarrow> string \<Rightarrow> agent_card \<Rightarrow> bool" where
  "card_ok h vl t i c \<longleftrightarrow> card_id c = i \<and> card_agent_id c = card_name c \<and> card_fingerprint c = h (fields_of c) \<and>
     (card_status c = Verified \<longrightarrow> attested h vl t i (fields_of c))"

definition cards_ok :: "(card_fields \<Rightarrow> string) \<Rightarrow> card_registry \<times> verified_log \<Rightarrow> bool" where
  "cards_ok h s \<longleftrightarrow>
     (\<forall>t. dict_wf (cards_of t (fst s)) \<and> distinct (map card_name (dict_values (cards_of t (fst s)))) \<and>
        (\<forall>i c. dict_get (cards_of t (fst s)) i = Some c \<longrightarrow> card_ok h (snd s) t i c))"

lemma cards_of_put: "cards_of t' (put_card t c r) =
    (if t' = t then dict_set (card_id c) c (cards_of t r) else cards_of t' r)"
  by (simp add: cards_of_def put_card_def dict_get_or_def)

lemma card_ok_more: "card_ok h vl t i c \<Longrightarrow> card_ok h (vl @ extra) t i c"
  by (auto simp: card_ok_def)

lemma distinct_names_set:
  assumes "distinct (map f (dict_values d))" and "dict_wf d"
    and "\<And>k v. dict_get d k = Some v \<Longrightarrow> k \<noteq> i \<Longrightarrow> f v \<noteq> f c"
  shows "distinct (map f (dict_values (dict_set i c d)))"
  using assms
proof (induction i c d rule: dict_set.induct)
  case (2 i c k v d)
  have wf: "dict_wf d" "k \<notin> fst ` set d" using "2.prems"(2) by (auto simp: dict_wf_def)
  show ?case
  proof (cases "i = k")
    case True
    have "f x \<noteq> f c" if x: "x \<in> set (dict_values d)" for x
    proof -
      obtain k' where k': "dict_get d k' = Some x" using dict_value_get [OF wf(1) x] by blast
      then have "k' \<noteq> k" using wf(2) by (metis dict_get_None_iff option.distinct(1) set_map)
      with "2.prems"(3) [of k' x] k' True show ?thesis by simp
    qed
    then have "f c \<notin> f ` set (dict_values d)" by fastforce
    with "2.prems"(1) True show ?thesis by (simp add: image_image)
  next
    case False
    have "distinct (map f (dict_values (dict_set i c d)))"
    proof (rule "2.IH" [OF False])
      show "distinct (map f (dict_values d))" using "2.prems"(1) by simp
      show "dict_wf d" by (rule wf(1))
      fix k' v' assume a: "dict_get d k' = Some v'" "k' \<noteq> i"
      then have "k' \<noteq> k" using wf(2) by (metis dict_get_None_iff option.distinct(1) set_map)
      with "2.prems"(3) [of k' v'] a show "f v' \<noteq> f c" by simp
    qed
    moreover have "f v \<notin> f ` set (dict_values (dict_set i c d))"
    proof -
      have "f v \<noteq> f c" using "2.prems"(3) [of k v] False by simp
      moreover have "f v \<notin> f ` set (dict_values d)" using "2.prems"(1) by auto
      moreover have "f ` set (dict_values (dict_set i c d)) \<subseteq> insert (f c) (f ` set (dict_values d))"
        using dict_values_set [of i c d] by (metis image_insert image_mono)
      ultimately show ?thesis by blast
    qed
    ultimately show ?thesis using False by auto
  qed
qed simp

lemma put_card_ok:
  assumes ok: "cards_ok h (r, vl)" and c: "card_ok h (vl @ extra) t (card_id c) c"
    and names: "\<And>k v. dict_get (cards_of t r) k = Some v \<Longrightarrow> k \<noteq> card_id c \<Longrightarrow> card_name v \<noteq> card_name c"
  shows "cards_ok h (put_card t c r, vl @ extra)"
  unfolding cards_ok_def fst_conv snd_conv
proof (intro allI conjI impI)
  fix t'
  show "dict_wf (cards_of t' (put_card t c r))" using ok by (auto simp: cards_ok_def cards_of_put)
  have "distinct (map card_name (dict_values (dict_set (card_id c) c (cards_of t r))))"
    using ok names by (intro distinct_names_set) (auto simp: cards_ok_def)
  then show "distinct (map card_name (dict_values (cards_of t' (put_card t c r))))"
    using ok by (auto simp: cards_ok_def cards_of_put)
  fix i c'
  assume "dict_get (cards_of t' (put_card t c r)) i = Some c'"
  then show "card_ok h (vl @ extra) t' i c'"
    using ok c by (auto simp: cards_ok_def cards_of_put split: if_splits intro: card_ok_more)
qed

lemma find_mem: "find P xs = Some x \<Longrightarrow> x \<in> set xs \<and> P x"
  by (induction xs) (auto split: if_splits)

lemma find_by_name:
  assumes "cards_ok h (r, vl)" and "find_by_agent_id t n r = Some c"
  shows "dict_get (cards_of t r) (card_id c) = Some c \<and> card_name c = n"
proof -
  have c: "c \<in> set (dict_values (cards_of t r))" "card_agent_id c = n \<or> card_name c = n"
    using find_mem [OF assms(2) [unfolded find_by_agent_id_def]] by auto
  have wf: "dict_wf (cards_of t r)"
    and all: "\<And>i x. dict_get (cards_of t r) i = Some x \<Longrightarrow> card_ok h vl t i x"
    using assms(1) by (auto simp: cards_ok_def)
  from dict_value_get [OF wf c(1)] obtain i where i: "dict_get (cards_of t r) i = Some c" by blast
  from all [OF i] have "card_id c = i" "card_agent_id c = card_name c" by (simp_all add: card_ok_def)
  with i c(2) show ?thesis by auto
qed

lemma no_such_name:
  assumes "find_by_agent_id t n r = None" and "dict_get (cards_of t r) k = Some v"
  shows "card_name v \<noteq> n"
  using assms dict_get_in_values [OF assms(2)] by (auto simp: find_by_agent_id_def find_None_iff simp del: set_map)

lemma same_names:
  assumes "cards_ok h (r, vl)" and "dict_get (cards_of t r) i = Some c" and "dict_get (cards_of t r) k = Some v"
    and "card_name v = card_name c"
  shows "k = i"
proof -
  have "card_ok h vl t i c" "card_ok h vl t k v" and wf: "dict_wf (cards_of t r)"
    and d: "distinct (map card_name (dict_values (cards_of t r)))"
    using assms(1-3) by (auto simp: cards_ok_def)
  then have "card_id c = i" "card_id v = k" by (auto simp: card_ok_def)
  moreover have "inj_on card_name (set (dict_values (cards_of t r)))" using d by (simp add: distinct_map del: map_map)
  then have "v = c"
    using assms(2-4) by (meson dict_get_in_values inj_onD)
  ultimately show ?thesis by simp
qed

lemma same_log: "(r, vl @ []) = (r, vl)"
  by simp

lemma reg_step_ok:
  assumes ok: "cards_ok h s" and op: "op_ok h op"
  shows "cards_ok h (reg_step s op)"
proof -
  obtain r vl where s: "s = (r, vl)" by (cases s)
  have inv: "cards_ok h (r, vl)" using ok s by simp
  have cards: "card_ok h vl t i c" if "dict_get (cards_of t r) i = Some c" for t i c
    using inv that by (auto simp: cards_ok_def)
  show ?thesis
  proof (cases op)
    case (Register w t d auto)
    have d: "card_digest w = h" "from_route d" using op Register by (auto simp: op_ok_def)
    show ?thesis
    proof (cases "cv_errors (validate_card d) = []")
      case False
      with Register s inv show ?thesis by (simp add: register_card_def Let_def)
    next
      case valid: True
      show ?thesis
      proof (cases "find_by_agent_id t (cd_name d) r")
        case None
        let ?c = "new_card w d auto"
        have fields: "card_id ?c = card_uuid w" "card_fingerprint ?c = h (fields_of ?c)" "card_agent_id ?c = card_name ?c"
          "card_name ?c = cd_name d" "card_status ?c = (if auto then Verified else Unverified)"
          using d by (auto simp: new_card_def fields_of_def from_route_def compute_fingerprint_def given_or_def
              split: option.splits)
        have "cards_ok h (put_card t ?c r, vl @ (if auto then [(t, card_id ?c, fields_of ?c)] else []))"
          using fields no_such_name [OF None]
          by (intro put_card_ok [OF inv]) (auto simp: card_ok_def)
        then show ?thesis using Register s valid None by (auto simp: register_card_def Let_def split: if_splits)
      next
        case (Some c)
        have c: "dict_get (cards_of t r) (card_id c) = Some c" "card_name c = cd_name d"
          using find_by_name [OF inv Some] by auto
        let ?c = "fst (update_existing w d (validate_card d) c)"
        have fields: "card_id ?c = card_id c" "card_name ?c = card_name c" "card_agent_id ?c = card_agent_id c"
          "card_fingerprint ?c = h (fields_of ?c)"
          "card_status ?c = Verified \<Longrightarrow> card_status c = Verified \<and> h (fields_of ?c) = card_fingerprint c"
          using d c(2) by (auto simp: update_existing_def fields_of_def from_route_def compute_fingerprint_def
              given_or_def Let_def split: option.splits if_splits)
        have "cards_ok h (put_card t ?c r, vl @ [])"
        proof (rule put_card_ok [OF inv])
          show "card_ok h (vl @ []) t (card_id ?c) ?c"
            using cards [OF c(1)] fields attested_cong [of h "fields_of c" "fields_of ?c" vl t "card_id c"]
            by (auto simp: card_ok_def)
          show "card_name v \<noteq> card_name ?c" if "dict_get (cards_of t r) k = Some v" "k \<noteq> card_id ?c" for k v
            using same_names [OF inv c(1) that(1)] that(2) fields(1,2) by auto
        qed
        then show ?thesis
          using Register s valid Some by (cases "update_existing w d (validate_card d) c") (simp add: register_card_def Let_def)
      qed
    qed
  next
    case (Verify t i)
    show ?thesis
    proof (cases "get_card t i r")
      case (Some c)
      then have c: "dict_get (cards_of t r) i = Some c" by (simp add: get_card_def)
      let ?c = "c\<lparr>card_status := Verified\<rparr>"
      have cid: "card_id ?c = i" "fields_of ?c = fields_of c" using cards [OF c] by (simp_all add: card_ok_def fields_of_def)
      have "cards_ok h (put_card t ?c r, vl @ [(t, i, fields_of ?c)])"
      proof (rule put_card_ok [OF inv])
        show "card_ok h (vl @ [(t, i, fields_of ?c)]) t (card_id ?c) ?c"
          using cards [OF c] cid by (auto simp: card_ok_def)
        show "card_name v \<noteq> card_name ?c" if "dict_get (cards_of t r) k = Some v" "k \<noteq> card_id ?c" for k v
          using same_names [OF inv c that(1)] that(2) cid by auto
      qed
      moreover have "get_card t i (put_card t ?c r) = Some ?c" using cid by (simp add: get_card_def cards_of_put)
      ultimately show ?thesis using Verify s Some inv by (simp add: verify_card_def)
    qed (use Verify s inv in \<open>simp add: verify_card_def\<close>)
  next
    case (Revoke t i)
    show ?thesis
    proof (cases "get_card t i r")
      case (Some c)
      then have c: "dict_get (cards_of t r) i = Some c" by (simp add: get_card_def)
      let ?c = "c\<lparr>card_status := Revoked\<rparr>"
      have cid: "card_id ?c = i" "fields_of ?c = fields_of c" using cards [OF c] by (simp_all add: card_ok_def fields_of_def)
      have "cards_ok h (put_card t ?c r, vl @ [])"
      proof (rule put_card_ok [OF inv])
        show "card_ok h (vl @ []) t (card_id ?c) ?c" using cards [OF c] cid by (simp add: card_ok_def)
        show "card_name v \<noteq> card_name ?c" if "dict_get (cards_of t r) k = Some v" "k \<noteq> card_id ?c" for k v
          using same_names [OF inv c that(1)] that(2) cid by auto
      qed
      then show ?thesis using Revoke s Some by (simp add: revoke_card_def)
    qed (use Revoke s inv in \<open>simp add: revoke_card_def\<close>)
  qed
qed

text \<open>Operations that are not of the route's form are skipped, so that the machine is total.\<close>

interpretation registry_machine: machine "\<lambda>s op. if op_ok h op then reg_step s op else s" "cards_ok h"
  by unfold_locales (auto intro: reg_step_ok)

lemma run_ok_ops:
  "list_all (op_ok h) ops \<Longrightarrow> foldl (\<lambda>s op. if op_ok h op then reg_step s op else s) s ops = foldl reg_step s ops"
  by (induction ops arbitrary: s) auto

text \<open>
  C22: A card that counts as verified was verified with the fields it has now: for its identifier there was
  a verification when its authentication, capabilities, name, address and version had the same digest as
  they have now. Within a tenant no two cards have the same name.
\<close>

theorem verified_card_unchanged:
  assumes "list_all (op_ok h) ops" and "foldl reg_step ([], []) ops = (r, vl)"
    and "get_card t i r = Some c" and "card_status c = Verified"
  shows "attested h vl t i (fields_of c) \<and>
    distinct (map card_name (dict_values (cards_of t r)))"
proof -
  have "cards_ok h ([], [])" by (simp add: cards_ok_def cards_of_def dict_get_or_def)
  from registry_machine.inv_run [OF this, of ops] have ok: "cards_ok h (r, vl)"
    using run_ok_ops [OF assms(1)] assms(2) by simp
  then have "card_ok h vl t i c" using assms(3) by (auto simp: cards_ok_def get_card_def)
  with ok assms(4) show ?thesis by (auto simp: cards_ok_def card_ok_def)
qed

definition demo_card :: "string \<Rightarrow> card_data" where
  "demo_card url = \<lparr>cd_agent_id = None, cd_name = ''bot'', cd_url = url, cd_capabilities = [''search''],
     cd_auth_type = Some ''mtls'', cd_description = Some [], cd_version = Some ''1.0'', cd_metadata = []\<rparr>"

definition demo_a2a :: a2a_env where
  "demo_a2a = \<lparr>card_digest = (\<lambda>(a, caps, n, u, v). u), card_uuid = ''i'', a2a_now = 0\<rparr>"

lemmas demo_card_defs = demo_card_def demo_a2a_def register_card_def validate_card_def listed_if_def sensitive_of_def
  SENSITIVE_CAPABILITIES_def find_by_agent_id_def cards_of_def dict_get_or_def put_card_def new_card_def given_or_def
  compute_fingerprint_def update_existing_def verify_card_def revoke_card_def get_card_def fields_of_def Let_def

lemma verified_card_unchanged_witness:
  "attested (card_digest demo_a2a)
     (snd (foldl reg_step ([], []) [Register demo_a2a ''t'' (demo_card ''https://a'') False, Verify ''t'' ''i'']))
     ''t'' ''i'' (Some ''mtls'', [''search''], ''bot'', ''https://a'', Some ''1.0'')"
proof -
  let ?ops = "[Register demo_a2a ''t'' (demo_card ''https://a'') False, Verify ''t'' ''i'']"
  obtain r vl c where run: "foldl reg_step ([], []) ?ops = (r, vl)" "get_card ''t'' ''i'' r = Some c"
    "card_status c = Verified" "fields_of c = (Some ''mtls'', [''search''], ''bot'', ''https://a'', Some ''1.0'')"
    by (simp add: demo_card_defs)
  have "list_all (op_ok (card_digest demo_a2a)) ?ops"
    by (simp add: op_ok_def from_route_def demo_card_def)
  from verified_card_unchanged [OF this run(1-3)] run show ?thesis by simp
qed

lemma reachable_ok:
  assumes "list_all (op_ok h) ops"
  shows "cards_ok h (foldl reg_step ([], []) ops)"
proof -
  have "cards_ok h ([], [])" by (simp add: cards_ok_def cards_of_def dict_get_or_def)
  from registry_machine.inv_run [OF this, of ops] show ?thesis using run_ok_ops [OF assms] by simp
qed

lemma find_named:
  assumes "cards_ok h (r, vl)" and "dict_get (cards_of t r) i = Some c"
  shows "find_by_agent_id t (card_name c) r = Some c"
proof (cases "find_by_agent_id t (card_name c) r")
  case None
  from no_such_name [OF None assms(2)] show ?thesis by simp
next
  case (Some v)
  from find_by_name [OF assms(1) Some] have v: "dict_get (cards_of t r) (card_id v) = Some v" "card_name v = card_name c"
    by auto
  from same_names [OF assms(1,2) v] have "card_id v = i" .
  with v(1) assms(2) Some show ?thesis by simp
qed

lemma verify_makes_verified:
  assumes "cards_ok h (r, vl)" and "get_card t i r = Some c" and "card_status c \<noteq> Revoked"
  shows "fst (verify_card t i r) \<and> is_verified t (card_name c) (snd (verify_card t i r))"
proof -
  let ?r = "snd (verify_card t i r)" and ?c = "c\<lparr>card_status := Verified\<rparr>"
  have ok: "cards_ok h (reg_step (r, vl) (Verify t i))"
    by (rule reg_step_ok [OF assms(1)]) (simp add: op_ok_def)
  have step: "verify_card t i r = (True, put_card t ?c r)" using assms(2,3) by (simp add: verify_card_def)
  obtain vl' where "cards_ok h (put_card t ?c r, vl')" using ok by (auto simp: step)
  moreover have "dict_get (cards_of t (put_card t ?c r)) (card_id c) = Some ?c" by (simp add: cards_of_put)
  ultimately have "find_by_agent_id t (card_name c) (put_card t ?c r) = Some ?c"
    using find_named by fastforce
  then show ?thesis by (simp add: step is_verified_def)
qed

text \<open>
  Revoking a card does not last: when anyone registers the name again with other content, the revoked
  card becomes unverified, and a verification, which is refused for a revoked card, makes the agent a
  verified one again.
\<close>

theorem revoked_card_returns:
  assumes "list_all (op_ok h) ops" and "foldl reg_step ([], []) ops = (r, vl)"
    and "get_card t i r = Some c" and "card_status c = Revoked"
    and "op_ok h (Register w t d False)" and "cd_name d = card_name c" and "cv_errors (validate_card d) = []"
    and "compute_fingerprint w d \<noteq> card_fingerprint c"
  shows "verify_card t i r = (False, r) \<and>
    (let r' = fst (reg_step (r, vl) (Register w t d False))
     in fst (verify_card t i r') \<and> is_verified t (card_name c) (snd (verify_card t i r')))"
proof -
  have ok: "cards_ok h (r, vl)" using reachable_ok [OF assms(1)] assms(2) by simp
  have get: "dict_get (cards_of t r) i = Some c" using assms(3) by (simp add: get_card_def)
  then have cid: "card_id c = i" using ok by (auto simp: cards_ok_def card_ok_def)
  let ?u = "update_existing w d (validate_card d) c"
  have found: "find_by_agent_id t (cd_name d) r = Some c" using find_named [OF ok get] assms(6) by simp
  then have step: "reg_step (r, vl) (Register w t d False) = (put_card t (fst ?u) r, vl)"
    using assms(7) by (cases ?u) (simp add: register_card_def Let_def)
  have u: "card_status (fst ?u) = Unverified" "card_id (fst ?u) = i" "card_name (fst ?u) = card_name c"
    using assms(8) cid by (simp_all add: update_existing_def Let_def)
  have "cards_ok h (put_card t (fst ?u) r, vl)" using reg_step_ok [OF ok assms(5)] step by simp
  moreover have "get_card t i (put_card t (fst ?u) r) = Some (fst ?u)" using u by (simp add: get_card_def cards_of_put)
  ultimately have "fst (verify_card t i (put_card t (fst ?u) r)) \<and>
      is_verified t (card_name c) (snd (verify_card t i (put_card t (fst ?u) r)))"
    using verify_makes_verified u by fastforce
  moreover have "verify_card t i r = (False, r)" using assms(3,4) by (simp add: verify_card_def)
  ultimately show ?thesis by (simp only: step Let_def fst_conv simp_thms)
qed

lemma revoked_card_returns_witness:
  "\<exists>r vl. foldl reg_step ([], []) [Register demo_a2a ''t'' (demo_card ''https://a'') False, Revoke ''t'' ''i''] = (r, vl) \<and>
     is_verified ''t'' ''bot'' (snd (verify_card ''t'' ''i''
       (fst (reg_step (r, vl) (Register demo_a2a ''t'' (demo_card ''https://b'') False)))))"
proof -
  let ?ops = "[Register demo_a2a ''t'' (demo_card ''https://a'') False, Revoke ''t'' ''i'']"
  obtain r vl c where run: "foldl reg_step ([], []) ?ops = (r, vl)" "get_card ''t'' ''i'' r = Some c"
    "card_status c = Revoked" "card_name c = ''bot''" "card_fingerprint c = ''https://a''"
    by (simp add: demo_card_defs)
  have "list_all (op_ok (card_digest demo_a2a)) ?ops"
    "op_ok (card_digest demo_a2a) (Register demo_a2a ''t'' (demo_card ''https://b'') False)"
    "cd_name (demo_card ''https://b'') = card_name c" "cv_errors (validate_card (demo_card ''https://b'')) = []"
    "compute_fingerprint demo_a2a (demo_card ''https://b'') \<noteq> card_fingerprint c"
    using run(4,5) by (simp_all add: op_ok_def from_route_def demo_card_defs)
  from revoked_card_returns [OF this(1) run(1-3) this(2-5)] run(1,4) show ?thesis by (auto simp: Let_def)
qed

text \<open>The description and the metadata of a verified card are not part of what was verified.\<close>

lemma description_not_covered:
  assumes "compute_fingerprint w d = card_fingerprint c"
  shows "card_status (fst (update_existing w d v c)) = card_status c \<and>
    card_description (fst (update_existing w d v c)) = given_or (cd_description d) (card_description c)"
  using assms by (simp add: update_existing_def Let_def)

section \<open>Correlations\<close>

datatype agent_event = TaskEvent task_event | CallEvent mcp_call

type_synonym stream = "(string \<times> rat \<times> agent_event) list"

text \<open>The findings of a stream of events, those of one tenant.\<close>

fun correlator_step :: "correlator \<Rightarrow> string \<times> rat \<times> agent_event \<Rightarrow> correlation list \<times> correlator" where
  "correlator_step c (t, now, TaskEvent x) = ingest_a2a_task t now x c"
| "correlator_step c (t, now, CallEvent x) = ingest_mcp_call t now x c"

fun findings :: "string \<Rightarrow> correlator \<Rightarrow> stream \<Rightarrow> correlation list" where
  "findings t c [] = []"
| "findings t c (e # es) =
     (case correlator_step c e of (fs, c') \<Rightarrow> (if fst e = t then fs else []) @ findings t c' es)"

text \<open>
  What should be found: each task and call of the tenant where the call is of a sensitive tool, by the
  agent the task was delegated to, and not more than thirty minutes lie between the two; reported when the
  later of the two arrives.
\<close>

definition linked :: "task_event \<Rightarrow> mcp_call \<Rightarrow> bool" where
  "linked x m \<longleftrightarrow> te_target x = mc_agent m \<and> mc_tool m \<in> set SENSITIVE_MCP_TOOLS"

fun pairs_with :: "string \<Rightarrow> stream \<Rightarrow> rat \<Rightarrow> agent_event \<Rightarrow> correlation list" where
  "pairs_with t [] now e = []"
| "pairs_with t ((u, ts, f) # past) now e =
     (if u = t \<and> now - CORRELATION_WINDOW \<le> ts then
        (case (e, f) of
           (TaskEvent x, CallEvent m) \<Rightarrow> if linked x m then [found_pair x m TaskArrived] else []
         | (CallEvent m, TaskEvent x) \<Rightarrow> if linked x m then [found_pair x m CallArrived] else []
         | _ \<Rightarrow> [])
      else []) @ pairs_with t past now e"

fun all_pairs :: "string \<Rightarrow> stream \<Rightarrow> stream \<Rightarrow> correlation list" where
  "all_pairs t past [] = []"
| "all_pairs t past (e # es) =
     (if fst e = t then pairs_with t past (fst (snd e)) (snd (snd e)) else []) @ all_pairs t (past @ [e]) es"

text \<open>The tasks and calls of a tenant in a stream, with their times.\<close>

fun stream_tasks :: "string \<Rightarrow> stream \<Rightarrow> (rat \<times> task_event) list" where
  "stream_tasks t [] = []"
| "stream_tasks t ((u, ts, e) # es) =
     (if u = t then (case e of TaskEvent x \<Rightarrow> [(ts, x)] | _ \<Rightarrow> []) else []) @ stream_tasks t es"

fun stream_calls :: "string \<Rightarrow> stream \<Rightarrow> (rat \<times> mcp_call) list" where
  "stream_calls t [] = []"
| "stream_calls t ((u, ts, e) # es) =
     (if u = t then (case e of CallEvent x \<Rightarrow> [(ts, x)] | _ \<Rightarrow> []) else []) @ stream_calls t es"

definition named_event :: "agent_event \<Rightarrow> bool" where
  "named_event e = (case e of TaskEvent x \<Rightarrow> te_target x \<noteq> None | CallEvent m \<Rightarrow> mc_agent m \<noteq> None)"

lemma stream_append:
  "stream_tasks t (xs @ ys) = stream_tasks t xs @ stream_tasks t ys"
  "stream_calls t (xs @ ys) = stream_calls t xs @ stream_calls t ys"
  by (induction xs rule: stream_tasks.induct) auto

lemma pairs_with_task:
  assumes "te_target x = Some a"
  shows "pairs_with t past now (TaskEvent x) = map (\<lambda>(_, m). found_pair x m TaskArrived)
    (filter (\<lambda>(_, m). mc_agent m = Some a \<and> mc_tool m \<in> set SENSITIVE_MCP_TOOLS) (in_window now (stream_calls t past)))"
proof (induction past)
  case (Cons e past)
  obtain u ts f where e: "e = (u, ts, f)" by (cases e)
  have lk: "linked x m \<longleftrightarrow> mc_agent m = Some a \<and> mc_tool m \<in> set SENSITIVE_MCP_TOOLS" for m
    using assms by (auto simp: linked_def)
  show ?case
  proof (cases f)
    case (TaskEvent y)
    show ?thesis using Cons.IH by (simp add: TaskEvent e)
  next
    case (CallEvent m)
    show ?thesis
      unfolding CallEvent e pairs_with.simps Cons.IH stream_calls.simps prod.case agent_event.case lk
      by (cases "u = t"; cases "now - CORRELATION_WINDOW \<le> ts"; simp add: in_window_def)
  qed
qed (simp add: in_window_def)

lemma pairs_with_call:
  assumes "list_all (\<lambda>e. named_event (snd (snd e))) past" and "mc_agent m = Some a"
  shows "pairs_with t past now (CallEvent m) =
    (if mc_tool m \<in> set SENSITIVE_MCP_TOOLS then map (\<lambda>(_, x). found_pair x m CallArrived)
      (filter (\<lambda>(_, x). te_target x = Some a) (in_window now (stream_tasks t past))) else [])"
  using assms(1)
proof (induction past)
  case (Cons e past)
  obtain u ts f where e: "e = (u, ts, f)" by (cases e)
  have lk: "linked x m \<longleftrightarrow> te_target x = Some a \<and> mc_tool m \<in> set SENSITIVE_MCP_TOOLS" for x
    using assms(2) by (auto simp: linked_def)
  have IH: "pairs_with t past now (CallEvent m) =
      (if mc_tool m \<in> set SENSITIVE_MCP_TOOLS then map (\<lambda>(_, x). found_pair x m CallArrived)
        (filter (\<lambda>(_, x). te_target x = Some a) (in_window now (stream_tasks t past))) else [])"
    using Cons by simp
  show ?case
  proof (cases f)
    case (TaskEvent y)
    show ?thesis
      unfolding TaskEvent e pairs_with.simps IH stream_tasks.simps prod.case agent_event.case lk
      by (cases "u = t"; cases "now - CORRELATION_WINDOW \<le> ts"; simp add: in_window_def)
  next
    case (CallEvent m')
    show ?thesis by (simp add: CallEvent e IH)
  qed
qed (simp add: in_window_def)

text \<open>What the correlator holds of a tenant: its events since some moment at least thirty minutes ago.\<close>

definition holds_window :: "string \<Rightarrow> rat \<Rightarrow> stream \<Rightarrow> correlator \<Rightarrow> bool" where
  "holds_window t now past c \<longleftrightarrow> (\<exists>edge \<le> now - CORRELATION_WINDOW.
     tasks_for t c = filter (\<lambda>(ts, x). edge \<le> ts) (stream_tasks t past) \<and>
     calls_for t c = filter (\<lambda>(ts, x). edge \<le> ts) (stream_calls t past))"

lemma prune_lists:
  "tasks_for t (prune u now c) = (if t = u then in_window now (tasks_for t c) else tasks_for t c)"
  "calls_for t (prune u now c) = (if t = u then in_window now (calls_for t c) else calls_for t c)"
  by (auto simp: tasks_for_def calls_for_def prune_def prune_key_def dict_get_or_def in_window_def split: option.splits)

lemma put_lists:
  "tasks_for t (c\<lparr>recent_tasks := dict_set u xs (recent_tasks c)\<rparr>) = (if t = u then xs else tasks_for t c)"
  "calls_for t (c\<lparr>recent_tasks := d\<rparr>) = calls_for t c"
  "calls_for t (c\<lparr>recent_mcp := dict_set u ys (recent_mcp c)\<rparr>) = (if t = u then ys else calls_for t c)"
  "tasks_for t (c\<lparr>recent_mcp := d'\<rparr>) = tasks_for t c"
  by (simp_all add: tasks_for_def calls_for_def dict_get_or_def)

lemma holds_new: "holds_window t now [] new_correlator"
  by (auto simp: holds_window_def new_correlator_def tasks_for_def calls_for_def dict_get_or_def)

lemma in_window_cut: "edge \<le> now - CORRELATION_WINDOW \<Longrightarrow> in_window now (filter (\<lambda>(ts, x). edge \<le> ts) xs) = in_window now xs"
  by (auto simp: in_window_def intro!: filter_cong)

lemma in_window_append: "in_window now (xs @ ys) = in_window now xs @ in_window now ys"
  by (simp add: in_window_def)

lemma in_window_now: "in_window now [(now, x)] = [(now, x)]"
  by (simp add: in_window_def CORRELATION_WINDOW_def)

lemma correlator_step_found:
  assumes h: "holds_window t now past c" and e: "named_event e" "list_all (\<lambda>e. named_event (snd (snd e))) past"
    and step: "correlator_step c (u, now, e) = (fs, c')"
  shows "holds_window t now (past @ [(u, now, e)]) c' \<and> (u = t \<longrightarrow> fs = pairs_with t past now e)"
proof -
  from h obtain edge where edge: "edge \<le> now - CORRELATION_WINDOW"
    and ts: "tasks_for t c = filter (\<lambda>(ts, x). edge \<le> ts) (stream_tasks t past)"
    and cs: "calls_for t c = filter (\<lambda>(ts, x). edge \<le> ts) (stream_calls t past)"
    unfolding holds_window_def by blast
  show ?thesis
  proof (cases e)
    case (TaskEvent x)
    let ?c = "c\<lparr>recent_tasks := dict_set u (tasks_for u c @ [(now, x)]) (recent_tasks c)\<rparr>"
    from step TaskEvent have s: "c' = prune u now ?c" "fs = correlate_task u x (prune u now ?c)"
      by (auto simp: ingest_a2a_task_def Let_def)
    show ?thesis
    proof (cases "u = t")
      case True
      obtain a where a: "te_target x = Some a" using e(1) TaskEvent by (auto simp: named_event_def)
      have "tasks_for t c' = in_window now (stream_tasks t (past @ [(u, now, e)]))"
        "calls_for t c' = in_window now (stream_calls t (past @ [(u, now, e)]))"
        using True by (simp_all add: s prune_lists put_lists ts cs in_window_append in_window_now in_window_cut [OF edge]
            stream_append TaskEvent)
      moreover have "fs = pairs_with t past now e"
        using True a by (simp add: TaskEvent pairs_with_task s correlate_task_def prune_lists put_lists cs
            in_window_cut [OF edge] given_or_def)
      ultimately show ?thesis
        by (auto simp: holds_window_def in_window_def intro!: exI [of _ "now - CORRELATION_WINDOW"])
    next
      case False
      with edge ts cs show ?thesis
        by (auto simp: holds_window_def s prune_lists put_lists stream_append intro!: exI [of _ edge])
    qed
  next
    case (CallEvent m)
    let ?c = "c\<lparr>recent_mcp := dict_set u (calls_for u c @ [(now, m)]) (recent_mcp c)\<rparr>"
    from step CallEvent have s: "c' = prune u now ?c" "fs = correlate_call u m (prune u now ?c)"
      by (auto simp: ingest_mcp_call_def Let_def)
    show ?thesis
    proof (cases "u = t")
      case True
      obtain a where a: "mc_agent m = Some a" using e(1) CallEvent by (auto simp: named_event_def)
      have "tasks_for t c' = in_window now (stream_tasks t (past @ [(u, now, e)]))"
        "calls_for t c' = in_window now (stream_calls t (past @ [(u, now, e)]))"
        using True by (simp_all add: s prune_lists put_lists ts cs in_window_append in_window_now in_window_cut [OF edge]
            stream_append CallEvent)
      moreover have "fs = pairs_with t past now e"
        using True a by (simp add: CallEvent pairs_with_call [OF e(2)] s correlate_call_def prune_lists put_lists ts
            in_window_cut [OF edge] given_or_def)
      ultimately show ?thesis
        by (auto simp: holds_window_def in_window_def intro!: exI [of _ "now - CORRELATION_WINDOW"])
    next
      case False
      with edge ts cs show ?thesis
        by (auto simp: holds_window_def s prune_lists put_lists stream_append intro!: exI [of _ edge])
    qed
  qed
qed

lemma holds_later: "holds_window t now past c \<Longrightarrow> now \<le> now' \<Longrightarrow> holds_window t now' past c"
  unfolding holds_window_def by (meson diff_right_mono order_trans)

text \<open>
  C33: With events in the order of their times, the correlator reports exactly the delegations and sensitive
  tool calls of the delegated agent that are at most thirty minutes apart, each pair once, in whichever
  order the two arrive, and without mixing tenants.
\<close>

theorem correlations_exact:
  assumes "sorted (map (\<lambda>e. fst (snd e)) es)" and "list_all (\<lambda>e. named_event (snd (snd e))) es"
  shows "findings t new_correlator es = all_pairs t [] es"
proof -
  have "findings t c es = all_pairs t past es"
    if "list_all (\<lambda>e. holds_window t (fst (snd e)) past c) (take 1 es)" "list_all (\<lambda>e. named_event (snd (snd e))) past" for past c
    using that assms
  proof (induction es arbitrary: past c)
    case (Cons e es)
    obtain u now x where e: "e = (u, now, x)" by (cases e)
    obtain fs c' where s: "correlator_step c e = (fs, c')" by fastforce
    have "holds_window t now past c" "named_event x" using Cons.prems by (simp_all add: e)
    from correlator_step_found [OF this Cons.prems(2) s [unfolded e]]
    have "holds_window t now (past @ [e]) c'" and fs: "u = t \<longrightarrow> fs = pairs_with t past now x" by (simp_all add: e)
    then have "list_all (\<lambda>f. holds_window t (fst (snd f)) (past @ [e]) c') (take 1 es)"
      using Cons.prems(3) e by (cases es) (auto intro: holds_later)
    then have "findings t c' es = all_pairs t (past @ [e]) es"
      using Cons.prems by (intro Cons.IH) (simp_all add: e)
    with fs s e show ?case by simp
  qed simp
  from this [of "[]" new_correlator] show ?thesis by (simp add: list_all_iff holds_new)
qed

definition demo_stream :: stream where
  "demo_stream =
     [(''t'', 0, CallEvent \<lparr>mc_call = ''c1'', mc_agent = Some ''b'', mc_tool = ''shell''\<rparr>),
      (''t'', 60, TaskEvent \<lparr>te_task = ''k'', te_source = ''a'', te_target = Some ''b'', te_capability = ''x''\<rparr>),
      (''t'', 1900, CallEvent \<lparr>mc_call = ''c2'', mc_agent = Some ''b'', mc_tool = ''exec''\<rparr>)]"

lemma correlations_exact_witness:
  "map (\<lambda>f. (mc_call (co_call f), co_by f)) (findings ''t'' new_correlator demo_stream) = [(''c1'', TaskArrived)]"
proof -
  have "sorted (map (\<lambda>e. fst (snd e)) demo_stream)" "list_all (\<lambda>e. named_event (snd (snd e))) demo_stream"
    by (simp_all add: demo_stream_def named_event_def)
  from correlations_exact [OF this, of "''t''"] show ?thesis
    by (simp add: demo_stream_def linked_def found_pair_def CORRELATION_WINDOW_def SENSITIVE_MCP_TOOLS_def)
qed

text \<open>A call found when the task arrives was made before the delegation it is said to follow.\<close>

lemma call_before_delegation:
  "map co_by (findings ''t'' new_correlator demo_stream) = [TaskArrived]"
  by (simp add: demo_stream_def ingest_a2a_task_def ingest_mcp_call_def correlate_task_def correlate_call_def
      tasks_for_def calls_for_def new_correlator_def prune_def prune_key_def in_window_def dict_get_or_def given_or_def
      found_pair_def CORRELATION_WINDOW_def SENSITIVE_MCP_TOOLS_def Let_def)

section \<open>Fingerprints\<close>

lemma result_of_bounds: "fp_passed (result_of t req msg checks) \<le> fp_total (result_of t req msg checks)"
  using length_filter_le [of id "map (present msg) req @ checks"] by (simp add: result_of_def Let_def del: filter_append)

lemma task_request_bounds: "fp_passed (fingerprint_task_request msg) \<le> fp_total (fingerprint_task_request msg)"
  unfolding fingerprint_task_request_def by (rule result_of_bounds)

lemma card_bounds: "fingerprint_card msg = Some r \<Longrightarrow> fp_passed r \<le> fp_total r"
  by (auto simp: fingerprint_card_def result_of_bounds split: option.splits)

text \<open>A message with nothing but a well-formed address counts as a card that is not suspicious.\<close>

lemma card_without_name:
  "map_option (\<lambda>r. (fp_missing r, fp_suspicious r))
     (fingerprint [(''url'', VStr ''https://a''), (''capabilities'', VList [])] []) =
   Some ([''name'', ''capabilities''], False)"
  by code_simp

end
