(* ===== verification/Rate_Limits.thy ===== *)
theory Rate_Limits
  imports Interfaces Complex_Main
begin

text \<open>
  The rate limits of the API: \<open>backend/app/middleware/rate_limit.py\<close> (token buckets in memory and the
  request dependencies), the sliding window of \<open>backend/app/services/redis_rate_limit.py\<close>, its
  configuration in \<open>backend/app/main.py\<close>, and the limiter of
  \<open>backend/ml/content/hardening/rate_limiter.py\<close>. Redis is a parameter: a record of the commands the
  script issues. Floats are rationals, and clocks are arguments.
\<close>

section \<open>Token buckets\<close>

record token_bucket =
  tb_rate :: rat
  tb_capacity :: int
  tb_buckets :: "(string, rat \<times> rat) dict"

definition tokens_now :: "rat \<Rightarrow> string \<Rightarrow> token_bucket \<Rightarrow> rat" where
  "tokens_now now key b =
     (case dict_get (tb_buckets b) key of
        Some (tokens, last_check) \<Rightarrow>
          min (of_int (tb_capacity b)) (tokens + (now - last_check) * tb_rate b)
      | None \<Rightarrow> of_int (tb_capacity b))"

definition tb_allow :: "rat \<Rightarrow> string \<Rightarrow> token_bucket \<Rightarrow> bool \<times> token_bucket" where
  "tb_allow now key b =
     (let tokens = tokens_now now key b
      in if 1 \<le> tokens
         then (True, b\<lparr>tb_buckets := dict_set key (tokens - 1, now) (tb_buckets b)\<rparr>)
         else (False, b\<lparr>tb_buckets := dict_set key (tokens, now) (tb_buckets b)\<rparr>))"

definition tb_cleanup :: "rat \<Rightarrow> rat \<Rightarrow> token_bucket \<Rightarrow> token_bucket" where
  "tb_cleanup now max_age b = b\<lparr>tb_buckets := filter (\<lambda>(_, _, t). \<not> max_age < now - t) (tb_buckets b)\<rparr>"

definition new_token_bucket :: "rat \<Rightarrow> int \<Rightarrow> token_bucket" where
  "new_token_bucket rate capacity = \<lparr>tb_rate = rate, tb_capacity = capacity, tb_buckets = []\<rparr>"

section \<open>The sliding window in Redis\<close>

text \<open>The commands of the script: sorted sets by score, counters, and times to live.\<close>

record 'r redis_ops =
  zremrangebyscore :: "string \<Rightarrow> rat \<Rightarrow> 'r \<Rightarrow> 'r"
  zcard :: "string \<Rightarrow> 'r \<Rightarrow> nat"
  zadd :: "string \<Rightarrow> rat \<Rightarrow> string \<Rightarrow> 'r \<Rightarrow> 'r"
  incr :: "string \<Rightarrow> 'r \<Rightarrow> int \<times> 'r"
  expire :: "string \<Rightarrow> int \<Rightarrow> 'r \<Rightarrow> 'r"
  number_text :: "rat \<Rightarrow> string"

definition sliding_window_script :: "'r redis_ops \<Rightarrow> string \<Rightarrow> rat \<Rightarrow> int \<Rightarrow> rat \<Rightarrow> 'r \<Rightarrow> nat \<times> 'r" where
  "sliding_window_script ops key window limit now r =
     (let r1 = zremrangebyscore ops key (now - window) r
      in if int (zcard ops key r1) < limit
         then (case incr ops (key @ '':seq'') r1 of (n, r2) \<Rightarrow>
                 (1, expire ops key (\<lceil>window\<rceil> + 1)
                       (zadd ops key now (colon_join (number_text ops now) (int_to_string n)) r2)))
         else (0, r1))"

record sliding_limiter =
  sl_rate :: rat
  sl_window :: rat
  sl_prefix :: string

text \<open>\<open>int(self._rate)\<close> drops the fraction. When Redis fails, the request is allowed.\<close>

definition py_int_of :: "rat \<Rightarrow> int" where
  "py_int_of x = (if 0 \<le> x then \<lfloor>x\<rfloor> else \<lceil>x\<rceil>)"

definition sl_allow :: "'r redis_ops \<Rightarrow> bool \<Rightarrow> rat \<Rightarrow> string \<Rightarrow> sliding_limiter \<Rightarrow> 'r \<Rightarrow> bool \<times> 'r" where
  "sl_allow ops fails now key l r =
     (if fails then (True, r)
      else case sliding_window_script ops (sl_prefix l @ key) (sl_window l) (py_int_of (sl_rate l)) now r of
             (result, r') \<Rightarrow> (result = 1, r'))"

definition sl_remaining :: "'r redis_ops \<Rightarrow> bool \<Rightarrow> rat \<Rightarrow> string \<Rightarrow> sliding_limiter \<Rightarrow> 'r \<Rightarrow> int \<times> 'r" where
  "sl_remaining ops fails now key l r =
     (if fails then (py_int_of (sl_rate l), r)
      else let r' = zremrangebyscore ops (sl_prefix l @ key) (now - sl_window l) r
           in (max 0 (py_int_of (sl_rate l) - int (zcard ops (sl_prefix l @ key) r')), r'))"

section \<open>The limiters of the application\<close>

record 'r limiters =
  general_bucket :: token_bucket
  auth_bucket :: token_bucket
  sso_bucket :: token_bucket
  redis_general :: "sliding_limiter option"
  redis_auth :: "sliding_limiter option"
  redis_sso :: "sliding_limiter option"
  redis_data :: 'r

definition initial_limiters :: "nat \<Rightarrow> 'r \<Rightarrow> 'r limiters" where
  "initial_limiters per_second r =
     \<lparr>general_bucket = new_token_bucket (of_nat per_second) (2 * int per_second),
      auth_bucket = new_token_bucket 5 10, sso_bucket = new_token_bucket (10 / 60) 5,
      redis_general = None, redis_auth = None, redis_sso = None, redis_data = r\<rparr>"

definition set_redis_rate_limiters :: "sliding_limiter \<Rightarrow> sliding_limiter \<Rightarrow> sliding_limiter option \<Rightarrow>
    'r limiters \<Rightarrow> 'r limiters" where
  "set_redis_rate_limiters general auth sso l =
     l\<lparr>redis_general := Some general, redis_auth := Some auth, redis_sso := sso\<rparr>"

text \<open>What \<open>main.py\<close> does at start when Redis answers.\<close>

definition start_with_redis :: "nat \<Rightarrow> 'r limiters \<Rightarrow> 'r limiters" where
  "start_with_redis per_second =
     set_redis_rate_limiters
       \<lparr>sl_rate = of_nat per_second, sl_window = 1, sl_prefix = ''rl:general:''\<rparr>
       \<lparr>sl_rate = 5, sl_window = 1, sl_prefix = ''rl:auth:''\<rparr>
       (Some \<lparr>sl_rate = 10 / 60, sl_window = 60, sl_prefix = ''rl:sso:''\<rparr>)"

text \<open>The reading of the clocks, whether Redis fails, and the peer of the request.\<close>

record request_env =
  re_monotonic :: rat
  re_time :: rat
  re_redis_fails :: bool
  re_client :: "string option"

definition get_client_key :: "request_env \<Rightarrow> string" where
  "get_client_key q = (case re_client q of Some h \<Rightarrow> h | None \<Rightarrow> ''unknown'')"

text \<open>A refused request is answered 429 with the seconds of its \<open>Retry-After\<close>.\<close>

datatype refused_request = Retry_After nat

definition rate_limit :: "'r redis_ops \<Rightarrow> request_env \<Rightarrow> 'r limiters \<Rightarrow> (refused_request + unit) \<times> 'r limiters" where
  "rate_limit ops q l =
     (let key = get_client_key q;
          (allowed, l') = (case redis_general l of
              Some s \<Rightarrow> (case sl_allow ops (re_redis_fails q) (re_time q) key s (redis_data l) of
                          (a, r) \<Rightarrow> (a, l\<lparr>redis_data := r\<rparr>))
            | None \<Rightarrow> (case tb_allow (re_monotonic q) key (general_bucket l) of
                         (a, b) \<Rightarrow> (a, l\<lparr>general_bucket := b\<rparr>)))
      in (if allowed then Inr () else Inl (Retry_After 1), l'))"

definition auth_rate_limit :: "'r redis_ops \<Rightarrow> request_env \<Rightarrow> 'r limiters \<Rightarrow> (refused_request + unit) \<times> 'r limiters" where
  "auth_rate_limit ops q l =
     (let key = ''auth:'' @ get_client_key q;
          (allowed, l') = (case redis_auth l of
              Some s \<Rightarrow> (case sl_allow ops (re_redis_fails q) (re_time q) key s (redis_data l) of
                          (a, r) \<Rightarrow> (a, l\<lparr>redis_data := r\<rparr>))
            | None \<Rightarrow> (case tb_allow (re_monotonic q) key (auth_bucket l) of
                         (a, b) \<Rightarrow> (a, l\<lparr>auth_bucket := b\<rparr>)))
      in (if allowed then Inr () else Inl (Retry_After 10), l'))"

definition sso_rate_limit :: "'r redis_ops \<Rightarrow> request_env \<Rightarrow> 'r limiters \<Rightarrow> (refused_request + unit) \<times> 'r limiters" where
  "sso_rate_limit ops q l =
     (let key = ''sso:'' @ get_client_key q;
          (allowed, l') = (case redis_sso l of
              Some s \<Rightarrow> (case sl_allow ops (re_redis_fails q) (re_time q) key s (redis_data l) of
                          (a, r) \<Rightarrow> (a, l\<lparr>redis_data := r\<rparr>))
            | None \<Rightarrow> (case tb_allow (re_monotonic q) key (sso_bucket l) of
                         (a, b) \<Rightarrow> (a, l\<lparr>sso_bucket := b\<rparr>)))
      in (if allowed then Inr () else Inl (Retry_After 30), l'))"

definition tracked_clients :: "'r limiters \<Rightarrow> nat" where
  "tracked_clients l =
     length (tb_buckets (general_bucket l)) + length (tb_buckets (auth_bucket l)) + length (tb_buckets (sso_bucket l))"

definition cleanup_all :: "rat \<Rightarrow> rat \<Rightarrow> 'r limiters \<Rightarrow> nat \<times> 'r limiters" where
  "cleanup_all now max_age l =
     (let l' = l\<lparr>general_bucket := tb_cleanup now max_age (general_bucket l),
                 auth_bucket := tb_cleanup now max_age (auth_bucket l),
                 sso_bucket := tb_cleanup now max_age (sso_bucket l)\<rparr>
      in (tracked_clients l - tracked_clients l', l'))"

section \<open>The limiter of content analysis\<close>

record content_bucket =
  cb_tokens :: rat
  cb_last_refill :: rat
  cb_capacity :: rat
  cb_rate :: rat

record content_limiter =
  cl_rate :: rat
  cl_burst :: rat
  cl_max_tenants :: nat
  cl_buckets :: "(string, content_bucket) dict"

definition new_content_limiter :: "rat \<Rightarrow> rat option \<Rightarrow> nat \<Rightarrow> content_limiter" where
  "new_content_limiter rate burst max_tenants =
     \<lparr>cl_rate = rate, cl_burst = (case burst of Some b \<Rightarrow> b | None \<Rightarrow> rate),
      cl_max_tenants = max_tenants, cl_buckets = []\<rparr>"

definition refill :: "rat \<Rightarrow> content_bucket \<Rightarrow> content_bucket" where
  "refill now b =
     (let elapsed = now - cb_last_refill b
      in if 0 < elapsed
         then b\<lparr>cb_tokens := min (cb_capacity b) (cb_tokens b + elapsed * cb_rate b), cb_last_refill := now\<rparr>
         else b)"

text \<open>\<open>popitem(last=False)\<close> of an empty dictionary raises \<open>KeyError\<close>: with no room for any tenant there is no answer.\<close>

fun evict_lru :: "nat \<Rightarrow> ('k, 'v) dict \<Rightarrow> ('k, 'v) dict option" where
  "evict_lru m [] = (if m = 0 then None else Some [])"
| "evict_lru m (e # d) = (if m \<le> Suc (length d) then evict_lru m d else Some (e # d))"

definition get_or_create :: "rat \<Rightarrow> string \<Rightarrow> content_limiter \<Rightarrow> (content_bucket \<times> content_limiter) option" where
  "get_or_create now tenant l =
     (case dict_get (cl_buckets l) tenant of
        Some b \<Rightarrow> Some (b, l)
      | None \<Rightarrow>
          (case evict_lru (cl_max_tenants l) (cl_buckets l) of
             None \<Rightarrow> None
           | Some d \<Rightarrow>
               (let b = \<lparr>cb_tokens = cl_burst l, cb_last_refill = now, cb_capacity = cl_burst l, cb_rate = cl_rate l\<rparr>
                in Some (b, l\<lparr>cl_buckets := dict_set tenant b d\<rparr>))))"

definition move_to_end :: "'k \<Rightarrow> 'v \<Rightarrow> ('k, 'v) dict \<Rightarrow> ('k, 'v) dict" where
  "move_to_end k v d = dict_del k d @ [(k, v)]"

text \<open>The clock is read once to make a bucket and once to refill it.\<close>

definition content_allow :: "rat \<Rightarrow> rat \<Rightarrow> string \<Rightarrow> int \<Rightarrow> content_limiter \<Rightarrow> (bool \<times> content_limiter) option" where
  "content_allow now now' tenant tokens l =
     (case get_or_create now tenant l of
        None \<Rightarrow> None
      | Some (b, l1) \<Rightarrow>
          (let b1 = refill now' b
           in if of_int tokens \<le> cb_tokens b1
              then Some (True, l1\<lparr>cl_buckets :=
                     move_to_end tenant (b1\<lparr>cb_tokens := cb_tokens b1 - of_int tokens\<rparr>) (cl_buckets l1)\<rparr>)
              else Some (False, l1\<lparr>cl_buckets := dict_set tenant b1 (cl_buckets l1)\<rparr>)))"

definition content_remaining :: "rat \<Rightarrow> string \<Rightarrow> content_limiter \<Rightarrow> rat \<times> content_limiter" where
  "content_remaining now tenant l =
     (case dict_get (cl_buckets l) tenant of
        None \<Rightarrow> (cl_burst l, l)
      | Some b \<Rightarrow> (let b1 = refill now b in (cb_tokens b1, l\<lparr>cl_buckets := dict_set tenant b1 (cl_buckets l)\<rparr>)))"

definition content_reset :: "string option \<Rightarrow> content_limiter \<Rightarrow> content_limiter" where
  "content_reset tenant l =
     (case tenant of
        None \<Rightarrow> l\<lparr>cl_buckets := []\<rparr>
      | Some t \<Rightarrow> l\<lparr>cl_buckets := dict_del t (cl_buckets l)\<rparr>)"

definition tenant_count :: "content_limiter \<Rightarrow> nat" where
  "tenant_count l = length (cl_buckets l)"

end
