(* ===== verification/Rate_Limits_Props.thy ===== *)
theory Rate_Limits_Props
  imports Rate_Limits
begin

text \<open>
  What the rate limits promise: the token buckets bound the requests of every stretch of time, also when
  stale buckets are dropped in between, and never refuse a patient client; the sliding window in Redis
  bounds the requests of every window; single sign-on is refused altogether once Redis is configured;
  the content limiter keeps a bounded number of tenants and forgets the state of those it evicts.
\<close>

section \<open>Token buckets\<close>

datatype tb_op = Ask rat string | Sweep rat rat

fun tb_time :: "tb_op \<Rightarrow> rat" where
  "tb_time (Ask now _) = now"
| "tb_time (Sweep now _) = now"

text \<open>A bucket with the times of the requests it let through for a key.\<close>

fun tb_step :: "string \<Rightarrow> token_bucket \<times> rat list \<Rightarrow> tb_op \<Rightarrow> token_bucket \<times> rat list" where
  "tb_step k (b, L) (Ask now key) =
     (case tb_allow now key b of (ok, b') \<Rightarrow> (b', if ok \<and> key = k then L @ [now] else L))"
| "tb_step k (b, L) (Sweep now age) = (tb_cleanup now age b, L)"

definition spans_bounded :: "rat \<Rightarrow> rat \<Rightarrow> rat list \<Rightarrow> bool" where
  "spans_bounded cap rate L \<longleftrightarrow>
     (\<forall>i j. i \<le> j \<longrightarrow> j < length L \<longrightarrow> of_nat (j - i + 1) \<le> cap + rate * (L ! j - L ! i))"

text \<open>The tokens left are the potential: what was let through since any request is paid for by it.\<close>

definition paid :: "rat \<Rightarrow> rat \<Rightarrow> rat list \<Rightarrow> rat \<Rightarrow> rat \<Rightarrow> bool" where
  "paid cap rate L now tokens \<longleftrightarrow>
     (\<forall>i < length L. of_nat (length L - i) + tokens \<le> cap + rate * (now - L ! i))"

definition tb_inv :: "string \<Rightarrow> rat \<Rightarrow> int \<Rightarrow> rat \<Rightarrow> token_bucket \<times> rat list \<Rightarrow> bool" where
  "tb_inv k rate cap now s \<longleftrightarrow>
     (case s of (b, L) \<Rightarrow>
        tb_rate b = rate \<and> tb_capacity b = cap \<and> dict_wf (tb_buckets b) \<and>
        list_all (\<lambda>(_, t, l). 0 \<le> t \<and> l \<le> now) (tb_buckets b) \<and>
        paid (of_int cap) rate L now (tokens_now now k b) \<and> spans_bounded (of_int cap) rate L)"

lemma tokens_now_later:
  assumes "0 \<le> tb_rate b" and "now \<le> now'"
  shows "tokens_now now' k b \<le> tokens_now now k b + (now' - now) * tb_rate b"
proof (cases "dict_get (tb_buckets b) k")
  case (Some e)
  obtain t l where e: "e = (t, l)" by (cases e)
  have "0 \<le> (now' - now) * tb_rate b" using assms by simp
  moreover have "(now' - l) * tb_rate b = (now - l) * tb_rate b + (now' - now) * tb_rate b" by (simp add: algebra_simps)
  ultimately show ?thesis using Some e by (simp add: tokens_now_def)
qed (use assms in \<open>simp add: tokens_now_def\<close>)

lemma tokens_now_nonneg:
  assumes "0 \<le> tb_rate b" and "0 \<le> tb_capacity b" and "list_all (\<lambda>(_, t, l). 0 \<le> t \<and> l \<le> now) (tb_buckets b)"
  shows "0 \<le> tokens_now now k b"
proof (cases "dict_get (tb_buckets b) k")
  case (Some e)
  then have "(k, e) \<in> set (tb_buckets b)" by (rule map_of_SomeD)
  with assms Some show ?thesis by (auto simp: tokens_now_def list_all_iff)
qed (use assms in \<open>simp add: tokens_now_def\<close>)

lemma paid_later:
  assumes "paid cap rate L now tokens" and "tokens' \<le> tokens + (now' - now) * rate"
  shows "paid cap rate L now' tokens'"
  unfolding paid_def
proof (intro allI impI)
  fix i assume "i < length L"
  with assms(1) have "of_nat (length L - i) + tokens \<le> cap + rate * (now - L ! i)" by (simp add: paid_def)
  moreover have "rate * (now' - L ! i) = rate * (now - L ! i) + (now' - now) * rate" by (simp add: algebra_simps)
  ultimately show "of_nat (length L - i) + tokens' \<le> cap + rate * (now' - L ! i)" using assms(2) by linarith
qed

lemma tb_inv_later:
  assumes "tb_inv k rate cap now (b, L)" and "now \<le> now'" and "0 \<le> rate"
  shows "tb_inv k rate cap now' (b, L)"
proof -
  have "tokens_now now' k b \<le> tokens_now now k b + (now' - now) * rate"
    using tokens_now_later [of b now now' k] assms by (simp add: tb_inv_def)
  with assms show ?thesis
    by (auto simp: tb_inv_def list_all_iff intro: paid_later)
qed

lemma paid_snoc:
  assumes "paid cap rate L now tokens" and "tokens \<le> cap"
  shows "paid cap rate (L @ [now]) now (tokens - 1)"
  unfolding paid_def
proof (intro allI impI)
  fix i assume i: "i < length (L @ [now])"
  show "of_nat (length (L @ [now]) - i) + (tokens - 1) \<le> cap + rate * (now - (L @ [now]) ! i)"
  proof (cases "i < length L")
    case True
    with assms(1) have "of_nat (length L - i) + tokens \<le> cap + rate * (now - L ! i)" by (simp add: paid_def)
    with True show ?thesis by (simp add: nth_append Suc_diff_le)
  next
    case False
    with i have "i = length L" by simp
    with assms(2) show ?thesis by simp
  qed
qed

lemma spans_snoc:
  assumes "spans_bounded cap rate L" and "paid cap rate (L @ [now]) now tokens" and "0 \<le> tokens"
  shows "spans_bounded cap rate (L @ [now])"
  unfolding spans_bounded_def
proof (intro allI impI)
  fix i j assume ij: "i \<le> j" "j < length (L @ [now])"
  show "of_nat (j - i + 1) \<le> cap + rate * ((L @ [now]) ! j - (L @ [now]) ! i)"
  proof (cases "j < length L")
    case True
    with assms(1) ij show ?thesis by (simp add: spans_bounded_def nth_append)
  next
    case False
    with ij have j: "j = length L" by simp
    with assms(2) ij have "of_nat (length (L @ [now]) - i) + tokens \<le> cap + rate * (now - (L @ [now]) ! i)"
      by (simp add: paid_def)
    with j ij assms(3) show ?thesis by (simp add: Suc_diff_le)
  qed
qed

lemma tokens_now_le: "tokens_now now k b \<le> of_int (tb_capacity b)"
  by (auto simp: tokens_now_def split: option.splits)

lemma tokens_now_set:
  "tokens_now now k (b\<lparr>tb_buckets := dict_set key (t, now) (tb_buckets b)\<rparr>) =
     (if k = key then min (of_int (tb_capacity b)) t else tokens_now now k b)"
  by (simp add: tokens_now_def split: option.splits)

lemma ask_inv:
  assumes "tb_inv k rate cap now (b, L)" and "0 \<le> rate" and "0 \<le> cap"
  shows "tb_inv k rate cap now (tb_step k (b, L) (Ask now key))"
proof -
  let ?t = "tokens_now now key b"
  have inv: "tb_rate b = rate" "tb_capacity b = cap" "dict_wf (tb_buckets b)"
    "list_all (\<lambda>(_, t, l). 0 \<le> t \<and> l \<le> now) (tb_buckets b)"
    "paid (of_int cap) rate L now (tokens_now now k b)" "spans_bounded (of_int cap) rate L"
    using assms(1) by (simp_all add: tb_inv_def)
  have le: "?t \<le> of_int cap" using tokens_now_le [of now key b] inv(2) by simp
  have t0: "0 \<le> ?t" using tokens_now_nonneg [of b now key] inv assms by simp
  show ?thesis
  proof (cases "1 \<le> ?t")
    case False
    with inv le t0 show ?thesis
      by (auto simp: tb_inv_def tb_allow_def tokens_now_set min_def intro!: list_all_dict_set)
  next
    case True
    show ?thesis
    proof (cases "key = k")
      case False
      with True inv show ?thesis
        by (auto simp: tb_inv_def tb_allow_def tokens_now_set intro!: list_all_dict_set)
    next
      case same: True
      have p: "paid (of_int cap) rate (L @ [now]) now (?t - 1)"
        using inv(5) le same by (intro paid_snoc) simp_all
      with True inv(6) have "spans_bounded (of_int cap) rate (L @ [now])" by (intro spans_snoc [OF _ p]) simp_all
      with p True inv le same show ?thesis
        by (auto simp: tb_inv_def tb_allow_def tokens_now_set min_def intro!: list_all_dict_set)
    qed
  qed
qed

text \<open>A bucket that is old enough is full, so that dropping it changes nothing.\<close>

lemma tokens_now_cleanup:
  assumes "dict_wf (tb_buckets b)" and "list_all (\<lambda>(_, t, l). 0 \<le> t \<and> l \<le> now) (tb_buckets b)"
    and "of_int (tb_capacity b) \<le> age * tb_rate b" and "0 \<le> tb_rate b" and "now \<le> now'"
  shows "tokens_now now' k (tb_cleanup now age b) = tokens_now now' k b"
proof (cases "dict_get (tb_buckets b) k")
  case None
  with assms(1) show ?thesis by (simp add: tokens_now_def tb_cleanup_def dict_get_filter)
next
  case (Some e)
  obtain t l where e: "e = (t, l)" by (cases e)
  from Some have "(k, e) \<in> set (tb_buckets b)" by (rule map_of_SomeD)
  with assms(2) e have t: "0 \<le> t" by (auto simp: list_all_iff)
  show ?thesis
  proof (cases "age < now - l")
    case False
    with Some e assms(1) show ?thesis by (simp add: tokens_now_def tb_cleanup_def dict_get_filter)
  next
    case True
    have "age * tb_rate b \<le> (now' - l) * tb_rate b" using True assms(4,5) by (intro mult_right_mono) simp_all
    with assms(3) t have "of_int (tb_capacity b) \<le> t + (now' - l) * tb_rate b" by linarith
    with True Some e assms(1) show ?thesis by (simp add: tokens_now_def tb_cleanup_def dict_get_filter)
  qed
qed

lemma sweep_inv:
  assumes "tb_inv k rate cap now (b, L)" and "0 \<le> rate" and "of_int cap \<le> age * rate"
  shows "tb_inv k rate cap now (tb_step k (b, L) (Sweep now age))"
proof -
  have "tokens_now now k (tb_cleanup now age b) = tokens_now now k b"
    using assms by (intro tokens_now_cleanup) (simp_all add: tb_inv_def)
  with assms(1) show ?thesis
    by (auto simp: tb_inv_def tb_cleanup_def list_all_iff dict_wf_filter)
qed

fun long_sweep :: "rat \<Rightarrow> int \<Rightarrow> tb_op \<Rightarrow> bool" where
  "long_sweep rate cap (Ask _ _) = True"
| "long_sweep rate cap (Sweep _ age) = (of_int cap \<le> age * rate)"

lemma tb_run_inv:
  assumes "sorted (map tb_time ops)" and "list_all (long_sweep rate cap) ops" and "0 \<le> rate" and "0 \<le> cap"
    and "list_all (\<lambda>op. tb_time op \<le> now) ops"
  shows "tb_inv k rate cap now (foldl (tb_step k) (new_token_bucket rate cap, []) ops)"
  using assms
proof (induction ops arbitrary: now rule: rev_induct)
  case Nil
  then show ?case by (simp add: tb_inv_def new_token_bucket_def paid_def spans_bounded_def)
next
  case (snoc op ops)
  obtain b L where s: "foldl (tb_step k) (new_token_bucket rate cap, []) ops = (b, L)" by fastforce
  have "list_all (\<lambda>x. tb_time x \<le> tb_time op) ops" "sorted (map tb_time ops)"
    using snoc.prems(1) by (auto simp: sorted_append list_all_iff)
  with snoc s have inv: "tb_inv k rate cap (tb_time op) (b, L)" by simp
  have "tb_inv k rate cap (tb_time op) (tb_step k (b, L) op)"
  proof (cases op)
    case (Ask now key)
    with inv snoc.prems(3,4) ask_inv show ?thesis by simp
  next
    case (Sweep now age)
    with inv snoc.prems(2,3) sweep_inv show ?thesis by simp
  qed
  then show ?case
    using s snoc.prems(3,5) by (cases "tb_step k (b, L) op") (simp add: tb_inv_later)
qed

text \<open>
  C28: However the requests of any clients and the removals of stale buckets interleave, a client gets at
  most the capacity and the rate times the seconds between through, counted from any of its requests that
  was let through to any later one. The stale buckets must be old enough to be full again.
\<close>

theorem token_bucket_bound:
  assumes "sorted (map tb_time ops)" and "list_all (long_sweep rate cap) ops" and "0 \<le> rate" and "0 \<le> cap"
    and "foldl (tb_step k) (new_token_bucket rate cap, []) ops = (b, L)" and "i \<le> j" and "j < length L"
  shows "of_nat (j - i + 1) \<le> of_int cap + rate * (L ! j - L ! i)"
proof -
  have "list_all (\<lambda>op. tb_time op \<le> Max (insert 0 (tb_time ` set ops))) ops" by (auto simp: list_all_iff)
  from tb_run_inv [OF assms(1-4) this, of k] have "spans_bounded (of_int cap) rate L"
    by (simp add: tb_inv_def assms(5))
  with assms(6,7) show ?thesis by (simp add: spans_bounded_def)
qed

lemma token_bucket_bound_witness:
  "of_nat (2 - 0 + 1) \<le> of_int 2 +
     (1 :: rat) * (snd (foldl (tb_step ''a'') (new_token_bucket 1 2, [])
        [Ask 0 ''a'', Ask 0 ''b'', Ask 0 ''a'', Ask 0 ''a'', Ask 1 ''a'', Sweep 9 5, Ask 9 ''a'']) ! 2 -
      snd (foldl (tb_step ''a'') (new_token_bucket 1 2, [])
        [Ask 0 ''a'', Ask 0 ''b'', Ask 0 ''a'', Ask 0 ''a'', Ask 1 ''a'', Sweep 9 5, Ask 9 ''a'']) ! 0)"
proof -
  let ?ops = "[Ask 0 ''a'', Ask 0 ''b'', Ask 0 ''a'', Ask 0 ''a'', Ask 1 ''a'', Sweep 9 5, Ask 9 ''a'']"
  obtain b where run: "foldl (tb_step ''a'') (new_token_bucket 1 2, []) ?ops = (b, [0, 0, 1, 9])"
    by (simp add: tb_allow_def tokens_now_def new_token_bucket_def tb_cleanup_def)
  have "sorted (map tb_time ?ops)" "list_all (long_sweep 1 2) ?ops" by simp_all
  from token_bucket_bound [OF this _ _ run, of 0 2] run show ?thesis by simp
qed

text \<open>The clean-up of the application keeps five minutes, long enough for its three limiters.\<close>

lemma application_sweeps:
  "long_sweep (of_nat n) (2 * int n) (Sweep now 300)" "long_sweep 5 10 (Sweep now 300)"
  "long_sweep (10 / 60) 5 (Sweep now 300)"
  by simp_all

text \<open>A client whose requests keep the distance of the rate is never refused.\<close>

lemma patient_client_allowed:
  assumes "tb_inv k rate cap now (b, L)" and "1 \<le> cap" and "0 < rate"
    and "\<And>t l. dict_get (tb_buckets b) k = Some (t, l) \<Longrightarrow> l + 1 / rate \<le> now"
  shows "fst (tb_allow now k b)"
proof (cases "dict_get (tb_buckets b) k")
  case None
  with assms(1,2) show ?thesis by (simp add: tb_allow_def tokens_now_def tb_inv_def)
next
  case (Some e)
  obtain t l where e: "e = (t, l)" by (cases e)
  have "(k, e) \<in> set (tb_buckets b)" using Some by (rule map_of_SomeD)
  with assms(1) e have t: "0 \<le> t" by (auto simp: tb_inv_def list_all_iff)
  have "1 / rate * rate \<le> (now - l) * rate"
    using assms(3) assms(4) [of t l] Some e by (intro mult_right_mono) simp_all
  with assms(3) have "1 \<le> (now - l) * rate" by simp
  with t Some e assms(1,2) show ?thesis by (simp add: tb_allow_def tokens_now_def tb_inv_def)
qed

section \<open>Single sign-on once Redis is configured\<close>

datatype limit_op = General_Request request_env | Auth_Request request_env | Sso_Request request_env
| Cleanup rat rat

fun limit_step :: "'r redis_ops \<Rightarrow> 'r limiters \<Rightarrow> limit_op \<Rightarrow> 'r limiters" where
  "limit_step ops l (General_Request q) = snd (rate_limit ops q l)"
| "limit_step ops l (Auth_Request q) = snd (auth_rate_limit ops q l)"
| "limit_step ops l (Sso_Request q) = snd (sso_rate_limit ops q l)"
| "limit_step ops l (Cleanup now age) = snd (cleanup_all now age l)"

definition sso_without_tokens :: "'r limiters \<Rightarrow> bool" where
  "sso_without_tokens l \<longleftrightarrow> (case redis_sso l of Some s \<Rightarrow> py_int_of (sl_rate s) \<le> 0 | None \<Rightarrow> False)"

interpretation limiting: machine "limit_step ops" sso_without_tokens
proof
  fix l :: "'a limiters" and c
  assume "sso_without_tokens l"
  then show "sso_without_tokens (limit_step ops l c)"
    by (cases c)
      (auto simp: sso_without_tokens_def rate_limit_def auth_rate_limit_def sso_rate_limit_def cleanup_all_def Let_def
        split: prod.splits option.splits)
qed

lemma sso_refused:
  "sso_without_tokens l \<Longrightarrow> \<not> re_redis_fails q \<Longrightarrow> fst (sso_rate_limit ops q l) = Inl (Retry_After 30)"
  by (auto simp: sso_without_tokens_def sso_rate_limit_def sl_allow_def sliding_window_script_def Let_def
      split: option.splits prod.splits)

text \<open>
  Once Redis is configured at start, every single sign-on request is answered 429, whatever was requested
  before: ten requests a minute are given as a rate of one sixth, and the window counts up to its integer
  part. Only a failure of Redis lets a request through.
\<close>

theorem sso_refused_with_redis:
  assumes "l = foldl (limit_step ops) (start_with_redis n (initial_limiters m r)) qs" and "\<not> re_redis_fails q"
  shows "fst (sso_rate_limit ops q l) = Inl (Retry_After 30)"
proof -
  have "sso_without_tokens (start_with_redis n (initial_limiters m r))"
    by (simp add: sso_without_tokens_def start_with_redis_def set_redis_rate_limiters_def py_int_of_def)
  then have "sso_without_tokens l" unfolding assms(1) by (rule limiting.inv_run)
  then show ?thesis using assms(2) by (rule sso_refused)
qed

section \<open>Sliding windows\<close>

text \<open>The requests of any clients at a limiter, with the times one of them was let through.\<close>

fun limiter_step :: "'r redis_ops \<Rightarrow> sliding_limiter \<Rightarrow> string \<Rightarrow> 'r \<times> rat list \<Rightarrow> rat \<times> string \<Rightarrow> 'r \<times> rat list" where
  "limiter_step ops l k (r, L) (now, key) =
     (case sl_allow ops False now key l r of (ok, r') \<Rightarrow> (r', if ok \<and> key = k then L @ [now] else L))"

text \<open>
  What the script relies on of Redis: a sorted set holds each member with its score, \<open>INCR\<close> counts up from
  zero, and a time to live that is longer than the window takes nothing out of the window.
\<close>

locale sorted_sets =
  fixes ops :: "'r redis_ops"
    and members :: "'r \<Rightarrow> string \<Rightarrow> (string \<times> rat) set"
    and counter :: "'r \<Rightarrow> string \<Rightarrow> int"
    and empty :: 'r
  assumes members_empty: "members empty k = {}"
    and zrem: "members (zremrangebyscore ops k m r) k' = (if k' = k then {e \<in> members r k. m < snd e} else members r k')"
    and zrem_counter: "counter (zremrangebyscore ops k m r) c = counter r c"
    and zcard: "zcard ops k r = card (members r k)"
    and zadd: "members (zadd ops k s x r) k' =
      (if k' = k then insert (x, s) {e \<in> members r k. fst e \<noteq> x} else members r k')"
    and zadd_counter: "counter (zadd ops k s x r) c = counter r c"
    and incr_value: "fst (incr ops c r) = counter r c + 1"
    and incr_counter: "counter (snd (incr ops c r)) c' = (if c' = c then counter r c + 1 else counter r c')"
    and incr_members: "members (snd (incr ops c r)) k = members r k"
    and expire: "members (expire ops k n r) k' = members r k'" "counter (expire ops k n r) c = counter r c"
    and no_colon: "CHR '':'' \<notin> set (number_text ops t)"
    and counter_empty: "counter empty k = 0"
begin

text \<open>A window with the times of the requests it let through; each entry has a number of its own.\<close>

definition member_of :: "nat \<Rightarrow> rat \<Rightarrow> string" where
  "member_of i t = colon_join (number_text ops t) (int_to_string (int i + 1))"

definition entries :: "rat list \<Rightarrow> (string \<times> rat) list" where
  "entries L = map (\<lambda>i. (member_of i (L ! i), L ! i)) [0..<length L]"

lemma member_of_inj: "member_of i t = member_of j u \<Longrightarrow> i = j"
proof -
  assume "member_of i t = member_of j u"
  then have "int_to_string (int i + 1) = int_to_string (int j + 1)"
    unfolding member_of_def using colon_join_first no_colon by blast
  then have "nat_to_string (Suc i) = nat_to_string (Suc j)" by (simp add: int_to_string_def nat_add_distrib)
  then show "i = j" using digits_value_nat_to_string by (metis Suc_inject)
qed

lemma entries_snoc: "entries (L @ [t]) = entries L @ [(member_of (length L) t, t)]"
  by (simp add: entries_def nth_append)

lemma member_fresh: "(x, s) \<in> set (entries L) \<Longrightarrow> x \<noteq> member_of (length L) t"
  by (auto simp: entries_def dest: member_of_inj)

lemma card_entries: "card {e \<in> set (entries L). m < snd e} = length (filter ((<) m) L)"
proof -
  have "distinct (entries L)"
    by (auto simp: entries_def distinct_map inj_on_def dest: member_of_inj)
  then have "card (set (filter (\<lambda>e. m < snd e) (entries L))) = length (filter (\<lambda>e. m < snd e) (entries L))"
    by (intro distinct_card) simp
  also have "\<dots> = length (filter ((<) m) (map snd (entries L)))" by (simp add: filter_map comp_def)
  also have "map snd (entries L) = L" by (simp add: entries_def comp_def map_nth)
  finally show ?thesis by simp
qed

definition window_inv :: "string \<Rightarrow> rat \<Rightarrow> nat \<Rightarrow> rat \<Rightarrow> 'r \<times> rat list \<Rightarrow> bool" where
  "window_inv key window limit now s \<longleftrightarrow>
     (case s of (r, L) \<Rightarrow>
        counter r (key @ '':seq'') = int (length L) \<and> list_all (\<lambda>t. t \<le> now) L \<and> sorted L \<and>
        (\<exists>edge \<le> now - window. members r key = {e \<in> set (entries L). edge < snd e}) \<and>
        (\<forall>i. i + limit < length L \<longrightarrow> L ! i + window \<le> L ! (i + limit)))"

lemma window_inv_empty: "window_inv key window limit now (empty, [])"
  by (auto simp: window_inv_def members_empty counter_empty entries_def)

lemma window_invI:
  assumes "counter r (key @ '':seq'') = int (length L)" and "list_all (\<lambda>t. t \<le> now) L" and "sorted L"
    and "edge \<le> now - window" and "members r key = {e \<in> set (entries L). edge < snd e}"
    and "\<And>i. i + limit < length L \<Longrightarrow> L ! i + window \<le> L ! (i + limit)"
  shows "window_inv key window limit now (r, L)"
  unfolding window_inv_def prod.case using assms by (intro conjI exI [of _ edge]) simp_all

lemma window_inv_later:
  assumes "window_inv key window limit now s" and "now \<le> now'"
  shows "window_inv key window limit now' s"
proof -
  obtain r L where s: "s = (r, L)" by (cases s)
  obtain edge where "edge \<le> now - window" "members r key = {e \<in> set (entries L). edge < snd e}"
    using assms(1) by (auto simp: window_inv_def s)
  with assms show ?thesis
    unfolding s by (intro window_invI [of r key L now' edge]) (auto simp: window_inv_def list_all_iff s)
qed

lemma full_window:
  assumes "sorted L" and "i + limit = length L" and "length (filter ((<) m) L) < limit"
  shows "L ! i \<le> m"
proof (rule ccontr)
  assume "\<not> L ! i \<le> m"
  then have m: "m < L ! i" by simp
  have "m < t" if "t \<in> set (drop i L)" for t
  proof -
    from that obtain j where "t = L ! (i + j)" "i + j < length L" by (auto simp: in_set_conv_nth)
    with sorted_nth_mono [OF assms(1), of i "i + j"] m show ?thesis by simp
  qed
  then have "length (filter ((<) m) (drop i L)) = limit" using assms(2) by (simp add: filter_id_conv)
  moreover have "length (filter ((<) m) (drop i L)) \<le> length (filter ((<) m) L)"
    by (subst (2) append_take_drop_id [of i L, symmetric]) (simp only: filter_append length_append)
  ultimately show False using assms(3) by simp
qed

lemma script_inv:
  assumes inv: "window_inv key window limit now (r, L)" and w: "0 < window"
    and run: "sliding_window_script ops key window (int limit) now r = (n, r')"
  shows "window_inv key window limit now (r', if n = 1 then L @ [now] else L)"
proof -
  let ?m = "now - window"
  let ?r1 = "zremrangebyscore ops key ?m r"
  obtain edge where edge: "edge \<le> ?m" "members r key = {e \<in> set (entries L). edge < snd e}"
    using inv by (auto simp: window_inv_def)
  have "edge < snd e \<and> ?m < snd e \<longleftrightarrow> ?m < snd e" for e :: "string \<times> rat" using edge(1) by linarith
  then have m1: "members ?r1 key = {e \<in> set (entries L). ?m < snd e}" by (simp add: zrem edge(2) conj_assoc)
  then have card: "zcard ops key ?r1 = length (filter ((<) ?m) L)" by (simp add: zcard card_entries)
  show ?thesis
  proof (cases "length (filter ((<) ?m) L) < limit")
    case False
    with run card have "n = 0" "r' = ?r1" by (simp_all add: sliding_window_script_def Let_def)
    with inv m1 show ?thesis by (intro window_invI [where edge = ?m]) (simp_all add: window_inv_def zrem_counter)
  next
    case True
    obtain q r2 where i: "incr ops (key @ '':seq'') ?r1 = (q, r2)" by fastforce
    have q: "q = int (length L) + 1" and c2: "counter r2 (key @ '':seq'') = int (length L) + 1"
      using incr_value [of "key @ '':seq''" ?r1] incr_counter [of "key @ '':seq''" ?r1 "key @ '':seq''"] inv i
      by (simp_all add: window_inv_def zrem_counter)
    let ?x = "member_of (length L) now"
    have n: "n = 1" and r': "r' = expire ops key (\<lceil>window\<rceil> + 1) (zadd ops key now ?x r2)"
      using run card True i q by (simp_all add: sliding_window_script_def Let_def member_of_def)
    have "members r2 key = members ?r1 key" using incr_members [of "key @ '':seq''" ?r1 key] i by simp
    then have "members r' key = insert (?x, now) {e \<in> {e \<in> set (entries L). ?m < snd e}. fst e \<noteq> ?x}"
      by (simp add: r' expire zadd m1)
    also have "\<dots> = insert (?x, now) {e \<in> set (entries L). ?m < snd e}"
      by (rule arg_cong [where f = "insert (?x, now)"]) (auto dest: member_fresh)
    also have "\<dots> = {e \<in> set (entries (L @ [now])). ?m < snd e}"
      unfolding entries_snoc using w by auto
    finally have m': "members r' key = {e \<in> set (entries (L @ [now])). ?m < snd e}" .
    have "(L @ [now]) ! j + window \<le> (L @ [now]) ! (j + limit)" if "j + limit < length (L @ [now])" for j
    proof (cases "j + limit < length L")
      case True
      with inv show ?thesis by (simp add: window_inv_def nth_append)
    next
      case False
      with that have "j + limit = length L" by simp
      moreover from this True inv have "L ! j \<le> ?m" by (intro full_window) (simp_all add: window_inv_def)
      ultimately show ?thesis using True by (simp add: nth_append)
    qed
    moreover have "counter r' (key @ '':seq'') = int (length (L @ [now]))" by (simp add: r' expire zadd_counter c2)
    moreover have "list_all (\<lambda>t. t \<le> now) (L @ [now])" "sorted (L @ [now])"
      using inv by (simp_all add: window_inv_def list_all_iff sorted_append)
    ultimately show ?thesis using n m' by (simp del: length_append) (rule window_invI [where edge = ?m]; simp)
  qed
qed

lemma script_other:
  assumes "window_inv key window limit now (r, L)" and "key' \<noteq> key"
  shows "window_inv key window limit now (snd (sliding_window_script ops key' window' limit' now' r), L)"
proof -
  let ?r1 = "zremrangebyscore ops key' (now' - window') r"
  obtain n r2 where i: "incr ops (key' @ '':seq'') ?r1 = (n, r2)" by fastforce
  have "members r2 key = members r key" "counter r2 (key @ '':seq'') = counter r (key @ '':seq'')"
    using incr_members [of "key' @ '':seq''" ?r1 key] incr_counter [of "key' @ '':seq''" ?r1 "key @ '':seq''"]
      i assms(2) by (simp_all add: zrem zrem_counter)
  then have "members (snd (sliding_window_script ops key' window' limit' now' r)) key = members r key"
    "counter (snd (sliding_window_script ops key' window' limit' now' r)) (key @ '':seq'') = counter r (key @ '':seq'')"
    using assms(2) i
    by (simp_all add: sliding_window_script_def Let_def zrem zrem_counter zadd zadd_counter expire)
  with assms(1) show ?thesis by (simp add: window_inv_def)
qed

lemma limiter_step_inv:
  assumes "window_inv (sl_prefix l @ k) (sl_window l) limit now (r, L)" and "0 < sl_window l"
    and "py_int_of (sl_rate l) = int limit"
  shows "window_inv (sl_prefix l @ k) (sl_window l) limit now (limiter_step ops l k (r, L) (now, key))"
proof -
  obtain n r' where run: "sliding_window_script ops (sl_prefix l @ key) (sl_window l) (int limit) now r = (n, r')"
    by fastforce
  show ?thesis
  proof (cases "key = k")
    case True
    with script_inv [OF assms(1,2)] run assms(3) show ?thesis by (auto simp: sl_allow_def)
  next
    case False
    with script_other [OF assms(1), of "sl_prefix l @ key" "sl_window l" "int limit" now] run assms(3)
    show ?thesis by (simp add: sl_allow_def)
  qed
qed

lemma sliding_window_bound:
  assumes "sorted (map fst qs)" and "0 < sl_window l" and "py_int_of (sl_rate l) = int limit"
    and "foldl (limiter_step ops l k) (empty, []) qs = (r, L)" and "i + limit < length L"
  shows "L ! i + sl_window l \<le> L ! (i + limit)"
proof -
  have "window_inv (sl_prefix l @ k) (sl_window l) limit now (foldl (limiter_step ops l k) (empty, []) qs)"
    if "list_all (\<lambda>q. fst q \<le> now) qs" for now
    using assms(1) that
  proof (induction qs arbitrary: now rule: rev_induct)
    case (snoc q qs)
    obtain t key where q: "q = (t, key)" by (cases q)
    obtain r L where s: "foldl (limiter_step ops l k) (empty, []) qs = (r, L)" by fastforce
    have "list_all (\<lambda>x. fst x \<le> t) qs" "sorted (map fst qs)"
      using snoc.prems(1) by (auto simp: sorted_append list_all_iff q)
    with snoc.IH s have "window_inv (sl_prefix l @ k) (sl_window l) limit t (r, L)" by simp
    from limiter_step_inv [OF this assms(2,3), of key] s snoc.prems(2) show ?case by (simp add: q window_inv_later)
  qed (simp add: window_inv_empty)
  from this [of "Max (insert 0 (fst ` set qs))"] show ?thesis
    using assms(4,5) by (auto simp: window_inv_def list_all_iff)
qed

end

text \<open>Redis as tables: the sets by name, and the counters.\<close>

record redis_tables =
  rt_sets :: "(string, (string, rat) dict) dict"
  rt_counters :: "(string, int) dict"

definition table_redis :: "redis_tables redis_ops" where
  "table_redis =
     \<lparr>zremrangebyscore = (\<lambda>k m r. r\<lparr>rt_sets := dict_set k (filter (\<lambda>e. m < snd e) (dict_get_or (rt_sets r) k [])) (rt_sets r)\<rparr>),
      zcard = (\<lambda>k r. length (remdups (dict_get_or (rt_sets r) k []))),
      zadd = (\<lambda>k s x r. r\<lparr>rt_sets := dict_set k ((x, s) # dict_del x (dict_get_or (rt_sets r) k [])) (rt_sets r)\<rparr>),
      incr = (\<lambda>c r. let n = dict_get_or (rt_counters r) c 0 + 1 in (n, r\<lparr>rt_counters := dict_set c n (rt_counters r)\<rparr>)),
      expire = (\<lambda>_ _ r. r),
      number_text = (\<lambda>t. nat_to_string (nat \<lfloor>t\<rfloor>))\<rparr>"

interpretation redis: sorted_sets table_redis
  "\<lambda>r k. set (dict_get_or (rt_sets r) k [])" "\<lambda>r c. dict_get_or (rt_counters r) c 0"
  "\<lparr>rt_sets = [], rt_counters = []\<rparr>"
proof unfold_locales
  fix t :: rat
  show "CHR '':'' \<notin> set (number_text table_redis t)"
    using nat_to_string_digits [of "nat \<lfloor>t\<rfloor>"] by (auto simp: table_redis_def is_ascii_digit_def code_def)
qed (auto simp: table_redis_def Let_def dict_del_def length_remdups_card_conv dict_get_or_def)

text \<open>
  With clocks that agree, any limit and one requests that the sliding window lets through for a client
  span at least the window.
\<close>

theorem redis_window_bound:
  assumes "sorted_sets ops members counter r0" and "sorted (map fst qs)" and "0 < sl_window l"
    and "py_int_of (sl_rate l) = int limit"
    and "foldl (limiter_step ops l k) (r0, []) qs = (r, L)" and "i + limit < length L"
  shows "L ! i + sl_window l \<le> L ! (i + limit)"
  using sorted_sets.sliding_window_bound [OF assms] .

lemma nat_to_string_digit: "n < 10 \<Longrightarrow> nat_to_string n = [char_of (48 + n)]"
  by (subst nat_to_string.simps) simp

lemma redis_window_bound_witness:
  "snd (foldl (limiter_step table_redis \<lparr>sl_rate = 2, sl_window = 1, sl_prefix = ''rl:''\<rparr> ''a'')
      (\<lparr>rt_sets = [], rt_counters = []\<rparr>, []) [(0, ''a''), (0, ''a''), (0, ''b''), (0, ''a''), (1, ''a'')]) ! 0 + 1 \<le>
   snd (foldl (limiter_step table_redis \<lparr>sl_rate = 2, sl_window = 1, sl_prefix = ''rl:''\<rparr> ''a'')
      (\<lparr>rt_sets = [], rt_counters = []\<rparr>, []) [(0, ''a''), (0, ''a''), (0, ''b''), (0, ''a''), (1, ''a'')]) ! 2"
proof -
  let ?l = "\<lparr>sl_rate = 2, sl_window = 1, sl_prefix = ''rl:''\<rparr>"
  let ?qs = "[(0 :: rat, ''a''), (0, ''a''), (0, ''b''), (0, ''a''), (1, ''a'')]"
  obtain r where run: "foldl (limiter_step table_redis ?l ''a'') (\<lparr>rt_sets = [], rt_counters = []\<rparr>, []) ?qs = (r, [0, 0, 1])"
    by (simp add: sl_allow_def sliding_window_script_def table_redis_def Let_def dict_get_or_def py_int_of_def
        dict_del_def colon_join_def int_to_string_def nat_to_string_digit)
  have "sorted (map fst ?qs)" "0 < sl_window ?l" "py_int_of (sl_rate ?l) = int 2" by (simp_all add: py_int_of_def)
  from redis_window_bound [OF redis.sorted_sets_axioms this run, of 0] run show ?thesis by simp
qed

lemma sso_refused_with_redis_witness:
  "fst (sso_rate_limit table_redis \<lparr>re_monotonic = 100, re_time = 100, re_redis_fails = False, re_client = Some ''h''\<rparr>
      (foldl (limit_step table_redis) (start_with_redis 100 (initial_limiters 100 \<lparr>rt_sets = [], rt_counters = []\<rparr>)) []))
    = Inl (Retry_After 30)"
  by (rule sso_refused_with_redis [OF refl]) simp

section \<open>The limiter of content analysis\<close>

lemma evict_lru_room: "evict_lru m d = Some d' \<Longrightarrow> length d' < m"
  by (induction m d rule: evict_lru.induct) (auto split: if_splits)

lemma evict_lru_suffix: "evict_lru m d = Some d' \<Longrightarrow> \<exists>p. d = p @ d'"
  by (induction m d rule: evict_lru.induct) (auto split: if_splits intro: exI [of _ "[]"] exI [of _ "_ # _"])

definition bucket_ok :: "rat \<Rightarrow> rat \<Rightarrow> content_bucket \<Rightarrow> bool" where
  "bucket_ok burst rate b \<longleftrightarrow> cb_tokens b \<le> cb_capacity b \<and> cb_capacity b = burst \<and> cb_rate b = rate"

definition content_ok :: "content_limiter \<Rightarrow> bool" where
  "content_ok l \<longleftrightarrow> dict_wf (cl_buckets l) \<and> tenant_count l \<le> cl_max_tenants l \<and>
     list_all (\<lambda>(_, b). bucket_ok (cl_burst l) (cl_rate l) b) (cl_buckets l)"

text \<open>The tenants tracked stay within the limit and no bucket holds more than the burst.\<close>

lemma refill_ok: "bucket_ok burst rate b \<Longrightarrow> bucket_ok burst rate (refill now b)"
  by (simp add: bucket_ok_def refill_def Let_def)

lemma consume_ok: "bucket_ok burst rate b \<Longrightarrow> 0 \<le> n \<Longrightarrow> bucket_ok burst rate (b\<lparr>cb_tokens := cb_tokens b - n\<rparr>)"
  by (simp add: bucket_ok_def)

lemma get_or_create_ok:
  assumes "content_ok l" and "get_or_create now t l = Some (b, l1)"
  shows "content_ok l1 \<and> dict_get (cl_buckets l1) t = Some b \<and> cl_burst l1 = cl_burst l \<and> cl_rate l1 = cl_rate l"
proof (cases "dict_get (cl_buckets l) t")
  case (Some b')
  with assms show ?thesis by (simp add: get_or_create_def)
next
  case None
  then obtain d where d: "evict_lru (cl_max_tenants l) (cl_buckets l) = Some d"
    using assms(2) by (auto simp: get_or_create_def split: option.splits)
  obtain p where p: "cl_buckets l = p @ d" using evict_lru_suffix [OF d] by auto
  have "t \<notin> set (dict_keys d)" using None p by (simp add: map_of_eq_None_iff)
  then have s: "dict_set t b d = d @ [(t, b)]" by (rule dict_set_fresh)
  have wf: "dict_wf d" using assms(1) p by (simp add: content_ok_def dict_wf_def)
  have l1: "l1 = l\<lparr>cl_buckets := dict_set t b d\<rparr>"
    and b: "b = \<lparr>cb_tokens = cl_burst l, cb_last_refill = now, cb_capacity = cl_burst l, cb_rate = cl_rate l\<rparr>"
    using assms(2) d None by (auto simp: get_or_create_def Let_def)
  have "content_ok l1"
    using assms(1) wf p evict_lru_room [OF d] dict_wf_set [OF wf, of t b]
    by (simp add: l1 content_ok_def tenant_count_def s) (simp add: b bucket_ok_def)
  then show ?thesis by (simp add: l1)
qed

lemma content_allow_ok:
  assumes "content_ok l" and "content_allow now now' t n l = Some (ok, l')" and "0 \<le> n"
  shows "content_ok l'"
proof -
  obtain b l1 where g: "get_or_create now t l = Some (b, l1)"
    using assms(2) by (auto simp: content_allow_def split: option.splits)
  from get_or_create_ok [OF assms(1) g]
  have ok1: "content_ok l1" and get: "dict_get (cl_buckets l1) t = Some b" by simp_all
  then have mem: "(t, b) \<in> set (cl_buckets l1)" by (auto dest: map_of_SomeD)
  then have b: "bucket_ok (cl_burst l1) (cl_rate l1) b"
    using ok1 by (auto simp: content_ok_def list_all_iff)
  have len: "length (dict_set t v (cl_buckets l1)) = length (cl_buckets l1)" for v
    using mem by (force simp: length_dict_set)
  have "length (move_to_end t v (cl_buckets l1)) \<le> cl_max_tenants l1" for v
  proof -
    have "length (filter (\<lambda>(k, _). k \<noteq> t) (cl_buckets l1)) < length (cl_buckets l1)"
      by (rule length_filter_less [OF mem]) simp
    with ok1 show ?thesis by (simp add: move_to_end_def dict_del_def content_ok_def tenant_count_def)
  qed
  moreover have "dict_wf (move_to_end t v (cl_buckets l1))" for v
    using ok1 by (auto simp: move_to_end_def content_ok_def dict_wf_def dict_del_def distinct_map_filter)
  moreover have "list_all (\<lambda>(_, b). bucket_ok (cl_burst l1) (cl_rate l1) b) (move_to_end t v (cl_buckets l1))"
    if "bucket_ok (cl_burst l1) (cl_rate l1) v" for v
    using ok1 that by (auto simp: move_to_end_def dict_del_def content_ok_def list_all_iff)
  ultimately show ?thesis
    using assms(2,3) g ok1 refill_ok [OF b, of now'] len
    by (auto simp: content_allow_def content_ok_def tenant_count_def Let_def consume_ok
        intro!: list_all_dict_set intro: order_trans split: if_splits)
qed

text \<open>
  An evicted tenant starts over with a full bucket. A refused tenant keeps its place in the order of
  eviction, so that the others push out the one that is over its limit.
\<close>

lemma evicted_tenant_starts_over:
  defines "l0 \<equiv> new_content_limiter 1 None 2"
  shows "Option.bind (content_allow 0 0 ''t'' 1 l0) (\<lambda>(_, l1).
     Option.bind (content_allow 0 0 ''v'' 1 l1) (\<lambda>(_, l2).
     Option.bind (content_allow 0 0 ''t'' 1 l2) (\<lambda>(first, l3).
     Option.bind (content_allow 0 0 ''u'' 1 l3) (\<lambda>(_, l4).
     Option.bind (content_allow 0 0 ''t'' 1 l4) (\<lambda>(second, _). Some (first, second)))))) = Some (False, True)"
  by (simp add: l0_def new_content_limiter_def content_allow_def get_or_create_def refill_def Let_def
      move_to_end_def dict_del_def)

end
