(* ===== verification/Ws_Alerts.thy ===== *)
theory Ws_Alerts
  imports Alerting Rate_Limits
begin

text \<open>
  The WebSocket side of alerting: the tickets of \<open>backend/app/services/ws_ticket.py\<close>, the connections of
  \<open>backend/engine/alerting/ws_manager.py\<close> over the broadcaster of \<open>Alerting\<close>, and the endpoints of
  \<open>backend/app/routers/ws.py\<close>. A socket is a name; whether it takes a message, the JSON parser and the
  JWT library are parameters.
\<close>

section \<open>Tickets\<close>

definition TICKET_TTL_SECONDS :: rat where
  "TICKET_TTL_SECONDS = 30"

definition MAX_PENDING_TICKETS :: nat where
  "MAX_PENDING_TICKETS = 10000"

record ws_ticket =
  wt_ticket :: string
  wt_tenant :: string
  wt_user :: string
  wt_role :: string
  wt_created :: rat

type_synonym ticket_store = "(string, ws_ticket) dict"

definition is_expired :: "rat \<Rightarrow> ws_ticket \<Rightarrow> bool" where
  "is_expired now t \<longleftrightarrow> TICKET_TTL_SECONDS < now - wt_created t"

definition purge_expired :: "rat \<Rightarrow> ticket_store \<Rightarrow> ticket_store" where
  "purge_expired now st = filter (\<lambda>(_, t). \<not> TICKET_TTL_SECONDS < now - wt_created t) st"

text \<open>Each operation reads the clock twice; \<open>new\<close> is the random ticket. \<open>None\<close> is the \<open>RuntimeError\<close>.\<close>

definition create_ticket :: "rat \<Rightarrow> rat \<Rightarrow> string \<Rightarrow> string \<Rightarrow> string \<Rightarrow> string \<Rightarrow> ticket_store \<Rightarrow>
    string option \<times> ticket_store" where
  "create_ticket now now' new tenant user role st =
     (let st1 = purge_expired now st
      in if MAX_PENDING_TICKETS \<le> length st1 then (None, st1)
         else (Some new, dict_set new
                \<lparr>wt_ticket = new, wt_tenant = tenant, wt_user = user, wt_role = role, wt_created = now'\<rparr> st1))"

definition consume_ticket :: "rat \<Rightarrow> rat \<Rightarrow> string \<Rightarrow> ticket_store \<Rightarrow> ws_ticket option \<times> ticket_store" where
  "consume_ticket now now' s st =
     (let st1 = purge_expired now st; st2 = dict_del s st1
      in case dict_get st1 s of
           None \<Rightarrow> (None, st2)
         | Some t \<Rightarrow> (if is_expired now' t then None else Some t, st2))"

definition pending_count :: "rat \<Rightarrow> ticket_store \<Rightarrow> nat \<times> ticket_store" where
  "pending_count now st = (let st1 = purge_expired now st in (length st1, st1))"

section \<open>Connections\<close>

datatype ws_message = Alert_Message payload | Connected string string | Heartbeat | Pong

record ws_manager =
  connections :: "(string, string) dict"
  connection_tenants :: "(string, string) dict"
  total_connections :: nat
  total_messages_sent :: nat
  total_rejected :: nat
  max_per_tenant :: nat
  ws_subscribers :: subscribers
  delivered :: "(string \<times> ws_message) list"

definition new_ws_manager :: "nat \<Rightarrow> ws_manager" where
  "new_ws_manager limit =
     \<lparr>connections = [], connection_tenants = [], total_connections = 0, total_messages_sent = 0, total_rejected = 0,
      max_per_tenant = limit, ws_subscribers = [], delivered = []\<rparr>"

definition disconnect :: "string \<Rightarrow> ws_manager \<Rightarrow> ws_manager" where
  "disconnect cid m =
     (let tenant = dict_get (connection_tenants m) cid;
          m1 = m\<lparr>connection_tenants := dict_del cid (connection_tenants m), connections := dict_del cid (connections m)\<rparr>
      in case tenant of
           None \<Rightarrow> m1
         | Some t \<Rightarrow> if t = [] then m1 else m1\<lparr>ws_subscribers := unsubscribe t cid (ws_subscribers m1)\<rparr>)"

text \<open>\<open>up w d\<close>: the socket takes the message; otherwise sending raises and the connection is dropped.\<close>

definition send_json :: "(string \<Rightarrow> ws_message \<Rightarrow> bool) \<Rightarrow> string \<Rightarrow> ws_message \<Rightarrow> ws_manager \<Rightarrow> ws_manager" where
  "send_json up cid d m =
     (case dict_get (connections m) cid of
        None \<Rightarrow> m
      | Some w \<Rightarrow>
          if up w d then m\<lparr>delivered := delivered m @ [(w, d)], total_messages_sent := total_messages_sent m + 1\<rparr>
          else disconnect cid m)"

definition tenant_connections :: "string \<Rightarrow> ws_manager \<Rightarrow> nat" where
  "tenant_connections tenant m = length (filter (\<lambda>t. t = tenant) (dict_values (connection_tenants m)))"

text \<open>
  \<open>connect\<close> counts the connections, waits for the handshake, and registers the connection: two steps
  between which other requests run. The first refuses at the limit.
\<close>

definition connect_check :: "string \<Rightarrow> ws_manager \<Rightarrow> bool \<times> ws_manager" where
  "connect_check tenant m =
     (if max_per_tenant m \<le> tenant_connections tenant m
      then (False, m\<lparr>total_rejected := total_rejected m + 1\<rparr>) else (True, m))"

definition connect_register :: "(string \<Rightarrow> ws_message \<Rightarrow> bool) \<Rightarrow> string \<Rightarrow> string \<Rightarrow> string \<Rightarrow> ws_manager \<Rightarrow> ws_manager" where
  "connect_register up cid w tenant m =
     send_json up cid (Connected cid tenant)
       (m\<lparr>connections := dict_set cid w (connections m),
          connection_tenants := dict_set cid tenant (connection_tenants m),
          total_connections := total_connections m + 1,
          ws_subscribers := subscribe tenant cid cid (ws_subscribers m)\<rparr>)"

definition connect :: "(string \<Rightarrow> ws_message \<Rightarrow> bool) \<Rightarrow> string \<Rightarrow> string \<Rightarrow> string \<Rightarrow> ws_manager \<Rightarrow> bool \<times> ws_manager" where
  "connect up cid w tenant m =
     (case connect_check tenant m of (ok, m1) \<Rightarrow> if ok then (True, connect_register up cid w tenant m1) else (False, m1))"

text \<open>The callback a connection registered never raises: every subscriber is counted as notified.\<close>

definition ws_broadcast :: "(string \<Rightarrow> ws_message \<Rightarrow> bool) \<Rightarrow> string \<Rightarrow> payload \<Rightarrow> ws_manager \<Rightarrow> nat \<times> ws_manager" where
  "ws_broadcast up tenant p m =
     (let subs = dict_get_or (ws_subscribers m) tenant []
      in (length subs, foldl (\<lambda>m (_, cid). send_json up cid (Alert_Message p) m) m subs))"

text \<open>A client's message: \<open>None\<close> when it is JSON but no object, which raises \<open>AttributeError\<close>.\<close>

definition handle_client_message :: "(string \<Rightarrow> pval option) \<Rightarrow> (string \<Rightarrow> ws_message \<Rightarrow> bool) \<Rightarrow> string \<Rightarrow> string \<Rightarrow>
    ws_manager \<Rightarrow> ws_manager option" where
  "handle_client_message json_loads up cid raw m =
     (case json_loads raw of
        None \<Rightarrow> Some m
      | Some (VDict d) \<Rightarrow> Some (if dict_get_or d ''type'' (VStr []) = VStr ''ping'' then send_json up cid Pong m else m)
      | Some _ \<Rightarrow> None)"

fun client_loop :: "(string \<Rightarrow> pval option) \<Rightarrow> (string \<Rightarrow> ws_message \<Rightarrow> bool) \<Rightarrow> string \<Rightarrow> string list \<Rightarrow>
    ws_manager \<Rightarrow> bool \<times> ws_manager" where
  "client_loop json_loads up cid [] m = (True, m)"
| "client_loop json_loads up cid (raw # raws) m =
     (case handle_client_message json_loads up cid raw m of
        None \<Rightarrow> (False, m)
      | Some m' \<Rightarrow> client_loop json_loads up cid raws m')"

text \<open>The life of a connection with the messages the client sends before it goes; whether it ends without an error.\<close>

definition handle_connection :: "(string \<Rightarrow> pval option) \<Rightarrow> (string \<Rightarrow> ws_message \<Rightarrow> bool) \<Rightarrow> string \<Rightarrow> string \<Rightarrow>
    string \<Rightarrow> string list \<Rightarrow> ws_manager \<Rightarrow> bool \<times> ws_manager" where
  "handle_connection json_loads up cid w tenant raws m =
     (case connect up cid w tenant m of
        (False, m1) \<Rightarrow> (True, m1)
      | (True, m1) \<Rightarrow> (case client_loop json_loads up cid raws m1 of (fine, m2) \<Rightarrow> (fine, disconnect cid m2)))"

definition heartbeat :: "(string \<Rightarrow> ws_message \<Rightarrow> bool) \<Rightarrow> string \<Rightarrow> ws_manager \<Rightarrow> ws_manager" where
  "heartbeat up cid m = (if dict_get (connections m) cid \<noteq> None then send_json up cid Heartbeat m else m)"

definition active_connections :: "ws_manager \<Rightarrow> nat" where
  "active_connections m = length (connections m)"

definition ws_stats :: "ws_manager \<Rightarrow> nat list" where
  "ws_stats m =
     [length (connections m), total_connections m, total_messages_sent m, total_rejected m, max_per_tenant m,
      length (remdups (dict_values (connection_tenants m)))]"

section \<open>Endpoints\<close>

datatype jwt_error = Token_Expired | Token_Invalid

datatype ws_close = Rate_Exceeded | Bad_Ticket | Legacy_Disabled | Bad_Token jwt_error | Missing_Parameter
| Missing_Tenant | Unavailable

record ws_app =
  ws_limiter :: token_bucket
  ws_tickets :: ticket_store
  legacy_enabled :: bool
  manager_ready :: bool

text \<open>
  \<open>ws_alerts\<close> up to the manager: the tenant and user of the connection, or why it is closed. The module
  took the Redis limiter when it was imported, before there was one, so the bucket in memory decides.
\<close>

definition ws_alerts :: "(string \<Rightarrow> jwt_error + (string \<times> string)) \<Rightarrow> rat \<Rightarrow> rat \<Rightarrow> rat \<Rightarrow> string option \<Rightarrow>
    string option \<Rightarrow> string option \<Rightarrow> ws_app \<Rightarrow> (ws_close + (string \<times> string)) \<times> ws_app" where
  "ws_alerts decode tick now now' client ticket token a =
     (let client_ip = (case client of Some h \<Rightarrow> h | None \<Rightarrow> ''unknown'');
          (allowed, b) = tb_allow tick (''ws:'' @ client_ip) (ws_limiter a);
          a1 = a\<lparr>ws_limiter := b\<rparr>;
          ready = (\<lambda>tenant user. if tenant = [] then Inl Missing_Tenant
                     else if \<not> manager_ready a then Inl Unavailable else Inr (tenant, user))
      in if \<not> allowed then (Inl Rate_Exceeded, a1)
         else case ticket of
           Some (c # s) \<Rightarrow>
             (case consume_ticket now now' (c # s) (ws_tickets a1) of
                (None, st) \<Rightarrow> (Inl Bad_Ticket, a1\<lparr>ws_tickets := st\<rparr>)
              | (Some t, st) \<Rightarrow> (ready (wt_tenant t) (wt_user t), a1\<lparr>ws_tickets := st\<rparr>))
         | _ \<Rightarrow>
             (case token of
                Some (c # s) \<Rightarrow>
                  (if \<not> legacy_enabled a then (Inl Legacy_Disabled, a1)
                   else (case decode (c # s) of
                           Inl e \<Rightarrow> (Inl (Bad_Token e), a1)
                         | Inr (tenant, user) \<Rightarrow> (ready tenant user, a1)))
              | _ \<Rightarrow> (Inl Missing_Parameter, a1)))"

datatype ticket_reply = Missing_Tenant_403 | Too_Many_429 | Ticket string nat

definition create_ws_ticket :: "rat \<Rightarrow> rat \<Rightarrow> string \<Rightarrow> string \<Rightarrow> string \<Rightarrow> string \<Rightarrow> ticket_store \<Rightarrow> ticket_reply \<times> ticket_store" where
  "create_ws_ticket now now' new tenant user role st =
     (if tenant = [] then (Missing_Tenant_403, st)
      else case create_ticket now now' new tenant user role st of
             (None, st') \<Rightarrow> (Too_Many_429, st')
           | (Some s, st') \<Rightarrow> (Ticket s 30, st'))"

text \<open>The manager has no attribute \<open>connections\<close>, so that the status counts none.\<close>

definition ws_status :: "ws_manager option \<Rightarrow> string \<times> nat" where
  "ws_status manager = (case manager of None \<Rightarrow> (''not_initialized'', 0) | Some _ \<Rightarrow> (''active'', 0))"

end
