(* ===== verification/Ws_Alerts_Props.thy ===== *)
theory Ws_Alerts_Props
  imports Ws_Alerts
begin

text \<open>
  What the WebSocket side promises: a ticket opens one connection, within its time, for the user it was
  made for; the tables of the manager and of the broadcaster agree, so that an alert reaches the
  connections of its tenant and no others; the limit of connections is exceeded by no more than the
  handshakes that overlap.
\<close>

section \<open>Tickets\<close>

datatype ticket_op = Create rat rat string string string string | Consume rat rat string | Count rat

fun ticket_time :: "ticket_op \<Rightarrow> rat" where
  "ticket_time (Create now _ _ _ _ _) = now"
| "ticket_time (Consume now _ _) = now"
| "ticket_time (Count now) = now"

text \<open>The store with the tickets handed out and those that were accepted, in order.\<close>

fun ticket_step :: "ticket_store \<times> ws_ticket list \<times> ws_ticket list \<Rightarrow> ticket_op \<Rightarrow> ticket_store \<times> ws_ticket list \<times> ws_ticket list" where
  "ticket_step (st, made, used) (Create now now' new tenant user role) =
     (case create_ticket now now' new tenant user role st of
        (None, st') \<Rightarrow> (st', made, used)
      | (Some s, st') \<Rightarrow> (st', made @ [\<lparr>wt_ticket = s, wt_tenant = tenant, wt_user = user, wt_role = role, wt_created = now'\<rparr>], used))"
| "ticket_step (st, made, used) (Consume now now' s) =
     (case consume_ticket now now' s st of
        (None, st') \<Rightarrow> (st', made, used)
      | (Some t, st') \<Rightarrow> (st', made, used @ [t]))"
| "ticket_step (st, made, used) (Count now) = (snd (pending_count now st), made, used)"

definition tickets_ok :: "ticket_store \<times> ws_ticket list \<times> ws_ticket list \<Rightarrow> bool" where
  "tickets_ok s \<longleftrightarrow>
     (case s of (st, made, used) \<Rightarrow>
        dict_wf st \<and> length st \<le> MAX_PENDING_TICKETS \<and> set used \<subseteq> set made \<and>
        (\<forall>(k, t) \<in> set st. k = wt_ticket t \<and> t \<in> set made) \<and>
        distinct (map wt_ticket used) \<and>
        (\<forall>t \<in> set used. wt_ticket t \<notin> set (dict_keys st)))"

lemma tickets_ok_subset:
  assumes "tickets_ok (st, made, used)" and "dict_wf st'" and "set st' \<subseteq> set st" and "length st' \<le> length st"
  shows "tickets_ok (st', made, used)"
proof -
  have "set (dict_keys st') \<subseteq> set (dict_keys st)" using assms(3) by (simp add: image_mono)
  then have "\<forall>t \<in> set used. wt_ticket t \<notin> set (dict_keys st')"
    using assms(1) by (auto simp: tickets_ok_def simp del: set_map)
  moreover have "\<forall>(k, t) \<in> set st'. k = wt_ticket t \<and> t \<in> set made"
    using assms(1,3) by (auto simp: tickets_ok_def)
  ultimately show ?thesis using assms(1,2,4) by (simp add: tickets_ok_def)
qed

lemma purge_ok: "tickets_ok (st, made, used) \<Longrightarrow> tickets_ok (purge_expired now st, made, used)"
  by (rule tickets_ok_subset) (auto simp: tickets_ok_def purge_expired_def dict_wf_filter)

fun new_ticket :: "ticket_op \<Rightarrow> string list" where
  "new_ticket (Create _ _ new _ _ _) = [new]"
| "new_ticket _ = []"

lemma create_ok:
  assumes "tickets_ok (st, made, used)" and "new \<notin> wt_ticket ` set made"
  shows "tickets_ok (ticket_step (st, made, used) (Create now now' new tenant user role))"
proof -
  have st1: "tickets_ok (purge_expired now st, made, used)" using assms(1) by (rule purge_ok)
  have fresh: "new \<notin> set (dict_keys (purge_expired now st))" using st1 assms(2) by (auto simp: tickets_ok_def)
  show ?thesis
  proof (cases "MAX_PENDING_TICKETS \<le> length (purge_expired now st)")
    case True
    with st1 show ?thesis by (simp add: create_ticket_def Let_def)
  next
    case False
    with st1 fresh assms(2) dict_wf_set show ?thesis
      by (auto simp: create_ticket_def Let_def tickets_ok_def dict_set_fresh dict_wf_def)
  qed
qed

lemma consume_ticket_ok:
  assumes "tickets_ok (st, made, used)"
  shows "tickets_ok (ticket_step (st, made, used) (Consume now now' s))"
proof -
  have st1: "tickets_ok (purge_expired now st, made, used)" using assms(1) by (rule purge_ok)
  let ?st1 = "purge_expired now st"
  have del: "tickets_ok (dict_del s ?st1, made, used)"
    by (rule tickets_ok_subset [OF st1]) (use st1 in \<open>auto simp: tickets_ok_def dict_del_def dict_wf_filter\<close>)
  show ?thesis
  proof (cases "dict_get ?st1 s")
    case None
    with del show ?thesis by (simp add: consume_ticket_def Let_def)
  next
    case (Some t)
    then have "(s, t) \<in> set ?st1" by (rule map_of_SomeD)
    then have "s = wt_ticket t" "t \<in> set made" "s \<in> set (dict_keys ?st1)"
      using st1 by (auto simp: tickets_ok_def rev_image_eqI)
    moreover from this st1 have "wt_ticket t \<notin> wt_ticket ` set used" by (auto simp: tickets_ok_def simp del: set_map)
    moreover have "wt_ticket t \<notin> set (dict_keys (dict_del (wt_ticket t) ?st1))" by (auto simp: dict_del_def)
    ultimately have "tickets_ok (dict_del s ?st1, made, used @ [t])"
      using del by (simp add: tickets_ok_def ball_Un)
    with del Some show ?thesis by (simp add: consume_ticket_def Let_def)
  qed
qed

lemma tickets_run:
  assumes "distinct (concat (map new_ticket ops))"
  shows "tickets_ok (foldl ticket_step ([], [], []) ops) \<and>
    wt_ticket ` set (fst (snd (foldl ticket_step ([], [], []) ops))) \<subseteq> set (concat (map new_ticket ops))"
  using assms
proof (induction ops rule: rev_induct)
  case Nil
  show ?case by (simp add: tickets_ok_def)
next
  case (snoc op ops)
  obtain st made used where s: "foldl ticket_step ([], [], []) ops = (st, made, used)" by (metis prod_cases3)
  with snoc have inv: "tickets_ok (st, made, used)" "wt_ticket ` set made \<subseteq> set (concat (map new_ticket ops))" by auto
  show ?case
  proof (cases op)
    case (Create now now' new tenant user role)
    with snoc.prems inv(2) have "new \<notin> wt_ticket ` set made" by auto
    with create_ok [OF inv(1) this] inv(2) s Create show ?thesis
      by (auto simp: create_ticket_def Let_def split: if_splits)
  next
    case (Consume now now' x)
    with consume_ticket_ok [OF inv(1)] inv(2) s show ?thesis
      by (auto simp: consume_ticket_def Let_def split: option.splits)
  next
    case (Count now)
    with purge_ok [OF inv(1)] inv(2) s show ?thesis by (auto simp: pending_count_def Let_def)
  qed
qed

text \<open>
  C24: With tickets that never repeat, every ticket is accepted at most once, only as it was made, and no
  more than ten thousand are pending; and a ticket is accepted only within thirty seconds.
\<close>

theorem ticket_single_use:
  assumes "distinct (concat (map new_ticket ops))" and "foldl ticket_step ([], [], []) ops = (st, made, used)"
  shows "distinct (map wt_ticket used) \<and> set used \<subseteq> set made \<and> length st \<le> MAX_PENDING_TICKETS \<and>
    (case consume_ticket now now' s st of
       (Some t, st') \<Rightarrow> wt_ticket t = s \<and> t \<in> set made \<and> t \<notin> set used \<and> now' - wt_created t \<le> 30 \<and>
         fst (consume_ticket u u' s st') = None
     | (None, _) \<Rightarrow> True)"
proof -
  have inv: "tickets_ok (st, made, used)" using tickets_run [OF assms(1)] assms(2) by simp
  have "wt_ticket t = s \<and> t \<in> set made \<and> t \<notin> set used \<and> now' - wt_created t \<le> 30 \<and>
      fst (consume_ticket u u' s st') = None" if c: "consume_ticket now now' s st = (Some t, st')" for t st'
  proof -
    have get: "dict_get (purge_expired now st) s = Some t" and st': "st' = dict_del s (purge_expired now st)"
      and time: "now' - wt_created t \<le> 30"
      using c by (auto simp: consume_ticket_def Let_def is_expired_def TICKET_TTL_SECONDS_def split: option.splits if_splits)
    have "(s, t) \<in> set (purge_expired now st)" using get by (rule map_of_SomeD)
    then have mem: "(s, t) \<in> set st" by (auto simp: purge_expired_def)
    with inv have "wt_ticket t = s" "t \<in> set made" by (auto simp: tickets_ok_def)
    moreover have "t \<notin> set used"
    proof
      assume "t \<in> set used"
      with inv have "wt_ticket t \<notin> set (dict_keys st)" by (auto simp: tickets_ok_def)
      moreover have "s \<in> set (dict_keys st)" using mem by force
      ultimately show False using \<open>wt_ticket t = s\<close> by simp
    qed
    moreover have "dict_get (purge_expired u st') s = None"
      by (auto simp: st' purge_expired_def dict_del_def map_of_eq_None_iff)
    ultimately show ?thesis using time by (simp add: consume_ticket_def Let_def)
  qed
  with inv show ?thesis by (auto simp: tickets_ok_def split: prod.split option.split)
qed

lemma ticket_single_use_witness:
  "distinct (map wt_ticket (snd (snd (foldl ticket_step ([], [], [])
      [Create 0 0 ''x'' ''t'' ''u'' ''admin'', Create 1 1 ''y'' ''t'' ''v'' ''viewer'', Consume 2 2 ''x'', Consume 3 3 ''x'']))))"
proof -
  let ?ops = "[Create 0 0 ''x'' ''t'' ''u'' ''admin'', Create 1 1 ''y'' ''t'' ''v'' ''viewer'', Consume 2 2 ''x'', Consume 3 3 ''x'']"
  obtain st made used where run: "foldl ticket_step ([], [], []) ?ops = (st, made, used)" by (metis prod_cases3)
  have "distinct (concat (map new_ticket ?ops))" by simp
  from ticket_single_use [OF this run] run show ?thesis by simp
qed

section \<open>Connections\<close>

text \<open>
  The manager with the tenants whose handshake is under way. \<open>Some tenant\<close> of a delivery is the tenant an
  alert was broadcast for. At most \<open>k\<close> handshakes of a tenant overlap.
\<close>

inductive ws_run :: "nat \<Rightarrow> nat \<Rightarrow> ws_manager \<Rightarrow> string list \<Rightarrow> bool" for limit k where
  Start: "ws_run limit k (new_ws_manager limit) []"
| Refused: "ws_run limit k m hs \<Longrightarrow> connect_check t m = (False, m') \<Longrightarrow> ws_run limit k m' hs"
| Checked: "ws_run limit k m hs \<Longrightarrow> connect_check t m = (True, m') \<Longrightarrow> count_list hs t < k \<Longrightarrow> ws_run limit k m' (t # hs)"
| Registered: "ws_run limit k m hs \<Longrightarrow> t \<in> set hs \<Longrightarrow> t \<noteq> [] \<Longrightarrow> cid \<notin> set (dict_keys (connections m)) \<Longrightarrow>
    ws_run limit k (connect_register up cid w t m) (remove1 t hs)"
| Aborted: "ws_run limit k m hs \<Longrightarrow> ws_run limit k m (remove1 t hs)"
| Disconnected: "ws_run limit k m hs \<Longrightarrow> ws_run limit k (disconnect cid m) hs"
| Message: "ws_run limit k m hs \<Longrightarrow> handle_client_message json_loads up cid raw m = Some m' \<Longrightarrow> ws_run limit k m' hs"
| Beat: "ws_run limit k m hs \<Longrightarrow> ws_run limit k (heartbeat up cid m) hs"
| Alert: "ws_run limit k m hs \<Longrightarrow> ws_run limit k (snd (ws_broadcast up t p m)) hs"

text \<open>The three tables describe the same connections.\<close>

definition conns_of :: "string \<Rightarrow> (string, string) dict \<Rightarrow> (string, string) dict" where
  "conns_of t tenants = map (\<lambda>(cid, _). (cid, cid)) (filter (\<lambda>(_, t'). t' = t) tenants)"

definition ws_ok :: "ws_manager \<Rightarrow> bool" where
  "ws_ok m \<longleftrightarrow> dict_wf (connections m) \<and> dict_keys (connections m) = dict_keys (connection_tenants m) \<and>
     [] \<notin> set (dict_values (connection_tenants m)) \<and>
     (\<forall>t. dict_get_or (ws_subscribers m) t [] = conns_of t (connection_tenants m))"

lemma ws_ok_new: "ws_ok (new_ws_manager limit)"
  by (simp add: ws_ok_def new_ws_manager_def dict_get_or_def conns_of_def)

lemma ws_ok_tenants_wf: "ws_ok m \<Longrightarrow> dict_wf (connection_tenants m)"
  unfolding ws_ok_def dict_wf_def by metis

lemma ws_ok_rejected [simp]: "ws_ok (m\<lparr>total_rejected := n\<rparr>) = ws_ok m"
  by (simp add: ws_ok_def)

lemma dict_keys_del: "dict_keys (dict_del k d) = filter (\<lambda>x. x \<noteq> k) (dict_keys d)"
  by (induction d) (auto simp: dict_del_def)

lemma dict_del_absent: "k \<notin> set (dict_keys d) \<Longrightarrow> dict_del k d = d"
  by (force simp: dict_del_def filter_id_conv)

lemma conns_del_same: "conns_of t (dict_del cid d) = dict_del cid (conns_of t d)"
  by (induction d) (auto simp: conns_of_def dict_del_def)

lemma conns_del_other:
  assumes "dict_wf d" and "dict_get d cid = Some t'" and "t \<noteq> t'"
  shows "conns_of t (dict_del cid d) = conns_of t d"
proof -
  have "filter (\<lambda>(_, u). u = t) (dict_del cid d) = filter (\<lambda>(_, u). u = t) d"
    unfolding dict_del_def filter_filter
  proof (intro filter_cong refl)
    fix e assume e: "e \<in> set d"
    obtain c u where eq: "e = (c, u)" by (cases e)
    with e assms have "c = cid \<Longrightarrow> u = t'" by (auto simp: dict_wf_def)
    with assms(3) eq show "(case e of (k', _) \<Rightarrow> k' \<noteq> cid) \<and> (case e of (_, u) \<Rightarrow> u = t) \<longleftrightarrow> (case e of (_, u) \<Rightarrow> u = t)"
      by auto
  qed
  then show ?thesis by (simp add: conns_of_def)
qed

lemma subscribe_get:
  "dict_get_or (subscribe t s c ss) t' [] =
     (if t' = t then dict_set s c (dict_get_or ss t []) else dict_get_or ss t' [])"
proof (cases "dict_get ss t")
  case None
  then have "t \<notin> set (dict_keys ss)" by (simp add: map_of_eq_None_iff)
  with None show ?thesis by (simp add: subscribe_def dict_get_or_def)
next
  case (Some subs)
  then have "t \<in> set (dict_keys ss)" by (force dest: map_of_SomeD)
  with Some show ?thesis by (simp add: subscribe_def dict_get_or_def)
qed

lemma disconnect_ok:
  assumes "ws_ok m"
  shows "ws_ok (disconnect cid m)"
proof (cases "dict_get (connection_tenants m) cid")
  case None
  then have "cid \<notin> set (dict_keys (connection_tenants m))" by (simp add: map_of_eq_None_iff)
  with assms None show ?thesis
    by (simp add: disconnect_def Let_def ws_ok_def dict_del_absent)
next
  case (Some t)
  from dict_get_in_values [OF Some] assms have t: "t \<noteq> []" by (auto simp: ws_ok_def simp del: set_map)
  have "set (dict_values (dict_del cid (connection_tenants m))) \<subseteq> set (dict_values (connection_tenants m))"
    by (auto simp: dict_del_def)
  with assms have "[] \<notin> set (dict_values (dict_del cid (connection_tenants m)))" by (auto simp: ws_ok_def simp del: set_map)
  moreover have "dict_get_or (unsubscribe t cid (ws_subscribers m)) t' [] = conns_of t' (dict_del cid (connection_tenants m))" for t'
    using assms conns_del_other [OF ws_ok_tenants_wf [OF assms] Some, of t'] conns_del_same [of t cid]
    by (simp add: unsubscribe_get ws_ok_def)
  moreover have "dict_wf (dict_del cid (connections m))"
    "dict_keys (dict_del cid (connections m)) = dict_keys (dict_del cid (connection_tenants m))"
    using assms by (simp_all add: ws_ok_def dict_keys_del del: map_map)
  ultimately show ?thesis using Some t by (simp add: disconnect_def Let_def ws_ok_def)
qed

lemma send_json_ok: "ws_ok m \<Longrightarrow> ws_ok (send_json up cid d m)"
  by (auto simp: send_json_def disconnect_ok split: option.split) (simp add: ws_ok_def)

lemma register_ok:
  assumes "ws_ok m" and "cid \<notin> set (dict_keys (connections m))" and "t \<noteq> []"
  shows "ws_ok (connect_register up cid w t m)"
proof -
  have new: "cid \<notin> set (dict_keys (connection_tenants m))" using assms(1,2) by (simp add: ws_ok_def del: set_map)
  then have "cid \<notin> set (dict_keys (conns_of t (connection_tenants m)))" by (force simp: conns_of_def)
  then have "dict_set cid cid (conns_of t (connection_tenants m)) = conns_of t (connection_tenants m @ [(cid, t)])"
    by (simp add: dict_set_fresh conns_of_def)
  moreover have "conns_of t' (connection_tenants m @ [(cid, t)]) = conns_of t' (connection_tenants m)" if "t' \<noteq> t" for t'
    using that by (simp add: conns_of_def)
  ultimately show ?thesis
    unfolding connect_register_def
    using assms new by (intro send_json_ok) (auto simp: ws_ok_def dict_set_fresh subscribe_get dict_wf_def simp del: set_map)
qed

lemma sends_ok: "ws_ok m \<Longrightarrow> ws_ok (foldl (\<lambda>m (_, cid). send_json up cid d m) m subs)"
  by (induction subs arbitrary: m) (auto simp: send_json_ok)

lemma client_message_cases:
  "handle_client_message json_loads up cid raw m = Some m' \<Longrightarrow> m' = m \<or> m' = send_json up cid Pong m"
  by (auto simp: handle_client_message_def split: option.splits pval.splits if_splits)

lemma ws_run_ok: "ws_run limit k m hs \<Longrightarrow> ws_ok m"
proof (induction rule: ws_run.induct)
  case (Message m hs json_loads up cid raw m')
  then show ?case using client_message_cases send_json_ok by blast
next
  case (Registered m hs t cid up w)
  then show ?case by (intro register_ok)
qed (auto simp: ws_ok_new disconnect_ok heartbeat_def send_json_ok ws_broadcast_def Let_def sends_ok
    connect_check_def split: if_splits)

text \<open>What a broadcast does to the connections of its tenant.\<close>

lemma connections_send:
  "dict_get (connections (send_json up c d m)) cid =
     (if cid = c \<and> (\<exists>w. dict_get (connections m) c = Some w \<and> \<not> up w d) then None else dict_get (connections m) cid)"
  by (auto simp: send_json_def disconnect_def Let_def split: option.splits)

lemma delivered_disconnect [simp]: "delivered (disconnect cid m) = delivered m"
  by (simp add: disconnect_def Let_def split: option.split)

definition reached :: "(string \<Rightarrow> ws_message \<Rightarrow> bool) \<Rightarrow> ws_message \<Rightarrow> (string, string) dict \<Rightarrow> string \<Rightarrow> (string \<times> ws_message) list" where
  "reached up d con cid = (case dict_get con cid of Some w \<Rightarrow> if up w d then [(w, d)] else [] | None \<Rightarrow> [])"

lemma delivered_send: "delivered (send_json up cid d m) = delivered m @ reached up d (connections m) cid"
  by (simp add: send_json_def reached_def split: option.split)

lemma delivered_sends:
  "distinct (map snd subs) \<Longrightarrow>
   delivered (foldl (\<lambda>m (_, cid). send_json up cid d m) m subs) =
     delivered m @ concat (map (reached up d (connections m)) (map snd subs))"
proof (induction subs arbitrary: m)
  case (Cons s subs)
  obtain x cid where s: "s = (x, cid)" by (cases s)
  have "concat (map (reached up d (connections (send_json up cid d m))) (map snd subs)) =
      concat (map (reached up d (connections m)) (map snd subs))"
    using Cons.prems by (intro arg_cong [where f = concat] map_cong refl) (auto simp: s reached_def connections_send)
  with Cons show ?case by (simp only: s foldl.simps list.map distinct.simps prod.case snd_conv concat.simps delivered_send append_assoc)
qed simp

lemma keys_of_tenant:
  "dict_wf tenants \<Longrightarrow> map snd (conns_of t tenants) = filter (\<lambda>c. dict_get tenants c = Some t) (dict_keys tenants)"
proof -
  assume wf: "dict_wf tenants"
  have "filter (\<lambda>e. snd e = t) tenants = filter (\<lambda>e. dict_get tenants (fst e) = Some t) tenants"
    using wf by (intro filter_cong refl) (force simp: dict_wf_def dest: eq_key_imp_eq_value)
  then show ?thesis by (simp add: conns_of_def filter_map comp_def) (simp add: case_prod_unfold)
qed

lemma concat_reached:
  assumes "dict_wf con"
  shows "concat (map (reached up d con) (filter P (dict_keys con))) =
    map (\<lambda>(cid, w). (w, d)) (filter (\<lambda>(cid, w). P cid \<and> up w d) con)"
proof -
  have "concat (map (reached up d con) (filter P (dict_keys xs))) =
      map (\<lambda>(cid, w). (w, d)) (filter (\<lambda>(cid, w). P cid \<and> up w d) xs)" if "set xs \<subseteq> set con" for xs
    using that
  proof (induction xs)
    case (Cons e xs)
    obtain c w where e: "e = (c, w)" by (cases e)
    with Cons.prems assms have "dict_get con c = Some w" by (simp add: dict_wf_def)
    with Cons show ?case by (auto simp: e reached_def)
  qed simp
  from this [of con] show ?thesis by simp
qed

text \<open>
  C23: Whatever connections came and went before, an alert is delivered exactly to the sockets of the
  tenant's connections that take it, in order, and to no connection of another tenant; the dead connections
  of the tenant are counted as notified, too.
\<close>

theorem alert_reaches_own_tenant:
  assumes "ws_run limit k m hs" and "ws_broadcast up t p m = (n, m')"
  shows "delivered m' = delivered m @ map (\<lambda>(cid, w). (w, Alert_Message p))
      (filter (\<lambda>(cid, w). dict_get (connection_tenants m) cid = Some t \<and> up w (Alert_Message p)) (connections m))
    \<and> n = tenant_connections t m"
proof -
  have ok: "ws_ok m" using assms(1) by (rule ws_run_ok)
  then have wf: "dict_wf (connections m)" "dict_wf (connection_tenants m)"
    and keys: "dict_keys (connections m) = dict_keys (connection_tenants m)"
    and subs: "dict_get_or (ws_subscribers m) t [] = conns_of t (connection_tenants m)"
    using ws_ok_tenants_wf by (simp_all add: ws_ok_def)
  have cids: "map snd (conns_of t (connection_tenants m)) =
      filter (\<lambda>c. dict_get (connection_tenants m) c = Some t) (dict_keys (connections m))"
    unfolding keys using keys_of_tenant [OF wf(2)] .
  moreover have "distinct (filter P (dict_keys (connections m)))" for P using wf(1) by (simp add: dict_wf_def)
  ultimately have "distinct (map snd (conns_of t (connection_tenants m)))" by simp
  then have "delivered m' = delivered m @ concat (map (reached up (Alert_Message p) (connections m))
      (map snd (conns_of t (connection_tenants m))))"
    using assms(2) by (auto simp: ws_broadcast_def Let_def subs delivered_sends)
  moreover have "length (conns_of t (connection_tenants m)) = tenant_connections t m"
    by (simp add: conns_of_def tenant_connections_def filter_map comp_def) (simp add: case_prod_unfold)
  ultimately show ?thesis
    using assms(2) concat_reached [OF wf(1)] by (auto simp: ws_broadcast_def Let_def subs cids)
qed

lemma count_list_remove1: "count_list (remove1 x xs) y = (if x = y then count_list xs y - 1 else count_list xs y)"
  by (induction xs) auto

lemma tenant_connections_disconnect: "tenant_connections t (disconnect cid m) \<le> tenant_connections t m"
proof -
  have "length (filter P (map snd (dict_del cid d))) \<le> length (filter P (map snd d))" for P :: "string \<Rightarrow> bool" and d :: "(string, string) dict"
    by (induction d) (auto simp: dict_del_def)
  then show ?thesis by (auto simp: tenant_connections_def disconnect_def Let_def split: option.split)
qed

lemma tenant_connections_send: "tenant_connections t (send_json up cid d m) \<le> tenant_connections t m"
proof -
  have "tenant_connections t (m\<lparr>delivered := x, total_messages_sent := y\<rparr>) = tenant_connections t m" for x y
    by (simp add: tenant_connections_def)
  then show ?thesis by (simp add: send_json_def tenant_connections_disconnect split: option.split)
qed

lemma max_per_tenant_kept [simp]:
  "max_per_tenant (disconnect cid m) = max_per_tenant m" "max_per_tenant (send_json up cid d m) = max_per_tenant m"
  by (simp_all add: disconnect_def send_json_def Let_def split: option.split)

lemma sends_kept:
  "max_per_tenant (foldl (\<lambda>m (_, cid). send_json up cid d m) m subs) = max_per_tenant m"
  "tenant_connections t (foldl (\<lambda>m (_, cid). send_json up cid d m) m subs) \<le> tenant_connections t m"
  by (induction subs arbitrary: m) (auto intro: order_trans [OF _ tenant_connections_send])

lemma tenant_connections_register:
  assumes "ws_ok m" and "cid \<notin> set (dict_keys (connections m))"
  shows "tenant_connections t' (connect_register up cid w t m) \<le> tenant_connections t' m + (if t' = t then 1 else 0)"
proof -
  have "cid \<notin> set (dict_keys (connection_tenants m))" using assms by (simp add: ws_ok_def del: set_map)
  then show ?thesis
    unfolding connect_register_def
    by (intro order_trans [OF tenant_connections_send]) (simp add: tenant_connections_def dict_set_fresh)
qed

lemma connections_counted:
  "ws_run limit k m hs \<Longrightarrow> max_per_tenant m = limit \<and> tenant_connections t m + count_list hs t \<le> limit + k - 1"
proof (induction rule: ws_run.induct)
  case Start
  show ?case by (simp add: new_ws_manager_def tenant_connections_def)
next
  case (Checked m hs t' m')
  then show ?case by (auto simp: connect_check_def split: if_splits)
next
  case (Registered m hs t' cid up w)
  from Registered.hyps(2) have "0 < count_list hs t'" by (metis count_list_0_iff gr0I)
  with Registered tenant_connections_register [OF ws_run_ok [OF Registered.hyps(1)] Registered.hyps(4), of t up w t']
  show ?case by (auto simp: count_list_remove1 connect_register_def split: if_splits)
next
  case (Message m hs json_loads up cid raw m')
  then show ?case
    using client_message_cases [OF Message.hyps(2)] tenant_connections_send [of t up cid Pong m] by auto
next
  case (Alert m hs up t' p)
  then show ?case
    using sends_kept(2) [of t up "Alert_Message p" m "dict_get_or (ws_subscribers m) t' []"]
    by (simp add: ws_broadcast_def Let_def sends_kept(1))
next
  case (Disconnected m hs cid)
  then show ?case using tenant_connections_disconnect [of t cid m] by simp
next
  case (Beat m hs up cid)
  then show ?case using tenant_connections_send [of t up cid Heartbeat m] by (auto simp: heartbeat_def)
qed (auto simp: connect_check_def tenant_connections_def count_list_remove1 split: if_splits)

text \<open>
  When at most k handshakes of a tenant overlap, it never has more connections than its limit and k - 1:
  the limit holds for handshakes one after the other, and is exceeded by those that overlap.
\<close>

theorem connection_limit_overlap:
  assumes "ws_run limit k m hs"
  shows "tenant_connections t m \<le> limit + k - 1"
  using connections_counted [OF assms, of t] by simp

text \<open>Two overlapping handshakes at the last free place both succeed.\<close>

lemma overlapping_handshakes:
  "tenant_connections ''t'' (connect_register (\<lambda>_ _. True) ''b'' ''w'' ''t''
     (connect_register (\<lambda>_ _. True) ''a'' ''v'' ''t''
       (snd (connect_check ''t'' (snd (connect_check ''t'' (new_ws_manager 1))))))) = 2"
  by (simp add: connect_register_def connect_check_def new_ws_manager_def send_json_def tenant_connections_def)

lemma two_connected:
  "ws_run 1 2 (connect_register (\<lambda>_ _. True) ''b'' ''w'' ''t''
     (connect_register (\<lambda>_ _. True) ''a'' ''v'' ''t'' (new_ws_manager 1))) []"
proof -
  have free: "connect_check ''t'' (new_ws_manager 1) = (True, new_ws_manager 1)"
    by (simp add: connect_check_def new_ws_manager_def tenant_connections_def)
  have "ws_run 1 2 (new_ws_manager 1) [''t'', ''t'']"
    by (rule ws_run.Checked [OF ws_run.Checked [OF ws_run.Start free] free]) simp_all
  from ws_run.Registered [OF this, of "''t''" "''a''" "\<lambda>_ _. True" "''v''"]
  have "ws_run 1 2 (connect_register (\<lambda>_ _. True) ''a'' ''v'' ''t'' (new_ws_manager 1)) [''t'']"
    by (simp add: new_ws_manager_def)
  from ws_run.Registered [OF this, of "''t''" "''b''" "\<lambda>_ _. True" "''w''"] show ?thesis
    by (simp add: new_ws_manager_def connect_register_def send_json_def)
qed

lemma connection_limit_overlap_witness:
  "tenant_connections ''t'' (connect_register (\<lambda>_ _. True) ''b'' ''w'' ''t''
     (connect_register (\<lambda>_ _. True) ''a'' ''v'' ''t'' (new_ws_manager 1))) \<le> 1 + 2 - 1"
  by (rule connection_limit_overlap [OF two_connected])

lemma alert_reaches_own_tenant_witness:
  "map fst (delivered (snd (ws_broadcast (\<lambda>w _. w = ''w'') ''t'' [] (connect_register (\<lambda>_ _. True) ''b'' ''w'' ''t''
     (connect_register (\<lambda>_ _. True) ''a'' ''v'' ''t'' (new_ws_manager 1)))))) = [''v'', ''w'', ''w'']"
proof -
  let ?m = "connect_register (\<lambda>_ _. True) ''b'' ''w'' ''t'' (connect_register (\<lambda>_ _. True) ''a'' ''v'' ''t'' (new_ws_manager 1))"
  obtain n m' where b: "ws_broadcast (\<lambda>w _. w = ''w'') ''t'' [] ?m = (n, m')" by fastforce
  from alert_reaches_own_tenant [OF two_connected this] b show ?thesis
    by (simp add: new_ws_manager_def connect_register_def send_json_def)
qed

end
