(* ===== verification/Sdk_Transport.thy ===== *)
theory Sdk_Transport
  imports Interfaces Complex_Main
begin

text \<open>
  How the SDK in the agent's process delivers its events: \<open>sdk/python/phantex_sdk/transport.py\<close> (buffer,
  Unix socket, HTTP), \<open>async_transport.py\<close>, and start and stop of \<open>client.py\<close>. Events are of any type;
  the JSON encoder, the socket and the HTTP client are parameters. Each operation holds the lock of its
  transport, so that it is one step.
\<close>

section \<open>The bounded queue\<close>

text \<open>
  \<open>deque(maxlen)\<close>: appending at one end of a full queue drops an event at the other. \<open>wire\<close> has the events of
  the batches that were sent completely.
\<close>

record 'e sdk_buffer =
  queue :: "'e list"
  batch_size :: nat
  buffer_size :: nat
  wire :: "'e list"

definition append_event :: "'e \<Rightarrow> ('e, 'x) sdk_buffer_scheme \<Rightarrow> ('e, 'x) sdk_buffer_scheme" where
  "append_event e s = s\<lparr>queue := take_last (buffer_size s) (queue s @ [e])\<rparr>"

definition appendleft_event :: "'e \<Rightarrow> ('e, 'x) sdk_buffer_scheme \<Rightarrow> ('e, 'x) sdk_buffer_scheme" where
  "appendleft_event e s = s\<lparr>queue := take (buffer_size s) (e # queue s)\<rparr>"

definition pop_batch :: "('e, 'x) sdk_buffer_scheme \<Rightarrow> 'e list \<times> ('e, 'x) sdk_buffer_scheme" where
  "pop_batch s = (take (batch_size s) (queue s), s\<lparr>queue := drop (batch_size s) (queue s)\<rparr>)"

definition requeue :: "'e list \<Rightarrow> ('e, 'x) sdk_buffer_scheme \<Rightarrow> ('e, 'x) sdk_buffer_scheme" where
  "requeue batch s = fold appendleft_event (rev batch) s"

text \<open>Each event on a line of its own; \<open>None\<close> when the encoder raises for one of them.\<close>

fun lines_of :: "('e \<Rightarrow> string option) \<Rightarrow> 'e list \<Rightarrow> string option" where
  "lines_of dumps [] = Some [char_of (10 :: nat)]"
| "lines_of dumps [e] = map_option (\<lambda>t. t @ [char_of (10 :: nat)]) (dumps e)"
| "lines_of dumps (e # es) =
     (case dumps e of None \<Rightarrow> None | Some t \<Rightarrow> map_option (\<lambda>r. t @ char_of (10 :: nat) # r) (lines_of dumps es))"

text \<open>An operation returns, or the exception of the encoder comes out of it.\<close>

datatype sdk_outcome = Returned | Raised

section \<open>In memory\<close>

definition buffer_send :: "'e \<Rightarrow> 'e sdk_buffer \<Rightarrow> 'e sdk_buffer" where
  "buffer_send e s = append_event e s"

definition buffer_flush :: "'e sdk_buffer \<Rightarrow> 'e sdk_buffer" where
  "buffer_flush s = s"

definition drain :: "'e sdk_buffer \<Rightarrow> 'e list \<times> 'e sdk_buffer" where
  "drain s = (queue s, s\<lparr>queue := []\<rparr>)"

definition peek_events :: "'e sdk_buffer \<Rightarrow> 'e list" where
  "peek_events s = queue s"

section \<open>Unix socket\<close>

record 'e socket_transport = "'e sdk_buffer" +
  connected :: bool
  running :: bool
  reconnect_delay :: rat
  slept :: rat

text \<open>What the outside does during an operation: the sensor accepts a connection, and the text.\<close>

record socket_env =
  accepts_connection :: bool
  takes_text :: "string \<Rightarrow> bool"

definition MAX_RECONNECT_DELAY :: rat where
  "MAX_RECONNECT_DELAY = 30"

definition new_socket_transport :: "nat \<Rightarrow> nat \<Rightarrow> 'e socket_transport" where
  "new_socket_transport batch cap =
     \<lparr>queue = [], batch_size = batch, buffer_size = cap, wire = [], connected = False, running = True,
      reconnect_delay = 1, slept = 0\<rparr>"

definition socket_connect :: "socket_env \<Rightarrow> 'e socket_transport \<Rightarrow> bool \<times> 'e socket_transport" where
  "socket_connect w s =
     (if accepts_connection w then (True, s\<lparr>connected := True, reconnect_delay := 1\<rparr>)
      else (False, s\<lparr>connected := False, slept := slept s + reconnect_delay s,
                    reconnect_delay := min (reconnect_delay s * 2) MAX_RECONNECT_DELAY\<rparr>))"

definition socket_do_flush :: "('e \<Rightarrow> string option) \<Rightarrow> socket_env \<Rightarrow> 'e socket_transport \<Rightarrow> sdk_outcome \<times> 'e socket_transport" where
  "socket_do_flush dumps w s =
     (if queue s = [] then (Returned, s)
      else let (ready, s1) = (if connected s then (True, s) else socket_connect w s)
           in if \<not> ready then (Returned, s1)
              else case pop_batch s1 of (batch, s2) \<Rightarrow>
                (case lines_of dumps batch of
                   None \<Rightarrow> (Raised, s2)
                 | Some text \<Rightarrow>
                     if takes_text w text then (Returned, s2\<lparr>wire := wire s2 @ batch\<rparr>)
                     else (Returned, requeue batch (s2\<lparr>connected := False\<rparr>))))"

definition socket_send :: "('e \<Rightarrow> string option) \<Rightarrow> socket_env \<Rightarrow> 'e \<Rightarrow> 'e socket_transport \<Rightarrow> sdk_outcome \<times> 'e socket_transport" where
  "socket_send dumps w e s =
     (let s1 = append_event e s
      in if batch_size s1 \<le> length (queue s1) then socket_do_flush dumps w s1 else (Returned, s1))"

definition socket_flush :: "('e \<Rightarrow> string option) \<Rightarrow> socket_env \<Rightarrow> 'e socket_transport \<Rightarrow> sdk_outcome \<times> 'e socket_transport" where
  "socket_flush dumps w s = socket_do_flush dumps w s"

text \<open>A turn of the background thread, which swallows exceptions.\<close>

definition socket_flush_turn :: "('e \<Rightarrow> string option) \<Rightarrow> socket_env \<Rightarrow> 'e socket_transport \<Rightarrow> 'e socket_transport" where
  "socket_flush_turn dumps w s = (if running s then snd (socket_flush dumps w s) else s)"

definition socket_close :: "('e \<Rightarrow> string option) \<Rightarrow> socket_env \<Rightarrow> 'e socket_transport \<Rightarrow> sdk_outcome \<times> 'e socket_transport" where
  "socket_close dumps w s = socket_flush dumps w (s\<lparr>running := False\<rparr>)"

section \<open>HTTP\<close>

text \<open>The answer to a request: a status code, or \<open>None\<close> when the client raises.\<close>

record http_env =
  has_httpx :: bool
  answer :: "string \<Rightarrow> nat option"

definition accepted :: "http_env \<Rightarrow> string \<Rightarrow> bool" where
  "accepted w text = (case answer w text of Some status \<Rightarrow> status < 400 | None \<Rightarrow> False)"

definition http_do_flush :: "('e \<Rightarrow> string option) \<Rightarrow> http_env \<Rightarrow> 'e sdk_buffer \<Rightarrow> sdk_outcome \<times> 'e sdk_buffer" where
  "http_do_flush dumps w s =
     (if queue s = [] \<or> \<not> has_httpx w then (Returned, s)
      else case pop_batch s of (batch, s1) \<Rightarrow>
        (case lines_of dumps batch of
           None \<Rightarrow> (Raised, s1)
         | Some text \<Rightarrow>
             if accepted w text then (Returned, s1\<lparr>wire := wire s1 @ batch\<rparr>) else (Returned, requeue batch s1)))"

definition http_send :: "('e \<Rightarrow> string option) \<Rightarrow> http_env \<Rightarrow> 'e \<Rightarrow> 'e sdk_buffer \<Rightarrow> sdk_outcome \<times> 'e sdk_buffer" where
  "http_send dumps w e s =
     (let s1 = append_event e s
      in if batch_size s1 \<le> length (queue s1) then http_do_flush dumps w s1 else (Returned, s1))"

definition http_close :: "('e \<Rightarrow> string option) \<Rightarrow> http_env \<Rightarrow> 'e sdk_buffer \<Rightarrow> sdk_outcome \<times> 'e sdk_buffer" where
  "http_close dumps w s = http_do_flush dumps w s"

definition safe_header :: "string \<Rightarrow> string" where
  "safe_header v = filter (\<lambda>c. c \<noteq> char_of (10 :: nat)) (filter (\<lambda>c. c \<noteq> char_of (13 :: nat)) v)"

text \<open>\<open>urlparse\<close> gives scheme and network location; \<open>None\<close> is the \<open>ValueError\<close>.\<close>

definition build_endpoint :: "(string \<Rightarrow> string \<times> string) \<Rightarrow> string \<Rightarrow> string option" where
  "build_endpoint urlparse addr0 =
     (let addr = py_strip addr0
      in if addr = [] then Some ''https://localhost:50051/v1/events''
         else let addr' = (if is_substring ''://'' addr then addr
                           else let host = py_lower (hd (split_on CHR '':'' addr))
                                in (if host \<in> {''localhost'', ''127.0.0.1'', ''::1''} then ''http'' else ''https'') @ ''://'' @ addr)
              in case urlparse addr' of (scheme, netloc) \<Rightarrow>
                   if scheme \<in> {''https'', ''http''} then Some (scheme @ ''://'' @ netloc @ ''/v1/events'') else None)"

section \<open>Asynchronous HTTP\<close>

text \<open>Here the encoder is called inside the \<open>try\<close>, and so is the import of the client.\<close>

definition async_do_flush :: "('e \<Rightarrow> string option) \<Rightarrow> http_env \<Rightarrow> 'e sdk_buffer \<Rightarrow> 'e sdk_buffer" where
  "async_do_flush dumps w s =
     (if queue s = [] then s
      else case pop_batch s of (batch, s1) \<Rightarrow>
        (if has_httpx w \<and> (case lines_of dumps batch of None \<Rightarrow> False | Some text \<Rightarrow> accepted w text)
         then s1\<lparr>wire := wire s1 @ batch\<rparr> else requeue batch s1))"

definition async_send :: "('e \<Rightarrow> string option) \<Rightarrow> http_env \<Rightarrow> 'e \<Rightarrow> 'e sdk_buffer \<Rightarrow> 'e sdk_buffer" where
  "async_send dumps w e s =
     (let s1 = append_event e s in if batch_size s1 \<le> length (queue s1) then async_do_flush dumps w s1 else s1)"

fun close_rounds :: "nat \<Rightarrow> ('e \<Rightarrow> string option) \<Rightarrow> http_env \<Rightarrow> 'e sdk_buffer \<Rightarrow> 'e sdk_buffer" where
  "close_rounds 0 dumps w s = s"
| "close_rounds (Suc n) dumps w s = (if queue s = [] then s else close_rounds n dumps w (async_do_flush dumps w s))"

definition async_close :: "('e \<Rightarrow> string option) \<Rightarrow> http_env \<Rightarrow> 'e sdk_buffer \<Rightarrow> 'e sdk_buffer" where
  "async_close dumps w s = close_rounds 100 dumps w s"

section \<open>Choosing a transport\<close>

datatype transport_kind = Buffer_Transport | Socket_Transport | Http_Transport

definition create_transport :: "string \<Rightarrow> bool \<Rightarrow> string \<Rightarrow> bool \<Rightarrow> transport_kind" where
  "create_transport transport socket_exists gateway_addr httpx =
     (let mode = py_lower transport
      in if mode = ''buffer'' then Buffer_Transport
         else if mode = ''socket'' \<or> (mode = ''auto'' \<and> socket_exists) then Socket_Transport
         else if (mode \<in> {''http'', ''grpc''} \<or> (mode = ''auto'' \<and> gateway_addr \<noteq> [])) \<and> httpx then Http_Transport
         else Buffer_Transport)"

text \<open>\<open>None\<close> is the \<open>ImportError\<close>; the asynchronous transports have no socket.\<close>

definition create_async_transport :: "string \<Rightarrow> bool \<Rightarrow> transport_kind option" where
  "create_async_transport mode httpx =
     (if mode = ''buffer'' then Some Buffer_Transport
      else if mode = ''http'' \<or> mode = ''auto''
           then (if httpx then Some Http_Transport else if mode = ''http'' then None else Some Buffer_Transport)
      else Some Buffer_Transport)"

section \<open>The client\<close>

record ('h, 's) sdk_client =
  installed_hooks :: "'h list"
  started :: bool
  client_transport :: 's

definition client_start :: "bool \<Rightarrow> 'h list \<Rightarrow> ('h, 's) sdk_client \<Rightarrow> ('h, 's) sdk_client" where
  "client_start enabled hooks c =
     (if started c \<or> \<not> enabled then c else c\<lparr>installed_hooks := hooks, started := True\<rparr>)"

text \<open>When the flush raises, the transport is not closed.\<close>

definition client_stop :: "('s \<Rightarrow> sdk_outcome \<times> 's) \<Rightarrow> ('s \<Rightarrow> sdk_outcome \<times> 's) \<Rightarrow> ('h, 's) sdk_client \<Rightarrow> ('h, 's) sdk_client" where
  "client_stop flush close c =
     (if \<not> started c then c
      else let s = (case flush (client_transport c) of
                      (Raised, s1) \<Rightarrow> s1
                    | (Returned, s1) \<Rightarrow> snd (close s1))
           in c\<lparr>installed_hooks := [], client_transport := s, started := False\<rparr>)"

end
