(* ===== verification/Sdk_Transport_Props.thy ===== *)
theory Sdk_Transport_Props
  imports Sdk_Transport "HOL-Library.Sublist"
begin

text \<open>
  What the SDK promises of its events: they are delivered in order, each batch once, and only the oldest
  are lost, when the queue is full. The exceptions: a batch that cannot be encoded is lost, a batch the
  gateway refuses blocks the others, and closing leaves all but a batch behind.
\<close>

section \<open>Queues\<close>

lemma requeue_room:
  "length batch + length (queue s) \<le> buffer_size s \<Longrightarrow> requeue batch s = s\<lparr>queue := batch @ queue s\<rparr>"
proof (induction batch)
  case (Cons e batch)
  then show ?case by (simp add: requeue_def appendleft_event_def)
qed (simp add: requeue_def)

lemma requeue_pop:
  assumes "length (queue s) \<le> buffer_size s"
  shows "requeue (take n (queue s)) (s\<lparr>queue := drop n (queue s)\<rparr>) = s"
  using assms by (simp add: requeue_room)

lemma lines_encodable: "(\<And>e. dumps e \<noteq> None) \<Longrightarrow> lines_of dumps b \<noteq> None"
  by (induction dumps b rule: lines_of.induct) (auto split: option.split)

section \<open>The contract of a transport\<close>

text \<open>
  What the client relies on: sending puts the event behind the others, dropping the oldest of a full queue,
  and neither sending nor flushing otherwise changes the events, delivered or waiting. \<open>good\<close> says which
  behaviours of the outside the promise is for.
\<close>

locale transport =
  fixes send :: "'o \<Rightarrow> 'e \<Rightarrow> ('e, 'x) sdk_buffer_scheme \<Rightarrow> ('e, 'x) sdk_buffer_scheme"
    and flush :: "'o \<Rightarrow> ('e, 'x) sdk_buffer_scheme \<Rightarrow> ('e, 'x) sdk_buffer_scheme"
    and good :: "'o \<Rightarrow> bool"
  assumes send_events: "good w \<Longrightarrow> length (queue s) \<le> buffer_size s \<Longrightarrow>
      wire (send w e s) @ queue (send w e s) = wire s @ take_last (buffer_size s) (queue s @ [e])"
    and flush_events: "good w \<Longrightarrow> length (queue s) \<le> buffer_size s \<Longrightarrow>
      wire (flush w s) @ queue (flush w s) = wire s @ queue s"
    and send_room: "good w \<Longrightarrow> length (queue s) \<le> buffer_size s \<Longrightarrow>
      length (queue (send w e s)) \<le> buffer_size s \<and> buffer_size (send w e s) = buffer_size s"
    and flush_room: "good w \<Longrightarrow> length (queue s) \<le> buffer_size s \<Longrightarrow>
      length (queue (flush w s)) \<le> buffer_size s \<and> buffer_size (flush w s) = buffer_size s"

datatype ('o, 'e) sdk_op = Send 'o 'e | Flush 'o

fun sdk_sent :: "('o, 'e) sdk_op \<Rightarrow> 'e list" where
  "sdk_sent (Send w e) = [e]"
| "sdk_sent (Flush w) = []"

fun sdk_env :: "('o, 'e) sdk_op \<Rightarrow> 'o" where
  "sdk_env (Send w e) = w"
| "sdk_env (Flush w) = w"

text \<open>A transport with the number of events sent while its queue was full.\<close>

fun sdk_step :: "('o \<Rightarrow> 'e \<Rightarrow> ('e, 'x) sdk_buffer_scheme \<Rightarrow> ('e, 'x) sdk_buffer_scheme) \<Rightarrow>
    ('o \<Rightarrow> ('e, 'x) sdk_buffer_scheme \<Rightarrow> ('e, 'x) sdk_buffer_scheme) \<Rightarrow>
    ('e, 'x) sdk_buffer_scheme \<times> nat \<Rightarrow> ('o, 'e) sdk_op \<Rightarrow> ('e, 'x) sdk_buffer_scheme \<times> nat" where
  "sdk_step send flush (s, full) (Send w e) = (send w e s, if buffer_size s \<le> length (queue s) then Suc full else full)"
| "sdk_step send flush (s, full) (Flush w) = (flush w s, full)"

lemma take_last_snoc_cases:
  assumes "length q \<le> n"
  shows "\<exists>r. subseq r q \<and> take_last n (q @ [e]) = (if n = 0 then [] else r @ [e]) \<and>
    length (take_last n (q @ [e])) + (if n \<le> length q then 1 else 0) = Suc (length q)"
proof (cases "length q < n")
  case True
  then show ?thesis by (intro exI [of _ q]) simp
next
  case False
  with assms have n: "length q = n" by simp
  show ?thesis
  proof (cases q)
    case Nil
    with n show ?thesis by (intro exI [of _ "[]"]) (simp add: take_last_def)
  next
    case (Cons x q')
    with n show ?thesis by (intro exI [of _ q']) (auto simp: take_last_def)
  qed
qed

lemma subseq_prefix: "subseq xs (xs @ ys)"
  using list_emb_append_mono [of "(=)" xs xs "[]" ys] by simp

context transport
begin

lemma run_events:
  assumes "list_all (\<lambda>x. good (sdk_env x)) ops" and "queue s0 = []" and "wire s0 = []"
    and "foldl (sdk_step send flush) (s0, 0) ops = (s, full)"
  shows "subseq (wire s @ queue s) (concat (map sdk_sent ops)) \<and> length (queue s) \<le> buffer_size s \<and>
    buffer_size s = buffer_size s0 \<and> length (concat (map sdk_sent ops)) = length (wire s @ queue s) + full"
  using assms(1,4)
proof (induction ops arbitrary: s full rule: rev_induct)
  case Nil
  with assms(2,3) show ?case by auto
next
  case (snoc x ops)
  obtain s1 full1 where s1: "foldl (sdk_step send flush) (s0, 0) ops = (s1, full1)" by fastforce
  with snoc have IH: "subseq (wire s1 @ queue s1) (concat (map sdk_sent ops))" "length (queue s1) \<le> buffer_size s1"
    "buffer_size s1 = buffer_size s0" "length (concat (map sdk_sent ops)) = length (wire s1 @ queue s1) + full1"
    by auto
  from snoc.prems(1) have g: "good (sdk_env x)" by simp
  show ?case
  proof (cases x)
    case (Flush w)
    with g have ev: "wire (flush w s1) @ queue (flush w s1) = wire s1 @ queue s1" by (simp add: flush_events IH(2))
    have "s = flush w s1" "full = full1" using snoc.prems(2) s1 Flush by auto
    with ev IH flush_room [of w s1] g Flush show ?thesis by simp
  next
    case (Send w e)
    with g have gw: "good w" by simp
    have s: "s = send w e s1" "full = (if buffer_size s1 \<le> length (queue s1) then Suc full1 else full1)"
      using snoc.prems(2) s1 Send by auto
    have ev: "wire s @ queue s = wire s1 @ take_last (buffer_size s1) (queue s1 @ [e])"
      unfolding s by (rule send_events [OF gw IH(2)])
    obtain r where r: "subseq r (queue s1)"
      "take_last (buffer_size s1) (queue s1 @ [e]) = (if buffer_size s1 = 0 then [] else r @ [e])"
      "length (take_last (buffer_size s1) (queue s1 @ [e])) + (if buffer_size s1 \<le> length (queue s1) then 1 else 0) =
        Suc (length (queue s1))"
      using take_last_snoc_cases [OF IH(2), of e] by blast
    have "subseq (wire s1 @ r) (concat (map sdk_sent ops))"
      using IH(1) r(1) by (meson list_emb_append_mono subseq_order.order_refl subseq_order.order_trans)
    then have a: "subseq ((wire s1 @ r) @ [e]) (concat (map sdk_sent ops) @ [e])"
      by (rule list_emb_append_mono) simp
    have b: "subseq (wire s1 @ []) (concat (map sdk_sent ops) @ [e])"
      using subseq_order.order_trans [OF subseq_prefix subseq_order.order_trans [OF IH(1) subseq_prefix]] by simp
    have "subseq (wire s @ queue s) (concat (map sdk_sent ops) @ [e])"
      unfolding ev r(2) using a b by (cases "buffer_size s1 = 0") simp_all
    moreover have "length (concat (map sdk_sent (ops @ [x]))) = length (wire s @ queue s) + full"
      unfolding ev using IH(4) r(3) Send by (auto simp: s(2) split: if_splits)
    ultimately show ?thesis using send_room [OF gw IH(2), of e] IH(3) Send s(1) by simp
  qed
qed

end

section \<open>The transports fulfil it\<close>

lemma append_room [simp]:
  "buffer_size (append_event e s) = buffer_size s" "batch_size (append_event e s) = batch_size s"
  "wire (append_event e s) = wire s" "queue (append_event e s) = take_last (buffer_size s) (queue s @ [e])"
  by (simp_all add: append_event_def)

lemma socket_do_flush_events:
  assumes "\<forall>e. dumps e \<noteq> None" and "length (queue s) \<le> buffer_size s"
  shows "wire (snd (socket_do_flush dumps w s)) @ queue (snd (socket_do_flush dumps w s)) = wire s @ queue s \<and>
    length (queue (snd (socket_do_flush dumps w s))) \<le> buffer_size s \<and>
    buffer_size (snd (socket_do_flush dumps w s)) = buffer_size s"
proof -
  obtain ls where ls: "lines_of dumps (take (batch_size s) (queue s)) = Some ls"
    using lines_encodable assms(1) by blast
  show ?thesis
    using assms(2) ls
    by (auto simp: socket_do_flush_def socket_connect_def pop_batch_def requeue_room Let_def split: if_splits)
qed

interpretation socket: transport "\<lambda>w e s. snd (socket_send dumps w e s)" "\<lambda>w s. snd (socket_flush dumps w s)"
  "\<lambda>_. \<forall>e. dumps e \<noteq> None"
proof
  fix w :: socket_env and s :: "'a socket_transport" and e
  assume d: "\<forall>e. dumps e \<noteq> None" and room: "length (queue s) \<le> buffer_size s"
  have room': "length (queue (append_event e s)) \<le> buffer_size (append_event e s)" by simp
  show "wire (snd (socket_send dumps w e s)) @ queue (snd (socket_send dumps w e s)) =
      wire s @ take_last (buffer_size s) (queue s @ [e])"
    "length (queue (snd (socket_send dumps w e s))) \<le> buffer_size s \<and> buffer_size (snd (socket_send dumps w e s)) = buffer_size s"
    using socket_do_flush_events [OF d room', of w] by (simp_all add: socket_send_def Let_def)
  show "wire (snd (socket_flush dumps w s)) @ queue (snd (socket_flush dumps w s)) = wire s @ queue s"
    "length (queue (snd (socket_flush dumps w s))) \<le> buffer_size s \<and> buffer_size (snd (socket_flush dumps w s)) = buffer_size s"
    using socket_do_flush_events [OF d room, of w] by (simp_all add: socket_flush_def)
qed

lemma http_do_flush_events:
  assumes "\<forall>e. dumps e \<noteq> None" and "length (queue s) \<le> buffer_size s"
  shows "wire (snd (http_do_flush dumps w s)) @ queue (snd (http_do_flush dumps w s)) = wire s @ queue s \<and>
    length (queue (snd (http_do_flush dumps w s))) \<le> buffer_size s \<and>
    buffer_size (snd (http_do_flush dumps w s)) = buffer_size s"
proof -
  obtain ls where "lines_of dumps (take (batch_size s) (queue s)) = Some ls"
    using lines_encodable assms(1) by blast
  with assms(2) show ?thesis by (auto simp: http_do_flush_def pop_batch_def requeue_room)
qed

interpretation http: transport "\<lambda>w e s. snd (http_send dumps w e s)" "\<lambda>w s. snd (http_do_flush dumps w s)"
  "\<lambda>_. \<forall>e. dumps e \<noteq> None"
proof
  fix w :: http_env and s :: "'a sdk_buffer" and e
  assume d: "\<forall>e. dumps e \<noteq> None" and room: "length (queue s) \<le> buffer_size s"
  have room': "length (queue (append_event e s)) \<le> buffer_size (append_event e s)" by simp
  show "wire (snd (http_send dumps w e s)) @ queue (snd (http_send dumps w e s)) =
      wire s @ take_last (buffer_size s) (queue s @ [e])"
    "length (queue (snd (http_send dumps w e s))) \<le> buffer_size s \<and> buffer_size (snd (http_send dumps w e s)) = buffer_size s"
    using http_do_flush_events [OF d room', of w] by (simp_all add: http_send_def Let_def)
  show "wire (snd (http_do_flush dumps w s)) @ queue (snd (http_do_flush dumps w s)) = wire s @ queue s"
    "length (queue (snd (http_do_flush dumps w s))) \<le> buffer_size s \<and> buffer_size (snd (http_do_flush dumps w s)) = buffer_size s"
    using http_do_flush_events [OF d room, of w] by simp_all
qed

text \<open>The asynchronous transport keeps the events that cannot be encoded, too.\<close>

lemma async_do_flush_events:
  assumes "length (queue s) \<le> buffer_size s"
  shows "wire (async_do_flush dumps w s) @ queue (async_do_flush dumps w s) = wire s @ queue s \<and>
    length (queue (async_do_flush dumps w s)) \<le> buffer_size s \<and> buffer_size (async_do_flush dumps w s) = buffer_size s"
  using assms by (auto simp: async_do_flush_def pop_batch_def requeue_room)

interpretation async: transport "async_send dumps" "async_do_flush dumps" "\<lambda>_. True"
proof
  fix w :: http_env and s :: "'a sdk_buffer" and e
  assume room: "length (queue s) \<le> buffer_size s"
  have room': "length (queue (append_event e s)) \<le> buffer_size (append_event e s)" by simp
  show "wire (async_send dumps w e s) @ queue (async_send dumps w e s) = wire s @ take_last (buffer_size s) (queue s @ [e])"
    "length (queue (async_send dumps w e s)) \<le> buffer_size s \<and> buffer_size (async_send dumps w e s) = buffer_size s"
    using async_do_flush_events [OF room', of dumps w] by (simp_all add: async_send_def Let_def)
  show "wire (async_do_flush dumps w s) @ queue (async_do_flush dumps w s) = wire s @ queue s"
    "length (queue (async_do_flush dumps w s)) \<le> buffer_size s \<and> buffer_size (async_do_flush dumps w s) = buffer_size s"
    using async_do_flush_events [OF room, of dumps w] by simp_all
qed

text \<open>
  C15: Whatever the sensor does, when every event can be encoded, the events sent completely and those
  waiting are a subsequence of the events the agent sent, in their order; exactly one is missing for each
  event sent at a full queue.
\<close>

theorem socket_events_in_order:
  assumes "\<forall>e. dumps e \<noteq> None"
    and "foldl (sdk_step (\<lambda>w e s. snd (socket_send dumps w e s)) (\<lambda>w s. snd (socket_flush dumps w s)))
      (new_socket_transport batch cap, 0) ops = (s, full)"
  shows "subseq (wire s @ queue s) (concat (map sdk_sent ops)) \<and> length (queue s) \<le> cap \<and>
    length (concat (map sdk_sent ops)) = length (wire s @ queue s) + full"
proof -
  have "list_all (\<lambda>x. \<forall>e. dumps e \<noteq> None) ops" using assms(1) by (simp add: list_all_iff)
  from socket.run_events [OF this _ _ assms(2)] show ?thesis by (simp add: new_socket_transport_def)
qed

lemma socket_events_in_order_witness:
  "wire (fst (foldl (sdk_step (\<lambda>w e s. snd (socket_send Some w e s)) (\<lambda>w s. snd (socket_flush Some w s)))
      (new_socket_transport 2 2, 0)
      (map (\<lambda>(up, e). Send \<lparr>accepts_connection = up, takes_text = (\<lambda>_. up)\<rparr> e)
        [(False, ''a''), (False, ''b''), (False, ''c''), (True, ''d''), (True, ''e''), (True, ''f'')]))) =
     [''c'', ''d'', ''e'', ''f'']"
proof -
  let ?ops = "map (\<lambda>(up, e). Send \<lparr>accepts_connection = up, takes_text = (\<lambda>_. up)\<rparr> e)
        [(False, ''a''), (False, ''b''), (False, ''c''), (True, ''d''), (True, ''e''), (True, ''f'')]"
  obtain s full where run: "foldl (sdk_step (\<lambda>w e s. snd (socket_send Some w e s)) (\<lambda>w s. snd (socket_flush Some w s)))
      (new_socket_transport 2 2, 0) ?ops = (s, full)" by fastforce
  then have "full = 2"
    by (simp add: socket_send_def socket_do_flush_def socket_connect_def new_socket_transport_def pop_batch_def
        append_event_def take_last_def Let_def)
  with socket_events_in_order [OF _ run] run show ?thesis
    by (auto simp: socket_send_def socket_do_flush_def socket_connect_def new_socket_transport_def pop_batch_def
        append_event_def take_last_def Let_def)
qed

section \<open>Refused batches\<close>

text \<open>\<open>refuses e w\<close>: every batch with the event is answered with an error.\<close>

definition refuses :: "('e \<Rightarrow> string option) \<Rightarrow> 'e \<Rightarrow> http_env \<Rightarrow> bool" where
  "refuses dumps e w \<longleftrightarrow> (\<forall>b t. e \<in> set b \<longrightarrow> lines_of dumps b = Some t \<longrightarrow> \<not> accepted w t)"

lemma http_do_flush_refused:
  assumes "\<forall>e. dumps e \<noteq> None" and "refuses dumps e w" and "queue s = e # q" and "0 < batch_size s"
    and "length (queue s) \<le> buffer_size s"
  shows "snd (http_do_flush dumps w s) = s"
proof -
  obtain ls where ls: "lines_of dumps (take (batch_size s) (queue s)) = Some ls" using lines_encodable assms(1) by blast
  have "e \<in> set (take (batch_size s) (queue s))" using assms(3,4) by (cases "batch_size s") auto
  with assms(2) ls have "\<not> accepted w ls" by (auto simp: refuses_def)
  with ls requeue_pop [OF assms(5), of "batch_size s"] show ?thesis by (simp add: http_do_flush_def pop_batch_def)
qed

text \<open>
  When the gateway refuses every batch with a certain event, nothing is delivered from the moment the
  event is the oldest one, whatever is sent behind it, for as long as the queue has room.
\<close>

theorem refused_event_blocks:
  assumes "\<forall>e. dumps e \<noteq> None" and "list_all (\<lambda>x. refuses dumps e (sdk_env x)) ops" and "queue s0 = e # q"
    and "0 < batch_size s0" and "length (queue s0) + length (concat (map sdk_sent ops)) \<le> buffer_size s0"
    and "foldl (sdk_step (\<lambda>w e s. snd (http_send dumps w e s)) (\<lambda>w s. snd (http_do_flush dumps w s))) (s0, n) ops = (s, full)"
  shows "wire s = wire s0 \<and> queue s = queue s0 @ concat (map sdk_sent ops)"
  using assms(2-6)
proof (induction ops arbitrary: s0 q n)
  case (Cons x ops)
  have r: "refuses dumps e (sdk_env x)" and room: "length (queue s0) \<le> buffer_size s0"
    using Cons.prems(1,4) by simp_all
  show ?case
  proof (cases x)
    case (Flush w)
    with http_do_flush_refused [OF assms(1) _ Cons.prems(2,3) room] r Cons.prems Cons.IH [of s0 q n]
    show ?thesis by simp
  next
    case (Send w a)
    let ?s1 = "s0\<lparr>queue := queue s0 @ [a]\<rparr>"
    have ap: "append_event a s0 = ?s1" using Cons.prems(4) Send by (simp add: append_event_def)
    have s1: "snd (http_send dumps w a s0) = ?s1"
      using http_do_flush_refused [OF assms(1), of e w ?s1 "q @ [a]"] r Cons.prems(2-4) Send
      by (simp add: http_send_def Let_def ap)
    with Cons.prems Cons.IH [of ?s1 "q @ [a]" "if buffer_size s0 \<le> length (queue s0) then Suc n else n"] Send
    show ?thesis by simp
  qed
qed simp

lemma refused_event_blocks_witness:
  "wire (fst (foldl (sdk_step (\<lambda>w e s. snd (http_send Some w e s)) (\<lambda>w s. snd (http_do_flush Some w s)))
      (\<lparr>queue = [''bad''], batch_size = 1, buffer_size = 9, wire = []\<rparr>, 0)
      [Send \<lparr>has_httpx = True, answer = (\<lambda>_. Some 413)\<rparr> ''good''])) = []"
proof -
  let ?ops = "[Send \<lparr>has_httpx = True, answer = (\<lambda>_. Some 413)\<rparr> ''good'']"
  let ?s0 = "\<lparr>queue = [''bad''], batch_size = 1, buffer_size = 9, wire = []\<rparr>"
  obtain s full where run: "foldl (sdk_step (\<lambda>w e s. snd (http_send Some w e s)) (\<lambda>w s. snd (http_do_flush Some w s)))
      (?s0, 0) ?ops = (s, full)" by fastforce
  have "list_all (\<lambda>x. refuses Some ''bad'' (sdk_env x)) ?ops" by (simp add: refuses_def accepted_def)
  from refused_event_blocks [OF _ this _ _ _ run, of "[]"] run show ?thesis by simp
qed

section \<open>Lost events\<close>

text \<open>When an event of the batch cannot be encoded, the whole batch is lost, and the caller gets the exception.\<close>

lemma unencodable_batch_lost:
  assumes "queue s \<noteq> []" and "connected s" and "lines_of dumps (take (batch_size s) (queue s)) = None"
  shows "socket_do_flush dumps w s = (Raised, s\<lparr>queue := drop (batch_size s) (queue s)\<rparr>)"
  using assms by (simp add: socket_do_flush_def pop_batch_def)

text \<open>Closing sends one batch; the asynchronous transport sends up to a hundred.\<close>

lemma socket_close_leaves:
  assumes "\<forall>e. dumps e \<noteq> None" and "connected s" and "\<forall>t. takes_text w t"
  shows "queue (snd (socket_close dumps w s)) = drop (batch_size s) (queue s)"
proof -
  obtain ls where "lines_of dumps (take (batch_size s) (queue s)) = Some ls" using lines_encodable assms(1) by blast
  with assms show ?thesis by (simp add: socket_close_def socket_flush_def socket_do_flush_def pop_batch_def)
qed

lemma close_rounds_drain:
  assumes "\<forall>e. dumps e \<noteq> None" and "has_httpx w" and "\<forall>t. accepted w t"
  shows "length (queue s) \<le> n * batch_size s \<Longrightarrow> queue (close_rounds n dumps w s) = []"
proof (induction n arbitrary: s)
  case (Suc n)
  obtain ls where "lines_of dumps (take (batch_size s) (queue s)) = Some ls" using lines_encodable assms(1) by blast
  with assms Suc.IH [of "async_do_flush dumps w s"] Suc.prems show ?case
    by (auto simp: async_do_flush_def pop_batch_def)
qed simp

lemma async_close_drains:
  assumes "\<forall>e. dumps e \<noteq> None" and "has_httpx w" and "\<forall>t. accepted w t" and "length (queue s) \<le> 100 * batch_size s"
  shows "queue (async_close dumps w s) = []"
  unfolding async_close_def by (rule close_rounds_drain [OF assms])

text \<open>The pause before the next attempt stays between one and thirty seconds.\<close>

lemma reconnect_delay_bounded:
  assumes "1 \<le> reconnect_delay s" and "reconnect_delay s \<le> 30"
  shows "1 \<le> reconnect_delay (snd (socket_do_flush dumps w s)) \<and> reconnect_delay (snd (socket_do_flush dumps w s)) \<le> 30"
proof -
  have "reconnect_delay (requeue b t) = reconnect_delay t" for b and t :: "'a socket_transport"
  proof -
    have "reconnect_delay (fold appendleft_event b t) = reconnect_delay t" for b
      by (induction b arbitrary: t) (simp_all add: appendleft_event_def)
    then show ?thesis by (simp add: requeue_def)
  qed
  with assms show ?thesis
    by (auto simp: socket_do_flush_def socket_connect_def pop_batch_def MAX_RECONNECT_DELAY_def Let_def min_def
        split: option.split)
qed

text \<open>No line break is left in a header.\<close>

lemma safe_header_one_line: "char_of (10 :: nat) \<notin> set (safe_header v) \<and> char_of (13 :: nat) \<notin> set (safe_header v)"
  by (simp add: safe_header_def)

end
