(* ===== verification/Consumers.thy ===== *)
theory Consumers
  imports Py_Values Interfaces
begin

text \<open>
  The storage consumers: the Kafka loop of \<open>backend/app/consumers/base_consumer.py\<close> with its batches, retries
  and dead letters, and the Postgres writer of \<open>pg_writer.py\<close>. The topic is a list of messages; the JSON,
  protobuf and UUID parsers, the broker's answers and the clock are parameters.
\<close>

section \<open>Messages\<close>

definition MAX_MESSAGE_BYTES :: nat where
  "MAX_MESSAGE_BYTES = 1048576"

text \<open>A message's value is its bytes; a tombstone has none.\<close>

record kafka_message =
  km_topic :: string
  km_value :: "string option"

record decoders =
  json_loads :: "string \<Rightarrow> pval option"
  parse_protobuf :: "string \<Rightarrow> (string, pval) dict option"
  parse_uuid :: "string \<Rightarrow> string option"

definition consumer_tenant :: "string \<Rightarrow> string option" where
  "consumer_tenant t =
     (if starts_with ''phantex.events.'' t
      then let r = strip_final_newline (drop (length ''phantex.events.'') t)
           in if r \<noteq> [] \<and> char_of (10 :: nat) \<notin> set r then Some r else None
      else None)"

text \<open>
  JSON for a value that starts with a brace, then protobuf, then JSON for anything: the value (\<open>None\<close> when
  none of them takes it, \<open>VNone\<close> when there are no bytes) and how often each parser succeeded as counted.
\<close>

definition decode_value :: "decoders \<Rightarrow> string option \<Rightarrow> pval option \<times> nat \<times> nat" where
  "decode_value dec v =
     (case v of
        Some (b # bs) \<Rightarrow>
          (let raw = b # bs;
               fast = (if b = CHR ''{'' then json_loads dec raw else None);
               (e1, j) = (case fast of Some e \<Rightarrow> (e, 1) | None \<Rightarrow> (VNone, 0));
               (e2, p) = (if e1 = VNone then case parse_protobuf dec raw of Some d \<Rightarrow> (VDict d, 1) | None \<Rightarrow> (VNone, 0)
                          else (e1, 0))
           in if e2 = VNone then (json_loads dec raw, j, p) else (Some e2, j, p))
      | _ \<Rightarrow> (Some VNone, 0, 0))"

text \<open>What becomes of a message: it is left out with an error counted, an event is buffered, or the loop ends with \<open>AttributeError\<close>.\<close>

datatype classified = Skipped | Buffered pval | Crashed

definition add_tenant :: "string \<Rightarrow> pval \<Rightarrow> classified" where
  "add_tenant tenant e =
     (case e of
        VDict d \<Rightarrow> Buffered (VDict (case dict_get d ''tenant_id'' of Some _ \<Rightarrow> d | None \<Rightarrow> dict_set ''tenant_id'' (VStr tenant) d))
      | _ \<Rightarrow> Crashed)"

definition classify_message :: "decoders \<Rightarrow> kafka_message \<Rightarrow> classified \<times> nat \<times> nat" where
  "classify_message dec m =
     (if (case km_value m of Some raw \<Rightarrow> MAX_MESSAGE_BYTES < length raw | None \<Rightarrow> False) then (Skipped, 0, 0)
      else case decode_value dec (km_value m) of
        (None, j, p) \<Rightarrow> (Skipped, j, p)
      | (Some e, j, p) \<Rightarrow>
          (case consumer_tenant (km_topic m) of
             None \<Rightarrow> (Buffered e, j, p)
           | Some t \<Rightarrow>
               (case parse_uuid dec t of
                  None \<Rightarrow> (Skipped, j, p)
                | Some u \<Rightarrow> (add_tenant u e, j, p))))"

section \<open>The consumer\<close>

text \<open>
  The counters and the buffer of the consumer, what the broker keeps for it (the position of the open
  consumer and the committed offset), the storage it writes, and what became of the events: processed in
  a batch, sent to the dead letters, or lost.
\<close>

record 'db consumer =
  cn_batch_size :: nat
  cn_max_retries :: nat
  cn_flush_interval :: rat
  cn_buffer :: "pval list"
  cn_last_flush :: rat
  cn_consumed :: nat
  cn_written :: nat
  cn_dlq_count :: nat
  cn_batches :: nat
  cn_errors :: nat
  cn_protobuf :: nat
  cn_json :: nat
  cn_position :: nat
  cn_committed :: nat
  cn_db :: 'db
  cn_processed :: "pval list"
  cn_dead_letters :: "pval list"
  cn_lost :: "pval list"

text \<open>\<open>ce_process k db batch\<close>: the outcome of the k-th attempt, and the storage after it.\<close>

record 'db consumer_env =
  ce_now :: rat
  ce_flushed :: rat
  ce_process :: "nat \<Rightarrow> 'db \<Rightarrow> pval list \<Rightarrow> bool \<times> 'db"
  ce_dlq_takes :: "pval \<Rightarrow> bool"
  ce_commits :: bool

definition new_consumer :: "nat \<Rightarrow> nat \<Rightarrow> rat \<Rightarrow> rat \<Rightarrow> 'db \<Rightarrow> 'db consumer" where
  "new_consumer batch retries interval now db =
     \<lparr>cn_batch_size = batch, cn_max_retries = retries, cn_flush_interval = interval, cn_buffer = [],
      cn_last_flush = now, cn_consumed = 0, cn_written = 0, cn_dlq_count = 0, cn_batches = 0, cn_errors = 0,
      cn_protobuf = 0, cn_json = 0, cn_position = 0, cn_committed = 0, cn_db = db, cn_processed = [],
      cn_dead_letters = [], cn_lost = []\<rparr>"

text \<open>The attempts \<open>k, k + 1, ...\<close>, at most \<open>n\<close> of them.\<close>

fun batch_attempts :: "(nat \<Rightarrow> 'db \<Rightarrow> pval list \<Rightarrow> bool \<times> 'db) \<Rightarrow> nat \<Rightarrow> nat \<Rightarrow> 'db \<Rightarrow> pval list \<Rightarrow> bool \<times> 'db" where
  "batch_attempts process k 0 db batch = (False, db)"
| "batch_attempts process k (Suc n) db batch =
     (case process k db batch of (True, db') \<Rightarrow> (True, db') | (False, db') \<Rightarrow> batch_attempts process (Suc k) n db' batch)"

definition backoff :: "nat \<Rightarrow> nat" where
  "backoff attempt = min (2 ^ attempt) 30"

definition send_to_dlq :: "(pval \<Rightarrow> bool) \<Rightarrow> pval list \<Rightarrow> 'db consumer \<Rightarrow> 'db consumer" where
  "send_to_dlq takes events c =
     c\<lparr>cn_dlq_count := cn_dlq_count c + length (filter takes events),
       cn_dead_letters := cn_dead_letters c @ filter takes events,
       cn_lost := cn_lost c @ filter (\<lambda>e. \<not> takes e) events\<rparr>"

definition flush_batch :: "'db consumer_env \<Rightarrow> 'db consumer \<Rightarrow> 'db consumer" where
  "flush_batch w c =
     (if cn_buffer c = [] then c
      else let batch = cn_buffer c; c1 = c\<lparr>cn_buffer := [], cn_last_flush := ce_flushed w\<rparr>
           in case batch_attempts (ce_process w) 1 (cn_max_retries c) (cn_db c) batch of
                (True, db) \<Rightarrow> c1\<lparr>cn_db := db, cn_written := cn_written c + length batch, cn_batches := cn_batches c + 1,
                                  cn_processed := cn_processed c @ batch\<rparr>
              | (False, db) \<Rightarrow> send_to_dlq (ce_dlq_takes w) batch (c1\<lparr>cn_db := db\<rparr>))"

text \<open>After an error the loop opens a new consumer, which starts at the committed offset; the buffer is kept.\<close>

definition reconnect :: "'db consumer \<Rightarrow> 'db consumer" where
  "reconnect c = c\<lparr>cn_position := cn_committed c\<rparr>"

text \<open>One message of the topic; without one the consumer waits.\<close>

definition consume_next :: "decoders \<Rightarrow> kafka_message list \<Rightarrow> 'db consumer_env \<Rightarrow> 'db consumer \<Rightarrow> 'db consumer" where
  "consume_next dec topic w c =
     (if length topic \<le> cn_position c then c
      else case classify_message dec (topic ! cn_position c) of
        (r, j, p) \<Rightarrow>
          (let c1 = c\<lparr>cn_position := cn_position c + 1, cn_consumed := cn_consumed c + 1, cn_json := cn_json c + j,
                      cn_protobuf := cn_protobuf c + p\<rparr>
           in case r of
                Skipped \<Rightarrow> c1\<lparr>cn_errors := cn_errors c + 1\<rparr>
              | Crashed \<Rightarrow> reconnect c1
              | Buffered e \<Rightarrow>
                  (let c2 = c1\<lparr>cn_buffer := cn_buffer c @ [e]\<rparr>
                   in if cn_batch_size c \<le> length (cn_buffer c2) \<or> cn_flush_interval c \<le> ce_now w - cn_last_flush c
                      then let c3 = flush_batch w c2
                           in if ce_commits w then c3\<lparr>cn_committed := cn_position c3\<rparr> else reconnect c3
                      else c2)))"

text \<open>\<open>stop\<close> writes the buffer and commits nothing.\<close>

definition stop_consumer :: "'db consumer_env \<Rightarrow> 'db consumer \<Rightarrow> 'db consumer" where
  "stop_consumer w c = flush_batch w c"

section \<open>The Postgres writer\<close>

record event_row =
  er_id :: string
  er_tenant :: pval
  er_agent :: pval
  er_sensor :: pval
  er_type :: pval
  er_severity :: string
  er_time :: rat
  er_raw :: "(string, pval) dict"

record seen_agent =
  ag_tenant :: string
  ag_framework :: pval
  ag_exe_path :: pval
  ag_pid :: pval
  ag_sensor :: pval
  ag_status :: string
  ag_first_seen :: rat
  ag_last_seen :: rat
  ag_updated :: rat

text \<open>The rows by their keys: identifier and time of an event, identifier of an agent.\<close>

record pg_tables =
  pg_events :: "(string \<times> rat, event_row) dict"
  pg_agents :: "(string, seen_agent) dict"

text \<open>
  What the writer meets: the parser of timestamps (the present time when it fails), the JSON parser, whether
  the database takes a row, and whether it takes an agent.
\<close>

record pg_env =
  pe_parse_ts :: "pval \<Rightarrow> rat"
  pe_json_loads :: "string \<Rightarrow> pval option"
  pe_takes_event :: "event_row \<Rightarrow> bool"
  pe_takes_agent :: "string \<Rightarrow> seen_agent \<Rightarrow> bool"

definition field_of :: "(string, pval) dict \<Rightarrow> string \<Rightarrow> pval" where
  "field_of d k = dict_get_or d k VNone"

definition or_none :: "pval \<Rightarrow> pval" where
  "or_none v = (if truthy v then v else VNone)"

definition severity_override_of :: "string \<Rightarrow> string option" where
  "severity_override_of t =
     (if t = ''AGENT_DISCOVERED'' then Some ''medium'' else if t = ''AGENT_TERMINATED'' then Some ''high'' else None)"

text \<open>\<open>None\<close> is an exception: an event type that is no key, or a severity that is no text.\<close>

definition stored_severity :: "pval \<Rightarrow> pval \<Rightarrow> string option" where
  "stored_severity event_type severity =
     (case event_type of
        VList _ \<Rightarrow> None
      | VDict _ \<Rightarrow> None
      | _ \<Rightarrow>
          (case (case event_type of VStr t \<Rightarrow> severity_override_of t | _ \<Rightarrow> None) of
             Some s \<Rightarrow> Some s
           | None \<Rightarrow> (case (if truthy severity then severity else VStr ''info'') of VStr s \<Rightarrow> Some (py_lower s) | _ \<Rightarrow> None)))"

text \<open>The row of an event: left out without an identifier, an exception, or the row.\<close>

datatype row_result = No_Row | Row_Error | Row event_row

definition event_row_of :: "pg_env \<Rightarrow> pval \<Rightarrow> row_result" where
  "event_row_of w v =
     (case v of
        VDict e \<Rightarrow>
          (if \<not> truthy (field_of e ''event_id'') then No_Row
           else case stored_severity (field_of e ''event_type'') (field_of e ''severity'') of
                  None \<Rightarrow> Row_Error
                | Some sev \<Rightarrow>
                    (case field_of e ''event_id'' of
                       VStr i \<Rightarrow>
                         Row \<lparr>er_id = i, er_tenant = or_none (field_of e ''tenant_id''), er_agent = or_none (field_of e ''agent_id''),
                              er_sensor = or_none (field_of e ''sensor_id''), er_type = field_of e ''event_type'',
                              er_severity = sev, er_time = pe_parse_ts w (field_of e ''timestamp''), er_raw = e\<rparr>
                     | _ \<Rightarrow> Row_Error))
      | _ \<Rightarrow> Row_Error)"

fun rows_of :: "pg_env \<Rightarrow> pval list \<Rightarrow> event_row list option" where
  "rows_of w [] = Some []"
| "rows_of w (v # vs) =
     (case event_row_of w v of
        Row_Error \<Rightarrow> None
      | No_Row \<Rightarrow> rows_of w vs
      | Row r \<Rightarrow> map_option ((#) r) (rows_of w vs))"

text \<open>\<open>INSERT ... ON CONFLICT (id, timestamp) DO NOTHING\<close>\<close>

definition insert_event :: "event_row \<Rightarrow> (string \<times> rat, event_row) dict \<Rightarrow> (string \<times> rat, event_row) dict" where
  "insert_event r t = (if dict_get t (er_id r, er_time r) = None then dict_set (er_id r, er_time r) r t else t)"

definition coalesce :: "pval \<Rightarrow> pval \<Rightarrow> pval" where
  "coalesce new old = (if new = VNone then old else new)"

definition upsert_agent :: "pg_env \<Rightarrow> (string, pval) dict \<Rightarrow> (string, seen_agent) dict \<Rightarrow> (string, seen_agent) dict option" where
  "upsert_agent w e agents =
     (let raw = dict_get_or e ''raw_data'' (VDict []);
          data = (case raw of VStr s \<Rightarrow> (case pe_json_loads w s of None \<Rightarrow> VDict [] | Some v \<Rightarrow> v) | v \<Rightarrow> v)
      in case data of
           VDict d \<Rightarrow>
             (case dict_get_or d ''lifecycle'' (VDict []) of
                VDict l \<Rightarrow>
                  (let paid = (if truthy (field_of l ''paid'') then field_of l ''paid'' else field_of e ''agent_id'');
                       tenant = field_of e ''tenant_id''; ts = pe_parse_ts w (field_of e ''timestamp'')
                   in case (paid, tenant) of
                        (VStr p, VStr t) \<Rightarrow>
                          (if p = [] \<or> t = [] then Some agents
                           else let new = \<lparr>ag_tenant = t, ag_framework = or_none (field_of l ''framework''),
                                      ag_exe_path = or_none (field_of l ''exe_path''), ag_pid = field_of l ''pid'',
                                      ag_sensor = or_none (field_of e ''sensor_id''), ag_status = ''active'',
                                      ag_first_seen = ts, ag_last_seen = ts, ag_updated = ts\<rparr>;
                                    row = (case dict_get agents p of
                                        None \<Rightarrow> new
                                      | Some a \<Rightarrow> a\<lparr>ag_last_seen := ts, ag_updated := ts, ag_pid := coalesce (ag_pid new) (ag_pid a),
                                            ag_exe_path := coalesce (ag_exe_path new) (ag_exe_path a),
                                            ag_framework := coalesce (ag_framework new) (ag_framework a),
                                            ag_sensor := coalesce (ag_sensor new) (ag_sensor a), ag_status := ''active''\<rparr>)
                                in Some (if pe_takes_agent w p new then dict_set p row agents else agents))
                      | _ \<Rightarrow> Some agents)
              | _ \<Rightarrow> None)
         | _ \<Rightarrow> None)"

fun upsert_agents :: "pg_env \<Rightarrow> pval list \<Rightarrow> (string, seen_agent) dict \<Rightarrow> bool \<times> (string, seen_agent) dict" where
  "upsert_agents w [] agents = (True, agents)"
| "upsert_agents w (v # vs) agents =
     (case v of
        VDict e \<Rightarrow>
          (if truthy (field_of e ''event_id'') \<and> field_of e ''event_type'' = VStr ''AGENT_DISCOVERED''
           then (case upsert_agent w e agents of None \<Rightarrow> (False, agents) | Some agents' \<Rightarrow> upsert_agents w vs agents')
           else upsert_agents w vs agents)
      | _ \<Rightarrow> upsert_agents w vs agents)"

text \<open>
  The latest time of each agent of the batch, in the order of their first events; \<open>None\<close> when an agent
  is a list or a dictionary, which is no key.
\<close>

definition note_time :: "pg_env \<Rightarrow> pval \<Rightarrow> (pval, rat) dict \<Rightarrow> (pval, rat) dict option" where
  "note_time w v seen =
     (case v of
        VDict e \<Rightarrow>
          (let a = field_of e ''agent_id''; ts = pe_parse_ts w (field_of e ''timestamp'')
           in if \<not> truthy a then Some seen
              else case a of
                  VList _ \<Rightarrow> None
                | VDict _ \<Rightarrow> None
                | _ \<Rightarrow> Some (case dict_get seen a of
                          None \<Rightarrow> dict_set a ts seen
                        | Some u \<Rightarrow> if u < ts then dict_set a ts seen else seen))
      | _ \<Rightarrow> None)"

fun note_times :: "pg_env \<Rightarrow> pval list \<Rightarrow> (pval, rat) dict \<Rightarrow> (pval, rat) dict option" where
  "note_times w [] seen = Some seen"
| "note_times w (v # vs) seen = (case note_time w v seen of None \<Rightarrow> None | Some seen' \<Rightarrow> note_times w vs seen')"

definition touch_agent :: "string \<Rightarrow> rat \<Rightarrow> (string, seen_agent) dict \<Rightarrow> (string, seen_agent) dict" where
  "touch_agent paid ts agents =
     (case dict_get agents paid of
        None \<Rightarrow> agents
      | Some a \<Rightarrow> dict_set paid (a\<lparr>ag_last_seen := max (ag_last_seen a) ts,
            ag_status := (if ag_status a \<in> {''stale'', ''offline''} then ''active'' else ag_status a), ag_updated := ts\<rparr>) agents)"

text \<open>The database refuses an agent that is no text.\<close>

fun touch_agents :: "(pval, rat) dict \<Rightarrow> (string, seen_agent) dict \<Rightarrow> bool \<times> (string, seen_agent) dict" where
  "touch_agents [] agents = (True, agents)"
| "touch_agents ((a, ts) # rest) agents =
     (case a of VStr p \<Rightarrow> touch_agents rest (touch_agent p ts agents) | _ \<Rightarrow> (False, agents))"

text \<open>The batch is written, or an exception leaves the storage as far as it got.\<close>

definition pg_process_batch :: "pg_env \<Rightarrow> pg_tables \<Rightarrow> pval list \<Rightarrow> bool \<times> pg_tables" where
  "pg_process_batch w db events =
     (case rows_of w events of
        None \<Rightarrow> (False, db)
      | Some [] \<Rightarrow> (True, db)
      | Some rows \<Rightarrow>
          if \<not> list_all (pe_takes_event w) rows then (False, db)
          else let db1 = db\<lparr>pg_events := fold insert_event rows (pg_events db)\<rparr>
               in case upsert_agents w events (pg_agents db1) of
                    (False, agents) \<Rightarrow> (False, db1\<lparr>pg_agents := agents\<rparr>)
                  | (True, agents) \<Rightarrow>
                      (case note_times w events [] of
                         None \<Rightarrow> (False, db1\<lparr>pg_agents := agents\<rparr>)
                       | Some seen \<Rightarrow>
                           (case touch_agents seen agents of (ok, agents') \<Rightarrow> (ok, db1\<lparr>pg_agents := agents'\<rparr>))))"

end
