(* ===== verification/Consumers_Props.thy ===== *)
theory Consumers_Props
  imports Consumers
begin

text \<open>
  What the consumers promise: every message before the committed offset was processed, sent to the dead
  letters, lost when those did not take it, or left out; a batch may be delivered again, since the writer
  of events is idempotent. And what they do not: a message that is JSON but no object is never passed, one
  malformed event sends its whole batch to the dead letters, and the tenant of an event is its own claim.
\<close>

section \<open>Committed messages\<close>

definition settled :: "decoders \<Rightarrow> kafka_message list \<Rightarrow> 'db consumer \<Rightarrow> nat \<Rightarrow> bool" where
  "settled dec topic c i \<longleftrightarrow>
     fst (classify_message dec (topic ! i)) = Skipped \<or>
     (\<exists>e \<in> set (cn_processed c) \<union> set (cn_dead_letters c) \<union> set (cn_lost c).
        fst (classify_message dec (topic ! i)) = Buffered e)"

definition pending :: "decoders \<Rightarrow> kafka_message list \<Rightarrow> 'db consumer \<Rightarrow> nat \<Rightarrow> bool" where
  "pending dec topic c i \<longleftrightarrow>
     (\<exists>e \<in> set (cn_buffer c). fst (classify_message dec (topic ! i)) = Buffered e)"

definition consumer_ok :: "decoders \<Rightarrow> kafka_message list \<Rightarrow> 'db consumer \<Rightarrow> bool" where
  "consumer_ok dec topic c \<longleftrightarrow> cn_committed c \<le> cn_position c \<and> cn_position c \<le> length topic \<and>
     (\<forall>i < cn_committed c. settled dec topic c i) \<and>
     (\<forall>i < cn_position c. settled dec topic c i \<or> pending dec topic c i)"

text \<open>What a flush does with the buffer.\<close>

lemma flush_batch_outcome:
  "cn_buffer (flush_batch w c) = []"
  "cn_position (flush_batch w c) = cn_position c" "cn_committed (flush_batch w c) = cn_committed c"
  "set (cn_processed (flush_batch w c)) \<union> set (cn_dead_letters (flush_batch w c)) \<union> set (cn_lost (flush_batch w c)) =
     set (cn_processed c) \<union> set (cn_dead_letters c) \<union> set (cn_lost c) \<union> set (cn_buffer c)"
  by (auto simp: flush_batch_def send_to_dlq_def Let_def split: prod.split bool.split)

lemma settled_flush:
  "settled dec topic (flush_batch w c) i \<longleftrightarrow> settled dec topic c i \<or> pending dec topic c i"
  unfolding settled_def pending_def flush_batch_outcome by blast

lemma consumer_ok_reconnect: "consumer_ok dec topic c \<Longrightarrow> consumer_ok dec topic (reconnect c)"
  by (auto simp: consumer_ok_def reconnect_def settled_def pending_def)

lemma consumer_ok_flush: "consumer_ok dec topic c \<Longrightarrow> consumer_ok dec topic (flush_batch w c)"
  by (auto simp: consumer_ok_def flush_batch_outcome(2,3) settled_flush)

lemma consumer_ok_commit:
  "consumer_ok dec topic c \<Longrightarrow> cn_buffer c = [] \<Longrightarrow> consumer_ok dec topic (c\<lparr>cn_committed := cn_position c\<rparr>)"
  by (auto simp: consumer_ok_def settled_def pending_def)

lemma consume_next_ok:
  assumes "consumer_ok dec topic c"
  shows "consumer_ok dec topic (consume_next dec topic w c)"
proof (cases "length topic \<le> cn_position c")
  case True
  with assms show ?thesis by (simp add: consume_next_def)
next
  case False
  obtain r j p where r: "classify_message dec (topic ! cn_position c) = (r, j, p)" by (metis prod_cases3)
  let ?c1 = "c\<lparr>cn_position := cn_position c + 1, cn_consumed := cn_consumed c + 1, cn_json := cn_json c + j,
               cn_protobuf := cn_protobuf c + p\<rparr>"
  show ?thesis
  proof (cases r)
    case Skipped
    with assms False r show ?thesis
      by (auto simp: consume_next_def Let_def consumer_ok_def settled_def pending_def less_Suc_eq)
  next
    case Crashed
    have "consumer_ok dec topic (reconnect ?c1)"
      using assms by (auto simp: consumer_ok_def reconnect_def settled_def pending_def)
    with Crashed False r show ?thesis by (simp add: consume_next_def Let_def)
  next
    case (Buffered e)
    let ?c2 = "?c1\<lparr>cn_buffer := cn_buffer c @ [e]\<rparr>"
    have c2: "consumer_ok dec topic ?c2"
      using assms False r Buffered by (auto simp: consumer_ok_def settled_def pending_def less_Suc_eq)
    then have fl: "consumer_ok dec topic (flush_batch w ?c2)" by (rule consumer_ok_flush)
    note consumer_ok_reconnect [OF fl] consumer_ok_commit [OF fl flush_batch_outcome(1)]
    with c2 False r Buffered show ?thesis by (simp add: consume_next_def Let_def)
  qed
qed

interpretation consuming: machine "\<lambda>c w. consume_next dec topic w c" "consumer_ok dec topic"
  by unfold_locales (rule consume_next_ok)

text \<open>
  C14: Whatever the storage, the dead letters, the broker and the clock do, every message before the committed
  offset is one of those that are left out, or its event was in a batch that was processed, went to the
  dead letters, or was refused by them, too.
\<close>

theorem committed_messages_settled:
  assumes "c = foldl (\<lambda>c w. consume_next dec topic w c) (new_consumer batch retries interval now db) ws"
    and "i < cn_committed c"
  shows "i < length topic \<and>
    (fst (classify_message dec (topic ! i)) = Skipped \<or>
     (\<exists>e. fst (classify_message dec (topic ! i)) = Buffered e \<and>
        e \<in> set (cn_processed c) \<union> set (cn_dead_letters c) \<union> set (cn_lost c)))"
proof -
  have "consumer_ok dec topic (new_consumer batch retries interval now db)" by (simp add: consumer_ok_def new_consumer_def)
  then have ok: "consumer_ok dec topic c" unfolding assms(1) by (rule consuming.inv_run)
  then have "settled dec topic c i" and "i < length topic" using assms(2) by (auto simp: consumer_ok_def)
  then show ?thesis by (auto simp: settled_def)
qed

text \<open>Nothing is lost while the dead letters take every event.\<close>

lemma nothing_lost:
  assumes "list_all (\<lambda>w. \<forall>e. ce_dlq_takes w e) ws"
  shows "cn_lost (foldl (\<lambda>c w. consume_next dec topic w c) (new_consumer batch retries interval now db) ws) = []"
proof -
  have "cn_lost (consume_next dec topic w c) = cn_lost c" if "\<forall>e. ce_dlq_takes w e" for w and c :: "'a consumer"
    using that
    by (auto simp: consume_next_def flush_batch_def send_to_dlq_def reconnect_def Let_def split: prod.split bool.split classified.split)
  then have "cn_lost (foldl (\<lambda>c w. consume_next dec topic w c) c ws) = cn_lost c" for c :: "'a consumer"
    using assms by (induction ws arbitrary: c) auto
  then show ?thesis by (simp add: new_consumer_def)
qed

section \<open>Messages that are never passed\<close>

lemma poison_step:
  assumes "fst (classify_message dec (topic ! n)) = Crashed" and "cn_committed c \<le> cn_position c" and "cn_position c \<le> n"
  shows "cn_committed (consume_next dec topic w c) \<le> cn_position (consume_next dec topic w c) \<and>
    cn_position (consume_next dec topic w c) \<le> n"
proof (cases "length topic \<le> cn_position c")
  case True
  with assms show ?thesis by (simp add: consume_next_def)
next
  case False
  obtain r j p where r: "classify_message dec (topic ! cn_position c) = (r, j, p)" by (metis prod_cases3)
  show ?thesis
  proof (cases "cn_position c = n")
    case True
    with assms r have "r = Crashed" by simp
    with assms False r True show ?thesis by (simp add: consume_next_def Let_def reconnect_def)
  next
    case not: False
    with assms False r show ?thesis
      by (auto simp: consume_next_def Let_def reconnect_def flush_batch_outcome split: classified.split)
  qed
qed

text \<open>
  C35: A message whose event is no object, an empty one or a tombstone for instance, is never passed: the
  consumer crashes at it each time it reconnects, and the committed offset stays before it for ever.
\<close>

theorem poison_message_blocks:
  assumes "fst (classify_message dec (topic ! n)) = Crashed"
  shows "cn_committed (foldl (\<lambda>c w. consume_next dec topic w c) (new_consumer batch retries interval now db) ws) \<le> n"
proof -
  let ?inv = "\<lambda>c :: 'a consumer. cn_committed c \<le> cn_position c \<and> cn_position c \<le> n"
  have "machine (\<lambda>c w. consume_next dec topic w c) ?inv"
    by unfold_locales (use poison_step [OF assms] in auto)
  from machine.inv_run [OF this, of "new_consumer batch retries interval now db" ws] show ?thesis
    by (simp add: new_consumer_def)
qed

lemma tombstone_crashes:
  assumes "consumer_tenant (km_topic m) = Some t" and "parse_uuid dec t = Some u" and "km_value m \<in> {None, Some []}"
  shows "fst (classify_message dec m) = Crashed"
  using assms by (auto simp: classify_message_def decode_value_def add_tenant_def)

section \<open>The tenant of an event\<close>

text \<open>The tenant of the topic is only a default: an event that names another tenant keeps it.\<close>

lemma claimed_tenant_kept:
  assumes "json_loads dec (CHR ''{'' # bs) = Some (VDict d)" and "dict_get d ''tenant_id'' = Some claimed"
    and "consumer_tenant topic = Some t" and "parse_uuid dec t = Some u" and "length bs < MAX_MESSAGE_BYTES"
  shows "fst (classify_message dec \<lparr>km_topic = topic, km_value = Some (CHR ''{'' # bs)\<rparr>) = Buffered (VDict d)"
  using assms by (simp add: classify_message_def decode_value_def add_tenant_def)

section \<open>The Postgres writer\<close>

lemma insert_event_get:
  "dict_get (insert_event r t) k = (if k = (er_id r, er_time r) \<and> dict_get t k = None then Some r else dict_get t k)"
  by (auto simp: insert_event_def)

lemma inserted_present: "r \<in> set rows \<Longrightarrow> dict_get (fold insert_event rows t) (er_id r, er_time r) \<noteq> None"
proof -
  have kept: "dict_get t k \<noteq> None \<Longrightarrow> dict_get (fold insert_event rows t) k \<noteq> None" for k rows t
    by (induction rows arbitrary: t) (auto simp: insert_event_get)
  show "r \<in> set rows \<Longrightarrow> dict_get (fold insert_event rows t) (er_id r, er_time r) \<noteq> None"
  proof (induction rows arbitrary: t)
    case (Cons x rows)
    show ?case
    proof (cases "r = x")
      case True
      have "dict_get (insert_event x t) (er_id x, er_time x) \<noteq> None" by (simp add: insert_event_get)
      with kept True show ?thesis by simp
    next
      case False
      with Cons show ?thesis by simp
    qed
  qed simp
qed

lemma insert_again: "\<forall>r \<in> set rows. dict_get t (er_id r, er_time r) \<noteq> None \<Longrightarrow> fold insert_event rows t = t"
  by (induction rows) (auto simp: insert_event_def)

text \<open>Whether a batch fails does not depend on what is stored.\<close>

lemma upsert_agent_fails: "upsert_agent w e a = None \<longleftrightarrow> upsert_agent w e b = None"
  by (simp add: upsert_agent_def Let_def split: pval.split option.split)

lemma upsert_agents_fails: "fst (upsert_agents w vs a) = fst (upsert_agents w vs b)"
proof (induction vs arbitrary: a b)
  case (Cons v vs)
  show ?case
  proof (cases v)
    case (VDict e)
    show ?thesis
    proof (cases "upsert_agent w e a")
      case None
      with upsert_agent_fails [of w e a b] Cons VDict show ?thesis by simp
    next
      case (Some a')
      then obtain b' where "upsert_agent w e b = Some b'" using upsert_agent_fails [of w e a b] by auto
      with Some Cons VDict show ?thesis by simp
    qed
  qed (use Cons in simp_all)
qed simp

lemma touch_agents_fails: "fst (touch_agents seen a) = fst (touch_agents seen b)"
proof (induction seen arbitrary: a b)
  case (Cons x seen)
  obtain v ts where x: "x = (v, ts)" by (cases x)
  show ?case
  proof (cases v)
    case (VStr p)
    then show ?thesis using Cons.IH by (simp only: x touch_agents.simps pval.case)
  qed (simp_all add: x)
qed simp

lemma pg_outcome:
  "fst (pg_process_batch w db vs) \<longleftrightarrow>
     (case rows_of w vs of None \<Rightarrow> False | Some rows \<Rightarrow> rows = [] \<or>
        (list_all (pe_takes_event w) rows \<and> fst (upsert_agents w vs (pg_agents db)) \<and>
         (case note_times w vs [] of None \<Rightarrow> False
          | Some seen \<Rightarrow> fst (touch_agents seen (snd (upsert_agents w vs (pg_agents db)))))))"
proof (cases "rows_of w vs")
  case (Some rows)
  then show ?thesis
    by (cases rows; cases "upsert_agents w vs (pg_agents db)"; cases "note_times w vs []")
      (auto simp: pg_process_batch_def Let_def split: bool.splits prod.split)
qed (simp add: pg_process_batch_def)

lemma pg_outcome_fixed: "fst (pg_process_batch w db vs) = fst (pg_process_batch w db' vs)"
  unfolding pg_outcome
  by (simp only: upsert_agents_fails [of w vs "pg_agents db" "pg_agents db'"]
      touch_agents_fails [of _ "snd (upsert_agents w vs (pg_agents db))" "snd (upsert_agents w vs (pg_agents db'))"])

lemma pg_events_written:
  assumes "fst (pg_process_batch w db vs)"
  shows "\<exists>rows. rows_of w vs = Some rows \<and> pg_events (snd (pg_process_batch w db vs)) = fold insert_event rows (pg_events db)"
proof (cases "rows_of w vs")
  case (Some rows)
  with assms show ?thesis
    by (cases rows; cases "upsert_agents w vs (pg_agents db)"; cases "note_times w vs []")
      (auto simp: pg_process_batch_def Let_def split: if_splits bool.splits prod.split)
qed (use assms in \<open>simp add: pg_process_batch_def\<close>)

text \<open>
  Writing a batch again, as a redelivery does, succeeds again and leaves the events as they are,
  provided that the timestamps parse to the same times; and every event of the batch with an identifier is
  stored.
\<close>

theorem redelivery_changes_no_event:
  assumes "pg_process_batch w db vs = (True, db')"
  shows "fst (pg_process_batch w db' vs) \<and> pg_events (snd (pg_process_batch w db' vs)) = pg_events db' \<and>
    (\<exists>rows. rows_of w vs = Some rows \<and> (\<forall>r \<in> set rows. dict_get (pg_events db') (er_id r, er_time r) \<noteq> None))"
proof -
  obtain rows where rows: "rows_of w vs = Some rows" "pg_events db' = fold insert_event rows (pg_events db)"
    using pg_events_written [of w db vs] assms by auto
  have again: "fst (pg_process_batch w db' vs)" using pg_outcome_fixed [of w db' vs db] assms by simp
  then have "pg_events (snd (pg_process_batch w db' vs)) = fold insert_event rows (pg_events db')"
    using pg_events_written [of w db' vs] rows(1) by auto
  also have "\<dots> = pg_events db'" unfolding rows(2) by (intro insert_again ballI inserted_present)
  finally show ?thesis using again rows inserted_present by auto
qed

section \<open>One malformed event\<close>

lemma rows_of_error: "v \<in> set vs \<Longrightarrow> event_row_of w v = Row_Error \<Longrightarrow> rows_of w vs = None"
  by (induction vs) (auto split: row_result.split)

lemma attempts_fail:
  "(\<And>k db. process k db batch = (False, db)) \<Longrightarrow> batch_attempts process k n db batch = (False, db)"
  by (induction n arbitrary: k db) auto

text \<open>
  C32: One event with an identifier whose severity is a number, a list or an object makes every attempt to
  write its batch fail: nothing of the batch is stored, and all of it, of whichever tenants, goes to the
  dead letters.
\<close>

theorem one_bad_event_fails_batch:
  assumes "VDict e \<in> set (cn_buffer c)" and "truthy (field_of e ''event_id'')" and "truthy (field_of e ''severity'')"
    and "\<nexists>s. field_of e ''severity'' = VStr s" and "\<nexists>s. field_of e ''event_type'' = VStr s \<and> severity_override_of s \<noteq> None"
    and "ce_process w = (\<lambda>k. pg_process_batch (pe k))"
  shows "cn_db (flush_batch w c) = cn_db c \<and> cn_processed (flush_batch w c) = cn_processed c \<and>
    cn_dead_letters (flush_batch w c) = cn_dead_letters c @ filter (ce_dlq_takes w) (cn_buffer c)"
proof -
  have "stored_severity (field_of e ''event_type'') (field_of e ''severity'') = None"
    using assms(3-5) by (auto simp: stored_severity_def split: pval.split option.split)
  then have "event_row_of (pe k) (VDict e) = Row_Error" for k using assms(2) by (simp add: event_row_of_def)
  then have "pg_process_batch (pe k) db (cn_buffer c) = (False, db)" for k db
    using rows_of_error [OF assms(1)] by (simp add: pg_process_batch_def)
  then have "batch_attempts (ce_process w) 1 (cn_max_retries c) (cn_db c) (cn_buffer c) = (False, cn_db c)"
    unfolding assms(6) by (intro attempts_fail)
  with assms(1) show ?thesis by (auto simp: flush_batch_def Let_def send_to_dlq_def)
qed

section \<open>Examples\<close>

definition demo_raw_event :: "pval \<Rightarrow> (string, pval) dict" where
  "demo_raw_event severity = [(''event_id'', VStr ''e1''), (''severity'', severity), (''tenant_id'', VStr ''t'')]"

definition demo_decoders :: decoders where
  "demo_decoders = \<lparr>json_loads = (\<lambda>s. if s = ''{}'' then Some (VDict (demo_raw_event (VStr ''High''))) else None),
     parse_protobuf = (\<lambda>_. None), parse_uuid = Some\<rparr>"

definition demo_topic :: "kafka_message list" where
  "demo_topic = [\<lparr>km_topic = ''phantex.events.t'', km_value = Some ''{}''\<rparr>,
     \<lparr>km_topic = ''phantex.events.t'', km_value = None\<rparr>]"

definition demo_pg :: pg_env where
  "demo_pg = \<lparr>pe_parse_ts = (\<lambda>_. 7), pe_json_loads = (\<lambda>_. None), pe_takes_event = (\<lambda>_. True), pe_takes_agent = (\<lambda>_ _. True)\<rparr>"

definition demo_consumer_env :: "pg_tables consumer_env" where
  "demo_consumer_env = \<lparr>ce_now = 0, ce_flushed = 0, ce_process = (\<lambda>k. pg_process_batch demo_pg),
     ce_dlq_takes = (\<lambda>_. True), ce_commits = True\<rparr>"

abbreviation demo_start :: "pg_tables consumer" where
  "demo_start \<equiv> new_consumer 1 3 2 0 \<lparr>pg_events = [], pg_agents = []\<rparr>"

lemma demo_fields [simp]:
  "field_of (demo_raw_event s) ''event_id'' = VStr ''e1''" "field_of (demo_raw_event s) ''tenant_id'' = VStr ''t''"
  "field_of (demo_raw_event s) ''severity'' = s" "field_of (demo_raw_event s) ''agent_id'' = VNone"
  "field_of (demo_raw_event s) ''event_type'' = VNone" "field_of (demo_raw_event s) ''sensor_id'' = VNone"
  by (simp_all add: field_of_def demo_raw_event_def dict_get_or_def)

lemma demo_tenant [simp]: "consumer_tenant ''phantex.events.t'' = Some ''t''"
  by code_simp

lemma demo_classified [simp]:
  "classify_message demo_decoders (demo_topic ! 0) = (Buffered (VDict (demo_raw_event (VStr ''High''))), 1, 0)"
  by (simp add: classify_message_def demo_topic_def demo_decoders_def decode_value_def MAX_MESSAGE_BYTES_def
      add_tenant_def demo_raw_event_def)

lemma demo_row [simp]:
  "event_row_of demo_pg (VDict (demo_raw_event (VStr ''High''))) =
     Row \<lparr>er_id = ''e1'', er_tenant = VStr ''t'', er_agent = VNone, er_sensor = VNone, er_type = VNone,
          er_severity = py_lower ''High'', er_time = 7, er_raw = demo_raw_event (VStr ''High'')\<rparr>"
  by (simp add: event_row_of_def demo_pg_def stored_severity_def or_none_def)

lemma demo_batch:
  "pg_process_batch demo_pg \<lparr>pg_events = [], pg_agents = []\<rparr> [VDict (demo_raw_event (VStr ''High''))] =
     (True, \<lparr>pg_events = [((''e1'', 7), \<lparr>er_id = ''e1'', er_tenant = VStr ''t'', er_agent = VNone,
          er_sensor = VNone, er_type = VNone, er_severity = py_lower ''High'', er_time = 7,
          er_raw = demo_raw_event (VStr ''High'')\<rparr>)], pg_agents = []\<rparr>)"
proof -
  have "pe_takes_event demo_pg r" for r by (simp add: demo_pg_def)
  then show ?thesis by (simp add: pg_process_batch_def insert_event_def note_time_def)
qed

lemma demo_run: "cn_committed (foldl (\<lambda>c w. consume_next demo_decoders demo_topic w c) demo_start [demo_consumer_env]) = 1"
proof -
  have "length demo_topic = 2" by (simp add: demo_topic_def)
  moreover have "ce_process demo_consumer_env = (\<lambda>k. pg_process_batch demo_pg)" "ce_commits demo_consumer_env"
    by (simp_all add: demo_consumer_env_def)
  ultimately show ?thesis
    by (simp add: consume_next_def new_consumer_def flush_batch_def demo_batch numeral_3_eq_3 Let_def)
qed

lemma committed_messages_settled_witness:
  "0 < length demo_topic \<and>
    (fst (classify_message demo_decoders (demo_topic ! 0)) = Skipped \<or>
     (\<exists>e. fst (classify_message demo_decoders (demo_topic ! 0)) = Buffered e \<and>
        e \<in> set (cn_processed (foldl (\<lambda>c w. consume_next demo_decoders demo_topic w c) demo_start [demo_consumer_env])) \<union>
            set (cn_dead_letters (foldl (\<lambda>c w. consume_next demo_decoders demo_topic w c) demo_start [demo_consumer_env])) \<union>
            set (cn_lost (foldl (\<lambda>c w. consume_next demo_decoders demo_topic w c) demo_start [demo_consumer_env]))))"
  by (rule committed_messages_settled [OF refl]) (simp only: demo_run zero_less_one)

lemma poison_message_blocks_witness:
  "cn_committed (foldl (\<lambda>c w. consume_next demo_decoders demo_topic w c) demo_start (replicate 9 demo_consumer_env)) \<le> 1"
proof -
  have "fst (classify_message demo_decoders (demo_topic ! 1)) = Crashed"
    by (rule tombstone_crashes [of _ "''t''" _ "''t''"]) (simp_all add: demo_topic_def demo_decoders_def)
  from poison_message_blocks [OF this] show ?thesis .
qed

lemma redelivery_changes_no_event_witness:
  "\<exists>db'. pg_process_batch demo_pg \<lparr>pg_events = [], pg_agents = []\<rparr> [VDict (demo_raw_event (VStr ''High''))] = (True, db') \<and>
    pg_events (snd (pg_process_batch demo_pg db' [VDict (demo_raw_event (VStr ''High''))])) = pg_events db'"
  using redelivery_changes_no_event [OF demo_batch] demo_batch by blast

lemma one_bad_event_fails_batch_witness:
  "cn_dead_letters (flush_batch demo_consumer_env (demo_start
      \<lparr>cn_buffer := [VDict (demo_raw_event (VStr ''High'')), VDict (demo_raw_event (VNum (NInt 5)))]\<rparr>)) =
   [VDict (demo_raw_event (VStr ''High'')), VDict (demo_raw_event (VNum (NInt 5)))]"
proof -
  let ?c = "demo_start\<lparr>cn_buffer := [VDict (demo_raw_event (VStr ''High'')), VDict (demo_raw_event (VNum (NInt 5)))]\<rparr>"
  have "VDict (demo_raw_event (VNum (NInt 5))) \<in> set (cn_buffer ?c)" by simp
  from one_bad_event_fails_batch [OF this, of demo_consumer_env "\<lambda>_. demo_pg"] show ?thesis
    by (simp add: demo_consumer_env_def new_consumer_def)
qed

end
