(* ===== verification/Access.thy ===== *)
theory Access
  imports Auth
begin

text \<open>
  \<open>backend/app/middleware/auth.py\<close>: from the header of a request to the user it acts for. The verification of
  a token and the parser of identifiers are parameters; an answer is the status of an error or the user.
\<close>

section \<open>The user of a request\<close>

datatype jwt_result = Expired_Token | Invalid_Token | Decoded access_payload

record current_user =
  cu_id :: string
  cu_tenant :: string
  cu_role :: string
  cu_mcp :: bool

definition get_token_payload :: "(string \<Rightarrow> jwt_result) \<Rightarrow> string option \<Rightarrow> nat + access_payload" where
  "get_token_payload decode credentials =
     (case credentials of
        None \<Rightarrow> Inl 401
      | Some c \<Rightarrow> (case decode c of Expired_Token \<Rightarrow> Inl 401 | Invalid_Token \<Rightarrow> Inl 401 | Decoded p \<Rightarrow> Inr p))"

definition exempt_path :: "string \<Rightarrow> bool" where
  "exempt_path path \<longleftrightarrow> path \<in> {''/api/v1/auth/password'', ''/api/v1/auth/me'', ''/api/v1/auth/logout''}"

definition get_current_user :: "(string \<Rightarrow> bool) \<Rightarrow> string \<Rightarrow> access_payload \<Rightarrow> nat + current_user" where
  "get_current_user is_uuid path p =
     (if \<not> is_uuid (claim_sub p) \<or> \<not> is_uuid (claim_tenant p) then Inl 401
      else if claim_mcp p \<and> \<not> exempt_path path then Inl 403
      else Inr \<lparr>cu_id = claim_sub p, cu_tenant = claim_tenant p, cu_role = claim_role p, cu_mcp = claim_mcp p\<rparr>)"

text \<open>The check of sensitive operations: the user exists and is active; the role stays the one of the token.\<close>

definition get_current_active_user :: "string \<Rightarrow> auth_state \<Rightarrow> current_user \<Rightarrow> nat + current_user" where
  "get_current_active_user path st cu =
     (case find_user (cu_id cu) st of
        None \<Rightarrow> Inl 401
      | Some u \<Rightarrow>
          if \<not> usr_active u then Inl 403
          else if usr_must_change u \<and> \<not> exempt_path path then Inl 403
          else Inr (cu\<lparr>cu_mcp := usr_must_change u\<rparr>))"

definition require_role :: "string list \<Rightarrow> string \<Rightarrow> auth_state \<Rightarrow> current_user \<Rightarrow> nat + current_user" where
  "require_role allowed path st cu =
     (case get_current_active_user path st cu of
        Inl e \<Rightarrow> Inl e
      | Inr cu' \<Rightarrow> if cu_role cu' \<notin> set allowed then Inl 403 else Inr cu')"

end
