(* ===== verification/Sso.thy ===== *)
theory Sso
  imports Access
begin

text \<open>
  Single sign-on, \<open>backend/app/services/sso_service.py\<close> as the routes \<open>routers/sso.py\<close> run it: SAML responses,
  OIDC codes, and the users they find or create in the table of \<open>Auth\<close>. The decoders, the check of a
  signature, the identity provider, the cache of OIDC states and the database's types are parameters. A
  failed request rolls the database back, but not the cache.
\<close>

section \<open>State\<close>

text \<open>XML as ElementTree holds it; a tag stands for its namespace and name, with the prefixes of the code.\<close>

datatype xml = Elem (xml_tag: string) (xml_attrs: "(string, string) dict") (xml_text: "string option") (xml_children: "xml list")

text \<open>The elements below an element, in the order of the document.\<close>

fun descendants :: "xml \<Rightarrow> xml list" where
  "descendants (Elem t a x cs) = concat (map (\<lambda>c. c # descendants c) cs)"

definition find_below :: "string \<Rightarrow> xml \<Rightarrow> xml option" where
  "find_below tag e = find (\<lambda>x. xml_tag x = tag) (descendants e)"

definition children_of :: "string \<Rightarrow> xml \<Rightarrow> xml list" where
  "children_of tag e = filter (\<lambda>x. xml_tag x = tag) (xml_children e)"

definition find_child :: "string \<Rightarrow> xml \<Rightarrow> xml option" where
  "find_child tag e = find (\<lambda>x. xml_tag x = tag) (xml_children e)"

definition grandchildren :: "string \<Rightarrow> string \<Rightarrow> xml \<Rightarrow> xml list" where
  "grandchildren tag tag' e = concat (map (children_of tag') (children_of tag e))"

record sso_config =
  sc_id :: string
  sc_tenant :: string
  sc_type :: string
  sc_name :: string
  sc_enabled :: bool
  sc_idp_entity :: "string option"
  sc_idp_sso_url :: "string option"
  sc_certificate :: "string option"
  sc_sp_entity :: "string option"
  sc_acs_url :: "string option"
  sc_issuer :: "string option"
  sc_client :: "string option"
  sc_secret :: "string option"
  sc_scopes :: string
  sc_mapping :: "(string, pval) dict"
  sc_default_role :: string
  sc_jit :: bool

text \<open>The columns of a user that only single sign-on and provisioning use.\<close>

record user_columns =
  uc_provider :: "string option"
  uc_subject :: "string option"
  uc_external :: "string option"

record scim_token =
  sm_id :: string
  sm_tenant :: string
  sm_hash :: string
  sm_active :: bool
  sm_expires :: "rat option"

record oidc_entry =
  oe_verifier :: string
  oe_tenant :: string
  oe_nonce :: string

text \<open>The cache of OIDC states is a \<open>TTLCache\<close> of five minutes and 10000 entries, known by its two operations.\<close>

record 'c ttl_cache =
  cache_put :: "rat \<Rightarrow> string \<Rightarrow> oidc_entry \<Rightarrow> 'c \<Rightarrow> 'c"
  cache_pop :: "rat \<Rightarrow> string \<Rightarrow> 'c \<Rightarrow> oidc_entry option \<times> 'c"

record 'c sso_state =
  sso_auth :: auth_state
  sso_columns :: "(string, user_columns) dict"
  sso_configs :: "sso_config list"
  assertion_ids :: "(string, string \<times> rat) dict"
  scim_tokens :: "scim_token list"
  oidc_states :: 'c

datatype time_result = Aware rat | Naive | No_Time

text \<open>
  What a request meets beside the environment of the logins: decoders, the check of a signature against a
  certificate, which raises (\<open>None\<close>) or returns the element that was signed, the identity provider's token endpoint (\<open>None\<close> when the request fails), the claims of a valid
  token, the database's text and boolean columns (\<open>None\<close> when it refuses the value), the random texts.
\<close>

record sso_env =
  se_auth :: auth_env
  b64_utf8 :: "string \<Rightarrow> string option"
  parse_xml :: "string \<Rightarrow> xml option"
  verify_xml :: "string \<Rightarrow> string \<Rightarrow> xml option"
  parse_time :: "string \<Rightarrow> time_result"
  encrypt :: "string \<Rightarrow> string"
  token_endpoint :: "sso_config \<Rightarrow> string \<Rightarrow> string \<Rightarrow> (nat \<times> pval) option"
  id_claims :: "sso_config \<Rightarrow> pval \<Rightarrow> (string, pval) dict option"
  db_text :: "pval \<Rightarrow> string option option"
  db_bool :: "pval \<Rightarrow> bool option"
  text_of :: "pval \<Rightarrow> string"
  random_password :: string
  random_state :: string
  random_nonce :: string
  random_verifier :: string
  frontend_ok :: bool

section \<open>SAML\<close>

text \<open>The ways a login fails; all but \<open>Sso_Crash\<close> are a \<open>ValueError\<close> of the services.\<close>

datatype sso_failure =
  Bad_Encoding | Bad_Xml | Bad_Signature | No_Certificate | Status_Failed | No_Assertion | No_Assertion_Id
| Replayed | Bad_Time | Not_Yet_Valid | Assertion_Expired | Wrong_Audience | No_Subject
| Exchange_Failed | No_Id_Token | Bad_Id_Token | Wrong_Nonce | No_Email | No_Such_User
| Sso_Crash

record identity =
  id_email :: string
  id_name :: pval
  id_groups :: pval
  id_subject :: pval

definition nonempty :: "string option \<Rightarrow> bool" where
  "nonempty x \<longleftrightarrow> (case x of None \<Rightarrow> False | Some s \<Rightarrow> s \<noteq> [])"

definition replace_z :: "string \<Rightarrow> string" where
  "replace_z s = concat (map (\<lambda>c. if c = CHR ''Z'' then ''+00:00'' else [c]) s)"

text \<open>One bound of the conditions: missing, unreadable, without a zone, or compared with the clock.\<close>

definition check_bound :: "sso_env \<Rightarrow> string option \<Rightarrow> (rat \<Rightarrow> bool) \<Rightarrow> sso_failure \<Rightarrow> sso_failure option" where
  "check_bound w bound violated failure =
     (if \<not> nonempty bound then None
      else case parse_time w (replace_z (the bound)) of
             No_Time \<Rightarrow> Some Bad_Time
           | Naive \<Rightarrow> Some Sso_Crash
           | Aware t \<Rightarrow> if violated t then Some failure else None)"

definition check_audience :: "sso_config \<Rightarrow> xml \<Rightarrow> sso_failure option" where
  "check_audience cfg cond =
     (case grandchildren ''saml:AudienceRestriction'' ''saml:Audience'' cond of
        [] \<Rightarrow> None
      | a # _ \<Rightarrow> if nonempty (xml_text a) \<and> Some (py_strip (the (xml_text a))) \<noteq> sc_sp_entity cfg then Some Wrong_Audience
                 else None)"

definition check_conditions :: "sso_env \<Rightarrow> sso_config \<Rightarrow> xml \<Rightarrow> sso_failure option" where
  "check_conditions w cfg assertion =
     (case find_child ''saml:Conditions'' assertion of
        None \<Rightarrow> None
      | Some cond \<Rightarrow>
          (let now = utc (se_auth w)
           in case check_bound w (dict_get (xml_attrs cond) ''NotBefore'') (\<lambda>t. now < t - 120) Not_Yet_Valid of
                Some f \<Rightarrow> Some f
              | None \<Rightarrow>
                  (case check_bound w (dict_get (xml_attrs cond) ''NotOnOrAfter'') (\<lambda>t. t + 120 \<le> now) Assertion_Expired of
                     Some f \<Rightarrow> Some f
                   | None \<Rightarrow> check_audience cfg cond)))"

definition attribute_values :: "xml \<Rightarrow> (string, string list) dict" where
  "attribute_values assertion =
     foldl (\<lambda>d a.
         let name = dict_get_or (xml_attrs a) ''Name'' [];
             vals = map (\<lambda>v. the (xml_text v)) (filter (\<lambda>v. nonempty (xml_text v)) (children_of ''saml:AttributeValue'' a))
         in if name \<noteq> [] \<and> vals \<noteq> [] then dict_set name vals d else d)
       [] (grandchildren ''saml:AttributeStatement'' ''saml:Attribute'' assertion)"

text \<open>\<open>attrs.get(key, default)\<close> for a key of the mapping: a list or a dictionary is no key.\<close>

definition mapped_values :: "pval \<Rightarrow> string list \<Rightarrow> (string, string list) dict \<Rightarrow> string list option" where
  "mapped_values key dflt attrs =
     (case key of
        VStr k \<Rightarrow> Some (dict_get_or attrs k dflt)
      | VList _ \<Rightarrow> None
      | VDict _ \<Rightarrow> None
      | _ \<Rightarrow> Some dflt)"

definition mapping_of :: "sso_config \<Rightarrow> string \<Rightarrow> pval" where
  "mapping_of cfg k = dict_get_or (sc_mapping cfg) k VNone"

definition saml_email :: "sso_config \<Rightarrow> (string, string list) dict \<Rightarrow> string \<Rightarrow> string option" where
  "saml_email cfg attrs subject =
     (if \<not> truthy (mapping_of cfg ''email'') then Some subject
      else case mapped_values (mapping_of cfg ''email'') [] attrs of
             None \<Rightarrow> None
           | Some [] \<Rightarrow> Some subject
           | Some (v # _) \<Rightarrow> Some v)"

definition saml_name :: "sso_config \<Rightarrow> (string, string list) dict \<Rightarrow> pval option" where
  "saml_name cfg attrs =
     (if truthy (mapping_of cfg ''name'')
      then (case mapped_values (mapping_of cfg ''name'') [] attrs of
              None \<Rightarrow> None
            | Some [] \<Rightarrow> Some VNone
            | Some (v # _) \<Rightarrow> Some (VStr v))
      else if truthy (mapping_of cfg ''firstName'') \<and> truthy (mapping_of cfg ''lastName'')
      then (case (mapped_values (mapping_of cfg ''firstName'') [[]] attrs, mapped_values (mapping_of cfg ''lastName'') [[]] attrs) of
              (Some fs, Some ls) \<Rightarrow>
                (let full = py_strip (hd fs @ '' '' @ hd ls) in Some (if full = [] then VNone else VStr full))
            | _ \<Rightarrow> None)
      else Some VNone)"

definition saml_groups :: "sso_config \<Rightarrow> (string, string list) dict \<Rightarrow> pval option" where
  "saml_groups cfg attrs =
     (if \<not> truthy (mapping_of cfg ''groups'') then Some (VList [])
      else map_option (\<lambda>gs. VList (map VStr gs)) (mapped_values (mapping_of cfg ''groups'') [] attrs))"

text \<open>The identity of an assertion that passed the checks.\<close>

definition saml_identity :: "sso_config \<Rightarrow> xml \<Rightarrow> sso_failure + identity" where
  "saml_identity cfg assertion =
     (case find_below ''saml:NameID'' assertion of
        None \<Rightarrow> Inl No_Subject
      | Some n \<Rightarrow>
          if \<not> nonempty (xml_text n) then Inl No_Subject
          else let subject = the (xml_text n); attrs = attribute_values assertion
               in case (saml_email cfg attrs subject, saml_name cfg attrs, saml_groups cfg attrs) of
                    (Some e, Some nm, Some gs) \<Rightarrow>
                      Inr \<lparr>id_email = py_strip (py_lower e), id_name = nm, id_groups = gs, id_subject = VStr subject\<rparr>
                  | _ \<Rightarrow> Inl Sso_Crash)"

definition validate_saml_response :: "sso_env \<Rightarrow> sso_config \<Rightarrow> string \<Rightarrow> 'c sso_state \<Rightarrow> sso_failure + identity \<times> 'c sso_state" where
  "validate_saml_response w cfg response st =
     (case b64_utf8 w response of
        None \<Rightarrow> Inl Bad_Encoding
      | Some txt \<Rightarrow>
     (case parse_xml w txt of
        None \<Rightarrow> Inl Bad_Xml
      | Some doc \<Rightarrow>
          if \<not> nonempty (sc_certificate cfg) then Inl No_Certificate
          else if verify_xml w txt (the (sc_certificate cfg)) = None then Inl Bad_Signature
          else if (case find_below ''samlp:StatusCode'' doc of
                     None \<Rightarrow> False
                   | Some s \<Rightarrow> \<not> is_substring ''Success'' (dict_get_or (xml_attrs s) ''Value'' [])) then Inl Status_Failed
          else case find_below ''saml:Assertion'' doc of
                 None \<Rightarrow> Inl No_Assertion
               | Some assertion \<Rightarrow>
                   (let i = dict_get_or (xml_attrs assertion) ''ID'' []
                    in if i = [] then Inl No_Assertion_Id
                       else if dict_get (assertion_ids st) i \<noteq> None then Inl Replayed
                       else case check_conditions w cfg assertion of
                              Some f \<Rightarrow> Inl f
                            | None \<Rightarrow>
                                (case saml_identity cfg assertion of
                                   Inl f \<Rightarrow> Inl f
                                 | Inr ident \<Rightarrow>
                                     Inr (ident, st\<lparr>assertion_ids :=
                                       dict_set i (sc_tenant cfg, utc (se_auth w) + 3600) (assertion_ids st)\<rparr>)))))"

section \<open>Users\<close>

text \<open>The groups that are looked at; \<open>None\<close> when the value cannot be iterated.\<close>

definition group_list :: "pval \<Rightarrow> pval list option" where
  "group_list v =
     (case v of
        VList xs \<Rightarrow> Some xs
      | VStr s \<Rightarrow> Some (map (\<lambda>c. VStr [c]) s)
      | VDict d \<Rightarrow> Some (map VStr (dict_keys d))
      | _ \<Rightarrow> None)"

text \<open>\<open>if group in group_role_map: role = group_role_map[group]\<close>; the outer \<open>None\<close> is an exception.\<close>

definition role_of_group :: "pval \<Rightarrow> pval \<Rightarrow> pval option option" where
  "role_of_group role_map g =
     (case role_map of
        VDict d \<Rightarrow>
          (case g of VStr s \<Rightarrow> Some (dict_get d s) | VList _ \<Rightarrow> None | VDict _ \<Rightarrow> None | _ \<Rightarrow> Some None)
      | VList xs \<Rightarrow> (if py_in_list g xs then None else Some None)
      | VStr t \<Rightarrow> (case g of VStr s \<Rightarrow> if is_substring s t then None else Some None | _ \<Rightarrow> None)
      | _ \<Rightarrow> None)"

fun first_role :: "pval \<Rightarrow> pval \<Rightarrow> pval list \<Rightarrow> pval option" where
  "first_role role_map dflt [] = Some dflt"
| "first_role role_map dflt (g # gs) =
     (case role_of_group role_map g of
        None \<Rightarrow> None
      | Some (Some r) \<Rightarrow> Some r
      | Some None \<Rightarrow> first_role role_map dflt gs)"

definition no_columns :: user_columns where
  "no_columns = \<lparr>uc_provider = None, uc_subject = None, uc_external = None\<rparr>"

definition jit_provision_or_link :: "sso_env \<Rightarrow> sso_config \<Rightarrow> identity \<Rightarrow> string \<Rightarrow> 'c sso_state \<Rightarrow>
    sso_failure + user_row \<times> bool \<times> 'c sso_state" where
  "jit_provision_or_link w cfg ident provider st =
     (case filter (\<lambda>u. usr_tenant u = sc_tenant cfg \<and> usr_email u = id_email ident) (users (sso_auth st)) of
        [u] \<Rightarrow>
          (let cols = dict_get_or (sso_columns st) (usr_id u) no_columns;
               u' = u\<lparr>usr_last_login := Some (utc (se_auth w))\<rparr>;
               a = update_row (usr_id u) (\<lambda>u. u\<lparr>usr_last_login := Some (utc (se_auth w))\<rparr>) (sso_auth st)
           in if nonempty (uc_provider cols) then Inr (u', False, st\<lparr>sso_auth := a\<rparr>)
              else case db_text w (id_subject ident) of
                     None \<Rightarrow> Inl Sso_Crash
                   | Some sub \<Rightarrow>
                       Inr (u', False, st\<lparr>sso_auth := a,
                         sso_columns := dict_set (usr_id u) (cols\<lparr>uc_provider := Some provider, uc_subject := sub\<rparr>) (sso_columns st)\<rparr>))
      | [] \<Rightarrow>
          if \<not> sc_jit cfg then Inl No_Such_User
          else (case group_list (id_groups ident) of
             None \<Rightarrow> Inl Sso_Crash
           | Some gs \<Rightarrow>
          (case (map_option (db_text w) (first_role (dict_get_or (sc_mapping cfg) ''group_role_map'' (VDict [])) (VStr (sc_default_role cfg)) gs),
                 db_text w (id_name ident), db_text w (id_subject ident)) of
             (Some (Some (Some role)), Some name, Some sub) \<Rightarrow>
               (let i = new_user_id (se_auth w);
                    u = \<lparr>usr_id = i, usr_tenant = sc_tenant cfg, usr_email = id_email ident,
                         usr_hash = hashpw (se_auth w) (random_password w), usr_role = role, usr_name = name,
                         usr_active = True, usr_failed = 0, usr_locked = None, usr_must_change = True, usr_last_login = None\<rparr>
                in Inr (u, True, st\<lparr>sso_auth := (sso_auth st)\<lparr>users := users (sso_auth st) @ [u]\<rparr>,
                     sso_columns := dict_set i \<lparr>uc_provider = Some provider, uc_subject = sub, uc_external = None\<rparr> (sso_columns st)\<rparr>))
           | _ \<Rightarrow> Inl Sso_Crash))
      | _ \<Rightarrow> Inl Sso_Crash)"

section \<open>Routes\<close>

text \<open>\<open>get_sso_config\<close>: the outer \<open>None\<close> is the error of two enabled configurations of a type.\<close>

definition get_sso_config :: "'c sso_state \<Rightarrow> string \<Rightarrow> string \<Rightarrow> sso_config option option" where
  "get_sso_config st tenant type =
     (case filter (\<lambda>c. sc_tenant c = tenant \<and> sc_type c = type \<and> sc_enabled c) (sso_configs st) of
        [] \<Rightarrow> Some None
      | [c] \<Rightarrow> Some (Some c)
      | _ \<Rightarrow> None)"

definition failure_status :: "nat \<Rightarrow> sso_failure \<Rightarrow> nat" where
  "failure_status answer f = (if f = Sso_Crash then 500 else answer)"

text \<open>
  The end of both flows: the user is found or created and the tokens are committed, before the address of
  the frontend is checked.
\<close>

definition finish_sso :: "sso_env \<Rightarrow> sso_config \<Rightarrow> identity \<Rightarrow> string \<Rightarrow> 'c sso_state \<Rightarrow> 'c sso_state \<Rightarrow>
    (nat + token_response) \<times> 'c sso_state" where
  "finish_sso w cfg ident provider st st1 =
     (case jit_provision_or_link w cfg ident provider st1 of
        Inl f \<Rightarrow> (Inl (failure_status 403 f), st)
      | Inr (u, new, st2) \<Rightarrow>
          (case create_token_pair (se_auth w) u (sso_auth st2) of
             None \<Rightarrow> (Inl 500, st)
           | Some (r, a) \<Rightarrow> (if frontend_ok w then Inr r else Inl 500, st2\<lparr>sso_auth := a\<rparr>)))"

definition saml_acs :: "sso_env \<Rightarrow> (string \<Rightarrow> bool) \<Rightarrow> string option \<Rightarrow> string option \<Rightarrow> 'c sso_state \<Rightarrow>
    (nat + token_response) \<times> 'c sso_state" where
  "saml_acs w is_uuid response tenant st =
     (if \<not> nonempty response then (Inl 400, st)
      else if 256000 < length (the response) then (Inl 400, st)
      else if \<not> nonempty tenant then (Inl 400, st)
      else if \<not> is_uuid (the tenant) then (Inl 400, st)
      else case get_sso_config st (the tenant) ''saml'' of
             None \<Rightarrow> (Inl 500, st)
           | Some None \<Rightarrow> (Inl 404, st)
           | Some (Some cfg) \<Rightarrow>
               (case validate_saml_response w cfg (the response) st of
                  Inl f \<Rightarrow> (Inl (failure_status 401 f), st)
                | Inr (ident, st1) \<Rightarrow> finish_sso w cfg ident ''saml'' st st1))"

definition oidc_login :: "'c ttl_cache \<Rightarrow> sso_env \<Rightarrow> string option \<Rightarrow> string option \<Rightarrow> (string \<Rightarrow> string option) \<Rightarrow> 'c sso_state \<Rightarrow>
    (nat + string \<times> string) \<times> 'c sso_state" where
  "oidc_login tc w tenant slug tenant_by_slug st =
     (case (case tenant of
              Some t \<Rightarrow> Inr t
            | None \<Rightarrow> if \<not> nonempty slug then Inl 400
                      else (case tenant_by_slug (the slug) of None \<Rightarrow> Inl 404 | Some t \<Rightarrow> Inr t)) of
        Inl e \<Rightarrow> (Inl e, st)
      | Inr t \<Rightarrow>
          (case get_sso_config st t ''oidc'' of
             None \<Rightarrow> (Inl 500, st)
           | Some None \<Rightarrow> (Inl 404, st)
           | Some (Some cfg) \<Rightarrow>
               (Inr (random_state w, random_nonce w),
                st\<lparr>oidc_states := cache_put tc (monotonic (se_auth w)) (random_state w)
                     \<lparr>oe_verifier = random_verifier w, oe_tenant = t, oe_nonce = random_nonce w\<rparr> (oidc_states st)\<rparr>)))"

definition exchange_oidc_code :: "sso_env \<Rightarrow> sso_config \<Rightarrow> string \<Rightarrow> string \<Rightarrow> string \<Rightarrow> sso_failure + identity" where
  "exchange_oidc_code w cfg c verifier nonce =
     (case token_endpoint w cfg c verifier of
        None \<Rightarrow> Inl Sso_Crash
      | Some (status, body) \<Rightarrow>
          if status \<noteq> 200 then Inl Exchange_Failed
          else case body of
                 VDict d \<Rightarrow>
                   (if \<not> truthy (dict_get_or d ''id_token'' VNone) then Inl No_Id_Token
                    else case id_claims w cfg (dict_get_or d ''id_token'' VNone) of
                           None \<Rightarrow> Inl Bad_Id_Token
                         | Some claims \<Rightarrow>
                             if nonce \<noteq> [] \<and> dict_get_or claims ''nonce'' VNone \<noteq> VStr nonce then Inl Wrong_Nonce
                             else let email = dict_get_or claims ''email'' (VStr []);
                                      name = dict_get_or claims ''name'' VNone
                                  in if \<not> truthy email then Inl No_Email
                                     else case email of
                                            VStr e \<Rightarrow> Inr \<lparr>id_email = py_strip (py_lower e),
                                                id_name = (if truthy name then name else dict_get_or claims ''preferred_username'' VNone),
                                                id_groups = dict_get_or claims ''groups'' (VList []),
                                                id_subject = dict_get_or claims ''sub'' (VStr [])\<rparr>
                                          | _ \<Rightarrow> Inl Sso_Crash)
               | _ \<Rightarrow> Inl Sso_Crash)"

definition oidc_callback :: "'c ttl_cache \<Rightarrow> sso_env \<Rightarrow> string option \<Rightarrow> string option \<Rightarrow> string option \<Rightarrow> 'c sso_state \<Rightarrow>
    (nat + token_response) \<times> 'c sso_state" where
  "oidc_callback tc w given state error st =
     (if nonempty error then (Inl 401, st)
      else if \<not> nonempty given \<or> \<not> nonempty state then (Inl 400, st)
      else case cache_pop tc (monotonic (se_auth w)) (the state) (oidc_states st) of
             (None, c) \<Rightarrow> (Inl 400, st\<lparr>oidc_states := c\<rparr>)
           | (Some e, c) \<Rightarrow>
               (let st1 = st\<lparr>oidc_states := c\<rparr>
                in case get_sso_config st1 (oe_tenant e) ''oidc'' of
                     None \<Rightarrow> (Inl 500, st1)
                   | Some None \<Rightarrow> (Inl 404, st1)
                   | Some (Some cfg) \<Rightarrow>
                       (case exchange_oidc_code w cfg (the given) (oe_verifier e) (oe_nonce e) of
                          Inl f \<Rightarrow> (Inl (failure_status 401 f), st1)
                        | Inr ident \<Rightarrow> finish_sso w cfg ident ''oidc'' st1 st1)))"

section \<open>Configurations\<close>

record sso_update =
  up_enabled :: "bool option"
  up_idp_entity :: "string option"
  up_idp_sso_url :: "string option"
  up_certificate :: "string option"
  up_sp_entity :: "string option"
  up_acs_url :: "string option"
  up_issuer :: "string option"
  up_client :: "string option"
  up_secret :: "string option"
  up_scopes :: "string option"
  up_mapping :: "(string, pval) dict option"
  up_default_role :: "string option"
  up_jit :: "bool option"

definition encrypted :: "sso_env \<Rightarrow> string option \<Rightarrow> string option" where
  "encrypted w secret = (if nonempty secret then Some (encrypt w (the secret)) else secret)"

definition create_config :: "sso_env \<Rightarrow> string \<Rightarrow> sso_config \<Rightarrow> 'c sso_state \<Rightarrow> (nat + sso_config) \<times> 'c sso_state" where
  "create_config w tenant cfg st =
     (let c = cfg\<lparr>sc_tenant := tenant, sc_secret := encrypted w (sc_secret cfg)\<rparr>
      in if list_ex (\<lambda>x. sc_tenant x = tenant \<and> sc_type x = sc_type c \<and> sc_name x = sc_name c) (sso_configs st)
         then (Inl 500, st)
         else (Inr c, st\<lparr>sso_configs := sso_configs st @ [c]\<rparr>))"

definition or_old :: "'a option \<Rightarrow> 'a option \<Rightarrow> 'a option" where
  "or_old new old = (case new of None \<Rightarrow> old | Some _ \<Rightarrow> new)"

definition or_kept :: "'a option \<Rightarrow> 'a \<Rightarrow> 'a" where
  "or_kept new old = (case new of None \<Rightarrow> old | Some v \<Rightarrow> v)"

definition update_sso_config :: "sso_env \<Rightarrow> sso_update \<Rightarrow> sso_config \<Rightarrow> sso_config" where
  "update_sso_config w d c =
     c\<lparr>sc_enabled := or_kept (up_enabled d) (sc_enabled c), sc_idp_entity := or_old (up_idp_entity d) (sc_idp_entity c),
       sc_idp_sso_url := or_old (up_idp_sso_url d) (sc_idp_sso_url c), sc_certificate := or_old (up_certificate d) (sc_certificate c),
       sc_sp_entity := or_old (up_sp_entity d) (sc_sp_entity c), sc_acs_url := or_old (up_acs_url d) (sc_acs_url c),
       sc_issuer := or_old (up_issuer d) (sc_issuer c), sc_client := or_old (up_client d) (sc_client c),
       sc_secret := or_old (encrypted w (up_secret d)) (sc_secret c), sc_scopes := or_kept (up_scopes d) (sc_scopes c),
       sc_mapping := or_kept (up_mapping d) (sc_mapping c), sc_default_role := or_kept (up_default_role d) (sc_default_role c),
       sc_jit := or_kept (up_jit d) (sc_jit c)\<rparr>"

definition find_config :: "string \<Rightarrow> string \<Rightarrow> 'c sso_state \<Rightarrow> sso_config option" where
  "find_config i tenant st =
     (case find (\<lambda>c. sc_id c = i) (sso_configs st) of
        None \<Rightarrow> None
      | Some c \<Rightarrow> if sc_tenant c \<noteq> tenant then None else Some c)"

definition update_config :: "sso_env \<Rightarrow> string \<Rightarrow> string \<Rightarrow> sso_update \<Rightarrow> 'c sso_state \<Rightarrow> (nat + sso_config) \<times> 'c sso_state" where
  "update_config w i tenant d st =
     (case find_config i tenant st of
        None \<Rightarrow> (Inl 404, st)
      | Some c \<Rightarrow>
          (Inr (update_sso_config w d c),
           st\<lparr>sso_configs := map (\<lambda>x. if sc_id x = i then update_sso_config w d x else x) (sso_configs st)\<rparr>))"

definition delete_config :: "string \<Rightarrow> string \<Rightarrow> 'c sso_state \<Rightarrow> nat \<times> 'c sso_state" where
  "delete_config i tenant st =
     (case find_config i tenant st of
        None \<Rightarrow> (404, st)
      | Some c \<Rightarrow> (204, st\<lparr>sso_configs := filter (\<lambda>x. sc_id x \<noteq> i) (sso_configs st)\<rparr>))"

end
