(* ===== verification/Scim.thy ===== *)
theory Scim
  imports Sso
begin

text \<open>
  Provisioning, \<open>backend/app/services/scim_service.py\<close> as \<open>routers/scim.py\<close> runs it: the bearer tokens of a
  tenant, and the operations an identity provider performs with them on the tenant's users. An exception
  rolls the database back.
\<close>

section \<open>Tokens\<close>

definition create_scim_token :: "sso_env \<Rightarrow> string \<Rightarrow> string \<Rightarrow> nat option \<Rightarrow> string \<Rightarrow> 'c sso_state \<Rightarrow>
    (nat + scim_token \<times> string) \<times> 'c sso_state" where
  "create_scim_token w new_id random days tenant st =
     (let raw = ''scim_'' @ random; h = sha256_hex (se_auth w) raw;
          t = \<lparr>sm_id = new_id, sm_tenant = tenant, sm_hash = h, sm_active = True,
               sm_expires = (case days of None \<Rightarrow> None | Some d \<Rightarrow> if d = 0 then None else Some (utc (se_auth w) + 86400 * of_nat d))\<rparr>
      in if list_ex (\<lambda>x. sm_hash x = h) (scim_tokens st) then (Inl 500, st)
         else (Inr (t, raw), st\<lparr>scim_tokens := scim_tokens st @ [t]\<rparr>))"

definition validate_scim_token :: "sso_env \<Rightarrow> string \<Rightarrow> 'c sso_state \<Rightarrow> string option" where
  "validate_scim_token w raw st =
     (case find (\<lambda>t. sm_hash t = sha256_hex (se_auth w) raw \<and> sm_active t) (scim_tokens st) of
        None \<Rightarrow> None
      | Some t \<Rightarrow>
          (case sm_expires t of
             Some e \<Rightarrow> if e < utc (se_auth w) then None else Some (sm_tenant t)
           | None \<Rightarrow> Some (sm_tenant t)))"

definition revoke_scim_token :: "string \<Rightarrow> string \<Rightarrow> 'c sso_state \<Rightarrow> nat \<times> 'c sso_state" where
  "revoke_scim_token i tenant st =
     (case find (\<lambda>t. sm_id t = i \<and> sm_tenant t = tenant) (scim_tokens st) of
        None \<Rightarrow> (404, st)
      | Some _ \<Rightarrow> (204, st\<lparr>scim_tokens := map (\<lambda>t. if sm_id t = i then t\<lparr>sm_active := False\<rparr> else t) (scim_tokens st)\<rparr>))"

definition get_scim_tenant :: "sso_env \<Rightarrow> string option \<Rightarrow> 'c sso_state \<Rightarrow> string option" where
  "get_scim_tenant w header st =
     (if nonempty header \<and> starts_with ''Bearer '' (the header) then validate_scim_token w (drop 7 (the header)) st else None)"

section \<open>Reading users\<close>

definition scim_get_user :: "string \<Rightarrow> string \<Rightarrow> 'c sso_state \<Rightarrow> user_row option" where
  "scim_get_user tenant i st = find (\<lambda>u. usr_id u = i \<and> usr_tenant u = tenant) (users (sso_auth st))"

text \<open>\<open>split(" ", 2)\<close>: at most two cuts.\<close>

fun split_space :: "nat \<Rightarrow> string \<Rightarrow> string \<Rightarrow> string list" where
  "split_space n acc [] = [acc]"
| "split_space n acc (c # cs) =
     (if c = CHR '' '' \<and> 0 < n then acc # split_space (n - 1) [] cs else split_space n (acc @ [c]) cs)"

definition strip_char :: "char \<Rightarrow> string \<Rightarrow> string" where
  "strip_char c s = rev (dropWhile (\<lambda>x. x = c) (rev (dropWhile (\<lambda>x. x = c) s)))"

text \<open>The address a filter asks for; \<open>None\<close> is an unsupported filter.\<close>

definition filter_address :: "string \<Rightarrow> string option" where
  "filter_address f =
     (case split_space 2 [] (py_strip f) of
        [a, b, v] \<Rightarrow>
          if py_lower a = ''username'' \<and> py_lower b = ''eq''
          then Some (py_lower (strip_char (char_of (39 :: nat)) (strip_char (char_of (34 :: nat)) v))) else None
      | _ \<Rightarrow> None)"

definition scim_list_users :: "string \<Rightarrow> int \<Rightarrow> nat \<Rightarrow> string option \<Rightarrow> 'c sso_state \<Rightarrow> (user_row list \<times> nat) option" where
  "scim_list_users tenant start cnt flt st =
     (let own = filter (\<lambda>u. usr_tenant u = tenant) (users (sso_auth st))
      in map_option (\<lambda>us. (take cnt (drop (nat (max 0 (start - 1))) us), length us))
           (if \<not> nonempty flt then Some own
            else map_option (\<lambda>a. filter (\<lambda>u. usr_email u = a) own) (filter_address (the flt))))"

section \<open>Changing users\<close>

record scim_name =
  sn_formatted :: "string option"
  sn_family :: "string option"
  sn_given :: "string option"

text \<open>The body of a creation or replacement, with the fields that were sent; \<open>primary\<close> is missing unless sent.\<close>

record scim_body =
  sb_set :: "string list"
  sb_user_name :: string
  sb_external :: "string option"
  sb_name :: "scim_name option"
  sb_display :: "string option"
  sb_emails :: "(string \<times> bool option) list"
  sb_active :: bool
  sb_password :: "string option"

definition clean_email :: "string \<Rightarrow> string" where
  "clean_email e = py_strip (py_lower e)"

definition shown :: "string option \<Rightarrow> string" where
  "shown x = (case x of None \<Rightarrow> ''None'' | Some s \<Rightarrow> s)"

text \<open>The display name, or the name: the parts that are missing are written as \<open>None\<close>.\<close>

definition name_of_body :: "scim_body \<Rightarrow> string option" where
  "name_of_body b =
     (if nonempty (sb_display b) then sb_display b
      else case sb_name b of
             None \<Rightarrow> sb_display b
           | Some n \<Rightarrow> if nonempty (sn_formatted n) then sn_formatted n
                       else Some (py_strip (shown (sn_given n) @ '' '' @ shown (sn_family n))))"

definition scim_create_user :: "sso_env \<Rightarrow> string \<Rightarrow> scim_body \<Rightarrow> 'c sso_state \<Rightarrow> (nat + user_row) \<times> 'c sso_state" where
  "scim_create_user w tenant b st =
     (let email = clean_email (sb_user_name b)
      in if email = [] then (Inl 409, st)
         else if list_ex (\<lambda>u. usr_tenant u = tenant \<and> usr_email u = email) (users (sso_auth st)) then (Inl 409, st)
         else let i = new_user_id (se_auth w);
                  pw = (if nonempty (sb_password b) then the (sb_password b) else random_password w);
                  u = \<lparr>usr_id = i, usr_tenant = tenant, usr_email = email, usr_hash = hashpw (se_auth w) pw,
                       usr_role = ''viewer'', usr_name = name_of_body b, usr_active = sb_active b, usr_failed = 0,
                       usr_locked = None, usr_must_change = True, usr_last_login = None\<rparr>
              in (Inr u, st\<lparr>sso_auth := (sso_auth st)\<lparr>users := users (sso_auth st) @ [u]\<rparr>,
                   sso_columns := dict_set i \<lparr>uc_provider = Some ''scim'', uc_subject = None, uc_external = sb_external b\<rparr> (sso_columns st)\<rparr>))"

text \<open>
  A user as an operation changes it before it is written: the columns take any value until then.
\<close>

record scim_draft =
  sd_email :: string
  sd_name :: pval
  sd_active :: pval
  sd_external :: pval

definition draft_of :: "'c sso_state \<Rightarrow> user_row \<Rightarrow> scim_draft" where
  "draft_of st u =
     \<lparr>sd_email = usr_email u, sd_name = text_value (usr_name u), sd_active = VBool (usr_active u),
      sd_external = text_value (uc_external (dict_get_or (sso_columns st) (usr_id u) no_columns))\<rparr>"

text \<open>The write: 500 when a column refuses its value or the address is another user's of the tenant.\<close>

definition write_draft :: "sso_env \<Rightarrow> user_row \<Rightarrow> scim_draft \<Rightarrow> 'c sso_state \<Rightarrow> (nat + user_row) \<times> 'c sso_state" where
  "write_draft w u d st =
     (case (db_text w (sd_name d), db_bool w (sd_active d), db_text w (sd_external d)) of
        (Some nm, Some act, Some ext) \<Rightarrow>
          if list_ex (\<lambda>x. usr_id x \<noteq> usr_id u \<and> usr_tenant x = usr_tenant u \<and> usr_email x = sd_email d) (users (sso_auth st))
          then (Inl 500, st)
          else let f = (\<lambda>x. x\<lparr>usr_email := sd_email d, usr_name := nm, usr_active := act\<rparr>);
                   cols = dict_get_or (sso_columns st) (usr_id u) no_columns
               in (Inr (f u), st\<lparr>sso_auth := update_row (usr_id u) f (sso_auth st),
                    sso_columns := dict_set (usr_id u) (cols\<lparr>uc_external := ext\<rparr>) (sso_columns st)\<rparr>)
      | _ \<Rightarrow> (Inl 500, st))"

text \<open>The address of a replacement: the user name, or the first primary or else the first of the addresses.\<close>

definition body_email :: "scim_body \<Rightarrow> string" where
  "body_email b =
     (if ''emails'' \<in> set (sb_set b) \<and> sb_emails b \<noteq> []
      then (case find (\<lambda>(_, p). p = Some True) (sb_emails b) of
              Some (e, _) \<Rightarrow> clean_email e
            | None \<Rightarrow> clean_email (fst (hd (sb_emails b))))
      else clean_email (sb_user_name b))"

definition replace_draft :: "scim_body \<Rightarrow> scim_draft \<Rightarrow> scim_draft" where
  "replace_draft b d =
     (let d1 = d\<lparr>sd_email := body_email b\<rparr>;
          d2 = (if ''displayName'' \<in> set (sb_set b) then d1\<lparr>sd_name := text_value (sb_display b)\<rparr> else d1);
          d3 = (case sb_name b of
                  Some n \<Rightarrow> if ''name'' \<in> set (sb_set b) \<and> nonempty (sn_formatted n)
                            then d2\<lparr>sd_name := text_value (sn_formatted n)\<rparr> else d2
                | None \<Rightarrow> d2);
          d4 = (if ''active'' \<in> set (sb_set b) then d3\<lparr>sd_active := VBool (sb_active b)\<rparr> else d3)
      in if ''externalId'' \<in> set (sb_set b) then d4\<lparr>sd_external := text_value (sb_external b)\<rparr> else d4)"

definition scim_update_user :: "sso_env \<Rightarrow> user_row \<Rightarrow> scim_body \<Rightarrow> 'c sso_state \<Rightarrow> (nat + user_row) \<times> 'c sso_state" where
  "scim_update_user w u b st = write_draft w u (replace_draft b (draft_of st u)) st"

record patch_op =
  po_op :: string
  po_path :: "string option"
  po_value :: pval

text \<open>The replacement of several fields by an operation without a path; \<open>None\<close> is an exception.\<close>

definition bulk_draft :: "(string, pval) dict \<Rightarrow> scim_draft \<Rightarrow> scim_draft option" where
  "bulk_draft e d =
     map_option (\<lambda>d1. case dict_get e ''displayName'' of None \<Rightarrow> d1 | Some x \<Rightarrow> d1\<lparr>sd_name := x\<rparr>)
       (case dict_get e ''userName'' of
          None \<Rightarrow> Some d
        | Some (VStr s) \<Rightarrow> Some (d\<lparr>sd_email := clean_email s\<rparr>)
        | Some _ \<Rightarrow> None)"

text \<open>One operation of a patch; \<open>None\<close> is an exception. A dictionary with \<open>active\<close> changes nothing else.\<close>

definition apply_op :: "sso_env \<Rightarrow> scim_draft \<Rightarrow> patch_op \<Rightarrow> scim_draft option" where
  "apply_op w d po =
     (let path = shown (po_path po); none = \<not> nonempty (po_path po); v = po_value po
      in if py_lower (po_op po) = ''replace''
         then (if (\<not> none \<and> path = ''active'') \<or> (none \<and> (case v of VDict e \<Rightarrow> dict_get e ''active'' \<noteq> None | _ \<Rightarrow> False))
               then (case v of
                       VBool x \<Rightarrow> Some (d\<lparr>sd_active := v\<rparr>)
                     | VDict e \<Rightarrow> Some (d\<lparr>sd_active := dict_get_or e ''active'' (VBool True)\<rparr>)
                     | _ \<Rightarrow> None)
               else if none
               then (case v of
                       VDict e \<Rightarrow> bulk_draft e d
                     | _ \<Rightarrow> Some d)
               else if path = ''userName'' then Some (d\<lparr>sd_email := clean_email (text_of w v)\<rparr>)
               else if path = ''displayName'' \<or> path = ''name.formatted'' then Some (d\<lparr>sd_name := VStr (text_of w v)\<rparr>)
               else if path = ''externalId'' then Some (d\<lparr>sd_external := VStr (text_of w v)\<rparr>)
               else Some d)
         else if py_lower (po_op po) = ''add'' \<and> \<not> none \<and> path = ''emails''
         then (case v of
                 VList (VDict e # _) \<Rightarrow>
                   (case dict_get_or e ''value'' (VStr (sd_email d)) of
                      VStr s \<Rightarrow> Some (d\<lparr>sd_email := clean_email s\<rparr>) | _ \<Rightarrow> None)
               | VList (_ # _) \<Rightarrow> None
               | _ \<Rightarrow> Some d)
         else Some d)"

fun apply_ops :: "sso_env \<Rightarrow> scim_draft \<Rightarrow> patch_op list \<Rightarrow> scim_draft option" where
  "apply_ops w d [] = Some d"
| "apply_ops w d (po # ops) = (case apply_op w d po of None \<Rightarrow> None | Some d' \<Rightarrow> apply_ops w d' ops)"

definition scim_patch_user :: "sso_env \<Rightarrow> user_row \<Rightarrow> patch_op list \<Rightarrow> 'c sso_state \<Rightarrow> (nat + user_row) \<times> 'c sso_state" where
  "scim_patch_user w u ops st =
     (case apply_ops w (draft_of st u) ops of None \<Rightarrow> (Inl 500, st) | Some d \<Rightarrow> write_draft w u d st)"

section \<open>Routes\<close>

datatype scim_call =
  Scim_Create scim_body
| Scim_Replace string scim_body
| Scim_Patch string "patch_op list"
| Scim_Delete string

definition with_user :: "string \<Rightarrow> string \<Rightarrow> 'c sso_state \<Rightarrow> (user_row \<Rightarrow> (nat + user_row) \<times> 'c sso_state) \<Rightarrow>
    (nat + user_row) \<times> 'c sso_state" where
  "with_user tenant i st f = (case scim_get_user tenant i st of None \<Rightarrow> (Inl 404, st) | Some u \<Rightarrow> f u)"

definition scim_delete :: "user_row \<Rightarrow> 'c sso_state \<Rightarrow> (nat + user_row) \<times> 'c sso_state" where
  "scim_delete u st =
     (Inr (u\<lparr>usr_active := False\<rparr>), st\<lparr>sso_auth := update_row (usr_id u) (\<lambda>x. x\<lparr>usr_active := False\<rparr>) (sso_auth st)\<rparr>)"

definition scim_request :: "sso_env \<Rightarrow> string option \<Rightarrow> scim_call \<Rightarrow> 'c sso_state \<Rightarrow> (nat + user_row) \<times> 'c sso_state" where
  "scim_request w header r st =
     (case get_scim_tenant w header st of
        None \<Rightarrow> (Inl 401, st)
      | Some tenant \<Rightarrow>
          (case r of
             Scim_Create b \<Rightarrow> scim_create_user w tenant b st
           | Scim_Replace i b \<Rightarrow> with_user tenant i st (\<lambda>u. scim_update_user w u b st)
           | Scim_Patch i ops \<Rightarrow> with_user tenant i st (\<lambda>u. scim_patch_user w u ops st)
           | Scim_Delete i \<Rightarrow> with_user tenant i st (\<lambda>u. scim_delete u st)))"

end
