(* ===== verification/Sso_Props.thy ===== *)
theory Sso_Props
  imports Scim Auth_Props
begin

text \<open>
  What single sign-on and provisioning promise: an assertion logs in once, and a provisioning token reaches
  the users of its tenant only. And what they do not: the signature of a response is checked, but its
  content is not what was signed; a deactivated user gets tokens again; and a user they create can never
  use the application.
\<close>

section \<open>Requests\<close>

datatype sso_call =
  Saml_Acs sso_env "string option" "string option"
| Oidc_Login sso_env "string option" "string option"
| Oidc_Callback sso_env "string option" "string option" "string option"
| Scim_Call sso_env "string option" scim_call
| Scim_Token sso_env string string "nat option" string
| Scim_Revoke string string
| Config_Create sso_env string sso_config
| Config_Update sso_env string string sso_update
| Config_Delete string string
| Local auth_op

fun sso_step :: "'c ttl_cache \<Rightarrow> (string \<Rightarrow> bool) \<Rightarrow> (string \<Rightarrow> string option) \<Rightarrow> 'c sso_state \<Rightarrow> sso_call \<Rightarrow> 'c sso_state" where
  "sso_step tc uu slugs st (Saml_Acs w response tenant) = snd (saml_acs w uu response tenant st)"
| "sso_step tc uu slugs st (Oidc_Login w tenant slug) = snd (oidc_login tc w tenant slug slugs st)"
| "sso_step tc uu slugs st (Oidc_Callback w c state error) = snd (oidc_callback tc w c state error st)"
| "sso_step tc uu slugs st (Scim_Call w header r) = snd (scim_request w header r st)"
| "sso_step tc uu slugs st (Scim_Token w i random days tenant) = snd (create_scim_token w i random days tenant st)"
| "sso_step tc uu slugs st (Scim_Revoke i tenant) = snd (revoke_scim_token i tenant st)"
| "sso_step tc uu slugs st (Config_Create w tenant cfg) = snd (create_config w tenant cfg st)"
| "sso_step tc uu slugs st (Config_Update w i tenant d) = snd (update_config w i tenant d st)"
| "sso_step tc uu slugs st (Config_Delete i tenant) = snd (delete_config i tenant st)"
| "sso_step tc uu slugs st (Local op) = st\<lparr>sso_auth := auth_step (sso_auth st) op\<rparr>"

section \<open>Assertions are used once\<close>

lemma validate_saml_success:
  assumes "validate_saml_response w cfg response st = Inr (ident, st1)"
  obtains xmltext doc a i where "b64_utf8 w response = Some xmltext" and "parse_xml w xmltext = Some doc"
    and "verify_xml w xmltext (the (sc_certificate cfg)) \<noteq> None" and "find_below ''saml:Assertion'' doc = Some a"
    and "i = dict_get_or (xml_attrs a) ''ID'' []" and "i \<noteq> []" and "dict_get (assertion_ids st) i = None"
    and "check_conditions w cfg a = None" and "saml_identity cfg a = Inr ident"
    and "st1 = st\<lparr>assertion_ids := dict_set i (sc_tenant cfg, utc (se_auth w) + 3600) (assertion_ids st)\<rparr>"
  using assms that
  by (simp add: validate_saml_response_def Let_def del: not_None_eq split: option.splits if_splits sum.splits)

lemma jit_state:
  assumes "jit_provision_or_link w cfg ident provider st = Inr (u, new, st1)"
  shows "assertion_ids st1 = assertion_ids st" "tokens (sso_auth st1) = tokens (sso_auth st)"
  using assms
  by (auto simp: jit_provision_or_link_def Let_def update_row_def split: list.splits option.splits if_splits)

text \<open>What the end of a flow does to the state: nothing, or that of the provisioning and the new token.\<close>

lemma finish_sso_cases:
  "snd (finish_sso w cfg ident provider st st1) = st \<or>
   (\<exists>u new st2 r a. jit_provision_or_link w cfg ident provider st1 = Inr (u, new, st2) \<and>
      create_token_pair (se_auth w) u (sso_auth st2) = Some (r, a) \<and>
      snd (finish_sso w cfg ident provider st st1) = st2\<lparr>sso_auth := a\<rparr>)"
  by (auto simp: finish_sso_def split: sum.split option.split)

lemma finish_sso_success:
  assumes "finish_sso w cfg ident provider st st1 = (Inr r, st')"
  obtains u new st2 a where "jit_provision_or_link w cfg ident provider st1 = Inr (u, new, st2)"
    and "create_token_pair (se_auth w) u (sso_auth st2) = Some (r, a)" and "st' = st2\<lparr>sso_auth := a\<rparr>"
  using assms that by (auto simp: finish_sso_def split: sum.splits option.splits if_splits)

lemma finish_sso_assertions:
  "assertion_ids (snd (finish_sso w cfg ident provider st st1)) \<in> {assertion_ids st, assertion_ids st1}"
  using finish_sso_cases [of w cfg ident provider st st1] by (auto simp: jit_state)

lemma saml_acs_assertions:
  "\<exists>new. assertion_ids (snd (saml_acs w uu response tenant st)) = fold (\<lambda>(k, v). dict_set k v) new (assertion_ids st)"
proof -
  have id: "\<exists>new. assertion_ids st = fold (\<lambda>(k, v). dict_set k v) new (assertion_ids st)" by (rule exI [of _ "[]"]) simp
  have one: "\<exists>new. assertion_ids (snd (finish_sso w cfg ident p st st1)) = fold (\<lambda>(k, v). dict_set k v) new (assertion_ids st)"
    if v: "validate_saml_response w cfg resp st = Inr (ident, st1)" for cfg resp ident st1 p
  proof -
    obtain i v where st1: "st1 = st\<lparr>assertion_ids := dict_set i v (assertion_ids st)\<rparr>"
      using validate_saml_success [OF v] by metis
    from finish_sso_assertions [of w cfg ident p st st1] show ?thesis
    proof (elim insertE)
      assume "assertion_ids (snd (finish_sso w cfg ident p st st1)) = assertion_ids st1"
      then show ?thesis unfolding st1 by (intro exI [of _ "[(i, v)]"]) simp
    qed (use id in simp_all)
  qed
  show ?thesis
    by (auto simp: saml_acs_def id one split: option.split sum.split)
qed

lemma dict_set_all_kept: "dict_get d i \<noteq> None \<Longrightarrow> dict_get (fold (\<lambda>(k, v). dict_set k v) new d) i \<noteq> None"
  by (induction new arbitrary: d) auto

lemma oidc_login_keeps: "assertion_ids (snd (oidc_login tc w t slug slugs st)) = assertion_ids st"
  "sso_auth (snd (oidc_login tc w t slug slugs st)) = sso_auth st"
  by (auto simp: oidc_login_def split: option.split sum.split)

text \<open>A callback: the cache is read, and what follows is the end of a flow on the rest.\<close>

lemma oidc_callback_cases:
  "\<exists>c. snd (oidc_callback tc w g s e st) = st\<lparr>oidc_states := c\<rparr> \<or>
     (\<exists>cfg ident. snd (oidc_callback tc w g s e st) =
        snd (finish_sso w cfg ident ''oidc'' (st\<lparr>oidc_states := c\<rparr>) (st\<lparr>oidc_states := c\<rparr>)))"
proof (cases "nonempty e \<or> \<not> nonempty g \<or> \<not> nonempty s")
  case True
  then have "snd (oidc_callback tc w g s e st) = st\<lparr>oidc_states := oidc_states st\<rparr>" by (auto simp: oidc_callback_def)
  then show ?thesis by blast
next
  case False
  obtain x c where pop: "cache_pop tc (monotonic (se_auth w)) (the s) (oidc_states st) = (x, c)" by fastforce
  from False have "\<not> nonempty e" "nonempty g" "nonempty s" by auto
  then show ?thesis
    by (intro exI [of _ c]) (auto simp: oidc_callback_def pop Let_def split: option.split sum.split)
qed

lemma oidc_callback_assertions: "assertion_ids (snd (oidc_callback tc w g s e st)) = assertion_ids st"
proof -
  obtain c where "snd (oidc_callback tc w g s e st) = st\<lparr>oidc_states := c\<rparr> \<or>
     (\<exists>cfg ident. snd (oidc_callback tc w g s e st) =
        snd (finish_sso w cfg ident ''oidc'' (st\<lparr>oidc_states := c\<rparr>) (st\<lparr>oidc_states := c\<rparr>)))"
    using oidc_callback_cases [of tc w g s e st] by blast
  then show ?thesis
    using finish_sso_assertions [of w _ _ "''oidc''" "st\<lparr>oidc_states := c\<rparr>" "st\<lparr>oidc_states := c\<rparr>"] by auto
qed

lemma write_draft_assertions: "assertion_ids (snd (write_draft w u d st)) = assertion_ids st"
  by (auto simp: write_draft_def Let_def split: option.split)

lemma scim_assertions: "assertion_ids (snd (scim_request w header r st)) = assertion_ids st"
  by (auto simp: scim_request_def scim_create_user_def with_user_def scim_update_user_def scim_patch_user_def
      scim_delete_def write_draft_assertions Let_def split: option.split scim_call.split)

interpretation assertions: machine "sso_step tc uu slugs" "\<lambda>st. dict_get (assertion_ids st) i \<noteq> None"
proof
  show "dict_get (assertion_ids (sso_step tc uu slugs st c)) i \<noteq> None" if used: "dict_get (assertion_ids st) i \<noteq> None" for st c
  proof (cases c)
    case (Saml_Acs w response tenant)
    with saml_acs_assertions [of w uu response tenant st] dict_set_all_kept [OF used] show ?thesis by auto
  qed (use used in \<open>auto simp: oidc_login_keeps oidc_callback_assertions scim_assertions create_scim_token_def
      revoke_scim_token_def create_config_def update_config_def delete_config_def Let_def split: option.split\<close>)
qed

text \<open>The assertion a response presents, if its text is readable.\<close>

definition presented_assertion :: "sso_env \<Rightarrow> string option \<Rightarrow> string option" where
  "presented_assertion w response =
     (case b64_utf8 w (the response) of
        None \<Rightarrow> None
      | Some xmltext \<Rightarrow>
          (case parse_xml w xmltext of
             None \<Rightarrow> None
           | Some doc \<Rightarrow> map_option (\<lambda>a. dict_get_or (xml_attrs a) ''ID'' []) (find_below ''saml:Assertion'' doc)))"

lemma saml_acs_uses:
  assumes "saml_acs w uu response tenant st = (Inr r, st1)"
  obtains i where "presented_assertion w response = Some i" and "dict_get (assertion_ids st) i = None"
    and "dict_get (assertion_ids st1) i \<noteq> None"
proof -
  from assms obtain cfg ident st2 where v: "validate_saml_response w cfg (the response) st = Inr (ident, st2)"
    and f: "finish_sso w cfg ident ''saml'' st st2 = (Inr r, st1)"
    by (auto simp: saml_acs_def split: if_splits option.splits sum.splits)
  from f have "assertion_ids st1 = assertion_ids st2" by (elim finish_sso_success) (simp add: jit_state)
  moreover from v have "\<exists>i. presented_assertion w response = Some i \<and> dict_get (assertion_ids st) i = None \<and>
      dict_get (assertion_ids st2) i \<noteq> None"
    by (rule validate_saml_success) (simp add: presented_assertion_def)
  ultimately show ?thesis using that by auto
qed

text \<open>
  C16: Once a SAML response has logged a user in, no response with the same assertion does so again, whatever
  requests come between, for whichever tenant it is presented.
\<close>

theorem assertion_used_once:
  assumes "saml_acs w uu response tenant st = (Inr r, st1)"
    and "presented_assertion w' response' = presented_assertion w response"
  shows "\<nexists>r'. fst (saml_acs w' uu response' tenant' (foldl (sso_step tc uu slugs) st1 calls)) = Inr r'"
proof
  assume "\<exists>r'. fst (saml_acs w' uu response' tenant' (foldl (sso_step tc uu slugs) st1 calls)) = Inr r'"
  then obtain r' st3 where again: "saml_acs w' uu response' tenant' (foldl (sso_step tc uu slugs) st1 calls) = (Inr r', st3)"
    by (metis prod.collapse)
  obtain i where i: "presented_assertion w response = Some i" and used: "dict_get (assertion_ids st1) i \<noteq> None"
    using saml_acs_uses [OF assms(1)] by metis
  from again obtain j where "presented_assertion w' response' = Some j"
      and "dict_get (assertion_ids (foldl (sso_step tc uu slugs) st1 calls)) j = None"
    by (rule saml_acs_uses)
  moreover have "dict_get (assertion_ids (foldl (sso_step tc uu slugs) st1 calls)) i \<noteq> None"
    using assertions.inv_run [OF used] .
  ultimately show False using i assms(2) by simp
qed

section \<open>The signature of a response\<close>

text \<open>An assertion that anybody can write: an identifier and an address.\<close>

definition bare_assertion :: "string \<Rightarrow> string \<Rightarrow> xml" where
  "bare_assertion i e =
     Elem ''saml:Assertion'' [(''ID'', i)] None [Elem ''saml:Subject'' [] None [Elem ''saml:NameID'' [] (Some e) []]]"

lemma bare_assertion_simps [simp]:
  "xml_tag (bare_assertion i e) = ''saml:Assertion''" "dict_get_or (xml_attrs (bare_assertion i e)) ''ID'' [] = i"
  "check_conditions w cfg (bare_assertion i e) = None"
  by (simp_all add: bare_assertion_def dict_get_or_def check_conditions_def find_child_def)

lemma bare_identity:
  assumes "sc_mapping cfg = []" and "e \<noteq> []"
  shows "saml_identity cfg (bare_assertion i e) =
     Inr \<lparr>id_email = clean_email e, id_name = VNone, id_groups = VList [], id_subject = VStr e\<rparr>"
  using assms
  by (simp add: saml_identity_def bare_assertion_def find_below_def nonempty_def saml_email_def saml_name_def
      saml_groups_def mapping_of_def dict_get_or_def clean_email_def)

lemma find_below_first: "xml_tag c = tag \<Longrightarrow> find_below tag (Elem t a x (c # cs)) = Some c"
  by (simp add: find_below_def)

lemma jit_existing:
  assumes "filter (\<lambda>x. usr_tenant x = sc_tenant cfg \<and> usr_email x = id_email ident) (users (sso_auth st)) = [u]"
    and "db_text w (id_subject ident) \<noteq> None"
  obtains st' where "jit_provision_or_link w cfg ident p st = Inr (u\<lparr>usr_last_login := Some (utc (se_auth w))\<rparr>, False, st')"
    and "sso_auth st' = update_row (usr_id u) (\<lambda>u. u\<lparr>usr_last_login := Some (utc (se_auth w))\<rparr>) (sso_auth st)"
    and "assertion_ids st' = assertion_ids st"
proof (cases "nonempty (uc_provider (dict_get_or (sso_columns st) (usr_id u) no_columns))")
  case True
  with assms(1) that show ?thesis by (simp add: jit_provision_or_link_def)
next
  case False
  with assms that show ?thesis by (auto simp: jit_provision_or_link_def Let_def)
qed

lemma finish_existing:
  assumes "filter (\<lambda>x. usr_tenant x = sc_tenant cfg \<and> usr_email x = id_email ident) (users (sso_auth st1)) = [u]"
    and "db_text w (id_subject ident) \<noteq> None" and "frontend_ok w"
    and "\<forall>t \<in> set (tokens (sso_auth st1)). tok_hash t \<noteq> sha256_hex (se_auth w) (raw_token (se_auth w))"
  obtains r st2 where "finish_sso w cfg ident p st st1 = (Inr r, st2)"
    and "resp_access r = create_access_token (se_auth w) (u\<lparr>usr_last_login := Some (utc (se_auth w))\<rparr>)"
    and "users (sso_auth st2) =
       map (\<lambda>x. if usr_id x = usr_id u then x\<lparr>usr_last_login := Some (utc (se_auth w))\<rparr> else x) (users (sso_auth st1))"
proof -
  obtain st' where j: "jit_provision_or_link w cfg ident p st1 = Inr (u\<lparr>usr_last_login := Some (utc (se_auth w))\<rparr>, False, st')"
    and a: "sso_auth st' = update_row (usr_id u) (\<lambda>u. u\<lparr>usr_last_login := Some (utc (se_auth w))\<rparr>) (sso_auth st1)"
    using jit_existing [OF assms(1,2)] by metis
  have "\<not> list_ex (\<lambda>t. tok_hash t = sha256_hex (se_auth w) (raw_token (se_auth w))) (tokens (sso_auth st'))"
    using assms(4) by (auto simp: a list_ex_iff)
  with j a assms(3) that show ?thesis by (simp add: finish_sso_def create_token_pair_def Let_def update_row_def)
qed

lemma bare_login:
  assumes "get_sso_config st tenant ''saml'' = Some (Some cfg)" and "nonempty (sc_certificate cfg)" and "sc_mapping cfg = []"
    and "verify_xml w x (the (sc_certificate cfg)) \<noteq> None" and "b64_utf8 w response = Some x"
    and "parse_xml w x = Some (Elem ''samlp:Response'' [] None [bare_assertion i e, old])"
    and "find_below ''samlp:StatusCode'' (Elem ''samlp:Response'' [] None [bare_assertion i e, old]) = None"
    and "i \<noteq> []" and "dict_get (assertion_ids st) i = None" and "e \<noteq> []"
    and "filter (\<lambda>v. usr_tenant v = sc_tenant cfg \<and> usr_email v = clean_email e) (users (sso_auth st)) = [u]"
    and "db_text w (VStr e) \<noteq> None" and "frontend_ok w" and "uu tenant" and "tenant \<noteq> []"
    and "response \<noteq> []" and "length response \<le> 256000"
    and "\<forall>t \<in> set (tokens (sso_auth st)). tok_hash t \<noteq> sha256_hex (se_auth w) (raw_token (se_auth w))"
  shows "\<exists>r st'. saml_acs w uu (Some response) (Some tenant) st = (Inr r, st') \<and>
    claim_sub (resp_access r) = usr_id u \<and> claim_tenant (resp_access r) = usr_tenant u \<and> claim_role (resp_access r) = usr_role u"
proof -
  let ?d = "Elem ''samlp:Response'' [] None [bare_assertion i e, old]"
  let ?ident = "\<lparr>id_email = clean_email e, id_name = VNone, id_groups = VList [], id_subject = VStr e\<rparr>"
  let ?st1 = "st\<lparr>assertion_ids := dict_set i (sc_tenant cfg, utc (se_auth w) + 3600) (assertion_ids st)\<rparr>"
  have "find_below ''saml:Assertion'' ?d = Some (bare_assertion i e)" by (rule find_below_first) simp
  then have v: "validate_saml_response w cfg response st = Inr (?ident, ?st1)"
    using assms(2-10) bare_identity [OF assms(3,10)] by (simp add: validate_saml_response_def Let_def)
  have only: "filter (\<lambda>v. usr_tenant v = sc_tenant cfg \<and> usr_email v = id_email ?ident) (users (sso_auth ?st1)) = [u]"
    using assms(11) by simp
  have sub: "db_text w (id_subject ?ident) \<noteq> None" using assms(12) by simp
  have fresh: "\<forall>t \<in> set (tokens (sso_auth ?st1)). tok_hash t \<noteq> sha256_hex (se_auth w) (raw_token (se_auth w))"
    using assms(18) by simp
  obtain r st2 where "finish_sso w cfg ?ident ''saml'' st ?st1 = (Inr r, st2)"
      and "resp_access r = create_access_token (se_auth w) (u\<lparr>usr_last_login := Some (utc (se_auth w))\<rparr>)"
      and "users (sso_auth st2) =
        map (\<lambda>x. if usr_id x = usr_id u then x\<lparr>usr_last_login := Some (utc (se_auth w))\<rparr> else x) (users (sso_auth ?st1))"
    by (rule finish_existing [OF only sub assms(13) fresh])
  with v assms(1,14-17) show ?thesis by (simp add: saml_acs_def nonempty_def create_access_token_def)
qed

text \<open>The environment in which the verifier answers with another element for one text and certificate.\<close>

definition vouching :: "string \<Rightarrow> string \<Rightarrow> xml \<Rightarrow> sso_env \<Rightarrow> sso_env" where
  "vouching x cert e w = w\<lparr>verify_xml := (\<lambda>y c. if y = x \<and> c = cert then Some e else verify_xml w y c)\<rparr>"

lemma vouching_simps [simp]:
  "se_auth (vouching x cert e w) = se_auth w" "b64_utf8 (vouching x cert e w) = b64_utf8 w"
  "parse_xml (vouching x cert e w) = parse_xml w" "parse_time (vouching x cert e w) = parse_time w"
  "db_text (vouching x cert e w) = db_text w" "random_password (vouching x cert e w) = random_password w"
  "frontend_ok (vouching x cert e w) = frontend_ok w"
  "verify_xml (vouching x cert e w) y c = (if y = x \<and> c = cert then Some e else verify_xml w y c)"
  by (simp_all add: vouching_def)

lemma vouching_conditions: "check_conditions (vouching x cert e w) cfg a = check_conditions w cfg a"
  unfolding check_conditions_def check_bound_def vouching_simps by (rule refl)

lemma vouching_finish: "finish_sso (vouching x cert e w) cfg ident provider st st1 = finish_sso w cfg ident provider st st1"
  unfolding finish_sso_def jit_provision_or_link_def vouching_simps by (rule refl)

lemma vouching_validate:
  assumes "b64_utf8 w response = Some x" and "verify_xml w x (the (sc_certificate cfg)) \<noteq> None"
  shows "validate_saml_response (vouching x (the (sc_certificate cfg)) e w) cfg response st = validate_saml_response w cfg response st"
proof -
  obtain v where "verify_xml w x (the (sc_certificate cfg)) = Some v" using assms(2) by blast
  with assms(1) show ?thesis
    unfolding validate_saml_response_def vouching_simps vouching_conditions by (cases "parse_xml w x") simp_all
qed

text \<open>The user a flow ends with: a row of the tenant with the address of the identity, whose tokens are issued.\<close>

lemma jit_user:
  assumes "jit_provision_or_link w cfg ident provider st = Inr (u, new, st1)"
  shows "u \<in> set (users (sso_auth st1)) \<and> usr_email u = id_email ident \<and> usr_tenant u = sc_tenant cfg"
proof -
  let ?us = "filter (\<lambda>u. usr_tenant u = sc_tenant cfg \<and> usr_email u = id_email ident) (users (sso_auth st))"
  consider "?us = []" | v where "?us = [v]" | v x vs where "?us = v # x # vs"
    by (cases ?us rule: remdups_adj.cases) auto
  then show ?thesis
  proof cases
    case 1
    with assms show ?thesis
      by (auto simp: jit_provision_or_link_def Let_def split: option.splits if_splits prod.splits)
  next
    case (2 v)
    let ?f = "\<lambda>x. if usr_id x = usr_id v then x\<lparr>usr_last_login := Some (utc (se_auth w))\<rparr> else x"
    have "v \<in> set ?us" using 2 by simp
    then have v: "v \<in> set (users (sso_auth st))" "usr_tenant v = sc_tenant cfg" "usr_email v = id_email ident" by auto
    from 2 assms have "users (sso_auth st1) = map ?f (users (sso_auth st))" "u = ?f v"
      by (auto simp: jit_provision_or_link_def Let_def update_row_def split: option.splits if_splits)
    then show ?thesis using v by simp
  next
    case 3
    with assms show ?thesis by (simp add: jit_provision_or_link_def)
  qed
qed

lemma finish_user:
  assumes "finish_sso w cfg ident provider st st1 = (Inr r, st')"
  shows "\<exists>u \<in> set (users (sso_auth st')). usr_email u = id_email ident \<and> usr_tenant u = sc_tenant cfg \<and>
    claim_sub (resp_access r) = usr_id u \<and> claim_tenant (resp_access r) = usr_tenant u \<and> claim_role (resp_access r) = usr_role u"
proof -
  obtain u new st2 a where j: "jit_provision_or_link w cfg ident provider st1 = Inr (u, new, st2)"
    and t: "create_token_pair (se_auth w) u (sso_auth st2) = Some (r, a)" and st': "st' = st2\<lparr>sso_auth := a\<rparr>"
    using finish_sso_success [OF assms] by metis
  from t have "users a = users (sso_auth st2)" "resp_access r = create_access_token (se_auth w) u"
    by (auto simp: create_token_pair_def Let_def split: if_splits)
  with jit_user [OF j] st' show ?thesis by (auto simp: create_access_token_def)
qed

text \<open>
  C6: A SAML login is for the first assertion of the document, whatever was signed: the tokens are those of a user of
  the tenant with the address of that assertion, and if the verifier had vouched for any other element, one that has
  nothing to do with the assertion or one that names somebody else, the answer and the state would be the same. So
  whoever holds one signed element can put an assertion of their own before it.
\<close>

theorem signature_wrapping:
  assumes "saml_acs w uu (Some response) (Some tenant) st = (Inr r, st')"
  shows "\<exists>cfg x doc signed a ident. get_sso_config st tenant ''saml'' = Some (Some cfg) \<and>
    b64_utf8 w response = Some x \<and> parse_xml w x = Some doc \<and> verify_xml w x (the (sc_certificate cfg)) = Some signed \<and>
    find_below ''saml:Assertion'' doc = Some a \<and> saml_identity cfg a = Inr ident \<and>
    (\<exists>u \<in> set (users (sso_auth st')). usr_email u = id_email ident \<and> usr_tenant u = tenant \<and>
       claim_sub (resp_access r) = usr_id u \<and> claim_tenant (resp_access r) = tenant \<and> claim_role (resp_access r) = usr_role u) \<and>
    (\<forall>other. saml_acs (vouching x (the (sc_certificate cfg)) other w) uu (Some response) (Some tenant) st = (Inr r, st'))"
proof -
  from assms obtain cfg ident st1 where cfg: "get_sso_config st tenant ''saml'' = Some (Some cfg)"
    and v: "validate_saml_response w cfg response st = Inr (ident, st1)" and f: "finish_sso w cfg ident ''saml'' st st1 = (Inr r, st')"
    by (auto simp: saml_acs_def split: if_splits option.splits sum.splits)
  obtain x doc a where x: "b64_utf8 w response = Some x" "parse_xml w x = Some doc"
    "verify_xml w x (the (sc_certificate cfg)) \<noteq> None" "find_below ''saml:Assertion'' doc = Some a" "saml_identity cfg a = Inr ident"
    using validate_saml_success [OF v] by metis
  have "sc_tenant cfg = tenant"
  proof -
    from cfg obtain cs where "filter (\<lambda>c. sc_tenant c = tenant \<and> sc_type c = ''saml'' \<and> sc_enabled c) (sso_configs st) = cfg # cs"
      by (auto simp: get_sso_config_def split: list.splits)
    from filter_eq_ConsD [OF this] show ?thesis by blast
  qed
  with finish_user [OF f] have user: "\<exists>u \<in> set (users (sso_auth st')). usr_email u = id_email ident \<and> usr_tenant u = tenant \<and>
       claim_sub (resp_access r) = usr_id u \<and> claim_tenant (resp_access r) = tenant \<and> claim_role (resp_access r) = usr_role u"
    by auto
  have "validate_saml_response (vouching x (the (sc_certificate cfg)) other w) cfg response st = Inr (ident, st1)" for other
    unfolding vouching_validate [OF x(1,3)] by (rule v)
  then have "saml_acs (vouching x (the (sc_certificate cfg)) other w) uu (Some response) (Some tenant) st = (Inr r, st')" for other
    using assms cfg f by (simp add: saml_acs_def vouching_finish split: if_splits)
  with cfg x user show ?thesis by blast
qed

section \<open>Deactivated users\<close>

lemma scim_delete_state:
  assumes "scim_request w header (Scim_Delete i) st = (Inr v, st1)"
  shows "sso_auth st1 = update_row i (\<lambda>x. x\<lparr>usr_active := False\<rparr>) (sso_auth st)"
    and "sso_columns st1 = sso_columns st" and "usr_id v = i"
proof -
  obtain tenant u where "scim_get_user tenant i st = Some u" and d: "scim_delete u st = (Inr v, st1)"
    using assms by (auto simp: scim_request_def with_user_def split: option.splits)
  then have "usr_id u = i" by (auto simp: scim_get_user_def find_Some_iff)
  with d show "sso_auth st1 = update_row i (\<lambda>x. x\<lparr>usr_active := False\<rparr>) (sso_auth st)" "sso_columns st1 = sso_columns st"
    "usr_id v = i" by (auto simp: scim_delete_def)
qed

text \<open>Changes of a row that keep what a query asks for.\<close>

lemma filter_map_update:
  assumes "\<And>x. P (f x) = P x"
  shows "filter P (map f xs) = map f (filter P xs)"
  using assms by (simp add: filter_map o_def)

text \<open>
  C25: A user whom the identity provider has deprovisioned gets tokens again at the next single sign-on; the
  routes that ask for the current user let the user in with the role of before, and only those that ask for
  an active user do not.
\<close>

theorem deprovisioned_user_returns:
  assumes "scim_request w0 header (Scim_Delete i) st = (Inr v, st1)"
    and "filter (\<lambda>x. usr_tenant x = sc_tenant cfg \<and> usr_email x = id_email ident) (users (sso_auth st)) = [u]"
    and "usr_id u = i" and "\<not> usr_must_change u" and "distinct (map usr_id (users (sso_auth st)))"
    and "db_text w (id_subject ident) \<noteq> None" and "frontend_ok w"
    and "\<forall>t \<in> set (tokens (sso_auth st)). tok_hash t \<noteq> sha256_hex (se_auth w) (raw_token (se_auth w))"
    and "uu i" and "uu (usr_tenant u)"
  shows "\<exists>r st2 cu. finish_sso w cfg ident provider st1 st1 = (Inr r, st2) \<and>
    get_current_user uu path (resp_access r) = Inr cu \<and> cu_id cu = i \<and> cu_role cu = usr_role u \<and>
    get_current_active_user path (sso_auth st2) cu = Inl 403"
proof -
  let ?off = "\<lambda>x. if usr_id x = i then x\<lparr>usr_active := False\<rparr> else x"
  have us: "users (sso_auth st1) = map ?off (users (sso_auth st))" and ts: "tokens (sso_auth st1) = tokens (sso_auth st)"
    using scim_delete_state [OF assms(1)] by (simp_all add: update_row_def)
  have only: "filter (\<lambda>x. usr_tenant x = sc_tenant cfg \<and> usr_email x = id_email ident) (users (sso_auth st1)) = [?off u]"
    unfolding us by (subst filter_map_update) (simp_all add: assms(2))
  obtain r st2 where f: "finish_sso w cfg ident provider st1 st1 = (Inr r, st2)"
    and r: "resp_access r = create_access_token (se_auth w) ((?off u)\<lparr>usr_last_login := Some (utc (se_auth w))\<rparr>)"
    and us2: "users (sso_auth st2) =
       map (\<lambda>x. if usr_id x = usr_id (?off u) then x\<lparr>usr_last_login := Some (utc (se_auth w))\<rparr> else x) (users (sso_auth st1))"
    by (rule finish_existing [OF only assms(6,7)]) (use assms(8) ts in simp)
  have u: "u \<in> set (users (sso_auth st))" using arg_cong [OF assms(2), of set] by auto
  have "find_user i (sso_auth st2) \<noteq> None"
    using u assms(3) by (auto simp: find_user_def us2 us find_None_iff)
  moreover have "\<not> usr_active x" if "find_user i (sso_auth st2) = Some x" for x
    using that by (auto simp: find_user_def us2 us assms(3) find_Some_iff nth_map split: if_splits)
  ultimately have "get_current_active_user path (sso_auth st2) cu = Inl 403" if "cu_id cu = i" for cu
    using that by (auto simp: get_current_active_user_def)
  with f r assms(3,4,9,10) show ?thesis by (simp add: get_current_user_def create_access_token_def)
qed

section \<open>Users created by single sign-on\<close>

text \<open>What any request but a local one does to the users: rows keep who they are, new rows must change their password.\<close>

definition users_become :: "user_row list \<Rightarrow> user_row list \<Rightarrow> bool" where
  "users_become us us' \<longleftrightarrow>
     (\<exists>f new. us' = map f us @ new \<and> (\<forall>u \<in> set new. usr_must_change u) \<and>
        (\<forall>u. usr_id (f u) = usr_id u \<and> usr_hash (f u) = usr_hash u \<and> (usr_must_change u \<longrightarrow> usr_must_change (f u))))"

lemma become_refl [simp]: "users_become us us"
  unfolding users_become_def by (intro exI [of _ id] exI [of _ "[]"]) simp

lemma become_snoc [simp]: "usr_must_change u \<Longrightarrow> users_become us (us @ [u])"
  unfolding users_become_def by (intro exI [of _ id] exI [of _ "[u]"]) simp

lemma become_update:
  assumes "\<And>u. usr_id (f u) = usr_id u \<and> usr_hash (f u) = usr_hash u \<and> (usr_must_change u \<longrightarrow> usr_must_change (f u))"
  shows "users_become (users st) (users (update_row i f st))"
  unfolding users_become_def update_row_def
  using assms by (intro exI [of _ "\<lambda>u. if usr_id u = i then f u else u"] exI [of _ "[]"]) simp

lemma become_login [simp]: "users_become (users st) (users (update_row i (usr_last_login_update g) st))"
  by (rule become_update) simp

lemma jit_become:
  "jit_provision_or_link w cfg ident p st = Inr (u, new, st1) \<Longrightarrow> users_become (users (sso_auth st)) (users (sso_auth st1))"
  by (auto simp: jit_provision_or_link_def Let_def split: list.splits option.splits if_splits)

lemma finish_become:
  assumes "users (sso_auth st1) = users (sso_auth st)"
  shows "users_become (users (sso_auth st)) (users (sso_auth (snd (finish_sso w cfg ident p st st1))))"
  using finish_sso_cases [of w cfg ident p st st1] jit_become [of w cfg ident p st1] assms
  by (auto simp: create_token_pair_def Let_def split: if_splits)

lemma validate_saml_auth: "validate_saml_response w cfg response st = Inr (ident, st1) \<Longrightarrow> sso_auth st1 = sso_auth st"
  by (erule validate_saml_success) simp

lemma saml_become: "users_become (users (sso_auth st)) (users (sso_auth (snd (saml_acs w uu response tenant st))))"
proof -
  have "users_become (users (sso_auth st)) (users (sso_auth (snd (finish_sso w cfg ident p st st1))))"
    if "validate_saml_response w cfg resp st = Inr (ident, st1)" for cfg resp ident st1 p
    by (rule finish_become) (simp add: validate_saml_auth [OF that])
  then show ?thesis by (auto simp: saml_acs_def split: option.split sum.split)
qed

lemma oidc_become: "users_become (users (sso_auth st)) (users (sso_auth (snd (oidc_callback tc w g s e st))))"
proof -
  obtain c where "snd (oidc_callback tc w g s e st) = st\<lparr>oidc_states := c\<rparr> \<or>
     (\<exists>cfg ident. snd (oidc_callback tc w g s e st) =
        snd (finish_sso w cfg ident ''oidc'' (st\<lparr>oidc_states := c\<rparr>) (st\<lparr>oidc_states := c\<rparr>)))"
    using oidc_callback_cases [of tc w g s e st] by blast
  then show ?thesis
    using finish_become [of "st\<lparr>oidc_states := c\<rparr>" "st\<lparr>oidc_states := c\<rparr>" w _ _ "''oidc''"] by auto
qed

lemma write_become:
  "scim_get_user tenant i st = Some u \<Longrightarrow> users_become (users (sso_auth st)) (users (sso_auth (snd (write_draft w u d st))))"
  by (auto simp: write_draft_def Let_def split: option.split intro!: become_update)

lemma scim_become: "users_become (users (sso_auth st)) (users (sso_auth (snd (scim_request w header r st))))"
  by (auto simp: scim_request_def with_user_def scim_create_user_def scim_update_user_def scim_patch_user_def scim_delete_def
      write_become Let_def split: option.split scim_call.split intro!: become_update)

lemma sso_step_become:
  assumes "\<And>op. c \<noteq> Local op"
  shows "users_become (users (sso_auth st)) (users (sso_auth (sso_step tc uu slugs st c)))"
  using assms
  by (cases c) (auto simp: saml_become oidc_become oidc_login_keeps scim_become create_scim_token_def revoke_scim_token_def
      create_config_def update_config_def delete_config_def Let_def split: option.split)

text \<open>Every row of the user must change a password whose hash is \<open>h\<close>.\<close>

definition stuck :: "string \<Rightarrow> string \<Rightarrow> auth_state \<Rightarrow> bool" where
  "stuck i h st \<longleftrightarrow> (\<exists>u. find_user i st = Some u \<and> usr_hash u = h) \<and> (\<forall>u \<in> set (users st). usr_id u = i \<longrightarrow> usr_must_change u)"

lemma find_map_append:
  assumes "find P us = Some u" and "\<And>x. P (f x) = P x"
  shows "find P (map f us @ new) = Some (f u)"
  using assms(1) by (induction us) (auto simp: assms(2) split: if_splits)

lemma stuck_become:
  assumes "users_become (users st) (users st')" and "stuck i h st"
  shows "stuck i h st'"
proof -
  obtain f new where f: "users st' = map f (users st) @ new" "\<forall>u \<in> set new. usr_must_change u"
      "\<And>u. usr_id (f u) = usr_id u \<and> usr_hash (f u) = usr_hash u \<and> (usr_must_change u \<longrightarrow> usr_must_change (f u))"
    using assms(1) unfolding users_become_def by blast
  obtain u where "find (\<lambda>x. usr_id x = i) (users st) = Some u" "usr_hash u = h"
    using assms(2) by (auto simp: stuck_def find_user_def)
  then have "find_user i st' = Some (f u)" "usr_hash (f u) = h"
    unfolding find_user_def f(1) by (auto intro: find_map_append simp: f(3))
  with assms(2) f show ?thesis by (auto simp: stuck_def)
qed

text \<open>The local operations that do not know the password.\<close>

definition unknowing :: "string \<Rightarrow> string \<Rightarrow> sso_call \<Rightarrow> bool" where
  "unknowing i h c \<longleftrightarrow>
     (case c of Local op \<Rightarrow> (case op of ChangePassword w j current new \<Rightarrow> j = i \<longrightarrow> \<not> checkpw w current h | _ \<Rightarrow> True) | _ \<Rightarrow> True)"

lemma login_become: "users_become (users st) (users (snd (login w e pw st)))"
proof -
  let ?a = "authenticate_user w e pw st"
  have "users_become (users st) (users (snd ?a))"
  proof -
    obtain ok st1 where r: "check_email_rate_limit (monotonic w) (normalize_email e) st = (ok, st1)" by fastforce
    then have us: "users st = users st1" using rate_limit_tokens(2) by (metis snd_conv)
    have "users_become (users st1) (users (update_row i (failed_login w) st1))"
      "users_become (users st1) (users (update_row i (successful_login w) st1))" for i
      by (rule become_update; simp add: failed_login_def successful_login_def Let_def)+
    then show ?thesis by (auto simp: authenticate_user_def r us Let_def split: list.split)
  qed
  then show ?thesis
    by (auto simp: login_def create_token_pair_def Let_def split: prod.split sum.split auth_error.split option.split)
qed

lemma stuck_local:
  assumes "stuck i h st" and "unknowing i h (Local op)"
  shows "stuck i h (auth_step st op)"
proof (cases op)
  case (Login w e pw)
  with assms(1) stuck_become [OF login_become] show ?thesis by simp
next
  case (Refresh w raw)
  have "users (snd (refresh w raw st)) = users st"
    by (auto simp: refresh_def refresh_token_pair_def revoke_token_def revoke_all_refresh_tokens_def create_token_pair_def
        Let_def split: option.split)
  with assms(1) Refresh show ?thesis by (simp add: stuck_def find_user_def)
next
  case (Logout u)
  with assms(1) show ?thesis by (simp add: logout_def revoke_all_refresh_tokens_def stuck_def find_user_def)
next
  case (CreateUser w t e p r n)
  have "users_become (users st) (users (auth_step st op))"
    by (auto simp: CreateUser create_user_def Let_def)
  from stuck_become [OF this assms(1)] show ?thesis .
next
  case (UpdateUser t j r n a)
  have "users_become (users st) (users (auth_step st op))"
    by (auto simp: UpdateUser update_user_def change_attributes_def split: option.split intro!: become_update)
  from stuck_become [OF this assms(1)] show ?thesis .
next
  case (ChangePassword w j current new)
  show ?thesis
  proof (cases "j = i")
    case True
    obtain u where "find_user i st = Some u" "usr_hash u = h" using assms(1) by (auto simp: stuck_def)
    with assms ChangePassword True show ?thesis by (simp add: change_password_def unknowing_def)
  next
    case False
    let ?f = "\<lambda>u. if usr_id u = j then u\<lparr>usr_hash := hashpw w new, usr_must_change := False\<rparr> else u"
    show ?thesis
    proof (cases "users (auth_step st op) = users st")
      case True
      with assms(1) show ?thesis by (simp add: stuck_def find_user_def)
    next
      case changed: False
      then have us: "users (auth_step st op) = map ?f (users st) @ []"
        by (auto simp: ChangePassword change_password_def revoke_all_refresh_tokens_def update_row_def split: option.splits if_splits)
      obtain u where u: "find (\<lambda>x. usr_id x = i) (users st) = Some u" "usr_hash u = h"
        using assms(1) by (auto simp: stuck_def find_user_def)
      have "usr_id u = i" using u(1) by (auto simp: find_Some_iff)
      moreover have "find_user i (auth_step st op) = Some (?f u)"
        unfolding find_user_def us by (rule find_map_append [OF u(1)]) simp
      ultimately show ?thesis
        using assms(1) u(2) False by (auto simp: stuck_def us)
    qed
  qed
next
  case (Cleanup now age)
  with assms(1) show ?thesis by (simp add: cleanup_email_attempts_def Let_def stuck_def find_user_def)
qed

lemma find_new_row: "find P us = None \<Longrightarrow> P u \<Longrightarrow> find P (us @ [u]) = Some u"
  by (induction us) (auto split: if_splits)

lemma stuck_run:
  "stuck i h (sso_auth st) \<Longrightarrow> list_all (unknowing i h) calls \<Longrightarrow> stuck i h (sso_auth (foldl (sso_step tc uu slugs) st calls))"
proof (induction calls arbitrary: st)
  case (Cons c calls)
  have "stuck i h (sso_auth (sso_step tc uu slugs st c))"
  proof (cases "\<exists>op. c = Local op")
    case True
    then obtain op where "c = Local op" ..
    with Cons.prems stuck_local [of i h "sso_auth st" op] show ?thesis by simp
  next
    case False
    then show ?thesis using stuck_become [OF sso_step_become Cons.prems(1)] by blast
  qed
  with Cons show ?case by simp
qed simp

text \<open>
  A user created by single sign-on must change a password that was drawn at random and shown to nobody: unless
  somebody guesses it, no token of the user ever passes a route but three, whatever logins, refreshes, changes
  of the user or further single sign-ons come.
\<close>

theorem provisioned_user_locked_out:
  assumes "jit_provision_or_link w cfg ident provider st = Inr (u, True, st1)"
    and "find_user (usr_id u) (sso_auth st) = None" and "list_all (unknowing (usr_id u) (usr_hash u)) calls"
    and "\<not> exempt_path path"
    and "v \<in> set (users (sso_auth (foldl (sso_step tc uu slugs) st1 calls)))" and "usr_id v = usr_id u"
  shows "\<not> is_ok (get_current_user uu path (create_access_token w' v)) \<and>
    (\<forall>cu. cu_id cu = usr_id u \<longrightarrow> \<not> is_ok (get_current_active_user path (sso_auth (foldl (sso_step tc uu slugs) st1 calls)) cu))"
proof -
  have us: "users (sso_auth st1) = users (sso_auth st) @ [u]" "usr_must_change u"
    using assms(1) by (auto simp: jit_provision_or_link_def Let_def split: list.splits option.splits if_splits)
  have "find_user (usr_id u) (sso_auth st1) = Some u"
    using assms(2) by (simp add: find_user_def us(1) find_new_row)
  moreover have "\<forall>x \<in> set (users (sso_auth st)). usr_id x \<noteq> usr_id u"
    using assms(2) by (auto simp: find_user_def find_None_iff)
  ultimately have "stuck (usr_id u) (usr_hash u) (sso_auth st1)" using us by (auto simp: stuck_def)
  from stuck_run [OF this assms(3)] have s: "stuck (usr_id u) (usr_hash u) (sso_auth (foldl (sso_step tc uu slugs) st1 calls))" .
  then have "usr_must_change v" using assms(5,6) by (auto simp: stuck_def)
  moreover obtain x where x: "find_user (usr_id u) (sso_auth (foldl (sso_step tc uu slugs) st1 calls)) = Some x"
    using s by (auto simp: stuck_def)
  then have "usr_must_change x" using s by (auto simp: stuck_def find_user_def find_Some_iff)
  ultimately show ?thesis
    using x assms(4) by (simp add: get_current_user_def create_access_token_def get_current_active_user_def)
qed

section \<open>Provisioning stays in its tenant\<close>

text \<open>
  The users of another tenant are untouched, and a user keeps the role or is new and a viewer: what an
  operation of \<open>tenant\<close> may do to the users.
\<close>

definition own_change :: "string \<Rightarrow> user_row list \<Rightarrow> user_row list \<Rightarrow> bool" where
  "own_change tenant us us' \<longleftrightarrow>
     filter (\<lambda>x. usr_tenant x \<noteq> tenant) us' = filter (\<lambda>x. usr_tenant x \<noteq> tenant) us \<and>
     (\<forall>x \<in> set us'. usr_role x = ''viewer'' \<or> (\<exists>y \<in> set us. usr_id y = usr_id x \<and> usr_role y = usr_role x))"

lemma own_change_refl [simp]: "own_change tenant us us"
  by (auto simp: own_change_def)

lemma own_change_snoc [simp]: "usr_tenant u = tenant \<Longrightarrow> usr_role u = ''viewer'' \<Longrightarrow> own_change tenant us (us @ [u])"
  by (auto simp: own_change_def)

lemma own_change_update:
  assumes "scim_get_user tenant i st = Some u" and "distinct (map usr_id (users (sso_auth st)))"
    and "\<And>x. usr_id (f x) = usr_id x \<and> usr_tenant (f x) = usr_tenant x \<and> usr_role (f x) = usr_role x"
  shows "own_change tenant (users (sso_auth st)) (users (update_row (usr_id u) f (sso_auth st)))"
proof -
  let ?us = "users (sso_auth st)"
  let ?g = "\<lambda>x. if usr_id x = usr_id u then f x else x"
  have u: "u \<in> set ?us" "usr_tenant u = tenant" using assms(1) by (auto simp: scim_get_user_def find_Some_iff)
  have own: "?g x = x" if "x \<in> set ?us" "usr_tenant x \<noteq> tenant" for x
    using that u inj_onD [of usr_id "set ?us" x u] assms(2) by (auto simp: distinct_map)
  have "filter (\<lambda>x. usr_tenant x \<noteq> tenant) (map ?g ?us) = map ?g (filter (\<lambda>x. usr_tenant x \<noteq> tenant) ?us)"
    by (rule filter_map_update) (simp add: assms(3))
  also have "\<dots> = filter (\<lambda>x. usr_tenant x \<noteq> tenant) ?us" by (rule map_idI) (use own in auto)
  finally show ?thesis using assms(3) by (force simp: own_change_def update_row_def)
qed

lemma write_draft_own:
  "scim_get_user tenant i st = Some u \<Longrightarrow> distinct (map usr_id (users (sso_auth st))) \<Longrightarrow>
   own_change tenant (users (sso_auth st)) (users (sso_auth (snd (write_draft w u d st))))"
  by (auto simp: write_draft_def Let_def split: option.split intro!: own_change_update)

text \<open>
  A provisioning request changes users of the tenant of its token only, and gives nobody a role but that of
  a viewer to those it creates; a request without a valid token changes nothing.
\<close>

theorem scim_own_tenant:
  assumes "distinct (map usr_id (users (sso_auth st)))"
  shows "(case get_scim_tenant w header st of
            None \<Rightarrow> scim_request w header r st = (Inl 401, st)
          | Some tenant \<Rightarrow> own_change tenant (users (sso_auth st)) (users (sso_auth (snd (scim_request w header r st)))))"
proof (cases "get_scim_tenant w header st")
  case None
  then show ?thesis by (simp add: scim_request_def)
next
  case (Some tenant)
  have "own_change tenant (users (sso_auth st)) (users (sso_auth (snd (scim_request w header r st))))"
  proof (cases r)
    case (Scim_Create b)
    then show ?thesis by (simp add: scim_request_def Some scim_create_user_def Let_def)
  next
    case (Scim_Replace i b)
    then show ?thesis
      using assms by (auto simp: scim_request_def Some with_user_def scim_update_user_def write_draft_own split: option.split)
  next
    case (Scim_Patch i ops)
    then show ?thesis
      using assms by (auto simp: scim_request_def Some with_user_def scim_patch_user_def write_draft_own split: option.split)
  next
    case (Scim_Delete i)
    then show ?thesis
      using assms by (auto simp: scim_request_def Some with_user_def scim_delete_def split: option.split intro!: own_change_update)
  qed
  with Some show ?thesis by simp
qed

text \<open>
  But the login looks an address up in all tenants: a tenant that provisions a user with the address of a
  user of another tenant shuts that user out.
\<close>

lemma provisioned_address_blocks_login:
  assumes "u \<in> set (users (sso_auth st))" and "usr_active u" and "usr_email u = normalize_email e"
    and "scim_create_user w tenant b st = (Inr v, st1)" and "sb_active b" and "clean_email (sb_user_name b) = usr_email u"
  shows "fst (login w' e pw (sso_auth st1)) = Inl 429 \<or> fst (login w' e pw (sso_auth st1)) = Inl 500"
proof -
  let ?P = "\<lambda>x. usr_email x = normalize_email e \<and> usr_active x"
  have v: "users (sso_auth st1) = users (sso_auth st) @ [v]" "?P v"
    using assms(3-6) by (auto simp: scim_create_user_def Let_def split: if_splits)
  have "u \<in> set (filter ?P (users (sso_auth st)))" using assms(1-3) by simp
  then obtain x xs where "filter ?P (users (sso_auth st)) = x # xs" by (cases "filter ?P (users (sso_auth st))") auto
  with v have many: "filter ?P (users (sso_auth st1)) = x # xs @ [v]" by simp
  obtain ok st2 where rl: "check_email_rate_limit (monotonic w') (normalize_email e) (sso_auth st1) = (ok, st2)" by fastforce
  have "users st2 = users (sso_auth st1)" using rate_limit_tokens(2) [of "monotonic w'" "normalize_email e" "sso_auth st1"] rl by simp
  with many rl show ?thesis by (cases xs) (auto simp: login_def authenticate_user_def Let_def)
qed

text \<open>A patch that names the state of a user as text, as one provider sends it, is an error.\<close>

lemma textual_active_fails:
  "scim_patch_user w u [\<lparr>po_op = ''replace'', po_path = Some ''active'', po_value = VStr s\<rparr>] st = (Inl 500, st)"
proof -
  have "py_lower ''replace'' = ''replace''" by code_simp
  then show ?thesis by (simp add: scim_patch_user_def apply_op_def nonempty_def shown_def)
qed

section \<open>Examples\<close>

definition demo_old :: xml where
  "demo_old = bare_assertion ''old'' ''c@d''"

definition demo_response :: xml where
  "demo_response = Elem ''samlp:Response'' [] None [bare_assertion ''new'' ''a@b'', demo_old]"

text \<open>Texts and documents: what the identity provider sent to a user, and what that user made of it. The verifier
  accepts a text in which it finds the element that the holder of the certificate signed.\<close>

definition demo_texts :: "(string, xml) dict" where
  "demo_texts = [(''original'', Elem ''samlp:Response'' [] None [demo_old]), (''response'', demo_response)]"

definition demo_verify :: "string \<Rightarrow> string \<Rightarrow> xml option" where
  "demo_verify x cert =
     (if cert = ''cert'' then (case dict_get demo_texts x of None \<Rightarrow> None | Some d \<Rightarrow> find (\<lambda>e. e = demo_old) (descendants d)) else None)"

definition demo_sso_env :: "string \<Rightarrow> sso_env" where
  "demo_sso_env raw =
     \<lparr>se_auth = (demo_auth raw)\<lparr>new_user_id := ''n''\<rparr>, b64_utf8 = Some, parse_xml = dict_get demo_texts,
      verify_xml = demo_verify, parse_time = (\<lambda>_. No_Time), encrypt = id, token_endpoint = (\<lambda>_ _ _. None),
      id_claims = (\<lambda>_ _. None), db_text = (\<lambda>v. case v of VNone \<Rightarrow> Some None | VStr s \<Rightarrow> Some (Some s) | _ \<Rightarrow> None),
      db_bool = (\<lambda>v. case v of VBool b \<Rightarrow> Some b | _ \<Rightarrow> None), text_of = py_str (\<lambda>_. []), random_password = ''random'',
      random_state = ''state'', random_nonce = ''nonce'', random_verifier = ''verifier'', frontend_ok = True\<rparr>"

definition demo_sso_config :: sso_config where
  "demo_sso_config =
     \<lparr>sc_id = ''c'', sc_tenant = ''t'', sc_type = ''saml'', sc_name = [], sc_enabled = True, sc_idp_entity = None,
      sc_idp_sso_url = None, sc_certificate = Some ''cert'', sc_sp_entity = None, sc_acs_url = None, sc_issuer = None,
      sc_client = None, sc_secret = None, sc_scopes = [], sc_mapping = [], sc_default_role = ''viewer'', sc_jit = True\<rparr>"

definition demo_sso_state :: "unit sso_state" where
  "demo_sso_state =
     \<lparr>sso_auth = demo_auth_state, sso_columns = [], sso_configs = [demo_sso_config], assertion_ids = [],
      scim_tokens = [\<lparr>sm_id = ''s'', sm_tenant = ''t'', sm_hash = ''raw'', sm_active = True, sm_expires = None\<rparr>], oidc_states = ()\<rparr>"

lemma demo_clean: "clean_email ''a@b'' = ''a@b''" "clean_email ''c@d'' = ''c@d''"
  by code_simp+

lemma demo_saml_config: "get_sso_config demo_sso_state ''t'' ''saml'' = Some (Some demo_sso_config)"
  by (simp add: get_sso_config_def demo_sso_state_def demo_sso_config_def)

lemmas demo_sso_defs = demo_texts_def demo_verify_def demo_sso_config_def demo_sso_env_def demo_sso_state_def demo_response_def demo_auth_state_def demo_user_def
  demo_old_def demo_clean find_below_def bare_assertion_def nonempty_def

lemma demo_saml_login:
  "\<exists>r st'. saml_acs (demo_sso_env ''2'') (\<lambda>_. True) (Some ''response'') (Some ''t'') demo_sso_state = (Inr r, st') \<and>
    claim_sub (resp_access r) = usr_id demo_user \<and> claim_tenant (resp_access r) = usr_tenant demo_user \<and>
    claim_role (resp_access r) = usr_role demo_user"
  by (rule bare_login [OF demo_saml_config, of _ "''response''" "''response''" "''new''" "''a@b''" demo_old]) (simp_all add: demo_sso_defs)

text \<open>The verifier vouches for the assertion of \<open>c@d\<close>, and the login is that of \<open>a@b\<close>.\<close>

lemma signature_wrapping_witness:
  "\<exists>r st'. saml_acs (demo_sso_env ''2'') (\<lambda>_. True) (Some ''response'') (Some ''t'') demo_sso_state = (Inr r, st') \<and>
    verify_xml (demo_sso_env ''2'') ''response'' ''cert'' = Some (bare_assertion ''old'' ''c@d'') \<and>
    claim_sub (resp_access r) = usr_id demo_user \<and> usr_email demo_user = ''a@b'' \<and>
    saml_acs (vouching ''response'' ''cert'' (bare_assertion ''x'' ''e@f'') (demo_sso_env ''2'')) (\<lambda>_. True) (Some ''response'') (Some ''t'')
      demo_sso_state = (Inr r, st')"
proof -
  obtain r st' where login: "saml_acs (demo_sso_env ''2'') (\<lambda>_. True) (Some ''response'') (Some ''t'') demo_sso_state = (Inr r, st')"
    and sub: "claim_sub (resp_access r) = usr_id demo_user"
    using demo_saml_login by blast
  have "verify_xml (demo_sso_env ''2'') ''response'' ''cert'' = Some (bare_assertion ''old'' ''c@d'')"
    by (simp add: demo_sso_defs)
  moreover have "saml_acs (vouching ''response'' ''cert'' (bare_assertion ''x'' ''e@f'') (demo_sso_env ''2'')) (\<lambda>_. True) (Some ''response'')
      (Some ''t'') demo_sso_state = (Inr r, st')"
    using signature_wrapping [OF login] demo_saml_config by (simp add: demo_sso_env_def demo_sso_config_def) metis
  ultimately show ?thesis using login sub by (auto simp: demo_user_def)
qed

definition demo_cache :: "unit ttl_cache" where
  "demo_cache = \<lparr>cache_put = \<lambda>_ _ _ c. c, cache_pop = \<lambda>_ _ c. (None, c)\<rparr>"

lemma assertion_used_once_witness:
  "\<exists>r st1. saml_acs (demo_sso_env ''2'') (\<lambda>_. True) (Some ''response'') (Some ''t'') demo_sso_state = (Inr r, st1) \<and>
    (\<nexists>r'. fst (saml_acs (demo_sso_env ''3'') (\<lambda>_. True) (Some ''response'') (Some ''t'')
      (foldl (sso_step demo_cache (\<lambda>_. True) (\<lambda>_. None)) st1 [Local (Logout ''u'')])) = Inr r')"
proof -
  obtain r st1 where login: "saml_acs (demo_sso_env ''2'') (\<lambda>_. True) (Some ''response'') (Some ''t'') demo_sso_state = (Inr r, st1)"
    using demo_saml_login by blast
  have "presented_assertion (demo_sso_env ''3'') (Some ''response'') = presented_assertion (demo_sso_env ''2'') (Some ''response'')"
    by (simp add: presented_assertion_def demo_sso_env_def)
  from login assertion_used_once [OF login this] show ?thesis by blast
qed

definition demo_identity :: "string \<Rightarrow> identity" where
  "demo_identity e = \<lparr>id_email = e, id_name = VNone, id_groups = VList [], id_subject = VStr e\<rparr>"

lemma deprovisioned_user_returns_witness:
  "\<exists>v st1 r st2 cu. scim_request (demo_sso_env ''1'') (Some ''Bearer raw'') (Scim_Delete ''u'') demo_sso_state = (Inr v, st1) \<and>
    finish_sso (demo_sso_env ''2'') demo_sso_config (demo_identity ''a@b'') ''saml'' st1 st1 = (Inr r, st2) \<and>
    get_current_user (\<lambda>_. True) ''/api/v1/rules'' (resp_access r) = Inr cu \<and> cu_id cu = ''u'' \<and> cu_role cu = usr_role demo_user \<and>
    get_current_active_user ''/api/v1/rules'' (sso_auth st2) cu = Inl 403"
proof -
  have "validate_scim_token (demo_sso_env ''1'') ''raw'' demo_sso_state = Some ''t''"
    by (simp add: validate_scim_token_def demo_sso_state_def demo_sso_env_def demo_auth_def)
  then obtain v st1 where del: "scim_request (demo_sso_env ''1'') (Some ''Bearer raw'') (Scim_Delete ''u'') demo_sso_state = (Inr v, st1)"
    by (simp add: scim_request_def get_scim_tenant_def nonempty_def with_user_def scim_get_user_def scim_delete_def
        demo_sso_state_def demo_auth_state_def demo_user_def)
  have "\<exists>r st2 cu. finish_sso (demo_sso_env ''2'') demo_sso_config (demo_identity ''a@b'') ''saml'' st1 st1 = (Inr r, st2) \<and>
    get_current_user (\<lambda>_. True) ''/api/v1/rules'' (resp_access r) = Inr cu \<and> cu_id cu = ''u'' \<and> cu_role cu = usr_role demo_user \<and>
    get_current_active_user ''/api/v1/rules'' (sso_auth st2) cu = Inl 403"
    by (rule deprovisioned_user_returns [OF del, where u = demo_user])
      (simp_all add: demo_sso_defs demo_identity_def)
  with del show ?thesis by blast
qed

lemma provisioned_user_locked_out_witness:
  "\<exists>u st1. jit_provision_or_link (demo_sso_env ''2'') demo_sso_config (demo_identity ''c@d'') ''saml'' demo_sso_state = Inr (u, True, st1) \<and>
    \<not> is_ok (get_current_user (\<lambda>_. True) ''/api/v1/rules'' (create_access_token (demo_auth ''3'') u))"
proof -
  obtain u st1 where j: "jit_provision_or_link (demo_sso_env ''2'') demo_sso_config (demo_identity ''c@d'') ''saml'' demo_sso_state
      = Inr (u, True, st1)" and u: "usr_id u = ''n''" "usr_hash u = ''random''" "u \<in> set (users (sso_auth st1))"
    by (simp add: jit_provision_or_link_def demo_sso_defs demo_identity_def group_list_def dict_get_or_def demo_auth_def Let_def)
  have "find_user (usr_id u) (sso_auth demo_sso_state) = None" by (simp add: find_user_def u demo_sso_defs)
  moreover have "list_all (unknowing (usr_id u) (usr_hash u)) []" by simp
  moreover have "\<not> exempt_path ''/api/v1/rules''" by (simp add: exempt_path_def)
  moreover have "u \<in> set (users (sso_auth (foldl (sso_step demo_cache (\<lambda>_. True) (\<lambda>_. None)) st1 [])))" using u by simp
  ultimately show ?thesis using provisioned_user_locked_out [OF j] j by blast
qed

lemma scim_own_tenant_witness:
  "own_change ''t'' (users (sso_auth demo_sso_state))
     (users (sso_auth (snd (scim_request (demo_sso_env ''1'') (Some ''Bearer raw'') (Scim_Delete ''u'') demo_sso_state))))"
proof -
  have "get_scim_tenant (demo_sso_env ''1'') (Some ''Bearer raw'') demo_sso_state = Some ''t''"
    by (simp add: get_scim_tenant_def nonempty_def validate_scim_token_def demo_sso_state_def demo_sso_env_def demo_auth_def)
  with scim_own_tenant [of demo_sso_state "demo_sso_env ''1''" "Some ''Bearer raw''" "Scim_Delete ''u''"] show ?thesis
    by (simp add: demo_sso_state_def demo_auth_state_def)
qed

end
