(* ===== verification/Fanout.thy ===== *)
theory Fanout
  imports Py_Values Interfaces
begin

text \<open>
  How alerts leave the platform: the CEF messages of \<open>backend/app/integrations/formatter.py\<close> and \<open>syslog_cef.py\<close>,
  the routing rules of \<open>notifications/router.py\<close>, and the two consumers of the alert topics,
  \<open>consumers/notification_consumer.py\<close> and \<open>siem_consumer.py\<close>. Parsers, the database's answers, the services
  behind a channel and the clock are parameters; so are \<open>str\<close> of a value and \<open>str.title\<close>.
\<close>

type_synonym alert_doc = "(string, pval) dict"

section \<open>Messages of the common event format\<close>

definition CEF_SEVERITY :: "(string, string) dict" where
  "CEF_SEVERITY = [(''critical'', ''10''), (''high'', ''8''), (''medium'', ''5''), (''low'', ''3''), (''info'', ''1'')]"

definition sanitize_cef_header :: "string \<Rightarrow> string" where
  "sanitize_cef_header s = take 63 (filter (\<lambda>c. c \<noteq> CHR ''|'' \<and> c \<noteq> CHR 0x5C) s)"

definition ext_unsafe :: "char \<Rightarrow> bool" where
  "ext_unsafe c \<longleftrightarrow> c = CHR ''='' \<or> c = CHR 0x5C \<or> c = CHR 0x0A \<or> c = CHR 0x0D"

definition sanitize_cef_ext :: "string \<Rightarrow> string" where
  "sanitize_cef_ext s = take 1024 (map (\<lambda>c. if ext_unsafe c then CHR ''_'' else c) s)"

definition first_of :: "alert_doc \<Rightarrow> string \<Rightarrow> string \<Rightarrow> pval \<Rightarrow> pval" where
  "first_of e k k' v = dict_get_or e k (dict_get_or e k' v)"

text \<open>A field of the extension, if the event has a value for it.\<close>

definition ext_field :: "string \<Rightarrow> (pval \<Rightarrow> string option) \<Rightarrow> pval \<Rightarrow> string list option" where
  "ext_field label text_of v =
     (if truthy v then map_option (\<lambda>s. [label @ sanitize_cef_ext s]) (text_of v) else Some [])"

fun join_space :: "string list \<Rightarrow> string" where
  "join_space [] = []"
| "join_space [x] = x"
| "join_space (x # y # xs) = x @ '' '' @ join_space (y # xs)"

fun concat_some :: "'a list option list \<Rightarrow> 'a list option" where
  "concat_some [] = Some []"
| "concat_some (x # xs) = (case (x, concat_some xs) of (Some a, Some b) \<Rightarrow> Some (a @ b) | _ \<Rightarrow> None)"

text \<open>\<open>str\<close> is the parameter of the first argument; the destination must be a text already.\<close>

definition cef_fields :: "(pval \<Rightarrow> string) \<Rightarrow> alert_doc \<Rightarrow> string list option" where
  "cef_fields str e =
     concat_some
       [ext_field ''cs1Label=agent_id cs1='' (\<lambda>v. Some (str v)) (dict_get_or e ''agent_id'' VNone),
        ext_field ''cs2Label=tenant_id cs2='' (\<lambda>v. Some (str v)) (dict_get_or e ''tenant_id'' VNone),
        ext_field ''dst='' (\<lambda>v. case v of VStr s \<Rightarrow> Some s | _ \<Rightarrow> None) (dict_get_or e ''dest_ip'' VNone),
        ext_field ''dpt='' (\<lambda>v. Some (str v)) (dict_get_or e ''dest_port'' VNone),
        ext_field ''msg='' (\<lambda>v. Some (take 1024 (str v))) (first_of e ''message'' ''description'' (VStr [])),
        ext_field ''cs3Label=attack_class cs3='' (\<lambda>v. Some (str v)) (dict_get_or e ''attack_class'' VNone)]"

definition cef_severity :: "pval \<Rightarrow> string option" where
  "cef_severity v =
     (case v of
        VStr s \<Rightarrow> Some (dict_get_or CEF_SEVERITY s ''1'')
      | VList _ \<Rightarrow> None
      | VDict _ \<Rightarrow> None
      | _ \<Rightarrow> Some ''1'')"

definition cef_prefix :: string where
  "cef_prefix = ''CEF:0|Phantex|Phantex|1.0|''"

definition to_cef :: "(pval \<Rightarrow> string) \<Rightarrow> (string \<Rightarrow> string) \<Rightarrow> alert_doc \<Rightarrow> string option" where
  "to_cef str title e =
     (case (cef_severity (dict_get_or e ''severity'' (VStr ''info'')), cef_fields str e,
            first_of e ''rule_name'' ''event_type'' (VStr ''unknown'')) of
        (Some sev, Some fields, VStr rule) \<Rightarrow>
          Some (cef_prefix @ sanitize_cef_header rule @ ''|'' @
            sanitize_cef_header (title (map (\<lambda>c. if c = CHR ''_'' then CHR '' '' else c) rule)) @ ''|'' @ sev @ ''|'' @
            join_space fields)
      | _ \<Rightarrow> None)"

section \<open>Routing rules\<close>

definition lower_text :: "(pval \<Rightarrow> string) \<Rightarrow> pval \<Rightarrow> string" where
  "lower_text str v = py_lower (str v)"

text \<open>\<open>None\<close> is an exception: a condition that is no dictionary.\<close>

definition condition_holds :: "(pval \<Rightarrow> string) \<Rightarrow> alert_doc \<Rightarrow> string \<times> pval \<Rightarrow> bool" where
  "condition_holds str a kv =
     (let actual = (case dict_get_or a (fst kv) (VStr []) of VNone \<Rightarrow> VStr [] | v \<Rightarrow> v)
      in case snd kv of
           VList xs \<Rightarrow> lower_text str actual \<in> set (map (lower_text str) xs)
         | v \<Rightarrow> lower_text str actual = lower_text str v)"

definition matches_condition :: "(pval \<Rightarrow> string) \<Rightarrow> alert_doc \<Rightarrow> pval \<Rightarrow> bool option" where
  "matches_condition str a cond =
     (if \<not> truthy cond then Some True
      else case cond of VDict d \<Rightarrow> Some (list_all (condition_holds str a) d) | _ \<Rightarrow> None)"

text \<open>The routes store rules whose channels are a list.\<close>

type_synonym routing_rule = alert_doc

definition rule_channels :: "routing_rule \<Rightarrow> pval list" where
  "rule_channels r = (case dict_get_or r ''channels'' (VList []) of VList cs \<Rightarrow> cs | _ \<Rightarrow> [])"

fun matched_channels :: "(pval \<Rightarrow> string) \<Rightarrow> alert_doc \<Rightarrow> routing_rule list \<Rightarrow> pval list option" where
  "matched_channels str a [] = Some []"
| "matched_channels str a (r # rs) =
     (if rule_channels r = [] then matched_channels str a rs
      else case matches_condition str a (dict_get_or r ''condition'' (VDict [])) of
             None \<Rightarrow> None
           | Some b \<Rightarrow> map_option (\<lambda>cs. (if b then rule_channels r else []) @ cs) (matched_channels str a rs))"

definition is_key :: "pval \<Rightarrow> bool" where
  "is_key v \<longleftrightarrow> (case v of VList _ \<Rightarrow> False | VDict _ \<Rightarrow> False | _ \<Rightarrow> True)"

definition add_unseen :: "pval list \<Rightarrow> pval \<Rightarrow> pval list" where
  "add_unseen seen c = (if py_in_list c seen then seen else seen @ [c])"

definition match_routing_rules :: "(pval \<Rightarrow> string) \<Rightarrow> alert_doc \<Rightarrow> routing_rule list \<Rightarrow> pval list option" where
  "match_routing_rules str a rules =
     (case matched_channels str a rules of
        None \<Rightarrow> None
      | Some cs \<Rightarrow> if list_all is_key cs then Some (foldl add_unseen [] cs) else None)"

section \<open>The window of a channel\<close>

text \<open>\<open>BaseNotificationChannel\<close> and \<open>BaseSIEMIntegration\<close> count in windows of a minute; a notification counts one.\<close>

record rate_window =
  rw_limit :: int
  rw_start :: rat
  rw_count :: int

definition new_window :: "int \<Rightarrow> int option \<Rightarrow> rat \<Rightarrow> rate_window" where
  "new_window dflt limit now =
     \<lparr>rw_limit = (case limit of None \<Rightarrow> dflt | Some l \<Rightarrow> if l = 0 then dflt else l), rw_start = now, rw_count = 0\<rparr>"

definition window_at :: "rat \<Rightarrow> rate_window \<Rightarrow> rate_window" where
  "window_at now rw = (if 60 \<le> now - rw_start rw then rw\<lparr>rw_start := now, rw_count := 0\<rparr> else rw)"

text \<open>\<open>None\<close> is the error of a reached limit, which is not retried.\<close>

definition notification_check :: "rat \<Rightarrow> rate_window \<Rightarrow> rate_window option" where
  "notification_check now rw0 =
     (let rw = window_at now rw0
      in if rw_limit rw \<le> rw_count rw then None else Some (rw\<lparr>rw_count := rw_count rw + 1\<rparr>))"

definition siem_check :: "rat \<Rightarrow> int \<Rightarrow> rate_window \<Rightarrow> rate_window option" where
  "siem_check now n rw0 =
     (let rw = window_at now rw0
      in if rw_limit rw < rw_count rw + n then None else Some (rw\<lparr>rw_count := rw_count rw + n\<rparr>))"

section \<open>Notifications\<close>

record channel_row =
  cr_id :: string
  cr_type :: string
  cr_rate :: "int option"

datatype send_result = Sent | Failed bool | Raised

text \<open>
  What the consumer meets at an alert: the clock of the caches, the answers of the database (\<open>None\<close> is an
  exception), whether a channel can be made, and for each attempt its clock and what the service answers.
\<close>

record notifier_env =
  ne_now :: rat
  ne_rules :: "string \<Rightarrow> routing_rule list option option"
  ne_channels :: "string \<Rightarrow> (string, channel_row) dict option"
  ne_makes :: "channel_row \<Rightarrow> bool"
  ne_clock :: "nat \<Rightarrow> rat"
  ne_post :: "channel_row \<Rightarrow> nat \<Rightarrow> alert_doc \<Rightarrow> send_result"

record notifier =
  nt_retries :: nat
  nt_rules :: "(string, rat \<times> routing_rule list) dict"
  nt_channels :: "(string, rat \<times> (string, channel_row) dict) dict"
  nt_consumed :: nat
  nt_sent :: nat
  nt_errors :: nat
  nt_log :: "(string \<times> string \<times> alert_doc) list"

definition CACHE_TTL :: rat where
  "CACHE_TTL = 60"

definition cached :: "rat \<Rightarrow> string \<Rightarrow> (string, rat \<times> 'a) dict \<Rightarrow> 'a option" where
  "cached now tenant d =
     (case dict_get d tenant of None \<Rightarrow> None | Some (ts, x) \<Rightarrow> if now - ts < CACHE_TTL then Some x else None)"

definition stale :: "string \<Rightarrow> (string, rat \<times> 'a) dict \<Rightarrow> 'a \<Rightarrow> 'a" where
  "stale tenant d x = (case dict_get d tenant of None \<Rightarrow> x | Some (_, y) \<Rightarrow> y)"

definition get_rules :: "notifier_env \<Rightarrow> string \<Rightarrow> notifier \<Rightarrow> routing_rule list \<times> notifier" where
  "get_rules w tenant n =
     (case cached (ne_now w) tenant (nt_rules n) of
        Some rs \<Rightarrow> (rs, n)
      | None \<Rightarrow>
          (case ne_rules w tenant of
             None \<Rightarrow> (stale tenant (nt_rules n) [], n)
           | Some None \<Rightarrow> ([], n)
           | Some (Some rs) \<Rightarrow> (rs, n\<lparr>nt_rules := dict_set tenant (ne_now w, rs) (nt_rules n)\<rparr>)))"

definition get_channels :: "notifier_env \<Rightarrow> string \<Rightarrow> notifier \<Rightarrow> (string, channel_row) dict \<times> notifier" where
  "get_channels w tenant n =
     (case cached (ne_now w) tenant (nt_channels n) of
        Some cs \<Rightarrow> (cs, n)
      | None \<Rightarrow>
          (case ne_channels w tenant of
             None \<Rightarrow> (stale tenant (nt_channels n) [], n)
           | Some cs \<Rightarrow> (cs, n\<lparr>nt_channels := dict_set tenant (ne_now w, cs) (nt_channels n)\<rparr>)))"

text \<open>The attempts \<open>k, k + 1, ...\<close>, \<open>left\<close> of them, on one window: whether the alert was sent.\<close>

fun send_attempts :: "(nat \<Rightarrow> rat) \<Rightarrow> (nat \<Rightarrow> send_result) \<Rightarrow> nat \<Rightarrow> nat \<Rightarrow> rate_window \<Rightarrow> bool" where
  "send_attempts clock post k 0 rw = False"
| "send_attempts clock post k (Suc left) rw =
     (case notification_check (clock k) rw of
        None \<Rightarrow> False
      | Some rw' \<Rightarrow>
          (case post k of
             Sent \<Rightarrow> True
           | Failed retryable \<Rightarrow> retryable \<and> send_attempts clock post (Suc k) left rw'
           | Raised \<Rightarrow> False))"

text \<open>Each notification makes its own channel. With no attempt allowed nothing is sent and nothing counted.\<close>

definition send_notification :: "notifier_env \<Rightarrow> string \<Rightarrow> channel_row \<Rightarrow> alert_doc \<Rightarrow> notifier \<Rightarrow> notifier" where
  "send_notification w tenant ch a n =
     (if \<not> ne_makes w ch then n\<lparr>nt_errors := nt_errors n + 1\<rparr>
      else if nt_retries n = 0 then n
      else if send_attempts (ne_clock w) (\<lambda>k. ne_post w ch k a) 1 (nt_retries n) (new_window 60 (cr_rate ch) (ne_clock w 0))
           then n\<lparr>nt_sent := nt_sent n + 1, nt_log := nt_log n @ [(tenant, cr_id ch, a)]\<rparr>
           else n\<lparr>nt_errors := nt_errors n + 1\<rparr>)"

definition find_channel :: "(string, channel_row) dict \<Rightarrow> pval \<Rightarrow> channel_row option" where
  "find_channel chs v = (case v of VStr i \<Rightarrow> dict_get chs i | _ \<Rightarrow> None)"

text \<open>\<open>None\<close> is an exception, after the rules were read.\<close>

definition route_alert :: "notifier_env \<Rightarrow> (pval \<Rightarrow> string) \<Rightarrow> string \<Rightarrow> alert_doc \<Rightarrow> notifier \<Rightarrow> bool \<times> notifier" where
  "route_alert w str tenant a n =
     (case get_rules w tenant n of
        (rules, n1) \<Rightarrow>
          if rules = [] then (True, n1)
          else case match_routing_rules str a rules of
                 None \<Rightarrow> (False, n1)
               | Some [] \<Rightarrow> (True, n1)
               | Some ids \<Rightarrow>
                   (case get_channels w tenant n1 of
                      (chs, n2) \<Rightarrow>
                        (True, foldl (\<lambda>m i. case find_channel chs i of None \<Rightarrow> m | Some ch \<Rightarrow> send_notification w tenant ch a m) n2 ids)))"

definition alert_tenant :: "string \<Rightarrow> string option" where
  "alert_tenant t =
     (if starts_with ''phantex.alerts.'' t
      then let r = strip_final_newline (drop (length ''phantex.alerts.'') t)
           in if r \<noteq> [] \<and> char_of (10 :: nat) \<notin> set r then Some r else None
      else None)"

record alert_message =
  am_topic :: string
  am_value :: "string option"

text \<open>An alert of a topic: left out, an exception that ends the loop, or the alert with its tenant.\<close>

datatype alert_result = Left_Out | Loop_Ends | Alert string alert_doc

definition read_alert :: "(string \<Rightarrow> pval option) \<Rightarrow> alert_message \<Rightarrow> alert_result" where
  "read_alert json_loads m =
     (case am_value m of
        None \<Rightarrow> Loop_Ends
      | Some raw \<Rightarrow>
          (case json_loads raw of
             None \<Rightarrow> Left_Out
           | Some v \<Rightarrow>
               (case (alert_tenant (am_topic m), v) of
                  (Some t, VDict d) \<Rightarrow> Alert t d
                | (None, VDict d) \<Rightarrow>
                    (case dict_get_or d ''tenant_id'' (VStr []) of
                       VStr t \<Rightarrow> if t = [] then Left_Out else Alert t d
                     | x \<Rightarrow> if truthy x then Loop_Ends else Left_Out)
                | _ \<Rightarrow> Loop_Ends)))"

text \<open>One message: whether the offset is committed after it, and the consumer.\<close>

definition consume_alert :: "notifier_env \<Rightarrow> (string \<Rightarrow> pval option) \<Rightarrow> (pval \<Rightarrow> string) \<Rightarrow> alert_message \<Rightarrow> notifier \<Rightarrow>
    bool \<times> notifier" where
  "consume_alert w json_loads str m n =
     (let n1 = n\<lparr>nt_consumed := nt_consumed n + 1\<rparr>
      in case read_alert json_loads m of
           Alert t d \<Rightarrow> route_alert w str t (dict_set ''tenant_id'' (VStr t) d) n1
         | _ \<Rightarrow> (False, n1))"

section \<open>SIEM integrations\<close>

record siem_row =
  sr_platform :: string
  sr_rate :: "int option"

text \<open>\<open>si_send r k as\<close>: how many alerts the k-th attempt gets through, and whether it fails then, and how.\<close>

record siem_env =
  si_now :: rat
  si_rows :: "string \<Rightarrow> siem_row list option"
  si_makes :: "siem_row \<Rightarrow> bool"
  si_clock :: "nat \<Rightarrow> rat"
  si_send :: "siem_row \<Rightarrow> nat \<Rightarrow> pval list \<Rightarrow> nat \<times> send_result"

record siem =
  sx_retries :: nat
  sx_batch :: nat
  sx_interval :: rat
  sx_cache :: "(string, rat \<times> siem_row list) dict"
  sx_buffer :: "(string, pval list) dict"
  sx_last_flush :: rat
  sx_consumed :: nat
  sx_delivered :: nat
  sx_errors :: nat
  sx_log :: "(string \<times> string \<times> pval) list"

definition get_integrations :: "siem_env \<Rightarrow> string \<Rightarrow> siem \<Rightarrow> siem_row list \<times> siem" where
  "get_integrations w tenant n =
     (case cached (si_now w) tenant (sx_cache n) of
        Some rs \<Rightarrow> (rs, n)
      | None \<Rightarrow>
          (case si_rows w tenant of
             None \<Rightarrow> (stale tenant (sx_cache n) [], n)
           | Some rs \<Rightarrow> (rs, n\<lparr>sx_cache := dict_set tenant (si_now w, rs) (sx_cache n)\<rparr>)))"

text \<open>The attempts on one window: what got through in each of them, and whether one of them succeeded.\<close>

fun siem_attempts :: "(nat \<Rightarrow> rat) \<Rightarrow> (nat \<Rightarrow> nat \<times> send_result) \<Rightarrow> pval list \<Rightarrow> nat \<Rightarrow> nat \<Rightarrow> rate_window \<Rightarrow> pval list \<times> bool" where
  "siem_attempts clock send as k 0 rw = ([], False)"
| "siem_attempts clock send as k (Suc left) rw =
     (case siem_check (clock k) (int (length as)) rw of
        None \<Rightarrow> ([], False)
      | Some rw' \<Rightarrow>
          (case send k of
             (_, Sent) \<Rightarrow> (as, True)
           | (i, Failed retryable) \<Rightarrow>
               (if retryable then (case siem_attempts clock send as (Suc k) left rw' of (rest, ok) \<Rightarrow> (take i as @ rest, ok))
                else (take i as, False))
           | (i, Raised) \<Rightarrow> (take i as, False)))"

definition send_to_integration :: "siem_env \<Rightarrow> string \<Rightarrow> pval list \<Rightarrow> siem \<Rightarrow> siem_row \<Rightarrow> siem" where
  "send_to_integration w tenant as n r =
     (if \<not> si_makes w r then n\<lparr>sx_errors := sx_errors n + length as\<rparr>
      else if sx_retries n = 0 then n
      else case siem_attempts (si_clock w) (\<lambda>k. si_send w r k as) as 1 (sx_retries n) (new_window 1000 (sr_rate r) (si_clock w 0)) of
             (through, ok) \<Rightarrow>
               (let n1 = n\<lparr>sx_log := sx_log n @ map (\<lambda>a. (tenant, sr_platform r, a)) through\<rparr>
                in if ok then n1\<lparr>sx_delivered := sx_delivered n + length as\<rparr>
                   else n1\<lparr>sx_errors := sx_errors n + length as\<rparr>))"

definition flush_tenant :: "siem_env \<Rightarrow> siem \<Rightarrow> string \<times> pval list \<Rightarrow> siem" where
  "flush_tenant w n ta =
     (case get_integrations w (fst ta) n of (rows, n1) \<Rightarrow> foldl (send_to_integration w (fst ta) (snd ta)) n1 rows)"

definition siem_flush :: "siem_env \<Rightarrow> siem \<Rightarrow> siem" where
  "siem_flush w n = foldl (flush_tenant w) n (sx_buffer n)"

definition buffer_alert :: "string \<Rightarrow> pval \<Rightarrow> (string, pval list) dict \<Rightarrow> (string, pval list) dict" where
  "buffer_alert t a buf = dict_set t (dict_get_or buf t [] @ [a]) buf"

text \<open>The alert of a message as it is buffered, of whichever kind; \<open>Inl True\<close> is an exception.\<close>

definition read_siem :: "(string \<Rightarrow> pval option) \<Rightarrow> alert_message \<Rightarrow> bool + string \<times> pval" where
  "read_siem json_loads m =
     (case am_value m of
        None \<Rightarrow> Inl True
      | Some raw \<Rightarrow>
          (case json_loads raw of
             None \<Rightarrow> Inl False
           | Some v \<Rightarrow>
               (case (alert_tenant (am_topic m), v) of
                  (Some t, _) \<Rightarrow> Inr (t, v)
                | (None, VDict d) \<Rightarrow>
                    (case dict_get_or d ''tenant_id'' (VStr []) of
                       VStr t \<Rightarrow> if t = [] then Inl False else Inr (t, v)
                     | x \<Rightarrow> Inl (truthy x))
                | _ \<Rightarrow> Inl True)))"

text \<open>One message, and whether its offset is committed; after an exception the buffer is sent and a new one opened.\<close>

definition siem_consume :: "siem_env \<Rightarrow> (string \<Rightarrow> pval option) \<Rightarrow> alert_message \<Rightarrow> siem \<Rightarrow> bool \<times> siem" where
  "siem_consume w json_loads m n =
     (let n1 = n\<lparr>sx_consumed := sx_consumed n + 1\<rparr>
      in case read_siem json_loads m of
           Inl False \<Rightarrow> (False, n1)
         | Inl True \<Rightarrow> (False, (siem_flush w n1)\<lparr>sx_buffer := [], sx_last_flush := si_now w\<rparr>)
         | Inr (t, a) \<Rightarrow>
             (let n2 = n1\<lparr>sx_buffer := buffer_alert t a (sx_buffer n1)\<rparr>
              in if sx_batch n2 \<le> sum_list (map length (dict_values (sx_buffer n2))) \<or> sx_interval n2 \<le> si_now w - sx_last_flush n2
                 then (True, (siem_flush w n2)\<lparr>sx_buffer := [], sx_last_flush := si_now w\<rparr>)
                 else (False, n2)))"

end
