(* ===== verification/Fanout_Props.thy ===== *)
theory Fanout_Props
  imports Fanout
begin

text \<open>
  What leaves the platform: a CEF message has the fields it was made of, except that a line break in the name
  of a rule survives; an alert goes to the channels its rules name and to the integrations of its own
  tenant; and the limits on channels never stop a channel, but drop whole batches of an integration.
\<close>

section \<open>Messages of the common event format\<close>

text \<open>How a receiver reads a message: the seven bars end the header, whatever follows is the extension.\<close>

fun cut_fields :: "nat \<Rightarrow> string \<Rightarrow> string list" where
  "cut_fields 0 s = [s]"
| "cut_fields (Suc n) s =
     takeWhile (\<lambda>c. c \<noteq> CHR ''|'') s # cut_fields n (drop 1 (dropWhile (\<lambda>c. c \<noteq> CHR ''|'') s))"

lemma cut_field:
  assumes "CHR ''|'' \<notin> set a"
  shows "cut_fields (Suc n) (a @ CHR ''|'' # r) = a # cut_fields n r"
  using assms by (simp add: takeWhile_append2 dropWhile_append2 takeWhile_append dropWhile_append)

lemma header_no_bar [simp]: "CHR ''|'' \<notin> set (sanitize_cef_header s)"
  using set_take_subset [of 63] by (fastforce simp: sanitize_cef_header_def)

lemma ext_clean: "c \<in> set (sanitize_cef_ext s) \<Longrightarrow> \<not> ext_unsafe c"
  using set_take_subset [of 1024] by (fastforce simp: sanitize_cef_ext_def ext_unsafe_def)

definition cef_labels :: "string list" where
  "cef_labels = [''cs1Label=agent_id cs1='', ''cs2Label=tenant_id cs2='', ''dst='', ''dpt='', ''msg='', ''cs3Label=attack_class cs3='']"

text \<open>A field is one of the labels and a value without an equals sign, a backslash or a line break.\<close>

definition clean_field :: "string \<Rightarrow> bool" where
  "clean_field f \<longleftrightarrow> (\<exists>label v. f = label @ v \<and> label \<in> set cef_labels \<and> (\<forall>c \<in> set v. \<not> ext_unsafe c))"

lemma ext_field_clean:
  assumes "ext_field label t v = Some fs" and "label \<in> set cef_labels" and "f \<in> set fs"
  shows "clean_field f"
proof -
  obtain s where "f = label @ sanitize_cef_ext s" using assms(1,3) by (auto simp: ext_field_def split: if_splits)
  with assms(2) ext_clean show ?thesis unfolding clean_field_def by blast
qed

lemma concat_some_all:
  assumes "concat_some xs = Some fs" and "\<And>x a f. x \<in> set xs \<Longrightarrow> x = Some a \<Longrightarrow> f \<in> set a \<Longrightarrow> P f"
  shows "\<forall>f \<in> set fs. P f"
  using assms by (induction xs arbitrary: fs) (fastforce split: option.splits)+

lemma cef_fields_clean: "cef_fields str e = Some fs \<Longrightarrow> \<forall>f \<in> set fs. clean_field f"
  unfolding cef_fields_def
  by (erule concat_some_all) (auto dest!: sym [of "Some _"] elim!: ext_field_clean simp: cef_labels_def)

lemma severity_no_bar:
  assumes "cef_severity v = Some s"
  shows "CHR ''|'' \<notin> set s \<and> CHR 0x0A \<notin> set s"
proof -
  have "dict_get_or CEF_SEVERITY k ''1'' \<in> set (''1'' # dict_values CEF_SEVERITY)" for k
    using dict_get_in_values [of CEF_SEVERITY k] by (cases "dict_get CEF_SEVERITY k") (auto simp: dict_get_or_def)
  then have "s \<in> set (''1'' # dict_values CEF_SEVERITY)"
    using assms by (auto simp: cef_severity_def simp del: list.set split: pval.splits) auto
  moreover have "list_all (\<lambda>x. CHR ''|'' \<notin> set x \<and> CHR 0x0A \<notin> set x) (''1'' # dict_values CEF_SEVERITY)"
    by code_simp
  ultimately show ?thesis unfolding list_all_iff by blast
qed

lemma label_lines: "label \<in> set cef_labels \<Longrightarrow> CHR 0x0A \<notin> set label"
proof -
  have "list_all (\<lambda>l. CHR 0x0A \<notin> set l) cef_labels" by code_simp
  then show "label \<in> set cef_labels \<Longrightarrow> CHR 0x0A \<notin> set label" unfolding list_all_iff by blast
qed

lemma field_lines:
  assumes "clean_field f"
  shows "CHR 0x0A \<notin> set f"
proof -
  obtain label v where f: "f = label @ v" "label \<in> set cef_labels" "\<forall>c \<in> set v. \<not> ext_unsafe c"
    using assms unfolding clean_field_def by blast
  have "ext_unsafe (CHR 0x0A)" by (simp add: ext_unsafe_def)
  with f label_lines show ?thesis by auto
qed

lemma join_lines: "\<forall>f \<in> set fs. CHR 0x0A \<notin> set f \<Longrightarrow> CHR 0x0A \<notin> set (join_space fs)"
  by (induction fs rule: join_space.induct) auto

definition rule_of :: "alert_doc \<Rightarrow> pval" where
  "rule_of e = first_of e ''rule_name'' ''event_type'' (VStr ''unknown'')"

definition rule_title :: "(string \<Rightarrow> string) \<Rightarrow> string \<Rightarrow> string" where
  "rule_title title rule = title (map (\<lambda>c. if c = CHR ''_'' then CHR '' '' else c) rule)"

text \<open>
  C38: A receiver that cuts a CEF message at its bars gets back the header the event was given, whatever texts the
  event holds; the extension consists of known keys with values that cannot start another key; and a line
  break comes from the name of the rule or nowhere.
\<close>

theorem cef_message_parses:
  assumes "to_cef str title e = Some m"
  shows "\<exists>rule sev fields. rule_of e = VStr rule \<and>
    cut_fields 7 m = [''CEF:0'', ''Phantex'', ''Phantex'', ''1.0'', sanitize_cef_header rule,
      sanitize_cef_header (rule_title title rule), sev, join_space fields] \<and>
    cef_severity (dict_get_or e ''severity'' (VStr ''info'')) = Some sev \<and>
    cef_fields str e = Some fields \<and> (\<forall>f \<in> set fields. clean_field f) \<and>
    (CHR 0x0A \<in> set m \<longleftrightarrow> CHR 0x0A \<in> set (sanitize_cef_header rule) \<union> set (sanitize_cef_header (rule_title title rule)))"
proof -
  obtain rule sev fields where p: "rule_of e = VStr rule" "cef_severity (dict_get_or e ''severity'' (VStr ''info'')) = Some sev"
      "cef_fields str e = Some fields"
    and m: "m = cef_prefix @ sanitize_cef_header rule @ ''|'' @ sanitize_cef_header (rule_title title rule) @ ''|'' @ sev @ ''|'' @ join_space fields"
    using assms by (auto simp: to_cef_def rule_of_def rule_title_def split: option.splits pval.splits)
  have clean: "\<forall>f \<in> set fields. clean_field f" using cef_fields_clean [OF p(3)] .
  have "cut_fields 7 m = ''CEF:0'' # cut_fields 6 (''Phantex|Phantex|1.0|'' @ drop (length cef_prefix) m)"
    by (simp add: m cef_prefix_def eval_nat_numeral)
  also have "\<dots> = [''CEF:0'', ''Phantex'', ''Phantex'', ''1.0''] @ cut_fields 3 (drop (length cef_prefix) m)"
    by (simp add: eval_nat_numeral)
  also have "drop (length cef_prefix) m =
      sanitize_cef_header rule @ CHR ''|'' # (sanitize_cef_header (rule_title title rule) @ CHR ''|'' # (sev @ CHR ''|'' # join_space fields))"
    by (simp add: m)
  also have "cut_fields 3 \<dots> = [sanitize_cef_header rule, sanitize_cef_header (rule_title title rule), sev, join_space fields]"
    using severity_no_bar [OF p(2)] by (simp only: numeral_3_eq_3 cut_field header_no_bar not_False_eq_True cut_fields.simps(1))
  finally have cut: "cut_fields 7 m = [''CEF:0'', ''Phantex'', ''Phantex'', ''1.0'', sanitize_cef_header rule,
      sanitize_cef_header (rule_title title rule), sev, join_space fields]" by simp
  have "CHR 0x0A \<notin> set (join_space fields)" using join_lines field_lines clean by blast
  then have "CHR 0x0A \<in> set m \<longleftrightarrow> CHR 0x0A \<in> set (sanitize_cef_header rule) \<union> set (sanitize_cef_header (rule_title title rule))"
    using severity_no_bar [OF p(2)] by (simp add: m cef_prefix_def)
  with p cut clean show ?thesis by blast
qed

section \<open>Routing\<close>

lemma py_in_text: "py_in_list (VStr i) xs \<longleftrightarrow> VStr i \<in> set xs"
proof -
  have "py_eq (VStr i) x \<longleftrightarrow> x = VStr i" for x by (cases x) auto
  then show ?thesis by (auto simp: py_in_list_def list_ex_iff)
qed

lemma add_unseen_text: "VStr i \<in> set (foldl add_unseen seen cs) \<longleftrightarrow> VStr i \<in> set seen \<or> VStr i \<in> set cs"
proof (induction cs arbitrary: seen)
  case (Cons c cs)
  have "VStr i \<in> set (add_unseen seen c) \<longleftrightarrow> VStr i \<in> set seen \<or> c = VStr i"
    using py_in_text by (auto simp: add_unseen_def)
  with Cons show ?case by auto
qed simp

lemma add_unseen_once: "count_list seen (VStr i) \<le> 1 \<Longrightarrow> count_list (foldl add_unseen seen cs) (VStr i) \<le> 1"
proof (induction cs arbitrary: seen)
  case (Cons c cs)
  have "count_list (add_unseen seen c) (VStr i) \<le> 1"
    using Cons.prems py_in_text [of i seen] by (cases "c = VStr i") (auto simp: add_unseen_def count_list_0_iff)
  with Cons.IH show ?case by simp
qed simp

lemma matched_channels_spec:
  "matched_channels str a rules = Some cs \<Longrightarrow>
     c \<in> set cs \<longleftrightarrow> (\<exists>r \<in> set rules. c \<in> set (rule_channels r) \<and> matches_condition str a (dict_get_or r ''condition'' (VDict [])) = Some True)"
  by (induction rules arbitrary: cs) (auto split: if_splits option.splits bool.splits)

text \<open>
  The channels of an alert are exactly those that some rule names whose condition the alert fulfils, each
  of them once.
\<close>

theorem routing_exact:
  assumes "match_routing_rules str a rules = Some ids"
  shows "(VStr i \<in> set ids \<longleftrightarrow>
      (\<exists>r \<in> set rules. VStr i \<in> set (rule_channels r) \<and>
         matches_condition str a (dict_get_or r ''condition'' (VDict [])) = Some True)) \<and>
    count_list ids (VStr i) \<le> 1"
proof -
  obtain cs where "matched_channels str a rules = Some cs" and "ids = foldl add_unseen [] cs"
    using assms by (auto simp: match_routing_rules_def split: option.splits if_splits)
  with matched_channels_spec [of str a rules cs "VStr i"] add_unseen_text [of i "[]" cs] add_unseen_once [of "[]" i cs]
  show ?thesis by simp
qed

section \<open>Limits\<close>

text \<open>The limit of a channel as configured; none and zero are the limit of its kind.\<close>

definition configured :: "int \<Rightarrow> int option \<Rightarrow> int" where
  "configured dflt limit = rw_limit (new_window dflt limit 0)"

lemma fresh_window: "window_at now (new_window dflt limit start) =
    \<lparr>rw_limit = configured dflt limit, rw_start = (if 60 \<le> now - start then now else start), rw_count = 0\<rparr>"
  by (simp add: window_at_def new_window_def configured_def)

lemma first_attempt_passes:
  assumes "ne_makes w ch" and "0 < nt_retries n" and "0 < configured 60 (cr_rate ch)" and "ne_post w ch 1 a = Sent"
  shows "send_notification w tenant ch a n = n\<lparr>nt_sent := nt_sent n + 1, nt_log := nt_log n @ [(tenant, cr_id ch, a)]\<rparr>"
proof -
  obtain k where k: "nt_retries n = Suc k" using assms(2) by (cases "nt_retries n") auto
  have "notification_check (ne_clock w 1) (new_window 60 (cr_rate ch) (ne_clock w 0)) \<noteq> None"
    using assms(3) by (simp add: notification_check_def fresh_window)
  then obtain rw where "notification_check (ne_clock w 1) (new_window 60 (cr_rate ch) (ne_clock w 0)) = Some rw" by blast
  with assms k show ?thesis by (simp add: send_notification_def)
qed

text \<open>
  However many alerts come within one minute, and whatever positive limit the channel has, all of them are
  sent: each alert makes a channel of its own, whose window is empty.
\<close>

theorem channel_limit_never_applies:
  assumes "ne_makes w ch" and "0 < nt_retries n" and "0 < configured 60 (cr_rate ch)" and "\<forall>a \<in> set as. ne_post w ch 1 a = Sent"
  shows "nt_sent (foldl (\<lambda>n a. send_notification w tenant ch a n) n as) = nt_sent n + length as \<and>
    nt_log (foldl (\<lambda>n a. send_notification w tenant ch a n) n as) = nt_log n @ map (\<lambda>a. (tenant, cr_id ch, a)) as"
  using assms(2,4)
proof (induction as arbitrary: n)
  case (Cons a as)
  let ?n = "send_notification w tenant ch a n"
  have n: "?n = n\<lparr>nt_sent := nt_sent n + 1, nt_log := nt_log n @ [(tenant, cr_id ch, a)]\<rparr>"
    using first_attempt_passes assms(1,3) Cons.prems by simp
  have "0 < nt_retries ?n" using Cons.prems(1) by (simp add: n)
  from Cons.IH [OF this] Cons.prems(2) show ?case by (simp add: n)
qed simp

text \<open>
  The windows of an integration are new as well, but they count whole batches: a batch above the limit is
  dropped, and one above half the limit is not sent again after an error that could be retried.
\<close>

lemma batch_above_limit_dropped:
  assumes "si_makes w r" and "0 < sx_retries n" and "configured 1000 (sr_rate r) < int (length as)"
  shows "send_to_integration w tenant as n r = n\<lparr>sx_errors := sx_errors n + length as\<rparr>"
proof -
  obtain k where "sx_retries n = Suc k" using assms(2) by (cases "sx_retries n") auto
  moreover have "siem_check (si_clock w 1) (int (length as)) (new_window 1000 (sr_rate r) (si_clock w 0)) = None"
    using assms(3) by (simp add: siem_check_def fresh_window)
  ultimately show ?thesis using assms(1) by (simp add: send_to_integration_def)
qed

lemma no_retry_above_half:
  assumes "si_makes w r" and "1 < sx_retries n" and "length as \<noteq> 0" and "configured 1000 (sr_rate r) < 2 * int (length as)"
    and "int (length as) \<le> configured 1000 (sr_rate r)"
    and "si_send w r 1 as = (0, Failed True)" and "si_clock w 0 = si_clock w 1" and "si_clock w 2 < si_clock w 1 + 60"
  shows "send_to_integration w tenant as n r = n\<lparr>sx_errors := sx_errors n + length as\<rparr>"
proof -
  obtain k where k: "sx_retries n = Suc (Suc k)" using assms(2) by (metis less_imp_Suc_add plus_1_eq_Suc add_Suc)
  let ?rw = "\<lparr>rw_limit = configured 1000 (sr_rate r), rw_start = si_clock w 1, rw_count = int (length as)\<rparr>"
  have 1: "siem_check (si_clock w 1) (int (length as)) (new_window 1000 (sr_rate r) (si_clock w 0)) = Some ?rw"
    using assms(5,7) by (simp add: siem_check_def fresh_window)
  have 2: "siem_check (si_clock w (Suc 1)) (int (length as)) ?rw = None"
    using assms(4,8) by (simp add: siem_check_def window_at_def numeral_2_eq_2)
  have "siem_attempts (si_clock w) (\<lambda>k. si_send w r k as) as 1 (Suc (Suc k)) (new_window 1000 (sr_rate r) (si_clock w 0)) = ([], False)"
    by (simp add: 1 [simplified] 2 [simplified] assms(6) [simplified])
  with assms(1) k show ?thesis by (simp add: send_to_integration_def)
qed

section \<open>Tenants\<close>

lemma attempts_subset: "set (fst (siem_attempts clock send as k left rw)) \<subseteq> set as"
proof (induction left arbitrary: k rw)
  case (Suc left)
  show ?case
  proof (cases "siem_check (clock k) (int (length as)) rw")
    case (Some rw')
    obtain i r where r: "send k = (i, r)" by fastforce
    obtain rest ok where rest: "siem_attempts clock send as (Suc k) left rw' = (rest, ok)" by fastforce
    with Suc.IH [of "Suc k" rw'] have "set rest \<subseteq> set as" by simp
    with Some r rest set_take_subset [of i as] show ?thesis by (cases r) auto
  qed simp
qed simp

text \<open>Every alert that was sent to an integration of a tenant, or waits for it, satisfies \<open>P\<close> with the tenant.\<close>

definition siem_from :: "(string \<Rightarrow> pval \<Rightarrow> bool) \<Rightarrow> siem \<Rightarrow> bool" where
  "siem_from P n \<longleftrightarrow> (\<forall>x \<in> set (sx_log n). P (fst x) (snd (snd x))) \<and> (\<forall>x \<in> set (sx_buffer n). \<forall>a \<in> set (snd x). P (fst x) a)"

lemma send_from:
  assumes "siem_from P n" and "\<forall>a \<in> set as. P tenant a"
  shows "siem_from P (send_to_integration w tenant as n r)"
    and "sx_buffer (send_to_integration w tenant as n r) = sx_buffer n"
proof -
  obtain through ok where t: "siem_attempts (si_clock w) (\<lambda>k. si_send w r k as) as 1 (sx_retries n)
      (new_window 1000 (sr_rate r) (si_clock w 0)) = (through, ok)" by fastforce
  then have "set through \<subseteq> set as"
    using attempts_subset [of "si_clock w" "\<lambda>k. si_send w r k as" as 1 "sx_retries n" "new_window 1000 (sr_rate r) (si_clock w 0)"] by simp
  with assms t show "siem_from P (send_to_integration w tenant as n r)"
    by (auto simp: send_to_integration_def siem_from_def Let_def)
  from t show "sx_buffer (send_to_integration w tenant as n r) = sx_buffer n"
    by (simp add: send_to_integration_def Let_def)
qed

lemma sends_from:
  "siem_from P n \<Longrightarrow> \<forall>a \<in> set as. P tenant a \<Longrightarrow>
   siem_from P (foldl (send_to_integration w tenant as) n rows) \<and>
   sx_buffer (foldl (send_to_integration w tenant as) n rows) = sx_buffer n"
  by (induction rows arbitrary: n) (simp_all add: send_from)

lemma integrations_from:
  assumes "siem_from P n" and "get_integrations w tenant n = (rows, n1)"
  shows "siem_from P n1" "sx_buffer n1 = sx_buffer n"
  using assms by (auto simp: get_integrations_def siem_from_def split: option.splits)

lemma flush_tenant_from:
  assumes "siem_from P n" and "\<forall>a \<in> set (snd ta). P (fst ta) a"
  shows "siem_from P (flush_tenant w n ta) \<and> sx_buffer (flush_tenant w n ta) = sx_buffer n"
proof -
  obtain rows n1 where g: "get_integrations w (fst ta) n = (rows, n1)" by fastforce
  with integrations_from [OF assms(1) g] sends_from [of P n1 "snd ta" "fst ta" w rows] assms(2) show ?thesis
    by (simp add: flush_tenant_def)
qed

lemma siem_flush_from:
  assumes "siem_from P n"
  shows "siem_from P (siem_flush w n)"
proof -
  have "siem_from P (foldl (flush_tenant w) m buf)" if "siem_from P m" "\<forall>x \<in> set buf. \<forall>a \<in> set (snd x). P (fst x) a" for m buf
    using that
  proof (induction buf arbitrary: m)
    case (Cons x buf)
    then have "siem_from P (flush_tenant w m x)" using flush_tenant_from [of P m x w] by simp
    from Cons.IH [OF this] Cons.prems(2) show ?case by simp
  qed simp
  moreover have "\<forall>x \<in> set (sx_buffer n). \<forall>a \<in> set (snd x). P (fst x) a" using assms by (simp add: siem_from_def)
  ultimately show ?thesis using assms unfolding siem_flush_def by blast
qed

lemma buffer_from:
  assumes "siem_from P n" and "P t a"
  shows "siem_from P (n\<lparr>sx_buffer := buffer_alert t a (sx_buffer n)\<rparr>)"
proof -
  have "\<forall>x \<in> set (sx_buffer n). \<forall>a \<in> set (snd x). P (fst x) a" using assms(1) by (simp add: siem_from_def)
  moreover from this have "\<forall>b \<in> set (dict_get_or (sx_buffer n) t []). P t b"
    by (cases "dict_get (sx_buffer n) t") (fastforce simp: dict_get_or_def dest: map_of_SomeD)+
  ultimately have "\<forall>x \<in> insert (t, dict_get_or (sx_buffer n) t [] @ [a]) (set (sx_buffer n)). \<forall>a \<in> set (snd x). P (fst x) a"
    using assms(2) by simp
  then have "\<forall>x \<in> set (buffer_alert t a (sx_buffer n)). \<forall>a \<in> set (snd x). P (fst x) a"
    unfolding buffer_alert_def using set_dict_set_subset by (meson subsetD)
  with assms(1) show ?thesis by (simp add: siem_from_def)
qed

lemma siem_consume_from:
  assumes "siem_from P n" and "\<And>t a. read_siem json_loads m = Inr (t, a) \<Longrightarrow> P t a"
  shows "siem_from P (snd (siem_consume w json_loads m n))"
proof -
  have keep: "siem_from P (n\<lparr>sx_consumed := c\<rparr>)" "siem_from P (k\<lparr>sx_buffer := [], sx_last_flush := l\<rparr>)"
    if "siem_from P n" "siem_from P k" for n k c l
    using that by (simp_all add: siem_from_def)
  let ?n1 = "n\<lparr>sx_consumed := sx_consumed n + 1\<rparr>"
  have n1: "siem_from P ?n1" using keep assms(1) by blast
  show ?thesis
  proof (cases "read_siem json_loads m")
    case (Inl b)
    then show ?thesis using n1 keep(2) [OF n1 siem_flush_from [OF n1]] by (cases b) (simp_all add: siem_consume_def Let_def)
  next
    case (Inr ta)
    obtain t a where ta: "ta = (t, a)" by (cases ta)
    have n2: "siem_from P (?n1\<lparr>sx_buffer := buffer_alert t a (sx_buffer ?n1)\<rparr>)"
      using buffer_from [OF n1] assms(2) Inr ta by blast
    show ?thesis using Inr ta n2 keep(2) [OF n2 siem_flush_from [OF n2]] by (simp add: siem_consume_def Let_def)
  qed
qed

text \<open>
  Whatever the integrations, the database and the clocks do, an alert that was sent to an integration of a
  tenant is the content of a message that was consumed from that tenant's topic.
\<close>

theorem siem_alert_of_tenant:
  assumes "sx_log n = []" and "sx_buffer n = []"
    and "(t, platform, a) \<in> set (sx_log (foldl (\<lambda>n (w, m). snd (siem_consume w json_loads m n)) n ms))"
  shows "\<exists>m \<in> snd ` set ms. read_siem json_loads m = Inr (t, a) \<and> (alert_tenant (am_topic m) \<noteq> None \<longrightarrow> alert_tenant (am_topic m) = Some t)"
proof -
  let ?P = "\<lambda>t a. \<exists>m \<in> snd ` set ms. read_siem json_loads m = Inr (t, a)"
  have run: "siem_from ?P (foldl (\<lambda>n (w, m). snd (siem_consume w json_loads m n)) k ms')"
    if "siem_from ?P k" "set ms' \<subseteq> set ms" for k ms'
    using that
  proof (induction ms' arbitrary: k)
    case (Cons wm ms')
    obtain w m where wm: "wm = (w, m)" by (cases wm)
    have "m \<in> snd ` set ms" using Cons.prems(2) wm by force
    then have "siem_from ?P (snd (siem_consume w json_loads m k))"
      using siem_consume_from [OF Cons.prems(1), of json_loads m w] by blast
    with Cons wm show ?case by simp
  qed simp
  have "siem_from ?P n" using assms(1,2) by (simp add: siem_from_def)
  from run [OF this subset_refl] have "\<forall>x \<in> set (sx_log (foldl (\<lambda>n (w, m). snd (siem_consume w json_loads m n)) n ms)).
      ?P (fst x) (snd (snd x))" unfolding siem_from_def by (rule conjunct1)
  from bspec [OF this assms(3)] obtain m where "m \<in> snd ` set ms" "read_siem json_loads m = Inr (t, a)" by auto
  then show ?thesis
    by (intro bexI [of _ m]) (auto simp: read_siem_def split: option.splits pval.splits if_splits)
qed

section \<open>Examples\<close>

definition demo_sent_alert :: alert_doc where
  "demo_sent_alert = [(''rule_name'', VStr ''r|x''), (''severity'', VStr ''high''), (''agent_id'', VStr ''a=b'')]"

lemma demo_cef: "to_cef (\<lambda>v. case v of VStr s \<Rightarrow> s | _ \<Rightarrow> []) id demo_sent_alert = Some (cef_prefix @ ''rx|rx|8|cs1Label=agent_id cs1=a_b'')"
  by code_simp

lemma cef_message_parses_witness:
  "\<exists>rule sev fields. rule_of demo_sent_alert = VStr rule \<and>
    cut_fields 7 (cef_prefix @ ''rx|rx|8|cs1Label=agent_id cs1=a_b'') = [''CEF:0'', ''Phantex'', ''Phantex'', ''1.0'', sanitize_cef_header rule,
      sanitize_cef_header (rule_title id rule), sev, join_space fields]"
  using cef_message_parses [OF demo_cef] by blast

definition demo_rules :: "routing_rule list" where
  "demo_rules = [[(''condition'', VDict [(''severity'', VList [VStr ''high''])]), (''channels'', VList [VStr ''c'', VStr ''c''])]]"

lemma demo_routes: "match_routing_rules (\<lambda>v. case v of VStr s \<Rightarrow> s | _ \<Rightarrow> []) demo_sent_alert demo_rules = Some [VStr ''c'']"
  by code_simp

lemma routing_exact_witness:
  "(VStr ''c'' \<in> set [VStr ''c''] \<longleftrightarrow> (\<exists>r \<in> set demo_rules. VStr ''c'' \<in> set (rule_channels r) \<and>
     matches_condition (\<lambda>v. case v of VStr s \<Rightarrow> s | _ \<Rightarrow> []) demo_sent_alert (dict_get_or r ''condition'' (VDict [])) = Some True)) \<and>
   count_list [VStr ''c''] (VStr ''c'') \<le> 1"
  using routing_exact [OF demo_routes] .

definition demo_notifier_env :: notifier_env where
  "demo_notifier_env =
     \<lparr>ne_now = 0, ne_rules = (\<lambda>_. Some (Some demo_rules)), ne_channels = (\<lambda>_. None), ne_makes = (\<lambda>_. True), ne_clock = (\<lambda>_. 0),
      ne_post = (\<lambda>_ _ _. Sent)\<rparr>"

definition demo_notifier :: notifier where
  "demo_notifier =
     \<lparr>nt_retries = 3, nt_rules = [], nt_channels = [], nt_consumed = 0, nt_sent = 0, nt_errors = 0, nt_log = []\<rparr>"

definition demo_channel :: channel_row where
  "demo_channel = \<lparr>cr_id = ''c'', cr_type = ''webhook'', cr_rate = Some 1\<rparr>"

lemma channel_limit_never_applies_witness:
  "nt_sent (foldl (\<lambda>n a. send_notification demo_notifier_env ''t'' demo_channel a n) demo_notifier (replicate 100 demo_sent_alert)) = 100"
proof -
  have "ne_makes demo_notifier_env demo_channel" "0 < nt_retries demo_notifier" "0 < configured 60 (cr_rate demo_channel)"
    "\<forall>a \<in> set (replicate 100 demo_sent_alert). ne_post demo_notifier_env demo_channel 1 a = Sent"
    by (simp_all add: demo_notifier_env_def demo_notifier_def demo_channel_def configured_def new_window_def)
  from channel_limit_never_applies [OF this, of "''t''"] show ?thesis by (simp add: demo_notifier_def)
qed

definition demo_siem_env :: siem_env where
  "demo_siem_env =
     \<lparr>si_now = 0, si_rows = (\<lambda>_. Some [\<lparr>sr_platform = ''splunk'', sr_rate = None\<rparr>]), si_makes = (\<lambda>_. True), si_clock = (\<lambda>_. 0),
      si_send = (\<lambda>_ _ _. (0, Sent))\<rparr>"

definition demo_siem :: siem where
  "demo_siem =
     \<lparr>sx_retries = 3, sx_batch = 1, sx_interval = 5, sx_cache = [], sx_buffer = [], sx_last_flush = 0, sx_consumed = 0,
      sx_delivered = 0, sx_errors = 0, sx_log = []\<rparr>"

definition demo_alert_message :: alert_message where
  "demo_alert_message = \<lparr>am_topic = ''phantex.alerts.t'', am_value = Some ''1''\<rparr>"

lemma demo_alert_tenant: "alert_tenant ''phantex.alerts.t'' = Some ''t''"
  by code_simp

lemma siem_alert_of_tenant_witness:
  "\<exists>m \<in> snd ` set [(demo_siem_env, demo_alert_message)]. read_siem (\<lambda>_. Some VNone) m = Inr (''t'', VNone) \<and>
     (alert_tenant (am_topic m) \<noteq> None \<longrightarrow> alert_tenant (am_topic m) = Some ''t'')"
proof -
  have "sx_log demo_siem = []" "sx_buffer demo_siem = []" by (simp_all add: demo_siem_def)
  moreover have "(''t'', ''splunk'', VNone) \<in>
      set (sx_log (foldl (\<lambda>n (w, m). snd (siem_consume w (\<lambda>_. Some VNone) m n)) demo_siem [(demo_siem_env, demo_alert_message)]))"
    by (simp add: siem_consume_def read_siem_def demo_alert_message_def demo_alert_tenant demo_siem_def demo_siem_env_def
        buffer_alert_def dict_get_or_def siem_flush_def flush_tenant_def get_integrations_def cached_def send_to_integration_def
        siem_check_def window_at_def new_window_def eval_nat_numeral Let_def)
  ultimately show ?thesis by (rule siem_alert_of_tenant)
qed

end
