(* ===== verification/Policies.thy ===== *)
theory Policies
  imports Py_Values Interfaces
begin

text \<open>
  Detection policies: how they change the severity of an event, \<open>backend/app/consumers/policy_engine.py\<close>, and how
  they are validated, stored and versioned, \<open>services/policy_service.py\<close> and \<open>routers/policies.py\<close>. The YAML
  parser is a parameter, as are new identifiers; \<open>None\<close> is an exception of Python.
\<close>

section \<open>Schedules\<close>

record point_in_time =
  pt_weekday :: nat
  pt_hour :: nat
  pt_minute :: nat

definition parse_hhmm :: "string \<Rightarrow> (nat \<times> nat) option" where
  "parse_hhmm s =
     (case py_strip s of
        [a, b, c, d, e] \<Rightarrow>
          if is_ascii_digit a \<and> is_ascii_digit b \<and> c = CHR '':'' \<and> is_ascii_digit d \<and> is_ascii_digit e
          then let hh = digits_value [a, b]; mm = digits_value [d, e] in if 23 < hh \<or> 59 < mm then None else Some (hh, mm)
          else None
      | _ \<Rightarrow> None)"

definition minutes :: "nat \<times> nat \<Rightarrow> nat" where
  "minutes t = fst t * 60 + snd t"

text \<open>The hours of a policy: unlimited when they cannot be read, an exception when nothing follows the dash.\<close>

datatype hours = Unlimited | Hours "nat \<times> nat" "nat \<times> nat"

definition read_hours :: "string \<Rightarrow> hours option" where
  "read_hours s =
     (case split_on (CHR ''-'') (py_strip s) of
        [a, b] \<Rightarrow>
          (if py_strip b = [] then None
           else case (parse_hhmm (py_strip a), parse_hhmm (takeWhile (\<lambda>c. \<not> py_isspace c) (py_strip b))) of
                  (Some x, Some y) \<Rightarrow> Some (Hours x y)
                | _ \<Rightarrow> Some Unlimited)
      | _ \<Rightarrow> Some Unlimited)"

definition in_hours :: "point_in_time \<Rightarrow> hours \<Rightarrow> bool" where
  "in_hours now h =
     (case h of
        Unlimited \<Rightarrow> True
      | Hours a b \<Rightarrow>
          (let m = minutes (pt_hour now, pt_minute now)
           in if minutes a \<le> minutes b then minutes a \<le> m \<and> m \<le> minutes b else minutes a \<le> m \<or> m \<le> minutes b))"

definition is_within_schedule :: "pval \<Rightarrow> point_in_time \<Rightarrow> bool option" where
  "is_within_schedule schedule now =
     (if \<not> truthy schedule then Some True
      else case schedule of
             VDict d \<Rightarrow>
               (let mode = dict_get_or d ''weekend'' (VStr ''inherit''); weekend = 5 \<le> pt_weekday now
                in if weekend \<and> mode = VStr ''suppress'' then Some False
                   else if weekend \<and> mode = VStr ''alert'' then Some True
                   else case dict_get_or d ''active_hours'' VNone of
                          VStr s \<Rightarrow> if s = [] then Some True else map_option (in_hours now) (read_hours s)
                        | v \<Rightarrow> if truthy v then None else Some True)
           | _ \<Rightarrow> None)"

section \<open>Policies and events\<close>

record policy =
  pl_id :: string
  pl_tenant :: string
  pl_name :: string
  pl_description :: string
  pl_version :: nat
  pl_enabled :: bool
  pl_definition :: "(string, pval) dict"
  pl_tags :: "string list"
  pl_frameworks :: "string list"
  pl_deleted :: bool

definition overlap :: "string list \<Rightarrow> string list \<Rightarrow> bool" where
  "overlap xs ys \<longleftrightarrow> list_ex (\<lambda>x. x \<in> set ys) xs"

definition match_policy_to_agent :: "policy \<Rightarrow> string list \<Rightarrow> string option \<Rightarrow> bool" where
  "match_policy_to_agent p tags framework \<longleftrightarrow>
     (pl_tags p = [] \<and> pl_frameworks p = []) \<or>
     (pl_tags p \<noteq> [] \<and> tags \<noteq> [] \<and> overlap (pl_tags p) tags) \<or>
     (case framework of None \<Rightarrow> False | Some f \<Rightarrow> pl_frameworks p \<noteq> [] \<and> f \<noteq> [] \<and> f \<in> set (pl_frameworks p))"

definition VALID_SEVERITIES :: "string list" where
  "VALID_SEVERITIES = [''critical'', ''high'', ''medium'', ''low'', ''info'']"

type_synonym event_doc = "(string, pval) dict"

definition add_metadata :: "event_doc \<Rightarrow> (string, pval) dict \<Rightarrow> event_doc option" where
  "add_metadata e entry =
     (case dict_get_or e ''_policy_metadata'' (VList []) of
        VList xs \<Rightarrow> Some (dict_set ''_policy_metadata'' (VList (xs @ [VDict entry])) e)
      | _ \<Rightarrow> None)"

definition policy_entry :: "policy \<Rightarrow> (string, pval) dict" where
  "policy_entry p = [(''policy_id'', VStr (pl_id p)), (''policy_name'', VStr (pl_name p))]"

definition suppress :: "string \<Rightarrow> event_doc \<Rightarrow> event_doc" where
  "suppress reason e = dict_set ''_policy_suppressed_reason'' (VStr reason) (dict_set ''_policy_suppressed'' (VBool True) e)"

text \<open>The severity a rule asks for, if it is one; the outer \<open>None\<close> is an exception.\<close>

definition override_of :: "(string, pval) dict \<Rightarrow> string option option" where
  "override_of r =
     (case dict_get_or r ''severity_override'' VNone of
        VStr s \<Rightarrow> Some (if s \<in> set VALID_SEVERITIES then Some s else None)
      | VList xs \<Rightarrow> if xs = [] then Some None else None
      | VDict d \<Rightarrow> if d = [] then Some None else None
      | _ \<Rightarrow> Some None)"

definition set_severity :: "string option \<Rightarrow> event_doc \<Rightarrow> event_doc" where
  "set_severity sev e =
     (case sev of
        None \<Rightarrow> e
      | Some s \<Rightarrow> dict_set ''severity'' (VStr s) (dict_set ''_original_severity'' (dict_get_or e ''severity'' VNone) e))"

definition merge_parameters :: "pval \<Rightarrow> event_doc \<Rightarrow> event_doc option" where
  "merge_parameters params e =
     (case params of
        VDict ps \<Rightarrow>
          (if ps = [] then Some e
           else case dict_get_or e ''_parameter_overrides'' (VDict []) of
                  VDict old \<Rightarrow> Some (dict_set ''_parameter_overrides'' (VDict (fold (\<lambda>(k, v). dict_set k v) ps old)) e)
                | _ \<Rightarrow> None)
      | _ \<Rightarrow> Some e)"

definition set_notifications :: "pval \<Rightarrow> event_doc \<Rightarrow> event_doc" where
  "set_notifications v e = (case v of VList xs \<Rightarrow> if xs = [] then e else dict_set ''_notification_overrides'' v e | _ \<Rightarrow> e)"

text \<open>A rule that names the event and is enabled.\<close>

definition apply_rule :: "policy \<Rightarrow> (string, pval) dict \<Rightarrow> event_doc \<Rightarrow> event_doc option" where
  "apply_rule p r e =
     (case override_of r of
        None \<Rightarrow> None
      | Some sev \<Rightarrow>
          (case merge_parameters (dict_get_or r ''parameters'' VNone) (set_severity sev e) of
             None \<Rightarrow> None
           | Some e1 \<Rightarrow>
               add_metadata (set_notifications (dict_get_or r ''notifications'' VNone) e1)
                 (policy_entry p @ [(''rule_name'', dict_get_or r ''name'' (VStr [])), (''action'', VStr ''override''),
                    (''severity_override'', dict_get_or r ''severity_override'' VNone)])))"

definition names_event :: "pval \<Rightarrow> (string, pval) dict \<Rightarrow> bool" where
  "names_event name r \<longleftrightarrow> truthy (dict_get_or r ''name'' (VStr [])) \<and> py_eq (dict_get_or r ''name'' (VStr [])) name"

definition rule_enabled :: "(string, pval) dict \<Rightarrow> bool" where
  "rule_enabled r \<longleftrightarrow> truthy (dict_get_or r ''enabled'' (VBool True))"

fun apply_rules :: "policy \<Rightarrow> pval \<Rightarrow> pval list \<Rightarrow> bool \<Rightarrow> event_doc \<Rightarrow> event_doc option" where
  "apply_rules p name [] matched e =
     (if matched then Some e else add_metadata e (policy_entry p @ [(''action'', VStr ''no_matching_rule'')]))"
| "apply_rules p name (v # vs) matched e =
     (case v of
        VDict r \<Rightarrow>
          (if \<not> names_event name r then apply_rules p name vs matched e
           else if \<not> rule_enabled r
           then add_metadata (suppress ''rule_disabled'' e)
                  (policy_entry p @ [(''rule_name'', dict_get_or r ''name'' (VStr [])), (''action'', VStr ''disabled'')])
           else case apply_rule p r e of None \<Rightarrow> None | Some e' \<Rightarrow> apply_rules p name vs True e')
      | _ \<Rightarrow> None)"

text \<open>\<open>definition.get("rules") or []\<close>: the rules, when they are a list.\<close>

definition policy_rules :: "policy \<Rightarrow> pval list option" where
  "policy_rules p =
     (case dict_get_or (pl_definition p) ''rules'' VNone of
        VList xs \<Rightarrow> Some xs
      | VDict d \<Rightarrow> Some (map VStr (dict_keys d))
      | VStr s \<Rightarrow> Some (map (\<lambda>c. VStr [c]) s)
      | v \<Rightarrow> if truthy v then None else Some [])"

definition apply_policy_rules :: "event_doc \<Rightarrow> policy \<Rightarrow> point_in_time \<Rightarrow> event_doc option" where
  "apply_policy_rules e p now =
     (case is_within_schedule (dict_get_or (pl_definition p) ''schedule'' VNone) now of
        None \<Rightarrow> None
      | Some False \<Rightarrow> add_metadata (suppress ''outside_schedule'' e) (policy_entry p @ [(''action'', VStr ''suppressed'')])
      | Some True \<Rightarrow>
          (case policy_rules p of
             None \<Rightarrow> None
           | Some rules \<Rightarrow> apply_rules p (dict_get_or e ''rule_name'' (VStr [])) rules False e))"

definition suppressed :: "event_doc \<Rightarrow> bool" where
  "suppressed e \<longleftrightarrow> truthy (dict_get_or e ''_policy_suppressed'' VNone)"

fun apply_policies_to_event :: "event_doc \<Rightarrow> policy list \<Rightarrow> string list \<Rightarrow> string option \<Rightarrow> point_in_time \<Rightarrow> event_doc option" where
  "apply_policies_to_event e [] tags framework now = Some e"
| "apply_policies_to_event e (p # ps) tags framework now =
     (if \<not> pl_enabled p \<or> \<not> match_policy_to_agent p tags framework then apply_policies_to_event e ps tags framework now
      else case apply_policy_rules e p now of
             None \<Rightarrow> None
           | Some e' \<Rightarrow> if suppressed e' then Some e' else apply_policies_to_event e' ps tags framework now)"

section \<open>Validation\<close>

definition MAX_YAML_SIZE :: nat where
  "MAX_YAML_SIZE = 65536"

definition MAX_YAML_DEPTH :: nat where
  "MAX_YAML_DEPTH = 10"

definition dangerous_tags :: "string list" where
  "dangerous_tags = [''python'', ''ruby'', ''perl'', ''java'', ''php'', ''exec'', ''import'', ''module'', ''object'', ''apply'',
     ''getattr'', ''global'', ''set'', ''map'', ''seq'']"

definition has_dangerous_tag :: "string \<Rightarrow> bool" where
  "has_dangerous_tag s \<longleftrightarrow> list_ex (\<lambda>t. is_substring (''!!'' @ t) (py_lower s)) dangerous_tags"

fun measure_depth :: "pval \<Rightarrow> nat \<Rightarrow> nat" where
  "measure_depth (VDict d) current = (if d = [] then current else foldr max (map (\<lambda>kv. measure_depth (snd kv) (current + 1)) d) 0)"
| "measure_depth (VList xs) current = (if xs = [] then current else foldr max (map (\<lambda>v. measure_depth v (current + 1)) xs) 0)"
| "measure_depth v current = current"

datatype yaml_error = Too_Large | Dangerous_Tags | Parse_Error | Not_A_Mapping | Too_Deep nat

definition parse_yaml_safe :: "(string \<Rightarrow> pval option) \<Rightarrow> string \<Rightarrow> yaml_error + (string, pval) dict" where
  "parse_yaml_safe safe_load content =
     (if MAX_YAML_SIZE < length content then Inl Too_Large
      else if has_dangerous_tag content then Inl Dangerous_Tags
      else case safe_load content of
             None \<Rightarrow> Inl Parse_Error
           | Some (VDict d) \<Rightarrow>
               (let depth = measure_depth (VDict d) 1 in if MAX_YAML_DEPTH < depth then Inl (Too_Deep depth) else Inr d)
           | Some _ \<Rightarrow> Inl Not_A_Mapping)"

datatype policy_error =
  Rules_No_List | Too_Many_Rules nat | Rule_No_Mapping nat | Rule_No_Name nat | Rule_Duplicate nat string
| Bad_Severity nat | Bad_Parameters nat | Bad_Hours string | Bad_Weekend | Scope_No_List string
| Too_Many_Tags string nat | Bad_Tag string

text \<open>The errors of the i-th rule, and the names seen so far.\<close>

definition rule_errors :: "nat \<Rightarrow> string list \<Rightarrow> pval \<Rightarrow> (policy_error list \<times> string list) option" where
  "rule_errors i seen v =
     (case v of
        VDict r \<Rightarrow>
          (case (case dict_get_or r ''severity_override'' VNone of
                   VNone \<Rightarrow> Some []
                 | VStr s \<Rightarrow> Some (if s \<in> set VALID_SEVERITIES then [] else [Bad_Severity i])
                 | VList _ \<Rightarrow> None
                 | VDict _ \<Rightarrow> None
                 | _ \<Rightarrow> Some [Bad_Severity i]) of
             None \<Rightarrow> None
           | Some sev \<Rightarrow>
               (let params = (case dict_get_or r ''parameters'' (VDict []) of VDict _ \<Rightarrow> [] | _ \<Rightarrow> [Bad_Parameters i])
                in case dict_get_or r ''name'' (VStr []) of
                     VStr n \<Rightarrow>
                       if n = [] then Some (Rule_No_Name i # sev @ params, seen)
                       else if n \<in> set seen then Some (Rule_Duplicate i n # sev @ params, seen)
                       else Some (sev @ params, seen @ [n])
                   | _ \<Rightarrow> Some (Rule_No_Name i # sev @ params, seen)))
      | _ \<Rightarrow> Some ([Rule_No_Mapping i], seen))"

fun rules_errors :: "nat \<Rightarrow> string list \<Rightarrow> pval list \<Rightarrow> policy_error list option" where
  "rules_errors i seen [] = Some []"
| "rules_errors i seen (v # vs) =
     (case rule_errors i seen v of
        None \<Rightarrow> None
      | Some (es, seen') \<Rightarrow> map_option ((@) es) (rules_errors (i + 1) seen' vs))"

text \<open>\<open>HH:MM-HH:MM\<close>, spaces and a zone; \<open>$\<close> also matches before a final line break.\<close>

definition hours_format :: "string \<Rightarrow> bool" where
  "hours_format s =
     (case take 11 s of
        [a, b, c, d, e, f, g, h, i, j, k] \<Rightarrow>
          list_all is_ascii_digit [a, b, d, e, g, h, j, k] \<and> c = CHR '':'' \<and> f = CHR ''-'' \<and> i = CHR '':'' \<and>
          (let r = drop 11 s; z = strip_final_newline (dropWhile py_isspace r)
           in r \<noteq> [] \<and> py_isspace (hd r) \<and> z \<noteq> [] \<and> list_all (\<lambda>x. \<not> py_isspace x) z)
      | _ \<Rightarrow> False)"

definition schedule_errors :: "pval \<Rightarrow> policy_error list option" where
  "schedule_errors schedule =
     (case schedule of
        VDict d \<Rightarrow>
          (case (case dict_get_or d ''active_hours'' (VStr []) of
                   VStr s \<Rightarrow> Some (if s = [] \<or> hours_format s then [] else [Bad_Hours s])
                 | v \<Rightarrow> if truthy v then None else Some [],
                 case dict_get_or d ''weekend'' (VStr []) of
                   VStr m \<Rightarrow> Some (if m \<in> {[], ''suppress'', ''alert'', ''inherit''} then [] else [Bad_Weekend])
                 | VList xs \<Rightarrow> if xs = [] then Some [] else None
                 | VDict e \<Rightarrow> if e = [] then Some [] else None
                 | v \<Rightarrow> Some (if truthy v then [Bad_Weekend] else [])) of
             (Some a, Some b) \<Rightarrow> Some (a @ b)
           | _ \<Rightarrow> None)
      | _ \<Rightarrow> Some [])"

definition tags_errors :: "string \<Rightarrow> pval \<Rightarrow> policy_error list" where
  "tags_errors key v =
     (case v of
        VList ts \<Rightarrow>
          if 50 < length ts then [Too_Many_Tags key (length ts)]
          else concat (map (\<lambda>t. case t of VStr s \<Rightarrow> if 128 < length s then [Bad_Tag key] else [] | _ \<Rightarrow> [Bad_Tag key]) ts)
      | _ \<Rightarrow> [Scope_No_List key])"

definition scope_errors :: "pval \<Rightarrow> policy_error list" where
  "scope_errors scope =
     (case scope of
        VDict d \<Rightarrow>
          (if d = [] then []
           else tags_errors ''agent_tags'' (dict_get_or d ''agent_tags'' (VList [])) @
                tags_errors ''frameworks'' (dict_get_or d ''frameworks'' (VList [])))
      | _ \<Rightarrow> [])"

text \<open>The errors; the warnings about parameters do not decide anything.\<close>

definition validate_policy_definition :: "(string, pval) dict \<Rightarrow> policy_error list option" where
  "validate_policy_definition d =
     (case (case dict_get_or d ''rules'' (VList []) of
              VList rs \<Rightarrow> map_option ((@) (if 100 < length rs then [Too_Many_Rules (length rs)] else [])) (rules_errors 0 [] rs)
            | _ \<Rightarrow> Some [Rules_No_List],
            schedule_errors (dict_get_or d ''schedule'' (VDict []))) of
        (Some a, Some b) \<Rightarrow> Some (a @ b @ scope_errors (dict_get_or d ''scope'' (VDict [])))
      | _ \<Rightarrow> None)"

section \<open>Storage\<close>

record policy_version =
  pv_policy :: string
  pv_tenant :: string
  pv_version :: nat
  pv_definition :: "(string, pval) dict"
  pv_summary :: string

record policy_store =
  ps_policies :: "policy list"
  ps_versions :: "policy_version list"

record policy_request =
  rq_name :: string
  rq_description :: string
  rq_enabled :: bool
  rq_definition :: "(string, pval) dict"
  rq_tags :: "string list"
  rq_frameworks :: "string list"

record policy_update =
  ru_name :: "string option"
  ru_description :: "string option"
  ru_enabled :: "bool option"
  ru_definition :: "((string, pval) dict \<times> string list \<times> string list) option"
  ru_summary :: string

definition name_taken :: "string \<Rightarrow> string \<Rightarrow> string \<Rightarrow> policy_store \<Rightarrow> bool" where
  "name_taken i tenant name st \<longleftrightarrow>
     list_ex (\<lambda>p. pl_id p \<noteq> i \<and> pl_tenant p = tenant \<and> pl_name p = name \<and> \<not> pl_deleted p) (ps_policies st)"

text \<open>The constraints of the tables refuse a row: \<open>None\<close> is their error, which undoes the request.\<close>

definition add_version :: "policy_version \<Rightarrow> policy_store \<Rightarrow> policy_store option" where
  "add_version v st =
     (if list_ex (\<lambda>x. pv_policy x = pv_policy v \<and> pv_version x = pv_version v) (ps_versions st) then None
      else Some (st\<lparr>ps_versions := ps_versions st @ [v]\<rparr>))"

definition create_policy :: "string \<Rightarrow> string \<Rightarrow> policy_request \<Rightarrow> policy_store \<Rightarrow> (policy \<times> policy_store) option" where
  "create_policy i tenant r st =
     (let p = \<lparr>pl_id = i, pl_tenant = tenant, pl_name = rq_name r, pl_description = rq_description r, pl_version = 1,
               pl_enabled = rq_enabled r, pl_definition = rq_definition r, pl_tags = rq_tags r,
               pl_frameworks = rq_frameworks r, pl_deleted = False\<rparr>
      in if list_ex (\<lambda>x. pl_id x = i) (ps_policies st) \<or> name_taken i tenant (rq_name r) st then None
         else map_option (Pair p)
           (add_version \<lparr>pv_policy = i, pv_tenant = tenant, pv_version = 1, pv_definition = rq_definition r,
              pv_summary = ''Initial creation''\<rparr> (st\<lparr>ps_policies := ps_policies st @ [p]\<rparr>)))"

definition get_policy_row :: "string \<Rightarrow> string \<Rightarrow> policy_store \<Rightarrow> policy option" where
  "get_policy_row tenant i st = find (\<lambda>p. pl_id p = i \<and> pl_tenant p = tenant \<and> \<not> pl_deleted p) (ps_policies st)"

text \<open>The rows of a page, newest first, and how many there are in all.\<close>

definition list_policies :: "string \<Rightarrow> int \<Rightarrow> int \<Rightarrow> bool \<Rightarrow> policy_store \<Rightarrow> policy list \<times> nat" where
  "list_policies tenant page size_of_page enabled_only st =
     (let n = nat (max 1 (min size_of_page 100)); k = nat (max 1 page);
          rows = filter (\<lambda>p. pl_tenant p = tenant \<and> \<not> pl_deleted p \<and> (enabled_only \<longrightarrow> pl_enabled p)) (rev (ps_policies st))
      in (take n (drop ((k - 1) * n) rows), length rows))"

text \<open>A definition that is kept is the one read from the row, taken to be decoded as it was stored; a driver that hands out a
  JSONB column as text would have it encoded once more.\<close>

definition updated_policy :: "policy_update \<Rightarrow> policy \<Rightarrow> policy" where
  "updated_policy r p =
     p\<lparr>pl_version := pl_version p + 1,
       pl_name := (case ru_name r of None \<Rightarrow> pl_name p | Some x \<Rightarrow> x),
       pl_description := (case ru_description r of None \<Rightarrow> pl_description p | Some x \<Rightarrow> x),
       pl_enabled := (case ru_enabled r of None \<Rightarrow> pl_enabled p | Some x \<Rightarrow> x),
       pl_definition := (case ru_definition r of None \<Rightarrow> pl_definition p | Some (d, _, _) \<Rightarrow> d),
       pl_tags := (case ru_definition r of None \<Rightarrow> pl_tags p | Some (_, t, _) \<Rightarrow> t),
       pl_frameworks := (case ru_definition r of None \<Rightarrow> pl_frameworks p | Some (_, _, f) \<Rightarrow> f)\<rparr>"

definition version_summary :: "policy_update \<Rightarrow> nat \<Rightarrow> string" where
  "version_summary r n = (if ru_summary r = [] then ''Updated to version '' @ nat_to_string n else ru_summary r)"

text \<open>\<open>Some None\<close>: there is no such policy.\<close>

definition update_policy :: "string \<Rightarrow> string \<Rightarrow> policy_update \<Rightarrow> policy_store \<Rightarrow> (policy \<times> policy_store) option option" where
  "update_policy tenant i r st =
     (case get_policy_row tenant i st of
        None \<Rightarrow> Some None
      | Some p \<Rightarrow>
          (let p' = updated_policy r p
           in if name_taken i tenant (pl_name p') st then None
              else map_option (\<lambda>st'. Some (p', st'))
                (add_version \<lparr>pv_policy = i, pv_tenant = tenant, pv_version = pl_version p', pv_definition = pl_definition p',
                   pv_summary = version_summary r (pl_version p')\<rparr>
                  (st\<lparr>ps_policies := map (\<lambda>x. if pl_id x = i then p' else x) (ps_policies st)\<rparr>))))"

definition delete_policy :: "string \<Rightarrow> string \<Rightarrow> policy_store \<Rightarrow> bool \<times> policy_store" where
  "delete_policy tenant i st =
     (case get_policy_row tenant i st of
        None \<Rightarrow> (False, st)
      | Some p \<Rightarrow>
          (True, st\<lparr>ps_policies := map (\<lambda>x. if pl_id x = i then x\<lparr>pl_deleted := True, pl_enabled := False\<rparr> else x) (ps_policies st)\<rparr>))"

text \<open>The history of a policy, newest first.\<close>

definition get_policy_versions :: "string \<Rightarrow> string \<Rightarrow> policy_store \<Rightarrow> policy_version list" where
  "get_policy_versions tenant i st =
     rev (sort_key pv_version (filter (\<lambda>v. pv_policy v = i \<and> pv_tenant v = tenant) (ps_versions st)))"

text \<open>\<open>&&\<close> and \<open>= ANY\<close> of the query, and its order.\<close>

definition get_policies_for_agent :: "string \<Rightarrow> string list \<Rightarrow> string \<Rightarrow> policy_store \<Rightarrow> policy list" where
  "get_policies_for_agent tenant tags framework st =
     filter (\<lambda>p. pl_tenant p = tenant \<and> pl_enabled p \<and> \<not> pl_deleted p \<and>
        (pl_tags p = [] \<or> overlap (pl_tags p) tags) \<and> (pl_frameworks p = [] \<or> framework \<in> set (pl_frameworks p)))
       (ps_policies st)"

section \<open>Routes\<close>

definition policy_role :: "string \<Rightarrow> bool" where
  "policy_role role \<longleftrightarrow> role \<in> {''admin'', ''analyst''}"

definition create_policy_endpoint :: "string \<Rightarrow> string \<Rightarrow> string \<Rightarrow> policy_request \<Rightarrow> policy_store \<Rightarrow> (nat + policy) \<times> policy_store" where
  "create_policy_endpoint role i tenant r st =
     (if \<not> policy_role role then (Inl 403, st)
      else case validate_policy_definition (rq_definition r) of
             None \<Rightarrow> (Inl 500, st)
           | Some es \<Rightarrow>
               if es \<noteq> [] then (Inl 422, st)
               else case create_policy i tenant r st of
                      None \<Rightarrow> (Inl (if name_taken i tenant (rq_name r) st then 409 else 500), st)
                    | Some (p, st') \<Rightarrow> (Inr p, st'))"

definition update_policy_endpoint :: "string \<Rightarrow> string \<Rightarrow> string \<Rightarrow> policy_update \<Rightarrow> policy_store \<Rightarrow> (nat + policy) \<times> policy_store" where
  "update_policy_endpoint role i tenant r st =
     (if \<not> policy_role role then (Inl 403, st)
      else case (case ru_definition r of None \<Rightarrow> Some [] | Some (d, _, _) \<Rightarrow> validate_policy_definition d) of
             None \<Rightarrow> (Inl 500, st)
           | Some es \<Rightarrow>
               if es \<noteq> [] then (Inl 422, st)
               else case update_policy tenant i r st of
                      None \<Rightarrow> (Inl 500, st)
                    | Some None \<Rightarrow> (Inl 404, st)
                    | Some (Some (p, st')) \<Rightarrow> (Inr p, st'))"

definition delete_policy_endpoint :: "string \<Rightarrow> string \<Rightarrow> string \<Rightarrow> policy_store \<Rightarrow> nat \<times> policy_store" where
  "delete_policy_endpoint role i tenant st =
     (if \<not> policy_role role then (403, st)
      else case delete_policy tenant i st of (b, st') \<Rightarrow> (if b then 204 else 404, st'))"

definition validate_policy_endpoint :: "string \<Rightarrow> (string \<Rightarrow> pval option) \<Rightarrow> string option \<Rightarrow> (string, pval) dict option \<Rightarrow> nat + bool" where
  "validate_policy_endpoint role safe_load yaml json =
     (if \<not> policy_role role then Inl 403
      else case (case yaml of None \<Rightarrow> None | Some y \<Rightarrow> if y = [] then None else Some y) of
             Some y \<Rightarrow>
               (case parse_yaml_safe safe_load y of
                  Inl _ \<Rightarrow> Inr False
                | Inr d \<Rightarrow> (case validate_policy_definition d of None \<Rightarrow> Inl 500 | Some es \<Rightarrow> Inr (es = [])))
           | None \<Rightarrow>
               (case json of
                  None \<Rightarrow> Inl 400
                | Some d \<Rightarrow> (case validate_policy_definition d of None \<Rightarrow> Inl 500 | Some es \<Rightarrow> Inr (es = []))))"

text \<open>Applying a policy answers that it was applied.\<close>

definition apply_policy_endpoint :: "string \<Rightarrow> string \<Rightarrow> string \<Rightarrow> policy_store \<Rightarrow> nat" where
  "apply_policy_endpoint role i tenant st =
     (if \<not> policy_role role then 403
      else case get_policy_row tenant i st of None \<Rightarrow> 404 | Some p \<Rightarrow> if \<not> pl_enabled p then 400 else 200)"

definition get_versions_endpoint :: "string \<Rightarrow> string \<Rightarrow> policy_store \<Rightarrow> nat + policy_version list" where
  "get_versions_endpoint tenant i st =
     (case get_policy_row tenant i st of None \<Rightarrow> Inl 404 | Some _ \<Rightarrow> Inr (get_policy_versions tenant i st))"

end
