(* ===== verification/Policies_Props.thy ===== *)
theory Policies_Props
  imports Policies
begin

text \<open>
  Properties of the detection policies: the hours are an arc of the clock, the severity of an event is the one that the
  last rule asked for before the first suppression, and the history of a policy is complete.
\<close>

section \<open>Schedules\<close>

definition minutes_since :: "nat \<Rightarrow> nat \<Rightarrow> nat" where
  "minutes_since a m = (m + 1440 - a) mod 1440"

definition valid_time :: "point_in_time \<Rightarrow> bool" where
  "valid_time now \<longleftrightarrow> pt_hour now < 24 \<and> pt_minute now < 60"

lemma parse_hhmm_bound: "parse_hhmm s = Some t \<Longrightarrow> minutes t < 1440"
  by (auto simp: parse_hhmm_def minutes_def Let_def split: list.splits if_splits)

lemma read_hours_bound: "read_hours s = Some (Hours a b) \<Longrightarrow> minutes a < 1440 \<and> minutes b < 1440"
  by (auto simp: read_hours_def dest: parse_hhmm_bound split: list.splits if_splits option.splits)

lemma minutes_since_after: "a \<le> m \<Longrightarrow> m < 1440 \<Longrightarrow> minutes_since a m = m - a"
  by (auto simp: minutes_since_def mod_if)

lemma minutes_since_before: "m < a \<Longrightarrow> a < 1440 \<Longrightarrow> minutes_since a m = m + 1440 - a"
  by (auto simp: minutes_since_def)

lemma in_hours_arc:
  assumes "minutes a < 1440" and "minutes b < 1440" and "valid_time now"
  shows "in_hours now (Hours a b) \<longleftrightarrow>
    minutes_since (minutes a) (minutes (pt_hour now, pt_minute now)) \<le> minutes_since (minutes a) (minutes b)"
proof -
  define m where "m = minutes (pt_hour now, pt_minute now)"
  have m: "m < 1440"
    using assms(3) by (auto simp: m_def minutes_def valid_time_def)
  have split: "minutes_since (minutes a) k = (if minutes a \<le> k then k - minutes a else k + 1440 - minutes a)" if "k < 1440" for k
    using that assms(1) minutes_since_after minutes_since_before by auto
  show ?thesis
    using m assms(1,2) by (auto simp: in_hours_def Let_def split simp flip: m_def)
qed

text \<open>
  Readable hours of a policy are an arc of the clock, an hour before midnight or not: on a day that the weekend
  mode leaves to the hours, a policy is active exactly when no more minutes have gone by since the start, around the
  clock, than lie between the start and the end.
\<close>

theorem schedule_circular:
  assumes "dict_get_or d ''active_hours'' VNone = VStr s" and "read_hours s = Some (Hours a b)" and "d \<noteq> []" and "s \<noteq> []"
    and "valid_time now" and "pt_weekday now < 5 \<or> dict_get_or d ''weekend'' (VStr ''inherit'') = VStr ''inherit''"
  shows "is_within_schedule (VDict d) now =
    Some (minutes_since (minutes a) (minutes (pt_hour now, pt_minute now)) \<le> minutes_since (minutes a) (minutes b))"
proof -
  have "is_within_schedule (VDict d) now = Some (in_hours now (Hours a b))"
    using assms by (auto simp: is_within_schedule_def Let_def)
  then show ?thesis
    using in_hours_arc read_hours_bound [OF assms(2)] assms(5) by auto
qed

definition night_shift :: "(string, pval) dict" where
  "night_shift = [(''active_hours'', VStr ''22:00-06:00 UTC'')]"

definition at_half_past_eleven :: point_in_time where
  "at_half_past_eleven = \<lparr>pt_weekday = 0, pt_hour = 23, pt_minute = 30\<rparr>"

lemma night_hours: "read_hours ''22:00-06:00 UTC'' = Some (Hours (22, 0) (6, 0))"
  by code_simp

lemma schedule_circular_witness:
  "is_within_schedule (VDict night_shift) at_half_past_eleven = Some True"
  using schedule_circular [of night_shift "''22:00-06:00 UTC''" "(22, 0)" "(6, 0)" at_half_past_eleven] night_hours
  by (simp add: night_shift_def at_half_past_eleven_def valid_time_def minutes_since_def minutes_def dict_get_or_def)

text \<open>Hours that cannot be read limit nothing, although validation accepts them; a dash with no end is an exception.\<close>

lemma unreadable_hours_always_active:
  "hours_format ''99:00-99:30 UTC'' \<and> is_within_schedule (VDict [(''active_hours'', VStr ''99:00-99:30 UTC'')]) now = Some True"
proof -
  have "hours_format ''99:00-99:30 UTC''" and "read_hours ''99:00-99:30 UTC'' = Some Unlimited"
    by code_simp+
  then show ?thesis
    by (simp add: is_within_schedule_def Let_def in_hours_def dict_get_or_def)
qed

lemma open_hours_raise: "pt_weekday now < 5 \<Longrightarrow> is_within_schedule (VDict [(''active_hours'', VStr ''09:00-'')]) now = None"
proof -
  assume "pt_weekday now < 5"
  moreover have "read_hours ''09:00-'' = None"
    by code_simp
  ultimately show ?thesis
    by (simp add: is_within_schedule_def Let_def dict_get_or_def)
qed

section \<open>Severity\<close>

text \<open>What the policies ask for, in order: stop, or a severity.\<close>

datatype act = Stop | Ask string

definition rule_acts :: "pval \<Rightarrow> pval \<Rightarrow> act list" where
  "rule_acts name v =
     (case v of
        VDict r \<Rightarrow>
          if \<not> names_event name r then []
          else if \<not> rule_enabled r then [Stop]
          else (case override_of r of Some (Some s) \<Rightarrow> [Ask s] | _ \<Rightarrow> [])
      | _ \<Rightarrow> [])"

definition policy_acts :: "pval \<Rightarrow> string list \<Rightarrow> string option \<Rightarrow> point_in_time \<Rightarrow> policy \<Rightarrow> act list" where
  "policy_acts name tags framework now p =
     (if \<not> pl_enabled p \<or> \<not> match_policy_to_agent p tags framework then []
      else if is_within_schedule (dict_get_or (pl_definition p) ''schedule'' VNone) now = Some False then [Stop]
      else case policy_rules p of None \<Rightarrow> [] | Some rules \<Rightarrow> concat (map (rule_acts name) rules))"

definition asked_before_stop :: "act list \<Rightarrow> string list" where
  "asked_before_stop acts = concat (map (\<lambda>a. case a of Stop \<Rightarrow> [] | Ask s \<Rightarrow> [s]) (takeWhile (\<lambda>a. a \<noteq> Stop) acts))"

definition last_or :: "pval \<Rightarrow> string list \<Rightarrow> pval" where
  "last_or v ss = (if ss = [] then v else VStr (last ss))"

lemma asked_before_stop_simps [simp]:
  "asked_before_stop [] = []"
  "asked_before_stop (Stop # as) = []"
  "asked_before_stop (Ask s # as) = s # asked_before_stop as"
  by (simp_all add: asked_before_stop_def)

lemma asked_before_stop_append:
  "asked_before_stop (as @ bs) = (if Stop \<in> set as then asked_before_stop as else asked_before_stop as @ asked_before_stop bs)"
proof (induction as)
  case (Cons a as)
  then show ?case by (cases a) auto
qed simp

lemma last_or_append: "last_or v (as @ bs) = last_or (last_or v as) bs"
  by (simp add: last_or_def)

text \<open>The three keys of an event that the theorem speaks of, and how the steps change them.\<close>

definition view :: "event_doc \<Rightarrow> pval \<times> pval \<times> bool" where
  "view e = (dict_get_or e ''rule_name'' (VStr []), dict_get_or e ''severity'' VNone, suppressed e)"

lemma view_add_metadata: "add_metadata e entry = Some e' \<Longrightarrow> view e' = view e"
  by (auto simp: add_metadata_def view_def suppressed_def dict_get_or_set split: pval.splits)

lemma view_set_notifications: "view (set_notifications v e) = view e"
  by (auto simp: set_notifications_def view_def suppressed_def dict_get_or_set split: pval.splits)

lemma view_merge_parameters: "merge_parameters v e = Some e' \<Longrightarrow> view e' = view e"
  by (auto simp: merge_parameters_def view_def suppressed_def dict_get_or_set split: pval.splits if_splits)

lemma view_set_severity:
  "view (set_severity sev e) = (fst (view e), (case sev of None \<Rightarrow> fst (snd (view e)) | Some s \<Rightarrow> VStr s), snd (snd (view e)))"
  by (auto simp: set_severity_def view_def suppressed_def dict_get_or_set split: option.splits)

lemma view_suppress: "view (suppress reason e) = (fst (view e), fst (snd (view e)), True)"
  by (simp add: suppress_def view_def suppressed_def dict_get_or_set)

lemma view_apply_rule:
  assumes "apply_rule p r e = Some e'"
  shows "\<exists>sev. override_of r = Some sev \<and> view e' = view (set_severity sev e)"
  using assms by (auto simp: apply_rule_def view_set_notifications dest!: view_add_metadata view_merge_parameters split: option.splits)

lemma view_apply_rules:
  assumes "apply_rules p name vs matched e = Some e'" and "view e = (n, v, False)"
  shows "view e' = (n, last_or v (asked_before_stop (concat (map (rule_acts name) vs))), Stop \<in> set (concat (map (rule_acts name) vs)))"
  using assms
proof (induction p name vs matched e arbitrary: v rule: apply_rules.induct)
  case (1 p name matched e)
  then show ?case by (auto simp: last_or_def dest: view_add_metadata split: if_splits)
next
  case (2 p name w vs matched e)
  from "2.prems"(1) obtain r where w: "w = VDict r" by (auto split: pval.splits)
  consider (other) "\<not> names_event name r" | (off) "names_event name r" "\<not> rule_enabled r" | (on) "names_event name r" "rule_enabled r"
    by blast
  then show ?case
  proof cases
    case other
    with "2.IH"(1) [OF w other] "2.prems" w show ?thesis by (simp add: rule_acts_def)
  next
    case off
    with "2.prems" w show ?thesis
      by (auto simp: rule_acts_def last_or_def view_suppress dest!: view_add_metadata)
  next
    case on
    with "2.prems"(1) w obtain e1 where e1: "apply_rule p r e = Some e1" and rest: "apply_rules p name vs True e1 = Some e'"
      by (auto split: option.splits)
    from view_apply_rule [OF e1] obtain sev where sev: "override_of r = Some sev" and v1: "view e1 = view (set_severity sev e)"
      by blast
    have view1: "view e1 = (n, (case sev of None \<Rightarrow> v | Some s \<Rightarrow> VStr s), False)"
      using v1 "2.prems"(2) by (simp add: view_set_severity cong: option.case_cong)
    have "view e' = (n, last_or (case sev of None \<Rightarrow> v | Some s \<Rightarrow> VStr s) (asked_before_stop (concat (map (rule_acts name) vs))),
      Stop \<in> set (concat (map (rule_acts name) vs)))"
      using "2.IH"(2) [OF w] on e1 rest view1 by simp
    moreover have "rule_acts name w = (case sev of None \<Rightarrow> [] | Some s \<Rightarrow> [Ask s])"
      using on sev w by (simp add: rule_acts_def)
    ultimately show ?thesis
      by (cases sev) (auto simp: last_or_def)
  qed
qed

lemma view_apply_policy_rules:
  assumes "apply_policy_rules e p now = Some e'" and "view e = (n, v, False)" and "pl_enabled p" and "match_policy_to_agent p tags framework"
  shows "view e' = (n, last_or v (asked_before_stop (policy_acts n tags framework now p)), Stop \<in> set (policy_acts n tags framework now p))"
proof (cases "is_within_schedule (dict_get_or (pl_definition p) ''schedule'' VNone) now = Some False")
  case True
  with assms show ?thesis
    by (auto simp: apply_policy_rules_def policy_acts_def view_suppress last_or_def dest!: view_add_metadata)
next
  case False
  with assms(1) obtain rules where rules: "policy_rules p = Some rules"
    and run: "apply_rules p (dict_get_or e ''rule_name'' (VStr [])) rules False e = Some e'"
    by (auto simp: apply_policy_rules_def split: option.splits bool.splits)
  have "dict_get_or e ''rule_name'' (VStr []) = n"
    using assms(2) by (simp add: view_def)
  with view_apply_rules [OF run assms(2)] rules False assms(3,4) show ?thesis
    by (simp add: policy_acts_def)
qed

lemma view_apply_policies:
  assumes "apply_policies_to_event e ps tags framework now = Some e'" and "view e = (n, v, False)"
  shows "view e' = (n, last_or v (asked_before_stop (concat (map (policy_acts n tags framework now) ps))),
    Stop \<in> set (concat (map (policy_acts n tags framework now) ps)))"
  using assms
proof (induction e ps tags framework now arbitrary: v rule: apply_policies_to_event.induct)
  case (1 e tags framework now)
  then show ?case by (simp add: last_or_def)
next
  case (2 e p ps tags framework now)
  show ?case
  proof (cases "\<not> pl_enabled p \<or> \<not> match_policy_to_agent p tags framework")
    case True
    then have "policy_acts n tags framework now p = []"
      by (simp add: policy_acts_def)
    with "2.IH"(1) True "2.prems" show ?thesis by simp
  next
    case False
    with "2.prems"(1) obtain e1 where e1: "apply_policy_rules e p now = Some e1"
      and rest: "(if suppressed e1 then Some e1 else apply_policies_to_event e1 ps tags framework now) = Some e'"
      by (auto split: option.splits)
    let ?acts = "policy_acts n tags framework now p"
    have v1: "view e1 = (n, last_or v (asked_before_stop ?acts), Stop \<in> set ?acts)"
      using view_apply_policy_rules [OF e1 "2.prems"(2)] False by simp
    then have s1: "suppressed e1 \<longleftrightarrow> Stop \<in> set ?acts"
      by (simp add: view_def)
    show ?thesis
    proof (cases "Stop \<in> set ?acts")
      case True
      with rest s1 v1 show ?thesis by (simp add: asked_before_stop_append)
    next
      case no: False
      with rest s1 have "apply_policies_to_event e1 ps tags framework now = Some e'" by simp
      with "2.IH"(2) [OF False e1] s1 no v1 show ?thesis
        by (simp add: asked_before_stop_append last_or_append)
    qed
  qed
qed

text \<open>
  C27: The severity of an event after its policies is the one that the last enabled rule with the event's name asked
  for, in the order of the policies in force for the agent, before the first disabled rule or the first policy outside
  its hours; the event is suppressed exactly when there is such a rule or policy.
\<close>

theorem severity_is_last_asked:
  assumes "apply_policies_to_event e ps tags framework now = Some e'" and "\<not> suppressed e"
    and "acts = concat (map (policy_acts (dict_get_or e ''rule_name'' (VStr [])) tags framework now) ps)"
  shows "dict_get_or e' ''severity'' VNone = last_or (dict_get_or e ''severity'' VNone) (asked_before_stop acts) \<and>
    (suppressed e' \<longleftrightarrow> Stop \<in> set acts)"
proof -
  have "view e = (dict_get_or e ''rule_name'' (VStr []), dict_get_or e ''severity'' VNone, False)"
    using assms(2) by (simp add: view_def)
  from view_apply_policies [OF assms(1) this] show ?thesis
    unfolding assms(3) by (simp add: view_def)
qed

definition quiet_rule :: "string \<Rightarrow> string \<Rightarrow> policy" where
  "quiet_rule i sev = \<lparr>pl_id = i, pl_tenant = ''t'', pl_name = i, pl_description = [], pl_version = 1, pl_enabled = True,
     pl_definition = [(''rules'', VList [VDict [(''name'', VStr ''exfil''), (''severity_override'', VStr sev)]])],
     pl_tags = [], pl_frameworks = [], pl_deleted = False\<rparr>"

definition exfil_event :: event_doc where
  "exfil_event = [(''rule_name'', VStr ''exfil''), (''severity'', VStr ''high'')]"

definition exfil_after :: event_doc where
  "exfil_after = the (apply_policies_to_event exfil_event [quiet_rule ''a'' ''medium'', quiet_rule ''b'' ''low''] [] None at_half_past_eleven)"

lemma exfil_after_run:
  "apply_policies_to_event exfil_event [quiet_rule ''a'' ''medium'', quiet_rule ''b'' ''low''] [] None at_half_past_eleven = Some exfil_after"
proof -
  have "apply_policies_to_event exfil_event [quiet_rule ''a'' ''medium'', quiet_rule ''b'' ''low''] [] None at_half_past_eleven \<noteq> None"
    by code_simp
  then show ?thesis by (auto simp: exfil_after_def)
qed

lemma severity_is_last_asked_witness: "dict_get_or exfil_after ''severity'' VNone = VStr ''low''"
proof -
  have acts: "asked_before_stop (concat (map (policy_acts (dict_get_or exfil_event ''rule_name'' (VStr [])) [] None at_half_past_eleven)
      [quiet_rule ''a'' ''medium'', quiet_rule ''b'' ''low''])) = [''medium'', ''low'']"
    and "\<not> suppressed exfil_event"
    by code_simp+
  with severity_is_last_asked [OF exfil_after_run] show ?thesis
    by (simp add: last_or_def)
qed

text \<open>The severity before the first policy is lost when a second one asks for another.\<close>

lemma original_severity_lost: "dict_get_or exfil_after ''_original_severity'' VNone = VStr ''medium''"
  unfolding exfil_after_def by code_simp

section \<open>The two readings of a scope\<close>

text \<open>The policies of the query are in the engine's scope, not the other way round.\<close>

lemma query_within_engine:
  assumes "p \<in> set (get_policies_for_agent tenant tags framework st)" and "[] \<notin> set (pl_frameworks p)"
  shows "match_policy_to_agent p tags (Some framework)"
  using assms by (auto simp: get_policies_for_agent_def match_policy_to_agent_def overlap_def list_ex_iff)

lemma engine_beyond_query:
  "match_policy_to_agent ((quiet_rule ''a'' ''low'')\<lparr>pl_tags := [''prod''], pl_frameworks := [''crewai'']\<rparr>) [''prod''] (Some ''langchain'') \<and>
   get_policies_for_agent ''t'' [''prod''] ''langchain''
     \<lparr>ps_policies = [(quiet_rule ''a'' ''low'')\<lparr>pl_tags := [''prod''], pl_frameworks := [''crewai'']\<rparr>], ps_versions = []\<rparr> = []"
  by code_simp

section \<open>History\<close>

datatype policy_op =
  Create_Policy string string string policy_request
| Update_Policy string string string policy_update
| Delete_Policy string string string

fun policy_step :: "policy_store \<Rightarrow> policy_op \<Rightarrow> policy_store" where
  "policy_step st (Create_Policy role i tenant r) = snd (create_policy_endpoint role i tenant r st)"
| "policy_step st (Update_Policy role i tenant r) = snd (update_policy_endpoint role i tenant r st)"
| "policy_step st (Delete_Policy role i tenant) = snd (delete_policy_endpoint role i tenant st)"

definition versions_of :: "string \<Rightarrow> policy_store \<Rightarrow> policy_version list" where
  "versions_of i st = filter (\<lambda>v. pv_policy v = i) (ps_versions st)"

definition history_of :: "policy \<Rightarrow> policy_version list \<Rightarrow> bool" where
  "history_of p vs \<longleftrightarrow> map pv_version vs = [1..<Suc (pl_version p)] \<and> list_all (\<lambda>v. pv_tenant v = pl_tenant p) vs \<and>
     vs \<noteq> [] \<and> pv_definition (last vs) = pl_definition p"

definition policies_ok :: "policy_store \<Rightarrow> bool" where
  "policies_ok st \<longleftrightarrow> distinct (map pl_id (ps_policies st)) \<and> pv_policy ` set (ps_versions st) \<subseteq> pl_id ` set (ps_policies st) \<and>
     (\<forall>p \<in> set (ps_policies st). history_of p (versions_of (pl_id p) st))"

lemma policy_history_snoc:
  assumes "history_of p vs" and "pl_tenant p' = pl_tenant p" and "pl_version p' = Suc (pl_version p)"
    and "pv_version v = Suc (pl_version p)" and "pv_tenant v = pl_tenant p" and "pv_definition v = pl_definition p'"
  shows "history_of p' (vs @ [v])"
  using assms by (auto simp: history_of_def)

lemma history_cong:
  "pl_tenant p' = pl_tenant p \<Longrightarrow> pl_version p' = pl_version p \<Longrightarrow> pl_definition p' = pl_definition p \<Longrightarrow>
   history_of p' vs = history_of p vs"
  by (simp add: history_of_def)

lemma history_single:
  "pl_version p = 1 \<Longrightarrow> pv_version v = 1 \<Longrightarrow> pv_tenant v = pl_tenant p \<Longrightarrow> pv_definition v = pl_definition p \<Longrightarrow> history_of p [v]"
  by (simp add: history_of_def)

lemma policies_ok_create:
  assumes "policies_ok st" and "create_policy i tenant r st = Some (p, st')"
  shows "policies_ok st'"
proof -
  define v where "v = \<lparr>pv_policy = i, pv_tenant = tenant, pv_version = 1, pv_definition = rq_definition r, pv_summary = ''Initial creation''\<rparr>"
  from assms(2) have st': "st' = st\<lparr>ps_policies := ps_policies st @ [p], ps_versions := ps_versions st @ [v]\<rparr>"
    and fresh: "i \<notin> pl_id ` set (ps_policies st)"
    and p: "pl_id p = i" "pl_version p = 1" "pl_tenant p = tenant" "pl_definition p = rq_definition r"
    by (auto simp: create_policy_def add_version_def v_def Let_def list_ex_iff split: if_splits)
  have none: "versions_of i st = []"
    using assms(1) fresh by (auto simp: policies_ok_def versions_of_def filter_empty_conv)
  have "history_of q (versions_of (pl_id q) st')" if "q \<in> set (ps_policies st')" for q
  proof (cases "q = p")
    case True
    with none show ?thesis
      by (auto simp: st' versions_of_def v_def p intro!: history_single)
  next
    case False
    with that have q: "q \<in> set (ps_policies st)" by (simp add: st')
    with fresh have "pl_id q \<noteq> i" by auto
    with q assms(1) show ?thesis
      by (simp add: st' versions_of_def v_def policies_ok_def)
  qed
  with assms(1) fresh show ?thesis
    by (auto simp: policies_ok_def st' v_def p)
qed

lemma get_policy_row_in:
  "get_policy_row tenant i st = Some p \<Longrightarrow> p \<in> set (ps_policies st) \<and> pl_id p = i \<and> pl_tenant p = tenant \<and> \<not> pl_deleted p"
  by (auto simp: get_policy_row_def find_Some_iff)

lemma distinct_id: "distinct (map pl_id ps) \<Longrightarrow> p \<in> set ps \<Longrightarrow> q \<in> set ps \<Longrightarrow> pl_id p = pl_id q \<Longrightarrow> p = q"
  by (auto simp: distinct_map dest: inj_onD)

lemma policies_ok_update:
  assumes "policies_ok st" and "update_policy tenant i r st = Some (Some (p', st'))"
  shows "policies_ok st'"
proof -
  obtain p where p: "get_policy_row tenant i st = Some p"
    using assms(2) by (auto simp: update_policy_def split: option.splits)
  note row = get_policy_row_in [OF p]
  define v where "v = \<lparr>pv_policy = i, pv_tenant = tenant, pv_version = pl_version p', pv_definition = pl_definition p',
    pv_summary = version_summary r (pl_version p')\<rparr>"
  from assms(2) p have st': "st' = st\<lparr>ps_policies := map (\<lambda>x. if pl_id x = i then p' else x) (ps_policies st), ps_versions := ps_versions st @ [v]\<rparr>"
    and p': "p' = updated_policy r p"
    by (auto simp: update_policy_def add_version_def v_def Let_def split: if_splits)
  have keys: "map pl_id (ps_policies st') = map pl_id (ps_policies st)"
    using row by (auto simp: st' p' updated_policy_def)
  have "history_of q (versions_of (pl_id q) st')" if "q \<in> set (ps_policies st')" for q
  proof (cases "pl_id q = i")
    case True
    with that row have q: "q = p'" by (auto simp: st' split: if_splits)
    have "history_of p (versions_of i st)"
      using assms(1) row by (auto simp: policies_ok_def)
    then have "history_of p' (versions_of i st @ [v])"
      by (rule policy_history_snoc) (auto simp: p' updated_policy_def v_def row)
    with True q show ?thesis
      by (simp add: st' versions_of_def v_def)
  next
    case False
    with that have q: "q \<in> set (ps_policies st)"
      using row by (auto simp: st' p' updated_policy_def split: if_splits)
    with False assms(1) show ?thesis
      by (simp add: st' versions_of_def v_def policies_ok_def)
  qed
  moreover have "pv_policy ` set (ps_versions st') \<subseteq> pl_id ` set (ps_policies st')"
  proof -
    from arg_cong [OF keys, of set] have "pl_id ` set (ps_policies st') = pl_id ` set (ps_policies st)"
      by simp
    moreover have "pv_policy ` set (ps_versions st') = insert i (pv_policy ` set (ps_versions st))"
      by (simp add: st' v_def)
    ultimately show ?thesis
      using assms(1) row by (auto simp: policies_ok_def)
  qed
  ultimately show ?thesis
    using assms(1) keys by (simp add: policies_ok_def)
qed

lemma policies_ok_map:
  assumes "policies_ok st" and "\<And>x. pl_id (f x) = pl_id x" and "\<And>x vs. history_of (f x) vs = history_of x vs"
  shows "policies_ok (st\<lparr>ps_policies := map f (ps_policies st)\<rparr>)"
  using assms by (auto simp: policies_ok_def versions_of_def comp_def image_image)

lemma policies_ok_delete:
  assumes "policies_ok st"
  shows "policies_ok (snd (delete_policy tenant i st))"
proof (cases "get_policy_row tenant i st")
  case None
  with assms show ?thesis by (simp add: delete_policy_def)
next
  case (Some p)
  have "policies_ok (st\<lparr>ps_policies :=
      map (\<lambda>x. if pl_id x = i then x\<lparr>pl_deleted := True, pl_enabled := False\<rparr> else x) (ps_policies st)\<rparr>)"
    by (rule policies_ok_map [OF assms]) (simp_all add: history_of_def)
  with Some show ?thesis by (simp add: delete_policy_def)
qed

lemma policies_ok_step: "policies_ok st \<Longrightarrow> policies_ok (policy_step st op)"
proof (induction st op rule: policy_step.induct)
  case (1 st role i tenant r)
  then show ?case
    by (auto simp: create_policy_endpoint_def intro: policies_ok_create split: option.splits)
next
  case (2 st role i tenant r)
  then show ?case
    by (auto simp: update_policy_endpoint_def intro: policies_ok_update split: option.splits)
next
  case (3 st role i tenant)
  then show ?case
    using policies_ok_delete [of st tenant i] by (auto simp: delete_policy_endpoint_def split: prod.splits)
qed

interpretation policy_machine: machine policy_step policies_ok
  by unfold_locales (rule policies_ok_step)

lemma policies_ok_empty: "policies_ok \<lparr>ps_policies = [], ps_versions = []\<rparr>"
  by (simp add: policies_ok_def)

text \<open>
  C26: After any requests that create, change and delete policies, refused ones included, the history of each policy of
  a tenant, deleted or not, has the versions from the current one down to 1 without a gap, and its newest snapshot is
  the definition in force.
\<close>

theorem versions_complete:
  assumes "p \<in> set (ps_policies (foldl policy_step \<lparr>ps_policies = [], ps_versions = []\<rparr> ops))"
    and "vs = get_policy_versions (pl_tenant p) (pl_id p) (foldl policy_step \<lparr>ps_policies = [], ps_versions = []\<rparr> ops)"
  shows "map pv_version vs = rev [1..<Suc (pl_version p)] \<and> vs \<noteq> [] \<and> pv_definition (hd vs) = pl_definition p"
proof -
  let ?st = "foldl policy_step \<lparr>ps_policies = [], ps_versions = []\<rparr> ops"
  have "policies_ok ?st"
    by (rule policy_machine.inv_run [OF policies_ok_empty])
  with assms(1) have hist: "history_of p (versions_of (pl_id p) ?st)"
    by (auto simp: policies_ok_def)
  have "filter (\<lambda>v. pv_policy v = pl_id p \<and> pv_tenant v = pl_tenant p) (ps_versions ?st)
      = filter (\<lambda>v. pv_tenant v = pl_tenant p) (versions_of (pl_id p) ?st)"
    by (simp add: versions_of_def conj_commute)
  also have "\<dots> = versions_of (pl_id p) ?st"
    using hist by (auto simp: history_of_def list_all_iff filter_id_conv)
  finally have "vs = rev (sort_key pv_version (versions_of (pl_id p) ?st))"
    using assms(2) by (simp add: get_policy_versions_def)
  also have "sort_key pv_version (versions_of (pl_id p) ?st) = versions_of (pl_id p) ?st"
    using hist by (intro sort_key_id_if_sorted) (simp add: history_of_def del: upt_Suc)
  finally show ?thesis
    using hist by (auto simp: history_of_def hd_rev simp flip: rev_map simp del: upt_Suc)
qed

definition first_request :: policy_request where
  "first_request = \<lparr>rq_name = ''night'', rq_description = [], rq_enabled = True, rq_definition = [], rq_tags = [], rq_frameworks = []\<rparr>"

definition second_request :: policy_update where
  "second_request = \<lparr>ru_name = None, ru_description = None, ru_enabled = None,
     ru_definition = Some ([(''rules'', VList [])], [], []), ru_summary = []\<rparr>"

definition policy_requests :: "policy_op list" where
  "policy_requests = [Create_Policy ''admin'' ''p'' ''t'' first_request, Update_Policy ''analyst'' ''p'' ''t'' second_request]"

lemma versions_complete_witness:
  "map pv_version (get_policy_versions ''t'' ''p'' (foldl policy_step \<lparr>ps_policies = [], ps_versions = []\<rparr> policy_requests)) = [2, 1]"
proof -
  let ?p = "\<lparr>pl_id = ''p'', pl_tenant = ''t'', pl_name = ''night'', pl_description = [], pl_version = 2, pl_enabled = True,
     pl_definition = [(''rules'', VList [])], pl_tags = [], pl_frameworks = [], pl_deleted = False\<rparr>"
  have "?p \<in> set (ps_policies (foldl policy_step \<lparr>ps_policies = [], ps_versions = []\<rparr> policy_requests))"
    by code_simp
  from versions_complete [OF this refl] show ?thesis
    by (simp add: upt_rec)
qed

text \<open>Applying a policy changes nothing; renaming one to a name in use is an error of the server.\<close>

lemma rename_to_taken_name:
  assumes "policy_role role" and "get_policy_row tenant i st = Some p" and "ru_definition r = None"
    and "ru_name r = Some name" and "name_taken i tenant name st"
  shows "update_policy_endpoint role i tenant r st = (Inl 500, st)"
  using assms by (simp add: update_policy_endpoint_def update_policy_def updated_policy_def Let_def)

end
