(* ===== verification/Purposes.thy ===== *)
theory Purposes
  imports Complex_Main Interfaces
begin

text \<open>
  What an agent is hired to do, and what follows for its tool calls and its delegations:
  \<open>ml/content/policy/agent_purpose.py\<close>, \<open>tool_policy.py\<close>, \<open>delegation_policy.py\<close>, and the rule function that asks,
  \<open>ml/content/integration/prl_functions.py\<close>. Which store an engine holds is explicit, because the constructors
  replace an empty one.
\<close>

section \<open>The store\<close>

record agent_purpose =
  ap_agent :: string
  ap_tenant :: string
  ap_role :: string
  ap_allowed :: "string list"
  ap_denied :: "string list"
  ap_depth :: int

record purpose_store =
  pu_entries :: "(string \<times> string, agent_purpose) dict"
  pu_max :: nat

definition new_purposes :: "nat \<Rightarrow> purpose_store" where
  "new_purposes n = \<lparr>pu_entries = [], pu_max = n\<rparr>"

text \<open>The entry that was registered first goes, although a later update of it kept its place.\<close>

definition register_purpose :: "agent_purpose \<Rightarrow> purpose_store \<Rightarrow> purpose_store" where
  "register_purpose p st =
     (let d = dict_set (ap_tenant p, ap_agent p) p (pu_entries st)
      in st\<lparr>pu_entries := if pu_max st < length d then dict_del (fst (hd d)) d else d\<rparr>)"

definition get_purpose :: "string \<Rightarrow> string \<Rightarrow> purpose_store \<Rightarrow> agent_purpose option" where
  "get_purpose tenant agent st = dict_get (pu_entries st) (tenant, agent)"

definition remove_purpose :: "string \<Rightarrow> string \<Rightarrow> purpose_store \<Rightarrow> bool \<times> purpose_store" where
  "remove_purpose tenant agent st =
     (get_purpose tenant agent st \<noteq> None, st\<lparr>pu_entries := dict_del (tenant, agent) (pu_entries st)\<rparr>)"

definition purposes_of_tenant :: "string \<Rightarrow> purpose_store \<Rightarrow> agent_purpose list" where
  "purposes_of_tenant tenant st = map snd (filter (\<lambda>(k, p). fst k = tenant) (pu_entries st))"

text \<open>\<open>purpose_store or PurposeStore()\<close>: a store without entries is false, so that the engine makes one of its own.\<close>

datatype purpose_ref = Given | Own purpose_store

definition engine_store :: "purpose_store option \<Rightarrow> purpose_ref" where
  "engine_store st = (case st of Some s \<Rightarrow> if pu_entries s = [] then Own (new_purposes 50000) else Given | None \<Rightarrow> Own (new_purposes 50000))"

definition store_at :: "purpose_ref \<Rightarrow> purpose_store \<Rightarrow> purpose_store" where
  "store_at r st = (case r of Given \<Rightarrow> st | Own s \<Rightarrow> s)"

section \<open>Tool calls\<close>

datatype tool_decision = Tool_Allow | Tool_Deny | Tool_Alert | Tool_Monitor

datatype tool_reason = No_Purpose | In_Denied | In_Allowed | Fits_Role | Outside_Role | Uncertain

record tool_verdict =
  tv_decision :: tool_decision
  tv_reason :: tool_reason
  tv_score :: rat
  tv_found :: bool

definition ROLE_TOOL_MAP :: "(string, string list) dict" where
  "ROLE_TOOL_MAP =
     [(''document_summarizer'', [''read_file'', ''search'', ''summarize'', ''translate'']),
      (''customer_support'', [''search_kb'', ''send_email'', ''create_ticket'', ''lookup_account'']),
      (''security_research'', [''read_file'', ''write_file'', ''execute_command'', ''network_scan'', ''vulnerability_scan'',
         ''exploit_test'', ''code_review'']),
      (''code_assistant'', [''read_file'', ''write_file'', ''search'', ''execute_command'', ''lint'', ''test'', ''compile'']),
      (''data_analyst'', [''query_database'', ''read_file'', ''chart'', ''export_csv'', ''search''])]"

definition tool_prefix :: "string \<Rightarrow> string" where
  "tool_prefix tool = (if CHR ''_'' \<in> set tool then hd (split_on (CHR ''_'') tool) else tool)"

definition role_heuristic :: "(string, string list) dict \<Rightarrow> string \<Rightarrow> string \<Rightarrow> rat" where
  "role_heuristic roles role tool =
     (case dict_get roles role of
        None \<Rightarrow> 1 / 2
      | Some expected \<Rightarrow>
          if tool \<in> set expected then 0
          else if list_ex (starts_with (tool_prefix tool)) expected then 1 / 5
          else 9 / 10)"

definition tool_evaluate :: "(string, string list) dict \<Rightarrow> purpose_store \<Rightarrow> string \<Rightarrow> string \<Rightarrow> string \<Rightarrow> tool_verdict" where
  "tool_evaluate roles st tenant agent tool =
     (case get_purpose tenant agent st of
        None \<Rightarrow> \<lparr>tv_decision = Tool_Monitor, tv_reason = No_Purpose, tv_score = 0, tv_found = False\<rparr>
      | Some p \<Rightarrow>
          if tool \<in> set (ap_denied p) then \<lparr>tv_decision = Tool_Deny, tv_reason = In_Denied, tv_score = 1, tv_found = True\<rparr>
          else if tool \<in> set (ap_allowed p) then \<lparr>tv_decision = Tool_Allow, tv_reason = In_Allowed, tv_score = 0, tv_found = True\<rparr>
          else
            (let s = role_heuristic roles (ap_role p) tool
             in if s \<le> 3 / 10 then \<lparr>tv_decision = Tool_Allow, tv_reason = Fits_Role, tv_score = s, tv_found = True\<rparr>
                else if 8 / 10 \<le> s then \<lparr>tv_decision = Tool_Alert, tv_reason = Outside_Role, tv_score = s, tv_found = True\<rparr>
                else \<lparr>tv_decision = Tool_Monitor, tv_reason = Uncertain, tv_score = s, tv_found = True\<rparr>))"

text \<open>The function of the rule language; the engine it asks is made on first use, unless one is configured.\<close>

definition tool_policy_ref :: "purpose_ref option \<Rightarrow> purpose_ref" where
  "tool_policy_ref configured = (case configured of Some r \<Rightarrow> r | None \<Rightarrow> engine_store None)"

definition fn_tool_authorized :: "purpose_ref option \<Rightarrow> purpose_store \<Rightarrow> string \<Rightarrow> string list \<Rightarrow> bool" where
  "fn_tool_authorized configured st tenant args =
     (case args of
        agent # tool # _ \<Rightarrow>
          tv_decision (tool_evaluate ROLE_TOOL_MAP (store_at (tool_policy_ref configured) st) tenant agent tool)
            \<in> {Tool_Allow, Tool_Monitor}
      | _ \<Rightarrow> True)"

section \<open>Delegations\<close>

datatype delegation_decision = Delegate_Allow | Delegate_Deny | Delegate_Alert

datatype delegation_reason =
  Circular | Global_Depth | Source_Unknown | Agent_Depth | Target_Unknown | Approved

definition delegation_evaluate ::
  "nat \<Rightarrow> purpose_store \<Rightarrow> string \<Rightarrow> string \<Rightarrow> string \<Rightarrow> string list \<Rightarrow> delegation_decision \<times> delegation_reason" where
  "delegation_evaluate max_depth st tenant source target chain =
     (if target \<in> set chain then (Delegate_Deny, Circular)
      else if max_depth \<le> length chain then (Delegate_Deny, Global_Depth)
      else case get_purpose tenant source st of
             None \<Rightarrow> (Delegate_Alert, Source_Unknown)
           | Some p \<Rightarrow>
               if ap_depth p \<le> int (length chain) then (Delegate_Deny, Agent_Depth)
               else if get_purpose tenant target st = None then (Delegate_Alert, Target_Unknown)
               else (Delegate_Allow, Approved))"

text \<open>A chain grows by each request that is not denied; its first element is the one who asked first.\<close>

inductive delegates :: "nat \<Rightarrow> purpose_store \<Rightarrow> string \<Rightarrow> string list \<Rightarrow> bool" for n st tenant where
  start: "delegates n st tenant [agent]"
| extend: "delegates n st tenant chain \<Longrightarrow> fst (delegation_evaluate n st tenant (last chain) target chain) \<noteq> Delegate_Deny \<Longrightarrow>
    delegates n st tenant (chain @ [target])"

inductive_cases delegates_snocE: "delegates n st tenant (chain @ [target])"

end
