(* ===== verification/Purposes_Props.thy ===== *)
theory Purposes_Props
  imports Purposes
begin

text \<open>
  Properties of purposes: the store is bounded and isolated, a denied tool is denied as long as the purpose is stored,
  the role heuristic lets through more than the role, an engine made on an empty store never sees a purpose, and
  delegation chains are bounded.
\<close>

section \<open>The store\<close>

definition purposes_ok :: "purpose_store \<Rightarrow> bool" where
  "purposes_ok st \<longleftrightarrow> dict_wf (pu_entries st) \<and> length (pu_entries st) \<le> pu_max st \<and>
     list_all (\<lambda>(k, p). k = (ap_tenant p, ap_agent p)) (pu_entries st)"

datatype purpose_op = Register_Purpose agent_purpose | Remove_Purpose string string

fun purpose_step :: "purpose_store \<Rightarrow> purpose_op \<Rightarrow> purpose_store" where
  "purpose_step st (Register_Purpose p) = register_purpose p st"
| "purpose_step st (Remove_Purpose tenant agent) = snd (remove_purpose tenant agent st)"

lemma length_dict_del_hd: "d \<noteq> [] \<Longrightarrow> length (dict_del (fst (hd d)) d) < length d"
  by (cases d) (auto simp: dict_del_def less_Suc_eq_le)

lemma list_all_dict_del: "list_all P d \<Longrightarrow> list_all P (dict_del k d)"
  by (auto simp: list_all_iff dict_del_def)

lemma purposes_ok_step: "purposes_ok st \<Longrightarrow> purposes_ok (purpose_step st c)"
proof (induction st c rule: purpose_step.induct)
  case (1 st p)
  let ?d = "dict_set (ap_tenant p, ap_agent p) p (pu_entries st)"
  have "length ?d \<le> Suc (pu_max st)"
    using 1 by (auto simp: purposes_ok_def length_dict_set)
  moreover have "length (dict_del (fst (hd ?d)) ?d) < length ?d"
    by (rule length_dict_del_hd) simp
  ultimately show ?case
    using 1 by (auto simp: purposes_ok_def register_purpose_def Let_def intro: list_all_dict_set list_all_dict_del)
next
  case (2 st tenant agent)
  have "length (dict_del (tenant, agent) (pu_entries st)) \<le> length (pu_entries st)"
    by (simp add: dict_del_def)
  with 2 show ?case
    by (auto simp: purposes_ok_def remove_purpose_def intro: list_all_dict_del)
qed

interpretation purpose_machine: machine purpose_step purposes_ok
  by unfold_locales (rule purposes_ok_step)

lemma purpose_max_kept: "pu_max (foldl purpose_step st cs) = pu_max st"
proof (induction cs arbitrary: st)
  case (Cons c cs)
  have "pu_max (purpose_step st c) = pu_max st"
    by (cases c) (simp_all add: register_purpose_def remove_purpose_def Let_def)
  with Cons show ?case by simp
qed simp

text \<open>A tool call is judged by the purpose of the very agent, which the caller's store holds as it was registered.\<close>

lemma get_purpose_of_agent:
  assumes "purposes_ok st" and "get_purpose tenant agent st = Some p"
  shows "ap_tenant p = tenant \<and> ap_agent p = agent"
  using assms by (auto simp: purposes_ok_def get_purpose_def list_all_iff dest!: map_of_SomeD)

lemma register_get:
  assumes "length (pu_entries st) < pu_max st"
  shows "get_purpose t a (register_purpose p st) = (if (t, a) = (ap_tenant p, ap_agent p) then Some p else get_purpose t a st)"
  using assms by (auto simp: register_purpose_def get_purpose_def length_dict_set Let_def)

text \<open>
  A store of purposes never has more entries than its bound, whatever is registered and removed; a denied tool of a
  stored purpose is denied, and nothing else is ever denied.
\<close>

theorem denied_exactly:
  assumes "st = foldl purpose_step (new_purposes n) cs"
  shows "length (pu_entries st) \<le> n \<and>
    (tv_decision (tool_evaluate roles st tenant agent tool) = Tool_Deny \<longleftrightarrow>
      (\<exists>p \<in> set (purposes_of_tenant tenant st). ap_agent p = agent \<and> tool \<in> set (ap_denied p)))"
proof -
  have ok: "purposes_ok st"
    unfolding assms by (rule purpose_machine.inv_run) (simp add: purposes_ok_def new_purposes_def)
  have "pu_max st = n"
    unfolding assms purpose_max_kept by (simp add: new_purposes_def)
  with ok have bound: "length (pu_entries st) \<le> n"
    by (auto simp: purposes_ok_def)
  have listed: "p \<in> set (purposes_of_tenant tenant st) \<and> ap_agent p = agent \<longleftrightarrow> get_purpose tenant agent st = Some p" for p
  proof -
    have keys: "k = (ap_tenant q, ap_agent q)" if "(k, q) \<in> set (pu_entries st)" for k q
      using ok that by (auto simp: purposes_ok_def list_all_iff)
    have "p \<in> set (purposes_of_tenant tenant st) \<and> ap_agent p = agent \<longleftrightarrow> ((tenant, agent), p) \<in> set (pu_entries st)"
      using keys by (force simp: purposes_of_tenant_def)
    then show ?thesis
      using ok by (simp add: purposes_ok_def dict_wf_def get_purpose_def)
  qed
  have "tv_decision (tool_evaluate roles st tenant agent tool) = Tool_Deny \<longleftrightarrow>
      (\<exists>p. get_purpose tenant agent st = Some p \<and> tool \<in> set (ap_denied p))"
    by (auto simp: tool_evaluate_def Let_def split: option.splits)
  also have "\<dots> \<longleftrightarrow> (\<exists>p \<in> set (purposes_of_tenant tenant st). ap_agent p = agent \<and> tool \<in> set (ap_denied p))"
    using listed by blast
  finally show ?thesis
    using bound by blast
qed

definition summarizer :: "string \<Rightarrow> agent_purpose" where
  "summarizer agent = \<lparr>ap_agent = agent, ap_tenant = ''t'', ap_role = ''document_summarizer'', ap_allowed = [],
     ap_denied = [''send_email''], ap_depth = 1\<rparr>"

lemma denied_exactly_witness:
  "tv_decision (tool_evaluate ROLE_TOOL_MAP (foldl purpose_step (new_purposes 2) [Register_Purpose (summarizer ''a'')]) ''t'' ''a'' ''send_email'') = Tool_Deny"
proof -
  have "summarizer ''a'' \<in> set (purposes_of_tenant ''t'' (foldl purpose_step (new_purposes 2) [Register_Purpose (summarizer ''a'')]))"
    by code_simp
  moreover have "ap_agent (summarizer ''a'') = ''a'' \<and> ''send_email'' \<in> set (ap_denied (summarizer ''a''))"
    by (simp add: summarizer_def)
  ultimately show ?thesis
    using denied_exactly [OF refl, of 2 "[Register_Purpose (summarizer ''a'')]" ROLE_TOOL_MAP "''t''" "''a''" "''send_email''"] by blast
qed

text \<open>An update does not renew the place of an entry: the purpose updated last is the first to go.\<close>

lemma updated_purpose_evicted:
  "let st = foldl purpose_step (new_purposes 2) (map Register_Purpose [summarizer ''a'', summarizer ''b'', summarizer ''a'', summarizer ''c''])
   in get_purpose ''t'' ''a'' st = None \<and> tv_decision (tool_evaluate ROLE_TOOL_MAP st ''t'' ''a'' ''send_email'') = Tool_Monitor"
  by code_simp

section \<open>The role heuristic\<close>

lemma tool_prefix_underscore: "tool_prefix (CHR ''_'' # rest) = []"
  by (simp add: tool_prefix_def split: list.splits)

text \<open>
  The heuristic allows any tool whose name starts with an underscore to each agent with a known role, unless the
  tool is denied by name: the part before the underscore is empty, and every expected tool starts with it.
\<close>

theorem underscore_tools_allowed:
  assumes "get_purpose tenant agent st = Some p" and "dict_get roles (ap_role p) = Some expected" and "expected \<noteq> []"
    and "CHR ''_'' # rest \<notin> set (ap_denied p)"
  shows "tv_decision (tool_evaluate roles st tenant agent (CHR ''_'' # rest)) = Tool_Allow"
proof -
  have "role_heuristic roles (ap_role p) (CHR ''_'' # rest) \<le> 3 / 10"
    using assms(2,3) by (cases expected) (simp_all add: role_heuristic_def tool_prefix_underscore)
  with assms(1,4) show ?thesis
    by (auto simp: tool_evaluate_def Let_def)
qed

lemma underscore_tools_allowed_witness:
  "tv_decision (tool_evaluate ROLE_TOOL_MAP (register_purpose (summarizer ''a'') (new_purposes 5)) ''t'' ''a'' ''_exec_shell'') = Tool_Allow"
proof -
  have "get_purpose ''t'' ''a'' (register_purpose (summarizer ''a'') (new_purposes 5)) = Some (summarizer ''a'')"
    by (simp add: register_get new_purposes_def summarizer_def)
  from underscore_tools_allowed [OF this, of ROLE_TOOL_MAP "[''read_file'', ''search'', ''summarize'', ''translate'']" "''exec_shell''"]
  show ?thesis by (simp add: ROLE_TOOL_MAP_def summarizer_def)
qed

lemma single_letter_allowed: "role_heuristic ROLE_TOOL_MAP ''document_summarizer'' ''s'' = 1 / 5"
  by code_simp

section \<open>The store of an engine\<close>

text \<open>
  An engine that is given a store without entries looks at another one: whatever is registered afterwards in the
  store it was given, it denies no tool, raises no alert and finds no purpose.
\<close>

theorem engine_blind_after_empty_start:
  assumes "pu_entries st0 = []"
  shows "tool_evaluate roles (store_at (engine_store (Some st0)) (foldl purpose_step st0 cs)) tenant agent tool =
    \<lparr>tv_decision = Tool_Monitor, tv_reason = No_Purpose, tv_score = 0, tv_found = False\<rparr>"
  using assms by (simp add: engine_store_def store_at_def tool_evaluate_def get_purpose_def new_purposes_def)

lemma engine_blind_after_empty_start_witness:
  "tv_decision (tool_evaluate ROLE_TOOL_MAP (store_at (engine_store (Some (new_purposes 5)))
     (foldl purpose_step (new_purposes 5) [Register_Purpose (summarizer ''a'')])) ''t'' ''a'' ''send_email'') = Tool_Monitor"
  by (subst engine_blind_after_empty_start) (simp_all add: new_purposes_def)

text \<open>The rule function, as the repository wires it, authorises every tool of every agent.\<close>

lemma every_tool_authorized: "fn_tool_authorized None st tenant args"
  by (auto simp: fn_tool_authorized_def tool_policy_ref_def engine_store_def store_at_def tool_evaluate_def get_purpose_def
      new_purposes_def split: list.splits)

section \<open>Delegation chains\<close>

lemma delegates_not_Nil: "delegates n st tenant chain \<Longrightarrow> chain \<noteq> []"
  by (induction rule: delegates.induct) simp_all

lemma not_denied_step:
  assumes "fst (delegation_evaluate n st tenant source target chain) \<noteq> Delegate_Deny"
  shows "target \<notin> set chain \<and> length chain < n \<and>
    (\<forall>p. get_purpose tenant source st = Some p \<longrightarrow> int (length chain) < ap_depth p)"
  using assms by (auto simp: delegation_evaluate_def split: if_splits option.splits)

text \<open>
  C29: A chain of delegations that are not denied visits no agent twice and is no longer than the global bound, and each
  agent in it that has a purpose, but the last, stands at a position below its own bound: an agent with the default
  bound of one hop can delegate nothing, because the chain counts the agent who asked first.
\<close>

theorem delegation_chain_bounded:
  assumes "delegates n st tenant chain" and "0 < n"
  shows "distinct chain \<and> length chain \<le> n \<and>
    (\<forall>i p. Suc i < length chain \<longrightarrow> get_purpose tenant (chain ! i) st = Some p \<longrightarrow> int (Suc i) < ap_depth p)"
  using assms
proof (induction rule: delegates.induct)
  case (start agent)
  then show ?case by simp
next
  case (extend chain target)
  note new = not_denied_step [OF extend.hyps(2)]
  have "int (Suc i) < ap_depth p"
    if i: "Suc i < length (chain @ [target])" and p: "get_purpose tenant ((chain @ [target]) ! i) st = Some p" for i p
  proof (cases "Suc i < length chain")
    case True
    with extend.IH [OF extend.prems] p show ?thesis by (auto simp: nth_append)
  next
    case False
    with i have "Suc i = length chain" by simp
    moreover from this have "(chain @ [target]) ! i = last chain"
      using delegates_not_Nil [OF extend.hyps(1)] by (auto simp: nth_append last_conv_nth simp flip: \<open>Suc i = length chain\<close>)
    ultimately show ?thesis
      using p new by auto
  qed
  with extend.IH [OF extend.prems] new show ?case by auto
qed

definition three_hops :: purpose_store where
  "three_hops = foldl (\<lambda>st a. register_purpose ((summarizer a)\<lparr>ap_depth := 3\<rparr>) st) (new_purposes 5) [''a'', ''b'', ''c'']"

lemma three_hops_chain: "delegates 5 three_hops ''t'' [''a'', ''b'', ''c'']"
proof -
  have "delegates 5 three_hops ''t'' ([''a''] @ [''b''])"
    by (rule delegates.extend [OF delegates.start]) code_simp
  then have "delegates 5 three_hops ''t'' ([''a'', ''b''] @ [''c''])"
    by (intro delegates.extend) (simp, code_simp)
  then show ?thesis by simp
qed

lemma delegation_chain_bounded_witness:
  "distinct [''a'', ''b'', ''c''] \<and> 2 < ap_depth ((summarizer ''b'')\<lparr>ap_depth := 3\<rparr>)"
proof -
  have "get_purpose ''t'' ([''a'', ''b'', ''c''] ! 1) three_hops = Some ((summarizer ''b'')\<lparr>ap_depth := 3\<rparr>)"
    by code_simp
  moreover have "Suc 1 < length [''a'', ''b'', ''c'']" by simp
  moreover have "(0 :: nat) < 5" by simp
  note chain = delegation_chain_bounded [OF three_hops_chain this]
  ultimately have "int (Suc 1) < ap_depth ((summarizer ''b'')\<lparr>ap_depth := 3\<rparr>)"
    using chain by blast
  then show ?thesis
    using chain by simp
qed

text \<open>With the default bound, an agent cannot even delegate once.\<close>

lemma default_depth_denies:
  assumes "get_purpose tenant source st = Some p" and "ap_depth p = 1" and "target \<noteq> source" and "1 < n"
  shows "delegation_evaluate n st tenant source target [source] = (Delegate_Deny, Agent_Depth)"
  using assms by (simp add: delegation_evaluate_def)

end
