(* ===== verification/Labels.thy ===== *)
theory Labels
  imports Complex_Main Interfaces
begin

text \<open>
  Where the labels of the training data come from: the approval of dismissed alerts
  (\<open>ml/integrity/label_governance.py\<close>), the labels of a training set (\<open>ml/training/labeler.py\<close>), the feedback of
  analysts (\<open>ml/content/fusion/feedback.py\<close>) and the store of the samples (\<open>ml/content/trained/data_store.py\<close>).
\<close>

section \<open>Governance\<close>

datatype label_decision = Confirmed | Pending_Review | Dismissed | Rejected | Unlabeled

datatype training_label = Positive | Negative | Excluded

record label_review =
  lr_alert :: string
  lr_analyst :: string
  lr_decision :: label_decision
  lr_reason :: string
  lr_time :: rat
  lr_admin :: "(string \<times> label_decision \<times> string \<times> rat) option"
  lr_label :: training_label

type_synonym governance = "(string, label_review) dict"

datatype governance_error = No_Reason | No_Review | Not_Pending | Same_User

definition analyst_confirm :: "rat \<Rightarrow> string \<Rightarrow> string \<Rightarrow> string \<Rightarrow> governance \<Rightarrow> label_review \<times> governance" where
  "analyst_confirm now alert analyst reason g =
     (let r = \<lparr>lr_alert = alert, lr_analyst = analyst, lr_decision = Confirmed, lr_reason = reason, lr_time = now,
               lr_admin = None, lr_label = Positive\<rparr>
      in (r, dict_set alert r g))"

definition analyst_dismiss :: "rat \<Rightarrow> string \<Rightarrow> string \<Rightarrow> string \<Rightarrow> governance \<Rightarrow> governance_error + (label_review \<times> governance)" where
  "analyst_dismiss now alert analyst reason g =
     (if reason = [] then Inl No_Reason
      else
        let r = \<lparr>lr_alert = alert, lr_analyst = analyst, lr_decision = Pending_Review, lr_reason = reason, lr_time = now,
                 lr_admin = None, lr_label = Excluded\<rparr>
        in Inr (r, dict_set alert r g))"

definition admin_approve_dismissal :: "rat \<Rightarrow> string \<Rightarrow> string \<Rightarrow> string \<Rightarrow> governance \<Rightarrow> governance_error + (label_review \<times> governance)" where
  "admin_approve_dismissal now alert admin reason g =
     (case dict_get g alert of
        None \<Rightarrow> Inl No_Review
      | Some r \<Rightarrow>
          if lr_decision r \<noteq> Pending_Review then Inl Not_Pending
          else if admin = lr_analyst r then Inl Same_User
          else let r' = r\<lparr>lr_admin := Some (admin, Dismissed, reason, now), lr_label := Negative\<rparr> in Inr (r', dict_set alert r' g))"

definition admin_reject_dismissal :: "rat \<Rightarrow> string \<Rightarrow> string \<Rightarrow> string \<Rightarrow> governance \<Rightarrow> governance_error + (label_review \<times> governance)" where
  "admin_reject_dismissal now alert admin reason g =
     (case dict_get g alert of
        None \<Rightarrow> Inl No_Review
      | Some r \<Rightarrow>
          if lr_decision r \<noteq> Pending_Review then Inl Not_Pending
          else let r' = r\<lparr>lr_admin := Some (admin, Rejected, reason, now), lr_label := Positive\<rparr> in Inr (r', dict_set alert r' g))"

definition get_training_labels :: "governance \<Rightarrow> (string, training_label) dict" where
  "get_training_labels g = map (\<lambda>(a, r). (a, lr_label r)) (filter (\<lambda>(a, r). lr_label r \<noteq> Excluded) g)"

definition is_pending :: "label_review \<Rightarrow> bool" where
  "is_pending r \<longleftrightarrow> lr_decision r = Pending_Review \<and> lr_admin r = None"

definition get_pending_reviews :: "governance \<Rightarrow> label_review list" where
  "get_pending_reviews g = filter is_pending (dict_values g)"

definition stat_of :: "label_review \<Rightarrow> string" where
  "stat_of r =
     (if lr_label r = Positive \<and> lr_decision r = Confirmed then ''confirmed''
      else if is_pending r then ''pending''
      else case lr_admin r of
             Some (_, Dismissed, _) \<Rightarrow> ''dismissed''
           | Some (_, Rejected, _) \<Rightarrow> ''rejected''
           | _ \<Rightarrow> ''unlabeled'')"

definition get_label_stats :: "governance \<Rightarrow> (string, nat) dict" where
  "get_label_stats g =
     map (\<lambda>k. (k, length (filter (\<lambda>r. stat_of r = k) (dict_values g))))
       [''confirmed'', ''pending'', ''dismissed'', ''rejected'', ''unlabeled'']"

section \<open>The labels of a training set\<close>

record label_entry =
  le_index :: "int option"
  le_disposition :: string
  le_class :: int
  le_alert :: "string option"

definition disposition_label :: "string \<Rightarrow> training_label" where
  "disposition_label d =
     (if d = ''confirmed'' then Positive else if d = ''false_positive'' then Negative else Excluded)"

text \<open>The label an entry asks for; an entry without an alert is not governed.\<close>

definition entry_label :: "governance option \<Rightarrow> label_entry \<Rightarrow> training_label" where
  "entry_label governance e =
     (case (governance, le_alert e) of
        (Some g, Some a) \<Rightarrow>
          if a = [] then disposition_label (le_disposition e)
          else (case dict_get (get_training_labels g) a of None \<Rightarrow> Excluded | Some l \<Rightarrow> l)
      | _ \<Rightarrow> disposition_label (le_disposition e))"

definition label_step :: "governance option \<Rightarrow> int list \<times> bool list \<Rightarrow> label_entry \<Rightarrow> int list \<times> bool list" where
  "label_step governance ym e =
     (case le_index e of
        None \<Rightarrow> ym
      | Some i \<Rightarrow>
          if i < 0 \<or> int (length (fst ym)) \<le> i then ym
          else case entry_label governance e of
                 Positive \<Rightarrow> ((fst ym)[nat i := max (le_class e) 1], (snd ym)[nat i := True])
               | Negative \<Rightarrow> ((fst ym)[nat i := 0], (snd ym)[nat i := True])
               | Excluded \<Rightarrow> ym)"

definition create_labels :: "governance option \<Rightarrow> nat \<Rightarrow> label_entry list \<Rightarrow> int list \<times> bool list" where
  "create_labels governance n entries = foldl (label_step governance) (replicate n 0, replicate n False) entries"

section \<open>The store of samples\<close>

record sample =
  sm_text :: string
  sm_label :: string
  sm_category :: string
  sm_source :: string
  sm_confidence :: rat
  sm_time :: rat
  sm_alert :: string
  sm_analyst :: string
  sm_approver :: string

record data_store =
  ds_samples :: "sample list"
  ds_max :: nat

definition MAX_TEXT_LENGTH :: nat where
  "MAX_TEXT_LENGTH = 8192"

definition MAX_LABEL_LENGTH :: nat where
  "MAX_LABEL_LENGTH = 100"

text \<open>The indices of the samples of a source, until there are enough.\<close>

definition add_indices :: "sample list \<Rightarrow> nat \<Rightarrow> nat list \<Rightarrow> string \<Rightarrow> nat list" where
  "add_indices xs overflow acc source =
     foldl (\<lambda>acc i. if sm_source (xs ! i) = source \<and> length acc < overflow then acc @ [i] else acc) acc [0..<length xs]"

definition evict_indices :: "sample list \<Rightarrow> nat \<Rightarrow> nat list" where
  "evict_indices xs overflow =
     (let synthetic = add_indices xs overflow [] ''synthetic''
      in if overflow \<le> length synthetic then synthetic else add_indices xs overflow synthetic ''analyst'')"

definition evict_if_needed :: "data_store \<Rightarrow> data_store" where
  "evict_if_needed st =
     (if length (ds_samples st) \<le> ds_max st then st
      else
        let is = evict_indices (ds_samples st) (length (ds_samples st) - ds_max st)
        in if is = [] then st
           else st\<lparr>ds_samples := map ((!) (ds_samples st)) (filter (\<lambda>i. i \<notin> set is) [0..<length (ds_samples st)])\<rparr>)"

definition add_sample :: "sample \<Rightarrow> data_store \<Rightarrow> data_store" where
  "add_sample s st =
     evict_if_needed (st\<lparr>ds_samples := ds_samples st @
       [s\<lparr>sm_text := take MAX_TEXT_LENGTH (sm_text s), sm_label := take MAX_LABEL_LENGTH (sm_label s),
          sm_category := take MAX_LABEL_LENGTH (if sm_category s = [] then sm_label s else sm_category s),
          sm_confidence := max 0 (min 1 (sm_confidence s))\<rparr>]\<rparr>)"

text \<open>The entries of a file, if it could be read; their confidence is kept as it is.\<close>

definition load_samples :: "sample list option \<Rightarrow> data_store \<Rightarrow> data_store" where
  "load_samples entries st =
     (case entries of
        None \<Rightarrow> st
      | Some xs \<Rightarrow>
          evict_if_needed (st\<lparr>ds_samples := ds_samples st @
            map (\<lambda>s. s\<lparr>sm_text := take MAX_TEXT_LENGTH (sm_text s), sm_label := take MAX_LABEL_LENGTH (sm_label s),
                sm_category := take MAX_LABEL_LENGTH (sm_category s)\<rparr>) xs\<rparr>))"

definition get_samples :: "string option \<Rightarrow> string option \<Rightarrow> rat \<Rightarrow> data_store \<Rightarrow> sample list" where
  "get_samples label source min_confidence st =
     filter (\<lambda>s. (case label of None \<Rightarrow> True | Some l \<Rightarrow> l = [] \<or> sm_label s = l) \<and>
         (case source of None \<Rightarrow> True | Some x \<Rightarrow> x = [] \<or> sm_source s = x) \<and>
         (0 < min_confidence \<longrightarrow> min_confidence \<le> sm_confidence s)) (ds_samples st)"

section \<open>Feedback\<close>

record feedback =
  fe_alert :: string
  fe_text :: string
  fe_action :: string
  fe_category :: string
  fe_analyst :: string
  fe_confidence :: rat
  fe_time :: rat

record feedback_router =
  fr_store :: "data_store option"
  fr_corpus :: "(string \<times> string) list option"
  fr_dual :: bool
  fr_pending :: "(string, feedback) dict"

record feedback_stats =
  fs_confirmations :: nat
  fs_approved :: nat
  fs_rejected :: nat
  fs_samples :: nat
  fs_corpus :: nat
  fs_expired :: nat

type_synonym feedback_state = "feedback_router \<times> feedback_stats"

definition MAX_PENDING :: nat where
  "MAX_PENDING = 10000"

definition PENDING_TTL :: rat where
  "PENDING_TTL = 86400"

datatype feedback_result =
  Unknown_Action | No_Pending | At_Capacity | Was_Confirmed | Was_Dismissed | Needs_Approval | Was_Approved | Was_Rejected

definition positive_sample :: "rat \<Rightarrow> feedback \<Rightarrow> sample" where
  "positive_sample now e = \<lparr>sm_text = take MAX_TEXT_LENGTH (fe_text e), sm_label = ''malicious'', sm_category = fe_category e,
     sm_source = ''analyst'', sm_confidence = fe_confidence e, sm_time = now, sm_alert = fe_alert e, sm_analyst = fe_analyst e,
     sm_approver = []\<rparr>"

definition negative_sample :: "rat \<Rightarrow> feedback \<Rightarrow> string \<Rightarrow> sample" where
  "negative_sample now e approver = \<lparr>sm_text = take MAX_TEXT_LENGTH (fe_text e), sm_label = ''benign'',
     sm_category = ''false_positive'', sm_source = ''analyst'', sm_confidence = fe_confidence e, sm_time = now,
     sm_alert = fe_alert e, sm_analyst = fe_analyst e, sm_approver = approver\<rparr>"

definition store_sample :: "sample \<Rightarrow> feedback_state \<Rightarrow> feedback_state" where
  "store_sample s st =
     (case st of (r, k) \<Rightarrow>
        (case fr_store r of
           None \<Rightarrow> (r, k)
         | Some d \<Rightarrow> (r\<lparr>fr_store := Some (add_sample s d)\<rparr>, k\<lparr>fs_samples := Suc (fs_samples k)\<rparr>)))"

definition add_positive :: "rat \<Rightarrow> feedback \<Rightarrow> feedback_state \<Rightarrow> feedback_state" where
  "add_positive now e st =
     (case store_sample (positive_sample now e) st of (r, k) \<Rightarrow>
        (case fr_corpus r of
           None \<Rightarrow> (r, k)
         | Some c \<Rightarrow> (r\<lparr>fr_corpus := Some (c @ [(take MAX_TEXT_LENGTH (fe_text e), fe_category e)])\<rparr>, k\<lparr>fs_corpus := Suc (fs_corpus k)\<rparr>)))"

definition stale_dismissal :: "rat \<Rightarrow> feedback \<Rightarrow> bool" where
  "stale_dismissal now e \<longleftrightarrow> 0 < fe_time e \<and> PENDING_TTL < now - fe_time e"

definition expire_stale :: "rat \<Rightarrow> feedback_state \<Rightarrow> feedback_state" where
  "expire_stale now st =
     (case st of (r, k) \<Rightarrow>
        (r\<lparr>fr_pending := filter (\<lambda>(_, e). \<not> stale_dismissal now e) (fr_pending r)\<rparr>,
         k\<lparr>fs_expired := fs_expired k + length (filter (\<lambda>(_, e). stale_dismissal now e) (fr_pending r))\<rparr>))"

definition handle_dismiss :: "rat \<Rightarrow> feedback \<Rightarrow> feedback_state \<Rightarrow> feedback_result \<times> feedback_state" where
  "handle_dismiss now e st =
     (if \<not> fr_dual (fst st) then (Was_Dismissed, store_sample (negative_sample now e []) st)
      else
        case expire_stale now st of (r, k) \<Rightarrow>
          if MAX_PENDING \<le> length (fr_pending r) then (At_Capacity, (r, k))
          else (Needs_Approval,
            (r\<lparr>fr_pending := dict_set (fe_alert e) (if 0 < fe_time e then e else e\<lparr>fe_time := now\<rparr>) (fr_pending r)\<rparr>, k)))"

definition process_feedback :: "rat \<Rightarrow> feedback \<Rightarrow> feedback_state \<Rightarrow> feedback_result \<times> feedback_state" where
  "process_feedback now e st =
     (if fe_action e = ''confirm''
      then (case add_positive now e st of (r, k) \<Rightarrow> (Was_Confirmed, (r, k\<lparr>fs_confirmations := Suc (fs_confirmations k)\<rparr>)))
      else if fe_action e = ''dismiss'' then handle_dismiss now e st
      else (Unknown_Action, st))"

text \<open>The pending dismissal of an alert is taken out, after the stale ones.\<close>

definition take_pending :: "rat \<Rightarrow> string \<Rightarrow> feedback_state \<Rightarrow> feedback option \<times> feedback_state" where
  "take_pending now alert st =
     (case expire_stale now st of (r, k) \<Rightarrow>
        (dict_get (fr_pending r) alert, (r\<lparr>fr_pending := dict_del alert (fr_pending r)\<rparr>, k)))"

definition approve_dismissal :: "rat \<Rightarrow> string \<Rightarrow> string \<Rightarrow> feedback_state \<Rightarrow> feedback_result \<times> feedback_state" where
  "approve_dismissal now alert admin st =
     (case take_pending now alert st of
        (None, st1) \<Rightarrow> (No_Pending, st1)
      | (Some e, st1) \<Rightarrow>
          (case store_sample (negative_sample now e admin) st1 of (r, k) \<Rightarrow>
             (Was_Approved, (r, k\<lparr>fs_approved := Suc (fs_approved k)\<rparr>))))"

definition reject_dismissal :: "rat \<Rightarrow> string \<Rightarrow> feedback_state \<Rightarrow> feedback_result \<times> feedback_state" where
  "reject_dismissal now alert st =
     (case take_pending now alert st of
        (None, st1) \<Rightarrow> (No_Pending, st1)
      | (Some e, st1) \<Rightarrow>
          (case add_positive now e st1 of (r, k) \<Rightarrow> (Was_Rejected, (r, k\<lparr>fs_rejected := Suc (fs_rejected k)\<rparr>))))"

end
