(* ===== verification/Labels_Props.thy ===== *)
theory Labels_Props
  imports Labels
begin

text \<open>
  Properties of the labels of the training data: a benign label of a governed training set took two people, entries
  without an alert are not governed, feedback lets one person do both, and which samples the store gives up.
\<close>

section \<open>Governance\<close>

datatype governance_op =
  Confirm_Alert rat string string string
| Dismiss_Alert rat string string string
| Approve_Alert rat string string string
| Reject_Alert rat string string string

fun governance_step :: "governance \<Rightarrow> governance_op \<Rightarrow> governance" where
  "governance_step g (Confirm_Alert now alert user reason) = snd (analyst_confirm now alert user reason g)"
| "governance_step g (Dismiss_Alert now alert user reason) =
     (case analyst_dismiss now alert user reason g of Inl _ \<Rightarrow> g | Inr (_, g') \<Rightarrow> g')"
| "governance_step g (Approve_Alert now alert user reason) =
     (case admin_approve_dismissal now alert user reason g of Inl _ \<Rightarrow> g | Inr (_, g') \<Rightarrow> g')"
| "governance_step g (Reject_Alert now alert user reason) =
     (case admin_reject_dismissal now alert user reason g of Inl _ \<Rightarrow> g | Inr (_, g') \<Rightarrow> g')"

definition dismissed_by :: "governance_op list \<Rightarrow> string \<Rightarrow> string \<Rightarrow> bool" where
  "dismissed_by ops alert user \<longleftrightarrow>
     (\<exists>before now reason rest. ops = before @ [Dismiss_Alert now alert user reason] @ rest \<and> reason \<noteq> [])"

text \<open>Somebody dismissed the alert with a reason, and later somebody else approved.\<close>

definition dismissed_and_approved :: "governance_op list \<Rightarrow> string \<Rightarrow> bool" where
  "dismissed_and_approved ops alert \<longleftrightarrow>
     (\<exists>before rest now analyst admin reason. ops = before @ [Approve_Alert now alert admin reason] @ rest \<and>
        dismissed_by before alert analyst \<and> analyst \<noteq> admin)"

lemma dismissed_by_snoc: "dismissed_by ops alert user \<Longrightarrow> dismissed_by (ops @ [op]) alert user"
  unfolding dismissed_by_def by (metis append.assoc)

lemma dismissed_by_last: "reason \<noteq> [] \<Longrightarrow> dismissed_by (ops @ [Dismiss_Alert now alert user reason]) alert user"
  by (auto simp: dismissed_by_def)

lemma dismissed_and_approved_snoc: "dismissed_and_approved ops alert \<Longrightarrow> dismissed_and_approved (ops @ [op]) alert"
  unfolding dismissed_and_approved_def by (metis append.assoc)

lemma dismissed_and_approved_last:
  "dismissed_by ops alert analyst \<Longrightarrow> analyst \<noteq> admin \<Longrightarrow> dismissed_and_approved (ops @ [Approve_Alert now alert admin reason]) alert"
  unfolding dismissed_and_approved_def by fastforce

definition review_ok :: "governance_op list \<Rightarrow> string \<Rightarrow> label_review \<Rightarrow> bool" where
  "review_ok ops alert r \<longleftrightarrow>
     (lr_decision r = Pending_Review \<longrightarrow> dismissed_by ops alert (lr_analyst r)) \<and>
     (lr_label r = Negative \<longrightarrow> dismissed_and_approved ops alert)"

lemma review_ok_snoc: "review_ok ops alert r \<Longrightarrow> review_ok (ops @ [op]) alert r"
  by (auto simp: review_ok_def dismissed_by_snoc dismissed_and_approved_snoc)

lemma review_ok_step:
  assumes "\<forall>a r. dict_get g a = Some r \<longrightarrow> review_ok ops a r" and "dict_get (governance_step g op) alert = Some r"
  shows "review_ok (ops @ [op]) alert r"
proof (cases "dict_get g alert = Some r")
  case True
  with assms(1) show ?thesis by (blast intro: review_ok_snoc)
next
  case False
  with assms show ?thesis
    by (cases op)
      (auto simp: analyst_confirm_def analyst_dismiss_def admin_approve_dismissal_def admin_reject_dismissal_def review_ok_def Let_def
        split: if_splits option.splits intro: dismissed_by_last dismissed_by_snoc dismissed_and_approved_last)
qed

lemma reviews_ok: "dict_get (foldl governance_step [] ops) alert = Some r \<Longrightarrow> review_ok ops alert r"
proof (induction ops arbitrary: alert r rule: rev_induct)
  case (snoc op ops)
  then show ?case
    using review_ok_step [of "foldl governance_step [] ops" ops op alert r] by auto
qed simp

lemma governance_wf: "dict_wf (foldl governance_step [] ops)"
proof (induction ops rule: rev_induct)
  case (snoc op ops)
  then show ?case
    by (cases op) (auto simp: analyst_confirm_def analyst_dismiss_def admin_approve_dismissal_def admin_reject_dismissal_def Let_def
        split: option.splits)
qed simp

lemma training_label_of:
  assumes "dict_wf g" and "dict_get (get_training_labels g) alert = Some l"
  shows "\<exists>r. dict_get g alert = Some r \<and> lr_label r = l \<and> l \<noteq> Excluded"
proof -
  obtain r where "(alert, r) \<in> set g" and "lr_label r = l" and "l \<noteq> Excluded"
    using map_of_SomeD [OF assms(2)] by (auto simp: get_training_labels_def)
  with assms(1) show ?thesis
    by (auto simp: dict_wf_def)
qed

text \<open>A rejected dismissal can still be approved, and whoever dismissed can reject.\<close>

lemma rejected_then_approved:
  "get_training_labels (foldl governance_step []
     [Dismiss_Alert 1 ''a'' ''eve'' ''noise'', Reject_Alert 2 ''a'' ''ann'' ''real'', Approve_Alert 3 ''a'' ''bob'' ''ok'']) = [(''a'', Negative)]"
  by code_simp

section \<open>The labels of a training set\<close>

definition decides :: "governance option \<Rightarrow> nat \<Rightarrow> label_entry \<Rightarrow> bool" where
  "decides governance i e \<longleftrightarrow> le_index e = Some (int i) \<and> entry_label governance e \<noteq> Excluded"

definition label_value :: "governance option \<Rightarrow> label_entry \<Rightarrow> int" where
  "label_value governance e = (if entry_label governance e = Positive then max (le_class e) 1 else 0)"

lemma length_create_labels:
  "length (fst (create_labels governance n entries)) = n \<and> length (snd (create_labels governance n entries)) = n"
  by (induction entries rule: rev_induct)
    (auto simp: create_labels_def label_step_def split: option.splits training_label.splits)

lemma label_step_nth:
  assumes "i < length (fst ym)" and "length (snd ym) = length (fst ym)"
  shows "snd (label_step governance ym e) ! i \<longleftrightarrow> snd ym ! i \<or> decides governance i e"
    and "fst (label_step governance ym e) ! i = (if decides governance i e then label_value governance e else fst ym ! i)"
  using assms by (auto simp: label_step_def decides_def label_value_def nth_list_update split: option.splits training_label.splits)

text \<open>
  The label of a sample in a training set is that of the last entry for it that decides, and a sample without such
  an entry is masked out.
\<close>

theorem last_entry_decides:
  assumes "i < n"
  shows "(snd (create_labels governance n entries) ! i \<longleftrightarrow> filter (decides governance i) entries \<noteq> []) \<and>
    fst (create_labels governance n entries) ! i =
      (if filter (decides governance i) entries = [] then 0 else label_value governance (last (filter (decides governance i) entries)))"
proof (induction entries rule: rev_induct)
  case Nil
  with assms show ?case by (simp add: create_labels_def)
next
  case (snoc e entries)
  let ?ym = "create_labels governance n entries"
  have len: "i < length (fst ?ym)" "length (snd ?ym) = length (fst ?ym)"
    using assms length_create_labels [of governance n entries] by auto
  have "create_labels governance n (entries @ [e]) = label_step governance ?ym e"
    by (simp add: create_labels_def)
  with snoc label_step_nth [OF len, of governance e] show ?case
    by auto
qed

lemma last_entry_decides_witness:
  "fst (create_labels None 2 [\<lparr>le_index = Some 1, le_disposition = ''false_positive'', le_class = 0, le_alert = None\<rparr>,
     \<lparr>le_index = Some 1, le_disposition = ''confirmed'', le_class = 4, le_alert = None\<rparr>]) ! 1 = 4"
  by (subst conjunct2 [OF last_entry_decides]) (simp_all add: decides_def label_value_def entry_label_def disposition_label_def)

text \<open>
  C17: Where a governance engine is asked and every entry names its alert, a sample gets the benign label only if some
  analyst dismissed the alert of its entry with a reason and, after that, somebody else approved the dismissal.
\<close>

theorem benign_label_needs_two:
  assumes "create_labels (Some (foldl governance_step [] ops)) n entries = (y, known)" and "i < n" and "known ! i" and "y ! i = 0"
    and "\<forall>e \<in> set entries. \<exists>c cs. le_alert e = Some (c # cs)"
  shows "\<exists>e \<in> set entries. le_index e = Some (int i) \<and> dismissed_and_approved ops (the (le_alert e))"
proof -
  let ?g = "foldl governance_step [] ops"
  define e where "e = last (filter (decides (Some ?g) i) entries)"
  have some: "filter (decides (Some ?g) i) entries \<noteq> []"
    using last_entry_decides [OF assms(2), of "Some ?g" entries] assms(1,3) by auto
  then have "y ! i = label_value (Some ?g) e"
    using last_entry_decides [OF assms(2), of "Some ?g" entries] assms(1) by (simp add: e_def)
  with assms(4) have "entry_label (Some ?g) e \<noteq> Positive"
    by (auto simp: label_value_def)
  moreover have "e \<in> set (filter (decides (Some ?g) i) entries)"
    unfolding e_def using some by (rule last_in_set)
  ultimately have e: "e \<in> set entries" "le_index e = Some (int i)" "entry_label (Some ?g) e = Negative"
    by (auto simp: decides_def intro: training_label.exhaust [of "entry_label (Some ?g) e"])
  from assms(5) e(1) obtain c cs where alert: "le_alert e = Some (c # cs)" by blast
  with e(3) have "dict_get (get_training_labels ?g) (c # cs) = Some Negative"
    by (auto simp: entry_label_def split: option.splits)
  with training_label_of [OF governance_wf] obtain r where "dict_get ?g (c # cs) = Some r" and "lr_label r = Negative"
    by blast
  then have "dismissed_and_approved ops (c # cs)"
    using reviews_ok by (auto simp: review_ok_def)
  with e alert show ?thesis by auto
qed

lemma benign_label_needs_two_witness:
  "\<exists>e \<in> set [\<lparr>le_index = Some 0, le_disposition = ''confirmed'', le_class = 2, le_alert = Some ''a''\<rparr>].
     le_index e = Some (int 0) \<and>
     dismissed_and_approved [Dismiss_Alert 1 ''a'' ''eve'' ''noise'', Approve_Alert 2 ''a'' ''bob'' ''ok''] (the (le_alert e))"
proof (rule benign_label_needs_two [of _ 1 _ "[0]" "[True]"])
  show "create_labels (Some (foldl governance_step [] [Dismiss_Alert 1 ''a'' ''eve'' ''noise'', Approve_Alert 2 ''a'' ''bob'' ''ok''])) 1
      [\<lparr>le_index = Some 0, le_disposition = ''confirmed'', le_class = 2, le_alert = Some ''a''\<rparr>] = ([0], [True])"
    by code_simp
qed simp_all

text \<open>An entry without an alert gets its label from the disposition alone, governance or not.\<close>

lemma ungoverned_entry: "le_alert e = None \<Longrightarrow> entry_label (Some g) e = entry_label None e"
  by (simp add: entry_label_def)

lemma benign_without_review:
  "create_labels (Some []) 1 [\<lparr>le_index = Some 0, le_disposition = ''false_positive'', le_class = 3, le_alert = None\<rparr>] = ([0], [True])"
  by code_simp

section \<open>The store of samples\<close>

fun drop_first :: "nat \<Rightarrow> ('a \<Rightarrow> bool) \<Rightarrow> 'a list \<Rightarrow> 'a list" where
  "drop_first n P [] = []"
| "drop_first n P (x # xs) =
     (if P x then (case n of 0 \<Rightarrow> x # xs | Suc k \<Rightarrow> drop_first k P xs) else x # drop_first n P xs)"

lemma drop_first_0 [simp]: "drop_first 0 P xs = xs"
  by (induction xs) auto

lemma set_drop_first: "set (drop_first n P xs) \<subseteq> set xs"
  by (induction n P xs rule: drop_first.induct) (auto split: nat.splits)

lemma filter_drop_first: "(\<And>x. Q x \<Longrightarrow> \<not> P x) \<Longrightarrow> filter Q (drop_first n P xs) = filter Q xs"
  by (induction n P xs rule: drop_first.induct) (auto split: nat.splits)

lemma length_drop_first: "length (drop_first n P xs) = length xs - min n (length (filter P xs))"
proof (induction n P xs rule: drop_first.induct)
  case (2 n P x xs)
  have "length (filter P xs) \<le> length xs" by simp
  with 2 show ?case by (auto simp: min_def simp del: length_filter_le split: nat.splits)
qed simp

lemma foldl_collect:
  "foldl (\<lambda>acc i. if P i \<and> length acc < k then acc @ [i] else acc) acc is = acc @ take (k - length acc) (filter P is)"
proof (induction "is" arbitrary: acc)
  case (Cons i "is")
  show ?case
  proof (cases "P i \<and> length acc < k")
    case True
    then have "k - length acc = Suc (k - Suc (length acc))" by arith
    with True Cons [of "acc @ [i]"] show ?thesis by simp
  next
    case False
    with Cons [of acc] show ?thesis by auto
  qed
qed simp

lemma add_indices_eq:
  "add_indices xs k acc source = acc @ take (k - length acc) (filter (\<lambda>i. sm_source (xs ! i) = source) [0..<length xs])"
  unfolding add_indices_def by (rule foldl_collect)

lemma map_filter_drop_first:
  "distinct is \<Longrightarrow> map f (filter (\<lambda>i. i \<notin> set (take k (filter (\<lambda>i. P (f i)) is))) is) = drop_first k P (map f is)"
proof (induction "is" arbitrary: k)
  case (Cons i "is")
  have fresh: "filter (\<lambda>j. j \<notin> insert i A) is = filter (\<lambda>j. j \<notin> A) is" for A
    using Cons.prems by (intro filter_cong) auto
  show ?case
  proof (cases "P (f i)")
    case True
    with Cons fresh show ?thesis by (cases k) auto
  next
    case False
    with Cons.prems have "i \<notin> set (take k (filter (\<lambda>i. P (f i)) is))"
      by (auto dest: in_set_takeD)
    with False Cons show ?thesis by auto
  qed
qed simp

definition from_source :: "string \<Rightarrow> sample \<Rightarrow> bool" where
  "from_source source s \<longleftrightarrow> sm_source s = source"

lemma keep_two_sources:
  assumes "p \<noteq> q"
  shows "map ((!) xs) (filter (\<lambda>i. i \<notin> set (take k (filter (\<lambda>i. sm_source (xs ! i) = p) [0..<length xs])) \<union>
      set (take m (filter (\<lambda>i. sm_source (xs ! i) = q) [0..<length xs]))) [0..<length xs]) =
    drop_first m (from_source q) (drop_first k (from_source p) xs)"
proof -
  define S where "S = set (take k (filter (\<lambda>i. sm_source (xs ! i) = p) [0..<length xs]))"
  define js where "js = filter (\<lambda>i. i \<notin> S) [0..<length xs]"
  have S: "sm_source (xs ! i) = p" if "i \<in> S" for i
    using that by (auto simp: S_def dest: in_set_takeD)
  have q: "filter (\<lambda>i. sm_source (xs ! i) = q) js = filter (\<lambda>i. sm_source (xs ! i) = q) [0..<length xs]"
    using S assms by (auto simp: js_def intro!: filter_cong)
  have first: "map ((!) xs) js = drop_first k (from_source p) xs"
    using map_filter_drop_first [of "[0..<length xs]" "(!) xs" k "from_source p"]
    by (simp add: js_def S_def from_source_def map_nth)
  have "distinct js" by (simp add: js_def)
  from map_filter_drop_first [OF this, of "(!) xs" m "from_source q"] first q show ?thesis
    by (simp add: js_def S_def from_source_def conj_commute)
qed

text \<open>
  A store above its bound gives up its oldest synthetic samples, and if those do not suffice its oldest samples
  from analysts, as many as are too many; the others keep their order and the seeds stay; it is within its bound
  afterwards whenever enough of those samples are there.
\<close>

theorem eviction_oldest_first:
  assumes "ds_max st < length (ds_samples st)" and "excess = length (ds_samples st) - ds_max st"
    and "synthetic = min excess (length (filter (from_source ''synthetic'') (ds_samples st)))"
  shows "ds_samples (evict_if_needed st) =
      drop_first (excess - synthetic) (from_source ''analyst'') (drop_first synthetic (from_source ''synthetic'') (ds_samples st)) \<and>
    (excess \<le> length (filter (\<lambda>s. from_source ''synthetic'' s \<or> from_source ''analyst'' s) (ds_samples st)) \<longrightarrow>
      length (ds_samples (evict_if_needed st)) = ds_max st)"
proof -
  let ?xs = "ds_samples st"
  let ?of = "\<lambda>p. filter (\<lambda>i. sm_source (?xs ! i) = p) [0..<length ?xs]"
  have count: "length (?of p) = length (filter (from_source p) ?xs)" for p
  proof -
    have "filter (from_source p) (map ((!) ?xs) [0..<length ?xs]) = map ((!) ?xs) (?of p)"
      by (simp add: filter_map comp_def from_source_def)
    then show ?thesis by (metis length_map map_nth)
  qed
  have gone: "set (evict_indices ?xs excess) = set (take synthetic (?of ''synthetic'')) \<union> set (take (excess - synthetic) (?of ''analyst''))"
    using assms(3) count [of "''synthetic''"]
    by (auto simp: evict_indices_def add_indices_eq Let_def min_def)
  have "map ((!) ?xs) (filter (\<lambda>i. i \<notin> set (evict_indices ?xs excess)) [0..<length ?xs]) =
      drop_first (excess - synthetic) (from_source ''analyst'') (drop_first synthetic (from_source ''synthetic'') ?xs)"
    unfolding gone by (rule keep_two_sources) simp
  then have kept: "ds_samples (evict_if_needed st) =
      drop_first (excess - synthetic) (from_source ''analyst'') (drop_first synthetic (from_source ''synthetic'') ?xs)"
    using assms(1,2) by (cases "evict_indices ?xs excess = []") (simp_all add: evict_if_needed_def Let_def map_nth)
  moreover have "length (ds_samples (evict_if_needed st)) = ds_max st"
    if "excess \<le> length (filter (\<lambda>s. from_source ''synthetic'' s \<or> from_source ''analyst'' s) ?xs)"
  proof -
    have "length (filter (\<lambda>s. from_source ''synthetic'' s \<or> from_source ''analyst'' s) ys) =
        length (filter (from_source ''synthetic'') ys) + length (filter (from_source ''analyst'') ys)" for ys
      by (induction ys) (auto simp: from_source_def)
    moreover have "filter (from_source ''analyst'') (drop_first synthetic (from_source ''synthetic'') ?xs) = filter (from_source ''analyst'') ?xs"
      by (rule filter_drop_first) (simp add: from_source_def)
    then have "length (ds_samples (evict_if_needed st)) =
        length ?xs - min synthetic (length (filter (from_source ''synthetic'') ?xs)) -
        min (excess - synthetic) (length (filter (from_source ''analyst'') ?xs))"
      unfolding kept by (simp add: length_drop_first)
    moreover have "excess \<le> length (filter (from_source ''synthetic'') ?xs) + length (filter (from_source ''analyst'') ?xs)"
      using that calculation by simp
    ultimately show ?thesis
      using assms by linarith
  qed
  ultimately show ?thesis by blast
qed

definition sample_from :: "string \<Rightarrow> string \<Rightarrow> sample" where
  "sample_from source t = \<lparr>sm_text = t, sm_label = ''benign'', sm_category = ''benign'', sm_source = source, sm_confidence = 1,
     sm_time = 0, sm_alert = [], sm_analyst = [], sm_approver = []\<rparr>"

lemma eviction_oldest_first_witness:
  "map sm_text (ds_samples (evict_if_needed
     \<lparr>ds_samples = [sample_from ''seed'' ''a'', sample_from ''analyst'' ''b'', sample_from ''synthetic'' ''c'', sample_from ''analyst'' ''d''],
      ds_max = 2\<rparr>)) = [''a'', ''d'']"
proof -
  let ?st = "\<lparr>ds_samples = [sample_from ''seed'' ''a'', sample_from ''analyst'' ''b'', sample_from ''synthetic'' ''c'', sample_from ''analyst'' ''d''],
    ds_max = 2\<rparr>"
  have "ds_samples (evict_if_needed ?st) = drop_first 1 (from_source ''analyst'') (drop_first 1 (from_source ''synthetic'') (ds_samples ?st))"
    using eviction_oldest_first [of ?st 2 1] by (simp add: from_source_def sample_from_def)
  then show ?thesis
    by (simp add: from_source_def sample_from_def numeral_eq_Suc)
qed

section \<open>Feedback\<close>

datatype feedback_op =
  Send_Feedback rat feedback
| Approve_Dismissal rat string string
| Reject_Dismissal rat string

fun feedback_step :: "feedback_state \<Rightarrow> feedback_op \<Rightarrow> feedback_state" where
  "feedback_step st (Send_Feedback now e) = snd (process_feedback now e st)"
| "feedback_step st (Approve_Dismissal now alert admin) = snd (approve_dismissal now alert admin st)"
| "feedback_step st (Reject_Dismissal now alert) = snd (reject_dismissal now alert st)"

definition dismissal_sent :: "feedback_op list \<Rightarrow> string \<Rightarrow> string \<Rightarrow> bool" where
  "dismissal_sent ops alert analyst \<longleftrightarrow>
     (\<exists>now e. Send_Feedback now e \<in> set ops \<and> fe_action e = ''dismiss'' \<and> fe_alert e = alert \<and> fe_analyst e = analyst)"

definition approved_after :: "feedback_op list \<Rightarrow> sample \<Rightarrow> bool" where
  "approved_after ops s \<longleftrightarrow>
     (\<exists>before now rest. ops = before @ [Approve_Dismissal now (sm_alert s) (sm_approver s)] @ rest \<and>
        dismissal_sent before (sm_alert s) (sm_analyst s))"

definition pending_sent :: "feedback_op list \<Rightarrow> (string, feedback) dict \<Rightarrow> bool" where
  "pending_sent ops d \<longleftrightarrow> (\<forall>(a, e) \<in> set d. fe_alert e = a \<and> dismissal_sent ops a (fe_analyst e))"

definition samples_of :: "feedback_state \<Rightarrow> sample set" where
  "samples_of st = (case fr_store (fst st) of None \<Rightarrow> {} | Some d \<Rightarrow> set (ds_samples d))"

definition benign_approved :: "feedback_op list \<Rightarrow> sample set \<Rightarrow> sample set \<Rightarrow> bool" where
  "benign_approved ops A B \<longleftrightarrow> (\<forall>s \<in> B. s \<in> A \<or> sm_label s \<noteq> ''benign'' \<or> approved_after ops s)"

lemma approved_after_snoc: "approved_after ops s \<Longrightarrow> approved_after (ops @ [op]) s"
  unfolding approved_after_def by (metis append.assoc)

lemma approved_after_last:
  "dismissal_sent ops (sm_alert s) (sm_analyst s) \<Longrightarrow> approved_after (ops @ [Approve_Dismissal now (sm_alert s) (sm_approver s)]) s"
  unfolding approved_after_def by fastforce

lemma dismissal_sent_snoc: "dismissal_sent ops a u \<Longrightarrow> dismissal_sent (ops @ [op]) a u"
  by (auto simp: dismissal_sent_def)

lemma pending_sent_snoc: "pending_sent ops d \<Longrightarrow> pending_sent (ops @ [op]) d"
  by (auto simp: pending_sent_def dismissal_sent_snoc)

lemma pending_sent_subset: "pending_sent ops d \<Longrightarrow> set d' \<subseteq> set d \<Longrightarrow> pending_sent ops d'"
  by (auto simp: pending_sent_def)

lemma set_dict_del_subset: "set (dict_del k d) \<subseteq> set d"
  by (auto simp: dict_del_def)

lemma benign_approved_snoc: "benign_approved ops A B \<Longrightarrow> benign_approved (ops @ [op]) A B"
  by (auto simp: benign_approved_def approved_after_snoc)

lemma evict_subset: "set (ds_samples (evict_if_needed st)) \<subseteq> set (ds_samples st)"
  by (auto simp: evict_if_needed_def Let_def)

lemma add_sample_subset:
  "set (ds_samples (add_sample s st)) \<subseteq>
     insert (s\<lparr>sm_text := take MAX_TEXT_LENGTH (sm_text s), sm_label := take MAX_LABEL_LENGTH (sm_label s),
       sm_category := take MAX_LABEL_LENGTH (if sm_category s = [] then sm_label s else sm_category s),
       sm_confidence := max 0 (min 1 (sm_confidence s))\<rparr>) (set (ds_samples st))"
  unfolding add_sample_def using evict_subset by fastforce

lemma store_sample_frame:
  "fr_pending (fst (store_sample s st)) = fr_pending (fst st) \<and> fr_dual (fst (store_sample s st)) = fr_dual (fst st)"
  by (auto simp: store_sample_def split: prod.splits option.splits)

lemma add_positive_frame:
  "fr_pending (fst (add_positive now e st)) = fr_pending (fst st) \<and> fr_dual (fst (add_positive now e st)) = fr_dual (fst st)"
  using store_sample_frame [of "positive_sample now e" st] by (auto simp: add_positive_def split: prod.splits option.splits)

lemma store_positive_samples:
  assumes "benign_approved ops A (samples_of st)"
  shows "benign_approved ops A (samples_of (store_sample (positive_sample now e) st))"
proof -
  have "''malicious'' \<noteq> ''benign''" by simp
  then show ?thesis
    using assms add_sample_subset [of "positive_sample now e"]
    by (fastforce simp: benign_approved_def samples_of_def store_sample_def positive_sample_def MAX_LABEL_LENGTH_def
        split: prod.splits option.splits)
qed

lemma add_positive_samples:
  "benign_approved ops A (samples_of st) \<Longrightarrow> benign_approved ops A (samples_of (add_positive now e st))"
  using store_positive_samples [of ops A st now e] by (auto simp: add_positive_def samples_of_def split: prod.splits option.splits)

lemma store_negative_samples:
  assumes "benign_approved ops A (samples_of st)"
    and "\<And>s. sm_alert s = fe_alert e \<Longrightarrow> sm_analyst s = fe_analyst e \<Longrightarrow> sm_approver s = admin \<Longrightarrow> approved_after ops s"
  shows "benign_approved ops A (samples_of (store_sample (negative_sample now e admin) st))"
  using assms add_sample_subset [of "negative_sample now e admin"]
  by (fastforce simp: benign_approved_def samples_of_def store_sample_def negative_sample_def split: prod.splits option.splits)

lemma expire_stale_frame:
  "set (fr_pending (fst (expire_stale now st))) \<subseteq> set (fr_pending (fst st)) \<and>
   fr_dual (fst (expire_stale now st)) = fr_dual (fst st) \<and> samples_of (expire_stale now st) = samples_of st"
  by (auto simp: expire_stale_def samples_of_def split: prod.splits)

lemma take_pending_frame:
  assumes "take_pending now alert st = (found, st1)"
  shows "set (fr_pending (fst st1)) \<subseteq> set (fr_pending (fst st))" and "fr_dual (fst st1) = fr_dual (fst st)"
    and "samples_of st1 = samples_of st" and "found = Some e \<Longrightarrow> (alert, e) \<in> set (fr_pending (fst st))"
  using assms expire_stale_frame [of now st] set_dict_del_subset [of alert "fr_pending (fst (expire_stale now st))"]
  by (auto simp: take_pending_def samples_of_def split: prod.splits dest!: map_of_SomeD)

definition feedback_ok :: "sample set \<Rightarrow> feedback_op list \<Rightarrow> feedback_state \<Rightarrow> bool" where
  "feedback_ok A ops st \<longleftrightarrow> fr_dual (fst st) \<and> pending_sent ops (fr_pending (fst st)) \<and> benign_approved ops A (samples_of st)"

lemma feedback_ok_stats: "feedback_ok A ops (r, k) \<Longrightarrow> feedback_ok A ops (r, k')"
  by (simp add: feedback_ok_def samples_of_def)

lemma feedback_ok_positive: "feedback_ok A ops st \<Longrightarrow> feedback_ok A ops (add_positive now e st)"
  using add_positive_frame [of now e st] add_positive_samples by (auto simp: feedback_ok_def)

lemma feedback_ok_later: "feedback_ok A ops st \<Longrightarrow> feedback_ok A (ops @ [op]) st"
  by (auto simp: feedback_ok_def intro: pending_sent_snoc benign_approved_snoc)

lemma feedback_ok_dismiss:
  assumes "feedback_ok A ops st" and "fe_action e = ''dismiss''"
  shows "feedback_ok A (ops @ [Send_Feedback now e]) (snd (handle_dismiss now e st))"
proof -
  obtain r k where rk: "expire_stale now st = (r, k)" by (cases "expire_stale now st")
  with expire_stale_frame [of now st] assms(1)
  have old: "fr_dual r" "pending_sent ops (fr_pending r)" "benign_approved ops A (samples_of (r, k))"
    by (auto simp: feedback_ok_def intro: pending_sent_subset)
  let ?e = "if 0 < fe_time e then e else e\<lparr>fe_time := now\<rparr>"
  have "dismissal_sent (ops @ [Send_Feedback now e]) (fe_alert e) (fe_analyst e)"
    using assms(2) by (auto simp: dismissal_sent_def)
  then have "pending_sent (ops @ [Send_Feedback now e]) (dict_set (fe_alert e) ?e (fr_pending r))"
    using pending_sent_snoc [OF old(2), of "Send_Feedback now e"] set_dict_set_subset [of "fe_alert e" ?e "fr_pending r"]
    by (fastforce simp: pending_sent_def)
  with old assms(1) rk show ?thesis
    by (auto simp: handle_dismiss_def feedback_ok_def samples_of_def intro: pending_sent_snoc benign_approved_snoc)
qed

lemma feedback_ok_approve:
  assumes "feedback_ok A ops st"
  shows "feedback_ok A (ops @ [Approve_Dismissal now alert admin]) (snd (approve_dismissal now alert admin st))"
proof -
  obtain found st1 where f: "take_pending now alert st = (found, st1)" by (cases "take_pending now alert st")
  note frame = take_pending_frame [OF f]
  have old: "feedback_ok A (ops @ [Approve_Dismissal now alert admin]) st1"
    using assms frame(1-3) by (auto simp: feedback_ok_def intro: pending_sent_snoc benign_approved_snoc pending_sent_subset)
  show ?thesis
  proof (cases found)
    case None
    with f old show ?thesis by (simp add: approve_dismissal_def)
  next
    case (Some e)
    with frame(4) assms have e: "fe_alert e = alert" "dismissal_sent ops alert (fe_analyst e)"
      by (auto simp: feedback_ok_def pending_sent_def)
    have "approved_after (ops @ [Approve_Dismissal now alert admin]) s"
      if "sm_alert s = fe_alert e" and "sm_analyst s = fe_analyst e" and "sm_approver s = admin" for s
      using approved_after_last [of ops s now] e that by simp
    then have "benign_approved (ops @ [Approve_Dismissal now alert admin]) A (samples_of (store_sample (negative_sample now e admin) st1))"
      using old by (intro store_negative_samples) (auto simp: feedback_ok_def)
    with Some f old store_sample_frame [of "negative_sample now e admin" st1] show ?thesis
      by (auto simp: approve_dismissal_def feedback_ok_def samples_of_def split: prod.splits)
  qed
qed

lemma feedback_ok_reject:
  assumes "feedback_ok A ops st"
  shows "feedback_ok A (ops @ [op]) (snd (reject_dismissal now alert st))"
proof -
  obtain found st1 where f: "take_pending now alert st = (found, st1)" by (cases "take_pending now alert st")
  have old: "feedback_ok A (ops @ [op]) st1"
    using assms take_pending_frame(1-3) [OF f]
    by (auto simp: feedback_ok_def intro: pending_sent_snoc benign_approved_snoc pending_sent_subset)
  show ?thesis
  proof (cases found)
    case None
    with f old show ?thesis by (simp add: reject_dismissal_def)
  next
    case (Some e)
    obtain r k where "add_positive now e st1 = (r, k)" by (cases "add_positive now e st1")
    with Some f feedback_ok_positive [OF old, of now e] show ?thesis
      by (auto simp: reject_dismissal_def intro: feedback_ok_stats)
  qed
qed

lemma feedback_ok_step: "feedback_ok A ops st \<Longrightarrow> feedback_ok A (ops @ [op]) (feedback_step st op)"
proof (induction st op rule: feedback_step.induct)
  case (1 st now e)
  note later = feedback_ok_later [OF 1, of "Send_Feedback now e"]
  obtain r k where pos: "add_positive now e st = (r, k)" by (cases "add_positive now e st")
  with feedback_ok_positive [OF later, of now e] have "feedback_ok A (ops @ [Send_Feedback now e]) (r, k')" for k'
    by (auto intro: feedback_ok_stats)
  with 1 later pos feedback_ok_dismiss [OF 1, of e now] show ?case
    by (simp add: process_feedback_def)
qed (simp_all add: feedback_ok_approve feedback_ok_reject)

lemma feedback_ok_run:
  "feedback_ok A [] st \<Longrightarrow> feedback_ok A ops (foldl feedback_step st ops)"
  by (induction ops rule: rev_induct) (simp_all add: feedback_ok_step)

text \<open>
  With dual approval, a benign sample that feedback put into the store stands for a dismissal that the analyst it
  names sent for its alert and that was approved after that, by the one it names: nothing else makes a benign sample.
\<close>

theorem benign_sample_approved:
  assumes "foldl feedback_step (r0, k0) ops = (r, k)" and "fr_dual r0" and "fr_pending r0 = []" and "fr_store r = Some d"
    and "s \<in> set (ds_samples d)" and "sm_label s = ''benign''"
    and "\<forall>d0. fr_store r0 = Some d0 \<longrightarrow> s \<notin> set (ds_samples d0)"
  shows "approved_after ops s"
proof -
  have "feedback_ok (samples_of (r0, k0)) [] (r0, k0)"
    using assms(2,3) by (simp add: feedback_ok_def pending_sent_def benign_approved_def)
  from feedback_ok_run [OF this, of ops] have "benign_approved ops (samples_of (r0, k0)) (samples_of (r, k))"
    by (simp add: feedback_ok_def assms(1))
  moreover have "s \<in> samples_of (r, k)" and "s \<notin> samples_of (r0, k0)"
    using assms(4,5,7) by (auto simp: samples_of_def split: option.splits)
  ultimately show ?thesis
    using assms(6) by (auto simp: benign_approved_def)
qed

definition empty_router :: feedback_router where
  "empty_router = \<lparr>fr_store = Some \<lparr>ds_samples = [], ds_max = 10\<rparr>, fr_corpus = None, fr_dual = True, fr_pending = []\<rparr>"

definition no_stats :: feedback_stats where
  "no_stats = \<lparr>fs_confirmations = 0, fs_approved = 0, fs_rejected = 0, fs_samples = 0, fs_corpus = 0, fs_expired = 0\<rparr>"

definition own_dismissal :: "feedback_op list" where
  "own_dismissal = [Send_Feedback 1 \<lparr>fe_alert = ''a'', fe_text = ''rm -rf'', fe_action = ''dismiss'', fe_category = ''exploit'',
     fe_analyst = ''eve'', fe_confidence = 1, fe_time = 0\<rparr>, Approve_Dismissal 2 ''a'' ''eve'']"

definition own_sample :: sample where
  "own_sample = \<lparr>sm_text = ''rm -rf'', sm_label = ''benign'', sm_category = ''false_positive'', sm_source = ''analyst'',
     sm_confidence = 1, sm_time = 2, sm_alert = ''a'', sm_analyst = ''eve'', sm_approver = ''eve''\<rparr>"

text \<open>The one who dismissed may approve, which the governance above refuses.\<close>

lemma own_dismissal_approved:
  "foldl feedback_step (empty_router, no_stats) own_dismissal =
     (empty_router\<lparr>fr_store := Some \<lparr>ds_samples = [own_sample], ds_max = 10\<rparr>\<rparr>, no_stats\<lparr>fs_approved := 1, fs_samples := 1\<rparr>)"
  by code_simp

lemma benign_sample_approved_witness: "approved_after own_dismissal own_sample"
  by (rule benign_sample_approved [OF own_dismissal_approved, where d = "\<lparr>ds_samples = [own_sample], ds_max = 10\<rparr>"]) (simp_all add: empty_router_def own_sample_def)

end
