(* ===== verification/Model_Lifecycle.thy ===== *)
theory Model_Lifecycle
  imports Complex_Main Interfaces
begin

text \<open>
  The life of a tenant's model: when it is trained again (\<open>ml/retrain/scheduler.py\<close>, \<open>worker.py\<close>,
  \<open>routers/ml.py\<close>), what a new model must reach (\<open>quality_gate.py\<close>, \<open>pipeline.py\<close>) and how it replaces the old one
  (\<open>ml/serving/model_loader.py\<close>, \<open>shadow_mode.py\<close>). Training and files are parameters; a version is the second it
  was saved in.
\<close>

section \<open>The scheduler\<close>

record retrain_scheduler =
  rs_enabled :: bool
  rs_new :: "(string, nat) dict"
  rs_total :: "(string, nat) dict"
  rs_last :: "(string, rat) dict"
  rs_active :: "string list"

definition MIN_NEW_LABELS :: nat where "MIN_NEW_LABELS = 50"

definition MIN_RETRAIN_GAP :: rat where "MIN_RETRAIN_GAP = 3600"

definition MAX_CONCURRENT :: nat where "MAX_CONCURRENT = 4"

definition MAX_TRACKED_TENANTS :: nat where "MAX_TRACKED_TENANTS = 50000"

definition MAX_LABEL_BATCH :: int where "MAX_LABEL_BATCH = 10000"

definition new_scheduler :: retrain_scheduler where
  "new_scheduler = \<lparr>rs_enabled = True, rs_new = [], rs_total = [], rs_last = [], rs_active = []\<rparr>"

definition evict_tenant :: "retrain_scheduler \<Rightarrow> retrain_scheduler" where
  "evict_tenant rs =
     (let t = arg_min_list (\<lambda>t. dict_get_or (rs_last rs) t 0) (dict_keys (rs_new rs))
      in rs\<lparr>rs_new := dict_del t (rs_new rs), rs_total := dict_del t (rs_total rs), rs_last := dict_del t (rs_last rs)\<rparr>)"

definition record_labels :: "string \<Rightarrow> int \<Rightarrow> retrain_scheduler \<Rightarrow> retrain_scheduler" where
  "record_labels tenant count rs =
     (if count \<le> 0 then rs
      else
        let n = nat (min count MAX_LABEL_BATCH);
            rs1 = (if dict_get (rs_new rs) tenant = None \<and> MAX_TRACKED_TENANTS \<le> length (rs_new rs) then evict_tenant rs else rs)
        in rs1\<lparr>rs_new := dict_set tenant (dict_get_or (rs_new rs1) tenant 0 + n) (rs_new rs1),
               rs_total := dict_set tenant (dict_get_or (rs_total rs1) tenant 0 + n) (rs_total rs1)\<rparr>)"

datatype retrain_reason = Auto_Disabled | In_Progress | Max_Reached | Too_Few_Labels | Rate_Limited | Threshold_Met

definition check_retrain :: "rat \<Rightarrow> string \<Rightarrow> retrain_scheduler \<Rightarrow> retrain_reason" where
  "check_retrain now tenant rs =
     (if \<not> rs_enabled rs then Auto_Disabled
      else if tenant \<in> set (rs_active rs) then In_Progress
      else if MAX_CONCURRENT \<le> length (rs_active rs) then Max_Reached
      else if dict_get_or (rs_new rs) tenant 0 < MIN_NEW_LABELS then Too_Few_Labels
      else if now - dict_get_or (rs_last rs) tenant 0 < MIN_RETRAIN_GAP then Rate_Limited
      else Threshold_Met)"

definition check_all :: "rat \<Rightarrow> retrain_scheduler \<Rightarrow> string list" where
  "check_all now rs = filter (\<lambda>t. check_retrain now t rs = Threshold_Met) (dict_keys (rs_new rs))"

definition mark_retrain_started :: "string \<Rightarrow> retrain_scheduler \<Rightarrow> retrain_scheduler" where
  "mark_retrain_started tenant rs = rs\<lparr>rs_active := List.insert tenant (rs_active rs)\<rparr>"

definition mark_retrain_completed :: "rat \<Rightarrow> string \<Rightarrow> bool \<Rightarrow> bool \<Rightarrow> retrain_scheduler \<Rightarrow> retrain_scheduler" where
  "mark_retrain_completed now tenant success reset rs =
     rs\<lparr>rs_active := filter (\<lambda>t. t \<noteq> tenant) (rs_active rs), rs_last := dict_set tenant now (rs_last rs),
        rs_new := (if success \<and> reset then dict_set tenant 0 (rs_new rs) else rs_new rs)\<rparr>"

section \<open>The quality gate\<close>

definition clamp01 :: "rat \<Rightarrow> rat" where
  "clamp01 x = max 0 (min 1 x)"

datatype gate_failure = Precision_Regression | Recall_Regression | Fpr_Ceiling

text \<open>The checks of the metrics; the pipeline passes no predictions to check.\<close>

definition gate_failures :: "rat \<Rightarrow> rat \<Rightarrow> rat \<Rightarrow> rat \<Rightarrow> rat \<Rightarrow> gate_failure list" where
  "gate_failures precision recall fpr current_precision current_recall =
     (if clamp01 precision < max 0 (clamp01 current_precision - 2 / 100) then [Precision_Regression] else []) @
     (if clamp01 recall < max 0 (clamp01 current_recall - 5 / 100) then [Recall_Regression] else []) @
     (if 10 / 100 < clamp01 fpr then [Fpr_Ceiling] else [])"

section \<open>Models and their shadow\<close>

record model =
  mv_version :: nat
  mv_stages :: nat
  mv_names :: "string list"
  mv_precision :: rat
  mv_recall :: rat

type_synonym model_registry = "(string, model list) dict"

text \<open>A model that is saved in the same second as another one of its tenant takes its place.\<close>

definition save_model :: "string \<Rightarrow> model \<Rightarrow> model_registry \<Rightarrow> model_registry" where
  "save_model tenant m reg =
     dict_set tenant (filter (\<lambda>x. mv_version x \<noteq> mv_version m) (dict_get_or reg tenant []) @ [m]) reg"

definition load_version :: "string \<Rightarrow> nat \<Rightarrow> model_registry \<Rightarrow> model option" where
  "load_version tenant v reg = find (\<lambda>m. mv_version m = v) (dict_get_or reg tenant [])"

definition load_latest :: "string \<Rightarrow> model_registry \<Rightarrow> model option" where
  "load_latest tenant reg =
     (let ms = dict_get_or reg tenant [] in if ms = [] then None else Some (last (sort_key mv_version ms)))"

text \<open>The five dictionaries of the tracker have the same keys: they are written and removed together.\<close>

record shadow_run =
  sh_start :: rat
  sh_version :: nat
  sh_scores :: "rat list"
  sh_alerts :: nat
  sh_total :: nat

type_synonym tracker = "(string, shadow_run) dict"

definition SHADOW_DURATION :: rat where "SHADOW_DURATION = 3600"

definition SHADOW_FPR_MAX :: rat where "SHADOW_FPR_MAX = 10 / 100"

definition MAX_SCORES :: nat where "MAX_SCORES = 50000"

definition start_shadow :: "rat \<Rightarrow> string \<Rightarrow> nat \<Rightarrow> tracker \<Rightarrow> tracker" where
  "start_shadow now tenant version tr =
     dict_set tenant \<lparr>sh_start = now, sh_version = version, sh_scores = [], sh_alerts = 0, sh_total = 0\<rparr> tr"

definition is_in_shadow :: "rat \<Rightarrow> string \<Rightarrow> tracker \<Rightarrow> bool" where
  "is_in_shadow now tenant tr = (case dict_get tr tenant of None \<Rightarrow> False | Some s \<Rightarrow> \<not> SHADOW_DURATION < now - sh_start s)"

definition record_shadow_score :: "string \<Rightarrow> rat \<Rightarrow> bool \<Rightarrow> tracker \<Rightarrow> tracker" where
  "record_shadow_score tenant score should_alert tr =
     (case dict_get tr tenant of
        None \<Rightarrow> tr
      | Some s \<Rightarrow>
          dict_set tenant
            (s\<lparr>sh_scores := take_last MAX_SCORES (sh_scores s @ [score]), sh_total := Suc (sh_total s),
               sh_alerts := (if should_alert then Suc (sh_alerts s) else sh_alerts s)\<rparr>) tr)"

definition alert_rate :: "shadow_run \<Rightarrow> rat" where
  "alert_rate s = (if sh_total s = 0 then 0 else of_nat (sh_alerts s) / of_nat (sh_total s))"

definition evaluate_shadow :: "string \<Rightarrow> tracker \<Rightarrow> bool \<times> tracker" where
  "evaluate_shadow tenant tr =
     (case dict_get tr tenant of None \<Rightarrow> True | Some s \<Rightarrow> alert_rate s \<le> SHADOW_FPR_MAX, dict_del tenant tr)"

section \<open>The loader\<close>

record loader =
  ld_active :: "(string, model) dict"
  ld_shadow :: "(string, model) dict"
  ld_versions :: "(string, nat) dict"
  ld_poll :: "(string, rat) dict"
  ld_names :: "(string, string list) dict"
  ld_tracker :: tracker
  ld_samples :: "(string, nat) dict"
  ld_precision :: "(string, rat) dict"

definition new_loader :: loader where
  "new_loader = \<lparr>ld_active = [], ld_shadow = [], ld_versions = [], ld_poll = [], ld_names = [], ld_tracker = [],
     ld_samples = [], ld_precision = []\<rparr>"

definition MODEL_POLL :: rat where "MODEL_POLL = 300"

text \<open>\<open>None\<close>: there is no model, or reading it raised, which is logged and changes nothing.\<close>

definition try_load :: "model option \<Rightarrow> rat \<Rightarrow> string \<Rightarrow> loader \<Rightarrow> loader" where
  "try_load latest now tenant ld =
     (case latest of
        None \<Rightarrow> ld
      | Some m \<Rightarrow>
          if dict_get (ld_versions ld) tenant = Some (mv_version m) then ld
          else
            let ld1 = ld\<lparr>ld_versions := dict_set tenant (mv_version m) (ld_versions ld),
                         ld_names := dict_set tenant (mv_names m) (ld_names ld)\<rparr>
            in if dict_get (ld_active ld) tenant = None then ld1\<lparr>ld_active := dict_set tenant m (ld_active ld)\<rparr>
               else ld1\<lparr>ld_shadow := dict_set tenant m (ld_shadow ld),
                        ld_tracker := start_shadow now tenant (mv_version m) (ld_tracker ld)\<rparr>)"

definition poll_model :: "model option \<Rightarrow> rat \<Rightarrow> string \<Rightarrow> loader \<Rightarrow> loader" where
  "poll_model latest now tenant ld =
     (if MODEL_POLL \<le> now - dict_get_or (ld_poll ld) tenant 0
      then (try_load latest now tenant ld)\<lparr>ld_poll := dict_set tenant now (ld_poll (try_load latest now tenant ld))\<rparr>
      else ld)"

definition settle_shadow :: "rat \<Rightarrow> string \<Rightarrow> loader \<Rightarrow> loader" where
  "settle_shadow now tenant ld =
     (if is_in_shadow now tenant (ld_tracker ld) then ld
      else case dict_get (ld_shadow ld) tenant of
             None \<Rightarrow> ld
           | Some m \<Rightarrow>
               (case evaluate_shadow tenant (ld_tracker ld) of
                  (passed, tr) \<Rightarrow>
                    ld\<lparr>ld_active := (if passed then dict_set tenant m (ld_active ld) else ld_active ld),
                       ld_shadow := dict_del tenant (ld_shadow ld), ld_tracker := tr\<rparr>))"

definition get_ensemble :: "model option \<Rightarrow> rat \<Rightarrow> string \<Rightarrow> loader \<Rightarrow> model option \<times> loader" where
  "get_ensemble latest now tenant ld =
     (let ld1 = settle_shadow now tenant (poll_model latest now tenant ld) in (dict_get (ld_active ld1) tenant, ld1))"

definition get_shadow_ensemble :: "rat \<Rightarrow> string \<Rightarrow> loader \<Rightarrow> model option" where
  "get_shadow_ensemble now tenant ld =
     (if is_in_shadow now tenant (ld_tracker ld) then dict_get (ld_shadow ld) tenant else None)"

definition get_feature_names :: "string \<Rightarrow> loader \<Rightarrow> string list" where
  "get_feature_names tenant ld = dict_get_or (ld_names ld) tenant []"

definition force_reload :: "model option \<Rightarrow> rat \<Rightarrow> string \<Rightarrow> loader \<Rightarrow> bool \<times> loader" where
  "force_reload latest now tenant ld =
     (let ld1 = try_load latest now tenant ld in (dict_get (ld_active ld1) tenant \<noteq> None, ld1))"

definition update_tenant_metadata :: "string \<Rightarrow> nat \<Rightarrow> rat \<Rightarrow> loader \<Rightarrow> loader" where
  "update_tenant_metadata tenant samples precision ld =
     ld\<lparr>ld_samples := dict_set tenant samples (ld_samples ld), ld_precision := dict_set tenant precision (ld_precision ld)\<rparr>"

text \<open>What scoring an event does with the model in the shadow: its score is only counted.\<close>

definition score_in_shadow :: "rat \<Rightarrow> string \<Rightarrow> (model \<Rightarrow> (rat \<times> bool) option) \<Rightarrow> loader \<Rightarrow> loader" where
  "score_in_shadow now tenant score ld =
     (case get_shadow_ensemble now tenant ld of
        None \<Rightarrow> ld
      | Some m \<Rightarrow>
          (case score m of
             None \<Rightarrow> ld
           | Some (s, a) \<Rightarrow> ld\<lparr>ld_tracker := record_shadow_score tenant s a (ld_tracker ld)\<rparr>))"

section \<open>The pipeline\<close>

record training =
  tr_stages :: "nat option"
  tr_names :: "string list"
  tr_samples :: nat
  tr_precision :: rat
  tr_recall :: rat
  tr_fpr :: rat

record ml_state =
  ml_scheduler :: retrain_scheduler
  ml_loader :: loader
  ml_registry :: model_registry

datatype retrain_result = Training_Failed | No_Models | Gate_Failed "gate_failure list" | Retrained nat

text \<open>The metrics that a new model is compared with: those of the version that the loader has seen last.\<close>

definition current_metrics :: "string \<Rightarrow> ml_state \<Rightarrow> rat \<times> rat" where
  "current_metrics tenant st =
     (case dict_get (ld_versions (ml_loader st)) tenant of
        None \<Rightarrow> (0, 0)
      | Some v \<Rightarrow> (case load_version tenant v (ml_registry st) of None \<Rightarrow> (0, 0) | Some m \<Rightarrow> (mv_precision m, mv_recall m)))"

definition retrain_failed :: "rat \<Rightarrow> string \<Rightarrow> ml_state \<Rightarrow> ml_state" where
  "retrain_failed now tenant st = st\<lparr>ml_scheduler := mark_retrain_completed now tenant False False (ml_scheduler st)\<rparr>"

text \<open>\<open>None\<close> for the training: it raised. \<open>now\<close> is the time of the end, \<open>version\<close> that of saving.\<close>

definition retrain_pipeline :: "training option \<Rightarrow> nat \<Rightarrow> rat \<Rightarrow> string \<Rightarrow> ml_state \<Rightarrow> retrain_result \<times> ml_state" where
  "retrain_pipeline result version now tenant st =
     (let st1 = st\<lparr>ml_scheduler := mark_retrain_started tenant (ml_scheduler st)\<rparr>
      in case result of
           None \<Rightarrow> (Training_Failed, retrain_failed now tenant st1)
         | Some tr \<Rightarrow>
             (case tr_stages tr of
                None \<Rightarrow> (No_Models, retrain_failed now tenant st1)
              | Some stages \<Rightarrow>
                  (case current_metrics tenant st1 of (cp, cr) \<Rightarrow>
                     let fs = gate_failures (tr_precision tr) (tr_recall tr) (tr_fpr tr) cp cr
                     in if fs \<noteq> [] then (Gate_Failed fs, retrain_failed now tenant st1)
                        else
                          let m = \<lparr>mv_version = version, mv_stages = stages, mv_names = tr_names tr,
                                   mv_precision = tr_precision tr, mv_recall = tr_recall tr\<rparr>;
                              reg = save_model tenant m (ml_registry st1);
                              ld = snd (force_reload (load_latest tenant reg) now tenant (ml_loader st1));
                              ld' = update_tenant_metadata tenant (tr_samples tr) (tr_precision tr) ld
                          in (Retrained version,
                              \<lparr>ml_scheduler = mark_retrain_completed now tenant True True (ml_scheduler st1),
                               ml_loader = ld', ml_registry = reg\<rparr>))))"

section \<open>Who starts a training\<close>

text \<open>The worker goes through the tenants it found; a request starts one at once. Trainings run in threads, so that
  those of the worker and of requests overlap. A request needs no role.\<close>

record trainings =
  tg_scheduler :: retrain_scheduler
  tg_found :: "string list"
  tg_worker :: "string option"
  tg_manual :: "string list"

definition worker_check :: "rat \<Rightarrow> trainings \<Rightarrow> trainings" where
  "worker_check now w =
     (if tg_found w = [] \<and> tg_worker w = None \<and> rs_enabled (tg_scheduler w)
      then w\<lparr>tg_found := check_all now (tg_scheduler w)\<rparr> else w)"

definition worker_begin :: "trainings \<Rightarrow> trainings" where
  "worker_begin w =
     (case (tg_found w, tg_worker w) of
        (t # ts, None) \<Rightarrow>
          w\<lparr>tg_found := ts, tg_worker := Some t, tg_scheduler := mark_retrain_started t (tg_scheduler w)\<rparr>
      | _ \<Rightarrow> w)"

definition worker_end :: "rat \<Rightarrow> bool \<Rightarrow> trainings \<Rightarrow> trainings" where
  "worker_end now ok w =
     (case tg_worker w of
        None \<Rightarrow> w
      | Some t \<Rightarrow> w\<lparr>tg_worker := None, tg_scheduler := mark_retrain_completed now t ok ok (tg_scheduler w)\<rparr>)"

definition request_begin :: "string \<Rightarrow> trainings \<Rightarrow> trainings" where
  "request_begin t w =
     (if t \<in> set (rs_active (tg_scheduler w)) then w
      else w\<lparr>tg_manual := tg_manual w @ [t], tg_scheduler := mark_retrain_started t (tg_scheduler w)\<rparr>)"

definition request_end :: "rat \<Rightarrow> string \<Rightarrow> bool \<Rightarrow> trainings \<Rightarrow> trainings" where
  "request_end now t ok w =
     (if t \<notin> set (tg_manual w) then w
      else w\<lparr>tg_manual := remove1 t (tg_manual w), tg_scheduler := mark_retrain_completed now t ok ok (tg_scheduler w)\<rparr>)"

datatype training_op =
  Worker_Check rat
| Worker_Begin
| Worker_End rat bool
| Request_Begin string
| Request_End rat string bool
| Labels string int
| Enable bool

fun training_step :: "trainings \<Rightarrow> training_op \<Rightarrow> trainings" where
  "training_step w (Worker_Check now) = worker_check now w"
| "training_step w Worker_Begin = worker_begin w"
| "training_step w (Worker_End now ok) = worker_end now ok w"
| "training_step w (Request_Begin t) = request_begin t w"
| "training_step w (Request_End now t ok) = request_end now t ok w"
| "training_step w (Labels t n) = w\<lparr>tg_scheduler := record_labels t n (tg_scheduler w)\<rparr>"
| "training_step w (Enable b) = w\<lparr>tg_scheduler := (tg_scheduler w)\<lparr>rs_enabled := b\<rparr>\<rparr>"

lemmas training_step_defs = worker_check_def worker_begin_def worker_end_def request_begin_def request_end_def

end
