(* ===== verification/Model_Lifecycle_Props.thy ===== *)
theory Model_Lifecycle_Props
  imports Model_Lifecycle
begin

text \<open>
  Properties of the life of a model: the active model changes only after its hour in the shadow, the names of the
  features do not wait for it, small losses of precision add up, and what keeps trainings of a tenant apart.
\<close>

section \<open>Changing the active model\<close>

datatype loader_op =
  Get_Model "model option" rat string
| Force_Reload "model option" rat string
| Score_Shadow rat string "model \<Rightarrow> (rat \<times> bool) option"
| Update_Metadata string nat rat

fun loader_step :: "loader \<Rightarrow> loader_op \<Rightarrow> loader" where
  "loader_step ld (Get_Model latest now t) = snd (get_ensemble latest now t ld)"
| "loader_step ld (Force_Reload latest now t) = snd (force_reload latest now t ld)"
| "loader_step ld (Score_Shadow now t score) = score_in_shadow now t score ld"
| "loader_step ld (Update_Metadata t n p) = update_tenant_metadata t n p ld"

definition loader_ok :: "loader \<Rightarrow> bool" where
  "loader_ok ld \<longleftrightarrow> (\<forall>t. (dict_get (ld_shadow ld) t = None \<longleftrightarrow> dict_get (ld_tracker ld) t = None) \<and>
     (dict_get (ld_active ld) t = None \<longrightarrow> dict_get (ld_shadow ld) t = None))"

lemma loader_ok_try_load: "loader_ok ld \<Longrightarrow> loader_ok (try_load latest now t ld)"
  by (auto simp: loader_ok_def try_load_def start_shadow_def Let_def split: option.splits)

lemma loader_ok_poll: "loader_ok ld \<Longrightarrow> loader_ok (poll_model latest now t ld)"
  using loader_ok_try_load [of ld latest now t] by (simp add: poll_model_def loader_ok_def)

lemma loader_ok_settle: "loader_ok ld \<Longrightarrow> loader_ok (settle_shadow now t ld)"
  by (auto simp: loader_ok_def settle_shadow_def evaluate_shadow_def split: option.splits prod.splits)

lemma loader_ok_step: "loader_ok ld \<Longrightarrow> loader_ok (loader_step ld c)"
proof (induction ld c rule: loader_step.induct)
  case (3 ld now t score)
  then show ?case
    by (auto simp: score_in_shadow_def record_shadow_score_def loader_ok_def split: option.splits)
qed (auto simp: get_ensemble_def force_reload_def Let_def loader_ok_try_load intro: loader_ok_settle loader_ok_poll,
    simp add: update_tenant_metadata_def loader_ok_def)

interpretation loader_machine: machine loader_step loader_ok
  by unfold_locales (rule loader_ok_step)

lemma loader_ok_new: "loader_ok new_loader"
  by (simp add: loader_ok_def new_loader_def)

lemma try_load_active: "dict_get (ld_active ld) t = Some m \<Longrightarrow> dict_get (ld_active (try_load latest now t' ld)) t = Some m"
  by (auto simp: try_load_def Let_def split: option.splits)

lemma poll_active: "dict_get (ld_active ld) t = Some m \<Longrightarrow> dict_get (ld_active (poll_model latest now t' ld)) t = Some m"
  by (simp add: poll_model_def try_load_active)

text \<open>A poll leaves the shadow as it was, or starts a new one.\<close>

lemma poll_shadow:
  "dict_get (ld_active ld) t = Some m \<Longrightarrow>
   (dict_get (ld_tracker (poll_model latest now t ld)) t = dict_get (ld_tracker ld) t \<and>
    dict_get (ld_shadow (poll_model latest now t ld)) t = dict_get (ld_shadow ld) t) \<or>
   is_in_shadow now t (ld_tracker (poll_model latest now t ld))"
  by (auto simp: poll_model_def try_load_def start_shadow_def is_in_shadow_def SHADOW_DURATION_def Let_def split: option.splits)

lemma alert_rate_bound: "alert_rate s \<le> SHADOW_FPR_MAX \<longleftrightarrow> 10 * sh_alerts s \<le> sh_total s \<or> sh_total s = 0"
proof (cases "sh_total s = 0")
  case False
  then have "alert_rate s \<le> SHADOW_FPR_MAX \<longleftrightarrow> (of_nat (10 * sh_alerts s) :: rat) \<le> of_nat (sh_total s)"
    by (simp add: alert_rate_def SHADOW_FPR_MAX_def divide_simps mult.commute)
  with False show ?thesis by (simp only: of_nat_le_iff simp_thms)
qed (simp add: alert_rate_def SHADOW_FPR_MAX_def)

text \<open>Read off the operations alone: the model and the time of an operation that offers a tenant a model, the verdicts of a
  model on the events of the tenant within the hour after \<open>start\<close>, and the versions that were forced.\<close>

fun offers :: "loader_op \<Rightarrow> string \<Rightarrow> rat \<Rightarrow> model \<Rightarrow> bool" where
  "offers (Get_Model latest now t') t start m \<longleftrightarrow> t' = t \<and> now = start \<and> latest = Some m"
| "offers (Force_Reload latest now t') t start m \<longleftrightarrow> t' = t \<and> now = start \<and> latest = Some m"
| "offers c t start m \<longleftrightarrow> False"

fun verdicts :: "model \<Rightarrow> rat \<Rightarrow> string \<Rightarrow> loader_op list \<Rightarrow> bool list" where
  "verdicts m start t [] = []"
| "verdicts m start t (Score_Shadow now t' score # cs) =
     (case score m of
        Some (_, alert) \<Rightarrow> if t' = t \<and> now - start \<le> 3600 then alert # verdicts m start t cs else verdicts m start t cs
      | None \<Rightarrow> verdicts m start t cs)"
| "verdicts m start t (c # cs) = verdicts m start t cs"

fun forced_versions :: "string \<Rightarrow> loader_op list \<Rightarrow> nat list" where
  "forced_versions t [] = []"
| "forced_versions t (Force_Reload (Some m) now t' # cs) =
     (if t' = t then mv_version m # forced_versions t cs else forced_versions t cs)"
| "forced_versions t (c # cs) = forced_versions t cs"

lemma verdicts_append: "verdicts m start t (cs @ ds) = verdicts m start t cs @ verdicts m start t ds"
  by (induction m start t cs rule: verdicts.induct) (auto split: option.splits)

lemma forced_versions_append: "forced_versions t (cs @ ds) = forced_versions t cs @ forced_versions t ds"
  by (induction t cs rule: forced_versions.induct) auto

text \<open>What the shadow of a tenant owes to the operations \<open>before\<close>, \<open>entry\<close> and \<open>after\<close> its entry.\<close>

definition shadow_since :: "loader_op list \<Rightarrow> string \<Rightarrow> shadow_run \<Rightarrow> model \<Rightarrow> bool" where
  "shadow_since ops t s m \<longleftrightarrow>
     (\<exists>before entry after. ops = before @ entry # after \<and> offers entry t (sh_start s) m \<and>
        sh_total s = length (verdicts m (sh_start s) t after) \<and>
        sh_alerts s = length (filter (\<lambda>a. a) (verdicts m (sh_start s) t after)) \<and>
        set (forced_versions t after) \<subseteq> {mv_version m})"

lemma shadow_since_entry:
  "offers c t (sh_start s) m \<Longrightarrow> sh_total s = 0 \<Longrightarrow> sh_alerts s = 0 \<Longrightarrow> shadow_since (ops @ [c]) t s m"
  unfolding shadow_since_def by (intro exI [of _ ops] exI [of _ c] exI [of _ "[]"]) simp

lemma shadow_since_snoc:
  assumes "shadow_since ops t s m" and "sh_start s' = sh_start s"
    and "sh_total s' = sh_total s + length (verdicts m (sh_start s) t [c])"
    and "sh_alerts s' = sh_alerts s + length (filter (\<lambda>a. a) (verdicts m (sh_start s) t [c]))"
    and "set (forced_versions t [c]) \<subseteq> {mv_version m}"
  shows "shadow_since (ops @ [c]) t s' m"
proof -
  obtain before entry after where o: "ops = before @ entry # after" "offers entry t (sh_start s) m"
    "sh_total s = length (verdicts m (sh_start s) t after)"
    "sh_alerts s = length (filter (\<lambda>a. a) (verdicts m (sh_start s) t after))"
    "set (forced_versions t after) \<subseteq> {mv_version m}"
    using assms(1) unfolding shadow_since_def by blast
  show ?thesis
    unfolding shadow_since_def
    by (intro exI [of _ before] exI [of _ entry] exI [of _ "after @ [c]"])
      (use o assms(2-5) in \<open>simp add: verdicts_append forced_versions_append\<close>)
qed

lemma shadow_since_silent:
  "shadow_since ops t s m \<Longrightarrow> verdicts m (sh_start s) t [c] = [] \<Longrightarrow> set (forced_versions t [c]) \<subseteq> {mv_version m} \<Longrightarrow>
   shadow_since (ops @ [c]) t s m"
  by (erule shadow_since_snoc) simp_all

definition shadow_traced :: "loader_op list \<Rightarrow> loader \<Rightarrow> string \<Rightarrow> bool" where
  "shadow_traced ops ld t \<longleftrightarrow>
     (\<forall>s. dict_get (ld_tracker ld) t = Some s \<longrightarrow>
        (\<exists>m. dict_get (ld_shadow ld) t = Some m \<and> dict_get (ld_versions ld) t = Some (mv_version m) \<and> shadow_since ops t s m))"

text \<open>The operations on a tenant: a load puts a new model into the shadow or finds the version it knows.\<close>

lemma traced_try_load:
  assumes "shadow_traced ops ld t" and "loader_ok ld" and "\<And>m. latest = Some m \<Longrightarrow> offers c t now m"
    and "\<And>m s. verdicts m s t [c] = []" and "set (forced_versions t [c]) \<subseteq> (case latest of None \<Rightarrow> {} | Some m \<Rightarrow> {mv_version m})"
  shows "shadow_traced (ops @ [c]) (try_load latest now t ld) t"
proof (cases latest)
  case None
  with assms show ?thesis by (auto simp: try_load_def shadow_traced_def intro!: shadow_since_silent)
next
  case (Some m)
  show ?thesis
  proof (cases "dict_get (ld_versions ld) t = Some (mv_version m)")
    case True
    with assms Some show ?thesis
      by (fastforce simp: try_load_def shadow_traced_def intro: shadow_since_silent)
  next
    case False
    have "dict_get (ld_active ld) t = None \<Longrightarrow> dict_get (ld_tracker ld) t = None"
      using assms(2) unfolding loader_ok_def by blast
    with assms(3) [OF Some] False Some show ?thesis
      by (auto simp: try_load_def start_shadow_def shadow_traced_def Let_def intro: shadow_since_entry)
  qed
qed

lemma traced_settle: "shadow_traced ops ld t \<Longrightarrow> shadow_traced ops (settle_shadow now t ld) t"
  by (auto simp: shadow_traced_def settle_shadow_def evaluate_shadow_def split: option.splits)

lemma traced_get_model:
  assumes "shadow_traced ops ld t" and "loader_ok ld"
  shows "shadow_traced (ops @ [Get_Model latest now t]) (snd (get_ensemble latest now t ld)) t"
proof -
  let ?ops = "ops @ [Get_Model latest now t]"
  have "shadow_traced ?ops ld t"
    using assms(1) by (fastforce simp: shadow_traced_def intro: shadow_since_silent)
  moreover have "shadow_traced ?ops (try_load latest now t ld) t"
    using assms by (rule traced_try_load) (auto split: option.splits)
  ultimately have "shadow_traced ?ops (poll_model latest now t ld) t"
    by (simp add: poll_model_def shadow_traced_def)
  then show ?thesis by (simp add: get_ensemble_def Let_def traced_settle)
qed

lemma traced_score:
  assumes "shadow_traced ops ld t"
  shows "shadow_traced (ops @ [Score_Shadow now t score]) (score_in_shadow now t score ld) t"
  unfolding shadow_traced_def
proof (intro allI impI)
  fix s' assume s': "dict_get (ld_tracker (score_in_shadow now t score ld)) t = Some s'"
  then obtain s where s: "dict_get (ld_tracker ld) t = Some s"
    by (auto simp: score_in_shadow_def record_shadow_score_def split: option.splits)
  with assms obtain m where m: "dict_get (ld_shadow ld) t = Some m" "dict_get (ld_versions ld) t = Some (mv_version m)"
    "shadow_since ops t s m" unfolding shadow_traced_def by blast
  have "sh_start s' = sh_start s \<and> sh_total s' = sh_total s + length (verdicts m (sh_start s) t [Score_Shadow now t score]) \<and>
      sh_alerts s' = sh_alerts s + length (filter (\<lambda>a. a) (verdicts m (sh_start s) t [Score_Shadow now t score]))"
    using s' s m(1)
    by (auto simp: score_in_shadow_def get_shadow_ensemble_def is_in_shadow_def record_shadow_score_def SHADOW_DURATION_def
        not_less split: option.splits if_splits)
  with m(3) have "shadow_since (ops @ [Score_Shadow now t score]) t s' m"
    by (intro shadow_since_snoc [of ops t s]) simp_all
  with m show "\<exists>m. dict_get (ld_shadow (score_in_shadow now t score ld)) t = Some m \<and>
      dict_get (ld_versions (score_in_shadow now t score ld)) t = Some (mv_version m) \<and>
      shadow_since (ops @ [Score_Shadow now t score]) t s' m"
    by (auto simp: score_in_shadow_def split: option.splits)
qed

text \<open>The operations on another tenant, and the metadata, leave the shadow alone.\<close>

fun concerns :: "string \<Rightarrow> loader_op \<Rightarrow> bool" where
  "concerns t (Get_Model latest now t') \<longleftrightarrow> t' = t"
| "concerns t (Force_Reload latest now t') \<longleftrightarrow> t' = t"
| "concerns t (Score_Shadow now t' score) \<longleftrightarrow> t' = t"
| "concerns t (Update_Metadata t' n p) \<longleftrightarrow> False"

lemma unconcerned_same:
  "\<not> concerns t c \<Longrightarrow> dict_get (ld_tracker (loader_step ld c)) t = dict_get (ld_tracker ld) t \<and>
     dict_get (ld_shadow (loader_step ld c)) t = dict_get (ld_shadow ld) t \<and>
     dict_get (ld_versions (loader_step ld c)) t = dict_get (ld_versions ld) t"
  by (cases c) (auto simp: get_ensemble_def settle_shadow_def poll_model_def try_load_def start_shadow_def evaluate_shadow_def
      force_reload_def score_in_shadow_def record_shadow_score_def update_tenant_metadata_def Let_def split: option.splits)

lemma unconcerned_silent: "\<not> concerns t c \<Longrightarrow> verdicts m start t [c] = [] \<and> forced_versions t [c] = []"
proof (cases c)
  case (Force_Reload latest now t')
  then show "\<not> concerns t c \<Longrightarrow> ?thesis" by (cases latest) simp_all
qed (auto split: option.splits)

lemma traced_step:
  assumes "shadow_traced ops ld t" and "loader_ok ld"
  shows "shadow_traced (ops @ [c]) (loader_step ld c) t"
proof (cases "concerns t c")
  case False
  note same = unconcerned_same [OF False] and silent = unconcerned_silent [OF False]
  have "shadow_since (ops @ [c]) t s m" if "shadow_since ops t s m" for s m
    using that by (rule shadow_since_snoc) (simp_all only: silent list.size list.set filter.simps add_0_right empty_subsetI)
  with assms(1) same show ?thesis
    by (simp add: shadow_traced_def) blast
next
  case True
  then show ?thesis
  proof (cases c)
    case (Force_Reload latest now t')
    then have "shadow_traced (ops @ [c]) (try_load latest now t ld) t"
      using True by (intro traced_try_load [OF assms]; cases latest) simp_all
    with Force_Reload True show ?thesis by (simp add: force_reload_def Let_def)
  qed (use True assms in \<open>auto intro: traced_get_model traced_score\<close>)
qed

lemma traced_run: "shadow_traced ops (foldl loader_step new_loader ops) t"
proof (induction ops rule: rev_induct)
  case Nil
  then show ?case by (simp add: shadow_traced_def new_loader_def)
next
  case (snoc c ops)
  have "loader_ok (foldl loader_step new_loader ops)"
    by (rule loader_machine.inv_run [OF loader_ok_new])
  with snoc show ?case by (simp add: traced_step)
qed

text \<open>
  A step that changes the active model of a tenant is a request for it that takes over the model in the shadow,
  whose hour is over and whose rate of alerts passed.
\<close>

lemma change_takes_shadow:
  assumes "loader_ok ld" and "dict_get (ld_active ld) t = Some m" and "dict_get (ld_active (loader_step ld c)) t \<noteq> Some m"
  shows "\<exists>latest now s m'. c = Get_Model latest now t \<and> dict_get (ld_tracker ld) t = Some s \<and> 3600 < now - sh_start s \<and>
    (10 * sh_alerts s \<le> sh_total s \<or> sh_total s = 0) \<and> dict_get (ld_shadow ld) t = Some m' \<and>
    dict_get (ld_active (loader_step ld c)) t = Some m'"
proof (cases c)
  case (Get_Model latest now t')
  let ?ld = "poll_model latest now t' ld"
  have active: "dict_get (ld_active ?ld) t = Some m"
    using assms(2) by (rule poll_active)
  have changed: "dict_get (ld_active (settle_shadow now t' ?ld)) t \<noteq> Some m"
    using assms(3) by (simp add: Get_Model get_ensemble_def Let_def)
  with active have t: "t' = t" and over: "\<not> is_in_shadow now t (ld_tracker ?ld)"
    by (auto simp: settle_shadow_def split: if_splits option.splits prod.splits)
  with active changed obtain m' where m': "dict_get (ld_shadow ?ld) t = Some m'" and passed: "fst (evaluate_shadow t (ld_tracker ?ld))"
    and new: "dict_get (ld_active (settle_shadow now t' ?ld)) t = Some m'"
    by (auto simp: settle_shadow_def split: if_splits option.splits prod.splits)
  have "loader_ok ?ld" using assms(1) by (rule loader_ok_poll)
  with m' have "dict_get (ld_tracker ?ld) t \<noteq> None"
    unfolding loader_ok_def by (metis option.distinct(1))
  then obtain s where s: "dict_get (ld_tracker ?ld) t = Some s"
    by blast
  have same: "dict_get (ld_tracker ld) t = Some s" "dict_get (ld_shadow ld) t = Some m'"
    using poll_shadow [OF assms(2), of latest now] over s m' t by auto
  have "3600 < now - sh_start s"
    using over s by (simp add: is_in_shadow_def SHADOW_DURATION_def)
  moreover have "10 * sh_alerts s \<le> sh_total s \<or> sh_total s = 0"
    using passed s by (simp add: evaluate_shadow_def alert_rate_bound)
  ultimately show ?thesis
    using Get_Model t same new by (auto simp: get_ensemble_def Let_def)
next
  case (Force_Reload latest now t')
  with assms(2,3) try_load_active [OF assms(2)] show ?thesis
    by (simp add: force_reload_def Let_def)
next
  case (Score_Shadow now t' score)
  with assms(2,3) show ?thesis
    by (auto simp: score_in_shadow_def split: option.splits)
next
  case (Update_Metadata t' n p)
  with assms(2,3) show ?thesis
    by (simp add: update_tenant_metadata_def)
qed

text \<open>
  C18: Over any use of the loader, for all tenants and whatever models the registry offers, the active model of a tenant
  changes to another only when it is asked for, and then to a model that some earlier operation of the run offered for
  that tenant more than an hour before (the times are those of the two operations), no other version being forced
  since; and of the events of the tenant that were scored in between, within the hour, at most a tenth would have been
  alerts by the verdicts of that model.
\<close>

theorem active_changes_after_shadow:
  assumes "dict_get (ld_active (foldl loader_step new_loader ops)) t = Some m"
    and "dict_get (ld_active (foldl loader_step new_loader (ops @ [c]))) t \<noteq> Some m"
  shows "\<exists>latest now before entry start after m'.
    c = Get_Model latest now t \<and> dict_get (ld_active (foldl loader_step new_loader (ops @ [c]))) t = Some m' \<and>
    ops = before @ entry # after \<and> offers entry t start m' \<and> 3600 < now - start \<and>
    10 * length (filter (\<lambda>alert. alert) (verdicts m' start t after)) \<le> length (verdicts m' start t after) \<and>
    set (forced_versions t after) \<subseteq> {mv_version m'}"
proof -
  let ?ld = "foldl loader_step new_loader ops"
  have "loader_ok ?ld" by (rule loader_machine.inv_run [OF loader_ok_new])
  from change_takes_shadow [OF this assms(1), of c] assms(2) obtain latest now s m' where
    c: "c = Get_Model latest now t" "dict_get (ld_tracker ?ld) t = Some s" "3600 < now - sh_start s"
      "10 * sh_alerts s \<le> sh_total s \<or> sh_total s = 0" "dict_get (ld_shadow ?ld) t = Some m'"
      "dict_get (ld_active (loader_step ?ld c)) t = Some m'" by auto
  moreover from traced_run [of ops t] c(2,5) have "shadow_since ops t s m'"
    by (auto simp: shadow_traced_def)
  ultimately show ?thesis
    unfolding shadow_since_def by fastforce
qed

definition small_model :: "nat \<Rightarrow> string list \<Rightarrow> model" where
  "small_model v names = \<lparr>mv_version = v, mv_stages = v, mv_names = names, mv_precision = 9 / 10, mv_recall = 9 / 10\<rparr>"

text \<open>The second model scores eleven events, of which it would have reported one.\<close>

definition scored_models :: "loader_op list" where
  "scored_models =
     [Force_Reload (Some (small_model 1 [''calls''])) 1000 ''t'', Get_Model (Some (small_model 2 [''bytes''])) 2000 ''t'',
      Score_Shadow 2100 ''t'' (\<lambda>_. Some (9 / 10, True))] @ replicate 10 (Score_Shadow 2200 ''t'' (\<lambda>_. Some (1 / 10, False)))"

definition shadowing :: "nat \<Rightarrow> nat \<Rightarrow> loader \<Rightarrow> bool" where
  "shadowing alerts scored ld \<longleftrightarrow>
     dict_get (ld_active ld) ''t'' = Some (small_model 1 [''calls'']) \<and> dict_get (ld_shadow ld) ''t'' = Some (small_model 2 [''bytes'']) \<and>
     map_option (\<lambda>s. (sh_start s, sh_alerts s, sh_total s)) (dict_get (ld_tracker ld) ''t'') = Some (2000, alerts, scored)"

lemma shadowing_score:
  "shadowing a n ld \<Longrightarrow> now \<le> 5600 \<Longrightarrow>
   shadowing (if alert then Suc a else a) (Suc n) (loader_step ld (Score_Shadow now ''t'' (\<lambda>_. Some (x, alert))))"
  by (auto simp: shadowing_def score_in_shadow_def get_shadow_ensemble_def is_in_shadow_def record_shadow_score_def SHADOW_DURATION_def)

lemma shadowing_quiet:
  "shadowing a n ld \<Longrightarrow> shadowing a (n + k) (foldl loader_step ld (replicate k (Score_Shadow 2200 ''t'' (\<lambda>_. Some (1 / 10, False)))))"
proof (induction k arbitrary: n ld)
  case (Suc k)
  from shadowing_score [OF Suc.prems, of 2200 False "1 / 10"] Suc.IH [of "Suc n"] show ?case by simp
qed simp

lemma scored_models_run: "shadowing 1 11 (foldl loader_step new_loader scored_models)"
proof -
  have "shadowing 0 0 (foldl loader_step new_loader
      [Force_Reload (Some (small_model 1 [''calls''])) 1000 ''t'', Get_Model (Some (small_model 2 [''bytes''])) 2000 ''t''])"
    by code_simp
  from shadowing_quiet [OF shadowing_score [OF this, of 2100 True "9 / 10"], of 10] show ?thesis
    by (simp only: scored_models_def) simp
qed

lemma shadowing_promoted:
  "shadowing 1 11 ld \<Longrightarrow> dict_get (ld_active (loader_step ld (Get_Model None 6000 ''t''))) ''t'' = Some (small_model 2 [''bytes''])"
  by (auto simp: shadowing_def get_ensemble_def poll_model_def try_load_def settle_shadow_def is_in_shadow_def evaluate_shadow_def
      alert_rate_def SHADOW_DURATION_def SHADOW_FPR_MAX_def Let_def)

lemma active_changes_after_shadow_witness:
  "\<exists>latest now before entry start after m'.
    Get_Model None 6000 ''t'' = Get_Model latest now ''t'' \<and>
    dict_get (ld_active (foldl loader_step new_loader (scored_models @ [Get_Model None 6000 ''t'']))) ''t'' = Some m' \<and>
    scored_models = before @ entry # after \<and> offers entry ''t'' start m' \<and> 3600 < now - start \<and>
    10 * length (filter (\<lambda>alert. alert) (verdicts m' start ''t'' after)) \<le> length (verdicts m' start ''t'' after) \<and>
    set (forced_versions ''t'' after) \<subseteq> {mv_version m'}"
proof (rule active_changes_after_shadow)
  show "dict_get (ld_active (foldl loader_step new_loader scored_models)) ''t'' = Some (small_model 1 [''calls''])"
    using scored_models_run by (simp add: shadowing_def)
  show "dict_get (ld_active (foldl loader_step new_loader (scored_models @ [Get_Model None 6000 ''t'']))) ''t'' \<noteq> Some (small_model 1 [''calls''])"
    using shadowing_promoted [OF scored_models_run] by (simp add: small_model_def)
qed

section \<open>The names of the features\<close>

text \<open>
  A model that fails in the shadow leaves the names of its features behind: the old model stays active, but its
  events are scored with the names of the rejected one, and asking again, at any time, changes nothing as long as no
  third model is saved.
\<close>

theorem rejected_model_names_stay:
  assumes "dict_get (ld_active ld) t = Some m" and "dict_get (ld_versions ld) t \<noteq> Some (mv_version m')"
    and "ld1 = snd (force_reload (Some m') start t ld)" and "during - start \<le> 3600" and "score m' = Some (x, True)"
    and "ld2 = score_in_shadow during t score ld1" and "3600 < later - start"
    and "get_ensemble (Some m') later t ld2 = (used, ld3)"
  shows "used = Some m \<and> get_feature_names t ld3 = mv_names m' \<and>
    fst (get_ensemble (Some m') again t ld3) = Some m \<and> get_feature_names t (snd (get_ensemble (Some m') again t ld3)) = mv_names m'"
proof -
  have ld1: "dict_get (ld_active ld1) t = Some m" "dict_get (ld_shadow ld1) t = Some m'" "dict_get (ld_versions ld1) t = Some (mv_version m')"
    "dict_get (ld_names ld1) t = Some (mv_names m')"
    "dict_get (ld_tracker ld1) t = Some \<lparr>sh_start = start, sh_version = mv_version m', sh_scores = [], sh_alerts = 0, sh_total = 0\<rparr>"
    using assms(1-3) by (simp_all add: force_reload_def try_load_def start_shadow_def Let_def)
  obtain s where ld2: "dict_get (ld_active ld2) t = Some m" "dict_get (ld_shadow ld2) t = Some m'"
    "dict_get (ld_versions ld2) t = Some (mv_version m')" "dict_get (ld_names ld2) t = Some (mv_names m')"
    "dict_get (ld_tracker ld2) t = Some s" and s: "sh_start s = start" "sh_alerts s = 1" "sh_total s = 1"
    using assms(4-6) ld1
    by (auto simp: score_in_shadow_def get_shadow_ensemble_def is_in_shadow_def record_shadow_score_def SHADOW_DURATION_def not_less)
  have keep: "dict_get (ld_active (poll_model (Some m') n t l)) t = dict_get (ld_active l) t \<and>
      dict_get (ld_shadow (poll_model (Some m') n t l)) t = dict_get (ld_shadow l) t \<and>
      dict_get (ld_tracker (poll_model (Some m') n t l)) t = dict_get (ld_tracker l) t \<and>
      dict_get (ld_names (poll_model (Some m') n t l)) t = dict_get (ld_names l) t \<and>
      dict_get (ld_versions (poll_model (Some m') n t l)) t = dict_get (ld_versions l) t"
    if "dict_get (ld_versions l) t = Some (mv_version m')" for n l
    using that by (simp add: poll_model_def try_load_def)
  have "\<not> alert_rate s \<le> SHADOW_FPR_MAX"
    by (simp add: alert_rate_def SHADOW_FPR_MAX_def s)
  then have ld3: "used = Some m" "dict_get (ld_active ld3) t = Some m" "dict_get (ld_shadow ld3) t = None"
    "dict_get (ld_names ld3) t = Some (mv_names m')" "dict_get (ld_versions ld3) t = Some (mv_version m')"
    using assms(7,8) ld2 s keep [OF ld2(3), of later]
    by (auto simp: get_ensemble_def settle_shadow_def evaluate_shadow_def is_in_shadow_def SHADOW_DURATION_def Let_def)
  then show ?thesis
    using keep [OF ld3(5), of again] by (auto simp: get_ensemble_def settle_shadow_def get_feature_names_def dict_get_or_def Let_def)
qed

definition one_model :: loader where
  "one_model = snd (force_reload (Some (small_model 1 [''calls''])) 1000 ''t'' new_loader)"

definition after_shadow :: "model option \<times> loader" where
  "after_shadow = get_ensemble (Some (small_model 2 [''bytes''])) 9000 ''t''
     (score_in_shadow 2100 ''t'' (\<lambda>_. Some (9 / 10, True)) (snd (force_reload (Some (small_model 2 [''bytes''])) 2000 ''t'' one_model)))"

lemma rejected_model_names_stay_witness:
  "fst after_shadow = Some (small_model 1 [''calls'']) \<and> get_feature_names ''t'' (snd after_shadow) = [''bytes'']"
proof -
  have one: "dict_get (ld_active one_model) ''t'' = Some (small_model 1 [''calls''])" "dict_get (ld_versions one_model) ''t'' = Some 1"
    by code_simp+
  have "get_ensemble (Some (small_model 2 [''bytes''])) 9000 ''t''
     (score_in_shadow 2100 ''t'' (\<lambda>_. Some (9 / 10, True)) (snd (force_reload (Some (small_model 2 [''bytes''])) 2000 ''t'' one_model)))
     = (fst after_shadow, snd after_shadow)"
    by (simp add: after_shadow_def)
  from rejected_model_names_stay [OF one(1) _ refl _ _ refl _ this, where x = "9 / 10" and again = 10000] show ?thesis
    by (simp add: one(2) small_model_def)
qed

section \<open>The quality gate\<close>

definition weaker :: "nat \<Rightarrow> training" where
  "weaker k = \<lparr>tr_stages = Some k, tr_names = [], tr_samples = 1000, tr_precision = 1 - of_nat k / 64, tr_recall = 1, tr_fpr = 0\<rparr>"

definition start_state :: ml_state where
  "start_state = \<lparr>ml_scheduler = new_scheduler, ml_loader = new_loader, ml_registry = []\<rparr>"

fun weakened :: "nat \<Rightarrow> ml_state" where
  "weakened 0 = start_state"
| "weakened (Suc k) = snd (retrain_pipeline (Some (weaker k)) (Suc k) (of_nat (Suc k)) ''t'' (weakened k))"

definition weak_model :: "nat \<Rightarrow> model" where
  "weak_model k = \<lparr>mv_version = k, mv_stages = k - 1, mv_names = [], mv_precision = 1 - of_nat (k - 1) / 64, mv_recall = 1\<rparr>"

definition weakened_ok :: "nat \<Rightarrow> ml_state \<Rightarrow> bool" where
  "weakened_ok k st \<longleftrightarrow> dict_get_or (ml_registry st) ''t'' [] = map weak_model [1..<Suc k] \<and>
     dict_get (ld_versions (ml_loader st)) ''t'' = (if k = 0 then None else Some k)"

lemma find_later: "find P xs = None \<Longrightarrow> find P (xs @ ys) = find P ys"
  by (induction xs) (auto split: if_splits)

lemma weak_precisions: "map (\<lambda>k. mv_precision (weak_model k)) [1..<Suc n] = map (\<lambda>k. 1 - of_nat k / 64) [0..<n]"
  by (induction n) (simp_all add: weak_model_def)

lemma weak_versions: "map mv_version (map weak_model ks) = ks"
  by (induction ks) (simp_all add: weak_model_def)

lemma load_latest_sorted:
  assumes "dict_get_or reg t [] = ms @ [m]" and "sorted (map mv_version (ms @ [m]))"
  shows "load_latest t reg = Some m"
proof -
  have "sort_key mv_version (ms @ [m]) = ms @ [m]"
    using assms(2) by (rule sort_key_id_if_sorted)
  with assms(1) show ?thesis
    by (simp only: load_latest_def Let_def) simp
qed

lemma gate_accepts_small_loss:
  assumes "k \<le> 64"
  shows "gate_failures (1 - of_nat k / 64) 1 0 (1 - of_nat (k - 1) / 64) 1 = []"
proof -
  have "(of_nat k :: rat) \<le> 64" using assms by (metis of_nat_le_iff of_nat_numeral)
  then show ?thesis
    by (cases k) (auto simp: gate_failures_def clamp01_def max_def min_def field_simps)
qed

lemma weakened_step:
  assumes "weakened_ok k st" and "k \<le> 64"
  shows "fst (retrain_pipeline (Some (weaker k)) (Suc k) now ''t'' st) = Retrained (Suc k) \<and>
    weakened_ok (Suc k) (snd (retrain_pipeline (Some (weaker k)) (Suc k) now ''t'' st))"
proof -
  let ?st = "st\<lparr>ml_scheduler := mark_retrain_started ''t'' (ml_scheduler st)\<rparr>"
  let ?m = "\<lparr>mv_version = Suc k, mv_stages = k, mv_names = [], mv_precision = 1 - of_nat k / 64, mv_recall = 1\<rparr>"
  have m: "?m = weak_model (Suc k)" by (simp add: weak_model_def)
  have reg: "dict_get_or (ml_registry st) ''t'' [] = map weak_model [1..<Suc k]"
    and ver: "dict_get (ld_versions (ml_loader st)) ''t'' = (if k = 0 then None else Some k)"
    using assms(1) by (simp_all add: weakened_ok_def)
  have current: "current_metrics ''t'' ?st = (if k = 0 then (0, 0) else (1 - of_nat (k - 1) / 64, 1))"
  proof (cases k)
    case (Suc j)
    have "find (\<lambda>m. mv_version m = k) (map weak_model [1..<Suc k]) = Some (weak_model k)"
    proof -
      have "find (\<lambda>m. mv_version m = k) (map weak_model [1..<k]) = None"
        by (auto simp: find_None_iff weak_model_def)
      moreover have "[1..<Suc k] = [1..<k] @ [k]"
        using Suc by simp
      ultimately show ?thesis
        by (simp only: map_append find_later) (simp add: weak_model_def)
    qed
    with Suc reg ver show ?thesis
      by (simp add: current_metrics_def load_version_def weak_model_def)
  qed (use ver in \<open>simp add: current_metrics_def\<close>)
  have gate: "gate_failures (1 - of_nat k / 64) 1 0 (fst (current_metrics ''t'' ?st)) (snd (current_metrics ''t'' ?st)) = []"
    using gate_accepts_small_loss [OF assms(2)] current by (cases k) (auto simp: gate_failures_def clamp01_def)
  have "filter (\<lambda>x. mv_version x \<noteq> Suc k) (map weak_model [1..<Suc k]) = map weak_model [1..<Suc k]"
    by (auto simp: filter_id_conv weak_model_def)
  moreover have split_last: "[1..<Suc (Suc k)] = [1..<Suc k] @ [Suc k]" by simp
  ultimately have saved: "dict_get_or (save_model ''t'' ?m (ml_registry st)) ''t'' [] = map weak_model [1..<Suc (Suc k)]"
    by (simp only: map_append) (simp add: save_model_def reg del: upt_Suc flip: m)
  have "sorted (map mv_version (map weak_model [1..<Suc (Suc k)]))"
    unfolding weak_versions by (rule sorted_upt)
  then have latest: "load_latest ''t'' (save_model ''t'' ?m (ml_registry st)) = Some ?m"
    using load_latest_sorted [of "save_model ''t'' ?m (ml_registry st)" "''t''" "map weak_model [1..<Suc k]" ?m] saved
    unfolding split_last map_append list.map m by blast
  have "dict_get (ld_versions (snd (force_reload (Some ?m) now ''t'' (ml_loader st)))) ''t'' = Some (Suc k)"
    by (simp add: force_reload_def try_load_def Let_def)
  with gate saved latest show ?thesis
    by (simp add: retrain_pipeline_def weaker_def Let_def weakened_ok_def update_tenant_metadata_def split_beta del: upt_Suc)
qed

lemma weakened_run: "k \<le> 65 \<Longrightarrow> weakened_ok k (weakened k)"
proof (induction k)
  case 0
  then show ?case by (simp add: weakened_ok_def start_state_def new_loader_def dict_get_or_def)
next
  case (Suc k)
  then show ?case using weakened_step [of k "weakened k"] by simp
qed

text \<open>
  The gate compares each model with the one before only: sixty-five trainings, each a sixty-fourth less precise than
  the last, are all deployed, and the last one has precision zero.
\<close>

theorem gate_ratchets_down:
  "(\<forall>k \<le> 64. fst (retrain_pipeline (Some (weaker k)) (Suc k) (of_nat (Suc k)) ''t'' (weakened k)) = Retrained (Suc k)) \<and>
   map mv_precision (dict_get_or (ml_registry (weakened 65)) ''t'' []) = map (\<lambda>k. 1 - of_nat k / 64) [0..<65] \<and>
   mv_precision (last (dict_get_or (ml_registry (weakened 65)) ''t'' [])) = 0"
proof -
  have "fst (retrain_pipeline (Some (weaker k)) (Suc k) (of_nat (Suc k)) ''t'' (weakened k)) = Retrained (Suc k)" if "k \<le> 64" for k
    using weakened_step [of k "weakened k"] weakened_run [of k] that by simp
  moreover have reg: "dict_get_or (ml_registry (weakened 65)) ''t'' [] = map weak_model [1..<Suc 65]"
    using weakened_run [of 65] by (simp add: weakened_ok_def)
  moreover have "mv_precision (last (map weak_model [1..<Suc 65])) = 0"
    by (simp add: last_map weak_model_def)
  ultimately show ?thesis
    unfolding reg map_map comp_def weak_precisions by blast
qed

section \<open>Trainings side by side\<close>

fun is_worker_op :: "training_op \<Rightarrow> bool" where
  "is_worker_op (Worker_Check now) = True"
| "is_worker_op Worker_Begin = True"
| "is_worker_op (Worker_End now ok) = True"
| "is_worker_op c = False"

definition requests_ok :: "trainings \<Rightarrow> bool" where
  "requests_ok w \<longleftrightarrow> distinct (tg_manual w) \<and> set (tg_manual w) = set (rs_active (tg_scheduler w))"

lemma record_labels_active: "rs_active (record_labels t n rs) = rs_active rs"
  by (simp add: record_labels_def evict_tenant_def Let_def)

lemma requests_ok_step: "requests_ok w \<Longrightarrow> \<not> is_worker_op c \<Longrightarrow> requests_ok (training_step w c)"
  by (induction w c rule: training_step.induct)
    (auto simp: requests_ok_def training_step_defs mark_retrain_started_def mark_retrain_completed_def record_labels_active)

text \<open>
  Requests alone never train a tenant twice at the same time: the trainings they started and that are running are
  of different tenants, and are the ones the scheduler counts as active.
\<close>

theorem requests_train_once:
  assumes "\<forall>c \<in> set cs. \<not> is_worker_op c" and "tg_manual w = []" and "rs_active (tg_scheduler w) = []"
  shows "distinct (tg_manual (foldl training_step w cs)) \<and>
    set (tg_manual (foldl training_step w cs)) = set (rs_active (tg_scheduler (foldl training_step w cs)))"
proof -
  have "requests_ok w \<Longrightarrow> \<forall>c \<in> set cs. \<not> is_worker_op c \<Longrightarrow> requests_ok (foldl training_step w cs)" for w
    by (induction cs arbitrary: w) (auto intro: requests_ok_step)
  moreover have "requests_ok w" using assms(2,3) by (simp add: requests_ok_def)
  ultimately show ?thesis using assms(1) by (simp add: requests_ok_def)
qed

definition idle :: trainings where
  "idle = \<lparr>tg_scheduler = new_scheduler, tg_found = [], tg_worker = None, tg_manual = []\<rparr>"

lemma requests_train_once_witness:
  "distinct (tg_manual (foldl training_step idle [Request_Begin ''t'', Request_Begin ''t'', Request_Begin ''u'']))"
  by (rule conjunct1, rule requests_train_once) (simp_all add: idle_def new_scheduler_def)

text \<open>The worker does not look again at a tenant that it found: it trains beside a request, and the end of one training
  lets a third begin. Requests are not held to the number of concurrent trainings or to the gap.\<close>

lemma tenant_trained_twice:
  "let w = foldl training_step idle
       [Labels ''s'' 50, Labels ''t'' 50, Worker_Check 9000, Worker_Begin, Request_Begin ''t'', Worker_End 9100 True, Worker_Begin]
   in tg_worker w = Some ''t'' \<and> tg_manual w = [''t'']"
  by (simp add: idle_def new_scheduler_def training_step_defs record_labels_def mark_retrain_started_def mark_retrain_completed_def check_all_def
      check_retrain_def dict_get_or_def MAX_LABEL_BATCH_def MAX_TRACKED_TENANTS_def MIN_NEW_LABELS_def MIN_RETRAIN_GAP_def
      MAX_CONCURRENT_def Let_def)

lemma five_at_once:
  "length (tg_manual (foldl training_step idle (map Request_Begin [''a'', ''b'', ''c'', ''d'', ''e'']))) = 5 \<and> MAX_CONCURRENT = 4"
  by code_simp

lemma labels_during_training_lost:
  "dict_get_or (rs_new (mark_retrain_completed now t True True (record_labels t n (mark_retrain_started t rs)))) t 0 = 0"
  by (simp add: mark_retrain_completed_def)

end
