(* ===== verification/Spec2Isabelle.thy ===== *)
theory Spec2Isabelle
  imports Rule_Engine_Props Response_Gaps Response_Admin_Props Recording_Props Task_Tracker_Props Quarantine_Props Abac_Props Drift_Configurations Identity Auth_Props A2a_Props Rate_Limits_Props Ws_Alerts_Props Sdk_Transport_Props Consumers_Props Sso_Props Fanout_Props Policies_Props Purposes_Props Labels_Props Model_Lifecycle_Props
begin

text \<open>
  Phantex is a detection and response platform for software agents: sensors report what agents do, a rule
  engine written in Python matches the events against rules in its own language PRL, and a response layer
  acts on the alerts. This development models the parts of the backend that decide something: the rule
  language and its engine (\<open>src/backend/engine\<close>), the response layer, the permission checks, and the
  services that keep security records (\<open>src/backend/app/services\<close>). Each theory names the files and
  functions it translates; definitions keep the names of the code where Isabelle allows it.

  The parts and how they interact.

  \<^item> Rule language. \<open>PRL_Ast\<close> has the syntax tree, \<open>PRL_Lexer\<close> the scanner, \<open>PRL_Parser\<close> the recursive
    descent parser with its limits, \<open>PRL_Grammar\<close> the grammar as inductive relations. \<open>PRL_Lexer_Props\<close>
    shows that printed tokens scan back and where tokens stand, \<open>PRL_Parser_Props\<close> that the parser accepts
    exactly the grammar within its limits, always ends, and builds trees the evaluator can run.
  \<^item> Evaluation. \<open>Py_Values\<close> has the Python values with their truth, equality and order,
    \<open>PRL_Functions\<close> the functions rules may call over the sliding windows, trust scores and allowlists of
    the engine, \<open>PRL_Evaluator\<close> the evaluation of conditions, errors included.
    \<open>PRL_Functions_Props\<close> refines the windows to the recorded events of a history and shows their bounds and
    the isolation of tenants.
  \<^item> Alerts and the engine. \<open>Alerting\<close> has the truncation of payloads, their redacted broadcast and their
    publication; \<open>Rule_Engine\<close> one event from its topic to the alerts, actions and response handler;
    \<open>Rule_Engine_Props\<close> what holds of every processed event, errors of rules included.
  \<^item> Response. \<open>Response_State\<close> has the tables and what a request reads of its environment,
    \<open>Response_Policy\<close> the policies with cooldown, rate limit and cache, \<open>Response_Escalation\<close> the
    escalation ladder, the shadow mode and the kill switch, \<open>Agent_Commands\<close> the queue of orders to agents,
    \<open>Mcp_Registry\<close> the trust in MCP servers, \<open>Response_Orchestrator\<close> the dispatch of an action and the
    handling of an alert. \<open>Response_Admin\<close> has the routes of the administrators (\<open>routers/response.py\<close>): switches,
    policies, ladders, configuration and overrides. \<open>Response_Invariant\<close> shows that the operations of the services keep
    the invariant and only append to the action log, \<open>Response_Admin_Props\<close> that all operations keep it and that
    the one change to entries of the log is the link to a deleted policy; \<open>Response_Props\<close>, \<open>Response_Safety\<close>,
    \<open>Response_Ladder\<close> and \<open>Response_Gaps\<close> show the properties of single operations and runs.
  \<^item> Permissions. \<open>Ip_Address\<close> has the addresses and networks of Python's \<open>ipaddress\<close> and the address a
    request is attributed to, \<open>Abac\<close> the tables of roles and grants, the cache, the conditions and the
    operations on roles; \<open>Abac_Props\<close> what the checks guarantee and what they do not.
  \<^item> Records. \<open>Audit_Chain\<close> has the chained audit log and the legal holds, \<open>Task_Tracker\<close> the tasks agents
    delegate to each other, \<open>Quarantine\<close> the interception of a quarantined agent's actions,
    \<open>Drift_Workflow\<close> the resolution of configuration drift, statement by statement so that requests
    interleave, \<open>Identity\<close> the identity levels of agents.
  \<^item> Configurations. \<open>Py_Sets\<close> has the sets of Python values with their order, \<open>Drift_Detector\<close> the versioned
    snapshots of an agent's configuration, their comparison and the drift policy
    (\<open>drift/snapshot.py\<close>, \<open>drift/detector.py\<close>), whose events the workflow above resolves;
    \<open>Drift_Detector_Props\<close> shows what is compared with what, and \<open>Drift_Configurations\<close> characterises, for
    configurations of the usual shape, when the comparison reports nothing.
  \<^item> Recordings. \<open>Recording\<close> has the session recorder with its three levels, the replay of a session and the
    compliance exports of the audit chain (\<open>services/recording\<close>); \<open>Recording_Props\<close> shows that nothing
    above the level is kept, that a replay follows the recorded events, and which exports are empty.
  \<^item> Logins. \<open>Auth\<close> has the users, the passwords, the login with its rate limit and lockout, and the refresh
    tokens with their rotation (\<open>auth_service.py\<close>, \<open>user_service.py\<close>, \<open>routers/auth.py\<close>); \<open>Auth_Props\<close>
    bounds the guesses and shows that a refresh token is exchanged once.
  \<^item> Agents among each other. \<open>A2a\<close> has the agent cards, the correlation of delegated tasks with tool calls
    and the protocol fingerprints (\<open>services/a2a\<close>); \<open>A2a_Props\<close> shows what a verified card is and that the
    correlator finds exactly the linked pairs of its window.
  \<^item> Limits, sockets and transports. \<open>Rate_Limits\<close> has the token buckets of the API, the sliding windows in
    Redis, the three configured limiters and the limiter of the content analysis
    (\<open>middleware/rate_limit.py\<close>, \<open>services/redis_rate_limit.py\<close>, \<open>ml/content/hardening/rate_limiter.py\<close>);
    \<open>Ws_Alerts\<close> the tickets and connections through which alerts are watched (\<open>services/ws_ticket.py\<close>,
    \<open>alerting/ws_manager.py\<close>, \<open>routers/ws.py\<close>), over the broadcaster of \<open>Alerting\<close>; \<open>Sdk_Transport\<close> the queues
    through which instrumented agents send their events (\<open>src/sdk/python\<close>). Their \<open>_Props\<close> theories bound what is
    let through and show who receives an alert and what becomes of every event that is sent.
  \<^item> Storage. \<open>Consumers\<close> has the Kafka loop with its batches, retries and dead letters and the Postgres
    writer (\<open>consumers/base_consumer.py\<close>, \<open>consumers/pg_writer.py\<close>); \<open>Consumers_Props\<close> shows what a committed
    offset means and which messages stop the loop.
  \<^item> Single sign-on. \<open>Access\<close> has the current user of a request (\<open>middleware/auth.py\<close>), \<open>Sso\<close> the validation of
    SAML responses and OIDC codes and the users they create (\<open>services/sso_service.py\<close>, \<open>routers/sso.py\<close>), \<open>Scim\<close> the
    provisioning of users (\<open>services/scim_service.py\<close>, \<open>routers/scim.py\<close>); \<open>Sso_Props\<close> shows who is logged in by
    an assertion, how often, and what becomes of users who are provisioned or removed.
  \<^item> Notifications. \<open>Fanout\<close> has the routing of alerts to channels and integrations, with their limits and
    retries, and the CEF format (\<open>notifications\<close>, \<open>integrations\<close>, \<open>consumers/notification_consumer.py\<close>,
    \<open>consumers/siem_consumer.py\<close>); \<open>Fanout_Props\<close> which alerts reach which channel.
  \<^item> Detection policies. \<open>Policies\<close> has the schedules, scopes and overrides that policies apply to events, their
    validation and their versioned storage (\<open>consumers/policy_engine.py\<close>, \<open>services/policy_service.py\<close>,
    \<open>routers/policies.py\<close>); \<open>Policies_Props\<close> what they do to a severity and that their history is complete.
  \<^item> Learning. \<open>Purposes\<close> has what an agent is hired to do and what follows for its tool calls and delegations
    (\<open>ml/content/policy\<close>), \<open>Labels\<close> the approval of labels, the labels of a training set, the feedback of analysts and
    the store of samples (\<open>ml/integrity\<close>, \<open>ml/training/labeler.py\<close>, \<open>ml/content/fusion\<close>, \<open>ml/content/trained\<close>),
    \<open>Model_Lifecycle\<close> the scheduling of trainings, the quality gate and the loader with its shadow mode
    (\<open>ml/retrain\<close>, \<open>ml/serving\<close>, \<open>ml/registry\<close>). Their \<open>_Props\<close> theories show who must agree to a benign label,
    when the model that scores events changes, and how chains of delegations are bounded.

  Shared vocabulary. \<open>Prelude\<close> has dictionaries as association lists in insertion order, slices, and
  characters; \<open>Interfaces\<close> has the contracts as locales: a keyed store, a machine with an invariant, a
  machine whose log only grows, a buffer that keeps the last entries; two more stand beside
  their clients, the sorted sets of Redis and the transport of a batch. Every component interprets the
  contracts it fulfils on its own operations, and its properties rest on those interpretations.

  Conventions. State is a record passed explicitly; an operation that may raise returns a sum whose left
  side is the error, and an operation that raises leaves the state its transaction would leave. Characters
  are code points below 256, Python integers are \<open>int\<close> or \<open>nat\<close>, floats are the rationals they denote with
  infinities and NaN, their arithmetic is exact, dictionaries keep their insertion order. Clocks, random identifiers and everything
  outside \<open>src/\<close> (the HMAC, JSON texts, the broker, notification channels, the trust service) are arguments
  of the definitions; what a theorem needs of them is a hypothesis of it.

  Termination and fuel. The parser descends with fuel, and \<open>parser_total\<close> shows that its fuel always
  suffices. Loops that end are functions with a termination proof; the one loop of the modelled code that
  may run for ever, the walk up a delegation chain, is a \<open>partial_function\<close>, shown to return for new
  identifiers and not to return for a task that is its own parent.

  Not modelled. The services whose work is queries and presentation (analytics, timelines, compliance
  reports, dashboards, the copilot's language model calls), the routers except the operations on roles, logins,
  single sign-on, provisioning, policies, responses, sessions, snapshots and sockets, the learning algorithms and their scores, the sensors and gateways in other languages,
  the libraries that speak to Kafka, ClickHouse, Postgres and Redis, start and stop of services. They hold no decision that can be stated without the libraries they
  call; the manifest lists them.
\<close>

end
